(* ===== verification/Prelude.thy ===== *)
theory Prelude
  imports Main "HOL-Library.Char_ord" "HOL-Library.List_Lexorder" "HOL-Library.Product_Lexorder"
    "HOL-Library.Code_Target_Nat" "HOL-Library.Code_Target_Int"
begin

text \<open>
  What every component of the model shares: time as the daemon measures it, the
  row-level SQL idioms of the store (a table is the list of its rows in rowid order),
  and the hint collections the component proofs are built from.
\<close>

section \<open>Hint collections\<close>

named_theorems frame_simps \<open>what an operation leaves alone\<close>
named_theorems shape_intros \<open>preservation of well-formedness by an operation\<close>

section \<open>Time\<close>

text \<open>
  \<open>time.Time\<close> is an instant in nanoseconds since the epoch and \<open>time.Duration\<close> a
  difference of two instants; rows keep the whole seconds of \<open>Unix()\<close>.
\<close>

type_synonym time = int

definition ns_second :: int where
  "ns_second = 1000000000"

definition unix :: "time \<Rightarrow> int" where
  "unix t = t div ns_second"

definition from_unix :: "int \<Rightarrow> time" where
  "from_unix s = s * ns_second"

definition seconds :: "int \<Rightarrow> time" where
  "seconds n = n * ns_second"

lemma ns_second_pos [simp]: "0 < ns_second"
  by (simp add: ns_second_def)

lemma unix_from_unix [simp]: "unix (from_unix s) = s"
  by (simp add: unix_def from_unix_def ns_second_def)

lemma unix_mono: "a \<le> b \<Longrightarrow> unix a \<le> unix b"
  by (simp add: unix_def zdiv_mono1)

lemma from_unix_le_iff: "from_unix s \<le> t \<longleftrightarrow> s \<le> unix t"
  by (simp add: from_unix_def unix_def ns_second_def) linarith

lemma unix_diff_seconds: "unix (t - seconds n) = unix t - n"
  by (simp add: unix_def seconds_def ns_second_def)

section \<open>Tables\<close>

text \<open>
  \<open>UPDATE .. WHERE p\<close>, \<open>DELETE .. WHERE p\<close> and the two shapes of \<open>SELECT\<close> the code uses:
  every matching row, or the first one in the order given (\<open>LIMIT 1\<close>).
\<close>

definition update_where :: "('r \<Rightarrow> bool) \<Rightarrow> ('r \<Rightarrow> 'r) \<Rightarrow> 'r list \<Rightarrow> 'r list" where
  "update_where p f rs = map (\<lambda>r. if p r then f r else r) rs"

definition delete_where :: "('r \<Rightarrow> bool) \<Rightarrow> 'r list \<Rightarrow> 'r list" where
  "delete_where p rs = filter (\<lambda>r. \<not> p r) rs"

definition count_where :: "('r \<Rightarrow> bool) \<Rightarrow> 'r list \<Rightarrow> nat" where
  "count_where p rs = length (filter p rs)"

definition unique_key :: "('r \<Rightarrow> 'k) \<Rightarrow> 'r list \<Rightarrow> bool" where
  "unique_key key rs \<longleftrightarrow> distinct (map key rs)"

definition first_by :: "('r \<Rightarrow> 'k::linorder) \<Rightarrow> 'r list \<Rightarrow> 'r option" where
  "first_by key rs = (case sort_key key rs of [] \<Rightarrow> None | r # _ \<Rightarrow> Some r)"

lemma update_where_Nil [simp]: "update_where p f [] = []"
  by (simp add: update_where_def)

lemma update_where_Cons [simp]:
  "update_where p f (r # rs) = (if p r then f r else r) # update_where p f rs"
  by (simp add: update_where_def)

lemma update_where_append [simp]:
  "update_where p f (rs @ qs) = update_where p f rs @ update_where p f qs"
  by (simp add: update_where_def)

lemma length_update_where [simp]: "length (update_where p f rs) = length rs"
  by (simp add: update_where_def)

lemma set_update_where: "set (update_where p f rs) = (\<lambda>r. if p r then f r else r) ` set rs"
  by (simp add: update_where_def)

lemma update_whereE:
  assumes "r \<in> set (update_where p f rs)"
  obtains r0 where "r0 \<in> set rs" and "r = (if p r0 then f r0 else r0)"
  using assms by (auto simp: set_update_where)

lemma update_where_none: "(\<And>r. r \<in> set rs \<Longrightarrow> \<not> p r) \<Longrightarrow> update_where p f rs = rs"
  by (induction rs) auto

lemma map_update_where:
  "(\<And>r. r \<in> set rs \<Longrightarrow> p r \<Longrightarrow> g (f r) = g r) \<Longrightarrow> map g (update_where p f rs) = map g rs"
  by (induction rs) auto

lemma filter_update_where:
  "(\<And>r. r \<in> set rs \<Longrightarrow> p r \<Longrightarrow> q (f r) = q r) \<Longrightarrow>
   filter q (update_where p f rs) = update_where p f (filter q rs)"
  by (induction rs) auto

lemma find_update_where:
  "(\<And>r. r \<in> set rs \<Longrightarrow> p r \<Longrightarrow> q (f r) = q r) \<Longrightarrow>
   List.find q (update_where p f rs) = map_option (\<lambda>r. if p r then f r else r) (List.find q rs)"
  by (induction rs) auto

lemma update_where_update_where:
  "(\<And>r. r \<in> set rs \<Longrightarrow> p r \<Longrightarrow> p (f r)) \<Longrightarrow>
   update_where p g (update_where p f rs) = update_where p (g \<circ> f) rs"
  by (induction rs) auto

lemma delete_where_simps [simp]:
  "delete_where p [] = []"
  "delete_where p (r # rs) = (if p r then delete_where p rs else r # delete_where p rs)"
  "delete_where p (rs @ qs) = delete_where p rs @ delete_where p qs"
  by (auto simp: delete_where_def)

lemma set_delete_where [simp]: "set (delete_where p rs) = {r \<in> set rs. \<not> p r}"
  by (auto simp: delete_where_def)

lemma find_delete_where:
  "(\<And>r. r \<in> set rs \<Longrightarrow> q r \<Longrightarrow> \<not> p r) \<Longrightarrow> List.find q (delete_where p rs) = List.find q rs"
  by (induction rs) auto

lemma count_where_simps [simp]:
  "count_where p [] = 0"
  "count_where p (r # rs) = (if p r then Suc (count_where p rs) else count_where p rs)"
  "count_where p (rs @ qs) = count_where p rs + count_where p qs"
  by (auto simp: count_where_def)

lemma count_where_0: "count_where p rs = 0 \<longleftrightarrow> (\<forall>r \<in> set rs. \<not> p r)"
  by (induction rs) auto

lemma unique_key_Nil [simp, shape_intros]: "unique_key key []"
  by (simp add: unique_key_def)

lemma unique_key_Cons [simp]:
  "unique_key key (r # rs) \<longleftrightarrow> key r \<notin> key ` set rs \<and> unique_key key rs"
  by (auto simp: unique_key_def)

lemma unique_key_snoc [simp]:
  "unique_key key (rs @ [r]) \<longleftrightarrow> unique_key key rs \<and> key r \<notin> key ` set rs"
  by (auto simp: unique_key_def)

lemma unique_key_delete [shape_intros]: "unique_key key rs \<Longrightarrow> unique_key key (delete_where p rs)"
  by (induction rs) auto

lemma unique_key_update [shape_intros]:
  "unique_key key rs \<Longrightarrow> (\<And>r. r \<in> set rs \<Longrightarrow> p r \<Longrightarrow> key (f r) = key r) \<Longrightarrow>
   unique_key key (update_where p f rs)"
  by (simp add: unique_key_def map_update_where)

lemma unique_keyD:
  "unique_key key rs \<Longrightarrow> r \<in> set rs \<Longrightarrow> q \<in> set rs \<Longrightarrow> key r = key q \<Longrightarrow> r = q"
  by (auto simp: unique_key_def distinct_map dest: inj_onD)

lemma find_unique_key:
  assumes "unique_key key rs" and "r \<in> set rs"
  shows "List.find (\<lambda>q. key q = key r) rs = Some r"
  using assms by (induction rs) auto

lemma find_SomeD: "List.find p rs = Some r \<Longrightarrow> r \<in> set rs \<and> p r"
  by (induction rs) (auto split: if_splits)

lemma find_NoneD: "List.find p rs = None \<Longrightarrow> r \<in> set rs \<Longrightarrow> \<not> p r"
  by (auto simp: find_None_iff)

lemma find_append:
  "List.find p (rs @ qs) = (case List.find p rs of None \<Rightarrow> List.find p qs | Some r \<Rightarrow> Some r)"
  by (induction rs) auto

lemma find_cong_set: "(\<And>r. r \<in> set rs \<Longrightarrow> p r = q r) \<Longrightarrow> List.find p rs = List.find q rs"
  by (induction rs) auto

lemma first_by_SomeD:
  assumes "first_by key rs = Some r"
  shows "r \<in> set rs" and "\<forall>q \<in> set rs. key r \<le> key q"
proof -
  from assms obtain qs where qs: "sort_key key rs = r # qs"
    by (auto simp: first_by_def split: list.splits)
  have s: "set rs = insert r (set qs)"
    by (metis list.simps(15) qs set_sort)
  show "r \<in> set rs" using s by simp
  have "sorted (map key (r # qs))"
    by (metis qs sorted_sort_key)
  then show "\<forall>q \<in> set rs. key r \<le> key q" using s by auto
qed

lemma first_by_None [simp]: "first_by key rs = None \<longleftrightarrow> rs = []"
  by (auto simp: first_by_def split: list.splits dest: arg_cong [where f = set])

section \<open>Results\<close>

text \<open>
  A Go function returning \<open>(T, error)\<close> is a sum, the error on the left. \<open>bind_sum\<close> is the
  ``if err != nil return err'' between two calls.
\<close>

definition bind_sum :: "('e + 'a) \<Rightarrow> ('a \<Rightarrow> 'e + 'b) \<Rightarrow> 'e + 'b" where
  "bind_sum m k = (case m of Inl e \<Rightarrow> Inl e | Inr a \<Rightarrow> k a)"

lemma bind_sum_simps [simp]:
  "bind_sum (Inl e) k = Inl e"
  "bind_sum (Inr a) k = k a"
  by (simp_all add: bind_sum_def)

lemma bind_sum_Inr_iff: "bind_sum m k = Inr b \<longleftrightarrow> (\<exists>a. m = Inr a \<and> k a = Inr b)"
  by (cases m) auto

lemma bind_sum_InrE:
  assumes "bind_sum m k = Inr b"
  obtains a where "m = Inr a" and "k a = Inr b"
  using assms by (auto simp: bind_sum_Inr_iff)

section \<open>Runs\<close>

text \<open>A run of a step relation, with the events it produced.\<close>

inductive runs :: "('s \<Rightarrow> 'e \<Rightarrow> 's \<Rightarrow> bool) \<Rightarrow> 's \<Rightarrow> 'e list \<Rightarrow> 's \<Rightarrow> bool" for step where
  runs_stop: "runs step s [] s"
| runs_step: "step s e t \<Longrightarrow> runs step t es u \<Longrightarrow> runs step s (e # es) u"

inductive_cases runs_NilE: "runs step s [] t"
inductive_cases runs_ConsE: "runs step s (e # es) t"

lemma runs_invariant:
  assumes "runs step s es t" and "P s" and "\<And>s e t. step s e t \<Longrightarrow> P s \<Longrightarrow> P t"
  shows "P t"
  using assms by (induction rule: runs.induct) auto

text \<open>
  What is handed out once: every step hands out only what is pending, what it hands out is not
  pending any more, and nothing that was ever issued becomes pending again.
\<close>

locale once_drain =
  fixes pend :: "'s \<Rightarrow> 'i set" and issued :: "'s \<Rightarrow> 'i set"
    and step :: "'s \<Rightarrow> 'e \<Rightarrow> 's \<Rightarrow> bool" and handed :: "'e \<Rightarrow> 'i set"
  assumes only_pending: "step s e t \<Longrightarrow> handed e \<subseteq> pend s"
    and settled: "step s e t \<Longrightarrow> pend t \<inter> handed e = {}"
    and no_revival: "step s e t \<Longrightarrow> pend t \<inter> issued s \<subseteq> pend s"
    and issued_mono: "step s e t \<Longrightarrow> issued s \<subseteq> issued t"
    and pend_issued: "step s e t \<Longrightarrow> pend s \<subseteq> issued s \<Longrightarrow> pend t \<subseteq> issued t"
begin

lemma never_again:
  assumes "runs step s es t" and "i \<in> issued s" and "i \<notin> pend s" and "e \<in> set es"
  shows "i \<notin> handed e"
  using assms
proof (induction rule: runs.induct)
  case (runs_step s f t es u)
  then have "i \<in> issued t" "i \<notin> pend t"
    using issued_mono no_revival by blast+
  then show ?case using runs_step only_pending by auto
qed simp

lemma handed_once:
  assumes "runs step s es t" and "pend s \<subseteq> issued s"
  shows "sorted_wrt (\<lambda>e f. handed e \<inter> handed f = {}) es"
  using assms
proof (induction rule: runs.induct)
  case (runs_step s e t es u)
  have p: "pend t \<subseteq> issued t" using runs_step pend_issued by blast
  have "handed e \<inter> handed f = {}" if "f \<in> set es" for f
  proof -
    have "i \<notin> handed f" if "i \<in> handed e" for i
    proof (rule never_again [OF runs_step.hyps(2) _ _ \<open>f \<in> set es\<close>])
      show "i \<in> issued t"
        using that runs_step only_pending issued_mono by blast
      show "i \<notin> pend t" using that settled runs_step.hyps(1) by blast
    qed
    then show ?thesis by blast
  qed
  then show ?case using runs_step p by simp
qed simp

end

text \<open>
  Reservations: a count per key that a step either does not raise or raises from zero to one.
  \<open>ok\<close> is whatever the steps need to know of the state and keep.
\<close>

locale reservation =
  fixes ok :: "'s \<Rightarrow> bool" and held :: "'s \<Rightarrow> 'k \<Rightarrow> nat" and step :: "'s \<Rightarrow> 'e \<Rightarrow> 's \<Rightarrow> bool"
  assumes keep_ok: "step s e t \<Longrightarrow> ok s \<Longrightarrow> ok t"
    and take_or_leave: "step s e t \<Longrightarrow> ok s \<Longrightarrow> held t k \<le> held s k \<or> held s k = 0 \<and> held t k = 1"
begin

lemma exclusive:
  assumes "runs step s es t" and "ok s" and "\<And>k. held s k \<le> 1"
  shows "ok t \<and> (\<forall>k. held t k \<le> 1)"
  using assms
proof (induction rule: runs.induct)
  case (runs_step s e t es u)
  have "held t k \<le> 1" for k
    using take_or_leave [OF runs_step.hyps(1) runs_step.prems(1), of k] runs_step.prems(2) [of k] by auto
  then show ?case using runs_step keep_ok by blast
qed simp

end

end
