(* ===== verification/GoText.thy ===== *)
theory GoText
  imports Prelude
begin

text \<open>
  Go strings are byte strings, so a \<open>string\<close> here is the list of its bytes, each a
  \<open>char\<close>. This theory holds the operations of \<open>strings\<close>, \<open>strconv\<close>, \<open>fmt\<close> and
  \<open>unicode/utf8\<close> the code calls: UTF-8 decoding with its error rune, trimming, ASCII
  case mapping, cutting, joining and decimal printing.
\<close>

section \<open>Bytes\<close>

definition byte :: "char \<Rightarrow> nat" where
  "byte c = of_char c"

definition chr :: "nat \<Rightarrow> char" where
  "chr n = char_of n"

lemma byte_chr: "byte (chr n) = n mod 256"
  by (simp add: byte_def chr_def)

lemma chr_byte [simp]: "chr (byte c) = c"
  by (simp add: byte_def chr_def)

lemma byte_less [simp]: "byte c < 256"
  by (simp add: byte_def)

lemma byte_inject [simp]: "byte c = byte d \<longleftrightarrow> c = d"
  by (metis chr_byte)

definition is_digit :: "char \<Rightarrow> bool" where
  "is_digit c \<longleftrightarrow> 48 \<le> byte c \<and> byte c \<le> 57"

definition is_lower :: "char \<Rightarrow> bool" where
  "is_lower c \<longleftrightarrow> 97 \<le> byte c \<and> byte c \<le> 122"

definition is_upper :: "char \<Rightarrow> bool" where
  "is_upper c \<longleftrightarrow> 65 \<le> byte c \<and> byte c \<le> 90"

definition is_lower_hex :: "char \<Rightarrow> bool" where
  "is_lower_hex c \<longleftrightarrow> is_digit c \<or> (97 \<le> byte c \<and> byte c \<le> 102)"

definition is_hex :: "char \<Rightarrow> bool" where
  "is_hex c \<longleftrightarrow> is_lower_hex c \<or> (65 \<le> byte c \<and> byte c \<le> 70)"

definition is_ascii :: "string \<Rightarrow> bool" where
  "is_ascii s \<longleftrightarrow> list_all (\<lambda>c. byte c < 128) s"

lemmas byte_class_defs = is_digit_def is_lower_def is_upper_def is_lower_hex_def is_hex_def byte_def

section \<open>Case, prefixes, cutting and joining\<close>

text \<open>
  \<open>strings.ToLower\<close> and \<open>ToUpper\<close> on ASCII; bytes from 128 up are kept, so the case
  mapping of letters outside ASCII is not modelled.
\<close>

definition lower_char :: "char \<Rightarrow> char" where
  "lower_char c = (if is_upper c then chr (byte c + 32) else c)"

definition upper_char :: "char \<Rightarrow> char" where
  "upper_char c = (if is_lower c then chr (byte c - 32) else c)"

definition to_lower :: "string \<Rightarrow> string" where
  "to_lower s = map lower_char s"

definition to_upper :: "string \<Rightarrow> string" where
  "to_upper s = map upper_char s"

fun has_prefix :: "string \<Rightarrow> string \<Rightarrow> bool" where
  "has_prefix [] s = True"
| "has_prefix (p # ps) [] = False"
| "has_prefix (p # ps) (c # cs) = (p = c \<and> has_prefix ps cs)"

definition has_suffix :: "string \<Rightarrow> string \<Rightarrow> bool" where
  "has_suffix p s = has_prefix (rev p) (rev s)"

definition cut_prefix :: "string \<Rightarrow> string \<Rightarrow> string option" where
  "cut_prefix p s = (if has_prefix p s then Some (drop (length p) s) else None)"

definition cut_suffix :: "string \<Rightarrow> string \<Rightarrow> string option" where
  "cut_suffix p s = (if has_suffix p s then Some (take (length s - length p) s) else None)"

text \<open>\<open>strings.Contains\<close>, and SQLite's \<open>instr(s, sub) > 0\<close>.\<close>

fun contains :: "string \<Rightarrow> string \<Rightarrow> bool" where
  "contains sub [] = (sub = [])"
| "contains sub (c # cs) = (has_prefix sub (c # cs) \<or> contains sub cs)"

fun join :: "string \<Rightarrow> string list \<Rightarrow> string" where
  "join sep [] = []"
| "join sep [s] = s"
| "join sep (s # t # ts) = s @ sep @ join sep (t # ts)"

text \<open>\<open>strings.Split\<close> on a one-byte separator.\<close>

fun split_on :: "char \<Rightarrow> string \<Rightarrow> string list" where
  "split_on sep [] = [[]]"
| "split_on sep (c # cs) =
     (if c = sep then [] # split_on sep cs
      else (case split_on sep cs of [] \<Rightarrow> [[c]] | w # ws \<Rightarrow> (c # w) # ws))"

lemma has_prefix_iff: "has_prefix p s \<longleftrightarrow> (\<exists>t. s = p @ t)"
  by (induction p s rule: has_prefix.induct) auto

lemma has_prefix_append [simp]: "has_prefix p (p @ t)"
  by (auto simp: has_prefix_iff)

lemma contains_iff: "contains sub s \<longleftrightarrow> (\<exists>a b. s = a @ sub @ b)"
proof (induction s)
  case Nil
  then show ?case by simp
next
  case (Cons c cs)
  show ?case
  proof
    assume "contains sub (c # cs)"
    then consider "has_prefix sub (c # cs)" | "contains sub cs" by auto
    then show "\<exists>a b. c # cs = a @ sub @ b"
    proof cases
      case 1
      then show ?thesis by (metis append_Nil has_prefix_iff)
    next
      case 2
      then show ?thesis using Cons.IH by (metis append_Cons)
    qed
  next
    assume "\<exists>a b. c # cs = a @ sub @ b"
    then obtain a b where ab: "c # cs = a @ sub @ b" by blast
    show "contains sub (c # cs)"
    proof (cases a)
      case Nil
      then show ?thesis using ab by (metis append_Nil contains.simps(2) has_prefix_append)
    next
      case (Cons x xs)
      then show ?thesis using ab Cons.IH by auto
    qed
  qed
qed

lemma cut_prefix_Some: "cut_prefix p s = Some t \<longleftrightarrow> s = p @ t"
  by (auto simp: cut_prefix_def has_prefix_iff)

lemma length_split_on [simp]: "split_on sep s \<noteq> []"
  by (induction s) (auto split: list.splits)

lemma join_split_on: "join [sep] (split_on sep s) = s"
proof (induction s)
  case Nil
  then show ?case by simp
next
  case (Cons c cs)
  then show ?case
    by (cases "split_on sep cs"; cases "tl (split_on sep cs)") auto
qed

section \<open>Decimal printing\<close>

fun dec_nat :: "nat \<Rightarrow> string" where
  "dec_nat n = (if n < 10 then [chr (48 + n)] else dec_nat (n div 10) @ [chr (48 + n mod 10)])"

declare dec_nat.simps [simp del]

definition dec_int :: "int \<Rightarrow> string" where
  "dec_int i = (if i < 0 then CHR ''-'' # dec_nat (nat (- i)) else dec_nat (nat i))"

definition digit_value :: "char \<Rightarrow> nat" where
  "digit_value c = byte c - 48"

definition undec_nat :: "string \<Rightarrow> nat" where
  "undec_nat s = foldl (\<lambda>n c. 10 * n + digit_value c) 0 s"

lemma byte_digit: "n < 10 \<Longrightarrow> byte (chr (48 + n)) = 48 + n"
  by (simp add: byte_chr)

lemma undec_dec_nat [simp]: "undec_nat (dec_nat n) = n"
proof (induction n rule: dec_nat.induct)
  case (1 n)
  show ?case
  proof (cases "n < 10")
    case True
    then show ?thesis by (subst dec_nat.simps) (simp add: undec_nat_def digit_value_def byte_digit)
  next
    case False
    with "1.IH" show ?thesis
      by (subst dec_nat.simps) (simp add: undec_nat_def digit_value_def byte_digit)
  qed
qed

lemma dec_nat_inject [simp]: "dec_nat m = dec_nat n \<longleftrightarrow> m = n"
  by (metis undec_dec_nat)

lemma dec_nat_digits: "list_all is_digit (dec_nat n)"
proof (induction n rule: dec_nat.induct)
  case (1 n)
  have d: "m < 10 \<Longrightarrow> is_digit (chr (48 + m))" for m
    by (simp add: is_digit_def byte_digit)
  from 1 show ?case
    by (subst dec_nat.simps) (auto simp: d)
qed

lemma dec_nat_not_Nil [simp]: "dec_nat n \<noteq> []"
  by (subst dec_nat.simps) simp

lemma dec_nat_head: "0 < n \<Longrightarrow> hd (dec_nat n) \<noteq> CHR ''0''"
proof (induction n rule: dec_nat.induct)
  case (1 n)
  show ?case
  proof (cases "n < 10")
    case True
    have "byte (chr (48 + n)) \<noteq> byte (CHR ''0'')"
      using True "1.prems" by (simp add: byte_digit) (simp add: byte_def)
    then show ?thesis using True by (subst dec_nat.simps) (auto simp del: byte_inject)
  next
    case False
    then have "hd (dec_nat (n div 10)) \<noteq> CHR ''0''"
      using "1.IH" by auto
    then show ?thesis using False by (subst dec_nat.simps) (simp add: hd_append)
  qed
qed

section \<open>UTF-8\<close>

text \<open>
  \<open>utf8.DecodeRuneInString\<close>: the first rune and its width in bytes. An ill-formed
  sequence is \<open>RuneError\<close> (U+FFFD) of width 1.
\<close>

definition rune_error :: nat where
  "rune_error = 65533"

definition tail_in :: "nat \<Rightarrow> nat \<Rightarrow> char \<Rightarrow> bool" where
  "tail_in lo hi c \<longleftrightarrow> lo \<le> byte c \<and> byte c \<le> hi"

definition tail_bits :: "char \<Rightarrow> nat" where
  "tail_bits c = byte c - 128"

definition second_lo :: "nat \<Rightarrow> nat" where
  "second_lo b = (if b = 224 then 160 else if b = 240 then 144 else 128)"

definition second_hi :: "nat \<Rightarrow> nat" where
  "second_hi b = (if b = 237 then 159 else if b = 244 then 143 else 191)"

fun decode_rune :: "string \<Rightarrow> nat \<times> nat" where
  "decode_rune [] = (rune_error, 0)"
| "decode_rune (c # cs) =
    (let b = byte c in
     if b < 128 then (b, 1)
     else if 194 \<le> b \<and> b \<le> 223 then
       (case cs of
          c1 # _ \<Rightarrow> if tail_in 128 191 c1 then ((b - 192) * 64 + tail_bits c1, 2)
                   else (rune_error, 1)
        | [] \<Rightarrow> (rune_error, 1))
     else if 224 \<le> b \<and> b \<le> 239 then
       (case cs of
          c1 # c2 # _ \<Rightarrow>
            if tail_in (second_lo b) (second_hi b) c1 \<and> tail_in 128 191 c2
            then ((b - 224) * 4096 + tail_bits c1 * 64 + tail_bits c2, 3)
            else (rune_error, 1)
        | _ \<Rightarrow> (rune_error, 1))
     else if 240 \<le> b \<and> b \<le> 244 then
       (case cs of
          c1 # c2 # c3 # _ \<Rightarrow>
            if tail_in (second_lo b) (second_hi b) c1 \<and> tail_in 128 191 c2 \<and> tail_in 128 191 c3
            then ((b - 240) * 262144 + tail_bits c1 * 4096 + tail_bits c2 * 64 + tail_bits c3, 4)
            else (rune_error, 1)
        | _ \<Rightarrow> (rune_error, 1))
     else (rune_error, 1))"

lemma decode_rune_width: "s \<noteq> [] \<Longrightarrow> 1 \<le> snd (decode_rune s) \<and> snd (decode_rune s) \<le> length s"
  by (cases s) (auto simp: Let_def split: list.splits)

text \<open>\<open>range s\<close>: the runes of a string in order, each with the bytes it came from.\<close>

function runes :: "string \<Rightarrow> (nat \<times> string) list" where
  "runes [] = []"
| "runes (c # cs) =
     (case decode_rune (c # cs) of
        (r, n) \<Rightarrow> (r, take n (c # cs)) # runes (drop n (c # cs)))"
  by pat_completeness auto
termination
proof (relation "measure length", goal_cases)
  case (2 c cs x y)
  then show ?case using decode_rune_width [of "c # cs"] by (metis diff_less in_measure length_drop
        length_greater_0_conv less_le_trans list.discI snd_conv zero_less_one)
qed simp

lemma concat_runes: "concat (map snd (runes s)) = s"
proof (induction s rule: runes.induct)
  case 1
  then show ?case by simp
next
  case (2 c cs)
  obtain r n where d: "decode_rune (c # cs) = (r, n)" by (cases "decode_rune (c # cs)")
  with 2 have "concat (map snd (runes (drop n (c # cs)))) = drop n (c # cs)" by simp
  then have "concat (map snd (runes (c # cs))) = take n (c # cs) @ drop n (c # cs)"
    by (simp add: d del: take_Cons drop_Cons decode_rune.simps)
  then show ?case by simp
qed

lemma runes_ascii: "is_ascii s \<Longrightarrow> runes s = map (\<lambda>c. (byte c, [c])) s"
  by (induction s) (auto simp: is_ascii_def)

text \<open>\<open>utf8.AppendRune\<close>: the UTF-8 bytes of a code point.\<close>

definition encode_rune :: "nat \<Rightarrow> string" where
  "encode_rune r =
    (if r < 128 then [chr r]
     else if r < 2048 then [chr (192 + r div 64), chr (128 + r mod 64)]
     else if 1114111 < r \<or> (55296 \<le> r \<and> r \<le> 57343) then [chr 239, chr 191, chr 189]
     else if r < 65536 then
       [chr (224 + r div 4096), chr (128 + r div 64 mod 64), chr (128 + r mod 64)]
     else [chr (240 + r div 262144), chr (128 + r div 4096 mod 64),
           chr (128 + r div 64 mod 64), chr (128 + r mod 64)])"

definition is_bad_rune :: "nat \<times> string \<Rightarrow> bool" where
  "is_bad_rune rb \<longleftrightarrow> fst rb = rune_error \<and> length (snd rb) = 1"

definition valid_utf8 :: "string \<Rightarrow> bool" where
  "valid_utf8 s \<longleftrightarrow> list_all (\<lambda>rb. \<not> is_bad_rune rb) (runes s)"

text \<open>
  A rune is good when its bytes are its own encoding and decode to it in front of any text;
  every rune of a string that is not the error rune of width 1 is good.
\<close>

lemma digits64_1:
  fixes a d :: nat
  assumes "d < 64"
  shows "(a * 64 + d) div 64 = a" and "(a * 64 + d) mod 64 = d"
  using assms by simp_all

lemma digits64_2:
  fixes a c d :: nat
  assumes "c < 64" and "d < 64"
  shows "(a * 4096 + c * 64 + d) div 4096 = a"
    and "(a * 4096 + c * 64 + d) div 64 mod 64 = c"
    and "(a * 4096 + c * 64 + d) mod 64 = d"
proof -
  have e: "a * 4096 + c * 64 + d = (a * 64 + c) * 64 + d" by simp
  have q: "(a * 4096 + c * 64 + d) div 64 = a * 64 + c"
    unfolding e by (rule digits64_1 [OF assms(2)])
  have "(a * 4096 + c * 64 + d) div 64 div 64 = a"
    unfolding q by (rule digits64_1 [OF assms(1)])
  then show "(a * 4096 + c * 64 + d) div 4096 = a"
    by (simp add: div_mult2_eq [symmetric])
  show "(a * 4096 + c * 64 + d) div 64 mod 64 = c"
    unfolding q by (rule digits64_1 [OF assms(1)])
  show "(a * 4096 + c * 64 + d) mod 64 = d"
    unfolding e by (rule digits64_1 [OF assms(2)])
qed

lemma digits64_3:
  fixes a b c d :: nat
  assumes "b < 64" and "c < 64" and "d < 64"
  shows "(a * 262144 + b * 4096 + c * 64 + d) div 262144 = a"
    and "(a * 262144 + b * 4096 + c * 64 + d) div 4096 mod 64 = b"
    and "(a * 262144 + b * 4096 + c * 64 + d) div 64 mod 64 = c"
    and "(a * 262144 + b * 4096 + c * 64 + d) mod 64 = d"
proof -
  have e: "a * 262144 + b * 4096 + c * 64 + d = (a * 64 + b) * 4096 + c * 64 + d" by simp
  have q: "(a * 262144 + b * 4096 + c * 64 + d) div 4096 = a * 64 + b"
    unfolding e by (rule digits64_2 [OF assms(2,3)])
  have "(a * 262144 + b * 4096 + c * 64 + d) div 4096 div 64 = a"
    unfolding q by (rule digits64_1 [OF assms(1)])
  then show "(a * 262144 + b * 4096 + c * 64 + d) div 262144 = a"
    by (simp add: div_mult2_eq [symmetric])
  show "(a * 262144 + b * 4096 + c * 64 + d) div 4096 mod 64 = b"
    unfolding q by (rule digits64_1 [OF assms(1)])
  show "(a * 262144 + b * 4096 + c * 64 + d) div 64 mod 64 = c"
    and "(a * 262144 + b * 4096 + c * 64 + d) mod 64 = d"
    unfolding e by (rule digits64_2 [OF assms(2,3)])+
qed

lemma tail_in_bits: "tail_in lo hi c \<Longrightarrow> 128 \<le> lo \<Longrightarrow> hi \<le> 191 \<Longrightarrow> tail_bits c < 64 \<and> chr (128 + tail_bits c) = c"
  by (auto simp: tail_in_def tail_bits_def)

lemma second_bounds: "128 \<le> second_lo b" "second_hi b \<le> 191"
  by (auto simp: second_lo_def second_hi_def)

definition good_rune :: "nat \<times> string \<Rightarrow> bool" where
  "good_rune rb \<longleftrightarrow> snd rb \<noteq> [] \<and> encode_rune (fst rb) = snd rb \<and>
     (\<forall>t. decode_rune (snd rb @ t) = (fst rb, length (snd rb)))"

lemma good_rune_2:
  assumes "194 \<le> byte c" and "byte c \<le> 223" and t: "tail_in 128 191 c1"
  shows "good_rune ((byte c - 192) * 64 + tail_bits c1, [c, c1])"
proof -
  define b where "b = byte c"
  have cb: "chr b = c" and b: "194 \<le> b" "b \<le> 223" using assms by (simp_all add: b_def)
  define r where "r = (b - 192) * 64 + tail_bits c1"
  note tb = tail_in_bits [OF t order.refl order.refl]
  have "b - 192 \<le> 31" "2 \<le> b - 192" using b by arith+
  then have r1: "128 \<le> r" "r < 2048" using tb by (simp_all add: r_def)
  have "chr (192 + r div 64) = c" and "chr (128 + r mod 64) = c1"
    using b tb cb digits64_1 [of "tail_bits c1" "b - 192"] by (simp_all add: r_def)
  then have "encode_rune r = [c, c1]" using r1 by (simp add: encode_rune_def)
  moreover have "decode_rune ([c, c1] @ t) = (r, 2)" for t
    using b t by (simp add: b_def r_def Let_def)
  ultimately show ?thesis by (simp add: good_rune_def r_def b_def del: decode_rune.simps)
qed

lemma good_rune_3:
  assumes "224 \<le> byte c" and "byte c \<le> 239"
    and t: "tail_in (second_lo (byte c)) (second_hi (byte c)) c1" "tail_in 128 191 c2"
  shows "good_rune ((byte c - 224) * 4096 + tail_bits c1 * 64 + tail_bits c2, [c, c1, c2])"
proof -
  define b where "b = byte c"
  have cb: "chr b = c" and b: "224 \<le> b" "b \<le> 239" using assms by (simp_all add: b_def)
  define r where "r = (b - 224) * 4096 + tail_bits c1 * 64 + tail_bits c2"
  note tb1 = tail_in_bits [OF t(1) second_bounds] and tb2 = tail_in_bits [OF t(2) order.refl order.refl]
  have lo: "b = 224 \<Longrightarrow> 32 \<le> tail_bits c1" and hi: "b = 237 \<Longrightarrow> tail_bits c1 < 32"
    using t(1) by (auto simp: tail_in_def second_lo_def second_hi_def tail_bits_def b_def)
  have b15: "b - 224 \<le> 15" using b by arith
  have nsur: "\<not> (55296 \<le> r \<and> r \<le> 57343)"
  proof (cases "b = 237")
    case True
    then show ?thesis using hi tb2 by (auto simp: r_def)
  next
    case False
    then have "b \<le> 236 \<or> 238 \<le> b" by arith
    then show ?thesis using tb1 tb2 b by (auto simp: r_def)
  qed
  have r1: "2048 \<le> r" "r < 65536"
    using lo b b15 tb1 tb2 by (cases "b = 224"; simp add: r_def)+
  have e: "chr (224 + r div 4096) = c" "chr (128 + r div 64 mod 64) = c1" "chr (128 + r mod 64) = c2"
    using b tb1 tb2 cb digits64_2 [of "tail_bits c1" "tail_bits c2" "b - 224"] by (simp_all add: r_def)
  then have "encode_rune r = [c, c1, c2]" using r1 nsur by (auto simp add: encode_rune_def)
  moreover have "decode_rune ([c, c1, c2] @ t) = (r, 3)" for t
    using b t by (simp add: b_def r_def Let_def)
  ultimately show ?thesis
    by (simp add: good_rune_def r_def b_def del: decode_rune.simps)
qed

lemma good_rune_4:
  assumes "240 \<le> byte c" and "byte c \<le> 244"
    and t: "tail_in (second_lo (byte c)) (second_hi (byte c)) c1" "tail_in 128 191 c2" "tail_in 128 191 c3"
  shows "good_rune ((byte c - 240) * 262144 + tail_bits c1 * 4096 + tail_bits c2 * 64 + tail_bits c3,
    [c, c1, c2, c3])"
proof -
  define b where "b = byte c"
  have cb: "chr b = c" and b: "240 \<le> b" "b \<le> 244" using assms by (simp_all add: b_def)
  define r where "r = (b - 240) * 262144 + tail_bits c1 * 4096 + tail_bits c2 * 64 + tail_bits c3"
  note tb1 = tail_in_bits [OF t(1) second_bounds]
    and tb2 = tail_in_bits [OF t(2) order.refl order.refl]
    and tb3 = tail_in_bits [OF t(3) order.refl order.refl]
  have lo: "b = 240 \<Longrightarrow> 16 \<le> tail_bits c1" and hi: "b = 244 \<Longrightarrow> tail_bits c1 < 16"
    using t(1) by (auto simp: tail_in_def second_lo_def second_hi_def tail_bits_def b_def)
  have lt: "b \<noteq> 244 \<Longrightarrow> b - 240 \<le> 3" and gt: "b \<noteq> 240 \<Longrightarrow> 1 \<le> b - 240" using b by arith+
  have r1: "65536 \<le> r"
    using lo gt tb1 tb2 tb3 by (cases "b = 240") (simp_all add: r_def)
  have r2: "r \<le> 1114111"
    using hi lt tb1 tb2 tb3 by (cases "b = 244") (simp_all add: r_def)
  have e: "chr (240 + r div 262144) = c" "chr (128 + r div 4096 mod 64) = c1"
      "chr (128 + r div 64 mod 64) = c2" "chr (128 + r mod 64) = c3"
    using b tb1 tb2 tb3 cb digits64_3 [of "tail_bits c1" "tail_bits c2" "tail_bits c3" "b - 240"]
    by (simp_all add: r_def)
  then have "encode_rune r = [c, c1, c2, c3]" using r1 r2 by (simp add: encode_rune_def)
  moreover have "decode_rune ([c, c1, c2, c3] @ t) = (r, 4)" for t
    using b t by (simp add: b_def r_def Let_def)
  ultimately show ?thesis
    by (simp add: good_rune_def r_def b_def del: decode_rune.simps)
qed

lemma good_rune_1: "byte c < 128 \<Longrightarrow> good_rune (byte c, [c])"
  by (simp add: good_rune_def Let_def encode_rune_def)

lemma take_some:
  "take 2 (a # b # xs) = [a, b]"
  "take 3 (a # b # c # xs) = [a, b, c]"
  "take 4 (a # b # c # d # xs) = [a, b, c, d]"
  by (simp_all add: numeral_eq_Suc)

lemma good_rune_decode:
  assumes "decode_rune s = (r, n)" and "s \<noteq> []" and "\<not> (r = rune_error \<and> n = 1)"
  shows "good_rune (r, take n s)"
proof -
  obtain c cs where s: "s = c # cs" using assms(2) by (cases s) auto
  show ?thesis
    using assms(1,3) unfolding s
    by (auto simp: Let_def take_some good_rune_1 good_rune_2 good_rune_3 good_rune_4
        split: if_splits list.splits)
qed

lemma good_runes: "rb \<in> set (runes s) \<Longrightarrow> \<not> is_bad_rune rb \<Longrightarrow> good_rune rb"
proof (induction s rule: runes.induct)
  case 1
  then show ?case by simp
next
  case (2 c cs)
  obtain r n where d: "decode_rune (c # cs) = (r, n)" by (cases "decode_rune (c # cs)")
  have w: "n \<le> length (c # cs)" using decode_rune_width [of "c # cs"] d by simp
  from "2.prems" d consider "rb = (r, take n (c # cs))" | "rb \<in> set (runes (drop n (c # cs)))"
    by (auto simp del: decode_rune.simps take_Cons drop_Cons)
  then show ?case
  proof cases
    case 1
    with "2.prems" w have "\<not> (r = rune_error \<and> n = 1)"
      by (auto simp: is_bad_rune_def)
    then show ?thesis using good_rune_decode [OF d] 1 by simp
  next
    case 2
    then show ?thesis using "2.IH" [OF d [symmetric]] "2.prems" by simp
  qed
qed

lemma valid_utf8_good: "valid_utf8 s \<Longrightarrow> rb \<in> set (runes s) \<Longrightarrow> good_rune rb"
  by (auto simp: valid_utf8_def list_all_iff good_runes)

lemma good_rune_bytes:
  assumes "good_rune (r, bs)"
  shows "r < 128 \<Longrightarrow> bs = [chr r]" and "128 \<le> r \<Longrightarrow> \<forall>c \<in> set bs. 128 \<le> byte c"
  using assms
  by (auto simp: good_rune_def encode_rune_def byte_chr split: if_splits)

text \<open>\<open>unicode.IsSpace\<close>.\<close>

definition is_space :: "nat \<Rightarrow> bool" where
  "is_space r \<longleftrightarrow> (9 \<le> r \<and> r \<le> 13) \<or> r = 32 \<or> r = 133 \<or> r = 160 \<or> r = 5760
     \<or> (8192 \<le> r \<and> r \<le> 8202) \<or> r = 8232 \<or> r = 8233 \<or> r = 8239 \<or> r = 8287 \<or> r = 12288"

definition trim_space :: "string \<Rightarrow> string" where
  "trim_space s =
     concat (map snd (rev (dropWhile (\<lambda>rb. is_space (fst rb))
       (rev (dropWhile (\<lambda>rb. is_space (fst rb)) (runes s))))))"

section \<open>fmt quoting\<close>

text \<open>
  The \<open>%q\<close> verb on ASCII: printable bytes as they are, quotes and backslashes escaped,
  the named control escapes, other control bytes as \<open>\xNN\<close>. Bytes from 128 up are kept:
  the table of printable runes above ASCII is not modelled, and only error texts use it.
\<close>

definition hex_digit :: "nat \<Rightarrow> char" where
  "hex_digit n = (if n < 10 then chr (48 + n) else chr (87 + n))"

definition quote_char :: "char \<Rightarrow> string" where
  "quote_char c =
    (let b = byte c in
     if b = 34 then [chr 92, chr 34]
     else if b = 92 then [chr 92, chr 92]
     else if b = 7 then [chr 92, CHR ''a'']
     else if b = 8 then [chr 92, CHR ''b'']
     else if b = 12 then [chr 92, CHR ''f'']
     else if b = 10 then [chr 92, CHR ''n'']
     else if b = 13 then [chr 92, CHR ''r'']
     else if b = 9 then [chr 92, CHR ''t'']
     else if b = 11 then [chr 92, CHR ''v'']
     else if b < 32 \<or> b = 127 then [chr 92, CHR ''x'', hex_digit (b div 16), hex_digit (b mod 16)]
     else [c])"

definition go_quote :: "string \<Rightarrow> string" where
  "go_quote s = chr 34 # concat (map quote_char s) @ [chr 34]"

end
