(* ===== verification/Protocol.thy ===== *)
theory Protocol
  imports Json
begin

text \<open>
  \<open>internal/protocol\<close> and \<open>internal/taskid\<close>: the ops and kinds of the wire, the structured
  address, the eyes task bodies with the documents they are printed as, and the shape of a
  task id. A wire op is any string; the ones the daemon knows have names here.
\<close>

section \<open>Ops and kinds\<close>

datatype op =
    OpRegister | OpDeregister | OpIdle | OpEvent | OpAgents | OpBoard | OpSend | OpRead | OpPeek
  | OpBroadcast | OpWhoami | OpClaim | OpRelease | OpClaims | OpHistory | OpListWorkspaces
  | OpListEyes | OpListEyesTasks | OpSendWorkspace | OpRequestEyes | OpCancelEyes
  | OpUnknown string

definition op_names :: "(op \<times> string) list" where
  "op_names = [(OpRegister, ''register''), (OpDeregister, ''deregister''), (OpIdle, ''idle''),
     (OpEvent, ''event''), (OpAgents, ''agents''), (OpBoard, ''board''), (OpSend, ''send''),
     (OpRead, ''read''), (OpPeek, ''peek''), (OpBroadcast, ''broadcast''), (OpWhoami, ''whoami''),
     (OpClaim, ''claim''), (OpRelease, ''release''), (OpClaims, ''claims''), (OpHistory, ''history''),
     (OpListWorkspaces, ''list_workspaces''), (OpListEyes, ''list_eyes''),
     (OpListEyesTasks, ''list_eyes_tasks''), (OpSendWorkspace, ''send_workspace''),
     (OpRequestEyes, ''request_eyes''), (OpCancelEyes, ''cancel_eyes'')]"

definition op_of :: "string \<Rightarrow> op" where
  "op_of w = (case List.find (\<lambda>p. snd p = w) op_names of Some p \<Rightarrow> fst p | None \<Rightarrow> OpUnknown w)"

definition kind_eyes :: string where "kind_eyes = ''eyes''"
definition kind_launcher :: string where "kind_launcher = ''launcher''"

section \<open>Addresses, task events and messages\<close>

record agent_ref =
  ref_name :: string
  ref_id :: string
  ref_scope :: string

definition empty_ref :: agent_ref where
  "empty_ref = \<lparr>ref_name = [], ref_id = [], ref_scope = []\<rparr>"

text \<open>A field with \<open>omitempty\<close> is printed only when it is not empty.\<close>

definition opt_text :: "string \<Rightarrow> string \<Rightarrow> (string \<times> json) list" where
  "opt_text k v = (if v = [] then [] else [(k, JStr v)])"

definition opt_int :: "string \<Rightarrow> int \<Rightarrow> (string \<times> json) list" where
  "opt_int k v = (if v = 0 then [] else [(k, json_int v)])"

definition ref_json :: "agent_ref \<Rightarrow> json" where
  "ref_json r = JObj (opt_text ''name'' (ref_name r) @ opt_text ''agent_id'' (ref_id r)
     @ opt_text ''scope'' (ref_scope r))"

record task_event =
  te_kind :: string
  te_key :: string
  te_subject :: string
  te_status :: string

record message =
  msg_id :: nat
  msg_from :: string
  msg_body :: string
  msg_sent :: int
  msg_broadcast :: bool
  msg_reply_to :: "agent_ref option"
  msg_from_scope :: string
  msg_kind :: string
  msg_task :: string

section \<open>Eyes task bodies\<close>

definition task_launch_type :: string where "task_launch_type = ''task.launch''"
definition task_cancel_type :: string where "task_cancel_type = ''task.cancel''"
definition task_accepted_type :: string where "task_accepted_type = ''task.accepted''"
definition task_progress_type :: string where "task_progress_type = ''task.progress''"
definition task_result_type :: string where "task_result_type = ''task.result''"
definition task_failed_type :: string where "task_failed_type = ''task.failed''"

lemmas task_type_defs = task_launch_type_def task_cancel_type_def task_accepted_type_def
  task_progress_type_def task_result_type_def task_failed_type_def

record launch_msg =
  lm_type :: string
  lm_task :: string
  lm_runtime :: string
  lm_scope :: string
  lm_brief :: string
  lm_reply :: agent_ref
  lm_deadline :: int

record cancel_msg =
  cm_type :: string
  cm_task :: string

record accepted_msg =
  am_type :: string
  am_task :: string
  am_child :: "agent_ref option"

record progress_msg =
  pm_type :: string
  pm_task :: string
  pm_turns :: int
  pm_tool :: string
  pm_elapsed :: int

text \<open>A slice is \<open>None\<close> when it is \<open>nil\<close>, which an absent or null field leaves it.\<close>

record result_msg =
  xm_type :: string
  xm_task :: string
  xm_status :: string
  xm_summary :: string
  xm_observations :: "string list option"
  xm_actions :: "string list option"
  xm_evidence :: "string list option"
  xm_error :: string

record failed_msg =
  fm_type :: string
  fm_task :: string
  fm_error :: string

definition launch_json :: "launch_msg \<Rightarrow> json" where
  "launch_json m = JObj ([(''type'', JStr (lm_type m)), (''task_id'', JStr (lm_task m))]
     @ opt_text ''runtime'' (lm_runtime m)
     @ [(''scope'', JStr (lm_scope m)), (''brief'', JStr (lm_brief m)),
        (''reply_to'', ref_json (lm_reply m)), (''deadline_s'', json_int (lm_deadline m))])"

definition cancel_json :: "cancel_msg \<Rightarrow> json" where
  "cancel_json m = JObj [(''type'', JStr (cm_type m)), (''task_id'', JStr (cm_task m))]"

definition accepted_json :: "accepted_msg \<Rightarrow> json" where
  "accepted_json m = JObj ([(''type'', JStr (am_type m)), (''task_id'', JStr (am_task m))]
     @ (case am_child m of None \<Rightarrow> [] | Some r \<Rightarrow> [(''child'', ref_json r)]))"

definition progress_json :: "progress_msg \<Rightarrow> json" where
  "progress_json m = JObj ([(''type'', JStr (pm_type m)), (''task_id'', JStr (pm_task m)),
        (''turns'', json_int (pm_turns m))]
     @ opt_text ''tool'' (pm_tool m) @ [(''elapsed_s'', json_int (pm_elapsed m))])"

definition texts_json :: "string list option \<Rightarrow> json" where
  "texts_json l = (case l of None \<Rightarrow> JNull | Some ts \<Rightarrow> JArr (map JStr ts))"

definition result_json :: "result_msg \<Rightarrow> json" where
  "result_json m = JObj ([(''type'', JStr (xm_type m)), (''task_id'', JStr (xm_task m)),
        (''status'', JStr (xm_status m)), (''summary'', JStr (xm_summary m)),
        (''observations'', texts_json (xm_observations m)), (''actions'', texts_json (xm_actions m)),
        (''evidence'', texts_json (xm_evidence m))] @ opt_text ''error'' (xm_error m))"

definition failed_json :: "failed_msg \<Rightarrow> json" where
  "failed_json m = JObj [(''type'', JStr (fm_type m)), (''task_id'', JStr (fm_task m)),
     (''error'', JStr (fm_error m))]"

section \<open>Task ids\<close>

definition task_prefix :: string where "task_prefix = ''task-''"

definition task_id_valid :: "string \<Rightarrow> bool" where
  "task_id_valid v \<longleftrightarrow> length v = 17 \<and> take 5 v = task_prefix \<and> list_all is_lower_hex (drop 5 v)"

end
