(* ===== verification/Sha256.thy ===== *)
theory Sha256
  imports GoText "HOL-Library.Word"
begin

text \<open>
  \<open>crypto/sha256\<close> and \<open>hash/fnv\<close> on 32-bit words: the hash under every agent id and
  stored secret, and the one behind friendly names. \<open>sha256_hex\<close> is
  \<open>hex.EncodeToString\<close> of the digest.
\<close>

unbundle bit_operations_syntax

type_synonym u32 = "32 word"

section \<open>SHA-256\<close>

definition rotr :: "nat \<Rightarrow> u32 \<Rightarrow> u32" where
  "rotr n x = (drop_bit n x OR push_bit (32 - n) x)"

text \<open>
  The constants of the hash, computed as the standard defines them: the first 32 bits of the
  fractional parts of the cube roots of the first 64 primes, and of the square roots of the first
  eight for the initial digest. A root is found bit by bit, from the highest.
\<close>

definition primes_below :: "nat \<Rightarrow> nat list" where
  "primes_below n = filter (\<lambda>p. list_all (\<lambda>d. p mod d \<noteq> 0) [2..<p]) [2..<n]"

definition floor_root :: "nat \<Rightarrow> nat \<Rightarrow> nat" where
  "floor_root k n = fold (\<lambda>i r. if (r + 2 ^ i) ^ k \<le> n then r + 2 ^ i else r) (rev [0..<40]) 0"

definition root_bits :: "nat \<Rightarrow> nat \<Rightarrow> u32" where
  "root_bits k p = word_of_int (int (floor_root k (p * 2 ^ (32 * k))))"

definition round_constants :: "u32 list" where
  "round_constants = map (root_bits 3) (primes_below 312)"

datatype digest = Digest u32 u32 u32 u32 u32 u32 u32 u32

definition initial_digest :: digest where
  "initial_digest = (\<lambda>w. Digest (w 2) (w 3) (w 5) (w 7) (w 11) (w 13) (w 17) (w 19)) (root_bits 2)"

fun sha_round :: "digest \<Rightarrow> u32 \<times> u32 \<Rightarrow> digest" where
  "sha_round (Digest a b c d e f g h) (k, w) =
     (let t1 = h + (rotr 6 e XOR rotr 11 e XOR rotr 25 e) + ((e AND f) XOR (NOT e AND g)) + k + w;
          t2 = (rotr 2 a XOR rotr 13 a XOR rotr 22 a) + ((a AND b) XOR (a AND c) XOR (b AND c))
      in Digest (t1 + t2) a b c (d + t1) e f g)"

fun add_digest :: "digest \<Rightarrow> digest \<Rightarrow> digest" where
  "add_digest (Digest a b c d e f g h) (Digest a' b' c' d' e' f' g' h') =
     Digest (a + a') (b + b') (c + c') (d + d') (e + e') (f + f') (g + g') (h + h')"

text \<open>The message schedule, as a window of the last sixteen words.\<close>

fun schedule :: "nat \<Rightarrow> u32 list \<Rightarrow> u32 list" where
  "schedule 0 w = []"
| "schedule (Suc n) w =
     w ! 0 # schedule n (tl w @ [(rotr 17 (w ! 14) XOR rotr 19 (w ! 14) XOR drop_bit 10 (w ! 14)) + w ! 9
       + (rotr 7 (w ! 1) XOR rotr 18 (w ! 1) XOR drop_bit 3 (w ! 1)) + w ! 0])"

fun big_endian :: "u32 list \<Rightarrow> u32 list" where
  "big_endian (a # b # c # d # r) =
     (push_bit 24 a OR push_bit 16 b OR push_bit 8 c OR d) # big_endian r"
| "big_endian _ = []"

definition pad_message :: "u32 list \<Rightarrow> u32 list" where
  "pad_message bs = bs @ [128] @ replicate ((119 - length bs mod 64) mod 64) 0
     @ map (\<lambda>i. word_of_int (8 * int (length bs) div 256 ^ i mod 256)) [7, 6, 5, 4, 3, 2, 1, 0]"

definition compress :: "digest \<Rightarrow> u32 list \<Rightarrow> digest" where
  "compress h block = add_digest h (foldl sha_round h (zip round_constants (schedule 64 (big_endian block))))"

fun blocks :: "nat \<Rightarrow> u32 list \<Rightarrow> u32 list list" where
  "blocks 0 bs = []"
| "blocks (Suc n) bs = take 64 bs # blocks n (drop 64 bs)"

definition sha256 :: "string \<Rightarrow> digest" where
  "sha256 s = (let p = pad_message (map (\<lambda>c. word_of_int (int (byte c))) s)
               in foldl compress initial_digest (blocks (length p div 64) p))"

definition word_hex :: "u32 \<Rightarrow> string" where
  "word_hex w = map (\<lambda>i. hex_digit (unat (drop_bit i w AND 15))) [28, 24, 20, 16, 12, 8, 4, 0]"

fun digest_hex :: "digest \<Rightarrow> string" where
  "digest_hex (Digest a b c d e f g h) = concat (map word_hex [a, b, c, d, e, f, g, h])"

definition sha256_hex :: "string \<Rightarrow> string" where
  "sha256_hex s = digest_hex (sha256 s)"

lemma length_sha256_hex [simp]: "length (sha256_hex s) = 64"
  by (cases "sha256 s") (simp add: sha256_hex_def word_hex_def)

lemma word_hex_lower_hex: "list_all is_lower_hex (word_hex w)"
proof -
  have b: "unat (x AND 15 :: u32) < 16" for x
  proof -
    have "unat (x AND 15) \<le> unat (15 :: u32)"
      by (rule word_and_le1 [THEN word_le_nat_alt [THEN iffD1]])
    then show ?thesis by simp
  qed
  have "is_lower_hex (hex_digit n)" if "n < 16" for n
    using that by (auto simp: hex_digit_def is_lower_hex_def is_digit_def byte_chr)
  then show ?thesis using b by (simp add: word_hex_def)
qed

lemma sha256_hex_lower_hex: "list_all is_lower_hex (sha256_hex s)"
  by (cases "sha256 s") (simp add: sha256_hex_def word_hex_lower_hex)

section \<open>FNV-1a\<close>

definition fnv32a :: "string \<Rightarrow> u32" where
  "fnv32a s = foldl (\<lambda>h c. (h XOR word_of_int (int (byte c))) * 16777619) 2166136261 s"

end
