(* ===== verification/Schema.thy ===== *)
theory Schema
  imports Protocol Sha256
begin

text \<open>
  The database of \<open>internal/store\<close>: one record per table with the columns of the schema and of
  its guarded migrations, the store as the record of its tables, the errors of the package and
  the key constraints the schema declares. The SQLite engine is taken to execute each statement
  and each transaction as its documentation says, one at a time (the pool has one connection);
  I/O failures of the engine are not modelled.
\<close>

section \<open>Agent status\<close>

datatype status = Active | Idle | Stale | Gone

text \<open>The order of decay: the later, the longer nobody has heard from the agent.\<close>

fun status_rank :: "status \<Rightarrow> nat" where
  "status_rank Active = 0"
| "status_rank Idle = 1"
| "status_rank Stale = 2"
| "status_rank Gone = 3"

instantiation status :: linorder
begin

definition less_eq_status :: "status \<Rightarrow> status \<Rightarrow> bool" where
  "less_eq_status a b \<longleftrightarrow> status_rank a \<le> status_rank b"

definition less_status :: "status \<Rightarrow> status \<Rightarrow> bool" where
  "less_status a b \<longleftrightarrow> status_rank a < status_rank b"

instance
proof
  fix a b :: status
  show "a \<le> b \<Longrightarrow> b \<le> a \<Longrightarrow> a = b"
    by (cases a; cases b) (auto simp: less_eq_status_def)
qed (auto simp: less_eq_status_def less_status_def)

end

fun status_text :: "status \<Rightarrow> string" where
  "status_text Active = ''active''"
| "status_text Idle = ''idle''"
| "status_text Stale = ''stale''"
| "status_text Gone = ''gone''"

section \<open>Eyes task states\<close>

datatype eyes_state = Queued | Accepted | Done | Failed | Cancelled

fun eyes_state_text :: "eyes_state \<Rightarrow> string" where
  "eyes_state_text Queued = ''queued''"
| "eyes_state_text Accepted = ''accepted''"
| "eyes_state_text Done = ''done''"
| "eyes_state_text Failed = ''failed''"
| "eyes_state_text Cancelled = ''cancelled''"

section \<open>Rows\<close>

record agent_row =
  ar_scope :: string
  ar_session :: string
  ar_id :: string
  ar_name :: string
  ar_status :: status
  ar_registered :: int
  ar_seen :: int
  ar_source :: string
  ar_parent :: string
  ar_kind :: string
  ar_origin :: string
  ar_platform :: string
  ar_caps :: string
  ar_secret :: string

record event_row =
  ev_id :: nat
  ev_scope :: string
  ev_agent :: string
  ev_tool :: string
  ev_activity :: string
  ev_files :: string
  ev_ts :: int

record touch_row =
  ft_scope :: string
  ft_path :: string
  ft_agent :: string
  ft_action :: string
  ft_ts :: int

record task_row =
  tk_scope :: string
  tk_agent :: string
  tk_key :: string
  tk_subject :: string
  tk_status :: string
  tk_updated :: int

record message_row =
  mr_id :: nat
  mr_scope :: string
  mr_from :: string
  mr_to :: "string option"
  mr_body :: string
  mr_created :: int
  mr_from_scope :: string
  mr_reply_to :: string
  mr_task :: string
  mr_kind :: string

record delivery_row =
  dl_message :: nat
  dl_agent :: string
  dl_noticed :: "int option"
  dl_read :: "int option"

record claim_row =
  cl_scope :: string
  cl_path :: string
  cl_agent :: string
  cl_note :: string
  cl_since :: int

record eyes_row =
  et_task :: string
  et_req_scope :: string
  et_req_agent :: string
  et_launcher :: string
  et_runtime :: string
  et_state :: eyes_state
  et_created :: int
  et_updated :: int
  et_deadline :: int
  et_acked :: bool
  et_launcher_scope :: string
  et_progress :: string
  et_heartbeat :: int

record store =
  agents :: "agent_row list"
  events :: "event_row list"
  file_touches :: "touch_row list"
  task_rows :: "task_row list"
  messages :: "message_row list"
  deliveries :: "delivery_row list"
  claims :: "claim_row list"
  eyes_tasks :: "eyes_row list"
  next_event :: nat
  next_message :: nat

definition empty_store :: store where
  "empty_store = \<lparr>agents = [], events = [], file_touches = [], task_rows = [], messages = [],
     deliveries = [], claims = [], eyes_tasks = [], next_event = 1, next_message = 1\<rparr>"

section \<open>Keys\<close>

definition agent_key :: "agent_row \<Rightarrow> string \<times> string" where
  "agent_key r = (ar_scope r, ar_session r)"

definition agent_name_key :: "agent_row \<Rightarrow> string \<times> string" where
  "agent_name_key r = (ar_scope r, ar_name r)"

definition touch_key :: "touch_row \<Rightarrow> string \<times> string \<times> string" where
  "touch_key r = (ft_scope r, ft_path r, ft_agent r)"

definition task_key :: "task_row \<Rightarrow> string \<times> string \<times> string" where
  "task_key r = (tk_scope r, tk_agent r, tk_key r)"

definition delivery_key :: "delivery_row \<Rightarrow> nat \<times> string" where
  "delivery_key r = (dl_message r, dl_agent r)"

definition claim_key :: "claim_row \<Rightarrow> string \<times> string" where
  "claim_key r = (cl_scope r, cl_path r)"

lemmas key_defs = agent_key_def agent_name_key_def touch_key_def task_key_def delivery_key_def claim_key_def

text \<open>
  \<open>INSERT\<close> under a set of declared unique keys: refused with \<open>UNIQUE constraint failed\<close> when a
  row with the same key is there, appended otherwise.
\<close>

definition insert_row :: "('r \<Rightarrow> 'k) \<Rightarrow> 'r \<Rightarrow> 'r list \<Rightarrow> 'r list option" where
  "insert_row key r rs = (if list_ex (\<lambda>q. key q = key r) rs then None else Some (rs @ [r]))"

lemma insert_row_Some:
  "insert_row key r rs = Some rs' \<longleftrightarrow> key r \<notin> key ` set rs \<and> rs' = rs @ [r]"
  by (force simp: insert_row_def list_ex_iff image_iff)

text \<open>
  A table of the store: where its rows are, how they are replaced, and its primary key. The law
  is what a statement on one table means; from it a write keeps the key it declares.
\<close>

locale table =
  fixes rows :: "'s \<Rightarrow> 'r list"
    and put :: "('r list \<Rightarrow> 'r list) \<Rightarrow> 's \<Rightarrow> 's"
    and key :: "'r \<Rightarrow> 'k"
  assumes rows_put: "rows (put f s) = f (rows s)"
begin

lemma keep_update:
  assumes "unique_key key (rows s)" and "\<And>r. r \<in> set (rows s) \<Longrightarrow> p r \<Longrightarrow> key (f r) = key r"
  shows "unique_key key (rows (put (update_where p f) s))"
  unfolding rows_put using assms by (rule unique_key_update)

lemma keep_delete: "unique_key key (rows s) \<Longrightarrow> unique_key key (rows (put (delete_where p) s))"
  unfolding rows_put by (rule unique_key_delete)

lemma keep_insert:
  assumes "unique_key key (rows s)" and "insert_row key r (rows s) = Some rs'"
  shows "unique_key key (rows (put (\<lambda>_. rs') s))"
  using assms by (auto simp: rows_put insert_row_Some)

lemma refused_insert:
  "insert_row key r (rows s) = None \<longleftrightarrow> (\<exists>q \<in> set (rows s). key q = key r)"
  by (auto simp: insert_row_def list_ex_iff)

end

interpretation agent_table: table agents agents_update agent_key by unfold_locales simp
interpretation agent_name_table: table agents agents_update agent_name_key by unfold_locales simp
interpretation touch_table: table file_touches file_touches_update touch_key by unfold_locales simp
interpretation task_table: table task_rows task_rows_update task_key by unfold_locales simp
interpretation message_table: table messages messages_update mr_id by unfold_locales simp
interpretation delivery_table: table deliveries deliveries_update delivery_key by unfold_locales simp
interpretation claim_table: table claims claims_update claim_key by unfold_locales simp
interpretation eyes_table: table eyes_tasks eyes_tasks_update et_task by unfold_locales simp

text \<open>What the schema's constraints say of a store, \<open>AUTOINCREMENT\<close> included.\<close>

definition schema_ok :: "store \<Rightarrow> bool" where
  "schema_ok s \<longleftrightarrow>
     unique_key agent_key (agents s) \<and> unique_key agent_name_key (agents s) \<and>
     unique_key touch_key (file_touches s) \<and> unique_key task_key (task_rows s) \<and>
     unique_key mr_id (messages s) \<and> list_all (\<lambda>m. mr_id m < next_message s) (messages s) \<and>
     unique_key delivery_key (deliveries s) \<and> list_all (\<lambda>d. dl_message d < next_message s) (deliveries s) \<and>
     unique_key claim_key (claims s) \<and> unique_key et_task (eyes_tasks s)"

lemma schema_ok_empty [simp]: "schema_ok empty_store"
  by (simp add: schema_ok_def empty_store_def)

section \<open>Errors\<close>

text \<open>
  The sentinels of the package, the wrapped forms that carry text after them, and every error
  that is text only. \<open>err_text\<close> is \<open>Error()\<close>; \<open>err_is\<close> is \<open>errors.Is\<close> against a sentinel.
\<close>

datatype err =
    ErrNoLauncher | ErrNoProvider | ErrEyesBusy | ErrUnknownTask | ErrNotYourTask
  | ErrTaskNotLive | ErrBadTransition | ErrBadRuntime | ErrNoAgent
  | ErrNoSession | ErrForeignSession | ErrRelayAuth | ErrIdentityUnknown | ErrReservedTask
  | ErrWrapped err string
  | ErrClaimHeld string string string int
  | ErrText string

fun err_text :: "err \<Rightarrow> string" where
  "err_text ErrNoLauncher = ''no host launcher''"
| "err_text ErrNoProvider = ''no matching provider''"
| "err_text ErrEyesBusy = ''eyes busy''"
| "err_text ErrUnknownTask = ''unknown task''"
| "err_text ErrNotYourTask = ''not your task''"
| "err_text ErrTaskNotLive = ''task is not live''"
| "err_text ErrBadTransition = ''invalid task transition''"
| "err_text ErrBadRuntime = ''invalid runtime''"
| "err_text ErrNoAgent = ''no agent''"
| "err_text ErrNoSession = ''no session''"
| "err_text ErrForeignSession = ''foreign session''"
| "err_text ErrRelayAuth = ''unauthorized''"
| "err_text ErrIdentityUnknown =
     ''cannot determine your identity: pass from=<your name> or call register_agent''"
| "err_text ErrReservedTask = ''reserved task message''"
| "err_text (ErrWrapped e t) = err_text e @ t"
| "err_text (ErrClaimHeld holder hid note since) =
     (if note = [] then ''held by '' @ holder @ '' ('' @ hid @ '')''
      else ''held by '' @ holder @ '' ('' @ hid @ ''): '' @ note)"
| "err_text (ErrText t) = t"

fun err_is :: "err \<Rightarrow> err \<Rightarrow> bool" where
  "err_is (ErrWrapped e t) target = (ErrWrapped e t = target \<or> err_is e target)"
| "err_is e target = (e = target)"

section \<open>Presence\<close>

definition active_window :: time where "active_window = seconds 120"
definition idle_window :: time where "idle_window = seconds 900"
definition stale_window :: time where "stale_window = seconds 3600"

lemmas window_defs = active_window_def idle_window_def stale_window_def seconds_def

definition fresh_status :: "time \<Rightarrow> status \<Rightarrow> int \<Rightarrow> status" where
  "fresh_status now explicit seen =
     (if explicit = Gone then Gone
      else let age = now - from_unix seen in
        if age \<le> active_window \<and> explicit \<noteq> Idle then Active
        else if age \<le> idle_window then Idle
        else if age \<le> stale_window then Stale
        else Gone)"

definition live :: "time \<Rightarrow> status \<Rightarrow> int \<Rightarrow> bool" where
  "live now explicit seen \<longleftrightarrow> fresh_status now explicit seen \<in> {Active, Idle}"

definition live_row :: "time \<Rightarrow> agent_row \<Rightarrow> bool" where
  "live_row now r \<longleftrightarrow> live now (ar_status r) (ar_seen r)"

lemma fresh_status_mono: "now \<le> later \<Longrightarrow> fresh_status now e seen \<le> fresh_status later e seen"
  by (auto simp: fresh_status_def Let_def less_eq_status_def window_defs)

lemma live_iff: "live now e seen \<longleftrightarrow> e \<noteq> Gone \<and> now - from_unix seen \<le> idle_window"
  by (auto simp: live_def fresh_status_def Let_def window_defs ns_second_def)

lemma fresh_gone_iff:
  "fresh_status now e seen = Gone \<longleftrightarrow> e = Gone \<or> stale_window < now - from_unix seen"
  by (auto simp: fresh_status_def Let_def window_defs ns_second_def)

end
