(* ===== verification/Identity.thy ===== *)
theory Identity
  imports Schema
begin

text \<open>
  Who an agent is: \<open>names.go\<close> and the identity half of \<open>store.go\<close>. A registration is several
  statements with no transaction round them, so the model lets anything happen between two of
  them: \<open>env k\<close> is what other connections do to the store before the statement numbered \<open>k\<close>.
  \<open>quiet\<close> is the run nobody interferes with, which is also the run inside a transaction.
\<close>

section \<open>Lookups\<close>

definition at_session :: "string \<Rightarrow> string \<Rightarrow> agent_row \<Rightarrow> bool" where
  "at_session sc sess r \<longleftrightarrow> ar_scope r = sc \<and> ar_session r = sess"

definition goes_by :: "string \<Rightarrow> string \<Rightarrow> agent_row \<Rightarrow> bool" where
  "goes_by sc w r \<longleftrightarrow> ar_scope r = sc \<and> (ar_name r = w \<or> ar_id r = w)"

definition row_at :: "string \<Rightarrow> string \<Rightarrow> store \<Rightarrow> agent_row option" where
  "row_at sc sess s = List.find (at_session sc sess) (agents s)"

definition row_named :: "string \<Rightarrow> string \<Rightarrow> store \<Rightarrow> agent_row option" where
  "row_named sc w s = List.find (goes_by sc w) (agents s)"

lemma row_atD: "row_at sc sess s = Some r \<Longrightarrow> r \<in> set (agents s) \<and> ar_scope r = sc \<and> ar_session r = sess"
  by (auto simp: row_at_def at_session_def dest: find_SomeD)

lemma row_at_None: "row_at sc sess s = None \<Longrightarrow> r \<in> set (agents s) \<Longrightarrow> agent_key r \<noteq> (sc, sess)"
  by (auto simp: row_at_def at_session_def agent_key_def dest: find_NoneD)

lemma row_at_unique:
  assumes "schema_ok s" and "r \<in> set (agents s)"
  shows "row_at (ar_scope r) (ar_session r) s = Some r"
proof -
  have "List.find (\<lambda>q. agent_key q = agent_key r) (agents s) = Some r"
    using assms by (auto simp: schema_ok_def intro: find_unique_key)
  then show ?thesis by (simp add: row_at_def at_session_def [abs_def] agent_key_def)
qed

lemma row_at_iff:
  "schema_ok s \<Longrightarrow> row_at sc sess s = Some r \<longleftrightarrow>
     r \<in> set (agents s) \<and> ar_scope r = sc \<and> ar_session r = sess"
  using row_at_unique row_atD by blast

lemma row_namedD:
  "row_named sc w s = Some r \<Longrightarrow> r \<in> set (agents s) \<and> ar_scope r = sc \<and> (ar_name r = w \<or> ar_id r = w)"
  by (auto simp: row_named_def goes_by_def dest: find_SomeD)

section \<open>Names\<close>

definition adjectives :: "string list" where
  "adjectives = [''amber'', ''brisk'', ''calm'', ''deft'', ''eager'', ''frank'', ''hardy'', ''keen'',
     ''lucid'', ''mellow'', ''nimble'', ''proud'', ''quick'', ''solid'', ''tidy'', ''vivid'', ''wry'', ''bold'',
     ''able'', ''brave'', ''crisp'', ''dapper'', ''fair'', ''glad'', ''honest'', ''jolly'', ''kind'', ''loyal'',
     ''merry'', ''noble'', ''quiet'', ''rusty'', ''sage'', ''taut'', ''warm'', ''wise'']"

definition animals :: "string list" where
  "animals = [''fox'', ''owl'', ''lynx'', ''otter'', ''hawk'', ''wolf'', ''crane'', ''badger'',
     ''heron'', ''mole'', ''stoat'', ''raven'', ''ibis'', ''pika'', ''newt'', ''tern'', ''vole'', ''orca'',
     ''auk'', ''bear'', ''crow'', ''dove'', ''eel'', ''finch'', ''goose'', ''hare'', ''jay'', ''kite'',
     ''lark'', ''mink'', ''perch'', ''quail'', ''seal'', ''toad'', ''wren'', ''yak'']"

definition friendly_name :: "string \<Rightarrow> string" where
  "friendly_name sess = (let v = fnv32a sess in
     adjectives ! unat (v mod word_of_nat (length adjectives)) @ ''-'' @
     animals ! unat ((v div 31) mod word_of_nat (length animals)))"

definition agent_id :: "string \<Rightarrow> string" where
  "agent_id sess = take 12 (sha256_hex sess)"

lemma length_agent_id [simp]: "length (agent_id sess) = 12"
  by (simp add: agent_id_def)

lemma agent_id_hex: "list_all is_lower_hex (agent_id sess)"
  using sha256_hex_lower_hex [of sess] by (auto simp: agent_id_def list_all_iff dest: in_set_takeD)

lemma agent_id_not_Nil [simp]: "agent_id sess \<noteq> []"
  using length_agent_id [of sess] by (cases "agent_id sess") auto

lemma friendly_name_picks:
  "\<exists>a \<in> set adjectives. \<exists>b \<in> set animals. friendly_name sess = a @ ''-'' @ b"
proof -
  have 36: "length adjectives = 36" "length animals = 36"
    by (simp_all add: adjectives_def animals_def)
  have "unat (v mod (36 :: u32)) < 36" for v
    using unat_mono [OF word_mod_less_divisor, of "36 :: u32" v] by simp
  then show ?thesis
    unfolding friendly_name_def Let_def 36
    by (metis 36 nth_mem of_nat_numeral)
qed

section \<open>Registration\<close>

definition quiet :: "nat \<Rightarrow> store \<Rightarrow> store" where
  "quiet k s = s"

lemma quiet_simp [simp]: "quiet k s = s"
  by (simp add: quiet_def)

definition refresh :: "string \<Rightarrow> string \<Rightarrow> int \<Rightarrow> store \<Rightarrow> store" where
  "refresh sc sess at =
     agents_update (update_where (at_session sc sess) (\<lambda>r. r\<lparr>ar_status := Active, ar_seen := at\<rparr>))"

definition name_count :: "string \<Rightarrow> string \<Rightarrow> store \<Rightarrow> nat" where
  "name_count sc nm s = count_where (\<lambda>r. ar_scope r = sc \<and> ar_name r = nm) (agents s)"

definition new_agent :: "string \<Rightarrow> string \<Rightarrow> string \<Rightarrow> int \<Rightarrow> string \<Rightarrow> string \<Rightarrow> agent_row" where
  "new_agent sc sess nm at src parent =
     \<lparr>ar_scope = sc, ar_session = sess, ar_id = agent_id sess, ar_name = nm, ar_status = Active,
      ar_registered = at, ar_seen = at, ar_source = src, ar_parent = parent, ar_kind = [],
      ar_origin = [], ar_platform = [], ar_caps = ''[]'', ar_secret = []\<rparr>"

lemma new_agent_simps [simp]:
  "ar_scope (new_agent sc sess nm at src parent) = sc"
  "ar_session (new_agent sc sess nm at src parent) = sess"
  "ar_name (new_agent sc sess nm at src parent) = nm"
  by (simp_all add: new_agent_def)

text \<open>The insert is refused by the primary key or by the index on the name.\<close>

definition insert_agent :: "agent_row \<Rightarrow> store \<Rightarrow> store option" where
  "insert_agent r s =
     (if list_ex (\<lambda>q. agent_key q = agent_key r \<or> agent_name_key q = agent_name_key r) (agents s)
      then None else Some (agents_update (\<lambda>rs. rs @ [r]) s))"

fun register_loop :: "(nat \<Rightarrow> store \<Rightarrow> store) \<Rightarrow> string \<Rightarrow> string \<Rightarrow> string \<Rightarrow> int \<Rightarrow> string
    \<Rightarrow> nat list \<Rightarrow> string \<Rightarrow> store \<Rightarrow> store \<times> (err + string)" where
  "register_loop env sc sess src at base [] nm s =
     (s, Inl (ErrText (''register: no free name near '' @ go_quote base @ '' in scope '' @ go_quote sc)))"
| "register_loop env sc sess src at base (n # ns) nm s =
     (let onward = base @ ''-'' @ dec_nat n; s1 = env (3 * n) s in
      if name_count sc nm s1 = 0 then
        (let s2 = env (3 * n + 1) s1 in
         case insert_agent (new_agent sc sess nm at src []) s2 of
           Some s3 \<Rightarrow> (s3, Inr nm)
         | None \<Rightarrow>
             (let s3 = env (3 * n + 2) s2 in
              case row_at sc sess s3 of
                Some r \<Rightarrow> (s3, Inr (ar_name r))
              | None \<Rightarrow> register_loop env sc sess src at base ns onward s3))
      else register_loop env sc sess src at base ns onward s1)"

definition name_suffixes :: "nat list" where
  "name_suffixes = [2..<51]"

definition register :: "(nat \<Rightarrow> store \<Rightarrow> store) \<Rightarrow> string \<Rightarrow> string \<Rightarrow> string \<Rightarrow> time \<Rightarrow> store
    \<Rightarrow> store \<times> (err + string)" where
  "register env sc sess src now s =
     (let at = unix now; s0 = env 0 s in
      case row_at sc sess s0 of
        Some r \<Rightarrow> (refresh sc sess at (env 1 s0), Inr (ar_name r))
      | None \<Rightarrow> register_loop env sc sess src at (friendly_name sess) name_suffixes (friendly_name sess) s0)"

section \<open>Subagents\<close>

definition child_session :: "string \<Rightarrow> string \<Rightarrow> string" where
  "child_session parent sub = parent @ ''/'' @ sub"

fun child_loop :: "(nat \<Rightarrow> store \<Rightarrow> store) \<Rightarrow> string \<Rightarrow> string \<Rightarrow> string \<Rightarrow> string \<Rightarrow> string \<Rightarrow> int
    \<Rightarrow> nat list \<Rightarrow> store \<Rightarrow> store \<times> (err + string \<times> bool)" where
  "child_loop env sc child parent pname typ at [] s =
     (s, Inl (ErrText (''register child: no free name under '' @ go_quote pname @ '' in scope '' @ go_quote sc)))"
| "child_loop env sc child parent pname typ at (n # ns) s =
     (let nm = pname @ ''/'' @ typ @ ''-'' @ dec_nat n; s1 = env (3 * n) s in
      if 0 < name_count sc nm s1 then child_loop env sc child parent pname typ at ns s1
      else
        (let s2 = env (3 * n + 1) s1 in
         case insert_agent (new_agent sc child nm at ''hook-subagent'' parent) s2 of
           Some s3 \<Rightarrow> (s3, Inr (nm, True))
         | None \<Rightarrow>
             (let s3 = env (3 * n + 2) s2 in
              case row_at sc child s3 of
                Some r \<Rightarrow> (s3, Inr (ar_name r, False))
              | None \<Rightarrow> child_loop env sc child parent pname typ at ns s3)))"

definition child_suffixes :: "nat list" where
  "child_suffixes = [1..<51]"

definition register_child :: "(nat \<Rightarrow> store \<Rightarrow> store) \<Rightarrow> (nat \<Rightarrow> store \<Rightarrow> store) \<Rightarrow> string \<Rightarrow> string
    \<Rightarrow> string \<Rightarrow> string \<Rightarrow> time \<Rightarrow> store \<Rightarrow> store \<times> (err + string \<times> bool)" where
  "register_child env penv sc parent sub typ now s =
     (let child = child_session parent sub; at = unix now; s0 = env 0 s in
      case row_at sc child s0 of
        Some r \<Rightarrow> (refresh sc child at (env 1 s0), Inr (ar_name r, False))
      | None \<Rightarrow>
          (case register penv sc parent ''hook'' now s0 of
             (s1, Inl e) \<Rightarrow> (s1, Inl e)
           | (s1, Inr pname) \<Rightarrow>
               (let low = to_lower typ; kind = (if low = [] then ''sub'' else low) in
                child_loop env sc child parent pname kind at child_suffixes s1)))"

section \<open>Self-minted identities\<close>

text \<open>
  \<open>LIKE\<close> folds ASCII case, so \<open>NOT LIKE 'mcp-%'\<close> is a test on the lowered session id.
\<close>

definition is_hook_row :: "string \<Rightarrow> agent_row \<Rightarrow> bool" where
  "is_hook_row sc r \<longleftrightarrow> ar_scope r = sc \<and> \<not> has_prefix ''mcp-'' (to_lower (ar_session r)) \<and> ar_kind r = []"

definition has_live_hook_agents :: "string \<Rightarrow> time \<Rightarrow> store \<Rightarrow> bool" where
  "has_live_hook_agents sc now s = list_ex (live_row now) (filter (is_hook_row sc) (agents s))"

definition register_if_no_live_hook :: "string \<Rightarrow> string \<Rightarrow> string \<Rightarrow> time \<Rightarrow> store
    \<Rightarrow> store \<times> (err + string)" where
  "register_if_no_live_hook sc sess src now s =
     (if row_at sc sess s = None \<and> has_live_hook_agents sc now s then (s, Inl ErrIdentityUnknown)
      else register quiet sc sess src now s)"

section \<open>Identity and authority\<close>

record identity =
  id_name :: string
  id_id :: string
  id_source :: string
  id_parent :: string
  id_kind :: string
  id_origin :: string

definition err_no_session_row :: err where
  "err_no_session_row = ErrText ''no agent for this session in this workspace''"

definition identity_of :: "string \<Rightarrow> string \<Rightarrow> store \<Rightarrow> err + identity" where
  "identity_of sc sess s =
     (case row_at sc sess s of
        None \<Rightarrow> Inl err_no_session_row
      | Some r \<Rightarrow> Inr \<lparr>id_name = ar_name r, id_id = ar_id r, id_source = ar_source r,
          id_parent = (if ar_parent r = [] then []
            else case row_at sc (ar_parent r) s of None \<Rightarrow> [] | Some p \<Rightarrow> ar_name p),
          id_kind = ar_kind r, id_origin = ar_origin r\<rparr>)"

definition resolve_actor :: "string \<Rightarrow> string \<Rightarrow> string \<Rightarrow> store \<Rightarrow> err + identity" where
  "resolve_actor sc caller explicit s =
     (if explicit = [] then identity_of sc caller s
      else case row_named sc explicit s of
        None \<Rightarrow> Inl (ErrText (''no agent '' @ go_quote explicit @ '' in this workspace''))
      | Some r \<Rightarrow>
          (let caller_here = (row_at (ar_scope r) caller s \<noteq> None);
               own = (caller = ar_session r \<or> (caller_here \<and> caller = ar_parent r)) in
           if caller \<noteq> [] \<and> \<not> own then Inl ErrForeignSession
           else identity_of sc (ar_session r) s))"

definition set_status :: "string \<Rightarrow> string \<Rightarrow> status \<Rightarrow> time \<Rightarrow> store \<Rightarrow> store" where
  "set_status sc sess st now =
     agents_update (update_where (at_session sc sess) (\<lambda>r. r\<lparr>ar_status := st, ar_seen := unix now\<rparr>))"

definition heard_from :: "int \<Rightarrow> agent_row \<Rightarrow> agent_row" where
  "heard_from at r = r\<lparr>ar_seen := at, ar_status := (if ar_status r = Idle then Active else ar_status r)\<rparr>"

definition touch :: "string \<Rightarrow> string \<Rightarrow> time \<Rightarrow> store \<Rightarrow> store" where
  "touch sc sess now =
     agents_update (update_where (\<lambda>r. at_session sc sess r \<and> ar_status r \<noteq> Gone) (heard_from (unix now)))"

section \<open>What registration keeps\<close>

lemma schema_ok_agents:
  assumes "schema_ok s" and "unique_key agent_key (f (agents s))"
    and "unique_key agent_name_key (f (agents s))"
  shows "schema_ok (agents_update f s)"
  using assms by (simp add: schema_ok_def)

lemma schema_ok_agent_rewrite [shape_intros]:
  assumes "schema_ok s" and "\<And>r. agent_key (f r) = agent_key r" and "\<And>r. ar_name (f r) = ar_name r"
  shows "schema_ok (agents_update (update_where p f) s)"
proof (rule schema_ok_agents [OF assms(1)])
  have "agent_name_key (f r) = agent_name_key r" for r
    using assms(2,3) [of r] by (simp add: agent_name_key_def agent_key_def)
  then show "unique_key agent_name_key (update_where p f (agents s))"
    using assms(1) by (auto simp: schema_ok_def intro: unique_key_update)
  show "unique_key agent_key (update_where p f (agents s))"
    using assms by (auto simp: schema_ok_def intro: unique_key_update)
qed

lemma schema_ok_refresh [shape_intros]: "schema_ok s \<Longrightarrow> schema_ok (refresh sc sess at s)"
  unfolding refresh_def by (rule schema_ok_agent_rewrite) (simp_all add: agent_key_def)

lemma schema_ok_insert_agent [shape_intros]:
  assumes "schema_ok s" and "insert_agent r s = Some s'"
  shows "schema_ok s'"
proof -
  have "agent_key r \<notin> agent_key ` set (agents s)" "agent_name_key r \<notin> agent_name_key ` set (agents s)"
    "s' = agents_update (\<lambda>rs. rs @ [r]) s"
    using assms(2) by (force simp: insert_agent_def list_ex_iff split: if_splits)+
  then show ?thesis using assms(1) by (simp add: schema_ok_def)
qed

lemma insert_agent_row:
  assumes "insert_agent r s = Some s'"
  shows "agents s' = agents s @ [r]" and "row_at (ar_scope r) (ar_session r) s' = Some r"
proof -
  show "agents s' = agents s @ [r]"
    using assms by (auto simp: insert_agent_def split: if_splits)
  moreover have "List.find (at_session (ar_scope r) (ar_session r)) (agents s) = None"
    using assms by (auto simp: insert_agent_def list_ex_iff find_None_iff at_session_def agent_key_def
        split: if_splits)
  ultimately show "row_at (ar_scope r) (ar_session r) s' = Some r"
    by (simp add: row_at_def find_append at_session_def)
qed

text \<open>
  \<open>kept s s'\<close>: every agent row of \<open>s\<close> is still in \<open>s'\<close> under its session and its name.
  \<open>peers_keep\<close> is interference that keeps the schema and purges or renames nobody.
\<close>

definition kept :: "store \<Rightarrow> store \<Rightarrow> bool" where
  "kept s s' \<longleftrightarrow>
     (\<forall>r \<in> set (agents s). \<exists>q \<in> set (agents s'). agent_key q = agent_key r \<and> ar_name q = ar_name r)"

definition peers_keep :: "(nat \<Rightarrow> store \<Rightarrow> store) \<Rightarrow> bool" where
  "peers_keep env \<longleftrightarrow> (\<forall>k s. schema_ok s \<longrightarrow> schema_ok (env k s) \<and> kept s (env k s))"

lemma kept_refl [simp]: "kept s s"
  by (auto simp: kept_def)

lemma kept_trans: "kept s t \<Longrightarrow> kept t u \<Longrightarrow> kept s u"
  unfolding kept_def by (metis (no_types))

lemma kept_rewrite:
  "(\<And>r. agent_key (f r) = agent_key r) \<Longrightarrow> (\<And>r. ar_name (f r) = ar_name r) \<Longrightarrow>
   kept s (agents_update (update_where p f) s)"
  unfolding kept_def
proof (rule ballI)
  fix r assume "\<And>r. agent_key (f r) = agent_key r" "\<And>r. ar_name (f r) = ar_name r" "r \<in> set (agents s)"
  then show "\<exists>q \<in> set (agents (agents_update (update_where p f) s)).
      agent_key q = agent_key r \<and> ar_name q = ar_name r"
    by (intro bexI [of _ "if p r then f r else r"]) (auto simp: set_update_where)
qed

lemma kept_refresh [simp]: "kept s (refresh sc sess at s)"
  unfolding refresh_def by (rule kept_rewrite) (simp_all add: agent_key_def)

lemma kept_insert_agent: "insert_agent r s = Some s' \<Longrightarrow> kept s s'"
  by (frule insert_agent_row(1)) (auto simp: kept_def)

lemma kept_row_at:
  assumes "kept s s'" and "schema_ok s'" and "row_at sc sess s = Some r"
  shows "\<exists>q. row_at sc sess s' = Some q \<and> ar_name q = ar_name r"
  using assms by (fastforce simp: kept_def row_at_iff agent_key_def dest: row_atD)

lemma peers_keepD:
  "peers_keep env \<Longrightarrow> schema_ok s \<Longrightarrow> schema_ok (env k s)"
  "peers_keep env \<Longrightarrow> schema_ok s \<Longrightarrow> kept s (env k s)"
  by (auto simp: peers_keep_def)

lemma peers_keep_quiet [simp]: "peers_keep quiet"
  by (simp add: peers_keep_def)

lemma register_loop_keeps:
  assumes "peers_keep env" and "schema_ok s" and "register_loop env sc sess src at base ns nm s = (s', res)"
  shows "schema_ok s' \<and> kept s s' \<and>
    (\<forall>w. res = Inr w \<longrightarrow> (\<exists>r. row_at sc sess s' = Some r \<and> ar_name r = w))"
  using assms(2,3)
proof (induction ns arbitrary: nm s)
  case Nil
  then show ?case by auto
next
  case (Cons n ns)
  note k = peers_keepD [OF assms(1)]
  define s1 where "s1 = env (3 * n) s"
  define s2 where "s2 = env (3 * n + 1) s1"
  define s3 where "s3 = env (3 * n + 2) s2"
  have s1: "schema_ok s1" "kept s s1" using k [OF Cons.prems(1)] by (auto simp: s1_def)
  have s2: "schema_ok s2" "kept s s2" using k [OF s1(1)] s1 by (auto simp: s2_def intro: kept_trans)
  have s3: "schema_ok s3" "kept s s3" using k [OF s2(1)] s2 by (auto simp: s3_def intro: kept_trans)
  have run: "(if name_count sc nm s1 = 0 then
        (case insert_agent (new_agent sc sess nm at src []) s2 of
           Some s3 \<Rightarrow> (s3, Inr nm)
         | None \<Rightarrow> (case row_at sc sess s3 of Some r \<Rightarrow> (s3, Inr (ar_name r))
            | None \<Rightarrow> register_loop env sc sess src at base ns (base @ ''-'' @ dec_nat n) s3))
      else register_loop env sc sess src at base ns (base @ ''-'' @ dec_nat n) s1) = (s', res)"
    using Cons.prems(2) unfolding register_loop.simps Let_def s1_def s2_def s3_def .
  show ?case
  proof (cases "name_count sc nm s1 = 0")
    case False
    then show ?thesis using run s1 Cons.IH [OF s1(1)] by (auto intro: kept_trans)
  next
    case True
    show ?thesis
    proof (cases "insert_agent (new_agent sc sess nm at src []) s2")
      case (Some t)
      then show ?thesis
        using run True s2 insert_agent_row(2) [OF Some] kept_insert_agent [OF Some]
          schema_ok_insert_agent [OF s2(1) Some]
        by (auto intro: kept_trans)
    next
      case None
      then show ?thesis
        using run True s3 Cons.IH [OF s3(1)] by (auto split: option.splits intro: kept_trans)
    qed
  qed
qed

lemma register_keeps:
  assumes "peers_keep env" and "schema_ok s" and "register env sc sess src now s = (s', res)"
  shows "schema_ok s' \<and> kept s s' \<and>
    (\<forall>w. res = Inr w \<longrightarrow> (\<exists>r. row_at sc sess s' = Some r \<and> ar_name r = w))"
proof -
  note k = peers_keepD [OF assms(1)]
  have s0: "schema_ok (env 0 s)" "kept s (env 0 s)" using k [OF assms(2)] by auto
  show ?thesis
  proof (cases "row_at sc sess (env 0 s)")
    case None
    then show ?thesis
      using assms(3) s0 register_loop_keeps [OF assms(1) s0(1)]
      by (auto simp: register_def Let_def intro: kept_trans)
  next
    case (Some r)
    let ?t = "refresh sc sess (unix now) (env 1 (env 0 s))"
    have t: "schema_ok ?t" "kept (env 0 s) ?t"
      using k [OF s0(1)] schema_ok_refresh kept_trans [OF _ kept_refresh] by auto
    then show ?thesis
      using Some assms(3) s0 kept_row_at [OF t(2,1) Some]
      by (auto simp: register_def Let_def intro: kept_trans)
  qed
qed

text \<open>A registration by another session is itself interference of the kind the result allows.\<close>

lemma peers_keep_register: "peers_keep (\<lambda>k s. fst (register quiet sc (sess k) src now s))"
  unfolding peers_keep_def
  by (metis peers_keep_quiet prod.collapse register_keeps)

section \<open>Registration with nobody interfering\<close>

text \<open>The names a session may get, in order of preference.\<close>

definition candidates :: "string \<Rightarrow> string list" where
  "candidates base = base # map (\<lambda>n. base @ ''-'' @ dec_nat n) [2..<50]"

definition taken :: "string \<Rightarrow> store \<Rightarrow> string \<Rightarrow> bool" where
  "taken sc s nm \<longleftrightarrow> 0 < name_count sc nm s"

lemma taken_iff: "taken sc s nm \<longleftrightarrow> (\<exists>r \<in> set (agents s). ar_scope r = sc \<and> ar_name r = nm)"
  by (auto simp: taken_def name_count_def count_where_def filter_empty_conv)

lemma insert_free_agent:
  assumes "row_at sc sess s = None" and "\<not> taken sc s nm"
  shows "insert_agent (new_agent sc sess nm at src parent) s
    = Some (agents_update (\<lambda>rs. rs @ [new_agent sc sess nm at src parent]) s)"
  using assms by (auto simp: insert_agent_def list_ex_iff agent_key_def agent_name_key_def taken_iff
      dest: row_at_None)

lemma register_loop_quiet:
  assumes "row_at sc sess s = None"
  shows "register_loop quiet sc sess src at base ns nm s =
    (case List.find (\<lambda>w. \<not> taken sc s w)
        (butlast (nm # map (\<lambda>n. base @ ''-'' @ dec_nat n) ns)) of
       Some w \<Rightarrow> (agents_update (\<lambda>rs. rs @ [new_agent sc sess w at src []]) s, Inr w)
     | None \<Rightarrow> (s, Inl (ErrText (''register: no free name near '' @ go_quote base
         @ '' in scope '' @ go_quote sc))))"
proof (induction ns arbitrary: nm)
  case Nil
  then show ?case by simp
next
  case (Cons n ns)
  have free: "name_count sc w s = 0 \<longleftrightarrow> \<not> taken sc s w" for w
    by (simp add: taken_def)
  have split: "butlast (nm # map f (n # ns)) = nm # butlast (f n # map f ns)" for f :: "nat \<Rightarrow> string"
    by simp
  have step: "register_loop quiet sc sess src at base (n # ns) nm s =
      (if taken sc s nm then register_loop quiet sc sess src at base ns (base @ ''-'' @ dec_nat n) s
       else (agents_update (\<lambda>rs. rs @ [new_agent sc sess nm at src []]) s, Inr nm))"
    using insert_free_agent [OF assms, of nm at src "[]"]
    by (simp only: register_loop.simps Let_def quiet_simp free) simp
  show ?case
    unfolding step Cons.IH split by simp
qed

lemma candidates_suffixes:
  "butlast (base # map (\<lambda>n. base @ ''-'' @ dec_nat n) name_suffixes) = candidates base"
proof -
  have snoc: "butlast (b # map f (ns @ [n])) = b # map f ns" for b and f :: "nat \<Rightarrow> string" and ns n
    by (simp add: butlast_append)
  have suffixes: "name_suffixes = [2..<50] @ [50]"
    by (simp add: name_suffixes_def)
  show ?thesis
    unfolding candidates_def suffixes snoc ..
qed

lemma register_quiet:
  "register quiet sc sess src now s =
     (case row_at sc sess s of
        Some r \<Rightarrow> (refresh sc sess (unix now) s, Inr (ar_name r))
      | None \<Rightarrow>
          (case List.find (\<lambda>w. \<not> taken sc s w) (candidates (friendly_name sess)) of
             Some w \<Rightarrow> (agents_update (\<lambda>rs. rs @ [new_agent sc sess w (unix now) src []]) s, Inr w)
           | None \<Rightarrow> (s, Inl (ErrText (''register: no free name near '' @ go_quote (friendly_name sess)
               @ '' in scope '' @ go_quote sc)))))"
proof (cases "row_at sc sess s")
  case None
  show ?thesis
    unfolding register_def Let_def quiet_simp None option.case register_loop_quiet [OF None]
      candidates_suffixes ..
qed (simp add: register_def Let_def)

lemma row_at_refresh:
  "row_at sc sess (refresh sc' sess' at s) =
     map_option (\<lambda>r. if at_session sc' sess' r then r\<lparr>ar_status := Active, ar_seen := at\<rparr> else r)
       (row_at sc sess s)"
  unfolding row_at_def refresh_def by (simp add: find_update_where at_session_def)

lemma register_quiet_keeps:
  "schema_ok s \<Longrightarrow> register quiet sc sess src now s = (s', res) \<Longrightarrow> schema_ok s' \<and> kept s s'"
  by (metis peers_keep_quiet register_keeps)

lemma register_frame [frame_simps]:
  assumes "register quiet sc sess src now s = (s', res)"
  shows "events s' = events s" and "file_touches s' = file_touches s" and "task_rows s' = task_rows s"
    and "messages s' = messages s" and "deliveries s' = deliveries s" and "claims s' = claims s"
    and "eyes_tasks s' = eyes_tasks s" and "next_message s' = next_message s"
    and "next_event s' = next_event s"
  using assms by (auto simp: register_quiet refresh_def split: option.splits)

lemma register_row:
  assumes "register quiet sc sess src now s = (s', Inr w)"
  obtains r where "row_at sc sess s' = Some r" and "ar_name r = w" and "ar_status r = Active"
    and "ar_seen r = unix now"
proof (cases "row_at sc sess s")
  case (Some r)
  then show ?thesis
    using assms that row_atD [OF Some] by (auto simp: register_quiet row_at_refresh at_session_def)
next
  case None
  then obtain v where "s' = agents_update (\<lambda>rs. rs @ [new_agent sc sess v (unix now) src []]) s" "w = v"
    using assms by (auto simp: register_quiet split: option.splits)
  with None show ?thesis
    by (intro that [of "new_agent sc sess v (unix now) src []"])
      (auto simp: row_at_def find_append at_session_def new_agent_def)
qed

section \<open>Subagents under interference\<close>

lemma child_loop_keeps:
  assumes "peers_keep env" and "schema_ok s" and "child_loop env sc child parent pname typ at ns s = (s', res)"
  shows "schema_ok s' \<and> kept s s' \<and>
    (\<forall>w made. res = Inr (w, made) \<longrightarrow> (\<exists>r. row_at sc child s' = Some r \<and> ar_name r = w \<and>
       (made \<longrightarrow> ar_parent r = parent \<and> ar_source r = ''hook-subagent'')))"
  using assms(2,3)
proof (induction ns arbitrary: s)
  case Nil
  then show ?case by auto
next
  case (Cons n ns)
  note k = peers_keepD [OF assms(1)]
  define nm where "nm = pname @ ''/'' @ typ @ ''-'' @ dec_nat n"
  define s1 where "s1 = env (3 * n) s"
  define s2 where "s2 = env (3 * n + 1) s1"
  define s3 where "s3 = env (3 * n + 2) s2"
  have s1: "schema_ok s1" "kept s s1" using k [OF Cons.prems(1)] by (auto simp: s1_def)
  have s2: "schema_ok s2" "kept s s2" using k [OF s1(1)] s1 by (auto simp: s2_def intro: kept_trans)
  have s3: "schema_ok s3" "kept s s3" using k [OF s2(1)] s2 by (auto simp: s3_def intro: kept_trans)
  have run: "(if 0 < name_count sc nm s1 then child_loop env sc child parent pname typ at ns s1
      else (case insert_agent (new_agent sc child nm at ''hook-subagent'' parent) s2 of
           Some s3 \<Rightarrow> (s3, Inr (nm, True))
         | None \<Rightarrow> (case row_at sc child s3 of Some r \<Rightarrow> (s3, Inr (ar_name r, False))
            | None \<Rightarrow> child_loop env sc child parent pname typ at ns s3))) = (s', res)"
    using Cons.prems(2) unfolding child_loop.simps Let_def s1_def s2_def s3_def nm_def .
  show ?case
  proof (cases "0 < name_count sc nm s1")
    case True
    then show ?thesis using run s1 Cons.IH [OF s1(1)] by (auto intro: kept_trans)
  next
    case False
    show ?thesis
    proof (cases "insert_agent (new_agent sc child nm at ''hook-subagent'' parent) s2")
      case (Some t)
      then show ?thesis
        using run False s2 insert_agent_row(2) [OF Some] kept_insert_agent [OF Some]
          schema_ok_insert_agent [OF s2(1) Some]
        by (auto simp: new_agent_def intro: kept_trans)
    next
      case None
      then show ?thesis
        using run False s3 Cons.IH [OF s3(1)] by (auto split: option.splits intro: kept_trans)
    qed
  qed
qed

lemma register_child_keeps:
  assumes env: "peers_keep env" "peers_keep penv" and s: "schema_ok s"
    and run: "register_child env penv sc parent sub typ now s = (s', res)"
  shows "schema_ok s' \<and> kept s s' \<and>
    (\<forall>w made. res = Inr (w, made) \<longrightarrow>
       (\<exists>r. row_at sc (child_session parent sub) s' = Some r \<and> ar_name r = w \<and>
         (made \<longrightarrow> ar_parent r = parent \<and> row_at sc parent s' \<noteq> None)))"
proof -
  let ?child = "child_session parent sub"
  note k = peers_keepD [OF env(1)]
  have s0: "schema_ok (env 0 s)" "kept s (env 0 s)" using k [OF s] by auto
  show ?thesis
  proof (cases "row_at sc ?child (env 0 s)")
    case (Some r)
    let ?t = "refresh sc ?child (unix now) (env 1 (env 0 s))"
    have t: "schema_ok ?t" "kept (env 0 s) ?t"
      using k [OF s0(1)] schema_ok_refresh kept_trans [OF _ kept_refresh] by auto
    then show ?thesis
      using Some run s0 kept_row_at [OF t(2,1) Some]
      by (auto simp: register_child_def Let_def intro: kept_trans)
  next
    case None
    obtain s1 pres where reg: "register penv sc parent ''hook'' now (env 0 s) = (s1, pres)"
      by fastforce
    note s1 = register_keeps [OF env(2) s0(1) reg]
    show ?thesis
    proof (cases pres)
      case (Inl e)
      then show ?thesis
        using None run reg s0 s1 by (auto simp: register_child_def Let_def intro: kept_trans)
    next
      case (Inr pname)
      have here: "\<exists>p. row_at sc parent s1 = Some p" using s1 Inr by auto
      define low where "low = (if to_lower typ = [] then ''sub'' else to_lower typ)"
      have loop: "child_loop env sc ?child parent pname low (unix now) child_suffixes s1 = (s', res)"
        using None run reg Inr by (simp add: register_child_def Let_def low_def)
      note child = child_loop_keeps [OF env(1) _ loop]
      have "row_at sc parent s' \<noteq> None"
        using here child s1 kept_row_at [of s1 s'] by blast
      then show ?thesis
        using child s0 s1 by (blast intro: kept_trans)
    qed
  qed
qed

section \<open>Properties\<close>

lemma identity_of_row:
  "identity_of sc sess s = Inr a \<longleftrightarrow>
     (\<exists>r. row_at sc sess s = Some r \<and> id_name a = ar_name r \<and> id_id a = ar_id r \<and>
        id_source a = ar_source r \<and> id_kind a = ar_kind r \<and> id_origin a = ar_origin r \<and>
        id_parent a = (if ar_parent r = [] then []
            else case row_at sc (ar_parent r) s of None \<Rightarrow> [] | Some p \<Rightarrow> ar_name p))"
  by (cases a) (auto simp: identity_of_def split: option.splits)

lemma fresh_active: "fresh_status now Active (unix now) = Active"
  by (simp add: fresh_status_def Let_def window_defs ns_second_def from_unix_def unix_def)

lemma row_at_touch:
  "row_at sc sess (touch sc sess now s) =
     map_option (\<lambda>r. if ar_status r = Gone then r else heard_from (unix now) r) (row_at sc sess s)"
proof -
  have "row_at sc sess (touch sc sess now s) =
      map_option (\<lambda>r. if at_session sc sess r \<and> ar_status r \<noteq> Gone then heard_from (unix now) r else r)
        (row_at sc sess s)"
    unfolding row_at_def touch_def by (simp add: find_update_where at_session_def heard_from_def)
  then show ?thesis
    by (cases "row_at sc sess s") (auto dest: row_atD simp: at_session_def)
qed

text \<open>
  Registration under any interleaving with statements of other sessions: the unique keys
  of the store survive, nobody loses a row or a name, and a name that is returned is the name
  of the caller's own row in the final store.
\<close>

theorem register_returns_own_name:
  assumes "peers_keep env" and "schema_ok s" and "register env sc sess src now s = (s', res)"
  shows "schema_ok s' \<and> kept s s' \<and>
    (\<forall>w. res = Inr w \<longrightarrow> (\<exists>r. row_at sc sess s' = Some r \<and> ar_name r = w))"
  using assms by (rule register_keeps)

theorem register_returns_own_name_witness:
  "schema_ok (fst (register (\<lambda>k t. fst (register quiet ''ws'' (if k = 7 then ''a'' else ''b'') ''hook'' 0 t))
     ''ws'' ''a'' ''mcp'' 5 empty_store))"
proof -
  let ?env = "\<lambda>k t. fst (register quiet ''ws'' (if k = 7 then ''a'' else ''b'') ''hook'' 0 t)"
  have env: "peers_keep ?env" using peers_keep_register [of _ "\<lambda>k. if k = 7 then ''a'' else ''b''"] by simp
  show ?thesis
    using register_returns_own_name [OF env schema_ok_empty prod.collapse [symmetric]] by simp
qed

text \<open>
  Registration without interference is one equation: a session that has a row keeps its
  name and is marked active and seen now; any other session gets exactly one new row, under the
  first of its 49 candidate names nobody in the workspace has, and is refused, with the store
  as it was, when all of them are taken.
\<close>

theorem register_first_free_name:
  "register quiet sc sess src now s =
     (case row_at sc sess s of
        Some r \<Rightarrow> (refresh sc sess (unix now) s, Inr (ar_name r))
      | None \<Rightarrow>
          (case List.find (\<lambda>w. \<not> taken sc s w) (candidates (friendly_name sess)) of
             Some w \<Rightarrow> (agents_update (\<lambda>rs. rs @ [new_agent sc sess w (unix now) src []]) s, Inr w)
           | None \<Rightarrow> (s, Inl (ErrText (''register: no free name near '' @ go_quote (friendly_name sess)
               @ '' in scope '' @ go_quote sc)))))"
  by (rule register_quiet)

text \<open>
  A subagent registration under interference: the name returned is the name of the child's
  own row, and when the call is the one that created it the row is bound to the parent session,
  whose own row is there too.
\<close>

theorem register_child_binds_parent:
  assumes "peers_keep env" and "peers_keep penv" and "schema_ok s"
    and "register_child env penv sc parent sub typ now s = (s', res)"
  shows "schema_ok s' \<and> kept s s' \<and>
    (\<forall>w made. res = Inr (w, made) \<longrightarrow>
       (\<exists>r. row_at sc (child_session parent sub) s' = Some r \<and> ar_name r = w \<and>
         (made \<longrightarrow> ar_parent r = parent \<and> row_at sc parent s' \<noteq> None)))"
  using assms by (rule register_child_keeps)

theorem register_child_binds_parent_witness:
  "schema_ok (fst (register_child (\<lambda>k t. fst (register quiet ''ws'' ''z'' ''hook'' 0 t)) quiet
     ''ws'' ''p'' ''1'' ''Explore'' 5 empty_store))"
  using register_child_binds_parent [OF peers_keep_register [of "''ws''" "\<lambda>_. ''z''" "''hook''" 0]
      peers_keep_quiet schema_ok_empty prod.collapse [symmetric]] by simp

text \<open>
  Nobody acts as somebody else: whatever a caller with a session passes as \<open>from\<close>, the
  identity it is answered is a row of its workspace that is its own, or one registered under
  its session while the caller's own row is still there; and a row it may use is never refused.
\<close>

theorem resolve_actor_own_or_child:
  assumes "schema_ok s" and "caller \<noteq> []"
  shows "(\<forall>a. resolve_actor sc caller explicit s = Inr a \<longrightarrow>
      (\<exists>r \<in> set (agents s). ar_scope r = sc \<and> ar_name r = id_name a \<and> ar_id r = id_id a \<and>
         ar_kind r = id_kind a \<and> ar_origin r = id_origin a \<and>
         (ar_session r = caller \<or> ar_parent r = caller \<and> row_at sc caller s \<noteq> None))) \<and>
    (\<forall>r. explicit \<noteq> [] \<and> row_named sc explicit s = Some r \<and>
       (ar_session r = caller \<or> ar_parent r = caller \<and> row_at sc caller s \<noteq> None) \<longrightarrow>
       resolve_actor sc caller explicit s = identity_of sc (ar_session r) s \<and>
       (\<exists>a. identity_of sc (ar_session r) s = Inr a \<and> id_name a = ar_name r))"
proof (intro conjI allI impI)
  fix a assume a: "resolve_actor sc caller explicit s = Inr a"
  show "\<exists>r \<in> set (agents s). ar_scope r = sc \<and> ar_name r = id_name a \<and> ar_id r = id_id a \<and>
      ar_kind r = id_kind a \<and> ar_origin r = id_origin a \<and>
      (ar_session r = caller \<or> ar_parent r = caller \<and> row_at sc caller s \<noteq> None)"
  proof (cases "explicit = []")
    case True
    with a show ?thesis by (auto simp: resolve_actor_def identity_of_row dest!: row_atD)
  next
    case False
    with a obtain r where r: "row_named sc explicit s = Some r" "identity_of sc (ar_session r) s = Inr a"
        "ar_session r = caller \<or> ar_parent r = caller \<and> row_at (ar_scope r) caller s \<noteq> None"
      using assms(2) by (auto simp: resolve_actor_def Let_def split: option.splits if_splits)
    note row = row_namedD [OF r(1)]
    then have "row_at sc (ar_session r) s = Some r" using row_at_unique [OF assms(1)] by blast
    then show ?thesis using r(2,3) row by (auto simp: identity_of_row intro!: bexI [of _ r])
  qed
next
  fix r assume r: "explicit \<noteq> [] \<and> row_named sc explicit s = Some r \<and>
       (ar_session r = caller \<or> ar_parent r = caller \<and> row_at sc caller s \<noteq> None)"
  then have row: "r \<in> set (agents s)" "ar_scope r = sc" by (auto dest: row_namedD)
  then show "resolve_actor sc caller explicit s = identity_of sc (ar_session r) s"
    using r by (auto simp: resolve_actor_def Let_def)
  show "\<exists>a. identity_of sc (ar_session r) s = Inr a \<and> id_name a = ar_name r"
    using row_at_unique [OF assms(1) row(1)] row(2) by (auto simp: identity_of_def)
qed

definition pair_store :: store where
  "pair_store = empty_store\<lparr>agents := [
     (new_agent ''ws'' ''a'' ''calm-fox'' 100 ''hook'' []), (new_agent ''ws'' ''a/1'' ''calm-fox/sub-1'' 100 ''hook-subagent'' ''a''),
     (new_agent ''ws'' ''b'' ''deft-owl'' 100 ''mcp'' [])]\<rparr>"

lemma schema_ok_pair_store: "schema_ok pair_store"
  by (simp add: schema_ok_def pair_store_def empty_store_def new_agent_def agent_key_def agent_name_key_def)

theorem resolve_actor_own_or_child_witness:
  "\<exists>a. resolve_actor ''ws'' ''a'' ''calm-fox/sub-1'' pair_store = Inr a \<and> id_name a = ''calm-fox/sub-1''"
proof -
  have a: "''a'' \<noteq> ([] :: string)" by simp
  let ?r = "new_agent ''ws'' ''a/1'' ''calm-fox/sub-1'' 100 ''hook-subagent'' ''a''"
  have "agent_id ''a'' \<noteq> ''calm-fox/sub-1''"
  proof
    assume "agent_id ''a'' = ''calm-fox/sub-1''"
    then have "length ''calm-fox/sub-1'' = (12 :: nat)" by (metis length_agent_id)
    then show False by simp
  qed
  then have "row_named ''ws'' ''calm-fox/sub-1'' pair_store = Some ?r" "row_at ''ws'' ''a'' pair_store \<noteq> None"
    "ar_parent ?r = ''a''" "ar_name ?r = ''calm-fox/sub-1''"
    by (simp_all add: row_named_def goes_by_def row_at_def at_session_def pair_store_def new_agent_def)
  then show ?thesis
    using resolve_actor_own_or_child [OF schema_ok_pair_store a, of "''ws''" "''calm-fox/sub-1''"] by auto
qed

text \<open>
  The heartbeat: a call from a live or idle session leaves its row active at that very
  moment, a row that is explicitly gone is never brought back by it, no other row moves, and
  from then on presence only ever decays.
\<close>

theorem touch_heartbeat:
  assumes "row_at sc sess s = Some r"
  shows "\<exists>q. row_at sc sess (touch sc sess now s) = Some q \<and>
     (ar_status r = Gone \<longrightarrow> q = r) \<and>
     (ar_status r = Active \<or> ar_status r = Idle \<longrightarrow> fresh_status now (ar_status q) (ar_seen q) = Active) \<and>
     filter (\<lambda>x. \<not> at_session sc sess x) (agents (touch sc sess now s))
       = filter (\<lambda>x. \<not> at_session sc sess x) (agents s) \<and>
     (\<forall>t t'. t \<le> t' \<longrightarrow> fresh_status t (ar_status q) (ar_seen q) \<le> fresh_status t' (ar_status q) (ar_seen q))"
proof -
  let ?q = "if ar_status r = Gone then r else heard_from (unix now) r"
  have "row_at sc sess (touch sc sess now s) = Some ?q"
    using assms by (simp add: row_at_touch)
  moreover have "filter (\<lambda>x. \<not> at_session sc sess x) (update_where (\<lambda>r. at_session sc sess r \<and> P r) f rs)
      = filter (\<lambda>x. \<not> at_session sc sess x) rs" if "\<And>x. at_session sc sess (f x) = at_session sc sess x" for P f rs
    by (induction rs) (auto simp: that)
  ultimately show ?thesis
    by (intro exI [of _ ?q]) (auto simp: touch_def heard_from_def fresh_active fresh_status_mono at_session_def)
qed

theorem touch_heartbeat_witness:
  "\<exists>q. row_at ''ws'' ''b'' (touch ''ws'' ''b'' (from_unix 4000) pair_store) = Some q"
proof -
  have "row_at ''ws'' ''b'' pair_store = Some (new_agent ''ws'' ''b'' ''deft-owl'' 100 ''mcp'' [])"
    by (simp add: row_at_def pair_store_def at_session_def)
  from touch_heartbeat [OF this] show ?thesis by blast
qed

end
