(* ===== verification/JsonRound.thy ===== *)
theory JsonRound
  imports Json
begin

text \<open>
  Parsing what was printed: for documents of integer numbers and well-formed text, the reader
  gives the document back and leaves whatever follows it alone. The proof goes by enough fuel
  at each level; \<open>parse_fuel\<close> then says the fuel the reader takes is enough.
\<close>

section \<open>Numbers\<close>

definition undec_int :: "string \<Rightarrow> int" where
  "undec_int s = (case s of c # r \<Rightarrow> if c = CHR ''-'' then - int (undec_nat r) else int (undec_nat s) | [] \<Rightarrow> 0)"

lemma hd_dec_nat_digit: "is_digit (hd (dec_nat n))"
  using dec_nat_digits [of n] by (cases "dec_nat n") auto

lemma undec_dec_int [simp]: "undec_int (dec_int i) = i"
proof (cases "i < 0")
  case True
  then show ?thesis by (simp add: undec_int_def dec_int_def)
next
  case False
  obtain c r where cr: "dec_nat (nat i) = c # r" by (cases "dec_nat (nat i)") auto
  have "is_digit c" using hd_dec_nat_digit [of "nat i"] cr by simp
  then have "c \<noteq> CHR ''-''" by (auto simp: is_digit_def byte_def)
  then show ?thesis using False undec_dec_nat [of "nat i"] cr
    by (simp add: undec_int_def dec_int_def)
qed

definition ends_number :: "string \<Rightarrow> bool" where
  "ends_number s \<longleftrightarrow> (case s of [] \<Rightarrow> True
     | c # _ \<Rightarrow> \<not> is_digit c \<and> c \<noteq> CHR ''.'' \<and> c \<noteq> CHR ''e'' \<and> c \<noteq> CHR ''E'')"

lemma takeWhile_digits:
  "list_all is_digit ds \<Longrightarrow> ends_number r \<Longrightarrow> takeWhile is_digit (ds @ r) = ds \<and> dropWhile is_digit (ds @ r) = r"
  by (induction ds) (auto simp: ends_number_def split: list.splits)

lemma scan_dec_nat: "ends_number r \<Longrightarrow> scan_nat (dec_nat n @ r) = Some (dec_nat n, r)"
proof (cases "n = 0")
  case True
  have "dec_nat 0 = ''0''" by code_simp
  then show ?thesis using True by (simp add: scan_nat_def)
next
  case False
  assume r: "ends_number r"
  obtain c cs where cs: "dec_nat n = c # cs" by (cases "dec_nat n") auto
  have "c \<noteq> CHR ''0''" "is_digit c"
    using dec_nat_head [of n] hd_dec_nat_digit [of n] False cs by auto
  then show ?thesis using takeWhile_digits [OF dec_nat_digits r, of n] cs
    by (auto simp add: scan_nat_def)
qed

lemma scan_dec_int: "ends_number r \<Longrightarrow> scan_number (dec_int i @ r) = Some (dec_int i, r)"
proof -
  assume r: "ends_number r"
  then have e: "scan_frac r = Some ([], r)" "scan_exp r = Some ([], r)"
    by (auto simp: ends_number_def scan_frac_def scan_exp_def split: list.splits)
  obtain c cs where cs: "dec_nat (nat i) = c # cs" by (cases "dec_nat (nat i)") auto
  have "is_digit c" using hd_dec_nat_digit [of "nat i"] cs by simp
  then have "c \<noteq> CHR ''-''" by (auto simp: is_digit_def byte_def)
  then show ?thesis
    using scan_dec_nat [OF r, of "nat i"] scan_dec_nat [OF r, of "nat (- i)"] cs
    by (simp add: scan_number_def dec_int_def e)
qed

lemma dec_int_head: "\<exists>c cs. dec_int i = c # cs \<and> (is_digit c \<or> c = CHR ''-'')"
proof -
  obtain c cs where cs: "dec_nat (nat i) = c # cs" by (cases "dec_nat (nat i)") auto
  then have "is_digit c" using hd_dec_nat_digit [of "nat i"] by simp
  then show ?thesis using cs by (auto simp: dec_int_def)
qed

text \<open>The documents the code prints: integer numbers and well-formed text.\<close>

fun wf_json :: "json \<Rightarrow> bool" where
  "wf_json JNull = True"
| "wf_json (JBool b) = True"
| "wf_json (JNum t) = (t = dec_int (undec_int t))"
| "wf_json (JStr s) = valid_utf8 s"
| "wf_json (JArr js) = list_all wf_json js"
| "wf_json (JObj kvs) = list_all (\<lambda>(k, v). valid_utf8 k \<and> wf_json v) kvs"

fun json_depth :: "json \<Rightarrow> nat" where
  "json_depth (JArr js) = Suc (fold max (map json_depth js) 0)"
| "json_depth (JObj kvs) = Suc (fold max (map (\<lambda>(k, v). json_depth v) kvs) 0)"
| "json_depth _ = 0"

lemma fold_max_le: "(fold max ns (m::nat) \<le> k) \<longleftrightarrow> (m \<le> k \<and> (\<forall>n \<in> set ns. n \<le> k))"
  by (induction ns arbitrary: m) auto

text \<open>\<open>parses d t j\<close>: with enough fuel, \<open>t\<close> in front of any text that cannot continue a number
  is read as \<open>j\<close>.\<close>

definition parses :: "nat \<Rightarrow> string \<Rightarrow> json \<Rightarrow> bool" where
  "parses d t j \<longleftrightarrow> (\<forall>rest. ends_number rest \<longrightarrow> (\<exists>N. \<forall>n \<ge> N. parse_value n d (t @ rest) = Some (j, rest)))"

lemma ends_number_literals [simp]:
  "ends_number (CHR '','' # r)" "ends_number (CHR '']'' # r)" "ends_number (CHR ''}'' # r)" "ends_number []"
  by (simp_all add: ends_number_def is_digit_def byte_def)

lemma space_literals [simp]:
  "\<not> is_json_space (CHR '','')" "\<not> is_json_space (CHR '']'')" "\<not> is_json_space (CHR ''}'')"
  "\<not> is_json_space (CHR '':'')" "\<not> is_json_space (CHR ''['')" "\<not> is_json_space (CHR ''{'')"
  "\<not> is_json_space dquote" "\<not> is_json_space (CHR ''t'')" "\<not> is_json_space (CHR ''f'')"
  "\<not> is_json_space (CHR ''n'')"
  by (simp_all add: is_json_space_def byte_def)

lemma parses_atom:
  assumes "\<And>n rest. ends_number rest \<Longrightarrow> parse_value (Suc n) d (t @ rest) = Some (j, rest)"
  shows "parses d t j"
  unfolding parses_def
proof (intro allI impI exI [of _ 1])
  fix rest n
  assume "ends_number rest" and "(1::nat) \<le> n"
  then show "parse_value n d (t @ rest) = Some (j, rest)" using assms by (cases n) auto
qed

lemma parsesE:
  assumes "parses d t j" and "ends_number rest"
  obtains N where "\<And>n. N \<le> n \<Longrightarrow> parse_value n d (t @ rest) = Some (j, rest)"
  using assms unfolding parses_def by blast

lemma parses_elems:
  assumes "js \<noteq> []" and "\<forall>j \<in> set js. parses d (json_print j) j"
  shows "\<exists>N. \<forall>n \<ge> N. parse_elems n d (join '','' (map json_print js) @ CHR '']'' # rest) = Some (js, rest)"
  using assms
proof (induction js)
  case (Cons j js)
  have pj: "parses d (json_print j) j" using Cons.prems by simp
  show ?case
  proof (cases js)
    case Nil
    obtain N where N: "\<And>n. N \<le> n \<Longrightarrow>
        parse_value n d (json_print j @ CHR '']'' # rest) = Some (j, CHR '']'' # rest)"
      by (rule parsesE [OF pj, of "CHR '']'' # rest"]) auto
    have "parse_elems n d (json_print j @ CHR '']'' # rest) = Some ([j], rest)" if "Suc N \<le> n" for n
      using that N by (cases n) auto
    then show ?thesis using Nil by (intro exI [of _ "Suc N"]) simp
  next
    case (Cons k ks)
    let ?t = "join '','' (map json_print js) @ CHR '']'' # rest"
    obtain N where N: "\<forall>n \<ge> N. parse_elems n d ?t = Some (js, rest)"
      using Cons.IH Cons.prems Cons by auto
    obtain M where M: "\<And>n. M \<le> n \<Longrightarrow> parse_value n d (json_print j @ CHR '','' # ?t) = Some (j, CHR '','' # ?t)"
      by (rule parsesE [OF pj, of "CHR '','' # ?t"]) auto
    have "parse_elems n d (json_print j @ CHR '','' # ?t) = Some (j # js, rest)" if "Suc (max M N) \<le> n" for n
      using that M N by (cases n) (auto simp: map_value_Some)
    then show ?thesis using Cons by (intro exI [of _ "Suc (max M N)"]) simp
  qed
qed simp

definition member_text :: "string \<times> json \<Rightarrow> string" where
  "member_text kv = json_string (fst kv) @ '':'' @ json_print (snd kv)"

lemma parse_member_step:
  assumes k: "valid_utf8 k" and v: "parse_value n d (json_print v @ x # t) = Some (v, x # t)"
    and x: "\<not> is_json_space x"
  shows "parse_members (Suc n) d (member_text (k, v) @ x # t)
    = (if x = CHR ''}'' then Some ([(k, v)], t)
       else if x = CHR '','' then map_value (\<lambda>kvs. (k, v) # kvs) (parse_members n d t) else None)"
  using scan_json_string [OF k] v x by (simp add: member_text_def json_string_def)

lemma parses_members:
  assumes "kvs \<noteq> []" and "\<forall>(k, v) \<in> set kvs. valid_utf8 k \<and> parses d (json_print v) v"
  shows "\<exists>N. \<forall>n \<ge> N. parse_members n d (join '','' (map member_text kvs) @ CHR ''}'' # rest) = Some (kvs, rest)"
  using assms
proof (induction kvs)
  case (Cons kv kvs)
  obtain k v where kv: "kv = (k, v)" by (cases kv)
  have k: "valid_utf8 k" and pv: "parses d (json_print v) v" using Cons.prems kv by auto
  show ?case
  proof (cases kvs)
    case Nil
    obtain N where N: "\<And>n. N \<le> n \<Longrightarrow>
        parse_value n d (json_print v @ CHR ''}'' # rest) = Some (v, CHR ''}'' # rest)"
      by (rule parsesE [OF pv, of "CHR ''}'' # rest"]) auto
    have "parse_members n d (member_text kv @ CHR ''}'' # rest) = Some ([kv], rest)" if "Suc N \<le> n" for n
      using that N by (cases n) (auto simp: kv parse_member_step [OF k] simp del: parse_members.simps)
    then show ?thesis using Nil by (intro exI [of _ "Suc N"]) (simp del: parse_members.simps)
  next
    case (Cons kv2 kvs2)
    let ?t = "join '','' (map member_text kvs) @ CHR ''}'' # rest"
    obtain N where N: "\<forall>n \<ge> N. parse_members n d ?t = Some (kvs, rest)"
      using Cons.IH Cons.prems Cons by auto
    obtain M where M: "\<And>n. M \<le> n \<Longrightarrow> parse_value n d (json_print v @ CHR '','' # ?t) = Some (v, CHR '','' # ?t)"
      by (rule parsesE [OF pv, of "CHR '','' # ?t"]) auto
    have "parse_members n d (member_text kv @ CHR '','' # ?t) = Some (kv # kvs, rest)"
      if "Suc (max M N) \<le> n" for n
      using that M N
      by (cases n) (auto simp: kv parse_member_step [OF k] map_value_Some simp del: parse_members.simps)
    then show ?thesis using Cons
      by (intro exI [of _ "Suc (max M N)"]) (simp del: parse_members.simps)
  qed
qed simp

lemma json_print_Obj: "json_print (JObj kvs) = ''{'' @ join '','' (map member_text kvs) @ ''}''"
proof -
  have "(\<lambda>(k, v). json_string k @ '':'' @ json_print v) = member_text"
    by (auto simp: member_text_def fun_eq_iff)
  then show ?thesis by simp
qed

lemma json_print_head: "wf_json j \<Longrightarrow> \<exists>c cs. json_print j = c # cs \<and> \<not> is_json_space c \<and> c \<noteq> CHR '']'' \<and> c \<noteq> CHR ''}''"
proof (cases j)
  case (JNum t)
  assume "wf_json j"
  then obtain i where "t = dec_int i" using JNum by auto
  then show ?thesis using dec_int_head [of i] JNum
    by (auto simp: is_digit_def is_json_space_def byte_def)
next
  case (JBool b)
  then show ?thesis by (cases b) (auto simp: is_json_space_def byte_def)
qed (auto simp: json_string_def)

lemma join_Cons: "join sep (w # ws) = w @ (if ws = [] then [] else sep @ join sep ws)"
  by (cases ws) auto

lemma parses_array:
  assumes "js \<noteq> []" and "list_all wf_json js" and "d < max_nesting"
    and p: "\<forall>j \<in> set js. parses (Suc d) (json_print j) j"
  shows "parses d (json_print (JArr js)) (JArr js)"
  unfolding parses_def
proof (intro allI impI)
  fix rest
  let ?t = "join '','' (map json_print js) @ CHR '']'' # rest"
  obtain N where N: "\<forall>n \<ge> N. parse_elems n (Suc d) ?t = Some (js, rest)"
    using parses_elems [OF assms(1) p] by blast
  obtain j js' where js: "js = j # js'" using assms(1) by (cases js) auto
  obtain c cs where c: "json_print j = c # cs" "\<not> is_json_space c" "c \<noteq> CHR '']''"
    using assms(2) json_print_head [of j] js by auto
  then obtain r where t: "?t = c # r" using js by (simp add: join_Cons)
  have "parse_value n d (json_print (JArr js) @ rest) = Some (JArr js, rest)" if "Suc N \<le> n" for n
  proof -
    obtain m where m: "n = Suc m" "N \<le> m" using \<open>Suc N \<le> n\<close> by (cases n) auto
    have "parse_elems m (Suc d) (c # r) = Some (js, rest)" using N m t by simp
    then show ?thesis using m t c assms(3) by (simp add: map_value_def del: parse_elems.simps)
  qed
  then show "\<exists>N. \<forall>n \<ge> N. parse_value n d (json_print (JArr js) @ rest) = Some (JArr js, rest)" by blast
qed

lemma parses_object:
  assumes "kvs \<noteq> []" and "d < max_nesting"
    and p: "\<forall>(k, v) \<in> set kvs. valid_utf8 k \<and> parses (Suc d) (json_print v) v"
  shows "parses d (json_print (JObj kvs)) (JObj kvs)"
  unfolding parses_def
proof (intro allI impI)
  fix rest
  let ?t = "join '','' (map member_text kvs) @ CHR ''}'' # rest"
  obtain N where N: "\<forall>n \<ge> N. parse_members n (Suc d) ?t = Some (kvs, rest)"
    using parses_members [OF assms(1) p] by blast
  obtain kv kvs' where kvs: "kvs = kv # kvs'" using assms(1) by (cases kvs) auto
  then obtain r where t: "?t = dquote # r" by (simp add: join_Cons member_text_def json_string_def)
  have "parse_value n d (json_print (JObj kvs) @ rest) = Some (JObj kvs, rest)" if "Suc N \<le> n" for n
  proof -
    obtain m where m: "n = Suc m" "N \<le> m" using \<open>Suc N \<le> n\<close> by (cases n) auto
    have "parse_members m (Suc d) (dquote # r) = Some (kvs, rest)" using N m t by simp
    then show ?thesis using m t assms(2)
      by (simp add: map_value_def json_print_Obj del: parse_members.simps json_print.simps)
  qed
  then show "\<exists>N. \<forall>n \<ge> N. parse_value n d (json_print (JObj kvs) @ rest) = Some (JObj kvs, rest)" by blast
qed

lemma depth_elem: "j \<in> set js \<Longrightarrow> d + json_depth (JArr js) \<le> m \<Longrightarrow> Suc d + json_depth j \<le> m"
  using fold_max_le [of "map json_depth js" 0 "fold max (map json_depth js) 0"] by fastforce

lemma depth_member: "(k, v) \<in> set kvs \<Longrightarrow> d + json_depth (JObj kvs) \<le> m \<Longrightarrow> Suc d + json_depth v \<le> m"
  using fold_max_le [of "map (\<lambda>(k, v). json_depth v) kvs" 0 "fold max (map (\<lambda>(k, v). json_depth v) kvs) 0"]
  by fastforce

lemma json_roundtrip_at:
  "wf_json j \<Longrightarrow> d + json_depth j \<le> max_nesting \<Longrightarrow> parses d (json_print j) j"
proof (induction j arbitrary: d rule: json_print.induct)
  case (5 js)
  have d: "d < max_nesting" using "5.prems"(2) by simp
  show ?case
  proof (cases "js = []")
    case True
    then show ?thesis using d by (auto intro!: parses_atom)
  next
    case False
    have "\<forall>j \<in> set js. parses (Suc d) (json_print j) j"
      using "5.IH" "5.prems" depth_elem by (auto simp: list_all_iff simp del: json_depth.simps)
    then show ?thesis using parses_array False d "5.prems"(1) by auto
  qed
next
  case (6 kvs)
  have d: "d < max_nesting" using "6.prems"(2) by simp
  show ?case
  proof (cases "kvs = []")
    case True
    then show ?thesis using d by (auto intro!: parses_atom)
  next
    case False
    have "\<forall>(k, v) \<in> set kvs. valid_utf8 k \<and> parses (Suc d) (json_print v) v"
      using "6.IH" "6.prems" depth_member
      by (fastforce simp: list_all_iff simp del: json_depth.simps)
    then show ?thesis using parses_object False d by blast
  qed
next
  case (3 t)
  then obtain i where t: "t = dec_int i" by auto
  obtain c cs where c: "dec_int i = c # cs" "is_digit c \<or> c = CHR ''-''"
    using dec_int_head [of i] by auto
  have nc: "c \<noteq> CHR ''{''" "c \<noteq> CHR ''[''" "c \<noteq> dquote" "c \<noteq> CHR ''t''" "c \<noteq> CHR ''f''" "c \<noteq> CHR ''n''"
      "\<not> is_json_space c"
    using c(2) by (auto simp: is_digit_def is_json_space_def byte_def)
  show ?case
  proof (rule parses_atom)
    fix n rest
    assume "ends_number rest"
    then show "parse_value (Suc n) d (json_print (JNum t) @ rest) = Some (JNum t, rest)"
      using scan_dec_int [of rest i] nc c by (simp add: t map_value_def)
  qed
next
  case (4 s)
  then show ?case
    by (intro parses_atom) (simp add: json_string_def scan_json_string map_value_def)
qed (auto intro!: parses_atom simp: scan_literal_def cut_prefix_def)

text \<open>
  Reading what was printed, whatever follows it: the round trip of the codec, for documents no
  deeper than the scanner's bound.
\<close>

lemma read_printed:
  assumes "wf_json j" and "json_depth j \<le> max_nesting" and "ends_number rest"
  shows "read_value (json_print j @ rest) = Some (j, rest)"
proof -
  let ?s = "json_print j @ rest"
  obtain N where N: "\<And>n. N \<le> n \<Longrightarrow> parse_value n 0 ?s = Some (j, rest)"
    by (rule parsesE [OF json_roundtrip_at [OF assms(1), of 0] assms(3)]) (use assms(2) in auto)
  have "parse_value (max N (2 * length ?s + 2)) 0 ?s = parse_value (2 * length ?s + 2) 0 ?s"
    by (rule parse_fuel) auto
  then show ?thesis using N [of "max N (2 * length ?s + 2)"] by (simp add: read_value_def)
qed

lemma unmarshal_printed:
  "wf_json j \<Longrightarrow> json_depth j \<le> max_nesting \<Longrightarrow> json_unmarshal (json_print j) = Some j"
  using read_printed [of j "[]"] by (simp add: json_unmarshal_def)

lemma wf_json_int [simp]: "wf_json (json_int i)" "json_depth (json_int i) = 0"
  by (simp_all add: json_int_def)

lemma valid_utf8_ascii: "is_ascii s \<Longrightarrow> valid_utf8 s"
  by (auto simp: valid_utf8_def runes_ascii list_all_iff is_bad_rune_def rune_error_def is_ascii_def)

end
