(* ===== verification/Wire.thy ===== *)
theory Wire
  imports JsonRound Protocol
begin

text \<open>
  \<open>encoding/json\<close> into a Go struct. A decoder takes a document and the value the struct holds
  and returns the value it holds afterwards and whether no error was recorded: like the
  package it goes on after a mismatch, so a caller that ignores the error sees the fields that
  did fit. A key names the field that spells it exactly, else the one it folds to.
\<close>

section \<open>Fields\<close>

type_synonym 'a decoder = "json \<Rightarrow> 'a \<Rightarrow> 'a \<times> bool"

definition fold_step :: "string \<Rightarrow> string" where
  "fold_step bs = (if bs = [chr 197, chr 191] then ''S''
     else if bs = [chr 226, chr 132, chr 170] then ''K''
     else to_upper bs)"

definition fold_key :: "string \<Rightarrow> string" where
  "fold_key k = concat (map (\<lambda>rb. fold_step (snd rb)) (runes k))"

definition find_field :: "string \<Rightarrow> (string \<times> 'a decoder) list \<Rightarrow> 'a decoder option" where
  "find_field k fs = (case map_of fs k of
     Some d \<Rightarrow> Some d
   | None \<Rightarrow> map_option snd (List.find (\<lambda>(f, _). fold_key f = fold_key k) fs))"

definition both :: "bool \<Rightarrow> 'a \<times> bool \<Rightarrow> 'a \<times> bool" where
  "both ok r = (fst r, ok \<and> snd r)"

fun dec_members :: "bool \<Rightarrow> (string \<times> 'a decoder) list \<Rightarrow> (string \<times> json) list \<Rightarrow> 'a \<Rightarrow> 'a \<times> bool" where
  "dec_members strict fs [] a = (a, True)"
| "dec_members strict fs ((k, j) # kvs) a =
     (case find_field k fs of
        Some d \<Rightarrow> (let r = d j a in both (snd r) (dec_members strict fs kvs (fst r)))
      | None \<Rightarrow> both (\<not> strict) (dec_members strict fs kvs a))"

definition dec_struct :: "bool \<Rightarrow> (string \<times> 'a decoder) list \<Rightarrow> 'a decoder" where
  "dec_struct strict fs j a = (case j of
     JNull \<Rightarrow> (a, True)
   | JObj kvs \<Rightarrow> dec_members strict fs kvs a
   | _ \<Rightarrow> (a, False))"

section \<open>Values\<close>

definition put_text :: "(string \<Rightarrow> 'a \<Rightarrow> 'a) \<Rightarrow> 'a decoder" where
  "put_text put j a = (case j of
     JNull \<Rightarrow> (a, True) | JStr t \<Rightarrow> (put t a, True) | _ \<Rightarrow> (a, False))"

definition put_bool :: "(bool \<Rightarrow> 'a \<Rightarrow> 'a) \<Rightarrow> 'a decoder" where
  "put_bool put j a = (case j of
     JNull \<Rightarrow> (a, True) | JBool b \<Rightarrow> (put b a, True) | _ \<Rightarrow> (a, False))"

text \<open>\<open>strconv.ParseInt(s, 10, 64)\<close> on the literal of a number.\<close>

definition parse_int64 :: "string \<Rightarrow> int option" where
  "parse_int64 t =
     (let ds = (case t of c # r \<Rightarrow> if c = CHR ''-'' then r else t | [] \<Rightarrow> []); i = undec_int t in
      if ds \<noteq> [] \<and> list_all is_digit ds \<and> - (2 ^ 63) \<le> i \<and> i < 2 ^ 63 then Some i else None)"

definition put_int :: "(int \<Rightarrow> 'a \<Rightarrow> 'a) \<Rightarrow> 'a decoder" where
  "put_int put j a = (case j of
     JNull \<Rightarrow> (a, True)
   | JNum t \<Rightarrow> (case parse_int64 t of Some i \<Rightarrow> (put i a, True) | None \<Rightarrow> (a, False))
   | _ \<Rightarrow> (a, False))"

text \<open>
  A pointer: null clears it, anything else decodes into what it points to, or into a fresh
  zero value. A slice: null clears it, an array replaces its length but decodes each element
  over the one that was there.
\<close>

definition dec_ptr :: "'b \<Rightarrow> 'b decoder \<Rightarrow> 'b option decoder" where
  "dec_ptr zero d j p = (case j of
     JNull \<Rightarrow> (None, True)
   | _ \<Rightarrow> (let r = d j (case p of None \<Rightarrow> zero | Some b \<Rightarrow> b) in (Some (fst r), snd r)))"

fun dec_elems :: "'b \<Rightarrow> 'b decoder \<Rightarrow> json list \<Rightarrow> 'b list \<Rightarrow> 'b list \<times> bool" where
  "dec_elems zero d [] old = ([], True)"
| "dec_elems zero d (j # js) old =
     (let r = d j (case old of b # _ \<Rightarrow> b | [] \<Rightarrow> zero); rest = dec_elems zero d js (tl old) in
      (fst r # fst rest, snd r \<and> snd rest))"

definition dec_slice :: "'b \<Rightarrow> 'b decoder \<Rightarrow> 'b list option decoder" where
  "dec_slice zero d j p = (case j of
     JNull \<Rightarrow> (None, True)
   | JArr js \<Rightarrow> (let r = dec_elems zero d js (case p of None \<Rightarrow> [] | Some bs \<Rightarrow> bs) in (Some (fst r), snd r))
   | _ \<Rightarrow> (p, False))"

definition dec_text :: "string decoder" where
  "dec_text = put_text (\<lambda>t _. t)"

text \<open>A decoder of one part of a record.\<close>

definition on_part :: "('a \<Rightarrow> 'b) \<Rightarrow> (('b \<Rightarrow> 'b) \<Rightarrow> 'a \<Rightarrow> 'a) \<Rightarrow> 'b decoder \<Rightarrow> 'a decoder" where
  "on_part get upd d j a = (let r = d j (get a) in (upd (\<lambda>_. fst r) a, snd r))"

lemmas wire_defs = dec_struct_def put_text_def put_bool_def put_int_def dec_ptr_def dec_slice_def
  dec_text_def on_part_def both_def

section \<open>The structs the programs decode\<close>

definition ref_fields :: "(string \<times> agent_ref decoder) list" where
  "ref_fields = [(''name'', put_text (\<lambda>t. ref_name_update (\<lambda>_. t))),
     (''agent_id'', put_text (\<lambda>t. ref_id_update (\<lambda>_. t))),
     (''scope'', put_text (\<lambda>t. ref_scope_update (\<lambda>_. t)))]"

definition dec_ref :: "bool \<Rightarrow> agent_ref decoder" where
  "dec_ref strict = dec_struct strict ref_fields"

definition launch_fields :: "bool \<Rightarrow> (string \<times> launch_msg decoder) list" where
  "launch_fields strict = [(''type'', put_text (\<lambda>t. lm_type_update (\<lambda>_. t))),
     (''task_id'', put_text (\<lambda>t. lm_task_update (\<lambda>_. t))),
     (''runtime'', put_text (\<lambda>t. lm_runtime_update (\<lambda>_. t))),
     (''scope'', put_text (\<lambda>t. lm_scope_update (\<lambda>_. t))),
     (''brief'', put_text (\<lambda>t. lm_brief_update (\<lambda>_. t))),
     (''reply_to'', on_part lm_reply lm_reply_update (dec_ref strict)),
     (''deadline_s'', put_int (\<lambda>i. lm_deadline_update (\<lambda>_. i)))]"

definition cancel_fields :: "(string \<times> cancel_msg decoder) list" where
  "cancel_fields = [(''type'', put_text (\<lambda>t. cm_type_update (\<lambda>_. t))),
     (''task_id'', put_text (\<lambda>t. cm_task_update (\<lambda>_. t)))]"

definition accepted_fields :: "bool \<Rightarrow> (string \<times> accepted_msg decoder) list" where
  "accepted_fields strict = [(''type'', put_text (\<lambda>t. am_type_update (\<lambda>_. t))),
     (''task_id'', put_text (\<lambda>t. am_task_update (\<lambda>_. t))),
     (''child'', on_part am_child am_child_update (dec_ptr empty_ref (dec_ref strict)))]"

definition progress_fields :: "(string \<times> progress_msg decoder) list" where
  "progress_fields = [(''type'', put_text (\<lambda>t. pm_type_update (\<lambda>_. t))),
     (''task_id'', put_text (\<lambda>t. pm_task_update (\<lambda>_. t))),
     (''turns'', put_int (\<lambda>i. pm_turns_update (\<lambda>_. i))),
     (''tool'', put_text (\<lambda>t. pm_tool_update (\<lambda>_. t))),
     (''elapsed_s'', put_int (\<lambda>i. pm_elapsed_update (\<lambda>_. i)))]"

definition result_fields :: "(string \<times> result_msg decoder) list" where
  "result_fields = [(''type'', put_text (\<lambda>t. xm_type_update (\<lambda>_. t))),
     (''task_id'', put_text (\<lambda>t. xm_task_update (\<lambda>_. t))),
     (''status'', put_text (\<lambda>t. xm_status_update (\<lambda>_. t))),
     (''summary'', put_text (\<lambda>t. xm_summary_update (\<lambda>_. t))),
     (''observations'', on_part xm_observations xm_observations_update (dec_slice [] dec_text)),
     (''actions'', on_part xm_actions xm_actions_update (dec_slice [] dec_text)),
     (''evidence'', on_part xm_evidence xm_evidence_update (dec_slice [] dec_text)),
     (''error'', put_text (\<lambda>t. xm_error_update (\<lambda>_. t)))]"

definition failed_fields :: "(string \<times> failed_msg decoder) list" where
  "failed_fields = [(''type'', put_text (\<lambda>t. fm_type_update (\<lambda>_. t))),
     (''task_id'', put_text (\<lambda>t. fm_task_update (\<lambda>_. t))),
     (''error'', put_text (\<lambda>t. fm_error_update (\<lambda>_. t)))]"

definition zero_launch :: launch_msg where
  "zero_launch = \<lparr>lm_type = [], lm_task = [], lm_runtime = [], lm_scope = [], lm_brief = [],
     lm_reply = empty_ref, lm_deadline = 0\<rparr>"

definition zero_cancel :: cancel_msg where "zero_cancel = \<lparr>cm_type = [], cm_task = []\<rparr>"

definition zero_accepted :: accepted_msg where
  "zero_accepted = \<lparr>am_type = [], am_task = [], am_child = None\<rparr>"

definition zero_progress :: progress_msg where
  "zero_progress = \<lparr>pm_type = [], pm_task = [], pm_turns = 0, pm_tool = [], pm_elapsed = 0\<rparr>"

definition zero_result :: result_msg where
  "zero_result = \<lparr>xm_type = [], xm_task = [], xm_status = [], xm_summary = [], xm_observations = None,
     xm_actions = None, xm_evidence = None, xm_error = []\<rparr>"

definition zero_failed :: failed_msg where "zero_failed = \<lparr>fm_type = [], fm_task = [], fm_error = []\<rparr>"

section \<open>Whole texts\<close>

text \<open>
  \<open>json.Unmarshal\<close> into a struct: a syntax error is found before anything is stored.
\<close>

definition unmarshal_into :: "'a decoder \<Rightarrow> 'a \<Rightarrow> string \<Rightarrow> 'a \<times> bool" where
  "unmarshal_into d zero t = (case json_unmarshal t of Some j \<Rightarrow> d j zero | None \<Rightarrow> (zero, False))"

text \<open>
  \<open>decodeTaskJSON\<close>: one value decoded with unknown fields refused, then the end of the text.
\<close>

definition decode_task_json :: "'a decoder \<Rightarrow> 'a \<Rightarrow> string \<Rightarrow> 'a option" where
  "decode_task_json d zero body = (case read_value body of
     None \<Rightarrow> None
   | Some (j, rest) \<Rightarrow> if snd (d j zero) \<and> skip_space rest = [] then Some (fst (d j zero)) else None)"

definition reply_ref :: "string \<Rightarrow> agent_ref option" where
  "reply_ref stamped = (if stamped = [] then None
     else let r = unmarshal_into (dec_ref False) empty_ref stamped in if snd r then Some (fst r) else None)"

section \<open>Decoding what was printed\<close>

lemma parse_int64_dec [simp]: "- (2 ^ 63) \<le> i \<Longrightarrow> i < 2 ^ 63 \<Longrightarrow> parse_int64 (dec_int i) = Some i"
proof -
  assume b: "- (2 ^ 63) \<le> i" "i < 2 ^ 63"
  obtain c cs where cs: "dec_nat (nat i) = c # cs" by (cases "dec_nat (nat i)") auto
  then have "is_digit c" using hd_dec_nat_digit [of "nat i"] by simp
  then have "c \<noteq> CHR ''-''" by (auto simp: is_digit_def byte_def)
  then show ?thesis
    using b cs dec_nat_digits [of "nat i"] dec_nat_digits [of "nat (- i)"] undec_dec_int [of i]
    by (auto simp: parse_int64_def dec_int_def Let_def simp del: undec_dec_int)
qed

lemma put_int_dec [simp]:
  "- (2 ^ 63) \<le> i \<Longrightarrow> i < 2 ^ 63 \<Longrightarrow> put_int put (json_int i) a = (put i a, True)"
  by (simp add: put_int_def json_int_def)

lemma put_text_str [simp]: "put_text put (JStr t) a = (put t a, True)"
  by (simp add: put_text_def)

lemma find_field_simps [simp]:
  "find_field k ((k, d) # fs) = Some d"
  by (simp add: find_field_def)

lemma find_field_map: "map_of fs k = Some d \<Longrightarrow> find_field k fs = Some d"
  by (simp add: find_field_def)

lemma dec_members_step:
  "map_of fs k = Some d \<Longrightarrow>
   dec_members strict fs ((k, j) # kvs) a = both (snd (d j a)) (dec_members strict fs kvs (fst (d j a)))"
  by (simp add: find_field_map Let_def)

lemma dec_members_append:
  "dec_members strict fs (xs @ ys) a =
    both (snd (dec_members strict fs xs a)) (dec_members strict fs ys (fst (dec_members strict fs xs a)))"
  by (induction strict fs xs a rule: dec_members.induct)
    (auto simp: both_def Let_def split: option.splits)

text \<open>What every field keeps, the whole struct keeps.\<close>

lemma dec_members_keeps:
  assumes "\<And>k d j a. (k, d) \<in> set fs \<Longrightarrow> P a \<Longrightarrow> P (fst (d j a))" and "P a"
  shows "P (fst (dec_members strict fs kvs a))"
  using assms(2)
proof (induction kvs arbitrary: a)
  case (Cons kv kvs)
  obtain k j where kv: "kv = (k, j)" by (cases kv)
  show ?case
  proof (cases "find_field k fs")
    case (Some d)
    then obtain k' where "(k', d) \<in> set fs"
      by (auto simp: find_field_def split: option.splits dest: map_of_SomeD find_SomeD)
    then show ?thesis using Some kv Cons.IH assms(1) Cons.prems by (auto simp: both_def Let_def)
  qed (use kv Cons in \<open>auto simp: both_def\<close>)
qed simp

lemma dec_members_opt_text:
  "map_of fs k = Some (put_text put) \<Longrightarrow> (t = [] \<Longrightarrow> put t a = a) \<Longrightarrow>
   dec_members strict fs (opt_text k t) a = (put t a, True)"
  by (auto simp: opt_text_def find_field_map both_def)

lemma dec_ref_json: "dec_ref strict (ref_json r) empty_ref = (r, True)"
proof -
  have m: "map_of ref_fields ''name'' = Some (put_text (\<lambda>t. ref_name_update (\<lambda>_. t)))"
    "map_of ref_fields ''agent_id'' = Some (put_text (\<lambda>t. ref_id_update (\<lambda>_. t)))"
    "map_of ref_fields ''scope'' = Some (put_text (\<lambda>t. ref_scope_update (\<lambda>_. t)))"
    by (simp_all add: ref_fields_def)
  show ?thesis
    by (cases r) (simp add: dec_ref_def dec_struct_def ref_json_def dec_members_append empty_ref_def both_def
        dec_members_opt_text [OF m(1)] dec_members_opt_text [OF m(2)] dec_members_opt_text [OF m(3)])
qed

lemma dec_launch_json:
  "- (2 ^ 63) \<le> lm_deadline m \<Longrightarrow> lm_deadline m < 2 ^ 63 \<Longrightarrow>
   dec_struct strict (launch_fields strict) (launch_json m) zero_launch = (m, True)"
  by (cases m) (auto simp: dec_struct_def launch_json_def opt_text_def zero_launch_def
      launch_fields_def find_field_def on_part_def dec_ref_json Let_def both_def)

lemma dec_cancel_json: "dec_struct strict cancel_fields (cancel_json m) zero_cancel = (m, True)"
  by (cases m) (simp add: dec_struct_def cancel_json_def cancel_fields_def find_field_def zero_cancel_def both_def Let_def)

lemma dec_accepted_json:
  "dec_struct strict (accepted_fields strict) (accepted_json m) zero_accepted = (m, True)"
proof (cases m)
  case (fields ty task child)
  have "dec_ptr empty_ref (dec_ref strict) (ref_json r) None = (Some r, True)" for r
  proof -
    obtain kvs where "ref_json r = JObj kvs" by (simp add: ref_json_def)
    then show ?thesis using dec_ref_json [of strict r] by (simp add: dec_ptr_def)
  qed
  then show ?thesis
    using fields by (cases child) (simp_all add: dec_struct_def accepted_json_def accepted_fields_def
        find_field_def zero_accepted_def both_def Let_def on_part_def)
qed

lemma dec_progress_json:
  "- (2 ^ 63) \<le> pm_turns m \<Longrightarrow> pm_turns m < 2 ^ 63 \<Longrightarrow> - (2 ^ 63) \<le> pm_elapsed m \<Longrightarrow> pm_elapsed m < 2 ^ 63 \<Longrightarrow>
   dec_struct strict progress_fields (progress_json m) zero_progress = (m, True)"
  by (cases m) (auto simp: dec_struct_def progress_json_def opt_text_def zero_progress_def
      progress_fields_def find_field_def Let_def both_def)

lemma dec_elems_texts: "dec_elems [] dec_text (map JStr ts) [] = (ts, True)"
  by (induction ts) (simp_all add: dec_text_def)

lemma dec_texts_json: "dec_slice [] dec_text (texts_json l) None = (l, True)"
  by (cases l) (simp_all add: dec_slice_def texts_json_def dec_elems_texts)

lemma dec_result_json: "dec_struct strict result_fields (result_json m) zero_result = (m, True)"
  by (cases m) (auto simp: dec_struct_def result_json_def opt_text_def zero_result_def
      result_fields_def find_field_def on_part_def dec_texts_json Let_def both_def)

lemma dec_failed_json: "dec_struct strict failed_fields (failed_json m) zero_failed = (m, True)"
  by (cases m) (simp add: dec_struct_def failed_json_def failed_fields_def find_field_def zero_failed_def both_def Let_def)

lemmas dec_task_json = dec_launch_json dec_cancel_json dec_accepted_json dec_progress_json
  dec_result_json dec_failed_json

text \<open>Every document of the lifecycle is one the printer and the parser agree on.\<close>

definition wf_ref :: "agent_ref \<Rightarrow> bool" where
  "wf_ref r \<longleftrightarrow> valid_utf8 (ref_name r) \<and> valid_utf8 (ref_id r) \<and> valid_utf8 (ref_scope r)"

lemma wf_opt_text: "valid_utf8 k \<Longrightarrow> valid_utf8 v \<Longrightarrow>
   list_all (\<lambda>(k, v). valid_utf8 k \<and> wf_json v) (opt_text k v)"
  by (simp add: opt_text_def)

lemma depth_opt_text: "fold max (map (\<lambda>(k, v). json_depth v) (opt_text k v)) n = n"
  by (simp add: opt_text_def)

lemma literal_keys [simp]:
  "valid_utf8 ''type''" "valid_utf8 ''task_id''" "valid_utf8 ''runtime''" "valid_utf8 ''scope''"
  "valid_utf8 ''brief''" "valid_utf8 ''reply_to''" "valid_utf8 ''deadline_s''" "valid_utf8 ''child''"
  "valid_utf8 ''turns''" "valid_utf8 ''tool''" "valid_utf8 ''elapsed_s''" "valid_utf8 ''status''"
  "valid_utf8 ''summary''" "valid_utf8 ''observations''" "valid_utf8 ''actions''"
  "valid_utf8 ''evidence''" "valid_utf8 ''error''" "valid_utf8 ''name''" "valid_utf8 ''agent_id''"
  by (simp_all add: valid_utf8_ascii is_ascii_def byte_def)

lemma wf_ref_json: "wf_ref r \<Longrightarrow> wf_json (ref_json r)" "json_depth (ref_json r) = 1"
  by (auto simp: ref_json_def wf_ref_def depth_opt_text intro!: wf_opt_text)

lemma wf_launch_json:
  assumes "valid_utf8 (lm_type m)" "valid_utf8 (lm_task m)" "valid_utf8 (lm_runtime m)"
    "valid_utf8 (lm_scope m)" "valid_utf8 (lm_brief m)" "wf_ref (lm_reply m)"
  shows "wf_json (launch_json m)" and "json_depth (launch_json m) = 2"
  using assms by (auto simp: launch_json_def wf_ref_json depth_opt_text simp flip: json_int_def intro!: wf_opt_text)

lemma wf_cancel_json:
  assumes "valid_utf8 (cm_type m)" "valid_utf8 (cm_task m)"
  shows "wf_json (cancel_json m)" and "json_depth (cancel_json m) = 1"
  using assms by (auto simp: cancel_json_def)

text \<open>Reading the stamp a message was written with.\<close>

lemma reply_ref_printed: "wf_ref r \<Longrightarrow> reply_ref (json_print (ref_json r)) = Some r"
proof -
  assume r: "wf_ref r"
  have "json_print (ref_json r) \<noteq> []" by (simp add: ref_json_def)
  moreover have "json_unmarshal (json_print (ref_json r)) = Some (ref_json r)"
    using wf_ref_json [of r] r by (intro unmarshal_printed) (simp_all add: max_nesting_def)
  ultimately show ?thesis by (simp add: reply_ref_def unmarshal_into_def dec_ref_json Let_def)
qed

end
