(* ===== verification/Messaging.thy ===== *)
theory Messaging
  imports Identity Wire "HOL-Library.Multiset"
begin

text \<open>
  Mail: the write path, the inbox reads, the once-only notices and the journal of \<open>store.go\<close>
  and \<open>history.go\<close>. Each function of the code that opens a transaction is one step here; on an
  error the store is the one it started from.
\<close>

section \<open>Addressing\<close>

definition err_no_agent :: "string \<Rightarrow> err" where
  "err_no_agent w = ErrWrapped ErrNoAgent ('' '' @ go_quote w @ '' in this workspace'')"

definition resolve_agent :: "string \<Rightarrow> string \<Rightarrow> store \<Rightarrow> err + string \<times> string" where
  "resolve_agent sc w s = (case row_named sc w s of
     None \<Rightarrow> Inl (err_no_agent w) | Some r \<Rightarrow> Inr (ar_id r, ar_name r))"

record sender =
  sn_ref :: agent_ref
  sn_kind :: string

definition no_sender :: sender where
  "no_sender = \<lparr>sn_ref = empty_ref, sn_kind = []\<rparr>"

definition resolve_sender :: "string \<Rightarrow> string \<Rightarrow> store \<Rightarrow> err + sender" where
  "resolve_sender sc w s = (case row_named sc w s of
     None \<Rightarrow> Inl (err_no_agent w)
   | Some r \<Rightarrow> Inr \<lparr>sn_ref = \<lparr>ref_name = ar_name r, ref_id = ar_id r, ref_scope = sc\<rparr>, sn_kind = ar_kind r\<rparr>)"

definition live_agents :: "string \<Rightarrow> string \<Rightarrow> time \<Rightarrow> store \<Rightarrow> string list" where
  "live_agents sc except now s =
     map ar_id (filter (\<lambda>r. ar_scope r = sc \<and> ar_id r \<noteq> except \<and> live_row now r) (agents s))"

section \<open>Sending\<close>

record delivery =
  dv_from_scope :: string
  dv_from_name :: string
  dv_from :: sender
  dv_to_scope :: string
  dv_to_name :: string
  dv_body :: string
  dv_reply :: "agent_ref option"
  dv_task :: string

definition plain_delivery :: "string \<Rightarrow> string \<Rightarrow> string \<Rightarrow> string \<Rightarrow> delivery" where
  "plain_delivery sc from_name to_name body =
     \<lparr>dv_from_scope = sc, dv_from_name = from_name, dv_from = no_sender, dv_to_scope = [],
      dv_to_name = to_name, dv_body = body, dv_reply = None, dv_task = []\<rparr>"

definition delivery_sender :: "delivery \<Rightarrow> store \<Rightarrow> err + sender" where
  "delivery_sender d s = (if ref_id (sn_ref (dv_from d)) = []
     then resolve_sender (dv_from_scope d) (dv_from_name d) s else Inr (dv_from d))"

definition unread_row :: "nat \<Rightarrow> string \<Rightarrow> delivery_row" where
  "unread_row mid aid = \<lparr>dl_message = mid, dl_agent = aid, dl_noticed = None, dl_read = None\<rparr>"

fun insert_deliveries :: "nat \<Rightarrow> string list \<Rightarrow> delivery_row list \<Rightarrow> delivery_row list option" where
  "insert_deliveries mid [] ds = Some ds"
| "insert_deliveries mid (aid # aids) ds =
     Option.bind (insert_row delivery_key (unread_row mid aid) ds) (insert_deliveries mid aids)"

definition err_delivery_twice :: err where
  "err_delivery_twice = ErrText ''UNIQUE constraint failed: deliveries.message_id, deliveries.agent_id''"

definition delivery_targets :: "delivery \<Rightarrow> string \<Rightarrow> string \<Rightarrow> time \<Rightarrow> store
    \<Rightarrow> err + string option \<times> string list" where
  "delivery_targets d to_scope from_id now s =
     (if dv_to_name d \<noteq> [] then
        bind_sum (resolve_agent to_scope (dv_to_name d) s) (\<lambda>(aid, _). Inr (Some aid, [aid]))
      else Inr (None, live_agents to_scope from_id now s))"

definition stamp :: "agent_ref option \<Rightarrow> string" where
  "stamp r = (case r of None \<Rightarrow> [] | Some ref \<Rightarrow> json_print (ref_json ref))"

definition new_message :: "delivery \<Rightarrow> sender \<Rightarrow> string option \<Rightarrow> time \<Rightarrow> nat \<Rightarrow> message_row" where
  "new_message d from to now mid =
     (let home = ref_scope (sn_ref from);
          dest = (if dv_to_scope d = [] then home else dv_to_scope d) in
      \<lparr>mr_id = mid, mr_scope = dest, mr_from = ref_id (sn_ref from), mr_to = to, mr_body = dv_body d,
       mr_created = unix now, mr_from_scope = (if dest \<noteq> home then home else []),
       mr_reply_to = stamp (dv_reply d), mr_task = dv_task d, mr_kind = sn_kind from\<rparr>)"

definition send_to_scope :: "delivery \<Rightarrow> time \<Rightarrow> store \<Rightarrow> err + store" where
  "send_to_scope d now s =
     bind_sum (delivery_sender d s) (\<lambda>from.
       let home = ref_scope (sn_ref from);
           dest = (if dv_to_scope d = [] then home else dv_to_scope d) in
       bind_sum (delivery_targets d dest (ref_id (sn_ref from)) now s) (\<lambda>(to, targets).
         let mid = next_message s in
         case insert_deliveries mid targets (deliveries s) of
           None \<Rightarrow> Inl err_delivery_twice
         | Some ds \<Rightarrow> Inr (s\<lparr>messages := messages s @ [new_message d from to now mid],
              next_message := Suc mid, deliveries := ds\<rparr>)))"

definition send :: "string \<Rightarrow> string \<Rightarrow> string \<Rightarrow> string \<Rightarrow> time \<Rightarrow> store \<Rightarrow> err + store" where
  "send sc from_name to_name body = send_to_scope (plain_delivery sc from_name to_name body)"

definition broadcast :: "string \<Rightarrow> string \<Rightarrow> string \<Rightarrow> time \<Rightarrow> store \<Rightarrow> err + store" where
  "broadcast sc from_name body = send_to_scope (plain_delivery sc from_name [] body)"

section \<open>The inbox\<close>

text \<open>
  \<open>senderJoin\<close>: the names of the rows the sender has in its own workspace, or its raw id when
  it has none left. A left join yields one result row per match.
\<close>

definition sender_home :: "message_row \<Rightarrow> string" where
  "sender_home m = (if mr_from_scope m = [] then mr_scope m else mr_from_scope m)"

definition names_of :: "string \<Rightarrow> string \<Rightarrow> store \<Rightarrow> string list" where
  "names_of sc aid s =
     (case filter (\<lambda>a. ar_scope a = sc \<and> ar_id a = aid) (agents s) of
        [] \<Rightarrow> [aid] | rs \<Rightarrow> map ar_name rs)"

definition sender_names :: "message_row \<Rightarrow> store \<Rightarrow> string list" where
  "sender_names m s = names_of (sender_home m) (mr_from m) s"

definition mail_rows :: "(delivery_row \<Rightarrow> bool) \<Rightarrow> (message_row \<Rightarrow> bool) \<Rightarrow> store
    \<Rightarrow> (message_row \<times> string) list" where
  "mail_rows p q s = concat (map (\<lambda>d. concat (map (\<lambda>m. map (\<lambda>w. (m, w)) (sender_names m s))
     (filter (\<lambda>m. mr_id m = dl_message d \<and> q m) (messages s)))) (filter p (deliveries s)))"

definition unread_for :: "string \<Rightarrow> delivery_row \<Rightarrow> bool" where
  "unread_for aid d \<longleftrightarrow> dl_agent d = aid \<and> dl_read d = None"

definition by_age :: "message_row \<times> string \<Rightarrow> int \<times> nat" where
  "by_age mw = (mr_created (fst mw), mr_id (fst mw))"

text \<open>\<open>taskLedgerBody\<close>: the daemon stamped this message as one of a task's own.\<close>

definition is_ledger :: "message_row \<Rightarrow> bool" where
  "is_ledger m \<longleftrightarrow> mr_task m \<noteq> []"

definition message_of :: "message_row \<times> string \<Rightarrow> message" where
  "message_of mw = (let m = fst mw in
     \<lparr>msg_id = mr_id m, msg_from = snd mw, msg_body = mr_body m, msg_sent = mr_created m,
      msg_broadcast = (mr_to m = None), msg_reply_to = reply_ref (mr_reply_to m),
      msg_from_scope = mr_from_scope m, msg_kind = mr_kind m, msg_task = mr_task m\<rparr>)"

lemma message_of_id [simp]: "msg_id (message_of mw) = mr_id (fst mw)"
  by (simp add: message_of_def Let_def)

definition mark_read :: "string \<Rightarrow> int \<Rightarrow> nat \<Rightarrow> store \<Rightarrow> store" where
  "mark_read aid at mid = deliveries_update (update_where
     (\<lambda>d. dl_message d = mid \<and> dl_agent d = aid) (\<lambda>d. d\<lparr>dl_read := Some at\<rparr>))"

definition read_inbox :: "bool \<Rightarrow> string \<Rightarrow> string \<Rightarrow> time \<Rightarrow> store \<Rightarrow> err + store \<times> message list" where
  "read_inbox skip sc w now s =
     bind_sum (resolve_agent sc w s) (\<lambda>(aid, _).
       let rows = sort_key by_age (mail_rows (unread_for aid) (\<lambda>m. mr_scope m = sc) s);
           out = filter (\<lambda>mw. \<not> (is_ledger (fst mw) \<and> skip)) rows in
       Inr (fold (mark_read aid (unix now)) (map (\<lambda>mw. mr_id (fst mw)) rows) s, map message_of out))"

record peek_info =
  pk_unread :: nat
  pk_high :: nat
  pk_ids :: "nat list"
  pk_froms :: "string list"

definition add_new :: "'a \<Rightarrow> 'a list \<Rightarrow> 'a list" where
  "add_new x xs = (if x \<in> set xs then xs else xs @ [x])"

definition high_water :: "string \<Rightarrow> string \<Rightarrow> store \<Rightarrow> nat" where
  "high_water sc aid s = fold max (concat (map (\<lambda>d. map mr_id
     (filter (\<lambda>m. mr_id m = dl_message d \<and> mr_scope m = sc) (messages s)))
     (filter (\<lambda>d. dl_agent d = aid) (deliveries s)))) 0"

definition peek_inbox :: "bool \<Rightarrow> string \<Rightarrow> string \<Rightarrow> int \<Rightarrow> store \<Rightarrow> err + peek_info" where
  "peek_inbox skip sc w after s =
     bind_sum (resolve_agent sc w s) (\<lambda>(aid, _).
       let rows = sort_key (\<lambda>mw. mr_id (fst mw)) (mail_rows (unread_for aid)
             (\<lambda>m. mr_scope m = sc \<and> after < int (mr_id m) \<and> (skip \<longrightarrow> \<not> is_ledger m)) s);
           ids = map (\<lambda>mw. mr_id (fst mw)) rows in
       Inr \<lparr>pk_unread = length ids, pk_high = high_water sc aid s, pk_ids = ids,
            pk_froms = fold add_new (map snd rows) []\<rparr>)"

section \<open>Notices\<close>

fun flat_lines :: "string \<Rightarrow> string" where
  "flat_lines [] = []"
| "flat_lines [c] = (if byte c = 10 \<or> byte c = 13 then '' '' else [c])"
| "flat_lines (c # d # r) =
     (if byte c = 13 \<and> byte d = 10 then CHR '' '' # flat_lines r
      else if byte c = 10 \<or> byte c = 13 then CHR '' '' # flat_lines (d # r)
      else c # flat_lines (d # r))"

definition preview :: "string \<Rightarrow> string" where
  "preview body = (let flat = flat_lines body; r = runes flat in
     if length r \<le> 80 then flat
     else concat (map (\<lambda>rb. encode_rune (fst rb)) (take 80 r)) @ ''...'')"

definition join_ids :: "nat list \<Rightarrow> string" where
  "join_ids ids = join '','' (map dec_nat ids)"

definition age_text :: "int \<Rightarrow> string" where
  "age_text secs = (if secs < 60 then dec_int secs @ ''s''
     else if secs < 3600 then dec_int (secs div 60) @ ''m''
     else dec_int (secs div 3600) @ ''h'')"

text \<open>One entry per sender of direct mail, in order of first appearance: its ids and newest body.\<close>

type_synonym dm_group = "string \<times> nat list \<times> string"

fun add_dm :: "string \<Rightarrow> nat \<Rightarrow> string \<Rightarrow> dm_group list \<Rightarrow> dm_group list" where
  "add_dm from mid body [] = [(from, [mid], body)]"
| "add_dm from mid body ((w, ids, b) # gs) =
     (if w = from then (w, ids @ [mid], body) # gs else (w, ids, b) # add_dm from mid body gs)"

definition dm_groups :: "(message_row \<times> string) list \<Rightarrow> dm_group list" where
  "dm_groups rows = fold (\<lambda>(m, w). add_dm w (mr_id m) (mr_body m))
     (filter (\<lambda>mw. mr_to (fst mw) \<noteq> None) rows) []"

definition dm_line :: "dm_group \<Rightarrow> string" where
  "dm_line g = (case g of (from, ids, newest) \<Rightarrow>
     ''[coordinator] '' @ dec_nat (length ids) @ '' new message'' @ (if 1 < length ids then ''s'' else [])
       @ '' from '' @ from @ '' (ids '' @ join_ids ids @ '') '' @ [dquote] @ preview newest @ [dquote]
       @ '' - call read_messages'')"

definition broadcast_line :: "message_row \<times> string \<Rightarrow> string" where
  "broadcast_line mw = ''[coordinator] broadcast from '' @ snd mw @ '' '' @ [dquote]
     @ preview (mr_body (fst mw)) @ [dquote] @ '' - call read_messages''"

definition conflict_window :: time where "conflict_window = seconds 1800"

definition conflict_lines :: "string \<Rightarrow> string \<Rightarrow> time \<Rightarrow> store \<Rightarrow> string \<Rightarrow> string list" where
  "conflict_lines sc aid now s p =
     concat (map (\<lambda>t. map (\<lambda>a. ''[coordinator] heads-up: '' @ ar_name a @ '' also edited '' @ p @ '' ''
          @ age_text (unix now - ft_ts t) @ '' ago'')
        (filter (\<lambda>a. ar_scope a = ft_scope t \<and> ar_id a = ft_agent t) (agents s)))
      (filter (\<lambda>t. ft_scope t = sc \<and> ft_path t = p \<and> ft_agent t \<noteq> aid
         \<and> unix (now - conflict_window) \<le> ft_ts t) (file_touches s)))"

definition mark_noticed :: "string \<Rightarrow> int \<Rightarrow> nat \<Rightarrow> store \<Rightarrow> store" where
  "mark_noticed aid at mid = deliveries_update (update_where
     (\<lambda>d. dl_message d = mid \<and> dl_agent d = aid) (\<lambda>d. d\<lparr>dl_noticed := Some at\<rparr>))"

definition unnoticed_for :: "string \<Rightarrow> delivery_row \<Rightarrow> bool" where
  "unnoticed_for aid d \<longleftrightarrow> dl_agent d = aid \<and> dl_noticed d = None \<and> dl_read d = None"

definition notice_rows :: "string \<Rightarrow> string \<Rightarrow> store \<Rightarrow> (message_row \<times> string) list" where
  "notice_rows sc aid s = sort_key by_age (mail_rows (unnoticed_for aid) (\<lambda>m. mr_scope m = sc) s)"

definition notices_for :: "string \<Rightarrow> string \<Rightarrow> string list \<Rightarrow> time \<Rightarrow> store \<Rightarrow> store \<times> string list" where
  "notices_for sc aid writes now s =
     (let rows = notice_rows sc aid s;
          s' = fold (mark_noticed aid (unix now)) (map (\<lambda>mw. mr_id (fst mw)) rows) s in
      (s', map dm_line (dm_groups rows)
         @ map broadcast_line (filter (\<lambda>mw. mr_to (fst mw) = None) rows)
         @ concat (map (conflict_lines sc aid now s') writes)))"

definition pending_notices :: "string \<Rightarrow> string \<Rightarrow> time \<Rightarrow> store \<Rightarrow> store \<times> string list" where
  "pending_notices sc sess now s = notices_for sc (agent_id sess) [] now s"

section \<open>The journal\<close>

record history_info =
  hi_id :: nat
  hi_from :: string
  hi_to :: string
  hi_preview :: string
  hi_sent :: int
  hi_read :: int
  hi_broadcast :: bool

definition history_limit :: "int \<Rightarrow> nat" where
  "history_limit n = (if n \<le> 0 then 20 else if 100 < n then 100 else nat n)"

definition history_rows :: "string \<Rightarrow> (message_row \<Rightarrow> delivery_row \<Rightarrow> bool) \<Rightarrow> store
    \<Rightarrow> (message_row \<times> delivery_row \<times> string \<times> string) list" where
  "history_rows sc c s = concat (map (\<lambda>m. concat (map (\<lambda>d.
       concat (map (\<lambda>w. map (\<lambda>t. (m, d, w, t)) (names_of (mr_scope m) (dl_agent d) s)) (sender_names m s)))
     (filter (\<lambda>d. dl_message d = mr_id m \<and> c m d) (deliveries s))))
     (filter (\<lambda>m. mr_scope m = sc) (messages s)))"

definition history_of :: "message_row \<times> delivery_row \<times> string \<times> string \<Rightarrow> history_info" where
  "history_of row = (case row of (m, d, w, t) \<Rightarrow>
     \<lparr>hi_id = mr_id m, hi_from = w, hi_to = t, hi_preview = preview (mr_body m), hi_sent = mr_created m,
      hi_read = (case dl_read d of None \<Rightarrow> 0 | Some at \<Rightarrow> at), hi_broadcast = (mr_to m = None)\<rparr>)"

definition history_order :: "message_row \<times> delivery_row \<times> string \<times> string \<Rightarrow> int \<times> string" where
  "history_order row = (case row of (m, d, _) \<Rightarrow> (- int (mr_id m), dl_agent d))"

definition message_history :: "string \<Rightarrow> string \<Rightarrow> string \<Rightarrow> int \<Rightarrow> store \<Rightarrow> err + history_info list" where
  "message_history sc w peer limit s =
     bind_sum (resolve_agent sc w s) (\<lambda>(aid, _).
       bind_sum (if peer = [] then Inr (\<lambda>m d. mr_from m = aid \<or> dl_agent d = aid)
                 else bind_sum (resolve_agent sc peer s) (\<lambda>(pid, _).
                   Inr (\<lambda>m d. mr_from m = aid \<and> dl_agent d = pid \<or> mr_from m = pid \<and> dl_agent d = aid)))
         (\<lambda>c. Inr (map history_of (take (history_limit limit) (sort_key history_order (history_rows sc c s))))))"

section \<open>What a send writes\<close>

lemma insert_deliveries_fresh:
  assumes "\<forall>d \<in> set ds. delivery_key d \<notin> Pair mid ` set aids" and "distinct aids"
  shows "insert_deliveries mid aids ds = Some (ds @ map (unread_row mid) aids)"
  using assms
proof (induction aids arbitrary: ds)
  case (Cons a aids)
  have "insert_row delivery_key (unread_row mid a) ds = Some (ds @ [unread_row mid a])"
    using Cons.prems by (auto simp: insert_row_def list_ex_iff delivery_key_def unread_row_def)
  moreover have "insert_deliveries mid aids (ds @ [unread_row mid a])
      = Some ((ds @ [unread_row mid a]) @ map (unread_row mid) aids)"
    by (rule Cons.IH) (use Cons.prems in \<open>auto simp: delivery_key_def unread_row_def\<close>)
  ultimately show ?case by simp
qed simp

lemma insert_deliveries_SomeD:
  assumes "insert_deliveries mid aids ds = Some ds'"
  shows "ds' = ds @ map (unread_row mid) aids \<and> distinct aids \<and>
    (\<forall>a \<in> set aids. (mid, a) \<notin> delivery_key ` set ds)"
  using assms
proof (induction aids arbitrary: ds)
  case (Cons a aids)
  then have "(mid, a) \<notin> delivery_key ` set ds"
    and "insert_deliveries mid aids (ds @ [unread_row mid a]) = Some ds'"
    by (auto simp: insert_row_Some bind_eq_Some_conv unread_row_def delivery_key_def)
  then show ?case
    using Cons.IH [of "ds @ [unread_row mid a]"] by (auto simp: unread_row_def delivery_key_def)
qed simp

lemma insert_deliveries_iff:
  assumes "\<forall>d \<in> set ds. dl_message d < mid"
  shows "insert_deliveries mid aids ds =
    (if distinct aids then Some (ds @ map (unread_row mid) aids) else None)"
proof (cases "distinct aids")
  case True
  have "\<forall>d \<in> set ds. delivery_key d \<notin> Pair mid ` set aids"
    using assms by (auto simp: delivery_key_def)
  then show ?thesis using True by (simp add: insert_deliveries_fresh)
next
  case False
  then show ?thesis by (cases "insert_deliveries mid aids ds") (auto dest: insert_deliveries_SomeD)
qed

lemma insert_deliveries_unique:
  "insert_deliveries mid aids ds = Some ds' \<Longrightarrow> unique_key delivery_key ds \<Longrightarrow> unique_key delivery_key ds'"
  by (induction aids arbitrary: ds) (auto simp: insert_row_Some bind_eq_Some_conv)

lemma send_to_scope_Inr:
  "send_to_scope d now s = Inr s' \<longleftrightarrow>
    (\<exists>from to targets. delivery_sender d s = Inr from \<and>
       delivery_targets d (if dv_to_scope d = [] then ref_scope (sn_ref from) else dv_to_scope d)
         (ref_id (sn_ref from)) now s = Inr (to, targets) \<and>
       (\<exists>ds. insert_deliveries (next_message s) targets (deliveries s) = Some ds \<and>
         s' = s\<lparr>messages := messages s @ [new_message d from to now (next_message s)],
                next_message := Suc (next_message s), deliveries := ds\<rparr>))"
proof (cases "delivery_sender d s")
  case sn: (Inr sn)
  let ?dest = "if dv_to_scope d = [] then ref_scope (sn_ref sn) else dv_to_scope d"
  show ?thesis
  proof (cases "delivery_targets d ?dest (ref_id (sn_ref sn)) now s")
    case (Inr tt)
    then show ?thesis
      using sn by (cases tt; cases "insert_deliveries (next_message s) (snd tt) (deliveries s)")
        (auto simp: send_to_scope_def Let_def)
  qed (use sn in \<open>simp add: send_to_scope_def Let_def\<close>)
qed (simp add: send_to_scope_def)

lemma send_frame:
  assumes "send_to_scope d now s = Inr s'"
  shows "agents s' = agents s" and "claims s' = claims s" and "eyes_tasks s' = eyes_tasks s"
    and "events s' = events s" and "file_touches s' = file_touches s" and "task_rows s' = task_rows s"
    and "next_message s' = Suc (next_message s)"
  using assms by (auto simp: send_to_scope_Inr)

lemma new_message_id [simp]: "mr_id (new_message d from to now mid) = mid"
  by (simp add: new_message_def Let_def)

lemma schema_ok_send [shape_intros]:
  assumes "schema_ok s" and "send_to_scope d now s = Inr s'"
  shows "schema_ok s'"
proof -
  obtain sn to targets ds where ds: "insert_deliveries (next_message s) targets (deliveries s) = Some ds"
    and s': "s' = s\<lparr>messages := messages s @ [new_message d sn to now (next_message s)],
                next_message := Suc (next_message s), deliveries := ds\<rparr>"
    using assms(2) by (auto simp: send_to_scope_Inr)
  have low: "\<forall>m \<in> set (messages s). mr_id m < next_message s"
      "\<forall>x \<in> set (deliveries s). dl_message x < next_message s"
    using assms(1) by (auto simp: schema_ok_def list_all_iff)
  have "next_message s \<notin> mr_id ` set (messages s)"
    using low(1) by auto
  moreover have "list_all (\<lambda>m. mr_id m < Suc (next_message s)) (messages s)"
    using low(1) by (simp add: list_all_iff less_SucI)
  moreover have "list_all (\<lambda>x. dl_message x < Suc (next_message s)) ds"
    using low(2) insert_deliveries_SomeD [OF ds] by (auto simp: list_all_iff unread_row_def less_SucI)
  ultimately show ?thesis
    using assms(1) insert_deliveries_unique [OF ds] by (simp add: schema_ok_def s')
qed

section \<open>What a read marks\<close>

lemma fold_mark:
  assumes "\<And>x. f (f x) = f x" and "\<And>x. dl_message (f x) = dl_message x" and "\<And>x. dl_agent (f x) = dl_agent x"
  shows "fold (\<lambda>mid. deliveries_update (update_where (\<lambda>x. dl_message x = mid \<and> dl_agent x = aid) f)) ids s
    = deliveries_update (update_where (\<lambda>x. dl_message x \<in> set ids \<and> dl_agent x = aid) f) s"
proof (induction ids arbitrary: s)
  case Nil
  have "update_where (\<lambda>x. False) f rs = rs" for rs by (induction rs) auto
  then show ?case by simp
next
  case (Cons i ids)
  have "update_where (\<lambda>x. dl_message x \<in> set ids \<and> dl_agent x = aid) f
      (update_where (\<lambda>x. dl_message x = i \<and> dl_agent x = aid) f rs)
    = update_where (\<lambda>x. dl_message x \<in> set (i # ids) \<and> dl_agent x = aid) f rs" for rs
    by (induction rs) (auto simp: assms)
  then show ?case by (simp add: Cons.IH)
qed

definition mark_all_read :: "string \<Rightarrow> int \<Rightarrow> nat set \<Rightarrow> store \<Rightarrow> store" where
  "mark_all_read aid at ids = deliveries_update (update_where
     (\<lambda>x. dl_message x \<in> ids \<and> dl_agent x = aid) (\<lambda>d. d\<lparr>dl_read := Some at\<rparr>))"

definition mark_all_noticed :: "string \<Rightarrow> int \<Rightarrow> nat set \<Rightarrow> store \<Rightarrow> store" where
  "mark_all_noticed aid at ids = deliveries_update (update_where
     (\<lambda>x. dl_message x \<in> ids \<and> dl_agent x = aid) (\<lambda>d. d\<lparr>dl_noticed := Some at\<rparr>))"

lemma fold_mark_read: "fold (mark_read aid at) ids s = mark_all_read aid at (set ids) s"
  unfolding mark_read_def mark_all_read_def by (rule fold_mark) simp_all

lemma fold_mark_noticed: "fold (mark_noticed aid at) ids s = mark_all_noticed aid at (set ids) s"
  unfolding mark_noticed_def mark_all_noticed_def by (rule fold_mark) simp_all

lemma mark_frame [simp]:
  "agents (mark_all_read aid at ids s) = agents s" "messages (mark_all_read aid at ids s) = messages s"
  "next_message (mark_all_read aid at ids s) = next_message s"
  "claims (mark_all_read aid at ids s) = claims s" "eyes_tasks (mark_all_read aid at ids s) = eyes_tasks s"
  "agents (mark_all_noticed aid at ids s) = agents s" "messages (mark_all_noticed aid at ids s) = messages s"
  "next_message (mark_all_noticed aid at ids s) = next_message s"
  "claims (mark_all_noticed aid at ids s) = claims s" "eyes_tasks (mark_all_noticed aid at ids s) = eyes_tasks s"
  by (simp_all add: mark_all_read_def mark_all_noticed_def)

lemma schema_ok_marks [shape_intros]:
  "schema_ok s \<Longrightarrow> schema_ok (mark_all_read aid at ids s)"
  "schema_ok s \<Longrightarrow> schema_ok (mark_all_noticed aid at ids s)"
  by (auto simp: schema_ok_def mark_all_read_def mark_all_noticed_def list_all_iff delivery_key_def
      intro!: unique_key_update elim!: update_whereE)

lemma names_of_not_Nil [simp]: "names_of sc aid s \<noteq> []"
  by (auto simp: names_of_def split: list.splits)

lemma mail_rows_iff:
  "(m, w) \<in> set (mail_rows p q s) \<longleftrightarrow>
     m \<in> set (messages s) \<and> q m \<and> w \<in> set (sender_names m s) \<and>
     (\<exists>d \<in> set (deliveries s). p d \<and> dl_message d = mr_id m)"
proof -
  have "(m, w) \<in> set (mail_rows p q s) \<longleftrightarrow>
      (\<exists>d \<in> set (deliveries s). p d \<and> (\<exists>n \<in> set (messages s). mr_id n = dl_message d \<and> q n \<and>
         (m, w) \<in> Pair n ` set (sender_names n s)))"
    by (auto simp: mail_rows_def)
  then show ?thesis by (auto 0 4 simp: image_iff) 
qed

lemma mail_ids:
  "set (map (\<lambda>mw. mr_id (fst mw)) (mail_rows p q s)) =
    {mr_id m |m. m \<in> set (messages s) \<and> q m \<and> (\<exists>d \<in> set (deliveries s). p d \<and> dl_message d = mr_id m)}"
proof -
  have "\<exists>w. w \<in> set (sender_names m s)" for m
    using names_of_not_Nil by (metis list.set_sel(1) sender_names_def)
  then have "m \<in> fst ` set (mail_rows p q s) \<longleftrightarrow> m \<in> set (messages s) \<and> q m \<and>
      (\<exists>d \<in> set (deliveries s). p d \<and> dl_message d = mr_id m)" for m
    by (simp add: image_iff Bex_def mail_rows_iff)
  then have "fst ` set (mail_rows p q s) =
      {m. m \<in> set (messages s) \<and> q m \<and> (\<exists>d \<in> set (deliveries s). p d \<and> dl_message d = mr_id m)}"
    by blast
  moreover have "(\<lambda>mw. mr_id (fst mw)) ` set (mail_rows p q s) = mr_id ` fst ` set (mail_rows p q s)"
    by (simp add: image_image)
  ultimately show ?thesis unfolding set_map by auto
qed

text \<open>The ids of the messages of a workspace an agent has not read.\<close>

definition unread_ids :: "string \<Rightarrow> string \<Rightarrow> store \<Rightarrow> nat set" where
  "unread_ids sc aid s = {mr_id m |m. m \<in> set (messages s) \<and> mr_scope m = sc \<and>
     (\<exists>d \<in> set (deliveries s). unread_for aid d \<and> dl_message d = mr_id m)}"

lemma read_inbox_Inr:
  assumes "read_inbox skip sc w now s = Inr (s', ms)"
  obtains aid nm where "resolve_agent sc w s = Inr (aid, nm)"
    and "s' = mark_all_read aid (unix now) (unread_ids sc aid s) s"
    and "ms = map message_of (filter (\<lambda>mw. \<not> (is_ledger (fst mw) \<and> skip))
          (sort_key by_age (mail_rows (unread_for aid) (\<lambda>m. mr_scope m = sc) s)))"
proof -
  obtain aid nm where r: "resolve_agent sc w s = Inr (aid, nm)"
    using assms by (auto simp: read_inbox_def bind_sum_Inr_iff)
  let ?rows = "mail_rows (unread_for aid) (\<lambda>m. mr_scope m = sc) s"
  have ids: "set (map (\<lambda>mw. mr_id (fst mw)) (sort_key by_age ?rows)) = unread_ids sc aid s"
    using mail_ids [of "unread_for aid" "\<lambda>m. mr_scope m = sc" s] by (simp add: unread_ids_def)
  have run: "s' = fold (mark_read aid (unix now)) (map (\<lambda>mw. mr_id (fst mw)) (sort_key by_age ?rows)) s"
    "ms = map message_of (filter (\<lambda>mw. \<not> (is_ledger (fst mw) \<and> skip)) (sort_key by_age ?rows))"
    using assms r by (simp_all add: read_inbox_def Let_def)
  show ?thesis
    by (rule that [OF r _ run(2)]) (simp only: run(1) fold_mark_read ids)
qed

lemma unread_after_read:
  "unread_ids sc aid (mark_all_read aid at (unread_ids sc aid s) s) = {}"
proof -
  have "i \<notin> unread_ids sc aid (mark_all_read aid at (unread_ids sc aid s) s)" for i
  proof
    assume "i \<in> unread_ids sc aid (mark_all_read aid at (unread_ids sc aid s) s)"
    then obtain m d where m: "m \<in> set (messages s)" "mr_scope m = sc" "mr_id m = i"
      and d: "d \<in> set (deliveries (mark_all_read aid at (unread_ids sc aid s) s))"
        "unread_for aid d" "dl_message d = i"
      by (auto simp: unread_ids_def)
    from d(1) obtain r where r: "r \<in> set (deliveries s)"
      "d = (if dl_message r \<in> unread_ids sc aid s \<and> dl_agent r = aid then r\<lparr>dl_read := Some at\<rparr> else r)"
      unfolding mark_all_read_def by (auto elim: update_whereE)
    have "d = r" using r(2) d(2) by (auto simp: unread_for_def split: if_splits)
    then have "dl_message r \<in> unread_ids sc aid s \<and> dl_agent r = aid"
      using m d r(1) by (auto simp: unread_ids_def unread_for_def)
    then show False using r(2) d(2) by (simp add: unread_for_def)
  qed
  then show ?thesis by blast
qed

lemma message_unique:
  "schema_ok s \<Longrightarrow> m \<in> set (messages s) \<Longrightarrow> n \<in> set (messages s) \<Longrightarrow> mr_id m = mr_id n \<Longrightarrow> m = n"
  by (auto simp: schema_ok_def dest: unique_keyD)

lemma unread_elsewhere:
  assumes "schema_ok s" and "a \<noteq> aid \<or> sc' \<noteq> sc"
  shows "unread_ids sc' a (mark_all_read aid at (unread_ids sc aid s) s) = unread_ids sc' a s"
proof -
  define ids where "ids = unread_ids sc aid s"
  define f :: "delivery_row \<Rightarrow> delivery_row" where "f = (\<lambda>r. if dl_message r \<in> ids \<and> dl_agent r = aid then r\<lparr>dl_read := Some at\<rparr> else r)"
  have f: "dl_message (f r) = dl_message r" for r by (simp add: f_def)
  have same: "unread_for a (f d) \<longleftrightarrow> unread_for a d"
    if "m \<in> set (messages s)" "mr_scope m = sc'" "dl_message d = mr_id m" for m d
  proof -
    have "a \<noteq> aid \<or> mr_id m \<notin> ids"
      using assms that message_unique [OF assms(1) that(1)] by (auto simp: ids_def unread_ids_def)
    then show ?thesis using that by (auto simp: unread_for_def f_def)
  qed
  have "(\<exists>x \<in> set (update_where (\<lambda>x. dl_message x \<in> ids \<and> dl_agent x = aid)
            (\<lambda>d. d\<lparr>dl_read := Some at\<rparr>) (deliveries s)). unread_for a x \<and> dl_message x = mr_id m)
      \<longleftrightarrow> (\<exists>d \<in> set (deliveries s). unread_for a d \<and> dl_message d = mr_id m)"
    if "m \<in> set (messages s)" "mr_scope m = sc'" for m
  proof -
    have "(\<exists>x \<in> f ` set (deliveries s). unread_for a x \<and> dl_message x = mr_id m) \<longleftrightarrow>
        (\<exists>d \<in> set (deliveries s). unread_for a (f d) \<and> dl_message d = mr_id m)"
      by (simp add: f)
    also have "\<dots> \<longleftrightarrow> (\<exists>d \<in> set (deliveries s). unread_for a d \<and> dl_message d = mr_id m)"
      using same [OF that] by blast
    finally show ?thesis by (simp only: set_update_where f_def)
  qed
  then have "unread_ids sc' a (mark_all_read aid at ids s) = unread_ids sc' a s"
    by (simp add: unread_ids_def mark_all_read_def cong: conj_cong)
  then show ?thesis by (simp add: ids_def)
qed

lemma mail_rows_filter:
  "mail_rows p (\<lambda>m. q m \<and> c m) s = filter (\<lambda>mw. c (fst mw)) (mail_rows p q s)"
proof -
  have ff: "filter (\<lambda>m. mr_id m = dl_message d \<and> q m \<and> c m) ms = filter c (filter (\<lambda>m. mr_id m = dl_message d \<and> q m) ms)"
    for d ms by (auto intro: filter_cong)
  have one: "concat (map (\<lambda>m. map (Pair m) (g m)) (filter c ms)) =
      filter (\<lambda>mw. c (fst mw)) (concat (map (\<lambda>m. map (Pair m) (g m)) ms))" for g :: "message_row \<Rightarrow> string list" and ms
    by (induction ms) (auto simp: filter_map o_def)
  show ?thesis
    unfolding mail_rows_def filter_concat map_map ff o_def one ..
qed

section \<open>Steps of the mail system\<close>

text \<open>
  What one step of any client does to the mail: a read and a notice drain, with the deliveries
  they hand out, a send, and anything that leaves the mail as it is or purges some of it.
\<close>

type_synonym handed = "(nat \<times> string) set"

inductive mail_step :: "store \<Rightarrow> handed \<times> handed \<Rightarrow> store \<Rightarrow> bool" where
  read_step: "resolve_agent sc w s = Inr (aid, nm) \<Longrightarrow> read_inbox skip sc w now s = Inr (s', ms) \<Longrightarrow>
     mail_step s ((\<lambda>m. (msg_id m, aid)) ` set ms, {}) s'"
| notice_step: "notices_for sc aid writes now s = (s', lines) \<Longrightarrow>
     mail_step s ({}, (\<lambda>mw. (mr_id (fst mw), aid)) ` set (notice_rows sc aid s)) s'"
| send_step: "send_to_scope d now s = Inr s' \<Longrightarrow> mail_step s ({}, {}) s'"
| other_step: "set (deliveries s') \<subseteq> set (deliveries s) \<Longrightarrow> next_message s' = next_message s \<Longrightarrow>
     mail_step s ({}, {}) s'"

inductive_cases mail_stepE: "mail_step s e s'"

definition issued_keys :: "store \<Rightarrow> handed" where
  "issued_keys s = {k. fst k < next_message s}"

definition unread_keys :: "store \<Rightarrow> handed" where
  "unread_keys s = delivery_key ` set (filter (\<lambda>d. dl_read d = None) (deliveries s))"

definition unnoticed_keys :: "store \<Rightarrow> handed" where
  "unnoticed_keys s = delivery_key ` set (filter (\<lambda>d. dl_noticed d = None) (deliveries s))"

lemma unread_keys_iff:
  "(i, a) \<in> unread_keys s \<longleftrightarrow>
     (\<exists>d \<in> set (deliveries s). dl_message d = i \<and> dl_agent d = a \<and> dl_read d = None)"
  by (auto simp: unread_keys_def delivery_key_def image_iff)

lemma unnoticed_keys_iff:
  "(i, a) \<in> unnoticed_keys s \<longleftrightarrow>
     (\<exists>d \<in> set (deliveries s). dl_message d = i \<and> dl_agent d = a \<and> dl_noticed d = None)"
  by (auto simp: unnoticed_keys_def delivery_key_def image_iff)

lemma read_inbox_mail:
  assumes "resolve_agent sc w s = Inr (aid, nm)" and "read_inbox skip sc w now s = Inr (s', ms)"
  shows "s' = mark_all_read aid (unix now) (unread_ids sc aid s) s"
    and "msg_id ` set ms \<subseteq> unread_ids sc aid s"
proof -
  obtain aid' nm' where r: "resolve_agent sc w s = Inr (aid', nm')"
    "s' = mark_all_read aid' (unix now) (unread_ids sc aid' s) s"
    "ms = map message_of (filter (\<lambda>mw. \<not> (is_ledger (fst mw) \<and> skip))
          (sort_key by_age (mail_rows (unread_for aid') (\<lambda>m. mr_scope m = sc) s)))"
    by (rule read_inbox_Inr [OF assms(2)])
  then show "s' = mark_all_read aid (unix now) (unread_ids sc aid s) s" using assms(1) by simp
  have "aid' = aid" using r(1) assms(1) by simp
  then have "msg_id ` set ms \<subseteq> set (map (\<lambda>mw. mr_id (fst mw)) (mail_rows (unread_for aid) (\<lambda>m. mr_scope m = sc) s))"
    using r(3) by (auto simp: image_image intro: rev_image_eqI)
  then show "msg_id ` set ms \<subseteq> unread_ids sc aid s"
    unfolding mail_ids unread_ids_def .
qed

lemma notices_mail:
  assumes "notices_for sc aid writes now s = (s', lines)"
  shows "s' = mark_all_noticed aid (unix now) (set (map (\<lambda>mw. mr_id (fst mw)) (notice_rows sc aid s))) s"
    and "set (map (\<lambda>mw. mr_id (fst mw)) (notice_rows sc aid s)) =
      {mr_id m |m. m \<in> set (messages s) \<and> mr_scope m = sc \<and>
         (\<exists>d \<in> set (deliveries s). unnoticed_for aid d \<and> dl_message d = mr_id m)}"
proof -
  show "s' = mark_all_noticed aid (unix now) (set (map (\<lambda>mw. mr_id (fst mw)) (notice_rows sc aid s))) s"
    using assms unfolding notices_for_def Let_def fold_mark_noticed by simp
  show "set (map (\<lambda>mw. mr_id (fst mw)) (notice_rows sc aid s)) =
      {mr_id m |m. m \<in> set (messages s) \<and> mr_scope m = sc \<and>
         (\<exists>d \<in> set (deliveries s). unnoticed_for aid d \<and> dl_message d = mr_id m)}"
    using mail_ids [of "unnoticed_for aid" "\<lambda>m. mr_scope m = sc" s] by (simp add: notice_rows_def)
qed

text \<open>How each step changes the two sets of keys.\<close>

lemma bex_update_where:
  "(\<exists>x \<in> set (update_where p f rs). P x) \<longleftrightarrow> (\<exists>r \<in> set rs. P (if p r then f r else r))"
  by (induction rs) auto

lemma marked_unread:
  "unread_keys (mark_all_read aid at ids s) = unread_keys s - (\<lambda>i. (i, aid)) ` ids"
  "unnoticed_keys (mark_all_read aid at ids s) = unnoticed_keys s"
  "unread_keys (mark_all_noticed aid at ids s) = unread_keys s"
  "unnoticed_keys (mark_all_noticed aid at ids s) = unnoticed_keys s - (\<lambda>i. (i, aid)) ` ids"
proof -
  have "(i, a) \<in> unread_keys (mark_all_read aid at ids s) \<longleftrightarrow> (i, a) \<in> unread_keys s - (\<lambda>i. (i, aid)) ` ids"
    "(i, a) \<in> unnoticed_keys (mark_all_read aid at ids s) \<longleftrightarrow> (i, a) \<in> unnoticed_keys s"
    "(i, a) \<in> unread_keys (mark_all_noticed aid at ids s) \<longleftrightarrow> (i, a) \<in> unread_keys s"
    "(i, a) \<in> unnoticed_keys (mark_all_noticed aid at ids s)
      \<longleftrightarrow> (i, a) \<in> unnoticed_keys s - (\<lambda>i. (i, aid)) ` ids" for i a
    unfolding Diff_iff unread_keys_iff unnoticed_keys_iff
    by (auto simp: mark_all_read_def mark_all_noticed_def bex_update_where)
  then show "unread_keys (mark_all_read aid at ids s) = unread_keys s - (\<lambda>i. (i, aid)) ` ids"
    "unnoticed_keys (mark_all_read aid at ids s) = unnoticed_keys s"
    "unread_keys (mark_all_noticed aid at ids s) = unread_keys s"
    "unnoticed_keys (mark_all_noticed aid at ids s) = unnoticed_keys s - (\<lambda>i. (i, aid)) ` ids"
    by auto
qed

lemma sent_keys:
  assumes "send_to_scope d now s = Inr s'"
  shows "unread_keys s' \<inter> issued_keys s \<subseteq> unread_keys s"
    and "unnoticed_keys s' \<inter> issued_keys s \<subseteq> unnoticed_keys s"
    and "unread_keys s \<subseteq> issued_keys s \<Longrightarrow> unread_keys s' \<subseteq> issued_keys s'"
    and "unnoticed_keys s \<subseteq> issued_keys s \<Longrightarrow> unnoticed_keys s' \<subseteq> issued_keys s'"
proof -
  obtain aids where ds: "deliveries s' = deliveries s @ map (unread_row (next_message s)) aids"
    using assms by (auto simp: send_to_scope_Inr dest: insert_deliveries_SomeD)
  have n: "next_message s' = Suc (next_message s)" by (rule send_frame(7) [OF assms])
  have new: "unread_keys s' = unread_keys s \<union> Pair (next_message s) ` set aids"
    "unnoticed_keys s' = unnoticed_keys s \<union> Pair (next_message s) ` set aids"
    unfolding unread_keys_def unnoticed_keys_def ds
    by (auto simp: unread_row_def delivery_key_def image_Un image_image filter_map o_def)
  show "unread_keys s' \<inter> issued_keys s \<subseteq> unread_keys s"
    "unnoticed_keys s' \<inter> issued_keys s \<subseteq> unnoticed_keys s"
    unfolding new by (auto simp: issued_keys_def)
  show "unread_keys s \<subseteq> issued_keys s \<Longrightarrow> unread_keys s' \<subseteq> issued_keys s'"
    "unnoticed_keys s \<subseteq> issued_keys s \<Longrightarrow> unnoticed_keys s' \<subseteq> issued_keys s'"
    unfolding new by (fastforce simp: issued_keys_def n)+
qed

lemma other_keys:
  "set (deliveries s') \<subseteq> set (deliveries s) \<Longrightarrow> unread_keys s' \<subseteq> unread_keys s"
  "set (deliveries s') \<subseteq> set (deliveries s) \<Longrightarrow> unnoticed_keys s' \<subseteq> unnoticed_keys s"
  by (auto simp: unread_keys_def unnoticed_keys_def)

lemma step_issued: "mail_step s e t \<Longrightarrow> issued_keys s \<subseteq> issued_keys t"
proof (induction rule: mail_step.induct)
  case (read_step sc w s aid nm skip now s' ms)
  then show ?case using read_inbox_mail(1) [OF read_step] by (simp add: issued_keys_def)
next
  case (notice_step sc aid writes now s s' lines)
  then show ?case using notices_mail(1) [OF notice_step] by (simp add: issued_keys_def)
next
  case (send_step d now s s')
  then show ?case by (auto simp: send_frame(7) issued_keys_def)
qed (simp add: issued_keys_def)

interpretation read_once: once_drain unread_keys issued_keys mail_step fst
proof
  fix s e t
  assume step: "mail_step s e t"
  have facts: "fst e \<subseteq> unread_keys s \<and> unread_keys t \<inter> fst e = {} \<and> unread_keys t \<inter> issued_keys s \<subseteq> unread_keys s
      \<and> (unread_keys s \<subseteq> issued_keys s \<longrightarrow> unread_keys t \<subseteq> issued_keys t)"
    using step
  proof (cases rule: mail_step.cases)
    case (read_step sc w aid nm skip now ms)
    have "(\<lambda>i. (i, aid)) ` unread_ids sc aid s \<subseteq> unread_keys s"
      by (auto simp: unread_ids_def unread_keys_iff unread_for_def)
    moreover have "fst e \<subseteq> (\<lambda>i. (i, aid)) ` unread_ids sc aid s"
      using read_step(1) read_inbox_mail(2) [OF read_step(2,3)] by auto
    ultimately show ?thesis
      using step_issued [OF step] by (auto simp: read_inbox_mail(1) [OF read_step(2,3)] marked_unread)
  next
    case (notice_step sc aid writes now lines)
    then show ?thesis using step_issued [OF step] by (auto simp: notices_mail(1) [OF notice_step(2)] marked_unread)
  next
    case (send_step d now)
    then show ?thesis using sent_keys [OF send_step(2)] by auto
  next
    case other_step
    then show ?thesis using other_keys(1) [OF other_step(2)] step_issued [OF step] by auto
  qed
  then show "fst e \<subseteq> unread_keys s" "unread_keys t \<inter> fst e = {}"
    "unread_keys t \<inter> issued_keys s \<subseteq> unread_keys s" "issued_keys s \<subseteq> issued_keys t"
    "unread_keys s \<subseteq> issued_keys s \<Longrightarrow> unread_keys t \<subseteq> issued_keys t"
    using step_issued [OF step] by auto
qed

interpretation notice_once: once_drain unnoticed_keys issued_keys mail_step snd
proof
  fix s e t
  assume step: "mail_step s e t"
  have facts: "snd e \<subseteq> unnoticed_keys s \<and> unnoticed_keys t \<inter> snd e = {}
      \<and> unnoticed_keys t \<inter> issued_keys s \<subseteq> unnoticed_keys s
      \<and> (unnoticed_keys s \<subseteq> issued_keys s \<longrightarrow> unnoticed_keys t \<subseteq> issued_keys t)"
    using step
  proof (cases rule: mail_step.cases)
    case (read_step sc w aid nm skip now ms)
    then show ?thesis using step_issued [OF step]
      by (auto simp: read_inbox_mail(1) [OF read_step(2,3)] marked_unread)
  next
    case (notice_step sc aid writes now lines)
    let ?ids = "set (map (\<lambda>mw. mr_id (fst mw)) (notice_rows sc aid s))"
    have "(\<lambda>i. (i, aid)) ` ?ids \<subseteq> unnoticed_keys s"
      unfolding notices_mail(2) [OF notice_step(2)]
      by (auto simp: unnoticed_keys_iff unnoticed_for_def)
    moreover have "snd e = (\<lambda>i. (i, aid)) ` ?ids"
      using notice_step(1) by (auto simp: image_image)
    moreover have "unnoticed_keys t = unnoticed_keys s - (\<lambda>i. (i, aid)) ` ?ids"
      unfolding notices_mail(1) [OF notice_step(2)] by (rule marked_unread(4))
    ultimately show ?thesis using step_issued [OF step] by auto
  next
    case (send_step d now)
    then show ?thesis using sent_keys [OF send_step(2)] by auto
  next
    case other_step
    then show ?thesis using other_keys(2) [OF other_step(2)] step_issued [OF step] by auto
  qed
  then show "snd e \<subseteq> unnoticed_keys s" "unnoticed_keys t \<inter> snd e = {}"
    "unnoticed_keys t \<inter> issued_keys s \<subseteq> unnoticed_keys s" "issued_keys s \<subseteq> issued_keys t"
    "unnoticed_keys s \<subseteq> issued_keys s \<Longrightarrow> unnoticed_keys t \<subseteq> issued_keys t"
    using step_issued [OF step] by auto
qed

lemma keys_issued:
  "schema_ok s \<Longrightarrow> unread_keys s \<subseteq> issued_keys s" "schema_ok s \<Longrightarrow> unnoticed_keys s \<subseteq> issued_keys s"
  by (auto simp: schema_ok_def unread_keys_def unnoticed_keys_def issued_keys_def delivery_key_def list_all_iff)

section \<open>Properties\<close>

text \<open>A workspace with literal ids, for the examples.\<close>

definition plain_agent :: "string \<Rightarrow> string \<Rightarrow> string \<Rightarrow> string \<Rightarrow> int \<Rightarrow> agent_row" where
  "plain_agent sc sess aid nm at =
     \<lparr>ar_scope = sc, ar_session = sess, ar_id = aid, ar_name = nm, ar_status = Active,
      ar_registered = at, ar_seen = at, ar_source = ''hook'', ar_parent = [], ar_kind = [],
      ar_origin = [], ar_platform = [], ar_caps = ''[]'', ar_secret = []\<rparr>"

definition office :: store where
  "office = empty_store\<lparr>agents := [plain_agent ''ws'' ''a'' ''id-a'' ''calm-fox'' 100,
     plain_agent ''ws'' ''b'' ''id-b'' ''deft-owl'' 100, plain_agent ''ws'' ''c'' ''id-c'' ''wry-yak'' 1]\<rparr>"

definition office_mail :: store where
  "office_mail = (case send ''ws'' ''calm-fox'' ''deft-owl'' ''hello'' (from_unix 110) office of
     Inr s \<Rightarrow> s | Inl e \<Rightarrow> office)"

lemma office_mail_sent:
  "send ''ws'' ''calm-fox'' ''deft-owl'' ''hello'' (from_unix 110) office = Inr office_mail"
proof -
  have "\<not> (\<exists>e. send ''ws'' ''calm-fox'' ''deft-owl'' ''hello'' (from_unix 110) office = Inl e)"
    by (simp add: send_def send_to_scope_def plain_delivery_def delivery_sender_def no_sender_def
        empty_ref_def resolve_sender_def row_named_def goes_by_def office_def plain_agent_def
        delivery_targets_def resolve_agent_def empty_store_def insert_row_def Let_def)
  then show ?thesis
    by (cases "send ''ws'' ''calm-fox'' ''deft-owl'' ''hello'' (from_unix 110) office")
      (auto simp: office_mail_def)
qed

lemma schema_ok_office: "schema_ok office"
  by (simp add: schema_ok_def office_def empty_store_def plain_agent_def agent_key_def agent_name_key_def)

lemma schema_ok_office_mail: "schema_ok office_mail"
  using schema_ok_send [OF schema_ok_office office_mail_sent [unfolded send_def]] .

text \<open>
  C40. A send writes one message and one unread delivery per recipient, or nothing. Whatever a
  caller claims, the sender on the message is a row of the sending workspace with its own id
  and kind; a named recipient is a row of the target workspace and gets the only delivery; an
  unnamed one is everybody live there other than the sender, once each.
\<close>

theorem send_delivers_exactly:
  assumes "send_to_scope d now s = Inr s'" and "schema_ok s" and "ref_id (sn_ref (dv_from d)) = []"
  shows "\<exists>r m to targets. row_named (dv_from_scope d) (dv_from_name d) s = Some r \<and>
     s' = s\<lparr>messages := messages s @ [m], next_message := Suc (next_message s),
            deliveries := deliveries s @ map (unread_row (mr_id m)) targets\<rparr> \<and>
     mr_id m = next_message s \<and> mr_from m = ar_id r \<and> mr_kind m = ar_kind r \<and>
     mr_body m = dv_body d \<and> mr_task m = dv_task d \<and> mr_to m = to \<and>
     (dv_from_scope d \<noteq> [] \<longrightarrow> sender_home m = dv_from_scope d) \<and>
     mr_scope m = (if dv_to_scope d = [] then dv_from_scope d else dv_to_scope d) \<and>
     distinct targets \<and>
     (if dv_to_name d \<noteq> [] then
        (\<exists>q. row_named (mr_scope m) (dv_to_name d) s = Some q \<and> to = Some (ar_id q) \<and> targets = [ar_id q])
      else to = None \<and> set targets =
        {ar_id q |q. q \<in> set (agents s) \<and> ar_scope q = mr_scope m \<and> ar_id q \<noteq> ar_id r \<and> live_row now q})"
proof -
  obtain sn to targets ds where sn: "delivery_sender d s = Inr sn"
    and t: "delivery_targets d (if dv_to_scope d = [] then ref_scope (sn_ref sn) else dv_to_scope d)
      (ref_id (sn_ref sn)) now s = Inr (to, targets)"
    and ds: "insert_deliveries (next_message s) targets (deliveries s) = Some ds"
    and s': "s' = s\<lparr>messages := messages s @ [new_message d sn to now (next_message s)],
                next_message := Suc (next_message s), deliveries := ds\<rparr>"
    using assms(1) by (auto simp: send_to_scope_Inr)
  obtain r where r: "row_named (dv_from_scope d) (dv_from_name d) s = Some r"
    and sn': "sn = \<lparr>sn_ref = \<lparr>ref_name = ar_name r, ref_id = ar_id r, ref_scope = dv_from_scope d\<rparr>,
      sn_kind = ar_kind r\<rparr>"
    using sn assms(3) by (auto simp: delivery_sender_def resolve_sender_def split: option.splits)
  let ?m = "new_message d sn to now (next_message s)"
  have m: "mr_scope ?m = (if dv_to_scope d = [] then dv_from_scope d else dv_to_scope d)"
    "mr_from ?m = ar_id r" "mr_kind ?m = ar_kind r" "mr_body ?m = dv_body d" "mr_task ?m = dv_task d"
    "mr_to ?m = to" "dv_from_scope d \<noteq> [] \<longrightarrow> sender_home ?m = dv_from_scope d"
    by (auto simp: new_message_def Let_def sn' sender_home_def)
  have dest: "(if dv_to_scope d = [] then ref_scope (sn_ref sn) else dv_to_scope d) = mr_scope ?m"
    unfolding m(1) using sn' by simp
  have tg: "if dv_to_name d \<noteq> [] then
        (\<exists>q. row_named (mr_scope ?m) (dv_to_name d) s = Some q \<and> to = Some (ar_id q) \<and> targets = [ar_id q])
      else to = None \<and> set targets =
        {ar_id q |q. q \<in> set (agents s) \<and> ar_scope q = mr_scope ?m \<and> ar_id q \<noteq> ar_id r \<and> live_row now q}"
    using t unfolding dest
    by (auto simp: delivery_targets_def resolve_agent_def live_agents_def sn' bind_sum_def
        split: if_splits sum.splits option.splits)
  show ?thesis
    using r m tg insert_deliveries_SomeD [OF ds] s' by (intro exI [of _ r] exI [of _ ?m] exI [of _ to] exI [of _ targets]) auto
qed

theorem send_delivers_exactly_witness:
  "\<exists>r m to targets. row_named ''ws'' ''calm-fox'' office = Some r \<and>
     office_mail = office\<lparr>messages := messages office @ [m], next_message := Suc (next_message office),
            deliveries := deliveries office @ map (unread_row (mr_id m)) targets\<rparr>"
proof -
  let ?d = "plain_delivery ''ws'' ''calm-fox'' ''deft-owl'' ''hello''"
  have "ref_id (sn_ref (dv_from ?d)) = []" by (simp add: plain_delivery_def no_sender_def empty_ref_def)
  from send_delivers_exactly [OF office_mail_sent [unfolded send_def] schema_ok_office this]
  show ?thesis by (auto simp: plain_delivery_def)
qed

text \<open>
  A read takes everything: it hands out every unread message of the inbox, oldest first,
  but the ledger's own when a broker asks; afterwards nothing in that inbox is unread, and no
  other inbox has changed.
\<close>

theorem read_takes_every_unread:
  assumes "schema_ok s" and "read_inbox skip sc w now s = Inr (s', ms)"
  shows "\<exists>aid nm. resolve_agent sc w s = Inr (aid, nm) \<and>
     msg_id ` set ms = {mr_id m |m. m \<in> set (messages s) \<and> mr_id m \<in> unread_ids sc aid s \<and>
        \<not> (is_ledger m \<and> skip)} \<and>
     sorted (map (\<lambda>m. (msg_sent m, msg_id m)) ms) \<and>
     unread_ids sc aid s' = {} \<and>
     (\<forall>a sc'. a \<noteq> aid \<or> sc' \<noteq> sc \<longrightarrow> unread_ids sc' a s' = unread_ids sc' a s)"
proof -
  obtain aid nm where r: "resolve_agent sc w s = Inr (aid, nm)"
    and s': "s' = mark_all_read aid (unix now) (unread_ids sc aid s) s"
    and ms: "ms = map message_of (filter (\<lambda>mw. \<not> (is_ledger (fst mw) \<and> skip))
          (sort_key by_age (mail_rows (unread_for aid) (\<lambda>m. mr_scope m = sc) s)))"
    by (rule read_inbox_Inr [OF assms(2)])
  have keys: "map (\<lambda>m. (msg_sent m, msg_id m)) (map message_of xs) = map by_age xs" for xs
    by (simp add: message_of_def by_age_def Let_def)
  have "sorted (map (\<lambda>m. (msg_sent m, msg_id m)) ms)"
    unfolding ms keys by (rule sorted_filter) simp
  moreover have "msg_id ` set ms = {mr_id m |m. m \<in> set (messages s) \<and> mr_id m \<in> unread_ids sc aid s \<and>
      \<not> (is_ledger m \<and> skip)}" (is "_ = ?R")
  proof -
    have "msg_id ` set ms = set (map (\<lambda>mw. mr_id (fst mw))
        (filter (\<lambda>mw. \<not> (is_ledger (fst mw) \<and> skip)) (mail_rows (unread_for aid) (\<lambda>m. mr_scope m = sc) s)))"
      unfolding ms by (simp add: image_image)
    also have "\<dots> = {mr_id m |m. m \<in> set (messages s) \<and> (mr_scope m = sc \<and> \<not> (is_ledger m \<and> skip)) \<and>
        (\<exists>d \<in> set (deliveries s). unread_for aid d \<and> dl_message d = mr_id m)}"
      unfolding mail_rows_filter [of "unread_for aid" "\<lambda>m. mr_scope m = sc" "\<lambda>m. \<not> (is_ledger m \<and> skip)" s, symmetric]
        mail_ids ..
    also have "\<dots> = ?R"
      using message_unique [OF assms(1)] by (auto simp: unread_ids_def)
    finally show ?thesis .
  qed
  ultimately show ?thesis
    using r unread_after_read [of sc aid "unix now" s] unread_elsewhere [OF assms(1), of _ aid _ sc "unix now"]
    unfolding s' by (intro exI [of _ aid] exI [of _ nm]) simp
qed

theorem read_takes_every_unread_witness:
  "\<exists>s' ms. read_inbox False ''ws'' ''deft-owl'' (from_unix 120) office_mail = Inr (s', ms) \<and>
     (\<exists>aid nm. resolve_agent ''ws'' ''deft-owl'' office_mail = Inr (aid, nm) \<and> unread_ids ''ws'' aid s' = {})"
proof -
  have "\<exists>r. row_named ''ws'' ''deft-owl'' office = Some r"
    by (simp add: row_named_def goes_by_def office_def plain_agent_def)
  then obtain aid nm where r: "resolve_agent ''ws'' ''deft-owl'' office_mail = Inr (aid, nm)"
    using send_frame(1) [OF office_mail_sent [unfolded send_def]]
    by (auto simp: resolve_agent_def row_named_def)
  have "\<exists>x. read_inbox False ''ws'' ''deft-owl'' (from_unix 120) office_mail = Inr x"
    unfolding read_inbox_def r bind_sum_simps Let_def prod.case by blast
  then obtain s' ms where run: "read_inbox False ''ws'' ''deft-owl'' (from_unix 120) office_mail = Inr (s', ms)"
    by (metis surj_pair)
  obtain aid' nm' where "resolve_agent ''ws'' ''deft-owl'' office_mail = Inr (aid', nm')" "unread_ids ''ws'' aid' s' = {}"
    using read_takes_every_unread [OF schema_ok_office_mail run] by (elim exE conjE) (rule that)
  then show ?thesis using run by blast
qed

text \<open>
  Peeking agrees with reading and changes nothing: the ids it reports are the ids a read
  at that moment would hand out, those at or below the caller's mark left out, and their count.
\<close>

theorem peek_agrees_with_read:
  "case (peek_inbox skip sc w after s, read_inbox skip sc w now s) of
     (Inl e, Inl f) \<Rightarrow> e = f
   | (Inr p, Inr (s', ms)) \<Rightarrow>
       mset (pk_ids p) = mset (filter (\<lambda>i. after < int i) (map msg_id ms)) \<and>
       sorted (pk_ids p) \<and> pk_unread p = length (pk_ids p)
   | _ \<Rightarrow> False"
proof (cases "resolve_agent sc w s")
  case (Inl e)
  then show ?thesis by (simp add: peek_inbox_def read_inbox_def)
next
  case (Inr r)
  obtain aid nm where r: "resolve_agent sc w s = Inr (aid, nm)" using Inr by (cases r) simp
  let ?all = "mail_rows (unread_for aid) (\<lambda>m. mr_scope m = sc) s"
  have rows: "mail_rows (unread_for aid) (\<lambda>m. mr_scope m = sc \<and> after < int (mr_id m) \<and> (skip \<longrightarrow> \<not> is_ledger m)) s
      = filter (\<lambda>mw. after < int (mr_id (fst mw)) \<and> (skip \<longrightarrow> \<not> is_ledger (fst mw))) ?all"
    by (rule mail_rows_filter)
  obtain p where p: "peek_inbox skip sc w after s = Inr p"
    and pk: "pk_ids p = map (\<lambda>mw. mr_id (fst mw)) (sort_key (\<lambda>mw. mr_id (fst mw))
      (filter (\<lambda>mw. after < int (mr_id (fst mw)) \<and> (skip \<longrightarrow> \<not> is_ledger (fst mw))) ?all))"
      "pk_unread p = length (pk_ids p)"
    by (simp add: r peek_inbox_def Let_def rows)
  obtain s' ms where run: "read_inbox skip sc w now s = Inr (s', ms)"
    and ms: "ms = map message_of (filter (\<lambda>mw. \<not> (is_ledger (fst mw) \<and> skip)) (sort_key by_age ?all))"
    by (simp add: r read_inbox_def Let_def)
  have "mset (pk_ids p) = mset (filter (\<lambda>i. after < int i) (map msg_id ms))"
    unfolding pk ms by (simp add: filter_map o_def mset_filter image_mset.compositionality conj_commute
        filter_filter_mset)
  moreover have "sorted (pk_ids p)" unfolding pk by simp
  ultimately show ?thesis using p run pk(2) by simp
qed

text \<open>
  C19. Exactly once: over any run of reads, notice drains, sends and purges, by any callers and
  in any order, no delivery is handed out by two reads and none is announced by two drains.
\<close>

theorem mail_handed_out_once:
  assumes "runs mail_step s es t" and "schema_ok s"
  shows "sorted_wrt (\<lambda>e f. fst e \<inter> fst f = {}) es \<and> sorted_wrt (\<lambda>e f. snd e \<inter> snd f = {}) es"
  using read_once.handed_once [OF assms(1) keys_issued(1) [OF assms(2)]]
    notice_once.handed_once [OF assms(1) keys_issued(2) [OF assms(2)]] by blast

theorem mail_handed_out_once_witness:
  "\<exists>es t. runs mail_step office es t \<and> length es = 1 \<and> sorted_wrt (\<lambda>e f. fst e \<inter> fst f = {}) es"
proof -
  have run: "runs mail_step office [({}, {})] office_mail"
    by (rule runs_step [of mail_step, OF send_step [OF office_mail_sent [unfolded send_def]] runs_stop])
  with mail_handed_out_once [OF run schema_ok_office] show ?thesis by (intro exI [of _ "[({}, {})]"]) auto
qed

end
