(* ===== verification/Relay.thy ===== *)
theory Relay
  imports Messaging
begin

text \<open>
  Relay identities, \<open>relay.go\<close>: the credential a broker brings, the one row its session names,
  its verification, and the two directories. A registration is one transaction, so it is a
  function on the store and a refusal leaves the store as it was.
\<close>

section \<open>Credentials and identities\<close>

definition host_scope_prefix :: string where "host_scope_prefix = ''host:''"
definition relay_origin :: string where "relay_origin = ''relay''"

definition valid_secret :: "string \<Rightarrow> bool" where
  "valid_secret v \<longleftrightarrow> length v = 64 \<and> list_all is_lower_hex v"

record relay_registration =
  rr_scope :: string
  rr_session :: string
  rr_kind :: string
  rr_origin :: string
  rr_platform :: string
  rr_secret :: string
  rr_caps :: "string list option"

record relay_identity =
  ri_scope :: string
  ri_name :: string
  ri_id :: string
  ri_kind :: string
  ri_origin :: string
  ri_secret :: string

definition identity_row :: "agent_row \<Rightarrow> relay_identity" where
  "identity_row r = \<lparr>ri_scope = ar_scope r, ri_name = ar_name r, ri_id = ar_id r, ri_kind = ar_kind r,
     ri_origin = ar_origin r, ri_secret = ar_secret r\<rparr>"

definition relay_first :: "agent_row \<Rightarrow> bool \<times> int \<times> string" where
  "relay_first r = (ar_origin r \<noteq> relay_origin, ar_registered r, ar_scope r)"

definition first_row_of :: "string \<Rightarrow> store \<Rightarrow> agent_row option" where
  "first_row_of sess s = first_by relay_first (filter (\<lambda>r. ar_session r = sess) (agents s))"

definition agent_at :: "string \<Rightarrow> string \<Rightarrow> store \<Rightarrow> err + relay_identity" where
  "agent_at sc sess s = (case row_at sc sess s of
     None \<Rightarrow> Inl ErrNoSession | Some r \<Rightarrow> Inr (identity_row r))"

definition agent_by_session :: "string \<Rightarrow> store \<Rightarrow> err + relay_identity" where
  "agent_by_session sess s = (case first_row_of sess s of
     None \<Rightarrow> Inl ErrNoSession | Some r \<Rightarrow> Inr (identity_row r))"

definition verify_relay_secret :: "string \<Rightarrow> string \<Rightarrow> store \<Rightarrow> err + relay_identity" where
  "verify_relay_secret sess secret s =
     bind_sum (agent_by_session sess s) (\<lambda>i.
       if ri_origin i \<noteq> relay_origin then Inl ErrForeignSession
       else if sha256_hex secret \<noteq> ri_secret i then Inl ErrRelayAuth
       else Inr i)"

section \<open>Registering a launcher\<close>

definition err_bad_kind :: err where
  "err_bad_kind = ErrText ''register: kind must be eyes or launcher''"

definition relay_verdict :: "relay_registration \<Rightarrow> agent_row option \<Rightarrow> err option" where
  "relay_verdict r prior = (case prior of
     None \<Rightarrow> (if rr_origin r = relay_origin \<and> \<not> valid_secret (rr_secret r) then Some ErrRelayAuth else None)
   | Some p \<Rightarrow>
       if ar_scope p \<noteq> rr_scope r \<or> ar_origin p \<noteq> rr_origin r \<or> (ar_kind p \<noteq> [] \<and> ar_kind p \<noteq> rr_kind r)
       then Some ErrForeignSession
       else if ar_origin p = relay_origin \<and> sha256_hex (rr_secret r) \<noteq> ar_secret p then Some ErrRelayAuth
       else None)"

definition caps_text :: "string list option \<Rightarrow> string" where
  "caps_text cs = json_print (JArr (map JStr (case cs of None \<Rightarrow> [] | Some l \<Rightarrow> l)))"

definition kept_secret :: "relay_registration \<Rightarrow> agent_row option \<Rightarrow> string" where
  "kept_secret r prior = (case prior of
     None \<Rightarrow> (if rr_origin r = relay_origin then sha256_hex (rr_secret r) else [])
   | Some p \<Rightarrow> ar_secret p)"

definition advertise :: "relay_registration \<Rightarrow> string \<Rightarrow> agent_row \<Rightarrow> agent_row" where
  "advertise r hash a = a\<lparr>ar_kind := rr_kind r, ar_origin := rr_origin r, ar_platform := rr_platform r,
     ar_caps := caps_text (rr_caps r), ar_secret := hash\<rparr>"

definition register_relay :: "relay_registration \<Rightarrow> time \<Rightarrow> store \<Rightarrow> err + store \<times> string" where
  "register_relay r now s =
     (if rr_kind r = kind_eyes then Inl ErrForeignSession
      else if rr_kind r \<noteq> kind_launcher then Inl err_bad_kind
      else
        (let prior = first_row_of (rr_session r) s in
         case relay_verdict r prior of
           Some e \<Rightarrow> Inl e
         | None \<Rightarrow>
             (let source = (if rr_origin r = relay_origin then ''relay'' else ''join'') in
              case register quiet (rr_scope r) (rr_session r) source now s of
                (_, Inl e) \<Rightarrow> Inl e
              | (s1, Inr name) \<Rightarrow>
                  Inr (agents_update (update_where (at_session (rr_scope r) (rr_session r))
                         (advertise r (kept_secret r prior))) s1, name))))"

section \<open>Directories\<close>

record workspace_info =
  wi_scope :: string
  wi_live :: nat
  wi_eyes :: nat
  wi_launchers :: nat
  wi_seen :: int

definition count_in :: "agent_row \<Rightarrow> workspace_info \<Rightarrow> workspace_info" where
  "count_in r w = w\<lparr>wi_live := Suc (wi_live w),
     wi_eyes := (if ar_kind r = kind_eyes then Suc (wi_eyes w) else wi_eyes w),
     wi_launchers := (if ar_kind r = kind_launcher then Suc (wi_launchers w) else wi_launchers w),
     wi_seen := (if wi_seen w < ar_seen r then ar_seen r else wi_seen w)\<rparr>"

fun add_occupant :: "agent_row \<Rightarrow> workspace_info list \<Rightarrow> workspace_info list" where
  "add_occupant r [] =
     [count_in r \<lparr>wi_scope = ar_scope r, wi_live = 0, wi_eyes = 0, wi_launchers = 0, wi_seen = 0\<rparr>]"
| "add_occupant r (w # ws) = (if wi_scope w = ar_scope r then count_in r w # ws else w # add_occupant r ws)"

definition by_scope :: "agent_row \<Rightarrow> string \<times> int" where
  "by_scope r = (ar_scope r, ar_registered r)"

definition list_workspaces :: "time \<Rightarrow> store \<Rightarrow> workspace_info list" where
  "list_workspaces now s = fold add_occupant
     (filter (\<lambda>r. \<not> (has_prefix host_scope_prefix (ar_scope r) \<or> \<not> live_row now r))
        (sort_key by_scope (agents s))) []"

text \<open>\<open>json.Unmarshal\<close> of the stored capabilities; what does not parse leaves the list empty.\<close>

definition caps_list :: "string \<Rightarrow> string list option" where
  "caps_list t = fst (unmarshal_into (dec_slice [] dec_text) None t)"

record agent_info =
  ai_id :: string
  ai_name :: string
  ai_status :: status
  ai_task :: string
  ai_activity :: string
  ai_files :: "string list option"
  ai_seen :: int
  ai_pending :: nat
  ai_done :: nat
  ai_parent :: string
  ai_claims :: "string list option"
  ai_kind :: string
  ai_scope :: string
  ai_origin :: string
  ai_platform :: string
  ai_caps :: "string list option"

definition eyes_info :: "time \<Rightarrow> agent_row \<Rightarrow> agent_info" where
  "eyes_info now r = \<lparr>ai_id = ar_id r, ai_name = ar_name r, ai_status = fresh_status now (ar_status r) (ar_seen r),
     ai_task = [], ai_activity = [], ai_files = None, ai_seen = ar_seen r, ai_pending = 0, ai_done = 0,
     ai_parent = [], ai_claims = None, ai_kind = ar_kind r, ai_scope = ar_scope r, ai_origin = ar_origin r,
     ai_platform = ar_platform r, ai_caps = caps_list (ar_caps r)\<rparr>"

definition list_eyes :: "time \<Rightarrow> store \<Rightarrow> agent_info list" where
  "list_eyes now s = map (eyes_info now) (filter (live_row now)
     (sort_key by_scope (filter (\<lambda>r. ar_kind r = kind_eyes \<or> ar_kind r = kind_launcher) (agents s))))"

section \<open>Lemmas\<close>

lemma first_row_ofD: "first_row_of sess s = Some r \<Longrightarrow> r \<in> set (agents s) \<and> ar_session r = sess"
  by (auto simp: first_row_of_def dest: first_by_SomeD(1))

lemma first_row_of_None: "first_row_of sess s = None \<longleftrightarrow> (\<forall>r \<in> set (agents s). ar_session r \<noteq> sess)"
  by (auto simp: first_row_of_def filter_empty_conv)

text \<open>A session names at most one row that came in over the relay.\<close>

definition relay_single :: "store \<Rightarrow> bool" where
  "relay_single s \<longleftrightarrow> (\<forall>r \<in> set (agents s). \<forall>q \<in> set (agents s).
     ar_origin r = relay_origin \<and> ar_origin q = relay_origin \<and> ar_session r = ar_session q \<longrightarrow> r = q)"

lemma relay_row_first:
  assumes "r \<in> set (agents s)" and "ar_origin r = relay_origin"
  shows "\<exists>q. first_row_of (ar_session r) s = Some q \<and> ar_origin q = relay_origin"
proof -
  have "first_row_of (ar_session r) s \<noteq> None" using assms(1) by (auto simp: first_row_of_None)
  then obtain q where q: "first_row_of (ar_session r) s = Some q" by auto
  then have "relay_first q \<le> relay_first r"
    using first_by_SomeD(2) [OF q [unfolded first_row_of_def]] assms(1) by simp
  then show ?thesis using q assms(2) by (auto simp: relay_first_def)
qed

lemma relay_row_is_first:
  "relay_single s \<Longrightarrow> r \<in> set (agents s) \<Longrightarrow> ar_origin r = relay_origin \<Longrightarrow> first_row_of (ar_session r) s = Some r"
  using relay_row_first first_row_ofD unfolding relay_single_def by metis

lemma row_at_advertise:
  "row_at sc sess (agents_update (update_where (at_session sc sess) (advertise r h)) s)
    = map_option (advertise r h) (row_at sc sess s)"
proof -
  have "row_at sc sess (agents_update (update_where (at_session sc sess) (advertise r h)) s)
    = map_option (\<lambda>x. if at_session sc sess x then advertise r h x else x) (row_at sc sess s)"
    unfolding row_at_def by (simp add: find_update_where at_session_def advertise_def)
  then show ?thesis by (cases "row_at sc sess s") (auto dest: row_atD simp: at_session_def)
qed

lemma schema_ok_advertise [shape_intros]:
  "schema_ok s \<Longrightarrow> schema_ok (agents_update (update_where (at_session sc sess) (advertise r h)) s)"
  by (rule schema_ok_agent_rewrite) (simp_all add: advertise_def agent_key_def)

text \<open>What a registration does to the rows: everyone else's are as they were.\<close>

lemma register_others:
  assumes "register quiet sc sess src now s = (s', Inr w)"
  shows "filter (\<lambda>r. \<not> at_session sc sess r) (agents s') = filter (\<lambda>r. \<not> at_session sc sess r) (agents s)"
proof (cases "row_at sc sess s")
  case (Some r)
  have "filter (\<lambda>r. \<not> at_session sc sess r) (update_where (at_session sc sess) f rs)
      = filter (\<lambda>r. \<not> at_session sc sess r) rs" if "\<And>x. at_session sc sess (f x) = at_session sc sess x" for f rs
    by (induction rs) (auto simp: that)
  then show ?thesis using Some assms by (auto simp: register_quiet refresh_def at_session_def)
next
  case None
  then show ?thesis using assms
    by (auto simp: register_quiet new_agent_def at_session_def split: option.splits)
qed

lemma register_mine:
  assumes "register quiet sc sess src now s = (s', Inr w)"
  shows "row_at sc sess s' = (case row_at sc sess s of
     Some r \<Rightarrow> Some (r\<lparr>ar_status := Active, ar_seen := unix now\<rparr>)
   | None \<Rightarrow> Some (new_agent sc sess w (unix now) src []))"
proof (cases "row_at sc sess s")
  case (Some r)
  then show ?thesis using assms row_atD [OF Some] by (auto simp: register_quiet row_at_refresh at_session_def)
next
  case None
  then have "s' = agents_update (\<lambda>rs. rs @ [new_agent sc sess w (unix now) src []]) s"
    using assms by (auto simp: register_quiet split: option.splits)
  then show ?thesis using None by (simp add: row_at_def find_append at_session_def new_agent_def)
qed

lemma register_relay_Inr:
  assumes "register_relay r now s = Inr (s', name)"
  obtains s1 source where "rr_kind r = kind_launcher" and "relay_verdict r (first_row_of (rr_session r) s) = None"
    and "register quiet (rr_scope r) (rr_session r) source now s = (s1, Inr name)"
    and "s' = agents_update (update_where (at_session (rr_scope r) (rr_session r))
           (advertise r (kept_secret r (first_row_of (rr_session r) s)))) s1"
  using assms that
  by (auto simp: register_relay_def Let_def split: if_splits option.splits prod.splits sum.splits)

text \<open>The row a registration is about: the caller's, or nobody's.\<close>

lemma relay_verdict_row:
  assumes "relay_verdict r (first_row_of (rr_session r) s) = None" and "schema_ok s"
  shows "row_at (rr_scope r) (rr_session r) s = first_row_of (rr_session r) s"
proof (cases "first_row_of (rr_session r) s")
  case None
  then have "row_at (rr_scope r) (rr_session r) s = None"
    by (auto simp: row_at_def find_None_iff at_session_def first_row_of_None)
  with None show ?thesis by simp
next
  case (Some p)
  then show ?thesis
    using assms first_row_ofD [OF Some] row_at_unique [OF assms(2), of p]
    by (auto simp: relay_verdict_def split: if_splits)
qed

lemma others_then_mine:
  assumes "filter (\<lambda>x. \<not> p x) xs = filter (\<lambda>x. \<not> p x) ys" and "x \<in> set xs"
  shows "p x \<or> x \<in> set ys"
  using arg_cong [OF assms(1), of set] assms(2) by auto

section \<open>Properties\<close>

text \<open>
  A launcher registration never rebinds an identity: it is granted to a launcher only, to a
  new session whose secret has the fixed shape or to the holder of the stored one; a session that
  had a row keeps its workspace, id, name, origin and secret; every other row is untouched; and
  afterwards the row carries the hash of the secret the caller presented.
\<close>

theorem register_relay_never_rebinds:
  assumes "schema_ok s" and "relay_single s" and "register_relay r now s = Inr (s', name)"
  shows "schema_ok s' \<and> relay_single s' \<and> rr_kind r = kind_launcher \<and>
    filter (\<lambda>x. \<not> at_session (rr_scope r) (rr_session r) x) (agents s')
      = filter (\<lambda>x. \<not> at_session (rr_scope r) (rr_session r) x) (agents s) \<and>
    (\<exists>q. row_at (rr_scope r) (rr_session r) s' = Some q \<and> ar_name q = name \<and> ar_kind q = kind_launcher \<and>
       ar_origin q = rr_origin r \<and>
       (rr_origin r = relay_origin \<longrightarrow> ar_secret q = sha256_hex (rr_secret r)) \<and>
       (case first_row_of (rr_session r) s of
          None \<Rightarrow> rr_origin r = relay_origin \<longrightarrow> valid_secret (rr_secret r)
        | Some p \<Rightarrow> ar_scope p = rr_scope r \<and> ar_origin p = rr_origin r \<and> ar_name p = name \<and>
            ar_id q = ar_id p \<and> ar_secret q = ar_secret p \<and> ar_registered q = ar_registered p))"
proof -
  let ?sc = "rr_scope r" and ?se = "rr_session r"
  let ?prior = "first_row_of ?se s"
  obtain s1 source where kind: "rr_kind r = kind_launcher" and v: "relay_verdict r ?prior = None"
    and reg: "register quiet ?sc ?se source now s = (s1, Inr name)"
    and s': "s' = agents_update (update_where (at_session ?sc ?se) (advertise r (kept_secret r ?prior))) s1"
    by (rule register_relay_Inr [OF assms(3)])
  have ok1: "schema_ok s1" using register_quiet_keeps [OF assms(1) reg] by simp
  then have ok: "schema_ok s'" unfolding s' by (rule schema_ok_advertise)
  have "at_session ?sc ?se (advertise r h x) = at_session ?sc ?se x" for h x
    by (simp add: at_session_def advertise_def)
  then have "filter (\<lambda>x. \<not> at_session ?sc ?se x) (update_where (at_session ?sc ?se) (advertise r h) rs)
      = filter (\<lambda>x. \<not> at_session ?sc ?se x) rs" for h rs
    by (induction rs) auto
  then have others: "filter (\<lambda>x. \<not> at_session ?sc ?se x) (agents s') = filter (\<lambda>x. \<not> at_session ?sc ?se x) (agents s)"
    using register_others [OF reg] by (simp add: s')
  define q where "q = advertise r (kept_secret r ?prior) (case ?prior of
     Some p \<Rightarrow> p\<lparr>ar_status := Active, ar_seen := unix now\<rparr> | None \<Rightarrow> new_agent ?sc ?se name (unix now) source [])"
  have mine: "row_at ?sc ?se s' = Some q"
    using register_mine [OF reg] relay_verdict_row [OF v assms(1)]
    by (auto simp: s' row_at_advertise q_def split: option.splits)
  have "row_at ?sc ?se s1 \<noteq> None \<and> (\<forall>x. row_at ?sc ?se s1 = Some x \<longrightarrow> ar_name x = name)"
    using reg by (auto elim!: register_row)
  then have "ar_name q = name"
    using mine by (auto simp: s' row_at_advertise advertise_def)
  moreover have "relay_single s'"
  proof -
    have "a = b" if a: "a \<in> set (agents s')" "ar_origin a = relay_origin"
      and b: "b \<in> set (agents s')" "ar_origin b = relay_origin" "ar_session a = ar_session b" for a b
    proof -
      have cover: "x = q \<or> x \<in> set (agents s) \<and> \<not> at_session ?sc ?se x" if "x \<in> set (agents s')" for x
      proof (cases "at_session ?sc ?se x")
        case True
        then have "row_at ?sc ?se s' = Some x" using that row_at_iff [OF ok] by (simp add: at_session_def)
        then show ?thesis using mine by simp
      next
        case False
        then show ?thesis using arg_cong [OF others, of set] that by auto
      qed
      have stranger: False if "x \<in> set (agents s)" "\<not> at_session ?sc ?se x" "ar_origin x = relay_origin"
        "ar_session x = ?se" "ar_origin q = relay_origin" for x
      proof -
        have "?prior = Some x" using relay_row_is_first [OF assms(2) that(1,3)] that(4) by simp
        then show False using v that(2,4) by (auto simp: relay_verdict_def at_session_def split: if_splits)
      qed
      have q: "ar_session q = ?se" using row_atD [OF mine] by simp
      show ?thesis
        using cover [OF a(1)] cover [OF b(1)] stranger a b q assms(2) unfolding relay_single_def by metis
    qed
    then show ?thesis by (auto simp: relay_single_def)
  qed
  ultimately show ?thesis
    using ok others mine kind v
    by (auto simp: q_def advertise_def kept_secret_def relay_verdict_def new_agent_def split: option.splits if_splits)
qed

definition broker_registration :: relay_registration where
  "broker_registration = \<lparr>rr_scope = ''host:PC'', rr_session = ''broker-1'', rr_kind = kind_launcher,
     rr_origin = relay_origin, rr_platform = ''windows'', rr_secret = replicate 64 CHR ''a'',
     rr_caps = Some [''provider.claude'', ''browser.chrome'']\<rparr>"

lemma empty_registers:
  "register quiet sc sess src now empty_store =
     (agents_update (\<lambda>rs. rs @ [new_agent sc sess (friendly_name sess) (unix now) src []]) empty_store,
      Inr (friendly_name sess))"
  by (simp add: register_quiet row_at_def empty_store_def candidates_def taken_def name_count_def)

theorem register_relay_never_rebinds_witness:
  "\<exists>s' name. register_relay broker_registration 0 empty_store = Inr (s', name) \<and>
     (\<exists>q. row_at ''host:PC'' ''broker-1'' s' = Some q \<and> ar_secret q = sha256_hex (replicate 64 CHR ''a''))"
proof -
  have single: "relay_single empty_store" by (simp add: relay_single_def empty_store_def)
  have first: "first_row_of ''broker-1'' empty_store = None" by (simp add: first_row_of_None empty_store_def)
  have "valid_secret (replicate 64 CHR ''a'')"
    by (simp add: valid_secret_def list_all_iff is_lower_hex_def is_digit_def byte_def)
  then obtain s' name where run: "register_relay broker_registration 0 empty_store = Inr (s', name)"
    by (auto simp: register_relay_def broker_registration_def kind_launcher_def kind_eyes_def first
        relay_verdict_def Let_def empty_registers)
  show ?thesis
    using run register_relay_never_rebinds [OF schema_ok_empty single run]
    by (auto simp: broker_registration_def relay_origin_def)
qed

text \<open>
  A relay session is authenticated exactly when it names a row that came in over the relay
  and the secret's hash is the one that row was created with; the identity answered is that row's
  own, and a local row sharing the session id never stands in for it.
\<close>

theorem verify_relay_secret_exact:
  assumes "relay_single s"
  shows "verify_relay_secret sess secret s = Inr i \<longleftrightarrow>
    (\<exists>r \<in> set (agents s). ar_session r = sess \<and> ar_origin r = relay_origin \<and>
       ar_secret r = sha256_hex secret \<and> i = identity_row r)"
proof
  assume "verify_relay_secret sess secret s = Inr i"
  then obtain r where "first_row_of sess s = Some r" "ar_origin r = relay_origin"
      "sha256_hex secret = ar_secret r" "i = identity_row r"
    by (auto simp: verify_relay_secret_def agent_by_session_def identity_row_def bind_sum_Inr_iff
        split: option.splits if_splits)
  then show "\<exists>r \<in> set (agents s). ar_session r = sess \<and> ar_origin r = relay_origin \<and>
       ar_secret r = sha256_hex secret \<and> i = identity_row r"
    using first_row_ofD by metis
next
  assume "\<exists>r \<in> set (agents s). ar_session r = sess \<and> ar_origin r = relay_origin \<and>
       ar_secret r = sha256_hex secret \<and> i = identity_row r"
  then show "verify_relay_secret sess secret s = Inr i"
    using relay_row_is_first [OF assms]
    by (auto simp: verify_relay_secret_def agent_by_session_def identity_row_def)
qed

definition broker_row :: agent_row where
  "broker_row = (plain_agent ''host:PC'' ''broker-1'' ''id-l'' ''keen-owl'' 100)\<lparr>ar_kind := kind_launcher,
     ar_origin := relay_origin, ar_secret := sha256_hex ''s'', ar_caps := caps_text (Some [''provider.claude'', ''browser.chrome''])\<rparr>"

definition broker_store :: store where
  "broker_store = office\<lparr>agents := agents office @ [broker_row]\<rparr>"

theorem verify_relay_secret_exact_witness:
  "verify_relay_secret ''broker-1'' ''s'' broker_store = Inr (identity_row broker_row)"
proof -
  have "relay_single broker_store"
    by (simp add: relay_single_def broker_store_def office_def plain_agent_def broker_row_def relay_origin_def)
  from verify_relay_secret_exact [OF this]
  show ?thesis by (simp add: broker_store_def office_def plain_agent_def broker_row_def relay_origin_def)
qed

end
