(* ===== verification/Eyes.thy ===== *)
theory Eyes
  imports Relay
begin

text \<open>
  Host eyes tasks, \<open>eyes.go\<close> and the child registration of \<open>relay.go\<close>: picking a broker,
  assigning a task, its lifecycle with the mail each move implies, progress samples, the
  deadline sweep and the redelivery queue. Every function of the code that opens a transaction
  is one step here, with no effect when it fails. Random hex is an argument.
\<close>

section \<open>Bounds\<close>

definition launcher_window :: time where "launcher_window = seconds 30"
definition deadline_default :: int where "deadline_default = 300"
definition deadline_max :: int where "deadline_max = 1800"
definition progress_interval :: int where "progress_interval = 120"
definition max_tool_bytes :: nat where "max_tool_bytes = 64"
definition max_turns :: int where "max_turns = 100000"
definition heartbeat_stale_s :: int where "heartbeat_stale_s = 120"
definition task_list_max :: int where "task_list_max = 50"

definition eyes_deadline :: "int \<Rightarrow> int" where
  "eyes_deadline d = (if d \<le> 0 then deadline_default else if deadline_max < d then deadline_max else d)"

definition eyes_task_limit :: "int \<Rightarrow> int" where
  "eyes_task_limit n = (if n \<le> 0 \<or> task_list_max < n then task_list_max else n)"

section \<open>Capabilities\<close>

definition provider_order :: "string list" where
  "provider_order = [''claude'', ''codex'', ''grok'']"

definition provider_cap :: "string \<Rightarrow> string" where
  "provider_cap r = dquote # ''provider.'' @ r @ [dquote]"

definition browser_cap :: string where
  "browser_cap = dquote # ''browser.chrome'' @ [dquote]"

definition default_provider :: "string \<Rightarrow> string" where
  "default_provider caps = (case List.find (\<lambda>p. contains (provider_cap p) caps) provider_order of
     Some p \<Rightarrow> p | None \<Rightarrow> [])"

definition runtime_char :: "char \<Rightarrow> bool" where
  "runtime_char c \<longleftrightarrow> is_lower c \<or> is_digit c \<or> c = CHR ''.'' \<or> c = CHR ''_'' \<or> c = CHR ''-''"

definition valid_runtime :: "string \<Rightarrow> bool" where
  "valid_runtime r \<longleftrightarrow> length r \<le> 32 \<and> list_all runtime_char r"

definition provider_match :: "string \<Rightarrow> string \<Rightarrow> bool" where
  "provider_match runtime caps \<longleftrightarrow>
     list_ex (\<lambda>r. contains (provider_cap r) caps) (if runtime = [] then provider_order else [runtime])"

section \<open>Picking a broker\<close>

definition task_holds_broker :: "eyes_row \<Rightarrow> bool" where
  "task_holds_broker t \<longleftrightarrow> et_state t = Queued \<or> et_state t = Accepted \<or> (et_state t = Cancelled \<and> \<not> et_acked t)"

definition unsettled :: "eyes_row \<Rightarrow> bool" where
  "unsettled t \<longleftrightarrow> et_state t = Queued \<or> et_state t = Accepted \<or> (et_state t = Cancelled \<and> \<not> et_acked t)"

definition broker_busy :: "string \<Rightarrow> store \<Rightarrow> bool" where
  "broker_busy sess s = list_ex (\<lambda>t. et_launcher t = sess \<and> task_holds_broker t) (eyes_tasks s)"

definition polling_launcher :: "time \<Rightarrow> agent_row \<Rightarrow> bool" where
  "polling_launcher now a \<longleftrightarrow> ar_kind a = kind_launcher \<and> ar_origin a = relay_origin \<and>
     take (length host_scope_prefix) (ar_scope a) = host_scope_prefix \<and> ar_status a \<noteq> Gone \<and>
     unix (now - launcher_window) \<le> ar_seen a"

definition eyes_match :: "string \<Rightarrow> agent_row \<Rightarrow> bool" where
  "eyes_match runtime a \<longleftrightarrow> provider_match runtime (ar_caps a) \<and> contains browser_cap (ar_caps a)"

definition pick_launcher :: "string \<Rightarrow> time \<Rightarrow> store \<Rightarrow> err + agent_row" where
  "pick_launcher runtime now s =
     (case first_by (\<lambda>a. (\<not> eyes_match runtime a, broker_busy (ar_session a) s, - ar_seen a))
         (filter (polling_launcher now) (agents s)) of
        None \<Rightarrow> Inl ErrNoLauncher
      | Some a \<Rightarrow>
          if \<not> eyes_match runtime a then Inl ErrNoProvider
          else if broker_busy (ar_session a) s then Inl ErrEyesBusy
          else Inr a)"

section \<open>Assigning a task\<close>

record eyes_request =
  rq_requester :: agent_ref
  rq_runtime :: string
  rq_brief :: string
  rq_deadline :: int

definition sender_key :: "agent_ref \<Rightarrow> string" where
  "sender_key r = (if ref_id r \<noteq> [] then ref_id r else ref_name r)"

definition new_task :: "eyes_request \<Rightarrow> string \<Rightarrow> string \<Rightarrow> agent_row \<Rightarrow> int \<Rightarrow> eyes_row" where
  "new_task req task runtime l at =
     \<lparr>et_task = task, et_req_scope = ref_scope (rq_requester req), et_req_agent = ref_id (rq_requester req),
      et_launcher = ar_session l, et_runtime = runtime, et_state = Queued, et_created = at, et_updated = at,
      et_deadline = eyes_deadline (rq_deadline req), et_acked = False, et_launcher_scope = ar_scope l,
      et_progress = [], et_heartbeat = 0\<rparr>"

definition launch_body :: "eyes_request \<Rightarrow> string \<Rightarrow> string \<Rightarrow> string" where
  "launch_body req task runtime = json_print (launch_json
     \<lparr>lm_type = task_launch_type, lm_task = task, lm_runtime = runtime,
      lm_scope = ref_scope (rq_requester req), lm_brief = rq_brief req, lm_reply = rq_requester req,
      lm_deadline = eyes_deadline (rq_deadline req)\<rparr>)"

definition launch_delivery :: "eyes_request \<Rightarrow> string \<Rightarrow> string \<Rightarrow> agent_row \<Rightarrow> delivery" where
  "launch_delivery req task runtime l =
     \<lparr>dv_from_scope = ref_scope (rq_requester req), dv_from_name = sender_key (rq_requester req),
      dv_from = no_sender, dv_to_scope = ar_scope l, dv_to_name = ar_id l,
      dv_body = launch_body req task runtime, dv_reply = Some (rq_requester req), dv_task = task\<rparr>"

definition row_ref :: "agent_row \<Rightarrow> agent_ref" where
  "row_ref r = \<lparr>ref_name = ar_name r, ref_id = ar_id r, ref_scope = ar_scope r\<rparr>"

definition err_task_twice :: err where
  "err_task_twice = ErrText ''UNIQUE constraint failed: eyes_tasks.task_id''"

definition assign_eyes_task :: "eyes_request \<Rightarrow> string \<Rightarrow> time \<Rightarrow> store
    \<Rightarrow> err + store \<times> eyes_row \<times> agent_ref" where
  "assign_eyes_task req suffix now s =
     (if \<not> valid_runtime (rq_runtime req) then
        Inl (ErrWrapped ErrBadRuntime ('': '' @ go_quote (rq_runtime req)))
      else bind_sum (pick_launcher (rq_runtime req) now s) (\<lambda>l.
        let runtime = (if rq_runtime req = [] then default_provider (ar_caps l) else rq_runtime req) in
        if runtime = [] then Inl ErrNoProvider
        else
          (let task = task_prefix @ suffix; t = new_task req task runtime l (unix now) in
           case insert_row et_task t (eyes_tasks s) of
             None \<Rightarrow> Inl err_task_twice
           | Some ts \<Rightarrow>
               bind_sum (send_to_scope (launch_delivery req task runtime l) now (s\<lparr>eyes_tasks := ts\<rparr>))
                 (\<lambda>s'. Inr (s', t, row_ref l)))))"

definition eyes_task :: "string \<Rightarrow> store \<Rightarrow> err + eyes_row" where
  "eyes_task task s = (case List.find (\<lambda>t. et_task t = task) (eyes_tasks s) of
     None \<Rightarrow> Inl ErrUnknownTask | Some t \<Rightarrow> Inr t)"

section \<open>Redelivery\<close>

definition launcher_mail :: "bool \<Rightarrow> eyes_row \<Rightarrow> store \<Rightarrow> message_row list" where
  "launcher_mail latest t s = (case first_row_of (et_launcher t) s of
     None \<Rightarrow> []
   | Some l \<Rightarrow>
       (let ids = map mr_id (filter (\<lambda>m. mr_task m = et_task t \<and> mr_scope m = ar_scope l \<and> mr_to m = Some (ar_id l))
              (messages s)) in
        case ids of
          [] \<Rightarrow> []
        | i # is \<Rightarrow> filter (\<lambda>m. mr_id m = (if latest then fold max is i else fold min is i)) (messages s)))"

definition pending_task_mail :: "string \<Rightarrow> eyes_state \<Rightarrow> bool \<Rightarrow> store \<Rightarrow> message list" where
  "pending_task_mail sess st latest s = map (\<lambda>(t, mw). message_of mw)
     (sort_key (\<lambda>(t, mw). (et_created t, mr_id (fst mw)))
       (concat (map (\<lambda>t. concat (map (\<lambda>m. map (\<lambda>w. (t, m, w)) (sender_names m s)) (launcher_mail latest t s)))
         (filter (\<lambda>t. et_launcher t = sess \<and> et_state t = st \<and> \<not> et_acked t) (eyes_tasks s)))))"

definition pending_launches :: "string \<Rightarrow> store \<Rightarrow> message list" where
  "pending_launches sess = pending_task_mail sess Queued False"

definition pending_cancels :: "string \<Rightarrow> store \<Rightarrow> message list" where
  "pending_cancels sess = pending_task_mail sess Cancelled True"

section \<open>Progress\<close>

record eyes_progress =
  ep_turns :: int
  ep_tool :: string
  ep_mailed_at :: int
  ep_mailed_turns :: int

definition zero_eyes_progress :: eyes_progress where
  "zero_eyes_progress = \<lparr>ep_turns = 0, ep_tool = [], ep_mailed_at = 0, ep_mailed_turns = 0\<rparr>"

definition eyes_progress_fields :: "(string \<times> eyes_progress decoder) list" where
  "eyes_progress_fields = [(''turns'', put_int (\<lambda>i. ep_turns_update (\<lambda>_. i))),
     (''tool'', put_text (\<lambda>t. ep_tool_update (\<lambda>_. t))),
     (''mailed_at'', put_int (\<lambda>i. ep_mailed_at_update (\<lambda>_. i))),
     (''mailed_turns'', put_int (\<lambda>i. ep_mailed_turns_update (\<lambda>_. i)))]"

definition eyes_progress_json :: "eyes_progress \<Rightarrow> json" where
  "eyes_progress_json p = JObj (opt_int ''turns'' (ep_turns p) @ opt_text ''tool'' (ep_tool p)
     @ opt_int ''mailed_at'' (ep_mailed_at p) @ opt_int ''mailed_turns'' (ep_mailed_turns p))"

definition decode_eyes_progress :: "string \<Rightarrow> eyes_progress" where
  "decode_eyes_progress raw = (if raw = [] then zero_eyes_progress
     else fst (unmarshal_into (dec_struct False eyes_progress_fields) zero_eyes_progress raw))"

definition tool_char :: "char \<Rightarrow> bool" where
  "tool_char c \<longleftrightarrow> is_lower c \<or> is_upper c \<or> is_digit c \<or>
     c = CHR ''_'' \<or> c = CHR ''-'' \<or> c = CHR ''.'' \<or> c = CHR '':''"

definition clean_eyes_tool :: "string \<Rightarrow> string" where
  "clean_eyes_tool name = (let t = take max_tool_bytes name in if list_all tool_char t then t else [])"

definition next_eyes_progress :: "eyes_row \<Rightarrow> eyes_progress \<Rightarrow> int \<Rightarrow> eyes_progress \<times> bool" where
  "next_eyes_progress t p at =
     (let prev = decode_eyes_progress (et_progress t);
          turns = min (max (ep_turns p) (ep_turns prev)) max_turns;
          named = clean_eyes_tool (ep_tool p);
          tool = (if named = [] then clean_eyes_tool (ep_tool prev) else named);
          due = (ep_mailed_at prev \<noteq> 0 \<and> progress_interval \<le> at - ep_mailed_at prev \<and> ep_mailed_turns prev < turns) in
      (if due \<or> ep_mailed_at prev = 0
       then \<lparr>ep_turns = turns, ep_tool = tool, ep_mailed_at = at, ep_mailed_turns = turns\<rparr>
       else \<lparr>ep_turns = turns, ep_tool = tool, ep_mailed_at = ep_mailed_at prev,
              ep_mailed_turns = ep_mailed_turns prev\<rparr>, due))"

definition eyes_session :: "string \<Rightarrow> string" where
  "eyes_session task = ''eyes-'' @ task"

definition write_eyes_progress :: "eyes_row \<Rightarrow> eyes_progress \<Rightarrow> int \<Rightarrow> store \<Rightarrow> store" where
  "write_eyes_progress t p at s =
     agents_update (update_where (\<lambda>r. at_session (et_req_scope t) (eyes_session (et_task t)) r \<and> ar_status r \<noteq> Gone)
       (heard_from at))
     (eyes_tasks_update (update_where (\<lambda>x. et_task x = et_task t)
       (\<lambda>x. x\<lparr>et_progress := json_print (eyes_progress_json p), et_heartbeat := at\<rparr>)) s)"

section \<open>Roles\<close>

datatype task_side = RoleLauncher | RoleChild | RoleRequester | RoleSystem

record eyes_actor =
  ea_scope :: string
  ea_session :: string
  ea_origin :: string
  ea_ref :: agent_ref
  ea_system :: bool

definition the_sweep :: eyes_actor where
  "the_sweep = \<lparr>ea_scope = [], ea_session = [], ea_origin = [], ea_ref = empty_ref, ea_system = True\<rparr>"

definition eyes_edges :: "(eyes_state \<times> (task_side \<times> eyes_state list) list) list" where
  "eyes_edges = [(Accepted, [(RoleLauncher, [Queued])]),
     (Done, [(RoleChild, [Accepted])]),
     (Failed, [(RoleChild, [Queued, Accepted]), (RoleLauncher, [Queued]), (RoleSystem, [Queued, Accepted])]),
     (Cancelled, [(RoleRequester, [Queued, Accepted])])]"

text \<open>The target of a move is text; only the four targets of the table are states to move to.\<close>

definition edge_target :: "string \<Rightarrow> (eyes_state \<times> (task_side \<times> eyes_state list) list) option" where
  "edge_target to = List.find (\<lambda>e. eyes_state_text (fst e) = to) eyes_edges"

definition relay_kind :: "string \<Rightarrow> string \<Rightarrow> string \<Rightarrow> store \<Rightarrow> bool" where
  "relay_kind sc sess kind s = (case agent_at sc sess s of
     Inl e \<Rightarrow> False | Inr i \<Rightarrow> ri_origin i = relay_origin \<and> ri_kind i = kind)"

definition parent_id :: "string \<Rightarrow> string \<Rightarrow> store \<Rightarrow> string option" where
  "parent_id sc aid s =
     (case concat (map (\<lambda>c. map ar_id (filter (\<lambda>p. ar_parent c \<noteq> [] \<and> ar_scope p = ar_scope c \<and> ar_session p = ar_parent c)
            (agents s))) (filter (\<lambda>c. ar_scope c = sc \<and> ar_id c = aid) (agents s))) of
        [] \<Rightarrow> None | p # _ \<Rightarrow> Some p)"

definition acts_for :: "string \<Rightarrow> string \<Rightarrow> string \<Rightarrow> store \<Rightarrow> bool" where
  "acts_for sc aid owner s \<longleftrightarrow> aid = owner \<or> parent_id sc aid s = Some owner"

definition eyes_role :: "eyes_row \<Rightarrow> eyes_actor \<Rightarrow> store \<Rightarrow> task_side option" where
  "eyes_role t a s =
     (if ea_system a then Some RoleSystem
      else if ea_origin a = relay_origin \<and> ea_session a = eyes_session (et_task t) \<and> ea_scope a = et_req_scope t then
        (if relay_kind (ea_scope a) (ea_session a) kind_eyes s then Some RoleChild else None)
      else if ea_origin a = relay_origin \<and> ea_session a = et_launcher t \<and> ea_scope a = et_launcher_scope t then
        (if relay_kind (ea_scope a) (ea_session a) kind_launcher s then Some RoleLauncher else None)
      else if ea_origin a = [] \<and> ref_scope (ea_ref a) = et_req_scope t \<and>
          acts_for (et_req_scope t) (ref_id (ea_ref a)) (et_req_agent t) s then Some RoleRequester
      else None)"

definition acks_cancel :: "eyes_row \<Rightarrow> task_side \<Rightarrow> eyes_state \<Rightarrow> store \<Rightarrow> bool" where
  "acks_cancel t role to s = (case role of
     RoleChild \<Rightarrow> to = Done \<or> to = Failed
   | RoleLauncher \<Rightarrow> to = Failed \<and> \<not> relay_kind (et_req_scope t) (eyes_session (et_task t)) kind_eyes s
   | RoleSystem \<Rightarrow> to = Failed
   | RoleRequester \<Rightarrow> False)"

section \<open>The mail of a move\<close>

definition task_voice :: "eyes_row \<Rightarrow> eyes_actor \<Rightarrow> store \<Rightarrow> err + relay_identity" where
  "task_voice t a s =
     (if ea_session a \<noteq> [] then agent_at (ea_scope a) (ea_session a) s
      else case agent_at (et_req_scope t) (eyes_session (et_task t)) s of
        Inl e \<Rightarrow> if err_is e ErrNoSession then agent_at (et_launcher_scope t) (et_launcher t) s else Inl e
      | Inr i \<Rightarrow> Inr i)"

definition cancel_delivery :: "eyes_row \<Rightarrow> relay_identity \<Rightarrow> sender \<Rightarrow> delivery" where
  "cancel_delivery t l from =
     \<lparr>dv_from_scope = [], dv_from_name = [], dv_from = from, dv_to_scope = ri_scope l, dv_to_name = ri_id l,
      dv_body = json_print (cancel_json \<lparr>cm_type = task_cancel_type, cm_task = et_task t\<rparr>),
      dv_reply = Some (sn_ref from), dv_task = et_task t\<rparr>"

definition report_delivery :: "eyes_row \<Rightarrow> relay_identity \<Rightarrow> string \<Rightarrow> delivery" where
  "report_delivery t voice msg =
     (let ref = \<lparr>ref_name = ri_name voice, ref_id = ri_id voice, ref_scope = ri_scope voice\<rparr> in
      \<lparr>dv_from_scope = [], dv_from_name = [], dv_from = \<lparr>sn_ref = ref, sn_kind = ri_kind voice\<rparr>,
       dv_to_scope = et_req_scope t, dv_to_name = et_req_agent t, dv_body = msg,
       dv_reply = Some ref, dv_task = et_task t\<rparr>)"

definition eyes_mail :: "eyes_row \<Rightarrow> task_side \<Rightarrow> eyes_actor \<Rightarrow> string \<Rightarrow> store \<Rightarrow> err + delivery option" where
  "eyes_mail t role a msg s =
     (if role = RoleRequester then
        (case agent_at (et_launcher_scope t) (et_launcher t) s of
           Inl e \<Rightarrow> if err_is e ErrNoSession then Inr None else Inl e
         | Inr l \<Rightarrow>
             bind_sum (resolve_sender (et_req_scope t) (et_req_agent t) s)
               (\<lambda>from. Inr (Some (cancel_delivery t l from))))
      else
        (case bind_sum (task_voice t a s) (\<lambda>v.
               if role = RoleSystem then
                 bind_sum (resolve_agent (et_req_scope t) (et_req_agent t) s) (\<lambda>_. Inr v)
               else Inr v) of
           Inl e \<Rightarrow> if role = RoleSystem \<and> (err_is e ErrNoSession \<or> err_is e ErrNoAgent) then Inr None else Inl e
         | Inr v \<Rightarrow> Inr (Some (report_delivery t v msg))))"

section \<open>Moves\<close>

definition err_not_a_state :: "string \<Rightarrow> err" where
  "err_not_a_state to = ErrWrapped ErrBadTransition ('': '' @ go_quote to @ '' is not a task state'')"

definition err_bad_move :: "eyes_state \<Rightarrow> eyes_state \<Rightarrow> err" where
  "err_bad_move st to = ErrWrapped ErrBadTransition ('': '' @ eyes_state_text st @ '' -> '' @ eyes_state_text to)"

definition set_eyes :: "string \<Rightarrow> (eyes_row \<Rightarrow> eyes_row) \<Rightarrow> store \<Rightarrow> store" where
  "set_eyes task f = eyes_tasks_update (update_where (\<lambda>t. et_task t = task) f)"

definition deliver_if :: "delivery option \<Rightarrow> time \<Rightarrow> store \<Rightarrow> err + store" where
  "deliver_if d now s = (case d of None \<Rightarrow> Inr s | Some m \<Rightarrow> send_to_scope m now s)"

definition move_eyes_task :: "string \<Rightarrow> string \<Rightarrow> eyes_actor \<Rightarrow> string \<Rightarrow> time \<Rightarrow> store
    \<Rightarrow> err + store \<times> eyes_row \<times> bool" where
  "move_eyes_task task to a msg now s =
     (case edge_target to of
        None \<Rightarrow> Inl (err_not_a_state to)
      | Some (target, edge) \<Rightarrow>
          bind_sum (eyes_task task s) (\<lambda>t.
            case eyes_role t a s of
              None \<Rightarrow> Inl ErrNotYourTask
            | Some role \<Rightarrow>
                (case map_of edge role of
                   None \<Rightarrow> Inl ErrNotYourTask
                 | Some froms \<Rightarrow>
                     if et_state t = target then Inr (s, t, False)
                     else if et_state t = Cancelled \<and> acks_cancel t role target s then
                       Inr (set_eyes task (\<lambda>x. x\<lparr>et_acked := True\<rparr>) s, t, False)
                     else if et_state t \<notin> set froms then Inl (err_bad_move (et_state t) target)
                     else
                       bind_sum (eyes_mail t role a msg s) (\<lambda>d.
                         bind_sum (deliver_if d now (set_eyes task
                             (\<lambda>x. x\<lparr>et_state := target, et_updated := unix now\<rparr>) s)) (\<lambda>s'.
                           Inr (s', t\<lparr>et_state := target, et_updated := unix now\<rparr>, True))))))"

definition transition_eyes_task :: "string \<Rightarrow> eyes_actor \<Rightarrow> string \<Rightarrow> string \<Rightarrow> time \<Rightarrow> store
    \<Rightarrow> err + store \<times> eyes_row \<times> bool" where
  "transition_eyes_task task a to body = move_eyes_task task to a body"

definition cancel_eyes_task :: "string \<Rightarrow> eyes_actor \<Rightarrow> time \<Rightarrow> store \<Rightarrow> err + store \<times> eyes_row" where
  "cancel_eyes_task task a now s =
     bind_sum (move_eyes_task task ''cancelled'' a [] now s) (\<lambda>(s', t, _). Inr (s', t))"

section \<open>Recording progress\<close>

definition progress_body :: "eyes_row \<Rightarrow> eyes_progress \<Rightarrow> int \<Rightarrow> string" where
  "progress_body t p at = json_print (progress_json
     \<lparr>pm_type = task_progress_type, pm_task = et_task t, pm_turns = ep_turns p, pm_tool = ep_tool p,
      pm_elapsed = at - et_created t\<rparr>)"

definition record_eyes_progress :: "string \<Rightarrow> eyes_actor \<Rightarrow> eyes_progress \<Rightarrow> time \<Rightarrow> store
    \<Rightarrow> err + store \<times> eyes_progress \<times> bool" where
  "record_eyes_progress task a p now s =
     bind_sum (eyes_task task s) (\<lambda>t.
       case eyes_role t a s of
         Some role \<Rightarrow>
           if role \<noteq> RoleChild \<and> role \<noteq> RoleLauncher then Inl ErrNotYourTask
           else if et_state t \<noteq> Queued \<and> et_state t \<noteq> Accepted then
             Inl (ErrWrapped ErrTaskNotLive ('': '' @ eyes_state_text (et_state t)))
           else
             (let at = unix now; (next, due) = next_eyes_progress t p at;
                  s1 = write_eyes_progress t next at s in
              if due then
                bind_sum (eyes_mail t role a (progress_body t next at) s1) (\<lambda>d.
                  bind_sum (deliver_if d now s1) (\<lambda>s'. Inr (s', next, due)))
              else Inr (s1, next, due))
       | None \<Rightarrow> Inl ErrNotYourTask)"

section \<open>The deadline sweep\<close>

definition overdue :: "int \<Rightarrow> eyes_row \<Rightarrow> bool" where
  "overdue at t \<longleftrightarrow> task_holds_broker t \<and> et_created t + et_deadline t < at"

definition expired_tasks :: "time \<Rightarrow> store \<Rightarrow> string list" where
  "expired_tasks now s = map et_task (sort_key et_created (filter (overdue (unix now)) (eyes_tasks s)))"

definition deadline_body :: "string \<Rightarrow> string" where
  "deadline_body task = json_print (failed_json
     \<lparr>fm_type = task_failed_type, fm_task = task, fm_error = ''deadline exceeded''\<rparr>)"

type_synonym sweep = "store \<times> nat \<times> err option"

definition expire_one :: "time \<Rightarrow> string \<Rightarrow> sweep \<Rightarrow> sweep" where
  "expire_one now task sw = (case sw of (s, n, lst) \<Rightarrow>
     (case move_eyes_task task ''failed'' the_sweep (deadline_body task) now s of
        Inl e \<Rightarrow>
          if err_is e ErrBadTransition \<or> err_is e ErrUnknownTask then (s, n, lst) else (s, n, Some e)
      | Inr (s', t, moved) \<Rightarrow>
          (s', if moved \<or> et_state t = Cancelled then Suc n else n, lst)))"

definition expire_eyes_tasks :: "time \<Rightarrow> store \<Rightarrow> sweep" where
  "expire_eyes_tasks now s = fold (expire_one now) (expired_tasks now s) (s, 0, None)"

section \<open>The child of a task\<close>

definition reissue_eyes_child :: "string \<Rightarrow> string \<Rightarrow> string \<Rightarrow> string \<Rightarrow> time \<Rightarrow> store
    \<Rightarrow> err + store \<times> string \<times> string" where
  "reissue_eyes_child task launcher lsecret fresh_secret now s =
     bind_sum (eyes_task task s) (\<lambda>t.
       if et_launcher t \<noteq> launcher then Inl ErrNotYourTask
       else if \<not> unsettled t then Inl ErrTaskNotLive
       else case agent_at (et_launcher_scope t) launcher s of
         Inl e \<Rightarrow> Inl (if err_is e ErrNoSession then ErrForeignSession else e)
       | Inr l \<Rightarrow>
           if ri_origin l \<noteq> relay_origin \<or> ri_kind l \<noteq> kind_launcher then Inl ErrForeignSession
           else if sha256_hex lsecret \<noteq> ri_secret l then Inl ErrRelayAuth
           else
             (let session = eyes_session task; sc = et_req_scope t in
              if 0 < count_where (\<lambda>r. ar_session r = session \<and>
                  \<not> (ar_scope r = sc \<and> ar_origin r = relay_origin \<and> ar_kind r = kind_eyes)) (agents s)
              then Inl ErrForeignSession
              else case register quiet sc session ''relay'' now s of
                (_, Inl e) \<Rightarrow> Inl e
              | (s1, Inr name) \<Rightarrow>
                  Inr (agents_update (update_where (at_session sc session)
                      (\<lambda>r. r\<lparr>ar_kind := kind_eyes, ar_origin := relay_origin, ar_secret := sha256_hex fresh_secret\<rparr>)) s1,
                    name, fresh_secret)))"

section \<open>The ledger as a reader sees it\<close>

record eyes_filter =
  ef_scope :: string
  ef_owner :: string
  ef_limit :: int

record eyes_view =
  vw_task :: eyes_row
  vw_elapsed :: int
  vw_remaining :: int
  vw_progress :: eyes_progress
  vw_heartbeat_age :: int
  vw_overdue :: bool
  vw_stale :: bool

definition eyes_view_of :: "int \<Rightarrow> eyes_row \<Rightarrow> eyes_view" where
  "eyes_view_of at t =
     (let alive = unsettled t;
          finish = (if alive then at else et_updated t);
          elapsed = finish - et_created t;
          left = et_deadline t - elapsed;
          quiet_since = (if 0 < et_heartbeat t then et_heartbeat t else et_created t) in
      \<lparr>vw_task = t, vw_elapsed = elapsed, vw_remaining = (if alive then left else max left 0),
       vw_progress = decode_eyes_progress (et_progress t),
       vw_heartbeat_age = (if 0 < et_heartbeat t then max (finish - et_heartbeat t) 0 else 0),
       vw_overdue = (alive \<and> left < 0),
       vw_stale = (alive \<and> heartbeat_stale_s \<le> finish - quiet_since)\<rparr>)"

definition eyes_visible :: "eyes_filter \<Rightarrow> store \<Rightarrow> eyes_row \<Rightarrow> bool" where
  "eyes_visible f s t \<longleftrightarrow>
     (ef_scope f \<noteq> [] \<longrightarrow> et_req_scope t = ef_scope f) \<and>
     (ef_owner f \<noteq> [] \<longrightarrow> et_req_agent t = ef_owner f \<or>
        parent_id (et_req_scope t) (ef_owner f) s = Some (et_req_agent t))"

definition list_eyes_tasks :: "eyes_filter \<Rightarrow> time \<Rightarrow> store \<Rightarrow> eyes_view list" where
  "list_eyes_tasks f now s = map (eyes_view_of (unix now)) (take (nat (eyes_task_limit (ef_limit f)))
     (sort_key (\<lambda>t. (\<not> task_holds_broker t, - et_created t, et_task t))
       (filter (eyes_visible f s) (eyes_tasks s))))"

end
