(* ===== verification/EyesLaws.thy ===== *)
theory EyesLaws
  imports Eyes
begin

text \<open>
  What the host eyes ledger guarantees: which broker is picked, that no broker ever holds two
  tasks, who may move a task and along which edges, that a state change and its mail are one
  step, what the deadline sweep leaves behind, and what a progress sample may carry.
\<close>

section \<open>Picking\<close>

lemma holds_unsettled: "task_holds_broker t = unsettled t"
  by (simp add: task_holds_broker_def unsettled_def)

lemma pick_launcher_Inr:
  assumes "pick_launcher runtime now s = Inr a"
  shows "a \<in> set (agents s)" and "polling_launcher now a" and "eyes_match runtime a"
    and "\<not> broker_busy (ar_session a) s"
  using assms by (auto simp: pick_launcher_def split: option.splits if_splits dest: first_by_SomeD(1))

section \<open>One row per task\<close>

lemma eyes_taskD: "eyes_task task s = Inr t \<Longrightarrow> t \<in> set (eyes_tasks s) \<and> et_task t = task"
  by (auto simp: eyes_task_def split: option.splits dest: find_SomeD)

lemma eyes_task_iff:
  assumes "schema_ok s"
  shows "eyes_task task s = Inr t \<longleftrightarrow> t \<in> set (eyes_tasks s) \<and> et_task t = task"
proof
  assume t: "t \<in> set (eyes_tasks s) \<and> et_task t = task"
  then have "List.find (\<lambda>q. et_task q = et_task t) (eyes_tasks s) = Some t"
    using assms by (auto simp: schema_ok_def intro: find_unique_key)
  then show "eyes_task task s = Inr t" using t by (simp add: eyes_task_def)
qed (rule eyes_taskD)

lemma schema_ok_eyes:
  "schema_ok s \<Longrightarrow> unique_key et_task (f (eyes_tasks s)) \<Longrightarrow> schema_ok (eyes_tasks_update f s)"
  by (simp add: schema_ok_def)

lemma schema_ok_set_eyes [shape_intros]:
  "schema_ok s \<Longrightarrow> (\<And>t. et_task (f t) = et_task t) \<Longrightarrow> schema_ok (set_eyes task f s)"
  unfolding set_eyes_def by (rule schema_ok_eyes) (auto simp: schema_ok_def intro: unique_key_update)

lemma set_eyes_frame [simp]:
  "agents (set_eyes task f s) = agents s" "messages (set_eyes task f s) = messages s"
  "deliveries (set_eyes task f s) = deliveries s" "next_message (set_eyes task f s) = next_message s"
  "claims (set_eyes task f s) = claims s"
  by (simp_all add: set_eyes_def)

lemma deliver_if_frame:
  assumes "deliver_if d now s = Inr s'"
  shows "agents s' = agents s" and "eyes_tasks s' = eyes_tasks s" and "claims s' = claims s"
    and "schema_ok s \<Longrightarrow> schema_ok s'"
  using assms by (auto simp: deliver_if_def send_frame split: option.splits intro: schema_ok_send)

section \<open>Moves taken apart\<close>

lemma edge_target_Some:
  "edge_target to = Some e \<Longrightarrow> e \<in> set eyes_edges \<and> eyes_state_text (fst e) = to"
  by (auto simp: edge_target_def dest: find_SomeD)

lemma move_eyes_Inr:
  assumes "move_eyes_task task to a msg now s = Inr (s', t', moved)"
  obtains (same) target edge t role froms where "edge_target to = Some (target, edge)"
      and "eyes_task task s = Inr t" and "eyes_role t a s = Some role" and "map_of edge role = Some froms"
      and "et_state t = target" and "s' = s" and "t' = t" and "\<not> moved"
  | (acked) target edge t role froms where "edge_target to = Some (target, edge)"
      and "eyes_task task s = Inr t" and "eyes_role t a s = Some role" and "map_of edge role = Some froms"
      and "et_state t = Cancelled" and "target \<noteq> Cancelled" and "acks_cancel t role target s"
      and "s' = set_eyes task (\<lambda>x. x\<lparr>et_acked := True\<rparr>) s" and "t' = t" and "\<not> moved"
  | (moves) target edge t role froms d where "edge_target to = Some (target, edge)"
      and "eyes_task task s = Inr t" and "eyes_role t a s = Some role" and "map_of edge role = Some froms"
      and "et_state t \<in> set froms" and "eyes_mail t role a msg s = Inr d"
      and "deliver_if d now (set_eyes task (\<lambda>x. x\<lparr>et_state := target, et_updated := unix now\<rparr>) s) = Inr s'"
      and "t' = t\<lparr>et_state := target, et_updated := unix now\<rparr>" and "moved"
proof -
  obtain target edge where e: "edge_target to = Some (target, edge)"
    using assms by (cases "edge_target to") (auto simp: move_eyes_task_def)
  obtain t where t: "eyes_task task s = Inr t"
    using assms by (cases "eyes_task task s") (auto simp: move_eyes_task_def e)
  obtain role where r: "eyes_role t a s = Some role"
    using assms by (cases "eyes_role t a s") (auto simp: move_eyes_task_def e t)
  obtain froms where f: "map_of edge role = Some froms"
    using assms by (cases "map_of edge role") (auto simp: move_eyes_task_def e t r)
  let ?s1 = "set_eyes task (\<lambda>x. x\<lparr>et_state := target, et_updated := unix now\<rparr>) s"
  let ?t1 = "t\<lparr>et_state := target, et_updated := unix now\<rparr>"
  have run: "(if et_state t = target then Inr (s, t, False)
      else if et_state t = Cancelled \<and> acks_cancel t role target s then
        Inr (set_eyes task (\<lambda>x. x\<lparr>et_acked := True\<rparr>) s, t, False)
      else if et_state t \<notin> set froms then Inl (err_bad_move (et_state t) target)
      else bind_sum (eyes_mail t role a msg s) (\<lambda>d. bind_sum (deliver_if d now ?s1) (\<lambda>s'. Inr (s', ?t1, True))))
    = Inr (s', t', moved)"
    using assms by (simp only: move_eyes_task_def e t r f option.case prod.case bind_sum_simps)
  consider "et_state t = target"
    | "et_state t \<noteq> target" "et_state t = Cancelled" "acks_cancel t role target s"
    | "et_state t \<noteq> target" "\<not> (et_state t = Cancelled \<and> acks_cancel t role target s)"
    by blast
  then show thesis
  proof cases
    case 1
    then show thesis using run by (intro same [OF e t r f]) simp_all
  next
    case 2
    then show thesis using run by (intro acked [OF e t r f]) auto
  next
    case 3
    have inside: "et_state t \<in> set froms"
      using run 3 by (cases "et_state t \<in> set froms") auto
    have run2: "bind_sum (eyes_mail t role a msg s) (\<lambda>d. bind_sum (deliver_if d now ?s1) (\<lambda>s'. Inr (s', ?t1, True)))
        = Inr (s', t', moved)"
      using run 3 inside by auto
    obtain d where d: "eyes_mail t role a msg s = Inr d"
        "bind_sum (deliver_if d now ?s1) (\<lambda>s'. Inr (s', ?t1, True)) = Inr (s', t', moved)"
      using run2 by (rule bind_sum_InrE)
    obtain s2 where "deliver_if d now ?s1 = Inr s2" "Inr (s2, ?t1, True) = (Inr (s', t', moved) :: err + _)"
      using d(2) by (rule bind_sum_InrE)
    then show thesis using d(1) inside by (intro moves [OF e t r f]) simp_all
  qed
qed

text \<open>
  The moves the table allows, state by state: the shape of the lifecycle.
\<close>

definition lifecycle_move :: "eyes_state \<Rightarrow> eyes_state \<Rightarrow> bool" where
  "lifecycle_move st to \<longleftrightarrow>
     (st, to) \<in> {(Queued, Accepted), (Accepted, Done), (Queued, Failed), (Accepted, Failed),
       (Queued, Cancelled), (Accepted, Cancelled)}"

lemma edges_lifecycle:
  assumes "edge_target to = Some (target, edge)" and "map_of edge role = Some froms" and "st \<in> set froms"
  shows "lifecycle_move st target"
  using edge_target_Some [OF assms(1)] assms(2,3)
  by (auto simp: eyes_edges_def lifecycle_move_def split: if_splits)

text \<open>How the ledger row of a task may differ after one operation.\<close>

definition row_step :: "eyes_row \<Rightarrow> eyes_row \<Rightarrow> bool" where
  "row_step t t' \<longleftrightarrow> et_task t' = et_task t \<and> et_launcher t' = et_launcher t \<and>
     et_launcher_scope t' = et_launcher_scope t \<and> et_req_scope t' = et_req_scope t \<and>
     et_req_agent t' = et_req_agent t \<and> et_created t' = et_created t \<and> et_deadline t' = et_deadline t \<and>
     (et_state t' = et_state t \<or> lifecycle_move (et_state t) (et_state t')) \<and>
     (et_acked t \<longrightarrow> et_acked t') \<and>
     (et_acked t' \<and> \<not> et_acked t \<longrightarrow> et_state t = Cancelled)"

lemma row_step_refl [simp]: "row_step t t"
  by (simp add: row_step_def)

lemma row_step_holds: "row_step t t' \<Longrightarrow> task_holds_broker t' \<Longrightarrow> task_holds_broker t"
  by (auto simp: row_step_def task_holds_broker_def lifecycle_move_def)

lemma move_rows:
  assumes "schema_ok s" and "move_eyes_task task to a msg now s = Inr (s', t', moved)"
  shows "schema_ok s' \<and> agents s' = agents s \<and> list_all2 row_step (eyes_tasks s) (eyes_tasks s')"
proof -
  have step: "list_all2 row_step rs (update_where (\<lambda>x. et_task x = task) f rs)"
    if "\<And>x. x \<in> set rs \<Longrightarrow> et_task x = task \<Longrightarrow> row_step x (f x)" for f rs
    using that by (induction rs) auto
  have only: "x = t" if "x \<in> set (eyes_tasks s)" "et_task x = task" "eyes_task task s = Inr t" for x t
    using that eyes_task_iff [OF assms(1), of task x] by auto
  show ?thesis
    using assms(2)
  proof (cases rule: move_eyes_Inr)
    case same
    then show ?thesis using assms(1) by (simp add: list.rel_refl)
  next
    case (acked target edge t role froms)
    have "list_all2 row_step (eyes_tasks s) (eyes_tasks s')"
      unfolding acked(8) set_eyes_def
      using only [OF _ _ acked(2)] acked(5) by (auto intro!: step simp: row_step_def)
    then show ?thesis using acked(8) assms(1) by (auto intro: schema_ok_set_eyes)
  next
    case (moves target edge t role froms d)
    have "list_all2 row_step (eyes_tasks s) (eyes_tasks s')"
      unfolding deliver_if_frame(2) [OF moves(7)] set_eyes_def
      using only [OF _ _ moves(2)] edges_lifecycle [OF moves(1,4,5)]
      by (auto intro!: step simp: row_step_def)
    then show ?thesis
      using deliver_if_frame [OF moves(7)] schema_ok_set_eyes [OF assms(1)] by auto
  qed
qed

section \<open>Assigning taken apart\<close>

lemma assign_Inr:
  assumes "assign_eyes_task req suffix now s = Inr (s', t, ref)"
  obtains l runtime where "pick_launcher (rq_runtime req) now s = Inr l"
    and "runtime = (if rq_runtime req = [] then default_provider (ar_caps l) else rq_runtime req)"
    and "runtime \<noteq> []" and "valid_runtime (rq_runtime req)"
    and "t = new_task req (task_prefix @ suffix) runtime l (unix now)" and "ref = row_ref l"
    and "et_task t \<notin> et_task ` set (eyes_tasks s)"
    and "send_to_scope (launch_delivery req (task_prefix @ suffix) runtime l) now
           (s\<lparr>eyes_tasks := eyes_tasks s @ [t]\<rparr>) = Inr s'"
  using assms that
  by (auto simp: assign_eyes_task_def Let_def bind_sum_Inr_iff insert_row_Some split: if_splits option.splits)

lemma assign_rows:
  assumes "schema_ok s" and "assign_eyes_task req suffix now s = Inr (s', t, ref)"
  shows "schema_ok s' \<and> agents s' = agents s \<and> eyes_tasks s' = eyes_tasks s @ [t]"
proof -
  obtain l runtime where new: "et_task t \<notin> et_task ` set (eyes_tasks s)"
    and send: "send_to_scope (launch_delivery req (task_prefix @ suffix) runtime l) now
           (s\<lparr>eyes_tasks := eyes_tasks s @ [t]\<rparr>) = Inr s'"
    by (rule assign_Inr [OF assms(2)])
  have "schema_ok (s\<lparr>eyes_tasks := eyes_tasks s @ [t]\<rparr>)"
    using assms(1) new by (auto simp: schema_ok_def)
  then show ?thesis using schema_ok_send [OF _ send] send_frame [OF send] by simp
qed

section \<open>Progress taken apart\<close>

lemma record_Inr:
  assumes "record_eyes_progress task a p now s = Inr (s', next, due)"
  obtains t role d where "eyes_task task s = Inr t" and "eyes_role t a s = Some role"
    and "role = RoleChild \<or> role = RoleLauncher" and "et_state t = Queued \<or> et_state t = Accepted"
    and "next_eyes_progress t p (unix now) = (next, due)"
    and "deliver_if d now (write_eyes_progress t next (unix now) s) = Inr s'"
    and "if due then eyes_mail t role a (progress_body t next (unix now))
             (write_eyes_progress t next (unix now) s) = Inr d else d = None"
proof -
  obtain t where t: "eyes_task task s = Inr t"
    using assms by (auto simp: record_eyes_progress_def bind_sum_Inr_iff)
  obtain role where r: "eyes_role t a s = Some role"
    using assms by (cases "eyes_role t a s") (auto simp: record_eyes_progress_def t)
  obtain nx du where n: "next_eyes_progress t p (unix now) = (nx, du)" by fastforce
  let ?s1 = "write_eyes_progress t nx (unix now) s"
  note run = assms [unfolded record_eyes_progress_def t r bind_sum_simps option.case Let_def n prod.case]
  have ok: "role = RoleChild \<or> role = RoleLauncher" "et_state t = Queued \<or> et_state t = Accepted"
    using run by (auto split: if_splits)
  have run2: "(if du then bind_sum (eyes_mail t role a (progress_body t nx (unix now)) ?s1)
        (\<lambda>d. bind_sum (deliver_if d now ?s1) (\<lambda>s'. Inr (s', nx, du)))
      else Inr (?s1, nx, du)) = Inr (s', next, due)"
    using run ok by auto
  show thesis
  proof (cases du)
    case True
    then obtain d where d: "eyes_mail t role a (progress_body t nx (unix now)) ?s1 = Inr d"
      "bind_sum (deliver_if d now ?s1) (\<lambda>s'. Inr (s', nx, du)) = Inr (s', next, due)"
      using run2 by (auto elim: bind_sum_InrE)
    then have "deliver_if d now ?s1 = Inr s' \<and> nx = next \<and> du = due" by (auto simp: bind_sum_Inr_iff)
    then show thesis using that [OF t r ok _ _, of d] n d True by auto
  next
    case False
    then show thesis using run2 n by (intro that [OF t r ok, of None]) (auto simp: deliver_if_def)
  qed
qed

lemma write_progress_rows:
  assumes "schema_ok s"
  shows "schema_ok (write_eyes_progress t p at s)"
    and "list_all2 row_step (eyes_tasks s) (eyes_tasks (write_eyes_progress t p at s))"
    and "messages (write_eyes_progress t p at s) = messages s"
proof -
  let ?f = "\<lambda>x. x\<lparr>et_progress := json_print (eyes_progress_json p), et_heartbeat := at\<rparr>"
  have w: "write_eyes_progress t p at s = agents_update (update_where (\<lambda>r. at_session (et_req_scope t)
      (eyes_session (et_task t)) r \<and> ar_status r \<noteq> Gone) (heard_from at)) (set_eyes (et_task t) ?f s)"
    by (simp add: write_eyes_progress_def set_eyes_def)
  have "schema_ok (set_eyes (et_task t) ?f s)" by (rule schema_ok_set_eyes [OF assms]) simp
  then show "schema_ok (write_eyes_progress t p at s)"
    unfolding w by (rule schema_ok_agent_rewrite) (simp_all add: heard_from_def agent_key_def)
  have "list_all2 row_step rs (update_where q ?f rs)" for q rs
    by (induction rs) (auto simp: row_step_def)
  then show "list_all2 row_step (eyes_tasks s) (eyes_tasks (write_eyes_progress t p at s))"
    by (simp add: write_eyes_progress_def)
  show "messages (write_eyes_progress t p at s) = messages s" by (simp add: write_eyes_progress_def)
qed

lemma record_rows:
  assumes "schema_ok s" and "record_eyes_progress task a p now s = Inr (s', next, due)"
  shows "schema_ok s' \<and> list_all2 row_step (eyes_tasks s) (eyes_tasks s')"
proof -
  obtain t :: eyes_row and d where "deliver_if d now (write_eyes_progress t next (unix now) s) = Inr s'"
    using assms(2) by (rule record_Inr)
  then show ?thesis using write_progress_rows [OF assms(1)] deliver_if_frame by metis
qed

section \<open>The child\<close>

lemma reissue_Inr:
  assumes "reissue_eyes_child task launcher lsecret fresh now s = Inr (s', name, secret)"
  obtains t l s1 where "eyes_task task s = Inr t" and "et_launcher t = launcher" and "unsettled t"
    and "row_at (et_launcher_scope t) launcher s = Some l" and "ar_origin l = relay_origin"
    and "ar_kind l = kind_launcher" and "ar_secret l = sha256_hex lsecret"
    and "\<forall>r \<in> set (agents s). ar_session r = eyes_session task \<longrightarrow>
          ar_scope r = et_req_scope t \<and> ar_origin r = relay_origin \<and> ar_kind r = kind_eyes"
    and "register quiet (et_req_scope t) (eyes_session task) ''relay'' now s = (s1, Inr name)"
    and "s' = agents_update (update_where (at_session (et_req_scope t) (eyes_session task))
        (\<lambda>r. r\<lparr>ar_kind := kind_eyes, ar_origin := relay_origin, ar_secret := sha256_hex fresh\<rparr>)) s1"
    and "secret = fresh"
proof -
  obtain t where t: "eyes_task task s = Inr t"
    using assms by (auto simp: reissue_eyes_child_def bind_sum_Inr_iff)
  note run1 = assms [unfolded reissue_eyes_child_def t bind_sum_simps]
  have held: "et_launcher t = launcher" "unsettled t" using run1 by (auto split: if_splits)
  obtain l where l: "row_at (et_launcher_scope t) launcher s = Some l"
    using run1 held by (cases "row_at (et_launcher_scope t) launcher s") (auto simp: agent_at_def)
  have a: "agent_at (et_launcher_scope t) launcher s = Inr (identity_row l)" by (simp add: agent_at_def l)
  note run2 = run1 [unfolded a sum.case]
  have proved: "ar_origin l = relay_origin" "ar_kind l = kind_launcher" "ar_secret l = sha256_hex lsecret"
    using run2 held by (auto simp: identity_row_def split: if_splits)
  have none: "\<forall>r \<in> set (agents s). ar_session r = eyes_session task \<longrightarrow>
          ar_scope r = et_req_scope t \<and> ar_origin r = relay_origin \<and> ar_kind r = kind_eyes"
  proof (rule ccontr)
    assume "\<not> ?thesis"
    then have "0 < count_where (\<lambda>r. ar_session r = eyes_session task \<and>
        \<not> (ar_scope r = et_req_scope t \<and> ar_origin r = relay_origin \<and> ar_kind r = kind_eyes)) (agents s)"
      by (intro gr0I) (auto simp: count_where_0)
    then show False using run2 held proved by (simp add: identity_row_def Let_def)
  qed
  then have zero: "\<not> 0 < count_where (\<lambda>r. ar_session r = eyes_session task \<and>
        \<not> (ar_scope r = et_req_scope t \<and> ar_origin r = relay_origin \<and> ar_kind r = kind_eyes)) (agents s)"
    by (simp add: count_where_0)
  obtain s1 res where reg: "register quiet (et_req_scope t) (eyes_session task) ''relay'' now s = (s1, res)"
    by fastforce
  have run3: "(case res of Inl e \<Rightarrow> Inl e | Inr name \<Rightarrow>
      Inr (agents_update (update_where (at_session (et_req_scope t) (eyes_session task))
        (\<lambda>r. r\<lparr>ar_kind := kind_eyes, ar_origin := relay_origin, ar_secret := sha256_hex fresh\<rparr>)) s1,
        name, fresh)) = Inr (s', name, secret)"
    using run2 held proved zero reg by (simp add: identity_row_def Let_def)
  then obtain w where res: "res = Inr w" by (cases res) auto
  show thesis
    by (rule that [OF t held l proved none, of s1]) (use run3 reg res in auto)
qed

lemma reissue_rows:
  assumes "schema_ok s" and "reissue_eyes_child task launcher lsecret fresh now s = Inr (s', name, secret)"
  shows "schema_ok s' \<and> eyes_tasks s' = eyes_tasks s"
proof -
  obtain t :: eyes_row and s1 where reg: "register quiet (et_req_scope t) (eyes_session task) ''relay'' now s = (s1, Inr name)"
    and s': "s' = agents_update (update_where (at_session (et_req_scope t) (eyes_session task))
        (\<lambda>r. r\<lparr>ar_kind := kind_eyes, ar_origin := relay_origin, ar_secret := sha256_hex fresh\<rparr>)) s1"
    using assms(2) by (rule reissue_Inr)
  have "schema_ok s1" using register_quiet_keeps [OF assms(1) reg] by simp
  then have "schema_ok s'" unfolding s' by (rule schema_ok_agent_rewrite) (simp_all add: agent_key_def)
  then show ?thesis using register_frame(7) [OF reg] s' by simp
qed

section \<open>Steps of the ledger\<close>

datatype eyes_event = Assigned string | Asked string string | Sampled string | Reissued string | Purged

inductive eyes_step :: "store \<Rightarrow> eyes_event \<Rightarrow> store \<Rightarrow> bool" where
  assign_step: "assign_eyes_task req suffix now s = Inr (s', t, ref) \<Longrightarrow> eyes_step s (Assigned (et_task t)) s'"
| move_step: "move_eyes_task task to a msg now s = Inr (s', t, moved) \<Longrightarrow> eyes_step s (Asked task to) s'"
| sample_step: "record_eyes_progress task a p now s = Inr (s', next, due) \<Longrightarrow> eyes_step s (Sampled task) s'"
| reissue_step: "reissue_eyes_child task launcher lsecret fresh now s = Inr (s', name, secret) \<Longrightarrow>
     eyes_step s (Reissued task) s'"
| purge_step: "eyes_tasks s' = delete_where p (eyes_tasks s) \<Longrightarrow> schema_ok s' \<Longrightarrow> eyes_step s Purged s'"

inductive_cases eyes_stepE: "eyes_step s e s'"

definition broker_load :: "store \<Rightarrow> string \<Rightarrow> nat" where
  "broker_load s sess = count_where (\<lambda>t. et_launcher t = sess \<and> task_holds_broker t) (eyes_tasks s)"

lemma broker_busy_load: "broker_busy sess s \<longleftrightarrow> broker_load s sess \<noteq> 0"
  by (auto simp: broker_busy_def broker_load_def count_where_0 list_ex_iff)

lemma rows_load:
  "list_all2 row_step rs rs' \<Longrightarrow> count_where (\<lambda>t. et_launcher t = k \<and> task_holds_broker t) rs'
     \<le> count_where (\<lambda>t. et_launcher t = k \<and> task_holds_broker t) rs"
proof (induction rule: list_all2_induct)
  case (Cons r rs r' rs')
  then have "et_launcher r' = et_launcher r" "task_holds_broker r' \<Longrightarrow> task_holds_broker r"
    using row_step_holds by (auto simp: row_step_def)
  then show ?case using Cons by auto
qed simp

lemma purge_load: "count_where q (delete_where p rs) \<le> count_where q rs"
  by (induction rs) auto

interpretation broker_ledger: reservation schema_ok broker_load eyes_step
proof
  fix s e t k
  assume step: "eyes_step s e t" and ok: "schema_ok s"
  show "schema_ok t"
    using step ok by (cases rule: eyes_step.cases) (auto dest: assign_rows move_rows record_rows reissue_rows)
  show "broker_load t k \<le> broker_load s k \<or> broker_load s k = 0 \<and> broker_load t k = 1"
    using step
  proof (cases rule: eyes_step.cases)
    case (assign_step req suffix now r ref)
    obtain l runtime where l: "pick_launcher (rq_runtime req) now s = Inr l"
      and r: "r = new_task req (task_prefix @ suffix) runtime l (unix now)"
      by (rule assign_Inr [OF assign_step(2)])
    have "broker_load t k = broker_load s k + (if ar_session l = k then 1 else 0)"
      using assign_rows [OF ok assign_step(2)] by (simp add: broker_load_def r new_task_def task_holds_broker_def)
    then show ?thesis using pick_launcher_Inr(4) [OF l] by (auto simp: broker_busy_load)
  next
    case (move_step task to a msg now r moved)
    then show ?thesis using move_rows [OF ok move_step(2)] rows_load by (auto simp: broker_load_def)
  next
    case (sample_step task a p now "next" due)
    then show ?thesis using record_rows [OF ok sample_step(2)] rows_load by (auto simp: broker_load_def)
  next
    case (reissue_step task launcher lsecret fresh now name secret)
    then show ?thesis using reissue_rows [OF ok reissue_step(2)] by (simp add: broker_load_def)
  next
    case (purge_step p)
    then show ?thesis by (simp add: broker_load_def purge_load)
  qed
qed

end
