(* ===== verification/EyesProps.thy ===== *)
theory EyesProps
  imports EyesLaws
begin

text \<open>
  The properties of the host eyes ledger, each with a run of the model where it applies.
\<close>

section \<open>Examples\<close>

text \<open>A broker that polls, and a workspace with a requester.\<close>

definition eyes_caller :: eyes_request where
  "eyes_caller = \<lparr>rq_requester = \<lparr>ref_name = ''calm-fox'', ref_id = ''id-a'', ref_scope = ''ws''\<rparr>,
     rq_runtime = [], rq_brief = ''look'', rq_deadline = 0\<rparr>"

lemma caps_example:
  "default_provider (caps_text (Some [''provider.claude'', ''browser.chrome''])) = ''claude''"
  "contains browser_cap (caps_text (Some [''provider.claude'', ''browser.chrome'']))"
  "provider_match [] (caps_text (Some [''provider.claude'', ''browser.chrome'']))"
  by code_simp+

lemma broker_polls: "polling_launcher (from_unix 110) broker_row"
  by (simp add: polling_launcher_def broker_row_def plain_agent_def host_scope_prefix_def launcher_window_def
      seconds_def ns_second_def unix_def from_unix_def)

lemma office_not_polling: "a \<in> set (agents office) \<Longrightarrow> \<not> polling_launcher now a"
  by (auto simp: polling_launcher_def office_def plain_agent_def relay_origin_def)

lemma broker_store_polling: "filter (polling_launcher (from_unix 110)) (agents broker_store) = [broker_row]"
  using office_not_polling broker_polls by (auto simp: broker_store_def filter_empty_conv)

lemma broker_matches: "eyes_match [] broker_row"
  using caps_example by (simp add: eyes_match_def broker_row_def)

lemma broker_free: "\<not> broker_busy sess broker_store"
  by (simp add: broker_busy_def broker_store_def office_def empty_store_def)

lemma broker_picked: "pick_launcher [] (from_unix 110) broker_store = Inr broker_row"
  by (simp add: pick_launcher_def broker_store_polling first_by_def broker_matches broker_free)

lemma schema_ok_broker_store: "schema_ok broker_store"
  by (simp add: schema_ok_def broker_store_def office_def empty_store_def plain_agent_def broker_row_def
      agent_key_def agent_name_key_def)

lemma relay_single_broker_store: "relay_single broker_store"
  by (simp add: relay_single_def broker_store_def office_def plain_agent_def broker_row_def relay_origin_def)

section \<open>Picking a broker\<close>

lemma first_by_min:
  assumes "first_by key rs = Some a" and "b \<in> set rs"
  shows "a \<in> set rs" and "key a \<le> key b"
  using first_by_SomeD [OF assms(1)] assms(2) by auto

text \<open>
  The three refusals of a brief are three different facts and the grant is the best choice:
  no broker is polling; some poll but none runs that provider with a browser; some match but
  every one of them holds a task; otherwise the broker is one that polls, matches and is free,
  and none such was heard from later.
\<close>

theorem pick_launcher_answers:
  "(pick_launcher rt now s = Inl ErrNoLauncher \<longleftrightarrow> (\<forall>a \<in> set (agents s). \<not> polling_launcher now a)) \<and>
   (pick_launcher rt now s = Inl ErrNoProvider \<longleftrightarrow>
      (\<exists>a \<in> set (agents s). polling_launcher now a) \<and>
      (\<forall>a \<in> set (agents s). polling_launcher now a \<longrightarrow> \<not> eyes_match rt a)) \<and>
   (pick_launcher rt now s = Inl ErrEyesBusy \<longleftrightarrow>
      (\<exists>a \<in> set (agents s). polling_launcher now a \<and> eyes_match rt a) \<and>
      (\<forall>a \<in> set (agents s). polling_launcher now a \<and> eyes_match rt a \<longrightarrow> broker_load s (ar_session a) \<noteq> 0)) \<and>
   (\<forall>a. pick_launcher rt now s = Inr a \<longrightarrow>
      a \<in> set (agents s) \<and> polling_launcher now a \<and> eyes_match rt a \<and> broker_load s (ar_session a) = 0 \<and>
      (\<forall>b \<in> set (agents s). polling_launcher now b \<and> eyes_match rt b \<and> broker_load s (ar_session b) = 0 \<longrightarrow>
         ar_seen b \<le> ar_seen a))"
proof -
  let ?key = "\<lambda>a. (\<not> eyes_match rt a, broker_busy (ar_session a) s, - ar_seen a)"
  let ?rs = "filter (polling_launcher now) (agents s)"
  show ?thesis
  proof (cases "first_by ?key ?rs")
    case None
    have pick: "pick_launcher rt now s = Inl ErrNoLauncher" unfolding pick_launcher_def None by simp
    have "\<forall>a \<in> set (agents s). \<not> polling_launcher now a" using None by (simp add: filter_empty_conv)
    then show ?thesis unfolding pick by auto
  next
    case (Some a)
    have a: "a \<in> set (agents s)" "polling_launcher now a"
      using first_by_SomeD(1) [OF Some] by auto
    have best: "?key a \<le> ?key b" if "b \<in> set (agents s)" "polling_launcher now b" for b
      using first_by_SomeD(2) [OF Some] that by auto
    have pick: "pick_launcher rt now s = (if \<not> eyes_match rt a then Inl ErrNoProvider
        else if broker_busy (ar_session a) s then Inl ErrEyesBusy else Inr a)"
      by (simp add: pick_launcher_def Some)
    have load: "broker_load s k = 0 \<longleftrightarrow> \<not> broker_busy k s" for k by (simp add: broker_busy_load)
    show ?thesis
      unfolding pick using a best by (auto simp: load split: if_splits)
  qed
qed

theorem pick_launcher_answers_witness:
  "\<exists>a. pick_launcher [] (from_unix 110) broker_store = Inr a \<and> broker_load broker_store (ar_session a) = 0"
  using pick_launcher_answers [of "[]" "from_unix 110" broker_store] broker_picked by blast

section \<open>Capabilities\<close>

text \<open>The characters a capability is printed with as they are.\<close>

definition plain_char :: "char \<Rightarrow> bool" where
  "plain_char c \<longleftrightarrow> 32 \<le> byte c \<and> byte c < 127 \<and> byte c \<notin> {34, 38, 60, 62, 92}"

lemma plain_text: "list_all plain_char t \<Longrightarrow> json_string t = dquote # t @ [dquote]"
proof -
  assume t: "list_all plain_char t"
  then have "is_ascii t" by (auto simp: is_ascii_def plain_char_def list_all_iff)
  moreover have "concat (map (\<lambda>c. escape_rune (byte c, [c])) t) = t"
    using t by (induction t) (auto simp: escape_rune_def plain_char_def)
  ultimately show ?thesis by (simp add: json_string_def escape_text_def runes_ascii o_def)
qed

lemma plain_no_quote: "list_all plain_char t \<Longrightarrow> dquote \<notin> set t"
  by (auto simp: list_all_iff plain_char_def byte_def)

lemma split_on_none: "d \<notin> set x \<Longrightarrow> split_on d x = [x]"
  by (induction x) auto

lemma split_on_append: "split_on d (a @ d # r) = split_on d a @ split_on d r"
proof (induction a)
  case (Cons c cs)
  then show ?case by (cases "split_on d cs") auto
qed simp

lemma split_on_between:
  assumes "d \<notin> set x"
  shows "contains (d # x @ [d]) s \<longleftrightarrow> x \<in> set (butlast (tl (split_on d s)))"
proof
  assume "contains (d # x @ [d]) s"
  then obtain a b where "s = a @ d # x @ d # b" by (auto simp: contains_iff)
  then have "split_on d s = split_on d a @ [x] @ split_on d b"
    using split_on_append [of d a "x @ d # b"] split_on_append [of d x b] by (simp add: split_on_none [OF assms])
  then show "x \<in> set (butlast (tl (split_on d s)))"
    by (cases "split_on d a") (auto simp: butlast_append)
next
  assume "x \<in> set (butlast (tl (split_on d s)))"
  then obtain P Q where pq: "butlast (tl (split_on d s)) = P @ x # Q" by (auto dest: split_list)
  then have "tl (split_on d s) \<noteq> []" by auto
  then obtain h l where "split_on d s = h # P @ x # Q @ [l]"
    using pq by (cases "split_on d s") (auto, metis append_Cons append_assoc append_butlast_last_id)
  then have "s = join [d] ((h # P) @ x # (Q @ [l]))" using join_split_on [of d s] by simp
  moreover have "\<exists>a b. join [d] ((h # P) @ x # (Q @ [l])) = a @ d # x @ d # b"
  proof -
    have "\<exists>b. join [d] (x # Q @ [l]) = x @ d # b" by (cases Q) auto
    then obtain b where b: "join [d] (x # Q @ [l]) = x @ d # b" by blast
    have "\<exists>a. join [d] (ws @ x # Q @ [l]) = a @ d # x @ d # b" if "ws \<noteq> []" for ws
      using that
    proof (induction ws)
      case (Cons w ws)
      show ?case
      proof (cases "ws = []")
        case True
        then show ?thesis using b by (intro exI [of _ w]) simp
      next
        case False
        then obtain a where "join [d] (ws @ x # Q @ [l]) = a @ d # x @ d # b" using Cons by blast
        then show ?thesis using False by (intro exI [of _ "w @ d # a"]) (simp add: join_Cons)
      qed
    qed simp
    then show ?thesis by blast
  qed
  ultimately show "contains (d # x @ [d]) s" by (auto simp: contains_iff)
qed

lemma split_caps:
  assumes "list_all (list_all plain_char) (c # cs)" and "dquote \<notin> set pre"
  shows "split_on dquote (pre @ join '','' (map json_string (c # cs)) @ '']'')
    = pre # c # concat (map (\<lambda>x. ['','', x]) cs) @ ['']'']"
  using assms
proof (induction cs arbitrary: c pre)
  case Nil
  then have "pre @ join '','' (map json_string [c]) @ '']'' = pre @ dquote # c @ dquote # '']''"
    by (simp add: plain_text)
  then show ?case
    using Nil split_on_append [of dquote pre] split_on_append [of dquote c]
    by (simp add: split_on_none plain_no_quote)
next
  case (Cons x xs)
  have "pre @ join '','' (map json_string (c # x # xs)) @ '']''
      = pre @ dquote # c @ dquote # '','' @ join '','' (map json_string (x # xs)) @ '']''"
    using Cons.prems by (simp add: plain_text)
  moreover have "split_on dquote ('','' @ join '','' (map json_string (x # xs)) @ '']'')
      = '','' # x # concat (map (\<lambda>x. ['','', x]) xs) @ ['']'']"
    using Cons.IH [of x "'',''"] Cons.prems by simp
  ultimately show ?case
    using Cons.prems split_on_append [of dquote pre] split_on_append [of dquote c]
    by (simp add: split_on_none plain_no_quote)
qed

lemma caps_contains:
  assumes "list_all (list_all plain_char) cs" and "dquote \<notin> set x" and "x \<noteq> '',''"
  shows "contains (dquote # x @ [dquote]) (caps_text (Some cs)) \<longleftrightarrow> x \<in> set cs"
proof (cases cs)
  case Nil
  then show ?thesis by (simp add: split_on_between [OF assms(2)] caps_text_def)
next
  case (Cons c rest)
  have "caps_text (Some cs) = ''['' @ join '','' (map json_string (c # rest)) @ '']''"
    using Cons by (simp add: caps_text_def o_def)
  then have "split_on dquote (caps_text (Some cs)) = ''['' # c # concat (map (\<lambda>x. ['','', x]) rest) @ ['']'']"
    using split_caps [of c rest "''[''"] assms(1) Cons by simp
  then have "set (butlast (tl (split_on dquote (caps_text (Some cs)))))
      = set (c # concat (map (\<lambda>x. ['','', x]) rest))"
    by (simp add: butlast_append)
  then show ?thesis using Cons assms(3) by (auto simp: split_on_between [OF assms(2)])
qed

text \<open>
  The capability test hits whole elements: for capabilities of ordinary printable text, a
  broker matches a named runtime exactly when it lists that provider, an unnamed one exactly
  when it lists one of the three in the fixed order, and has a browser exactly when it lists it.
\<close>

theorem provider_match_exact:
  assumes "list_all (list_all plain_char) cs" and "valid_runtime r"
  shows "(r \<noteq> [] \<longrightarrow> (provider_match r (caps_text (Some cs)) \<longleftrightarrow> ''provider.'' @ r \<in> set cs)) \<and>
    (provider_match [] (caps_text (Some cs)) \<longleftrightarrow> (\<exists>p \<in> set provider_order. ''provider.'' @ p \<in> set cs)) \<and>
    (contains browser_cap (caps_text (Some cs)) \<longleftrightarrow> ''browser.chrome'' \<in> set cs) \<and>
    (provider_match [] (caps_text (Some cs)) \<longleftrightarrow> default_provider (caps_text (Some cs)) \<noteq> [])"
proof -
  have cap: "contains (provider_cap p) (caps_text (Some cs)) \<longleftrightarrow> ''provider.'' @ p \<in> set cs"
    if "dquote \<notin> set p" for p
    using caps_contains [OF assms(1), of "''provider.'' @ p"] that by (simp add: provider_cap_def)
  have r: "dquote \<notin> set r"
    using assms(2) by (auto simp: valid_runtime_def runtime_char_def list_all_iff is_lower_def is_digit_def byte_def)
  have "dquote \<notin> set p \<and> p \<noteq> []" if "p \<in> set provider_order" for p
    using that by (auto simp: provider_order_def)
  then have order: "contains (provider_cap p) (caps_text (Some cs)) \<longleftrightarrow> ''provider.'' @ p \<in> set cs" "p \<noteq> []"
    if "p \<in> set provider_order" for p
    using cap that by auto
  have "default_provider (caps_text (Some cs)) \<noteq> [] \<longleftrightarrow>
      (\<exists>p \<in> set provider_order. contains (provider_cap p) (caps_text (Some cs)))"
  proof (cases "List.find (\<lambda>p. contains (provider_cap p) (caps_text (Some cs))) provider_order")
    case None
    have "default_provider (caps_text (Some cs)) = []" unfolding default_provider_def None by simp
    then show ?thesis using None by (auto simp: find_None_iff)
  next
    case (Some p)
    then show ?thesis using find_SomeD [OF Some] order(2) by (auto simp: default_provider_def)
  qed
  moreover have "contains browser_cap (caps_text (Some cs)) \<longleftrightarrow> ''browser.chrome'' \<in> set cs"
    using caps_contains [OF assms(1), of "''browser.chrome''"] by (simp add: browser_cap_def)
  ultimately show ?thesis
    using cap [OF r] order by (auto simp: provider_match_def list_ex_iff)
qed

theorem provider_match_exact_witness:
  "provider_match ''codex'' (caps_text (Some [''provider.codex''])) \<and>
   \<not> provider_match ''code'' (caps_text (Some [''provider.codex'']))"
proof -
  have p: "list_all (list_all plain_char) [''provider.codex'']" by (simp add: plain_char_def byte_def)
  have v: "valid_runtime ''codex''" "valid_runtime ''code''"
    by (simp_all add: valid_runtime_def runtime_char_def is_lower_def byte_def)
  show ?thesis using provider_match_exact [OF p v(1)] provider_match_exact [OF p v(2)] by simp
qed

text \<open>
  An element that is not plain can match without being the provider: a capability that itself
  begins with a quote prints an escaped quote, and the test finds the rest of it.
\<close>

lemma escaped_capability_matches:
  "provider_match ''claude'' (caps_text (Some [dquote # ''provider.claude'']))"
  by code_simp

text \<open>A deadline below the documented 300 seconds is taken as it is.\<close>

lemma short_deadline: "eyes_deadline 5 = 5"
  by (simp add: eyes_deadline_def deadline_max_def)

section \<open>Assigning\<close>

text \<open>An agent id names the row it is the id of, and no id is empty.\<close>

definition ids_clear :: "store \<Rightarrow> bool" where
  "ids_clear s \<longleftrightarrow> (\<forall>r \<in> set (agents s). ar_id r \<noteq> [] \<and> row_named (ar_scope r) (ar_id r) s = Some r)"

lemma eyes_deadline_bounds: "0 < eyes_deadline d \<and> eyes_deadline d \<le> deadline_max"
  by (simp add: eyes_deadline_def deadline_default_def deadline_max_def)

lemma pick_relay: "polling_launcher now l \<Longrightarrow> ar_origin l = relay_origin"
  by (simp add: polling_launcher_def)

lemma polling_scope: "polling_launcher now l \<Longrightarrow> ar_scope l \<noteq> []"
  by (auto simp: polling_launcher_def host_scope_prefix_def)

lemma send_named:
  assumes "send_to_scope d now s = Inr s'" and "dv_to_name d \<noteq> []" and "dv_to_scope d \<noteq> []"
  shows "\<exists>m q. messages s' = messages s @ [m] \<and> deliveries s' = deliveries s @ [unread_row (mr_id m) (ar_id q)] \<and>
     row_named (dv_to_scope d) (dv_to_name d) s = Some q \<and> mr_id m = next_message s \<and> mr_to m = Some (ar_id q) \<and>
     mr_scope m = dv_to_scope d \<and> mr_task m = dv_task d \<and> mr_body m = dv_body d \<and> mr_reply_to m = stamp (dv_reply d)"
proof -
  obtain sn to targets where t: "delivery_targets d (dv_to_scope d) (ref_id (sn_ref sn)) now s = Inr (to, targets)"
    and ins: "\<exists>ds. insert_deliveries (next_message s) targets (deliveries s) = Some ds \<and>
         s' = s\<lparr>messages := messages s @ [new_message d sn to now (next_message s)],
                next_message := Suc (next_message s), deliveries := ds\<rparr>"
    using assms(1,3) by (auto simp: send_to_scope_Inr)
  then obtain ds where ds: "insert_deliveries (next_message s) targets (deliveries s) = Some ds"
    and s': "s' = s\<lparr>messages := messages s @ [new_message d sn to now (next_message s)],
                next_message := Suc (next_message s), deliveries := ds\<rparr>"
    by blast
  obtain q where "row_named (dv_to_scope d) (dv_to_name d) s = Some q" "to = Some (ar_id q)" "targets = [ar_id q]"
    using t assms(2) by (auto simp: delivery_targets_def resolve_agent_def bind_sum_def split: option.splits sum.splits)
  then show ?thesis
    using s' assms(3) insert_deliveries_SomeD [OF ds]
    by (intro exI [of _ "new_message d sn to now (next_message s)"] exI [of _ q])
      (auto simp: new_message_def Let_def)
qed

text \<open>
  An assignment is one transaction: the ledger gains exactly one queued task under a bounded
  deadline, on a broker that is polling, matches the runtime and held none; the broker gets
  exactly one message, stamped with the task and carrying its launch; and that message is what
  the redelivery queue hands the broker until it answers.
\<close>

theorem assign_queues_and_mails:
  assumes "schema_ok s" and "relay_single s" and "ids_clear s"
    and "assign_eyes_task req suffix now s = Inr (s', t, ref)"
    and "\<forall>m \<in> set (messages s). mr_task m \<noteq> task_prefix @ suffix"
  shows "eyes_tasks s' = eyes_tasks s @ [t] \<and> et_state t = Queued \<and> et_task t = task_prefix @ suffix \<and>
    0 < et_deadline t \<and> et_deadline t \<le> deadline_max \<and> et_runtime t \<noteq> [] \<and>
    (\<exists>l m. l \<in> set (agents s) \<and> polling_launcher now l \<and> eyes_match (rq_runtime req) l \<and>
       broker_load s (ar_session l) = 0 \<and> et_launcher t = ar_session l \<and>
       messages s' = messages s @ [m] \<and> mr_task m = et_task t \<and> mr_scope m = ar_scope l \<and>
       mr_body m = launch_body req (et_task t) (et_runtime t) \<and>
       deliveries s' = deliveries s @ [unread_row (mr_id m) (ar_id l)] \<and>
       launcher_mail False t s' = [m])"
proof -
  obtain l runtime where l: "pick_launcher (rq_runtime req) now s = Inr l" and rt: "runtime \<noteq> []"
    and t: "t = new_task req (task_prefix @ suffix) runtime l (unix now)"
    and send: "send_to_scope (launch_delivery req (task_prefix @ suffix) runtime l) now
           (s\<lparr>eyes_tasks := eyes_tasks s @ [t]\<rparr>) = Inr s'"
    by (rule assign_Inr [OF assms(4)])
  note pick = pick_launcher_Inr [OF l]
  have named: "row_named (ar_scope l) (ar_id l) s = Some l" "ar_id l \<noteq> []"
    using assms(3) pick(1) by (auto simp: ids_clear_def)
  let ?d = "launch_delivery req (task_prefix @ suffix) runtime l"
  have "dv_to_name ?d \<noteq> []" "dv_to_scope ?d \<noteq> []"
    using named(2) polling_scope [OF pick(2)] by (simp_all add: launch_delivery_def)
  from send_named [OF send this] obtain m where m: "messages s' = messages s @ [m]"
    "deliveries s' = deliveries s @ [unread_row (mr_id m) (ar_id l)]" "mr_id m = next_message s"
    "mr_to m = Some (ar_id l)" "mr_scope m = ar_scope l" "mr_task m = et_task t"
    "mr_body m = launch_body req (et_task t) (et_runtime t)"
    using named(1) by (auto simp: launch_delivery_def row_named_def t new_task_def)
  have "first_row_of (ar_session l) s' = Some l"
    using relay_row_is_first [OF assms(2) pick(1) pick_relay [OF pick(2)]] send_frame(1) [OF send]
    by (simp add: first_row_of_def)
  moreover have "filter (\<lambda>x. mr_task x = et_task t \<and> mr_scope x = ar_scope l \<and> mr_to x = Some (ar_id l))
      (messages s') = [m]"
    using assms(5) m by (auto simp: filter_empty_conv t new_task_def)
  moreover have "filter (\<lambda>x. mr_id x = next_message s) (messages s') = [m]"
    using assms(1) m by (auto simp: filter_empty_conv schema_ok_def list_all_iff)
  ultimately have "launcher_mail False t s' = [m]"
    by (simp add: launcher_mail_def t new_task_def m(3))
  then show ?thesis
    using assign_rows [OF assms(1,4)] pick m rt eyes_deadline_bounds [of "rq_deadline req"]
    by (auto simp: t new_task_def broker_busy_load)
qed

definition assigned :: "err + store \<times> eyes_row \<times> agent_ref" where
  "assigned = assign_eyes_task eyes_caller ''0123456789ab'' (from_unix 110) broker_store"

lemma ids_clear_broker_store: "ids_clear broker_store"
  by (simp add: ids_clear_def broker_store_def office_def plain_agent_def broker_row_def row_named_def goes_by_def)

lemma assigned_ok: "\<exists>s' t ref. assigned = Inr (s', t, ref)"
proof -
  have rq: "rq_runtime eyes_caller = []" by (simp add: eyes_caller_def)
  have valid: "valid_runtime []" by (simp add: valid_runtime_def)
  have claude: "default_provider (ar_caps broker_row) = ''claude''"
    using caps_example(1) by (simp add: broker_row_def)
  have tasks: "eyes_tasks broker_store = []" by (simp add: broker_store_def office_def empty_store_def)
  have "\<exists>s'. send_to_scope (launch_delivery eyes_caller (task_prefix @ ''0123456789ab'') ''claude'' broker_row)
      (from_unix 110) (broker_store\<lparr>eyes_tasks := ts\<rparr>) = Inr s'" for ts
    by (simp add: send_to_scope_def delivery_sender_def launch_delivery_def eyes_caller_def no_sender_def
        empty_ref_def sender_key_def resolve_sender_def row_named_def goes_by_def broker_store_def office_def
        plain_agent_def broker_row_def delivery_targets_def resolve_agent_def Let_def insert_row_def empty_store_def)
  then obtain s' where s': "send_to_scope (launch_delivery eyes_caller (task_prefix @ ''0123456789ab'') ''claude'' broker_row)
      (from_unix 110) (broker_store\<lparr>eyes_tasks :=
        [new_task eyes_caller (task_prefix @ ''0123456789ab'') ''claude'' broker_row 110]\<rparr>) = Inr s'"
    by blast
  show ?thesis
    unfolding assigned_def assign_eyes_task_def rq broker_picked bind_sum_simps Let_def claude
    by (simp add: valid insert_row_def tasks s')
qed

theorem assign_queues_and_mails_witness:
  "\<exists>s' t ref. assigned = Inr (s', t, ref) \<and> et_state t = Queued \<and> (\<exists>m. launcher_mail False t s' = [m])"
proof -
  obtain s' t ref where a: "assigned = Inr (s', t, ref)" using assigned_ok by blast
  have none: "\<forall>m \<in> set (messages broker_store). mr_task m \<noteq> task_prefix @ ''0123456789ab''"
    by (simp add: broker_store_def office_def empty_store_def)
  from assign_queues_and_mails [OF schema_ok_broker_store relay_single_broker_store ids_clear_broker_store
      a [unfolded assigned_def] none]
  show ?thesis using a by blast
qed

section \<open>One task per broker\<close>

text \<open>
  C7. No broker is ever handed a second task while one still holds it: over any run of
  assignments, moves, samples, child registrations and purges, in any order, every broker session
  has at most one task that is queued, accepted, or cancelled without an answer.
\<close>

theorem broker_holds_one_task:
  assumes "runs eyes_step s es s'" and "schema_ok s" and "\<forall>k. broker_load s k \<le> 1"
  shows "schema_ok s' \<and> (\<forall>k. broker_load s' k \<le> 1)"
  using assms by (intro broker_ledger.exclusive) auto

theorem broker_holds_one_task_witness:
  "\<exists>s' t ref. assigned = Inr (s', t, ref) \<and> broker_load s' ''broker-1'' \<le> 1"
proof -
  obtain s' t ref where a: "assigned = Inr (s', t, ref)" using assigned_ok by blast
  have run: "runs eyes_step broker_store [Assigned (et_task t)] s'"
    by (rule runs_step [of eyes_step, OF assign_step [OF a [unfolded assigned_def]] runs_stop])
  have "\<forall>k. broker_load broker_store k \<le> 1"
    by (simp add: broker_load_def broker_store_def office_def empty_store_def)
  with broker_holds_one_task [OF run schema_ok_broker_store this] show ?thesis using a by blast
qed

section \<open>The lifecycle\<close>

text \<open>
  C21. A task only moves forward: whatever one operation does to the ledger, every task that is
  still in it keeps its requester, its broker, its deadline and its creation time, its state is
  the same or one edge further, a state that is done, failed or cancelled is final, and only a
  cancelled task is ever acknowledged, once and for good.
\<close>

theorem eyes_lifecycle:
  assumes "eyes_step s e s'" and "schema_ok s" and "t \<in> set (eyes_tasks s)" and "t' \<in> set (eyes_tasks s')"
    and "et_task t' = et_task t"
  shows "row_step t t' \<and> (et_state t \<in> {Done, Failed, Cancelled} \<longrightarrow> et_state t' = et_state t)"
proof -
  have unique: "x = t" if "x \<in> set (eyes_tasks s)" "et_task x = et_task t" for x
    using that assms(2,3) by (auto simp: schema_ok_def dest: unique_keyD)
  have rel: "row_step t t'" if "list_all2 row_step (eyes_tasks s) (eyes_tasks s')"
  proof -
    have "\<exists>x \<in> set xs. row_step x y" if "list_all2 row_step xs ys" "y \<in> set ys" for xs ys y
      using that by (induction rule: list_all2_induct) auto
    from this [OF that assms(4)] obtain x where x: "x \<in> set (eyes_tasks s)" "row_step x t'" by blast
    then have "et_task x = et_task t" using assms(5) by (simp add: row_step_def)
    then show ?thesis using unique [OF x(1)] x(2) by simp
  qed
  have "row_step t t'"
    using assms(1)
  proof (cases rule: eyes_step.cases)
    case (assign_step req suffix now r ref)
    have new: "et_task r \<notin> et_task ` set (eyes_tasks s)" by (rule assign_Inr [OF assign_step(2)])
    then have "t' \<noteq> r" using assms(3,5) by (metis image_eqI)
    then have "t' \<in> set (eyes_tasks s)"
      using assign_rows [OF assms(2) assign_step(2)] assms(4) by simp
    from unique [OF this assms(5)] show ?thesis by simp
  next
    case (move_step task to a msg now r moved)
    then show ?thesis using move_rows [OF assms(2) move_step(2)] rel by blast
  next
    case (sample_step task a p now "next" due)
    then show ?thesis using record_rows [OF assms(2) sample_step(2)] rel by blast
  next
    case (reissue_step task launcher lsecret fresh now name secret)
    have "t' = t" using reissue_rows [OF assms(2) reissue_step(2)] assms(4,5) by (intro unique) auto
    then show ?thesis by simp
  next
    case (purge_step p)
    have "t' = t" using purge_step assms(4,5) by (intro unique) auto
    then show ?thesis by simp
  qed
  then show ?thesis by (auto simp: row_step_def lifecycle_move_def)
qed

end
