(* ===== verification/EyesMoves.thy ===== *)
theory EyesMoves
  imports EyesProps
begin

text \<open>
  Who may move a host eyes task and what a move leaves behind: the role a move needs, the one
  message that goes out in the same step, what the deadline sweep makes of every overdue task,
  what a progress sample may carry, who may ask for the secret of the child session, and the life
  of one concrete task.
\<close>

section \<open>Roles\<close>

text \<open>
  The relay row an actor speaks from, and the requester's side: a local session that is the
  requesting agent or a subagent of it.
\<close>

definition relay_actor :: "eyes_actor \<Rightarrow> string \<Rightarrow> string \<Rightarrow> string \<Rightarrow> store \<Rightarrow> bool" where
  "relay_actor a sc sess kind s \<longleftrightarrow> ea_origin a = relay_origin \<and> ea_scope a = sc \<and> ea_session a = sess \<and>
     (\<exists>r \<in> set (agents s). at_session sc sess r \<and> ar_origin r = relay_origin \<and> ar_kind r = kind)"

definition local_actor :: "eyes_actor \<Rightarrow> eyes_row \<Rightarrow> store \<Rightarrow> bool" where
  "local_actor a t s \<longleftrightarrow> ea_origin a = [] \<and> ref_scope (ea_ref a) = et_req_scope t \<and>
     acts_for (et_req_scope t) (ref_id (ea_ref a)) (et_req_agent t) s"

lemma relay_kind_row:
  "relay_kind sc sess kind s \<Longrightarrow> \<exists>r \<in> set (agents s). at_session sc sess r \<and> ar_origin r = relay_origin \<and> ar_kind r = kind"
  by (auto simp: relay_kind_def agent_at_def row_at_def identity_row_def split: option.splits dest!: find_SomeD)

lemma eyes_role_Some:
  assumes "eyes_role t a s = Some role"
  shows "case role of
      RoleSystem \<Rightarrow> ea_system a
    | RoleChild \<Rightarrow> \<not> ea_system a \<and> relay_actor a (et_req_scope t) (eyes_session (et_task t)) kind_eyes s
    | RoleLauncher \<Rightarrow> \<not> ea_system a \<and> relay_actor a (et_launcher_scope t) (et_launcher t) kind_launcher s
    | RoleRequester \<Rightarrow> \<not> ea_system a \<and> local_actor a t s"
  using assms
  by (auto simp: eyes_role_def relay_actor_def local_actor_def dest!: relay_kind_row split: if_splits)

text \<open>
  C8. Only the right party moves a task: a task becomes accepted only from queued and only by its
  broker's own relay session, done only from accepted and only by its child's session, failed by
  the child, by the broker while it is queued, or by the sweep, and cancelled only by the local
  agent that asked for it or its subagent.
\<close>

theorem eyes_move_authorized:
  assumes "move_eyes_task task to a msg now s = Inr (s', t', True)" and "eyes_task task s = Inr t"
  shows "to = eyes_state_text (et_state t') \<and> et_state t \<in> {Queued, Accepted} \<and>
    (case et_state t' of
       Queued \<Rightarrow> False
     | Accepted \<Rightarrow> et_state t = Queued \<and> relay_actor a (et_launcher_scope t) (et_launcher t) kind_launcher s
     | Done \<Rightarrow> et_state t = Accepted \<and> relay_actor a (et_req_scope t) (eyes_session task) kind_eyes s
     | Failed \<Rightarrow> ea_system a \<or> relay_actor a (et_req_scope t) (eyes_session task) kind_eyes s \<or>
         (et_state t = Queued \<and> relay_actor a (et_launcher_scope t) (et_launcher t) kind_launcher s)
     | Cancelled \<Rightarrow> local_actor a t s)"
  using assms(1)
proof (cases rule: move_eyes_Inr)
  case (moves target edge u role froms d)
  have u: "u = t" using moves(2) assms(2) by simp
  have "et_task t = task" using eyes_taskD [OF assms(2)] by simp
  then show ?thesis
    using edge_target_Some [OF moves(1)] eyes_role_Some [OF moves(3)] moves(4,5,8)
    by (auto simp: u eyes_edges_def split: if_splits)
qed simp_all

definition launched_row :: eyes_row where
  "launched_row = \<lparr>et_task = task_prefix @ ''0123456789ab'', et_req_scope = ''ws'', et_req_agent = ''id-a'',
     et_launcher = ''broker-1'', et_runtime = ''claude'', et_state = Queued, et_created = 110, et_updated = 110,
     et_deadline = 300, et_acked = False, et_launcher_scope = ar_scope broker_row, et_progress = [],
     et_heartbeat = 0\<rparr>"

definition launched_store :: store where
  "launched_store = broker_store\<lparr>eyes_tasks := [launched_row]\<rparr>"

definition broker_actor :: eyes_actor where
  "broker_actor = \<lparr>ea_scope = ar_scope broker_row, ea_session = ''broker-1'', ea_origin = relay_origin,
     ea_ref = empty_ref, ea_system = False\<rparr>"

lemmas desk_defs = launched_store_def launched_row_def broker_store_def office_def plain_agent_def broker_row_def
  empty_store_def

lemma launched_task: "eyes_task (task_prefix @ ''0123456789ab'') launched_store = Inr launched_row"
  by (simp add: eyes_task_def launched_store_def launched_row_def)

lemma schema_ok_launched: "schema_ok launched_store"
  by (simp add: schema_ok_def desk_defs agent_key_def agent_name_key_def)

lemma broker_accepts:
  "\<exists>s' t'. move_eyes_task (task_prefix @ ''0123456789ab'') ''accepted'' broker_actor msg (from_unix 120) launched_store
     = Inr (s', t', True)"
proof -
  have e: "edge_target ''accepted'' = Some (Accepted, [(RoleLauncher, [Queued])])"
    by (simp add: edge_target_def eyes_edges_def)
  have r: "eyes_role launched_row broker_actor launched_store = Some RoleLauncher"
    by (simp add: eyes_role_def broker_actor_def desk_defs relay_kind_def agent_at_def row_at_def at_session_def
        identity_row_def relay_origin_def eyes_session_def kind_launcher_def)
  have m: "\<exists>d. eyes_mail launched_row RoleLauncher broker_actor msg launched_store = Inr (Some d) \<and>
      ref_id (sn_ref (dv_from d)) = ''id-l'' \<and> dv_to_scope d = ''ws'' \<and> dv_to_name d = ''id-a''"
    by (simp add: eyes_mail_def task_voice_def broker_actor_def desk_defs agent_at_def row_at_def at_session_def
        report_delivery_def Let_def identity_row_def)
  then obtain d where d: "eyes_mail launched_row RoleLauncher broker_actor msg launched_store = Inr (Some d)"
    "ref_id (sn_ref (dv_from d)) = ''id-l''" "dv_to_scope d = ''ws''" "dv_to_name d = ''id-a''"
    by blast
  have "\<exists>s'. send_to_scope d (from_unix 120) (set_eyes k f launched_store) = Inr s'" for k f
    using d(2-4) by (simp add: send_to_scope_def delivery_sender_def delivery_targets_def resolve_agent_def
        row_named_def goes_by_def desk_defs Let_def insert_row_def)
  then obtain s' where s': "deliver_if (Some d) (from_unix 120) (set_eyes (task_prefix @ ''0123456789ab'')
      (\<lambda>x. x\<lparr>et_state := Accepted, et_updated := 120\<rparr>) launched_store) = Inr s'"
    unfolding deliver_if_def by (auto simp: option.case)
  have queued: "et_state launched_row = Queued" by (simp add: launched_row_def)
  show ?thesis
    unfolding move_eyes_task_def e launched_task by (simp add: r d(1) s' queued)
qed

theorem eyes_move_authorized_witness:
  "\<exists>s' t'. move_eyes_task (task_prefix @ ''0123456789ab'') ''accepted'' broker_actor [] (from_unix 120) launched_store
     = Inr (s', t', True) \<and> et_state t' = Accepted"
proof -
  obtain s' t' where m: "move_eyes_task (task_prefix @ ''0123456789ab'') ''accepted'' broker_actor []
      (from_unix 120) launched_store = Inr (s', t', True)"
    using broker_accepts by blast
  from eyes_move_authorized [OF m launched_task] have "et_state t' = Accepted"
    by (cases "et_state t'") auto
  then show ?thesis using m by blast
qed

section \<open>The sweep\<close>

text \<open>What the sweep makes of a task past its deadline.\<close>

definition settled_row :: "int \<Rightarrow> eyes_row \<Rightarrow> eyes_row" where
  "settled_row at t = (if et_state t = Cancelled then t\<lparr>et_acked := True\<rparr>
     else t\<lparr>et_state := Failed, et_updated := at\<rparr>)"

lemma voice_row:
  "agent_at sc sess s = Inr v \<Longrightarrow> \<exists>r \<in> set (agents s). v = identity_row r \<and> at_session sc sess r"
  "agent_at sc sess s = Inl e \<Longrightarrow> e = ErrNoSession"
  by (auto simp: agent_at_def row_at_def split: option.splits dest!: find_SomeD)

lemma task_voice_row:
  "task_voice t a s = Inr v \<Longrightarrow> \<exists>r \<in> set (agents s). v = identity_row r"
  "task_voice t a s = Inl e \<Longrightarrow> e = ErrNoSession"
  by (auto simp: task_voice_def split: if_splits sum.splits dest: voice_row)

lemma eyes_mail_system:
  "\<exists>d. eyes_mail t RoleSystem a msg s = Inr d \<and>
    (\<forall>m. d = Some m \<longrightarrow> (\<exists>v r. task_voice t a s = Inr v \<and> m = report_delivery t v msg \<and>
       resolve_agent (et_req_scope t) (et_req_agent t) s = Inr r))"
  by (cases "task_voice t a s"; cases "resolve_agent (et_req_scope t) (et_req_agent t) s")
    (auto simp: eyes_mail_def resolve_agent_def err_no_agent_def dest: task_voice_row split: option.splits)

lemma send_report:
  assumes "schema_ok s" and "\<forall>r \<in> set (agents s). ar_id r \<noteq> []"
    and "task_voice t a s = Inr v" and "resolve_agent (et_req_scope t) (et_req_agent t) s = Inr r"
    and "et_req_scope t \<noteq> []" and "et_req_agent t \<noteq> []"
  shows "\<exists>s'. send_to_scope (report_delivery t v msg) now (set_eyes task f s) = Inr s'"
proof -
  have "ri_id v \<noteq> []" using task_voice_row(1) [OF assms(3)] assms(2) by (auto simp: identity_row_def)
  moreover have "resolve_agent (et_req_scope t) (et_req_agent t) (set_eyes task f s) = Inr r"
    using assms(4) by (simp add: resolve_agent_def row_named_def)
  moreover have "\<forall>x \<in> set (deliveries s). dl_message x < next_message s"
    using assms(1) by (simp add: schema_ok_def list_all_iff)
  ultimately show ?thesis
    using assms(5,6) by (cases r) (auto simp: send_to_scope_Inr delivery_sender_def report_delivery_def
      Let_def delivery_targets_def insert_deliveries_iff)
qed

lemma sweep_edge: "edge_target ''failed'' = Some (Failed,
    [(RoleChild, [Queued, Accepted]), (RoleLauncher, [Queued]), (RoleSystem, [Queued, Accepted])])"
  by (simp add: edge_target_def eyes_edges_def)

lemma sweep_role: "eyes_role t the_sweep s = Some RoleSystem"
  by (simp add: eyes_role_def the_sweep_def)

lemma expire_one_settles:
  assumes "schema_ok s" and "\<forall>r \<in> set (agents s). ar_id r \<noteq> []"
    and "t \<in> set (eyes_tasks s)" and "et_task t = task" and "task_holds_broker t"
    and "et_req_scope t \<noteq> []" and "et_req_agent t \<noteq> []"
  shows "\<exists>s'. expire_one now task (s, n, lst) = (s', Suc n, lst) \<and> schema_ok s' \<and> agents s' = agents s \<and> claims s' = claims s \<and>
    eyes_tasks s' = update_where (\<lambda>x. et_task x = task) (settled_row (unix now)) (eyes_tasks s)"
proof -
  have t: "eyes_task task s = Inr t" using eyes_task_iff [OF assms(1)] assms(3,4) by blast
  have only: "x = t" if "x \<in> set (eyes_tasks s)" "et_task x = task" for x
    using eyes_task_iff [OF assms(1), of task x] that t by simp
  have same: "update_where (\<lambda>x. et_task x = task) (settled_row (unix now)) (eyes_tasks s)
      = update_where (\<lambda>x. et_task x = task) g (eyes_tasks s)" if "settled_row (unix now) t = g t" for g
    unfolding update_where_def using only that by auto
  show ?thesis
  proof (cases "et_state t = Cancelled")
    case True
    let ?s' = "set_eyes task (\<lambda>x. x\<lparr>et_acked := True\<rparr>) s"
    have "move_eyes_task task ''failed'' the_sweep (deadline_body task) now s = Inr (?s', t, False)"
      using True by (simp add: move_eyes_task_def sweep_edge t sweep_role acks_cancel_def)
    moreover have "schema_ok ?s'" by (rule schema_ok_set_eyes [OF assms(1)]) simp
    ultimately show ?thesis
      using True same [of "\<lambda>x. x\<lparr>et_acked := True\<rparr>"]
      by (auto simp: expire_one_def settled_row_def set_eyes_def)
  next
    case False
    let ?f = "\<lambda>x. x\<lparr>et_state := Failed, et_updated := unix now\<rparr>"
    obtain d where d: "eyes_mail t RoleSystem the_sweep (deadline_body task) s = Inr d"
      and some: "\<And>m. d = Some m \<Longrightarrow> \<exists>v r. task_voice t the_sweep s = Inr v \<and>
         m = report_delivery t v (deadline_body task) \<and> resolve_agent (et_req_scope t) (et_req_agent t) s = Inr r"
      using eyes_mail_system [of t the_sweep "deadline_body task" s] by blast
    have "\<exists>s'. deliver_if d now (set_eyes task ?f s) = Inr s'"
    proof (cases d)
      case (Some m)
      from some [OF this] obtain v r where v: "task_voice t the_sweep s = Inr v"
        "m = report_delivery t v (deadline_body task)" "resolve_agent (et_req_scope t) (et_req_agent t) s = Inr r"
        by blast
      from send_report [OF assms(1,2) v(1,3) assms(6,7)] show ?thesis
        unfolding Some v(2) by (simp add: deliver_if_def)
    qed (simp add: deliver_if_def)
    then obtain s' where s': "deliver_if d now (set_eyes task ?f s) = Inr s'" by blast
    have live: "et_state t = Queued \<or> et_state t = Accepted"
      using assms(5) False by (auto simp: task_holds_broker_def)
    then have "move_eyes_task task ''failed'' the_sweep (deadline_body task) now s = Inr (s', ?f t, True)"
      using False by (auto simp: move_eyes_task_def sweep_edge t sweep_role acks_cancel_def d s')
    moreover have "schema_ok (set_eyes task ?f s)" by (rule schema_ok_set_eyes [OF assms(1)]) simp
    ultimately show ?thesis
      using False same [of ?f] deliver_if_frame [OF s']
      by (auto simp: expire_one_def settled_row_def set_eyes_def)
  qed
qed

lemma settled_row_frame [simp]:
  "et_task (settled_row at t) = et_task t" "et_req_scope (settled_row at t) = et_req_scope t"
  "et_req_agent (settled_row at t) = et_req_agent t"
  by (simp_all add: settled_row_def)

lemma update_where_two:
  assumes "\<And>r. p r \<Longrightarrow> q (f r) = False"
  shows "update_where q f (update_where p f rs) = update_where (\<lambda>r. p r \<or> q r) f rs"
  using assms by (induction rs) auto

lemma sweep_settles:
  assumes "schema_ok s" and "\<forall>r \<in> set (agents s). ar_id r \<noteq> []" and "distinct tasks"
    and "\<forall>k \<in> set tasks. \<exists>t \<in> set (eyes_tasks s). et_task t = k \<and> task_holds_broker t \<and>
           et_req_scope t \<noteq> [] \<and> et_req_agent t \<noteq> []"
  shows "\<exists>s'. fold (expire_one now) tasks (s, n, lst) = (s', n + length tasks, lst) \<and> schema_ok s' \<and>
    agents s' = agents s \<and> claims s' = claims s \<and>
    eyes_tasks s' = update_where (\<lambda>x. et_task x \<in> set tasks) (settled_row (unix now)) (eyes_tasks s)"
  using assms
proof (induction tasks arbitrary: s n)
  case Nil
  then show ?case by (simp add: update_where_none)
next
  case (Cons k ks)
  obtain t where t: "t \<in> set (eyes_tasks s)" "et_task t = k" "task_holds_broker t"
      "et_req_scope t \<noteq> []" "et_req_agent t \<noteq> []"
    using Cons.prems(4) by auto
  obtain s1 where s1: "expire_one now k (s, n, lst) = (s1, Suc n, lst)" "schema_ok s1" "agents s1 = agents s" "claims s1 = claims s"
    "eyes_tasks s1 = update_where (\<lambda>x. et_task x = k) (settled_row (unix now)) (eyes_tasks s)"
    using expire_one_settles [OF Cons.prems(1,2) t] by blast
  have "\<exists>t \<in> set (eyes_tasks s1). et_task t = k' \<and> task_holds_broker t \<and> et_req_scope t \<noteq> [] \<and> et_req_agent t \<noteq> []"
    if "k' \<in> set ks" for k'
  proof -
    obtain u where u: "u \<in> set (eyes_tasks s)" "et_task u = k'" "task_holds_broker u"
        "et_req_scope u \<noteq> []" "et_req_agent u \<noteq> []"
      using Cons.prems(4) \<open>k' \<in> set ks\<close> by (metis list.set_intros(2))
    have "k' \<noteq> k" using Cons.prems(3) that by auto
    then have "u \<in> set (eyes_tasks s1)" using u(1,2) by (force simp: s1(5) set_update_where)
    then show ?thesis using u by blast
  qed
  then obtain s' where s': "fold (expire_one now) ks (s1, Suc n, lst) = (s', Suc n + length ks, lst)" "schema_ok s'"
    "agents s' = agents s1" "claims s' = claims s1"
    "eyes_tasks s' = update_where (\<lambda>x. et_task x \<in> set ks) (settled_row (unix now)) (eyes_tasks s1)"
    using Cons.IH [OF s1(2), of "Suc n"] Cons.prems(2,3) s1(3) by auto
  have "update_where (\<lambda>x. et_task x \<in> set ks) (settled_row (unix now)) (eyes_tasks s1)
      = update_where (\<lambda>x. et_task x = k \<or> et_task x \<in> set ks) (settled_row (unix now)) (eyes_tasks s)"
    unfolding s1(5) using Cons.prems(3) by (intro update_where_two) auto
  then show ?case using s' s1 by simp
qed

lemma swept_rows:
  assumes "schema_ok s" and "\<forall>r \<in> set (agents s). ar_id r \<noteq> []"
    and "\<forall>t \<in> set (eyes_tasks s). et_req_scope t \<noteq> [] \<and> et_req_agent t \<noteq> []"
  shows "\<exists>s'. expire_eyes_tasks now s = (s', count_where (overdue (unix now)) (eyes_tasks s), None) \<and>
    schema_ok s' \<and> agents s' = agents s \<and> claims s' = claims s \<and>
    eyes_tasks s' = update_where (overdue (unix now)) (settled_row (unix now)) (eyes_tasks s) \<and>
    (\<forall>t \<in> set (eyes_tasks s'). \<not> overdue (unix now) t)"
proof -
  let ?late = "filter (overdue (unix now)) (eyes_tasks s)"
  have keys: "unique_key et_task (eyes_tasks s)" using assms(1) by (simp add: schema_ok_def)
  have ids: "set (expired_tasks now s) = et_task ` set ?late" by (simp add: expired_tasks_def)
  have "distinct (map et_task ?late)"
    using keys by (simp add: unique_key_def distinct_map_filter)
  then have dist: "distinct (expired_tasks now s)"
    unfolding expired_tasks_def by (simp add: distinct_map)
  have all: "\<forall>k \<in> set (expired_tasks now s). \<exists>t \<in> set (eyes_tasks s). et_task t = k \<and> task_holds_broker t \<and>
           et_req_scope t \<noteq> [] \<and> et_req_agent t \<noteq> []"
    using assms(3) by (auto simp: ids overdue_def)
  obtain s' where s': "expire_eyes_tasks now s = (s', length (expired_tasks now s), None)" "schema_ok s'"
    "agents s' = agents s" "claims s' = claims s"
    "eyes_tasks s' = update_where (\<lambda>x. et_task x \<in> set (expired_tasks now s)) (settled_row (unix now)) (eyes_tasks s)"
    using sweep_settles [OF assms(1,2) dist all, of now 0 None] by (auto simp: expire_eyes_tasks_def)
  have late: "et_task x \<in> set (expired_tasks now s) \<longleftrightarrow> overdue (unix now) x" if "x \<in> set (eyes_tasks s)" for x
    using that unique_keyD [OF keys] by (auto simp: ids image_iff)
  have rows: "eyes_tasks s' = update_where (overdue (unix now)) (settled_row (unix now)) (eyes_tasks s)"
    unfolding s'(5) update_where_def using late by auto
  have "\<not> overdue at (settled_row at x)" for at x
    by (simp add: overdue_def settled_row_def task_holds_broker_def)
  then show ?thesis
    using s' rows by (auto simp: expired_tasks_def count_where_def set_update_where)
qed

text \<open>
  The sweep settles exactly the overdue tasks, and always: a live task past its deadline ends
  as failed, a cancelled one nobody answered is acknowledged so that its broker is free again,
  every other task is left as it is, the count it returns is the number settled, it never stops
  on an error, and no task that is past its deadline holds a broker afterwards.
\<close>

theorem sweep_settles_overdue:
  assumes "schema_ok s" and "\<forall>r \<in> set (agents s). ar_id r \<noteq> []"
    and "\<forall>t \<in> set (eyes_tasks s). et_req_scope t \<noteq> [] \<and> et_req_agent t \<noteq> []"
  shows "\<exists>s'. expire_eyes_tasks now s = (s', count_where (overdue (unix now)) (eyes_tasks s), None) \<and>
    schema_ok s' \<and> agents s' = agents s \<and>
    eyes_tasks s' = update_where (overdue (unix now)) (settled_row (unix now)) (eyes_tasks s) \<and>
    (\<forall>t \<in> set (eyes_tasks s'). \<not> overdue (unix now) t)"
  using swept_rows [OF assms] by blast

theorem sweep_settles_overdue_witness:
  "\<exists>s'. expire_eyes_tasks (from_unix 1000) launched_store = (s', 1, None) \<and>
     eyes_tasks s' = [launched_row\<lparr>et_state := Failed, et_updated := 1000\<rparr>]"
proof -
  have "overdue 1000 launched_row" by (simp add: overdue_def task_holds_broker_def launched_row_def)
  moreover have "\<forall>r \<in> set (agents launched_store). ar_id r \<noteq> []" by (simp add: desk_defs)
  moreover have "\<forall>t \<in> set (eyes_tasks launched_store). et_req_scope t \<noteq> [] \<and> et_req_agent t \<noteq> []"
    by (simp add: launched_store_def launched_row_def)
  ultimately show ?thesis
    using sweep_settles_overdue [OF schema_ok_launched, of "from_unix 1000"]
    by (auto simp: launched_store_def settled_row_def launched_row_def)
qed

section \<open>Moves and mail\<close>

lemma eyes_mail_Some:
  assumes "eyes_mail t role a msg s = Inr (Some d)"
  shows "dv_task d = et_task t \<and>
    (if role = RoleRequester then
       (\<exists>l from. agent_at (et_launcher_scope t) (et_launcher t) s = Inr l \<and> d = cancel_delivery t l from)
     else \<exists>v. task_voice t a s = Inr v \<and> d = report_delivery t v msg)"
  using assms
  by (auto simp: eyes_mail_def bind_sum_Inr_iff cancel_delivery_def report_delivery_def Let_def
      split: if_splits sum.splits)

lemma eyes_mail_None:
  assumes "eyes_mail t role a msg s = Inr None"
  shows "role = RoleSystem \<or> role = RoleRequester \<and> agent_at (et_launcher_scope t) (et_launcher t) s = Inl ErrNoSession"
  using assms voice_row(2)
  by (auto simp: eyes_mail_def bind_sum_Inr_iff split: if_splits sum.splits)

lemma requester_cancels:
  "(target, edge) \<in> set eyes_edges \<Longrightarrow> map_of edge role = Some froms \<Longrightarrow> role = RoleRequester \<longleftrightarrow> target = Cancelled"
  by (auto simp: eyes_edges_def split: if_splits)

lemma only_system_fails:
  "(target, edge) \<in> set eyes_edges \<Longrightarrow> map_of edge RoleSystem = Some froms \<Longrightarrow> target = Failed"
  by (auto simp: eyes_edges_def split: if_splits)

text \<open>
  C18. A state change and its mail are one step: a request that moves nothing writes no mail; one
  that moves the task writes exactly one message, stamped with the task: the cancel goes to the
  broker's row, every report goes to the agent that asked for the task and is the text that was
  handed in. Only the sweep, and a cancel of a task whose broker row is gone, may move a task
  without a message.
\<close>

theorem move_and_mail_together:
  assumes "move_eyes_task task to a msg now s = Inr (s', t', moved)" and "eyes_task task s = Inr t"
    and "et_req_scope t \<noteq> []" and "et_req_agent t \<noteq> []" and "\<forall>r \<in> set (agents s). ar_scope r \<noteq> [] \<and> ar_id r \<noteq> []"
  shows "if \<not> moved \<or> messages s' = messages s then
      messages s' = messages s \<and> deliveries s' = deliveries s \<and>
      (moved \<longrightarrow> to = ''failed'' \<and> ea_system a \<or>
         to = ''cancelled'' \<and> agent_at (et_launcher_scope t) (et_launcher t) s = Inl ErrNoSession)
    else \<exists>m q. messages s' = messages s @ [m] \<and> mr_task m = task \<and> mr_to m = Some (ar_id q) \<and>
      deliveries s' = deliveries s @ [unread_row (mr_id m) (ar_id q)] \<and>
      (if to = ''cancelled'' then
         mr_body m = json_print (cancel_json \<lparr>cm_type = task_cancel_type, cm_task = task\<rparr>) \<and>
         (\<exists>l. agent_at (et_launcher_scope t) (et_launcher t) s = Inr l \<and> row_named (ri_scope l) (ri_id l) s = Some q)
       else mr_body m = msg \<and> row_named (et_req_scope t) (et_req_agent t) s = Some q)"
  using assms(1)
proof (cases rule: move_eyes_Inr)
  case (moves target edge u role froms d)
  have u: "u = t" and id: "et_task t = task" using moves(2) assms(2) eyes_taskD by auto
  let ?s1 = "set_eyes task (\<lambda>x. x\<lparr>et_state := target, et_updated := unix now\<rparr>) s"
  note edge = edge_target_Some [OF moves(1), unfolded fst_conv]
  have cancel: "role = RoleRequester \<longleftrightarrow> to = ''cancelled''"
    using requester_cancels [OF _ moves(4)] edge by (cases target) auto
  show ?thesis
  proof (cases d)
    case None
    have "role = RoleSystem \<Longrightarrow> to = ''failed''"
      using only_system_fails [of target edge froms] edge moves(4) by auto
    then have "to = ''failed'' \<and> ea_system a \<or>
        to = ''cancelled'' \<and> agent_at (et_launcher_scope t) (et_launcher t) s = Inl ErrNoSession"
      using eyes_mail_None [OF moves(6) [unfolded None]] eyes_role_Some [OF moves(3)] cancel u by auto
    moreover have "messages s' = messages s \<and> deliveries s' = deliveries s"
      using moves(7) None by (auto simp: deliver_if_def)
    ultimately show ?thesis by simp
  next
    case (Some x)
    note mail = eyes_mail_Some [OF moves(6) [unfolded Some u]]
    have dest: "dv_to_name x \<noteq> [] \<and> dv_to_scope x \<noteq> []"
      using mail assms(3-5) voice_row(1)
      by (auto simp: cancel_delivery_def report_delivery_def Let_def identity_row_def dest!: voice_row(1) split: if_splits)
    have sent: "send_to_scope x now ?s1 = Inr s'" using moves(7) Some by (simp add: deliver_if_def)
    from send_named [OF this] dest obtain m q where m: "messages s' = messages s @ [m]"
      "deliveries s' = deliveries s @ [unread_row (mr_id m) (ar_id q)]"
      "row_named (dv_to_scope x) (dv_to_name x) s = Some q" "mr_to m = Some (ar_id q)"
      "mr_task m = dv_task x" "mr_body m = dv_body x"
      by (auto simp: row_named_def)
    show ?thesis
      using m mail cancel moves(9) id
      by (auto simp: cancel_delivery_def report_delivery_def Let_def split: if_splits)
  qed
qed (simp_all)

theorem move_and_mail_together_witness:
  "\<exists>s' t' m. move_eyes_task (task_prefix @ ''0123456789ab'') ''accepted'' broker_actor ''yes'' (from_unix 120)
     launched_store = Inr (s', t', True) \<and> messages s' = [m] \<and> mr_body m = ''yes''"
proof -
  obtain s' t' where m: "move_eyes_task (task_prefix @ ''0123456789ab'') ''accepted'' broker_actor ''yes''
      (from_unix 120) launched_store = Inr (s', t', True)"
    using broker_accepts by blast
  have r: "et_req_scope launched_row \<noteq> []" "et_req_agent launched_row \<noteq> []" "messages launched_store = []"
    "\<forall>r \<in> set (agents launched_store). ar_scope r \<noteq> [] \<and> ar_id r \<noteq> []"
    by (simp_all add: desk_defs)
  from move_and_mail_together [OF m launched_task r(1,2,4)] show ?thesis
    using m r(3) by (auto split: if_splits)
qed

section \<open>Samples\<close>

definition int64 :: "int \<Rightarrow> bool" where
  "int64 i \<longleftrightarrow> - (2 ^ 63) \<le> i \<and> i < 2 ^ 63"

definition int64_sample :: "eyes_progress \<Rightarrow> bool" where
  "int64_sample p \<longleftrightarrow> int64 (ep_turns p) \<and> int64 (ep_mailed_at p) \<and> int64 (ep_mailed_turns p)"

lemma put_int_fits: "parse_int64 t = Some i \<Longrightarrow> int64 i"
  by (auto simp: parse_int64_def int64_def Let_def split: if_splits)

lemma decoded_fits: "int64_sample (decode_eyes_progress raw)"
proof -
  have keep: "int64_sample (fst (d j a))" if "(k, d) \<in> set eyes_progress_fields" "int64_sample a" for k d j a
    using that put_int_fits
    by (auto simp: eyes_progress_fields_def put_int_def put_text_def int64_sample_def split: json.splits option.splits)
  have zero: "int64_sample zero_eyes_progress" by (simp add: int64_sample_def int64_def zero_eyes_progress_def)
  have "int64_sample (fst (dec_members False eyes_progress_fields kvs zero_eyes_progress))" for kvs
    by (rule dec_members_keeps [where P = int64_sample, OF _ zero]) (rule keep)
  then show ?thesis
    using zero by (auto simp: decode_eyes_progress_def unmarshal_into_def dec_struct_def split: option.splits json.splits)
qed

lemma tool_ascii: "list_all tool_char t \<Longrightarrow> valid_utf8 t"
  by (rule valid_utf8_ascii)
    (auto simp: is_ascii_def list_all_iff tool_char_def is_lower_def is_upper_def is_digit_def byte_def)

lemma sample_keys [simp]: "valid_utf8 ''mailed_at''" "valid_utf8 ''mailed_turns''"
  by (simp_all add: valid_utf8_ascii is_ascii_def byte_def)

lemma sample_roundtrip:
  assumes "int64_sample p" and "list_all tool_char (ep_tool p)"
  shows "decode_eyes_progress (json_print (eyes_progress_json p)) = p"
proof -
  have wf: "wf_json (eyes_progress_json p)" "json_depth (eyes_progress_json p) = 1"
    using tool_ascii [OF assms(2)]
    by (auto simp: eyes_progress_json_def opt_int_def opt_text_def)
  have "json_unmarshal (json_print (eyes_progress_json p)) = Some (eyes_progress_json p)"
    by (rule unmarshal_printed) (use wf in \<open>simp_all add: max_nesting_def\<close>)
  moreover have "json_print (eyes_progress_json p) \<noteq> []" by (simp add: eyes_progress_json_def)
  moreover have "fst (dec_struct False eyes_progress_fields (eyes_progress_json p) zero_eyes_progress) = p"
    using assms(1)
    by (cases p) (auto simp: dec_struct_def eyes_progress_json_def eyes_progress_fields_def opt_int_def opt_text_def
        find_field_def zero_eyes_progress_def both_def Let_def int64_sample_def int64_def)
  ultimately show ?thesis by (simp add: decode_eyes_progress_def unmarshal_into_def)
qed

lemma clean_tool_clean: "list_all tool_char (clean_eyes_tool n) \<and> length (clean_eyes_tool n) \<le> max_tool_bytes"
  by (simp add: clean_eyes_tool_def Let_def)

lemma next_sample:
  assumes "next_eyes_progress t p at = (nx, due)" and "prev = decode_eyes_progress (et_progress t)"
  shows "ep_turns nx = min (max (ep_turns p) (ep_turns prev)) max_turns"
    and "list_all tool_char (ep_tool nx) \<and> length (ep_tool nx) \<le> max_tool_bytes"
    and "due \<longleftrightarrow> ep_mailed_at prev \<noteq> 0 \<and> progress_interval \<le> at - ep_mailed_at prev \<and> ep_mailed_turns prev < ep_turns nx"
    and "if due \<or> ep_mailed_at prev = 0 then ep_mailed_at nx = at \<and> ep_mailed_turns nx = ep_turns nx
         else ep_mailed_at nx = ep_mailed_at prev \<and> ep_mailed_turns nx = ep_mailed_turns prev"
proof -
  let ?turns = "min (max (ep_turns p) (ep_turns prev)) max_turns"
  let ?named = "clean_eyes_tool (ep_tool p)"
  let ?due = "ep_mailed_at prev \<noteq> 0 \<and> progress_interval \<le> at - ep_mailed_at prev \<and> ep_mailed_turns prev < ?turns"
  note run = assms(1) [unfolded next_eyes_progress_def Let_def assms(2) [symmetric] prod.inject]
  have due: "due = ?due" using run by simp
  then have nx: "nx = (if due \<or> ep_mailed_at prev = 0
       then \<lparr>ep_turns = ?turns, ep_tool = if ?named = [] then clean_eyes_tool (ep_tool prev) else ?named,
              ep_mailed_at = at, ep_mailed_turns = ?turns\<rparr>
       else \<lparr>ep_turns = ?turns, ep_tool = if ?named = [] then clean_eyes_tool (ep_tool prev) else ?named,
              ep_mailed_at = ep_mailed_at prev, ep_mailed_turns = ep_mailed_turns prev\<rparr>)"
    using run by simp
  show "ep_turns nx = ?turns" by (simp add: nx)
  then show "due \<longleftrightarrow> ep_mailed_at prev \<noteq> 0 \<and> progress_interval \<le> at - ep_mailed_at prev \<and>
      ep_mailed_turns prev < ep_turns nx"
    using due by simp
  show "list_all tool_char (ep_tool nx) \<and> length (ep_tool nx) \<le> max_tool_bytes"
    using clean_tool_clean by (simp add: nx)
  show "if due \<or> ep_mailed_at prev = 0 then ep_mailed_at nx = at \<and> ep_mailed_turns nx = ep_turns nx
         else ep_mailed_at nx = ep_mailed_at prev \<and> ep_mailed_turns nx = ep_mailed_turns prev"
    by (simp add: nx)
qed

lemma next_fits:
  assumes "next_eyes_progress t p at = (nx, due)" and "int64 (ep_turns p)" and "int64 at"
  shows "int64_sample nx"
proof -
  note n = next_sample [OF assms(1) refl]
  have prev: "int64_sample (decode_eyes_progress (et_progress t))" by (rule decoded_fits)
  have "int64 (ep_turns nx)"
    using prev assms(2) unfolding n(1) by (auto simp: int64_sample_def int64_def min_def max_def max_turns_def)
  then show ?thesis using n(4) prev assms(3) by (auto simp: int64_sample_def split: if_splits)
qed

text \<open>
  A progress sample is bounded, content-free and throttled: the stored turn count never goes
  down and never exceeds its cap, the tool name is at most 64 bytes of the plain alphabet, what is
  stored decodes to exactly what was reported back, and the requester gets a copy, exactly one and
  built from that record, only when two minutes have passed since the last one and the turns have
  advanced; any other sample writes no mail.
\<close>

theorem progress_sample:
  assumes "schema_ok s" and "record_eyes_progress task a p now s = Inr (s', nx, due)"
    and "eyes_task task s = Inr t" and "prev = decode_eyes_progress (et_progress t)"
    and "int64 (ep_turns p)" and "int64 (unix now)"
  shows "ep_turns nx = min (max (ep_turns p) (ep_turns prev)) max_turns \<and>
    list_all tool_char (ep_tool nx) \<and> length (ep_tool nx) \<le> 64 \<and>
    (due \<longleftrightarrow> ep_mailed_at prev \<noteq> 0 \<and> ep_mailed_at prev + 120 \<le> unix now \<and> ep_mailed_turns prev < ep_turns nx) \<and>
    (due \<longrightarrow> ep_mailed_at nx = unix now \<and> (\<exists>m. messages s' = messages s @ [m] \<and> mr_task m = task \<and>
       mr_body m = progress_body t nx (unix now))) \<and>
    (\<not> due \<longrightarrow> messages s' = messages s \<and> deliveries s' = deliveries s) \<and>
    (\<exists>t'. eyes_task task s' = Inr t' \<and> decode_eyes_progress (et_progress t') = nx \<and> et_heartbeat t' = unix now)"
proof -
  obtain u role d where u: "eyes_task task s = Inr u" and role: "role = RoleChild \<or> role = RoleLauncher"
    and n0: "next_eyes_progress u p (unix now) = (nx, due)"
    and del: "deliver_if d now (write_eyes_progress u nx (unix now) s) = Inr s'"
    and mail: "if due then eyes_mail u role a (progress_body u nx (unix now))
             (write_eyes_progress u nx (unix now) s) = Inr d else d = None"
    by (rule record_Inr [OF assms(2)]) blast
  have ut: "u = t" and id: "et_task t = task" using u assms(3) eyes_taskD by auto
  note n = next_sample [OF n0 [unfolded ut] assms(4)]
  let ?s1 = "write_eyes_progress t nx (unix now) s"
  let ?t' = "t\<lparr>et_progress := json_print (eyes_progress_json nx), et_heartbeat := unix now\<rparr>"
  have "List.find (\<lambda>x. et_task x = task) (eyes_tasks s) = Some t"
    using assms(3) by (auto simp: eyes_task_def split: option.splits)
  then have "eyes_task task ?s1 = Inr ?t'"
    by (simp add: eyes_task_def write_eyes_progress_def find_update_where id)
  then have row: "eyes_task task s' = Inr ?t'"
    using deliver_if_frame(2) [OF del] by (simp add: eyes_task_def ut)
  have restored: "decode_eyes_progress (json_print (eyes_progress_json nx)) = nx"
    using sample_roundtrip next_fits [OF n0 assms(5,6)] n(2) by blast
  have same: "messages ?s1 = messages s" "deliveries ?s1 = deliveries s"
    by (simp_all add: write_eyes_progress_def)
  have "\<exists>m. messages s' = messages s @ [m] \<and> mr_task m = task \<and> mr_body m = progress_body t nx (unix now)" if "due"
  proof (cases d)
    case None
    then have "eyes_mail u role a (progress_body u nx (unix now)) (write_eyes_progress u nx (unix now) s) = Inr None"
      using mail that by simp
    from eyes_mail_None [OF this] role show ?thesis by auto
  next
    case (Some x)
    have "eyes_mail u role a (progress_body u nx (unix now)) (write_eyes_progress u nx (unix now) s) = Inr (Some x)"
      using mail that Some by simp
    from eyes_mail_Some [OF this] have "dv_task x = task \<and> dv_body x = progress_body t nx (unix now)"
      using role ut id by (auto simp: report_delivery_def Let_def)
    then show ?thesis
      using del same(1) by (auto simp: Some deliver_if_def send_to_scope_Inr new_message_def Let_def ut)
  qed
  moreover have "messages s' = messages s \<and> deliveries s' = deliveries s" if "\<not> due"
    using del mail that same by (auto simp: deliver_if_def ut)
  ultimately show ?thesis
    using n row restored by (auto simp: max_tool_bytes_def progress_interval_def)
qed

definition first_sample :: eyes_progress where
  "first_sample = zero_eyes_progress\<lparr>ep_turns := 3, ep_tool := ''navigate''\<rparr>"

theorem progress_sample_witness:
  "\<exists>s' nx. record_eyes_progress (task_prefix @ ''0123456789ab'') broker_actor first_sample (from_unix 130)
     launched_store = Inr (s', nx, False) \<and> ep_turns nx = 3"
proof -
  have r: "eyes_role launched_row broker_actor launched_store = Some RoleLauncher"
    by (simp add: eyes_role_def broker_actor_def desk_defs relay_kind_def agent_at_def row_at_def at_session_def
        identity_row_def relay_origin_def eyes_session_def kind_launcher_def)
  have queued: "et_state launched_row = Queued" by (simp add: launched_row_def)
  obtain nx due where n: "next_eyes_progress launched_row first_sample 130 = (nx, due)" by fastforce
  have fresh: "decode_eyes_progress (et_progress launched_row) = zero_eyes_progress"
    by (simp add: launched_row_def decode_eyes_progress_def)
  have "\<not> due" using next_sample(3) [OF n refl] by (simp add: fresh zero_eyes_progress_def)
  then obtain s' where s': "record_eyes_progress (task_prefix @ ''0123456789ab'') broker_actor first_sample
      (from_unix 130) launched_store = Inr (s', nx, due)"
    by (simp add: record_eyes_progress_def launched_task r queued n)
  have fits: "int64 (ep_turns first_sample)" "int64 (unix (from_unix 130))"
    by (simp_all add: int64_def first_sample_def)
  from progress_sample [OF schema_ok_launched s' launched_task refl fits] show ?thesis
    using s' \<open>\<not> due\<close> by (intro exI [of _ s'] exI [of _ nx])
      (simp add: fresh zero_eyes_progress_def first_sample_def max_turns_def)
qed

section \<open>The child's secret\<close>

lemma others_update:
  assumes "\<And>r. at_session sc se (f r) = at_session sc se r"
  shows "filter (\<lambda>r. \<not> at_session sc se r) (update_where (at_session sc se) f rs)
    = filter (\<lambda>r. \<not> at_session sc se r) rs"
  using assms by (induction rs) (auto simp: at_session_def)

lemma strangers_kept:
  assumes "filter (\<lambda>r. \<not> at_session sc se r) rs = filter (\<lambda>r. \<not> at_session sc se r) rs'"
  shows "filter (\<lambda>r. ar_session r \<noteq> se) rs = filter (\<lambda>r. ar_session r \<noteq> se) rs'"
proof -
  have "filter (\<lambda>r. ar_session r \<noteq> se) xs = filter (\<lambda>r. ar_session r \<noteq> se) (filter (\<lambda>r. \<not> at_session sc se r) xs)" for xs
    by (induction xs) (auto simp: at_session_def)
  then show ?thesis using assms by metis
qed

text \<open>
  The secret of a task's child session is handed out only to the broker of the task, and only
  while the task is not settled: the caller names the launcher the task was given to and presents
  that launcher's own secret. What it gets is the secret of a fresh or renewed eyes row in the
  requester's workspace, under the session of the task; every row of another session is as it was,
  the task ledger too, and relay sessions still name one row each.
\<close>

theorem reissue_child_guarded:
  assumes "schema_ok s" and "relay_single s"
    and "reissue_eyes_child task launcher lsecret fresh now s = Inr (s', name, secret)"
  shows "\<exists>t l c. eyes_task task s = Inr t \<and> unsettled t \<and> et_launcher t = launcher \<and>
    l \<in> set (agents s) \<and> at_session (et_launcher_scope t) launcher l \<and> ar_origin l = relay_origin \<and>
    ar_kind l = kind_launcher \<and> ar_secret l = sha256_hex lsecret \<and>
    row_at (et_req_scope t) (eyes_session task) s' = Some c \<and> ar_name c = name \<and> ar_kind c = kind_eyes \<and>
    ar_origin c = relay_origin \<and> ar_secret c = sha256_hex secret \<and> secret = fresh \<and>
    filter (\<lambda>r. ar_session r \<noteq> eyes_session task) (agents s')
      = filter (\<lambda>r. ar_session r \<noteq> eyes_session task) (agents s) \<and>
    eyes_tasks s' = eyes_tasks s \<and> schema_ok s' \<and> relay_single s'"
proof -
  obtain t l s1 where t: "eyes_task task s = Inr t" "et_launcher t = launcher" "unsettled t"
    and l: "row_at (et_launcher_scope t) launcher s = Some l" "ar_origin l = relay_origin"
      "ar_kind l = kind_launcher" "ar_secret l = sha256_hex lsecret"
    and alone: "\<forall>r \<in> set (agents s). ar_session r = eyes_session task \<longrightarrow>
          ar_scope r = et_req_scope t \<and> ar_origin r = relay_origin \<and> ar_kind r = kind_eyes"
    and reg: "register quiet (et_req_scope t) (eyes_session task) ''relay'' now s = (s1, Inr name)"
    and s': "s' = agents_update (update_where (at_session (et_req_scope t) (eyes_session task))
        (\<lambda>r. r\<lparr>ar_kind := kind_eyes, ar_origin := relay_origin, ar_secret := sha256_hex fresh\<rparr>)) s1"
    and secret: "secret = fresh"
    by (rule reissue_Inr [OF assms(3)]) blast
  let ?sc = "et_req_scope t" and ?se = "eyes_session task"
  let ?f = "\<lambda>r. r\<lparr>ar_kind := kind_eyes, ar_origin := relay_origin, ar_secret := sha256_hex fresh\<rparr>"
  note rows = reissue_rows [OF assms(1,3)]
  obtain r where r: "row_at ?sc ?se s1 = Some r" "ar_name r = name" by (rule register_row [OF reg])
  have "at_session ?sc ?se r" using row_atD [OF r(1)] by (simp add: at_session_def)
  then have mine: "row_at ?sc ?se s' = Some (?f r)"
    using r(1) unfolding s' row_at_def by (simp add: find_update_where at_session_def)
  have others: "filter (\<lambda>r. \<not> at_session ?sc ?se r) (agents s') = filter (\<lambda>r. \<not> at_session ?sc ?se r) (agents s)"
    using register_others [OF reg] others_update [of ?sc ?se ?f "agents s1"] by (simp add: s') (simp add: at_session_def)
  note strangers = strangers_kept [OF others]
  have cover: "x = ?f r \<or> x \<in> set (agents s) \<and> ar_session x \<noteq> ?se" if "x \<in> set (agents s')" for x
  proof (cases "at_session ?sc ?se x")
    case True
    then have "row_at ?sc ?se s' = Some x" using that row_at_iff [of s'] rows by (simp add: at_session_def)
    then show ?thesis using mine by simp
  next
    case False
    then have "x \<in> set (agents s)" using others_then_mine [OF others that] by simp
    then show ?thesis using False alone by (auto simp: at_session_def)
  qed
  have "ar_session (?f r) = ?se" using \<open>at_session ?sc ?se r\<close> by (simp add: at_session_def)
  then have "relay_single s'"
    using cover assms(2) unfolding relay_single_def by metis
  then show ?thesis
    using t l mine r(2) secret strangers rows row_atD [OF l(1)] by (auto simp: at_session_def)
qed

definition child_row :: agent_row where
  "child_row = (plain_agent ''ws'' (eyes_session (task_prefix @ ''0123456789ab'')) ''id-e'' ''warm-elk'' 110)
     \<lparr>ar_kind := kind_eyes, ar_origin := relay_origin\<rparr>"

definition child_store :: store where
  "child_store = launched_store\<lparr>agents := agents launched_store @ [child_row]\<rparr>"

lemma child_reissued:
  "\<exists>s' name. reissue_eyes_child (task_prefix @ ''0123456789ab'') ''broker-1'' ''s'' ''child'' (from_unix 130)
     child_store = Inr (s', name, ''child'')"
proof -
  let ?k = "task_prefix @ ''0123456789ab''" and ?se = "eyes_session (task_prefix @ ''0123456789ab'')"
  have t: "eyes_task ?k child_store = Inr launched_row"
    using launched_task by (simp add: eyes_task_def child_store_def)
  have row: "unsettled launched_row" "et_launcher launched_row = ''broker-1''" "et_launcher_scope launched_row = ''host:PC''"
    "et_req_scope launched_row = ''ws''"
    by (simp_all add: unsettled_def desk_defs)
  have l: "agent_at ''host:PC'' ''broker-1'' child_store = Inr (identity_row broker_row)"
    by (simp add: agent_at_def row_at_def at_session_def child_store_def desk_defs)
  have lrow: "ri_origin (identity_row broker_row) = relay_origin" "ri_kind (identity_row broker_row) = kind_launcher"
    "ri_secret (identity_row broker_row) = sha256_hex ''s''"
    by (simp_all add: identity_row_def broker_row_def)
  have alone: "count_where (\<lambda>r. ar_session r = ?se \<and> \<not> (ar_scope r = ''ws'' \<and> ar_origin r = relay_origin \<and>
      ar_kind r = kind_eyes)) (agents child_store) = 0"
    by (simp add: child_store_def child_row_def desk_defs eyes_session_def)
  have mine: "row_at ''ws'' ?se child_store = Some child_row"
    by (simp add: row_at_def at_session_def child_store_def child_row_def desk_defs eyes_session_def)
  obtain s1 where reg: "register quiet ''ws'' ?se ''relay'' (from_unix 130) child_store = (s1, Inr (ar_name child_row))"
    by (simp add: register_quiet mine)
  show ?thesis
    by (simp add: reissue_eyes_child_def t row l lrow Let_def alone [simplified] reg)
qed

lemma relay_single_child_store: "relay_single child_store"
proof -
  have rows: "agents child_store = agents office @ [broker_row, child_row]"
    by (simp add: child_store_def launched_store_def broker_store_def)
  have "\<forall>r \<in> set (agents office). ar_origin r \<noteq> relay_origin"
    by (simp add: office_def plain_agent_def relay_origin_def)
  moreover have "ar_session broker_row \<noteq> ar_session child_row"
    by (simp add: broker_row_def child_row_def plain_agent_def eyes_session_def)
  ultimately show ?thesis unfolding relay_single_def rows by auto
qed

theorem reissue_child_guarded_witness:
  "\<exists>s' name. reissue_eyes_child (task_prefix @ ''0123456789ab'') ''broker-1'' ''s'' ''child'' (from_unix 130)
     child_store = Inr (s', name, ''child'') \<and> eyes_tasks s' = eyes_tasks child_store"
proof -
  obtain s' name where run: "reissue_eyes_child (task_prefix @ ''0123456789ab'') ''broker-1'' ''s'' ''child'' (from_unix 130)
     child_store = Inr (s', name, ''child'')"
    using child_reissued by blast
  have "schema_ok child_store"
    using schema_ok_launched
    by (simp add: schema_ok_def child_store_def child_row_def desk_defs agent_key_def agent_name_key_def eyes_session_def)
  note ok = this relay_single_child_store
  show ?thesis using run reissue_child_guarded [OF ok run] by blast
qed

section \<open>A task's life\<close>

text \<open>
  The lifecycle on a concrete task: its broker accepts it; or the agent that asked for it cancels
  it while it is queued, and the sweep acknowledges the cancel in the broker's place.
\<close>

definition requester_actor :: eyes_actor where
  "requester_actor = \<lparr>ea_scope = ''ws'', ea_session = ''a'', ea_origin = [],
     ea_ref = \<lparr>ref_name = ''calm-fox'', ref_id = ''id-a'', ref_scope = ''ws''\<rparr>, ea_system = False\<rparr>"

lemma requester_cancels_task:
  "\<exists>s' t'. move_eyes_task (task_prefix @ ''0123456789ab'') ''cancelled'' requester_actor [] (from_unix 120) launched_store
     = Inr (s', t', True)"
proof -
  have e: "\<exists>froms. edge_target ''cancelled'' = Some (Cancelled, [(RoleRequester, froms)]) \<and> Queued \<in> set froms"
    by (simp add: edge_target_def eyes_edges_def)
  then obtain froms where e: "edge_target ''cancelled'' = Some (Cancelled, [(RoleRequester, froms)])" "Queued \<in> set froms"
    by blast
  have r: "eyes_role launched_row requester_actor launched_store = Some RoleRequester"
    by (simp add: eyes_role_def requester_actor_def launched_row_def relay_origin_def acts_for_def)
  have "\<exists>d. eyes_mail launched_row RoleRequester requester_actor [] launched_store = Inr (Some d) \<and>
      ref_id (sn_ref (dv_from d)) = ''id-a'' \<and> dv_to_scope d = ''host:PC'' \<and> dv_to_name d = ''id-l''"
    by (simp add: eyes_mail_def desk_defs agent_at_def row_at_def at_session_def cancel_delivery_def identity_row_def
        resolve_sender_def row_named_def goes_by_def)
  then obtain d where d: "eyes_mail launched_row RoleRequester requester_actor [] launched_store = Inr (Some d)"
    "ref_id (sn_ref (dv_from d)) = ''id-a''" "dv_to_scope d = ''host:PC''" "dv_to_name d = ''id-l''"
    by blast
  have "\<exists>s'. send_to_scope d (from_unix 120) (set_eyes k f launched_store) = Inr s'" for k f
    using d(2-4) by (simp add: send_to_scope_def delivery_sender_def delivery_targets_def resolve_agent_def
        row_named_def goes_by_def desk_defs Let_def insert_row_def)
  then obtain s' where s': "deliver_if (Some d) (from_unix 120) (set_eyes (task_prefix @ ''0123456789ab'')
      (\<lambda>x. x\<lparr>et_state := Cancelled, et_updated := 120\<rparr>) launched_store) = Inr s'"
    unfolding deliver_if_def by (auto simp: option.case)
  have queued: "et_state launched_row = Queued" by (simp add: launched_row_def)
  show ?thesis
    unfolding move_eyes_task_def e(1) launched_task by (simp add: r d(1) s' queued e(2))
qed

lemma moved_row:
  assumes "move_eyes_task task to a msg now s = Inr (s', t', True)" and "eyes_task task s = Inr t"
  shows "t' \<in> set (eyes_tasks s') \<and> et_task t' = task \<and> to = eyes_state_text (et_state t') \<and> et_acked t' = et_acked t"
  using assms(1)
proof (cases rule: move_eyes_Inr)
  case (moves target edge u role froms d)
  have u: "u = t" "t \<in> set (eyes_tasks s)" "et_task t = task" using moves(2) assms(2) eyes_taskD by auto
  show ?thesis
    using deliver_if_frame(2) [OF moves(7)] u edge_target_Some [OF moves(1)] moves(8)
    by (auto simp: set_eyes_def set_update_where)
qed simp_all

lemma sweep_acks:
  assumes "eyes_task task s = Inr t" and "et_state t = Cancelled"
  shows "move_eyes_task task ''failed'' the_sweep msg now s = Inr (set_eyes task (\<lambda>x. x\<lparr>et_acked := True\<rparr>) s, t, False)"
  using assms by (simp add: move_eyes_task_def sweep_edge sweep_role acks_cancel_def)

theorem eyes_lifecycle_witness:
  "let task = task_prefix @ ''0123456789ab'' in
   (\<exists>s t. eyes_step launched_store (Asked task ''accepted'') s \<and> t \<in> set (eyes_tasks s) \<and>
      et_state launched_row = Queued \<and> et_state t = Accepted \<and> row_step launched_row t) \<and>
   (\<exists>s t s' t'. eyes_step launched_store (Asked task ''cancelled'') s \<and> t \<in> set (eyes_tasks s) \<and>
      et_state t = Cancelled \<and> \<not> et_acked t \<and> row_step launched_row t \<and>
      eyes_step s (Asked task ''failed'') s' \<and> t' \<in> set (eyes_tasks s') \<and>
      et_state t' = Cancelled \<and> et_acked t' \<and> row_step t t')"
proof -
  let ?task = "task_prefix @ ''0123456789ab''"
  have row: "launched_row \<in> set (eyes_tasks launched_store)" "et_task launched_row = ?task"
    "et_state launched_row = Queued" "\<not> et_acked launched_row"
    by (simp_all add: launched_store_def launched_row_def)
  obtain s1 t1 where m1: "move_eyes_task ?task ''accepted'' broker_actor [] (from_unix 120) launched_store = Inr (s1, t1, True)"
    using broker_accepts by blast
  from moved_row [OF m1 launched_task]
  have n1: "t1 \<in> set (eyes_tasks s1)" "et_task t1 = ?task" "''accepted'' = eyes_state_text (et_state t1)"
    by auto
  have a1: "et_state t1 = Accepted" using n1(3) by (cases "et_state t1") auto
  have l1: "row_step launched_row t1"
    using eyes_lifecycle [OF move_step [OF m1] schema_ok_launched row(1) n1(1)] n1(2) row(2) by simp
  obtain s2 t2 where m2: "move_eyes_task ?task ''cancelled'' requester_actor [] (from_unix 120) launched_store = Inr (s2, t2, True)"
    using requester_cancels_task by blast
  from moved_row [OF m2 launched_task]
  have n2: "t2 \<in> set (eyes_tasks s2)" "et_task t2 = ?task" "''cancelled'' = eyes_state_text (et_state t2)" "et_acked t2 = et_acked launched_row"
    by auto
  have a2: "et_state t2 = Cancelled" using n2(3) by (cases "et_state t2") auto
  have l2: "row_step launched_row t2"
    using eyes_lifecycle [OF move_step [OF m2] schema_ok_launched row(1) n2(1)] n2(2) row(2) by simp
  have ok: "schema_ok s2" using move_rows [OF schema_ok_launched m2] by blast
  let ?s3 = "set_eyes ?task (\<lambda>x. x\<lparr>et_acked := True\<rparr>) s2" and ?t3 = "t2\<lparr>et_acked := True\<rparr>"
  have "eyes_task ?task s2 = Inr t2" using eyes_task_iff [OF ok] n2(1,2) by blast
  from sweep_acks [OF this a2] have m3: "move_eyes_task ?task ''failed'' the_sweep [] (from_unix 500) s2 = Inr (?s3, t2, False)" .
  have in3: "?t3 \<in> set (eyes_tasks ?s3)" using n2(1,2) by (auto simp: set_eyes_def set_update_where)
  have l3: "row_step t2 ?t3 \<and> et_state ?t3 = Cancelled"
    using eyes_lifecycle [OF move_step [OF m3] ok n2(1) in3] a2 by simp
  have "\<exists>s t. eyes_step launched_store (Asked ?task ''accepted'') s \<and> t \<in> set (eyes_tasks s) \<and>
      et_state launched_row = Queued \<and> et_state t = Accepted \<and> row_step launched_row t"
    using move_step [OF m1] n1(1) row(3) a1 l1 by blast
  moreover have "\<not> et_acked t2" using n2(4) row(4) by simp
  moreover have "et_acked ?t3" by simp
  ultimately show ?thesis
    unfolding Let_def using move_step [OF m2] n2(1) a2 l2 move_step [OF m3] in3 l3 by blast
qed

end
