(* ===== verification/Claims.thy ===== *)
theory Claims
  imports Messaging
begin

text \<open>
  The claims ledger of \<open>claims.go\<close>. None of its operations is a transaction, so between two
  statements of one another client may act: \<open>env k\<close> is what happens at the point numbered \<open>k\<close>,
  the seam \<open>claimRaceHook\<close> and the one before the takeover; \<open>clk k\<close> is the clock of attempt \<open>k\<close>.
\<close>

section \<open>Operations\<close>

definition claims_path :: "string \<Rightarrow> string \<Rightarrow> claim_row \<Rightarrow> bool" where
  "claims_path sc p c \<longleftrightarrow> cl_scope c = sc \<and> cl_path c = p"

definition claim_at :: "string \<Rightarrow> string \<Rightarrow> store \<Rightarrow> claim_row option" where
  "claim_at sc p s = List.find (claims_path sc p) (claims s)"

record claim_result =
  cr_stolen :: bool
  cr_prev :: string

definition granted :: claim_result where
  "granted = \<lparr>cr_stolen = False, cr_prev = []\<rparr>"

definition holder_liveness :: "string \<Rightarrow> string \<Rightarrow> time \<Rightarrow> store \<Rightarrow> string \<times> bool" where
  "holder_liveness sc hid now s =
     (case List.find (\<lambda>a. ar_scope a = sc \<and> ar_id a = hid) (agents s) of
        None \<Rightarrow> (hid, False)
      | Some a \<Rightarrow> (ar_name a, fresh_status now (ar_status a) (ar_seen a) \<noteq> Gone))"

definition rewrite_claims :: "(claim_row \<Rightarrow> bool) \<Rightarrow> (claim_row \<Rightarrow> claim_row) \<Rightarrow> store \<Rightarrow> store" where
  "rewrite_claims p f = claims_update (update_where p f)"

fun claim_loop :: "(nat \<Rightarrow> store \<Rightarrow> store) \<Rightarrow> (nat \<Rightarrow> time) \<Rightarrow> string \<Rightarrow> string \<Rightarrow> string \<Rightarrow> string
    \<Rightarrow> nat list \<Rightarrow> store \<Rightarrow> store \<times> (err + claim_result)" where
  "claim_loop env clk sc aid p note [] s =
     (s, Inl (ErrText (''claim '' @ p @ '': lost repeated races, try again'')))"
| "claim_loop env clk sc aid p note (k # ks) s =
     (let at = unix (clk k); seen = claim_at sc p s; s1 = env (2 * k) s in
      case seen of
        None \<Rightarrow>
          (case insert_row claim_key
              \<lparr>cl_scope = sc, cl_path = p, cl_agent = aid, cl_note = note, cl_since = at\<rparr> (claims s1) of
             Some cs \<Rightarrow> (s1\<lparr>claims := cs\<rparr>, Inr granted)
           | None \<Rightarrow> claim_loop env clk sc aid p note ks s1)
      | Some c \<Rightarrow>
          if cl_agent c = aid then
            (rewrite_claims (claims_path sc p) (\<lambda>c. c\<lparr>cl_note := note, cl_since := at\<rparr>) s1, Inr granted)
          else
            (let (hname, live) = holder_liveness sc (cl_agent c) (clk k) s1 in
             if live then (s1, Inl (ErrClaimHeld hname (cl_agent c) (cl_note c) (cl_since c)))
             else
               (let s2 = env (2 * k + 1) s1;
                    hit = (\<lambda>x. claims_path sc p x \<and> cl_agent x = cl_agent c) in
                if count_where hit (claims s2) = 0 then claim_loop env clk sc aid p note ks s2
                else (rewrite_claims hit (\<lambda>c. c\<lparr>cl_agent := aid, cl_note := note, cl_since := at\<rparr>) s2,
                      Inr \<lparr>cr_stolen = True, cr_prev = hname\<rparr>))))"

definition claim_attempts :: "nat list" where
  "claim_attempts = [0, 1, 2]"

definition claim :: "(nat \<Rightarrow> store \<Rightarrow> store) \<Rightarrow> (nat \<Rightarrow> time) \<Rightarrow> string \<Rightarrow> string \<Rightarrow> string \<Rightarrow> string
    \<Rightarrow> store \<Rightarrow> store \<times> (err + claim_result)" where
  "claim env clk sc w path note s =
     (let p = trim_space path in
      if p = [] then (s, Inl (ErrText ''claim: path required''))
      else case resolve_agent sc w s of
        Inl e \<Rightarrow> (s, Inl e)
      | Inr (aid, _) \<Rightarrow> claim_loop env clk sc aid p note claim_attempts s)"

definition release :: "(store \<Rightarrow> store) \<Rightarrow> string \<Rightarrow> string \<Rightarrow> string \<Rightarrow> time \<Rightarrow> store \<Rightarrow> store \<times> (err + unit)" where
  "release env sc w path now s =
     (let p = trim_space path in
      case resolve_agent sc w s of
        Inl e \<Rightarrow> (s, Inl e)
      | Inr (aid, _) \<Rightarrow>
          (case claim_at sc p s of
             None \<Rightarrow> (s, Inr ())
           | Some c \<Rightarrow>
               if cl_agent c \<noteq> aid then
                 (s, Inl (ErrText (''release: '' @ p @ '' is held by '' @ fst (holder_liveness sc (cl_agent c) now s)
                    @ '' ('' @ cl_agent c @ ''), not you'')))
               else (claims_update (delete_where (claims_path sc p)) (env s), Inr ())))"

record claim_info =
  ci_path :: string
  ci_holder :: string
  ci_holder_id :: string
  ci_note :: string
  ci_since :: int

definition list_claims :: "string \<Rightarrow> store \<Rightarrow> claim_info list" where
  "list_claims sc s = concat (map (\<lambda>c.
       map (\<lambda>w. \<lparr>ci_path = cl_path c, ci_holder = w, ci_holder_id = cl_agent c, ci_note = cl_note c,
                 ci_since = cl_since c\<rparr>)
         (case filter (\<lambda>a. ar_scope a = cl_scope c \<and> ar_id a = cl_agent c) (agents s) of
            [] \<Rightarrow> [[]] | as \<Rightarrow> map ar_name as))
     (sort_key (\<lambda>c. (cl_since c, cl_path c)) (filter (\<lambda>c. cl_scope c = sc) (claims s))))"

section \<open>Shape\<close>

lemma schema_ok_claims:
  "schema_ok s \<Longrightarrow> unique_key claim_key (f (claims s)) \<Longrightarrow> schema_ok (claims_update f s)"
  by (simp add: schema_ok_def)

lemma schema_ok_rewrite_claims [shape_intros]:
  "schema_ok s \<Longrightarrow> (\<And>c. claim_key (f c) = claim_key c) \<Longrightarrow> schema_ok (rewrite_claims p f s)"
  unfolding rewrite_claims_def
  by (rule schema_ok_claims) (auto simp: schema_ok_def intro: unique_key_update)

lemma claim_atD:
  "claim_at sc p s = Some c \<Longrightarrow> c \<in> set (claims s) \<and> cl_scope c = sc \<and> cl_path c = p"
  by (auto simp: claim_at_def claims_path_def dest: find_SomeD)

lemma claim_at_None: "claim_at sc p s = None \<longleftrightarrow> (\<forall>c \<in> set (claims s). claim_key c \<noteq> (sc, p))"
  by (auto simp: claim_at_def claims_path_def claim_key_def find_None_iff)

lemma claim_at_iff:
  "schema_ok s \<Longrightarrow> claim_at sc p s = Some c \<longleftrightarrow> c \<in> set (claims s) \<and> cl_scope c = sc \<and> cl_path c = p"
proof
  assume ok: "schema_ok s" and c: "c \<in> set (claims s) \<and> cl_scope c = sc \<and> cl_path c = p"
  have "List.find (\<lambda>q. claim_key q = claim_key c) (claims s) = Some c"
    using ok c by (auto simp: schema_ok_def intro: find_unique_key)
  then show "claim_at sc p s = Some c"
    using c by (simp add: claim_at_def claims_path_def [abs_def] claim_key_def)
qed (rule claim_atD)

lemma claim_at_rewrite:
  "(\<And>c. claim_key (f c) = claim_key c) \<Longrightarrow>
   claim_at sc p (rewrite_claims q f s) = map_option (\<lambda>c. if q c then f c else c) (claim_at sc p s)"
  unfolding claim_at_def rewrite_claims_def
  by (simp add: find_update_where claims_path_def claim_key_def)

lemma claim_at_insert:
  assumes "insert_row claim_key c (claims s) = Some cs"
  shows "claim_at (cl_scope c) (cl_path c) (s\<lparr>claims := cs\<rparr>) = Some c"
proof -
  have "claim_key c \<notin> claim_key ` set (claims s)" "cs = claims s @ [c]"
    using assms by (auto simp: insert_row_Some)
  then have "List.find (claims_path (cl_scope c) (cl_path c)) (claims s) = None"
    by (auto simp: find_None_iff claims_path_def claim_key_def image_iff)
  then show ?thesis using \<open>cs = claims s @ [c]\<close>
    by (simp add: claim_at_def find_append claims_path_def)
qed

text \<open>The claims on other paths, which no operation on one path may touch.\<close>

definition other_claims :: "string \<Rightarrow> string \<Rightarrow> store \<Rightarrow> claim_row list" where
  "other_claims sc p s = filter (\<lambda>c. \<not> claims_path sc p c) (claims s)"

lemma other_claims_rewrite:
  "(\<And>c. q c \<Longrightarrow> claims_path sc p c) \<Longrightarrow> (\<And>c. claim_key (f c) = claim_key c) \<Longrightarrow>
   other_claims sc p (rewrite_claims q f s) = other_claims sc p s"
proof -
  assume q: "\<And>c. q c \<Longrightarrow> claims_path sc p c" and f: "\<And>c. claim_key (f c) = claim_key c"
  have "claims_path sc p (f c) = claims_path sc p c" for c
    using f [of c] by (simp add: claims_path_def claim_key_def)
  then have "filter (\<lambda>c. \<not> claims_path sc p c) (update_where q f cs) = filter (\<lambda>c. \<not> claims_path sc p c) cs" for cs
    by (induction cs) (auto dest: q)
  then show ?thesis by (simp add: other_claims_def rewrite_claims_def)
qed

section \<open>The run nobody interferes with\<close>

definition err_held :: "string \<Rightarrow> claim_row \<Rightarrow> time \<Rightarrow> store \<Rightarrow> err" where
  "err_held sc c now s = ErrClaimHeld (fst (holder_liveness sc (cl_agent c) now s)) (cl_agent c) (cl_note c) (cl_since c)"

lemma claim_loop_quiet:
  assumes "ks = k # ks'"
  shows "claim_loop quiet clk sc aid p note ks s =
    (let at = unix (clk k);
         new = \<lparr>cl_scope = sc, cl_path = p, cl_agent = aid, cl_note = note, cl_since = at\<rparr> in
     case claim_at sc p s of
       None \<Rightarrow> (s\<lparr>claims := claims s @ [new]\<rparr>, Inr granted)
     | Some c \<Rightarrow>
         if cl_agent c = aid then
           (rewrite_claims (claims_path sc p) (\<lambda>c. c\<lparr>cl_note := note, cl_since := at\<rparr>) s, Inr granted)
         else if snd (holder_liveness sc (cl_agent c) (clk k) s) then (s, Inl (err_held sc c (clk k) s))
         else (rewrite_claims (\<lambda>x. claims_path sc p x \<and> cl_agent x = cl_agent c)
                 (\<lambda>c. c\<lparr>cl_agent := aid, cl_note := note, cl_since := at\<rparr>) s,
               Inr \<lparr>cr_stolen = True, cr_prev = fst (holder_liveness sc (cl_agent c) (clk k) s)\<rparr>))"
proof (cases "claim_at sc p s")
  case None
  then have "insert_row claim_key \<lparr>cl_scope = sc, cl_path = p, cl_agent = aid, cl_note = note,
      cl_since = unix (clk k)\<rparr> (claims s) = Some (claims s @ [\<lparr>cl_scope = sc, cl_path = p,
      cl_agent = aid, cl_note = note, cl_since = unix (clk k)\<rparr>])"
    by (auto simp: insert_row_Some claim_at_None claim_key_def)
  then show ?thesis using None assms by (simp add: Let_def)
next
  case (Some c)
  then have "count_where (\<lambda>x. claims_path sc p x \<and> cl_agent x = cl_agent c) (claims s) \<noteq> 0"
    using claim_atD [OF Some] by (auto simp: count_where_0 claims_path_def)
  then show ?thesis
    using Some assms by (simp add: Let_def err_held_def split: prod.split)
qed

lemmas claim_loop_cons = claim_loop_quiet [OF refl]

section \<open>The run under interference\<close>

text \<open>
  \<open>respectful env\<close>: interference that keeps the schema and leaves a claim the caller holds on
  this path with the caller.
\<close>

definition holds :: "string \<Rightarrow> string \<Rightarrow> string \<Rightarrow> store \<Rightarrow> bool" where
  "holds sc p aid s \<longleftrightarrow> (case claim_at sc p s of None \<Rightarrow> False | Some c \<Rightarrow> cl_agent c = aid)"

definition respectful :: "string \<Rightarrow> string \<Rightarrow> string \<Rightarrow> (nat \<Rightarrow> store \<Rightarrow> store) \<Rightarrow> bool" where
  "respectful sc p aid env \<longleftrightarrow>
     (\<forall>k s. schema_ok s \<longrightarrow> schema_ok (env k s) \<and> (holds sc p aid s \<longrightarrow> holds sc p aid (env k s)))"

lemma schema_ok_insert_claim [shape_intros]:
  "schema_ok s \<Longrightarrow> insert_row claim_key c (claims s) = Some cs \<Longrightarrow> schema_ok (s\<lparr>claims := cs\<rparr>)"
  by (auto simp: schema_ok_def insert_row_Some)

lemma claim_loop_granted:
  assumes "respectful sc p aid env" and "schema_ok s"
    and "claim_loop env clk sc aid p note ks s = (s', res)"
  shows "schema_ok s' \<and> (\<forall>r. res = Inr r \<longrightarrow>
    (\<exists>c. claim_at sc p s' = Some c \<and> cl_agent c = aid \<and> cl_note c = note))"
  using assms(2,3)
proof (induction ks arbitrary: s)
  case (Cons k ks)
  note env = assms(1) [unfolded respectful_def, rule_format]
  define s1 where "s1 = env (2 * k) s"
  define s2 where "s2 = env (2 * k + 1) s1"
  let ?new = "\<lparr>cl_scope = sc, cl_path = p, cl_agent = aid, cl_note = note, cl_since = unix (clk k)\<rparr>"
  have ok: "schema_ok s1" "schema_ok s2"
    using env [OF Cons.prems(1)] env [of s1 "2 * k + 1"] by (auto simp: s1_def s2_def)
  show ?case
  proof (cases "claim_at sc p s")
    case None
    show ?thesis
    proof (cases "insert_row claim_key ?new (claims s1)")
      case None2: None
      then show ?thesis using Cons None ok by (auto simp: Let_def s1_def)
    next
      case (Some cs)
      then show ?thesis
        using Cons.prems None ok claim_at_insert [OF Some] schema_ok_insert_claim [OF ok(1) Some]
        by (auto simp: Let_def s1_def)
    qed
  next
    case (Some c)
    show ?thesis
    proof (cases "cl_agent c = aid")
      case True
      let ?f = "\<lambda>c. c\<lparr>cl_note := note, cl_since := unix (clk k)\<rparr>"
      have "holds sc p aid s" using True Some by (simp add: holds_def)
      then have "holds sc p aid s1" using env [OF Cons.prems(1)] by (simp add: s1_def)
      then obtain d where d: "claim_at sc p s1 = Some d" "cl_agent d = aid"
        by (auto simp: holds_def split: option.splits)
      have "s' = rewrite_claims (claims_path sc p) ?f s1 \<and> res = Inr granted"
        using Cons.prems(2) Some True by (simp add: Let_def s1_def)
      then show ?thesis
        using d ok(1) claim_atD [OF d(1)]
        by (auto simp: claim_at_rewrite claim_key_def claims_path_def intro!: schema_ok_rewrite_claims)
    next
      case False
      obtain hname live where h: "holder_liveness sc (cl_agent c) (clk k) s1 = (hname, live)" by fastforce
      let ?hit = "\<lambda>x. claims_path sc p x \<and> cl_agent x = cl_agent c"
      let ?f = "\<lambda>c. c\<lparr>cl_agent := aid, cl_note := note, cl_since := unix (clk k)\<rparr>"
      have run: "(if live then (s1, Inl (ErrClaimHeld hname (cl_agent c) (cl_note c) (cl_since c)))
          else if count_where ?hit (claims s2) = 0 then claim_loop env clk sc aid p note ks s2
          else (rewrite_claims ?hit ?f s2, Inr \<lparr>cr_stolen = True, cr_prev = hname\<rparr>)) = (s', res)"
        using Cons.prems(2) Some False h unfolding claim_loop.simps Let_def s1_def s2_def by simp
      show ?thesis
      proof (cases "\<not> live \<and> count_where ?hit (claims s2) \<noteq> 0")
        case True
        then have s': "s' = rewrite_claims ?hit ?f s2" "res = Inr \<lparr>cr_stolen = True, cr_prev = hname\<rparr>"
          using run by (auto split: if_splits)
        obtain d where d: "claims_path sc p d" "cl_agent d = cl_agent c" "d \<in> set (claims s2)"
          using True by (auto simp: count_where_0)
        then have "claim_at sc p s2 = Some d" by (simp add: claim_at_iff [OF ok(2)] claims_path_def)
        then show ?thesis
          using d s' ok(2) by (auto simp: claim_at_rewrite claim_key_def intro!: schema_ok_rewrite_claims)
      next
        case no: False
        then show ?thesis using run Cons.IH [OF ok(2)] ok(1) by (auto split: if_splits)
      qed
    qed
  qed
qed auto

section \<open>What the missing guard costs\<close>

text \<open>
  Two statements of the ledger name the path and not the holder: the refresh of one's own claim
  and the delete of a release. If the caller's claim is freed and taken by somebody else between
  the look and the write, the first reports a grant the caller does not have and overwrites the
  rival's note, and the second deletes the rival's claim.
\<close>

definition held_office :: store where
  "held_office = office\<lparr>claims := [\<lparr>cl_scope = ''ws'', cl_path = ''f'', cl_agent = ''id-a'', cl_note = ''mine'', cl_since = 100\<rparr>]\<rparr>"

definition rival_moves :: "store \<Rightarrow> store" where
  "rival_moves s = fst (claim quiet (\<lambda>_. from_unix 110) ''ws'' ''deft-owl'' ''f'' ''rival''
     (fst (release (\<lambda>t. t) ''ws'' ''calm-fox'' ''f'' (from_unix 110) s)))"

lemma claim_refresh_race:
  "map_option (\<lambda>c. (cl_agent c, cl_note c)) (claim_at ''ws'' ''f''
      (fst (claim (\<lambda>k. rival_moves) (\<lambda>_. from_unix 120) ''ws'' ''calm-fox'' ''f'' ''again'' held_office)))
    = Some (''id-b'', ''again'')"
  "snd (claim (\<lambda>k. rival_moves) (\<lambda>_. from_unix 120) ''ws'' ''calm-fox'' ''f'' ''again'' held_office) = Inr granted"
  by code_simp+

lemma release_race:
  "map_option cl_agent (claim_at ''ws'' ''f'' (rival_moves held_office)) = Some ''id-b''"
  "claim_at ''ws'' ''f'' (fst (release rival_moves ''ws'' ''calm-fox'' ''f'' (from_unix 120) held_office)) = None"
  "snd (release rival_moves ''ws'' ''calm-fox'' ''f'' (from_unix 120) held_office) = Inr ()"
  by code_simp+

section \<open>Properties\<close>

text \<open>
  A claim nobody races, every branch: a free path is granted; one's own is refreshed; a
  path whose holder is not gone is refused with the holder's name, id, note and time and nothing
  is written; a path whose holder is gone or purged changes hands and says from whom. No claim
  on another path moves.
\<close>

theorem claim_decides:
  assumes "schema_ok s" and "trim_space path \<noteq> []" and "resolve_agent sc w s = Inr (aid, nm)"
    and "claim quiet clk sc w path note s = (s', res)"
  shows "schema_ok s' \<and> other_claims sc (trim_space path) s' = other_claims sc (trim_space path) s \<and>
    (case claim_at sc (trim_space path) s of
       None \<Rightarrow> res = Inr granted \<and> claim_at sc (trim_space path) s' =
          Some \<lparr>cl_scope = sc, cl_path = trim_space path, cl_agent = aid, cl_note = note, cl_since = unix (clk 0)\<rparr>
     | Some c \<Rightarrow>
         if cl_agent c = aid then res = Inr granted \<and>
           claim_at sc (trim_space path) s' = Some (c\<lparr>cl_note := note, cl_since := unix (clk 0)\<rparr>)
         else if snd (holder_liveness sc (cl_agent c) (clk 0) s) then
           s' = s \<and> res = Inl (err_held sc c (clk 0) s)
         else res = Inr \<lparr>cr_stolen = True, cr_prev = fst (holder_liveness sc (cl_agent c) (clk 0) s)\<rparr> \<and>
           claim_at sc (trim_space path) s' =
             Some (c\<lparr>cl_agent := aid, cl_note := note, cl_since := unix (clk 0)\<rparr>))"
proof -
  define p where "p = trim_space path"
  let ?new = "\<lparr>cl_scope = sc, cl_path = p, cl_agent = aid, cl_note = note, cl_since = unix (clk 0)\<rparr>"
  have run: "claim_loop quiet clk sc aid p note claim_attempts s = (s', res)"
    using assms(2-4) by (simp add: claim_def p_def)
  note eq = run [unfolded claim_attempts_def claim_loop_cons Let_def]
  have goal: "schema_ok s' \<and> other_claims sc p s' = other_claims sc p s \<and>
    (case claim_at sc p s of
       None \<Rightarrow> res = Inr granted \<and> claim_at sc p s' = Some ?new
     | Some c \<Rightarrow>
         if cl_agent c = aid then res = Inr granted \<and>
           claim_at sc p s' = Some (c\<lparr>cl_note := note, cl_since := unix (clk 0)\<rparr>)
         else if snd (holder_liveness sc (cl_agent c) (clk 0) s) then
           s' = s \<and> res = Inl (err_held sc c (clk 0) s)
         else res = Inr \<lparr>cr_stolen = True, cr_prev = fst (holder_liveness sc (cl_agent c) (clk 0) s)\<rparr> \<and>
           claim_at sc p s' = Some (c\<lparr>cl_agent := aid, cl_note := note, cl_since := unix (clk 0)\<rparr>))"
  proof (cases "claim_at sc p s")
    case None
    then have ins: "insert_row claim_key ?new (claims s) = Some (claims s @ [?new])"
      by (auto simp: insert_row_Some claim_at_None claim_key_def)
    show ?thesis
      using eq None assms(1) claim_at_insert [OF ins] schema_ok_insert_claim [OF assms(1) ins]
      by (auto simp: other_claims_def claims_path_def)
  next
    case (Some c)
    note c = claim_atD [OF Some]
    show ?thesis
      using eq Some assms(1) c
      by (auto simp: claim_at_rewrite other_claims_rewrite claim_key_def claims_path_def
          split: if_splits intro!: schema_ok_rewrite_claims other_claims_rewrite)
  qed
  then show ?thesis by (simp only: p_def)
qed

theorem claim_decides_witness:
  "claim_at ''ws'' ''f'' (fst (claim quiet (\<lambda>_. from_unix 120) ''ws'' ''deft-owl'' ''f'' ''n'' held_office))
     = claim_at ''ws'' ''f'' held_office"
proof -
  have ok: "schema_ok held_office"
    by (simp add: schema_ok_def held_office_def office_def empty_store_def plain_agent_def agent_key_def agent_name_key_def)
  have p: "trim_space ''f'' = ''f''" by code_simp
  have r: "resolve_agent ''ws'' ''deft-owl'' held_office = Inr (''id-b'', ''deft-owl'')" by code_simp
  have c: "claim_at ''ws'' ''f'' held_office = Some \<lparr>cl_scope = ''ws'', cl_path = ''f'', cl_agent = ''id-a'',
      cl_note = ''mine'', cl_since = 100\<rparr>"
    by code_simp
  have l: "snd (holder_liveness ''ws'' ''id-a'' (from_unix 120) held_office)" by code_simp
  have "trim_space ''f'' \<noteq> []" by (simp add: p)
  from claim_decides [of held_office "''f''" "''ws''" "''deft-owl''" "''id-b''" "''deft-owl''"
      "\<lambda>_. from_unix 120" "''n''", OF ok this r prod.collapse [symmetric]]
  show ?thesis by (simp add: p c l)
qed

text \<open>
  C34. A claim under races: whatever other clients do between its statements, as long as they
  leave the caller's own claim alone, a grant means that the path is the caller's in the final
  store under the note it gave, and there is never more than one holder.
\<close>

theorem claim_granted_is_held:
  assumes "respectful sc (trim_space path) aid env" and "schema_ok s"
    and "resolve_agent sc w s = Inr (aid, nm)" and "claim env clk sc w path note s = (s', Inr r)"
  shows "schema_ok s' \<and> (\<exists>c. claim_at sc (trim_space path) s' = Some c \<and> cl_agent c = aid \<and> cl_note c = note \<and>
     (\<forall>d \<in> set (claims s'). cl_scope d = sc \<and> cl_path d = trim_space path \<longrightarrow> d = c))"
proof -
  have run: "claim_loop env clk sc aid (trim_space path) note claim_attempts s = (s', Inr r)"
    using assms(3,4) by (auto simp: claim_def Let_def split: if_splits)
  from claim_loop_granted [OF assms(1,2) run] obtain c where ok: "schema_ok s'"
    and c: "claim_at sc (trim_space path) s' = Some c" "cl_agent c = aid" "cl_note c = note"
    by auto
  have "d = c" if "d \<in> set (claims s')" "cl_scope d = sc" "cl_path d = trim_space path" for d
    using that c(1) by (metis claim_at_iff [OF ok] option.inject)
  then show ?thesis using ok c by blast
qed

lemma respectful_rival:
  "respectful ''ws'' ''f'' ''id-a'' (\<lambda>k s. if holds ''ws'' ''f'' ''id-a'' s then s
     else if schema_ok (rival_moves s) then rival_moves s else s)"
  by (simp add: respectful_def)

theorem claim_granted_is_held_witness:
  "holds ''ws'' ''f'' ''id-a'' (fst (claim (\<lambda>k s. if holds ''ws'' ''f'' ''id-a'' s then s
      else if schema_ok (rival_moves s) then rival_moves s else s)
    (\<lambda>_. from_unix 120) ''ws'' ''calm-fox'' ''f'' ''again'' held_office))"
proof -
  let ?env = "\<lambda>k s. if holds ''ws'' ''f'' ''id-a'' s then s
      else if schema_ok (rival_moves s) then rival_moves s else s"
  have ok: "schema_ok held_office"
    by (simp add: schema_ok_def held_office_def office_def empty_store_def plain_agent_def agent_key_def agent_name_key_def)
  have p: "trim_space ''f'' = ''f''" by code_simp
  have r: "resolve_agent ''ws'' ''calm-fox'' held_office = Inr (''id-a'', ''calm-fox'')" by code_simp
  have h: "claim_at ''ws'' ''f'' held_office = Some \<lparr>cl_scope = ''ws'', cl_path = ''f'', cl_agent = ''id-a'',
      cl_note = ''mine'', cl_since = 100\<rparr>"
    by code_simp
  have "holds ''ws'' ''f'' ''id-a'' held_office" by (simp add: holds_def h)
  then have g: "claim ?env (\<lambda>_. from_unix 120) ''ws'' ''calm-fox'' ''f'' ''again'' held_office =
      (fst (claim ?env (\<lambda>_. from_unix 120) ''ws'' ''calm-fox'' ''f'' ''again'' held_office), Inr granted)"
    by (simp add: claim_def p r claim_attempts_def h)
  have env: "respectful ''ws'' (trim_space ''f'') ''id-a'' ?env" unfolding p by (rule respectful_rival)
  from claim_granted_is_held [OF env ok r g]
  show ?thesis by (auto simp: holds_def p)
qed

end
