(* ===== verification/Request.thy ===== *)
theory Request
  imports Wire
begin

text \<open>
  The request frame of \<open>internal/protocol\<close>: the record a client sends as one line of JSON, the
  decoder \<open>json.Unmarshal\<close> is for it, and the field the daemon stamps and the wire never carries.
\<close>

record request =
  q_op :: string
  q_scope :: string
  q_session :: string
  q_source :: string
  q_tool :: string
  q_activity :: string
  q_files :: "string list option"
  q_writes :: "string list option"
  q_task_ev :: "task_event option"
  q_tasks :: "task_event list option"
  q_replace :: bool
  q_from :: string
  q_to :: string
  q_body :: string
  q_after :: int
  q_no_hook :: bool
  q_gone :: bool
  q_agent :: string
  q_agent_type :: string
  q_path :: string
  q_note :: string
  q_peer :: string
  q_limit :: int
  q_token :: string
  q_secret :: string
  q_kind :: string
  q_runtime :: string
  q_brief :: string
  q_reply :: "agent_ref option"
  q_target :: "agent_ref option"
  q_task :: string
  q_mine :: bool
  q_platform :: string
  q_caps :: "string list option"
  q_deadline :: int
  q_auth_session :: string
  q_origin :: string

definition zero_request :: request where
  "zero_request = \<lparr>q_op = [], q_scope = [], q_session = [], q_source = [], q_tool = [], q_activity = [],
     q_files = None, q_writes = None, q_task_ev = None, q_tasks = None, q_replace = False, q_from = [],
     q_to = [], q_body = [], q_after = 0, q_no_hook = False, q_gone = False, q_agent = [], q_agent_type = [],
     q_path = [], q_note = [], q_peer = [], q_limit = 0, q_token = [], q_secret = [], q_kind = [],
     q_runtime = [], q_brief = [], q_reply = None, q_target = None, q_task = [], q_mine = False,
     q_platform = [], q_caps = None, q_deadline = 0, q_auth_session = [], q_origin = []\<rparr>"

definition zero_event :: task_event where
  "zero_event = \<lparr>te_kind = [], te_key = [], te_subject = [], te_status = []\<rparr>"

definition event_fields :: "(string \<times> task_event decoder) list" where
  "event_fields = [(''kind'', put_text (\<lambda>t. te_kind_update (\<lambda>_. t))),
     (''key'', put_text (\<lambda>t. te_key_update (\<lambda>_. t))),
     (''subject'', put_text (\<lambda>t. te_subject_update (\<lambda>_. t))),
     (''status'', put_text (\<lambda>t. te_status_update (\<lambda>_. t)))]"

definition dec_texts :: "string list option decoder" where
  "dec_texts = dec_slice [] dec_text"

definition request_fields :: "(string \<times> request decoder) list" where
  "request_fields = [(''op'', put_text (\<lambda>t. q_op_update (\<lambda>_. t))),
     (''scope'', put_text (\<lambda>t. q_scope_update (\<lambda>_. t))),
     (''session_id'', put_text (\<lambda>t. q_session_update (\<lambda>_. t))),
     (''source'', put_text (\<lambda>t. q_source_update (\<lambda>_. t))),
     (''tool'', put_text (\<lambda>t. q_tool_update (\<lambda>_. t))),
     (''activity'', put_text (\<lambda>t. q_activity_update (\<lambda>_. t))),
     (''files'', on_part q_files q_files_update dec_texts),
     (''writes'', on_part q_writes q_writes_update dec_texts),
     (''task_ev'', on_part q_task_ev q_task_ev_update (dec_ptr zero_event (dec_struct False event_fields))),
     (''tasks'', on_part q_tasks q_tasks_update (dec_slice zero_event (dec_struct False event_fields))),
     (''replace_tasks'', put_bool (\<lambda>b. q_replace_update (\<lambda>_. b))),
     (''from'', put_text (\<lambda>t. q_from_update (\<lambda>_. t))),
     (''to'', put_text (\<lambda>t. q_to_update (\<lambda>_. t))),
     (''body'', put_text (\<lambda>t. q_body_update (\<lambda>_. t))),
     (''after_id'', put_int (\<lambda>i. q_after_update (\<lambda>_. i))),
     (''only_if_no_hook'', put_bool (\<lambda>b. q_no_hook_update (\<lambda>_. b))),
     (''include_gone'', put_bool (\<lambda>b. q_gone_update (\<lambda>_. b))),
     (''agent_id'', put_text (\<lambda>t. q_agent_update (\<lambda>_. t))),
     (''agent_type'', put_text (\<lambda>t. q_agent_type_update (\<lambda>_. t))),
     (''path'', put_text (\<lambda>t. q_path_update (\<lambda>_. t))),
     (''note'', put_text (\<lambda>t. q_note_update (\<lambda>_. t))),
     (''peer'', put_text (\<lambda>t. q_peer_update (\<lambda>_. t))),
     (''limit'', put_int (\<lambda>i. q_limit_update (\<lambda>_. i))),
     (''token'', put_text (\<lambda>t. q_token_update (\<lambda>_. t))),
     (''session_secret'', put_text (\<lambda>t. q_secret_update (\<lambda>_. t))),
     (''kind'', put_text (\<lambda>t. q_kind_update (\<lambda>_. t))),
     (''runtime'', put_text (\<lambda>t. q_runtime_update (\<lambda>_. t))),
     (''brief'', put_text (\<lambda>t. q_brief_update (\<lambda>_. t))),
     (''reply_to'', on_part q_reply q_reply_update (dec_ptr empty_ref (dec_ref False))),
     (''target'', on_part q_target q_target_update (dec_ptr empty_ref (dec_ref False))),
     (''task_id'', put_text (\<lambda>t. q_task_update (\<lambda>_. t))),
     (''mine'', put_bool (\<lambda>b. q_mine_update (\<lambda>_. b))),
     (''platform'', put_text (\<lambda>t. q_platform_update (\<lambda>_. t))),
     (''capabilities'', on_part q_caps q_caps_update dec_texts),
     (''deadline_s'', put_int (\<lambda>i. q_deadline_update (\<lambda>_. i))),
     (''auth_session_id'', put_text (\<lambda>t. q_auth_session_update (\<lambda>_. t)))]"

text \<open>A slice that is absent is the empty one to a loop over it.\<close>

definition items :: "'a list option \<Rightarrow> 'a list" where
  "items l = (case l of None \<Rightarrow> [] | Some xs \<Rightarrow> xs)"

text \<open>\<open>json.Unmarshal(line, &req)\<close>: no request at all when any field mismatched.\<close>

definition decode_request :: "string \<Rightarrow> request option" where
  "decode_request line = (let r = unmarshal_into (dec_struct False request_fields) zero_request line in
     if snd r then Some (fst r) else None)"

text \<open>Origin is the daemon's own stamp: no frame can carry it.\<close>

lemma wire_carries_no_origin: "decode_request line = Some q \<Longrightarrow> q_origin q = []"
proof -
  have "list_all (\<lambda>(k, d). \<forall>j a. q_origin a = [] \<longrightarrow> q_origin (fst (d j a)) = []) request_fields"
    unfolding request_fields_def
    by (simp add: put_text_def put_bool_def put_int_def on_part_def Let_def split: json.splits option.splits)
  then have keep: "q_origin (fst (d j a)) = []" if "(k, d) \<in> set request_fields" "q_origin a = []" for k d j a
    using that by (auto simp: list_all_iff)
  have "q_origin (fst (dec_members False request_fields kvs zero_request)) = []" for kvs
    by (rule dec_members_keeps [where P = "\<lambda>q. q_origin q = []"]) (auto simp: zero_request_def intro: keep)
  moreover assume "decode_request line = Some q"
  ultimately show ?thesis
    by (auto simp: decode_request_def unmarshal_into_def dec_struct_def zero_request_def Let_def
        split: if_splits option.splits json.splits)
qed

end
