(* ===== verification/Board.thy ===== *)
theory Board
  imports EyesMoves Claims Request
begin

text \<open>
  What the store knows of a workspace beyond mail: ingesting one hook event, the board and the
  agents listing, and the hourly housekeeping with its purges in the order the code runs them.
\<close>

section \<open>Events\<close>

definition touch_file :: "string \<Rightarrow> string \<Rightarrow> int \<Rightarrow> string \<Rightarrow> store \<Rightarrow> store" where
  "touch_file sc aid at p s =
     (let r = \<lparr>ft_scope = sc, ft_path = p, ft_agent = aid, ft_action = ''write'', ft_ts = at\<rparr> in
      file_touches_update (\<lambda>rs. case insert_row touch_key r rs of
        Some rs' \<Rightarrow> rs'
      | None \<Rightarrow> update_where (\<lambda>q. touch_key q = touch_key r) (\<lambda>q. q\<lparr>ft_ts := at\<rparr>) rs) s)"

definition err_task_row :: err where
  "err_task_row = ErrText ''UNIQUE constraint failed: tasks.scope, tasks.agent_id, tasks.task_key''"

definition task_of :: "string \<Rightarrow> string \<Rightarrow> int \<Rightarrow> string \<Rightarrow> task_event \<Rightarrow> task_row" where
  "task_of sc aid at key ev = \<lparr>tk_scope = sc, tk_agent = aid, tk_key = key, tk_subject = te_subject ev,
     tk_status = te_status ev, tk_updated = at\<rparr>"

fun insert_tasks :: "string \<Rightarrow> string \<Rightarrow> int \<Rightarrow> task_event list \<Rightarrow> store \<Rightarrow> store \<times> err option" where
  "insert_tasks sc aid at [] s = (s, None)"
| "insert_tasks sc aid at (ev # evs) s =
     (case insert_row task_key (task_of sc aid at (te_key ev) ev) (task_rows s) of
        None \<Rightarrow> (s, Some err_task_row)
      | Some rs \<Rightarrow> insert_tasks sc aid at evs (s\<lparr>task_rows := rs\<rparr>))"

definition own_tasks :: "string \<Rightarrow> string \<Rightarrow> task_row \<Rightarrow> bool" where
  "own_tasks sc aid t \<longleftrightarrow> tk_scope t = sc \<and> tk_agent t = aid"

definition replace_tasks :: "string \<Rightarrow> string \<Rightarrow> int \<Rightarrow> task_event list \<Rightarrow> store \<Rightarrow> store \<times> err option" where
  "replace_tasks sc aid at evs s =
     insert_tasks sc aid at evs (task_rows_update (delete_where (own_tasks sc aid)) s)"

definition apply_task_event :: "string \<Rightarrow> string \<Rightarrow> int \<Rightarrow> task_event \<Rightarrow> store \<Rightarrow> store" where
  "apply_task_event sc aid at ev s =
     (if te_kind ev = ''create'' then
        (let r = task_of sc aid at (if te_key ev = [] then ''auto-'' @ dec_int at else te_key ev) ev in
         task_rows_update (\<lambda>rs. case insert_row task_key r rs of
           Some rs' \<Rightarrow> rs'
         | None \<Rightarrow> update_where (\<lambda>q. task_key q = task_key r) (\<lambda>q. q\<lparr>tk_subject := tk_subject r\<rparr>) rs) s)
      else if te_kind ev = ''update'' then
        task_rows_update (update_where (\<lambda>q. task_key q = (sc, aid, te_key ev))
          (\<lambda>q. q\<lparr>tk_status := te_status ev, tk_updated := at\<rparr>)) s
      else s)"

definition log_event :: "string \<Rightarrow> string \<Rightarrow> request \<Rightarrow> int \<Rightarrow> store \<Rightarrow> store" where
  "log_event sc aid q at s = s\<lparr>events := events s @
       [\<lparr>ev_id = next_event s, ev_scope = sc, ev_agent = aid, ev_tool = q_tool q, ev_activity = q_activity q,
         ev_files = json_print (texts_json (q_files q)), ev_ts = at\<rparr>],
     next_event := Suc (next_event s)\<rparr>"

definition record_event :: "string \<Rightarrow> string \<Rightarrow> request \<Rightarrow> time \<Rightarrow> store \<Rightarrow> store \<times> (err + string list)" where
  "record_event sc sess q now s =
     (case register quiet sc sess ''event'' now s of
        (s1, Inl e) \<Rightarrow> (s1, Inl e)
      | (s1, Inr name) \<Rightarrow>
          (let at = unix now; aid = agent_id sess;
               s2 = fold (touch_file sc aid at) (items (q_writes q)) (log_event sc aid q at s1) in
           case (if q_replace q then replace_tasks sc aid at (items (q_tasks q)) s2 else (s2, None)) of
             (s3, Some e) \<Rightarrow> (s3, Inl e)
           | (s3, None) \<Rightarrow>
               (let s4 = (case q_task_ev q of None \<Rightarrow> s3 | Some ev \<Rightarrow> apply_task_event sc aid at ev s3) in
                if q_source q = ''presence'' then (s4, Inr [])
                else (let (s5, lines) = notices_for sc aid (items (q_writes q)) now s4 in (s5, Inr lines)))))"

section \<open>The board\<close>

definition task_count :: "string \<Rightarrow> string \<Rightarrow> string \<Rightarrow> store \<Rightarrow> nat" where
  "task_count sc aid status s = count_where (\<lambda>t. own_tasks sc aid t \<and> tk_status t = status) (task_rows s)"

definition last_event :: "string \<Rightarrow> string \<Rightarrow> store \<Rightarrow> event_row option" where
  "last_event sc aid s = first_by (\<lambda>e. (- ev_ts e, - int (ev_id e)))
     (filter (\<lambda>e. ev_scope e = sc \<and> ev_agent e = aid) (events s))"

definition current_task :: "string \<Rightarrow> string \<Rightarrow> store \<Rightarrow> string" where
  "current_task sc aid s = (case first_by (\<lambda>t. - tk_updated t)
       (filter (\<lambda>t. own_tasks sc aid t \<and> tk_status t = ''in_progress'') (task_rows s)) of
     None \<Rightarrow> [] | Some t \<Rightarrow> tk_subject t)"

definition held_paths :: "string \<Rightarrow> string \<Rightarrow> store \<Rightarrow> string list" where
  "held_paths sc aid s = map cl_path (sort_key (\<lambda>c. (cl_since c, cl_path c))
     (filter (\<lambda>c. cl_scope c = sc \<and> cl_agent c = aid) (claims s)))"

definition parent_name :: "agent_row \<Rightarrow> store \<Rightarrow> string" where
  "parent_name r s = (if ar_parent r = [] then [] else
     case row_at (ar_scope r) (ar_parent r) s of None \<Rightarrow> [] | Some p \<Rightarrow> ar_name p)"

definition board_info :: "time \<Rightarrow> store \<Rightarrow> agent_row \<Rightarrow> agent_info" where
  "board_info now s r =
     (let sc = ar_scope r; aid = ar_id r; ev = last_event sc aid s in
      \<lparr>ai_id = aid, ai_name = ar_name r, ai_status = fresh_status now (ar_status r) (ar_seen r),
       ai_task = current_task sc aid s, ai_activity = (case ev of None \<Rightarrow> [] | Some e \<Rightarrow> ev_activity e),
       ai_files = caps_list (case ev of None \<Rightarrow> ''[]'' | Some e \<Rightarrow> ev_files e), ai_seen = ar_seen r,
       ai_pending = task_count sc aid ''pending'' s, ai_done = task_count sc aid ''completed'' s,
       ai_parent = parent_name r s, ai_claims = Some (held_paths sc aid s), ai_kind = ar_kind r, ai_scope = [],
       ai_origin = ar_origin r, ai_platform = ar_platform r, ai_caps = caps_list (ar_caps r)\<rparr>)"

definition board :: "string \<Rightarrow> bool \<Rightarrow> time \<Rightarrow> store \<Rightarrow> agent_info list" where
  "board sc include_gone now s =
     filter (\<lambda>a. include_gone \<or> ai_status a \<noteq> Gone)
       (map (board_info now s) (sort_key ar_registered (filter (\<lambda>r. ar_scope r = sc) (agents s))))"

definition live_board :: "string \<Rightarrow> time \<Rightarrow> store \<Rightarrow> agent_info list" where
  "live_board sc now s = filter (\<lambda>a. ai_status a = Active \<or> ai_status a = Idle) (board sc False now s)"

section \<open>Housekeeping\<close>

definition day_s :: int where "day_s = 86400"

definition read_by_all :: "store \<Rightarrow> message_row \<Rightarrow> bool" where
  "read_by_all s m \<longleftrightarrow> (\<exists>d \<in> set (deliveries s). dl_message d = mr_id m) \<and>
     (\<forall>d \<in> set (deliveries s). dl_message d = mr_id m \<longrightarrow> dl_read d \<noteq> None)"

definition purge_traffic :: "time \<Rightarrow> store \<Rightarrow> store" where
  "purge_traffic now s =
     (let s1 = events_update (delete_where (\<lambda>e. ev_ts e < unix now - 7 * day_s)) s;
          s2 = file_touches_update (delete_where (\<lambda>t. ft_ts t < unix (now - seconds 3600))) s1;
          s3 = messages_update (delete_where (\<lambda>m. mr_created m < unix now - 7 * day_s \<and> read_by_all s2 m)) s2;
          s4 = messages_update (delete_where (\<lambda>m. mr_created m < unix now - 30 * day_s)) s3 in
      deliveries_update (delete_where (\<lambda>d. dl_message d \<notin> mr_id ` set (messages s4))) s4)"

definition claim_holder :: "time \<Rightarrow> claim_row \<Rightarrow> agent_row \<Rightarrow> bool" where
  "claim_holder now c a \<longleftrightarrow> ar_scope a = cl_scope c \<and> ar_id a = cl_agent c \<and> ar_status a \<noteq> Gone \<and>
     unix (now - stale_window) \<le> ar_seen a"

definition purge_agents :: "time \<Rightarrow> store \<Rightarrow> store" where
  "purge_agents now s =
     (let s1 = agents_update (delete_where (\<lambda>a. ar_seen a < unix (now - seconds 7200))) s;
          s2 = deliveries_update (delete_where (\<lambda>d. dl_agent d \<notin> ar_id ` set (agents s1))) s1 in
      claims_update (delete_where (\<lambda>c. \<not> list_ex (claim_holder now c) (agents s2))) s2)"

definition purge_ledgers :: "time \<Rightarrow> store \<Rightarrow> store" where
  "purge_ledgers now s =
     eyes_tasks_update (delete_where (\<lambda>t. et_updated t < unix now - day_s))
       (task_rows_update (delete_where (\<lambda>t. tk_updated t < unix now - 7 * day_s)) s)"

definition housekeep :: "time \<Rightarrow> store \<Rightarrow> store \<times> err option" where
  "housekeep now s = (case expire_eyes_tasks now s of
     (s1, n, expiry) \<Rightarrow> (purge_ledgers now (purge_agents now (purge_traffic now s1)), expiry))"

section \<open>What an event leaves\<close>

lemma touch_file_frame [simp]:
  "agents (touch_file sc aid at p s) = agents s" "events (touch_file sc aid at p s) = events s"
  "task_rows (touch_file sc aid at p s) = task_rows s" "messages (touch_file sc aid at p s) = messages s"
  "deliveries (touch_file sc aid at p s) = deliveries s"
  by (simp_all add: touch_file_def Let_def)

lemma touch_file_rows:
  "file_touches (touch_file sc aid at p s) = (let k = (sc, p, aid) in
     if k \<in> touch_key ` set (file_touches s)
     then update_where (\<lambda>q. touch_key q = k) (\<lambda>q. q\<lparr>ft_ts := at\<rparr>) (file_touches s)
     else file_touches s @ [\<lparr>ft_scope = sc, ft_path = p, ft_agent = aid, ft_action = ''write'', ft_ts = at\<rparr>])"
  by (auto simp: touch_file_def Let_def insert_row_def touch_key_def list_ex_iff image_iff)

lemma schema_ok_touch: "schema_ok s \<Longrightarrow> schema_ok (touch_file sc aid at p s)"
proof -
  assume ok: "schema_ok s"
  have "unique_key touch_key (file_touches (touch_file sc aid at p s))"
    using ok unfolding touch_file_rows Let_def
    by (auto simp: schema_ok_def touch_key_def intro!: unique_key_update)
  then show ?thesis using ok by (simp add: schema_ok_def touch_file_def Let_def)
qed

definition own_touch :: "string \<Rightarrow> string \<Rightarrow> touch_row \<Rightarrow> bool" where
  "own_touch sc aid t \<longleftrightarrow> ft_scope t = sc \<and> ft_agent t = aid"

lemma touched_others:
  "filter (\<lambda>t. \<not> own_touch sc aid t) (file_touches (touch_file sc aid at p s))
     = filter (\<lambda>t. \<not> own_touch sc aid t) (file_touches s)"
proof -
  have "filter (\<lambda>t. \<not> own_touch sc aid t) (update_where (\<lambda>q. touch_key q = (sc, p, aid)) f rs)
      = filter (\<lambda>t. \<not> own_touch sc aid t) rs"
    if "\<And>q. own_touch sc aid (f q) = own_touch sc aid q" for f rs
    using that by (induction rs) (auto simp: touch_key_def own_touch_def)
  then show ?thesis by (simp add: touch_file_rows Let_def own_touch_def)
qed

definition touched :: "string \<Rightarrow> string \<Rightarrow> int \<Rightarrow> string \<Rightarrow> store \<Rightarrow> bool" where
  "touched sc aid at p s \<longleftrightarrow> (\<exists>t \<in> set (file_touches s). touch_key t = (sc, p, aid) \<and> ft_ts t = at)"

lemma touch_touches: "touched sc aid at p (touch_file sc aid at p s)"
proof (cases "(sc, p, aid) \<in> touch_key ` set (file_touches s)")
  case True
  then obtain t where "t \<in> set (file_touches s)" "touch_key t = (sc, p, aid)" by auto
  then show ?thesis
    by (auto simp: touched_def touch_file_rows set_update_where touch_key_def intro!: bexI [of _ "t\<lparr>ft_ts := at\<rparr>"])
next
  case False
  then show ?thesis by (simp add: touched_def touch_file_rows touch_key_def)
qed

lemma touch_keeps:
  assumes "touched sc aid at p s"
  shows "touched sc aid at p (touch_file sc aid at p' s)"
proof -
  obtain t where t: "t \<in> set (file_touches s)" "touch_key t = (sc, p, aid)" "ft_ts t = at"
    using assms by (auto simp: touched_def)
  show ?thesis
  proof (cases "(sc, p', aid) \<in> touch_key ` set (file_touches s)")
    case True
    have "(if touch_key t = (sc, p', aid) then t\<lparr>ft_ts := at\<rparr> else t) \<in> set (file_touches (touch_file sc aid at p' s))"
      using True t(1) by (auto simp: touch_file_rows set_update_where)
    then show ?thesis
      using t(2,3) by (auto simp: touched_def touch_key_def intro!: bexI split: if_splits)
  next
    case False
    then show ?thesis using t by (auto simp: touched_def touch_file_rows)
  qed
qed

lemma fold_touch:
  fixes sc aid at ps s
  defines "s' \<equiv> fold (touch_file sc aid at) ps s"
  shows "schema_ok s \<Longrightarrow> schema_ok s'" and "agents s' = agents s" and "events s' = events s"
    and "task_rows s' = task_rows s" and "messages s' = messages s" and "deliveries s' = deliveries s"
    and "\<forall>p. p \<in> set ps \<or> touched sc aid at p s \<longrightarrow> touched sc aid at p s'"
    and "filter (\<lambda>t. \<not> own_touch sc aid t) (file_touches s')
      = filter (\<lambda>t. \<not> own_touch sc aid t) (file_touches s)"
  unfolding s'_def
  by (induction ps arbitrary: s) (auto simp: schema_ok_touch touched_others touch_touches touch_keeps)

definition same_but_tasks :: "store \<Rightarrow> store \<Rightarrow> bool" where
  "same_but_tasks s s' \<longleftrightarrow> agents s' = agents s \<and> events s' = events s \<and> file_touches s' = file_touches s \<and>
     messages s' = messages s \<and> deliveries s' = deliveries s \<and> (schema_ok s \<longrightarrow> schema_ok s')"

lemma insert_tasks_rows:
  assumes "insert_tasks sc aid at evs s = (s', None)"
  shows "task_rows s' = task_rows s @ map (\<lambda>ev. task_of sc aid at (te_key ev) ev) evs \<and> same_but_tasks s s'"
  using assms
proof (induction evs arbitrary: s)
  case (Cons ev evs)
  then obtain rs where rs: "insert_row task_key (task_of sc aid at (te_key ev) ev) (task_rows s) = Some rs"
    "insert_tasks sc aid at evs (s\<lparr>task_rows := rs\<rparr>) = (s', None)"
    by (auto split: option.splits)
  have "schema_ok s \<Longrightarrow> schema_ok (s\<lparr>task_rows := rs\<rparr>)"
    using rs(1) by (simp add: schema_ok_def insert_row_Some)
  then show ?case using Cons.IH [OF rs(2)] rs(1) by (auto simp: same_but_tasks_def insert_row_Some)
qed (simp add: same_but_tasks_def)

lemma replace_tasks_rows:
  assumes "replace_tasks sc aid at evs s = (s', None)"
  shows "task_rows s' = delete_where (own_tasks sc aid) (task_rows s) @ map (\<lambda>ev. task_of sc aid at (te_key ev) ev) evs
    \<and> same_but_tasks s s'"
proof -
  have "schema_ok s \<Longrightarrow> schema_ok (task_rows_update (delete_where (own_tasks sc aid)) s)"
    by (simp add: schema_ok_def unique_key_delete)
  then show ?thesis
    using insert_tasks_rows [OF assms [unfolded replace_tasks_def]] by (auto simp: same_but_tasks_def)
qed

lemma task_event_others:
  "filter (\<lambda>t. \<not> own_tasks sc aid t) (task_rows (apply_task_event sc aid at ev s))
     = filter (\<lambda>t. \<not> own_tasks sc aid t) (task_rows s) \<and> same_but_tasks s (apply_task_event sc aid at ev s)"
proof -
  have others: "filter (\<lambda>t. \<not> own_tasks sc aid t) (update_where (\<lambda>q. task_key q = (sc, aid, k)) f rs)
      = filter (\<lambda>t. \<not> own_tasks sc aid t) rs" if "\<And>q. own_tasks sc aid (f q) = own_tasks sc aid q" for f rs k
    using that by (induction rs) (auto simp: task_key_def own_tasks_def)
  have keys: "unique_key task_key rs \<Longrightarrow> unique_key task_key (update_where p f rs)"
    if "\<And>q. task_key (f q) = task_key q" for p f rs
    using that by (auto intro: unique_key_update)
  have mine: "own_tasks sc aid (task_of sc aid at k e)" "task_key (task_of sc aid at k e) = (sc, aid, k)" for k e
    by (simp_all add: own_tasks_def task_of_def task_key_def)
  have sub: "own_tasks sc aid (q\<lparr>tk_subject := x\<rparr>) = own_tasks sc aid q" "task_key (q\<lparr>tk_subject := x\<rparr>) = task_key q"
    "own_tasks sc aid (q\<lparr>tk_status := x, tk_updated := at\<rparr>) = own_tasks sc aid q"
    "task_key (q\<lparr>tk_status := x, tk_updated := at\<rparr>) = task_key q" for q x
    by (simp_all add: own_tasks_def task_key_def)
  show ?thesis
    by (auto simp: apply_task_event_def Let_def same_but_tasks_def schema_ok_def mine sub others keys insert_row_Some
        split: option.splits)
qed

text \<open>
  An event is ingested whole: the session has an active row seen now, the log gains exactly
  that event under the agent's id, every written path is marked as touched now and only the
  agent's own marks change, only its own tasks change and a snapshot replaces exactly those, and
  a presence event hands out no notices and leaves mail alone.
\<close>

theorem event_recorded:
  assumes "schema_ok s" and "record_event sc sess q now s = (s', Inr lines)"
  shows "schema_ok s' \<and> (\<exists>r. row_at sc sess s' = Some r \<and> ar_status r = Active \<and> ar_seen r = unix now) \<and>
    (\<exists>e. events s' = events s @ [e] \<and> ev_scope e = sc \<and> ev_agent e = agent_id sess \<and> ev_tool e = q_tool q \<and>
       ev_activity e = q_activity q \<and> ev_ts e = unix now) \<and>
    (\<forall>p \<in> set (items (q_writes q)). touched sc (agent_id sess) (unix now) p s') \<and>
    filter (\<lambda>t. \<not> own_touch sc (agent_id sess) t) (file_touches s')
      = filter (\<lambda>t. \<not> own_touch sc (agent_id sess) t) (file_touches s) \<and>
    filter (\<lambda>t. \<not> own_tasks sc (agent_id sess) t) (task_rows s')
      = filter (\<lambda>t. \<not> own_tasks sc (agent_id sess) t) (task_rows s) \<and>
    (q_replace q \<and> q_task_ev q = None \<longrightarrow> filter (own_tasks sc (agent_id sess)) (task_rows s')
      = map (\<lambda>ev. task_of sc (agent_id sess) (unix now) (te_key ev) ev) (items (q_tasks q))) \<and>
    (q_source q = ''presence'' \<longrightarrow> lines = [] \<and> messages s' = messages s \<and> deliveries s' = deliveries s)"
proof -
  let ?aid = "agent_id sess" and ?at = "unix now"
  obtain s1 name where reg: "register quiet sc sess ''event'' now s = (s1, Inr name)"
    using assms(2) by (auto simp: record_event_def split: prod.splits sum.splits)
  let ?l = "log_event sc ?aid q ?at s1"
  let ?s2 = "fold (touch_file sc ?aid ?at) (items (q_writes q)) ?l"
  obtain s3 oe where eq: "(if q_replace q then replace_tasks sc ?aid ?at (items (q_tasks q)) ?s2 else (?s2, None)) = (s3, oe)"
    by fastforce
  note run0 = assms(2) [unfolded record_event_def reg prod.case sum.case Let_def eq]
  have oe: "oe = None" using run0 by (cases oe) auto
  note s3 = eq [unfolded oe]
  define s4 where "s4 = (case q_task_ev q of None \<Rightarrow> s3 | Some ev \<Rightarrow> apply_task_event sc ?aid ?at ev s3)"
  note run = run0 [unfolded oe option.case s4_def [symmetric]]
  obtain s5 ns where ns: "notices_for sc ?aid (items (q_writes q)) now s4 = (s5, ns)" by fastforce
  have marked: "\<exists>ids. s' = (if q_source q = ''presence'' then s4 else mark_all_noticed ?aid ?at ids s4)"
    and silent: "q_source q = ''presence'' \<Longrightarrow> lines = []"
    using run notices_mail(1) [OF ns] by (auto simp: ns split: if_splits)
  note f = register_frame [OF reg] fold_touch [where sc = sc and aid = ?aid and at = ?at and ps = "items (q_writes q)" and s = ?l]
  have own: "filter (\<lambda>t. \<not> own_tasks sc ?aid t) (map (\<lambda>ev. task_of sc ?aid ?at (te_key ev) ev) evs) = []"
    "filter (own_tasks sc ?aid) (map (\<lambda>ev. task_of sc ?aid ?at (te_key ev) ev) evs)
      = map (\<lambda>ev. task_of sc ?aid ?at (te_key ev) ev) evs" for evs
    by (induction evs) (auto simp: own_tasks_def task_of_def)
  have cut: "filter (\<lambda>t. \<not> own_tasks sc ?aid t) (delete_where (own_tasks sc ?aid) rs) = filter (\<lambda>t. \<not> own_tasks sc ?aid t) rs"
    "filter (own_tasks sc ?aid) (delete_where (own_tasks sc ?aid) rs) = []" for rs
    by (induction rs) auto
  have rows3: "same_but_tasks ?s2 s3 \<and>
    filter (\<lambda>t. \<not> own_tasks sc ?aid t) (task_rows s3) = filter (\<lambda>t. \<not> own_tasks sc ?aid t) (task_rows ?s2) \<and>
    (q_replace q \<longrightarrow> filter (own_tasks sc ?aid) (task_rows s3)
       = map (\<lambda>ev. task_of sc ?aid ?at (te_key ev) ev) (items (q_tasks q)))"
  proof (cases "q_replace q")
    case True
    then show ?thesis using s3 replace_tasks_rows [of sc ?aid ?at _ ?s2 s3] by (auto simp: own cut)
  next
    case False
    then show ?thesis using s3 by (simp add: same_but_tasks_def)
  qed
  have rows4: "same_but_tasks s3 s4"
    "filter (\<lambda>t. \<not> own_tasks sc ?aid t) (task_rows s4) = filter (\<lambda>t. \<not> own_tasks sc ?aid t) (task_rows s3)"
    "q_task_ev q = None \<Longrightarrow> s4 = s3"
    using task_event_others by (auto simp: s4_def same_but_tasks_def split: option.splits)
  have ok1: "schema_ok ?l" using register_quiet_keeps [OF assms(1) reg] by (simp add: schema_ok_def log_event_def)
  have pre: "agents s4 = agents s1" "events s4 = events ?l" "file_touches s4 = file_touches ?s2"
    "messages s4 = messages s" "deliveries s4 = deliveries s" "schema_ok s4"
    using rows3 rows4(1) f ok1 by (auto simp: same_but_tasks_def log_event_def)
  obtain ids where s': "s' = (if q_source q = ''presence'' then s4 else mark_all_noticed ?aid ?at ids s4)"
    using marked by blast
  have post: "agents s' = agents s1" "events s' = events ?l" "file_touches s' = file_touches ?s2"
    "task_rows s' = task_rows s4" "schema_ok s'"
    using pre schema_ok_marks(2) [OF pre(6)] by (simp_all add: s' mark_all_noticed_def)
  obtain r where r: "row_at sc sess s1 = Some r" "ar_status r = Active" "ar_seen r = ?at"
    by (rule register_row [OF reg])
  have row: "row_at sc sess s' = Some r" using r(1) by (simp add: row_at_def post(1))
  have "\<exists>e. events s' = events s @ [e] \<and> ev_scope e = sc \<and> ev_agent e = ?aid \<and> ev_tool e = q_tool q \<and>
       ev_activity e = q_activity q \<and> ev_ts e = ?at"
    by (simp add: post(2) log_event_def f(1))
  moreover have "\<forall>p \<in> set (items (q_writes q)). touched sc ?aid ?at p s'"
    using f(16) by (simp add: touched_def post(3))
  moreover have "filter (\<lambda>t. \<not> own_touch sc ?aid t) (file_touches s') = filter (\<lambda>t. \<not> own_touch sc ?aid t) (file_touches s)"
    using f(17) f(2) by (simp add: post(3) log_event_def)
  moreover have "filter (\<lambda>t. \<not> own_tasks sc ?aid t) (task_rows s') = filter (\<lambda>t. \<not> own_tasks sc ?aid t) (task_rows s)"
    using rows3 rows4(2) f(3,13) by (simp add: post(4) log_event_def)
  moreover have "q_replace q \<and> q_task_ev q = None \<Longrightarrow> filter (own_tasks sc ?aid) (task_rows s')
      = map (\<lambda>ev. task_of sc ?aid ?at (te_key ev) ev) (items (q_tasks q))"
    using rows3 rows4(3) by (simp add: post(4))
  moreover have "q_source q = ''presence'' \<Longrightarrow> lines = [] \<and> messages s' = messages s \<and> deliveries s' = deliveries s"
    using silent pre(4,5) by (simp add: s')
  ultimately show ?thesis using post(5) row r by blast
qed

definition fox_edit :: request where
  "fox_edit = zero_request\<lparr>q_op := ''event'', q_tool := ''Edit'', q_writes := Some [''a.go''], q_source := ''presence''\<rparr>"

theorem event_recorded_witness:
  "\<exists>s' e. record_event ''ws'' ''a'' fox_edit (from_unix 110) office = (s', Inr []) \<and>
     events s' = [e] \<and> ev_tool e = ''Edit'' \<and> touched ''ws'' (agent_id ''a'') 110 ''a.go'' s'"
proof -
  have mine: "row_at ''ws'' ''a'' office = Some (plain_agent ''ws'' ''a'' ''id-a'' ''calm-fox'' 100)"
    by (simp add: row_at_def at_session_def office_def plain_agent_def)
  have run: "\<exists>s'. record_event ''ws'' ''a'' fox_edit (from_unix 110) office = (s', Inr [])"
    by (simp add: record_event_def register_quiet mine fox_edit_def zero_request_def items_def Let_def)
  then obtain s' where s': "record_event ''ws'' ''a'' fox_edit (from_unix 110) office = (s', Inr [])" by blast
  from event_recorded [OF schema_ok_office s'] show ?thesis
    using s' by (auto simp: fox_edit_def zero_request_def items_def office_def empty_store_def)
qed

section \<open>What housekeeping leaves\<close>

lemma purge_traffic_frame [simp]:
  "agents (purge_traffic now s) = agents s" "claims (purge_traffic now s) = claims s"
  "eyes_tasks (purge_traffic now s) = eyes_tasks s"
  by (simp_all add: purge_traffic_def Let_def)

lemma purge_agents_frame [simp]:
  "messages (purge_agents now s) = messages s" "eyes_tasks (purge_agents now s) = eyes_tasks s"
  by (simp_all add: purge_agents_def Let_def)

lemma purge_ledgers_frame [simp]:
  "agents (purge_ledgers now s) = agents s" "claims (purge_ledgers now s) = claims s"
  "messages (purge_ledgers now s) = messages s" "deliveries (purge_ledgers now s) = deliveries s"
  by (simp_all add: purge_ledgers_def)

lemma list_all_delete: "list_all P rs \<Longrightarrow> list_all P (delete_where q rs)"
  by (auto simp: list_all_iff)

lemma schema_ok_purges:
  "schema_ok s \<Longrightarrow> schema_ok (purge_traffic now s)"
  "schema_ok s \<Longrightarrow> schema_ok (purge_agents now s)"
  "schema_ok s \<Longrightarrow> schema_ok (purge_ledgers now s)"
  by (simp_all add: schema_ok_def purge_traffic_def purge_agents_def purge_ledgers_def Let_def
      unique_key_delete list_all_delete)

lemma purged_messages:
  "m \<in> set (messages (purge_traffic now s)) \<longleftrightarrow> m \<in> set (messages s) \<and>
     \<not> (mr_created m < unix now - 7 * day_s \<and> read_by_all s m) \<and> unix now - 30 * day_s \<le> mr_created m"
  by (auto simp: purge_traffic_def Let_def read_by_all_def)

lemma purged_deliveries:
  "d \<in> set (deliveries (purge_traffic now s)) \<longleftrightarrow> d \<in> set (deliveries s) \<and>
     (\<exists>m \<in> set (messages (purge_traffic now s)). mr_id m = dl_message d)"
  by (auto simp: purge_traffic_def Let_def image_iff)

lemma purged_rows:
  "agents (purge_agents now s) = delete_where (\<lambda>a. ar_seen a < unix (now - seconds 7200)) (agents s)"
  "set (deliveries (purge_agents now s)) =
     {d \<in> set (deliveries s). \<exists>a \<in> set (agents (purge_agents now s)). ar_id a = dl_agent d}"
  by (auto simp: purge_agents_def Let_def image_iff)

lemma claim_holder_stays: "claim_holder now c a \<Longrightarrow> \<not> ar_seen a < unix (now - seconds 7200)"
  by (simp add: claim_holder_def window_defs unix_diff_seconds [unfolded seconds_def] seconds_def)

lemma purged_claims:
  "claims (purge_agents now s) = filter (\<lambda>c. \<exists>a \<in> set (agents s). claim_holder now c a) (claims s)"
  "c \<in> set (claims (purge_agents now s)) \<Longrightarrow> \<exists>a \<in> set (agents (purge_agents now s)). claim_holder now c a"
  using claim_holder_stays
  by (auto simp: purge_agents_def Let_def delete_where_def list_ex_iff intro!: filter_cong)

text \<open>
  Housekeeping never leaves anything dangling and never drops what is still owed: it settles
  every overdue task first and reports no error; afterwards every claim has a live holder and was
  not touched if it had one, every delivery names a message and an agent that exist, agents are
  dropped exactly when silent for two hours, and every message of the last week, and every unread
  one of the last thirty days, is still there.
\<close>

theorem housekeep_settles:
  assumes "schema_ok s" and "\<forall>r \<in> set (agents s). ar_id r \<noteq> []"
    and "\<forall>t \<in> set (eyes_tasks s). et_req_scope t \<noteq> [] \<and> et_req_agent t \<noteq> []"
    and "housekeep now s = (s', e)"
  shows "e = None \<and> schema_ok s' \<and>
    agents s' = filter (\<lambda>a. unix now - 7200 \<le> ar_seen a) (agents s) \<and>
    claims s' = filter (\<lambda>c. \<exists>a \<in> set (agents s). claim_holder now c a) (claims s) \<and>
    (\<forall>c \<in> set (claims s'). \<exists>a \<in> set (agents s'). claim_holder now c a) \<and>
    (\<forall>d \<in> set (deliveries s'). (\<exists>m \<in> set (messages s'). mr_id m = dl_message d) \<and>
       (\<exists>a \<in> set (agents s'). ar_id a = dl_agent d)) \<and>
    (\<forall>t \<in> set (eyes_tasks s'). \<not> overdue (unix now) t) \<and>
    (\<exists>s1 n. expire_eyes_tasks now s = (s1, n, None) \<and>
       (\<forall>m \<in> set (messages s1). unix now - 7 * day_s \<le> mr_created m \<or> unix now - 30 * day_s \<le> mr_created m \<and>
          (\<exists>d \<in> set (deliveries s1). dl_message d = mr_id m \<and> dl_read d = None) \<longrightarrow> m \<in> set (messages s')))"
proof -
  obtain s1 where s1: "expire_eyes_tasks now s = (s1, count_where (overdue (unix now)) (eyes_tasks s), None)"
    "schema_ok s1" "agents s1 = agents s" "claims s1 = claims s" "\<forall>t \<in> set (eyes_tasks s1). \<not> overdue (unix now) t"
    using swept_rows [OF assms(1-3), of now] by blast
  let ?t = "purge_traffic now s1"
  let ?a = "purge_agents now ?t"
  have e: "e = None" and s': "s' = purge_ledgers now ?a"
    using assms(4) s1(1) by (simp_all add: housekeep_def)
  have ok: "schema_ok s'" unfolding s' by (intro schema_ok_purges s1(2))
  have agents: "agents s' = filter (\<lambda>a. unix now - 7200 \<le> ar_seen a) (agents s)"
    by (simp add: s' purged_rows s1(3) delete_where_def unix_diff_seconds not_less)
  have claims: "claims s' = filter (\<lambda>c. \<exists>a \<in> set (agents s). claim_holder now c a) (claims s)"
    by (simp add: s' purged_claims(1) s1(3,4))
  have held: "\<forall>c \<in> set (claims s'). \<exists>a \<in> set (agents s'). claim_holder now c a"
    using purged_claims(2) [of _ now ?t] by (simp add: s')
  have mail: "\<forall>d \<in> set (deliveries s'). (\<exists>m \<in> set (messages s'). mr_id m = dl_message d) \<and>
       (\<exists>a \<in> set (agents s'). ar_id a = dl_agent d)"
    using purged_rows(2) [of now ?t] purged_deliveries [of _ now s1] by (auto simp: s')
  have tasks: "\<forall>t \<in> set (eyes_tasks s'). \<not> overdue (unix now) t"
    using s1(5) by (simp add: s' purge_ledgers_def)
  have kept: "m \<in> set (messages s')" if "m \<in> set (messages s1)"
    "unix now - 7 * day_s \<le> mr_created m \<or> unix now - 30 * day_s \<le> mr_created m \<and>
       (\<exists>d \<in> set (deliveries s1). dl_message d = mr_id m \<and> dl_read d = None)" for m
    using that by (auto simp: s' purged_messages read_by_all_def day_s_def)
  show ?thesis
    using e ok agents claims held mail tasks kept s1(1) by blast
qed

definition stale_office :: store where
  "stale_office = office\<lparr>claims := [\<lparr>cl_scope = ''ws'', cl_path = ''a.go'', cl_agent = ''id-a'', cl_note = [],
       cl_since = 90\<rparr>, \<lparr>cl_scope = ''ws'', cl_path = ''b.go'', cl_agent = ''id-z'', cl_note = [], cl_since = 90\<rparr>]\<rparr>"

theorem housekeep_settles_witness:
  "\<exists>s'. housekeep (from_unix 200) stale_office = (s', None) \<and> map cl_path (claims s') = [''a.go'']"
proof -
  have ok: "schema_ok stale_office" "\<forall>r \<in> set (agents stale_office). ar_id r \<noteq> []"
    "\<forall>t \<in> set (eyes_tasks stale_office). et_req_scope t \<noteq> [] \<and> et_req_agent t \<noteq> []"
    by (simp_all add: stale_office_def schema_ok_def office_def plain_agent_def empty_store_def key_defs)
  obtain s' e where run: "housekeep (from_unix 200) stale_office = (s', e)" by fastforce
  have "claim_holder (from_unix 200) (claims stale_office ! 0) (agents office ! 0)"
    "\<forall>a \<in> set (agents office). \<not> claim_holder (from_unix 200) (claims stale_office ! 1) a"
    by (simp_all add: claim_holder_def stale_office_def office_def plain_agent_def stale_window_def unix_diff_seconds)
  then show ?thesis
    using housekeep_settles [OF ok run] run by (simp add: stale_office_def office_def)
qed

end
