(* ===== verification/Frames.thy ===== *)
theory Frames
  imports Board
begin

text \<open>
  The response frame of \<open>internal/protocol\<close> and the listings it carries, each with the document
  \<open>json.Marshal\<close> prints for it. A slice is printed with \<open>omitempty\<close>, so an absent one and an empty
  one are the same list here.
\<close>

section \<open>Printing\<close>

definition opt_bool :: "string \<Rightarrow> bool \<Rightarrow> (string \<times> json) list" where
  "opt_bool k b = (if b then [(k, JBool True)] else [])"

definition opt_list :: "string \<Rightarrow> ('a \<Rightarrow> json) \<Rightarrow> 'a list \<Rightarrow> (string \<times> json) list" where
  "opt_list k f xs = (if xs = [] then [] else [(k, JArr (map f xs))])"

definition opt_ref :: "string \<Rightarrow> agent_ref option \<Rightarrow> (string \<times> json) list" where
  "opt_ref k r = (case r of None \<Rightarrow> [] | Some x \<Rightarrow> [(k, ref_json x)])"

definition message_json :: "message \<Rightarrow> json" where
  "message_json m = JObj ([(''id'', json_int (int (msg_id m))), (''from'', JStr (msg_from m)), (''body'', JStr (msg_body m)),
     (''sent_at'', json_int (msg_sent m)), (''broadcast'', JBool (msg_broadcast m))]
     @ opt_ref ''reply_to'' (msg_reply_to m) @ opt_text ''from_scope'' (msg_from_scope m)
     @ opt_text ''kind'' (msg_kind m) @ opt_text ''task_id'' (msg_task m))"

definition agent_json :: "agent_info \<Rightarrow> json" where
  "agent_json a = JObj ([(''agent_id'', JStr (ai_id a)), (''name'', JStr (ai_name a)),
     (''status'', JStr (status_text (ai_status a)))]
     @ opt_text ''current_task'' (ai_task a) @ opt_text ''activity'' (ai_activity a)
     @ opt_list ''files'' JStr (items (ai_files a))
     @ [(''last_seen'', json_int (ai_seen a)), (''tasks_pending'', json_int (int (ai_pending a))),
        (''tasks_completed'', json_int (int (ai_done a)))]
     @ opt_text ''parent'' (ai_parent a) @ opt_list ''claims'' JStr (items (ai_claims a))
     @ opt_text ''kind'' (ai_kind a) @ opt_text ''scope'' (ai_scope a) @ opt_text ''origin'' (ai_origin a)
     @ opt_text ''platform'' (ai_platform a) @ opt_list ''capabilities'' JStr (items (ai_caps a)))"

definition workspace_json :: "workspace_info \<Rightarrow> json" where
  "workspace_json w = JObj ([(''scope'', JStr (wi_scope w)), (''live_agents'', json_int (int (wi_live w))),
     (''eyes_agents'', json_int (int (wi_eyes w)))]
     @ opt_int ''launcher_agents'' (int (wi_launchers w)) @ opt_int ''last_seen'' (wi_seen w))"

definition claim_json :: "claim_info \<Rightarrow> json" where
  "claim_json c = JObj ([(''path'', JStr (ci_path c)), (''holder'', JStr (ci_holder c)),
     (''holder_id'', JStr (ci_holder_id c))] @ opt_text ''note'' (ci_note c) @ [(''since'', json_int (ci_since c))])"

definition history_json :: "history_info \<Rightarrow> json" where
  "history_json h = JObj [(''message_id'', json_int (int (hi_id h))), (''from'', JStr (hi_from h)), (''to'', JStr (hi_to h)),
     (''body_preview'', JStr (hi_preview h)), (''sent_at'', json_int (hi_sent h)), (''read_at'', json_int (hi_read h)),
     (''broadcast'', JBool (hi_broadcast h))]"

section \<open>The eyes ledger on the wire\<close>

record eyes_task_info =
  ti_task :: string
  ti_runtime :: string
  ti_state :: string
  ti_scope :: string
  ti_agent :: string
  ti_launcher_scope :: string
  ti_created :: int
  ti_updated :: int
  ti_deadline :: int
  ti_elapsed :: int
  ti_remaining :: int
  ti_overdue :: bool
  ti_acked :: bool
  ti_turns :: int
  ti_tool :: string
  ti_heartbeat :: int
  ti_heartbeat_age :: int
  ti_stale :: bool

definition task_info :: "eyes_view \<Rightarrow> eyes_task_info" where
  "task_info v = (let t = vw_task v in
     \<lparr>ti_task = et_task t, ti_runtime = et_runtime t, ti_state = eyes_state_text (et_state t),
      ti_scope = et_req_scope t, ti_agent = et_req_agent t, ti_launcher_scope = et_launcher_scope t,
      ti_created = et_created t, ti_updated = et_updated t, ti_deadline = et_deadline t,
      ti_elapsed = vw_elapsed v, ti_remaining = vw_remaining v, ti_overdue = vw_overdue v,
      ti_acked = et_acked t, ti_turns = ep_turns (vw_progress v), ti_tool = ep_tool (vw_progress v),
      ti_heartbeat = et_heartbeat t, ti_heartbeat_age = vw_heartbeat_age v, ti_stale = vw_stale v\<rparr>)"

definition task_info_json :: "eyes_task_info \<Rightarrow> json" where
  "task_info_json t = JObj ([(''task_id'', JStr (ti_task t))] @ opt_text ''runtime'' (ti_runtime t)
     @ [(''state'', JStr (ti_state t)), (''requester_scope'', JStr (ti_scope t)), (''requester_agent_id'', JStr (ti_agent t))]
     @ opt_text ''launcher_scope'' (ti_launcher_scope t)
     @ [(''created_at'', json_int (ti_created t)), (''updated_at'', json_int (ti_updated t)),
        (''deadline_s'', json_int (ti_deadline t)), (''elapsed_s'', json_int (ti_elapsed t)),
        (''remaining_s'', json_int (ti_remaining t))]
     @ opt_bool ''overdue'' (ti_overdue t) @ opt_bool ''cancel_acked'' (ti_acked t) @ opt_int ''turns'' (ti_turns t)
     @ opt_text ''tool'' (ti_tool t) @ opt_int ''heartbeat_at'' (ti_heartbeat t)
     @ opt_int ''heartbeat_age_s'' (ti_heartbeat_age t) @ opt_bool ''heartbeat_stale'' (ti_stale t))"

section \<open>Responses\<close>

record response =
  rs_ok :: bool
  rs_error :: string
  rs_name :: string
  rs_notices :: "string list"
  rs_agents :: "agent_info list"
  rs_messages :: "message list"
  rs_unread :: nat
  rs_high :: nat
  rs_peek_ids :: "nat list"
  rs_peek_froms :: "string list"
  rs_agent :: string
  rs_source :: string
  rs_parent :: string
  rs_claims :: "claim_info list"
  rs_history :: "history_info list"
  rs_workspaces :: "workspace_info list"
  rs_tasks :: "eyes_task_info list"
  rs_task :: string
  rs_launcher :: "agent_ref option"
  rs_secret :: string

definition no_response :: response where
  "no_response = \<lparr>rs_ok = False, rs_error = [], rs_name = [], rs_notices = [], rs_agents = [], rs_messages = [],
     rs_unread = 0, rs_high = 0, rs_peek_ids = [], rs_peek_froms = [], rs_agent = [], rs_source = [], rs_parent = [],
     rs_claims = [], rs_history = [], rs_workspaces = [], rs_tasks = [], rs_task = [], rs_launcher = None, rs_secret = []\<rparr>"

definition ok_response :: response where
  "ok_response = no_response\<lparr>rs_ok := True\<rparr>"

definition error_response :: "string \<Rightarrow> response" where
  "error_response t = no_response\<lparr>rs_error := t\<rparr>"

definition response_json :: "response \<Rightarrow> json" where
  "response_json r = JObj ([(''ok'', JBool (rs_ok r))] @ opt_text ''error'' (rs_error r) @ opt_text ''name'' (rs_name r)
     @ opt_list ''notices'' JStr (rs_notices r) @ opt_list ''agents'' agent_json (rs_agents r)
     @ opt_list ''messages'' message_json (rs_messages r) @ opt_int ''unread'' (int (rs_unread r))
     @ opt_int ''high_water'' (int (rs_high r)) @ opt_list ''peek_ids'' (\<lambda>i. json_int (int i)) (rs_peek_ids r)
     @ opt_list ''peek_froms'' JStr (rs_peek_froms r) @ opt_text ''agent_id'' (rs_agent r)
     @ opt_text ''source'' (rs_source r) @ opt_text ''parent'' (rs_parent r)
     @ opt_list ''claims'' claim_json (rs_claims r) @ opt_list ''history'' history_json (rs_history r)
     @ opt_list ''workspaces'' workspace_json (rs_workspaces r) @ opt_list ''eyes_tasks'' task_info_json (rs_tasks r)
     @ opt_text ''task_id'' (rs_task r) @ opt_ref ''launcher'' (rs_launcher r)
     @ opt_text ''session_secret'' (rs_secret r))"

end
