(* ===== verification/Gate.thy ===== *)
theory Gate
  imports Frames
begin

text \<open>
  The relay gate of \<open>relaygate.go\<close>: what a request that came in over TCP must prove before the
  daemon acts on it, how its identity is rewritten from the row it proved, the two registrations
  the relay allows, and the only error texts that may leave over it. A nil gate is the unix socket.
\<close>

section \<open>What may cross\<close>

definition relay_ops :: "op list" where
  "relay_ops = [OpRegister, OpDeregister, OpEvent, OpIdle, OpBoard, OpAgents, OpSend, OpBroadcast, OpRead, OpPeek,
     OpListWorkspaces, OpListEyes, OpSendWorkspace]"

definition send_ops :: "op list" where
  "send_ops = [OpSend, OpBroadcast, OpSendWorkspace]"

definition wire_errors :: "err list" where
  "wire_errors = [ErrRelayAuth, ErrForeignSession, ErrEyesBusy, ErrNoLauncher, ErrNoProvider, ErrBadRuntime,
     ErrUnknownTask, ErrNotYourTask, ErrTaskNotLive, ErrBadTransition, ErrNoAgent, ErrReservedTask]"

definition internal_error :: string where "internal_error = ''internal error''"
definition unauthorized :: string where "unauthorized = ''unauthorized''"
definition not_allowed :: string where "not_allowed = ''op not allowed on relay''"

definition relay_error :: "err \<Rightarrow> string" where
  "relay_error e = (if err_is e ErrNoSession then err_text ErrRelayAuth
     else if list_ex (err_is e) wire_errors then err_text e else internal_error)"

definition relay_error_text :: "string \<Rightarrow> string" where
  "relay_error_text msg = (if list_ex (\<lambda>w. has_prefix (err_text w) msg) wire_errors then msg else internal_error)"

definition hidden_errors :: "err list" where
  "hidden_errors = [ErrUnknownTask, ErrNotYourTask, ErrTaskNotLive, ErrForeignSession, ErrRelayAuth, ErrNoSession]"

definition child_register_error :: "err \<Rightarrow> string" where
  "child_register_error e = (if list_ex (err_is e) hidden_errors then unauthorized else relay_error e)"

section \<open>The gate\<close>

record gate =
  gt_token :: string
  gt_insecure :: bool

datatype verdict = Answer response | Pass request

definition registered :: "string \<Rightarrow> string \<Rightarrow> string \<Rightarrow> store \<Rightarrow> response" where
  "registered sc sess secret s = (case identity_of sc sess s of
     Inl e \<Rightarrow> error_response (relay_error e)
   | Inr i \<Rightarrow> ok_response\<lparr>rs_name := id_name i, rs_agent := id_id i, rs_secret := secret\<rparr>)"

definition registration_of :: "request \<Rightarrow> relay_registration" where
  "registration_of q = \<lparr>rr_scope = q_scope q, rr_session = q_session q, rr_kind = kind_launcher, rr_origin = relay_origin,
     rr_platform = q_platform q, rr_secret = q_secret q, rr_caps = q_caps q\<rparr>"

definition register_launcher :: "request \<Rightarrow> time \<Rightarrow> store \<Rightarrow> store \<times> response" where
  "register_launcher q now s =
     (if \<not> has_prefix host_scope_prefix (q_scope q) then (s, error_response ''foreign session'')
      else case register_relay (registration_of q) now s of
        Inl e \<Rightarrow> (s, error_response (relay_error e))
      | Inr (s', name) \<Rightarrow> (s', registered (q_scope q) (q_session q) [] s'))"

text \<open>The secret a child is given is the store's own 32 random bytes, an argument here.\<close>

definition register_eyes :: "request \<Rightarrow> string \<Rightarrow> time \<Rightarrow> store \<Rightarrow> store \<times> response" where
  "register_eyes q fresh now s =
     (case cut_prefix ''eyes-'' (q_session q) of
        None \<Rightarrow> (s, error_response unauthorized)
      | Some task \<Rightarrow>
          if q_auth_session q = [] then (s, error_response unauthorized)
          else case verify_relay_secret (q_auth_session q) (q_secret q) s of
            Inl e \<Rightarrow> (s, error_response unauthorized)
          | Inr l \<Rightarrow>
              if ri_kind l \<noteq> kind_launcher then (s, error_response unauthorized)
              else case eyes_task task s of
                Inl e \<Rightarrow> (s, error_response (child_register_error e))
              | Inr t \<Rightarrow>
                  if et_req_scope t \<noteq> q_scope q then (s, error_response unauthorized)
                  else case reissue_eyes_child task (q_auth_session q) (q_secret q) fresh now s of
                    Inl e \<Rightarrow> (s, error_response (child_register_error e))
                  | Inr (s', name, secret) \<Rightarrow> (s', registered (et_req_scope t) (q_session q) secret s'))"

definition gate_register :: "request \<Rightarrow> string \<Rightarrow> string \<Rightarrow> time \<Rightarrow> store \<Rightarrow> store \<times> response" where
  "gate_register q claimed fresh now s =
     (if claimed = kind_launcher then register_launcher q now s
      else if claimed = kind_eyes then register_eyes q fresh now s
      else (s, error_response not_allowed))"

definition as_row :: "relay_identity \<Rightarrow> request \<Rightarrow> request" where
  "as_row i q = q\<lparr>q_scope := ri_scope i, q_from := ri_name i, q_kind := ri_kind i, q_agent := [],
     q_origin := relay_origin, q_task := (if op_of (q_op q) \<in> set send_ops then [] else q_task q)\<rparr>"

definition token_ok :: "gate \<Rightarrow> request \<Rightarrow> bool" where
  "token_ok g q \<longleftrightarrow> gt_insecure g \<or> gt_token g \<noteq> [] \<and> q_token q = gt_token g"

definition decide :: "gate \<Rightarrow> string \<Rightarrow> time \<Rightarrow> request \<Rightarrow> string \<Rightarrow> store \<Rightarrow> store \<times> verdict" where
  "decide g fresh now q claimed s =
     (if \<not> token_ok g q then (s, Answer (error_response unauthorized))
      else if op_of (q_op q) \<notin> set relay_ops then (s, Answer (error_response not_allowed))
      else if q_session q = [] then (s, Answer (error_response unauthorized))
      else if op_of (q_op q) = OpRegister then
        (let (s', resp) = gate_register q claimed fresh now s in (s', Answer resp))
      else case verify_relay_secret (q_session q) (q_secret q) s of
        Inl e \<Rightarrow> (s, Answer (error_response (relay_error e)))
      | Inr i \<Rightarrow> (s, Pass (as_row i q)))"

definition check :: "gate option \<Rightarrow> string \<Rightarrow> time \<Rightarrow> request \<Rightarrow> string \<Rightarrow> store \<Rightarrow> store \<times> verdict" where
  "check og fresh now q claimed s = (case og of None \<Rightarrow> (s, Pass q) | Some g \<Rightarrow> decide g fresh now q claimed s)"

end
