(* ===== verification/Report.thy ===== *)
theory Report
  imports Gate
begin

text \<open>
  Lifecycle reports inside outgoing mail, the daemon's half of \<open>eyes.go\<close>: the token loop that
  decides from the type alone whether a body belongs to the reserved \<open>task.\<close> family, the strict
  decoding of the four report kinds, and the move or the sample a report becomes.
\<close>

section \<open>The type of a body\<close>

definition reserved_prefix :: string where
  "reserved_prefix = ''task.''"

text \<open>The next key of the token loop: the first member's, or one after a comma.\<close>

definition next_key :: "bool \<Rightarrow> string \<Rightarrow> (string \<times> string) option" where
  "next_key first s = (case skip_space s of
     [] \<Rightarrow> None
   | c # r \<Rightarrow>
       (let ks = (if first then c # r else if c = CHR '','' then skip_space r else []) in
        case ks of
          [] \<Rightarrow> None
        | q # t \<Rightarrow> if q = dquote then map_option (\<lambda>(w, t'). (unquote w, t')) (scan_string t) else None))"

definition after_colon :: "string \<Rightarrow> string option" where
  "after_colon s = (case skip_space s of [] \<Rightarrow> None | c # r \<Rightarrow> if c = CHR '':'' then Some r else None)"

definition string_value :: "json \<Rightarrow> string option" where
  "string_value j = (case j of JStr t \<Rightarrow> Some t | JNull \<Rightarrow> Some [] | _ \<Rightarrow> None)"

lemma read_value_shorter: "read_value s = Some (j, r) \<Longrightarrow> length r < length s"
  unfolding read_value_def by (rule parse_shorter)

lemma next_key_shorter: "next_key first s = Some (k, r) \<Longrightarrow> length r < length s"
proof -
  assume k: "next_key first s = Some (k, r)"
  obtain c t where ct: "skip_space s = c # t" using k by (cases "skip_space s") (auto simp: next_key_def)
  have "length (skip_space t) \<le> length t" "length (c # t) \<le> length s"
    using length_skip_space [of t] length_skip_space [of s] by (simp_all add: ct)
  then show ?thesis
    using k by (auto simp: next_key_def ct Let_def dest!: scan_string_shorter split: list.splits if_splits)
qed

lemma after_colon_shorter: "after_colon s = Some r \<Longrightarrow> length r < length s"
  using length_skip_space [of s] by (auto simp: after_colon_def split: list.splits if_splits)

text \<open>
  One member per turn of the loop; it stops where a token or a value fails and keeps what it has
  seen, and answers the bare prefix when a repeated type names the family.
\<close>

function type_loop :: "bool \<Rightarrow> string \<Rightarrow> string \<Rightarrow> bool \<Rightarrow> string" where
  "type_loop first s typ seen =
     (case Option.bind (next_key first s) (\<lambda>(key, r). Option.bind (after_colon r) (\<lambda>v.
          map_option (\<lambda>(j, r'). (key, j, r')) (read_value v))) of
        None \<Rightarrow> typ
      | Some (key, j, r') \<Rightarrow>
          if key \<noteq> ''type'' then type_loop False r' typ seen
          else (case string_value j of
             None \<Rightarrow> typ
           | Some w \<Rightarrow>
               if seen \<and> (has_prefix reserved_prefix typ \<or> has_prefix reserved_prefix w) then reserved_prefix
               else type_loop False r' w True))"
  by pat_completeness auto
termination
  by (relation "measure (\<lambda>(first, s, typ, seen). length s)")
    (auto simp: bind_eq_Some_conv dest!: next_key_shorter after_colon_shorter read_value_shorter)

declare type_loop.simps [simp del]

definition task_message_type :: "string \<Rightarrow> string \<times> bool" where
  "task_message_type body = (case skip_space body of
     [] \<Rightarrow> ([], False)
   | c # r \<Rightarrow> if c \<noteq> CHR ''{'' then ([], False)
       else (let typ = type_loop True r [] False in (typ, has_prefix reserved_prefix typ)))"

section \<open>The four reports\<close>

definition valid_child :: "agent_ref option \<Rightarrow> bool" where
  "valid_child r = (case r of None \<Rightarrow> True
     | Some x \<Rightarrow> ref_name x \<noteq> [] \<and> ref_id x \<noteq> [] \<and> ref_scope x \<noteq> [])"

definition valid_progress :: "progress_msg \<Rightarrow> bool" where
  "valid_progress m \<longleftrightarrow> pm_type m = task_progress_type \<and> task_id_valid (pm_task m) \<and> 0 \<le> pm_turns m \<and> 0 \<le> pm_elapsed m"

definition valid_accepted :: "accepted_msg \<Rightarrow> bool" where
  "valid_accepted m \<longleftrightarrow> am_type m = task_accepted_type \<and> task_id_valid (am_task m) \<and> valid_child (am_child m)"

definition valid_result :: "result_msg \<Rightarrow> bool" where
  "valid_result m \<longleftrightarrow> xm_type m = task_result_type \<and> task_id_valid (xm_task m) \<and>
     (xm_status m = ''succeeded'' \<or> xm_status m = ''failed'') \<and> trim_space (xm_summary m) \<noteq> [] \<and>
     xm_observations m \<noteq> None \<and> xm_actions m \<noteq> None \<and> xm_evidence m \<noteq> None \<and>
     \<not> (xm_status m = ''succeeded'' \<and> xm_error m \<noteq> []) \<and>
     \<not> (xm_status m = ''failed'' \<and> trim_space (xm_error m) = [])"

definition valid_failed :: "failed_msg \<Rightarrow> bool" where
  "valid_failed m \<longleftrightarrow> fm_type m = task_failed_type \<and> task_id_valid (fm_task m) \<and> trim_space (fm_error m) \<noteq> []"

definition checked :: "('m \<Rightarrow> bool) \<Rightarrow> 'm option \<Rightarrow> 'm option" where
  "checked ok m = (case m of None \<Rightarrow> None | Some x \<Rightarrow> if ok x then Some x else None)"

definition decode_task_report :: "string \<Rightarrow> string \<Rightarrow> (string \<times> progress_msg) option" where
  "decode_task_report typ body =
     (if typ = task_progress_type then
        map_option (\<lambda>m. (pm_task m, m))
          (checked valid_progress (decode_task_json (dec_struct True progress_fields) zero_progress body))
      else if typ = task_accepted_type then
        map_option (\<lambda>m. (am_task m, zero_progress))
          (checked valid_accepted (decode_task_json (dec_struct True (accepted_fields True)) zero_accepted body))
      else if typ = task_result_type then
        map_option (\<lambda>m. (xm_task m, zero_progress))
          (checked valid_result (decode_task_json (dec_struct True result_fields) zero_result body))
      else if typ = task_failed_type then
        map_option (\<lambda>m. (fm_task m, zero_progress))
          (checked valid_failed (decode_task_json (dec_struct True failed_fields) zero_failed body))
      else None)"

section \<open>Acting on a report\<close>

definition task_state_of :: "string \<Rightarrow> string option" where
  "task_state_of typ =
     (if typ = task_accepted_type then Some ''accepted''
      else if typ = task_result_type then Some ''done''
      else if typ = task_failed_type then Some ''failed'' else None)"

definition fail :: "err \<Rightarrow> response" where
  "fail e = error_response (err_text e)"

definition actor_of :: "request \<Rightarrow> agent_ref \<Rightarrow> eyes_actor" where
  "actor_of q me = \<lparr>ea_scope = q_scope q, ea_session = q_session q, ea_origin = q_origin q, ea_ref = me, ea_system = False\<rparr>"

definition sample_of :: "progress_msg \<Rightarrow> eyes_progress" where
  "sample_of m = zero_eyes_progress\<lparr>ep_turns := pm_turns m, ep_tool := pm_tool m\<rparr>"

definition addressed_to_requester :: "request \<Rightarrow> eyes_row \<Rightarrow> bool" where
  "addressed_to_requester q t \<longleftrightarrow> op_of (q_op q) = OpSendWorkspace \<and>
     (case q_target q of None \<Rightarrow> False
      | Some r \<Rightarrow> ref_scope r = et_req_scope t \<and> ref_id r = et_req_agent t)"

definition apply_report :: "string \<Rightarrow> string \<Rightarrow> progress_msg \<Rightarrow> request \<Rightarrow> agent_ref \<Rightarrow> time \<Rightarrow> store \<Rightarrow> store \<times> response" where
  "apply_report typ task sample q me now s =
     (case (case task_state_of typ of
          Some to \<Rightarrow> bind_sum (transition_eyes_task task (actor_of q me) to (q_body q) now s) (\<lambda>(s', _, _). Inr s')
        | None \<Rightarrow> bind_sum (record_eyes_progress task (actor_of q me) (sample_of sample) now s) (\<lambda>(s', _, _). Inr s')) of
        Inl e \<Rightarrow> (s, error_response (relay_error e))
      | Inr s' \<Rightarrow> (s', ok_response\<lparr>rs_task := task\<rparr>))"

definition task_report :: "request \<Rightarrow> agent_ref \<Rightarrow> time \<Rightarrow> store \<Rightarrow> (store \<times> response) option" where
  "task_report q me now s =
     (if op_of (q_op q) \<notin> set send_ops then None
      else (let (typ, reserved) = task_message_type (q_body q) in
        if \<not> reserved then None
        else case decode_task_report typ (q_body q) of
          None \<Rightarrow> Some (s, fail ErrReservedTask)
        | Some (task, sample) \<Rightarrow>
            Some (if task_state_of typ = None \<and> typ \<noteq> task_progress_type then (s, fail ErrReservedTask)
              else case eyes_task task s of
                Inl e \<Rightarrow> (s, error_response (relay_error e))
              | Inr t \<Rightarrow>
                  if \<not> addressed_to_requester q t then (s, fail ErrReservedTask)
                  else apply_report typ task sample q me now s)))"

end
