(* ===== verification/Daemon.thy ===== *)
theory Daemon
  imports Report
begin

text \<open>
  The daemon's request path, \<open>daemon.go\<close> and the handlers of \<open>eyes.go\<close>: one frame in, one
  response out. \<open>dispatch\<close> is the code's function, cut where it branches: the relay-row guard, the
  child a request is retargeted to, the actor it speaks as, the heartbeat, the lifecycle reports,
  and one handler per op. Random ids and secrets are arguments.
\<close>

section \<open>Who is asking\<close>

definition from_ops :: "op list" where
  "from_ops = [OpSend, OpBroadcast, OpRead, OpPeek, OpClaim, OpRelease, OpHistory, OpSendWorkspace,
     OpRequestEyes, OpCancelEyes]"

definition relay_row_caller :: "request \<Rightarrow> store \<Rightarrow> bool" where
  "relay_row_caller q s \<longleftrightarrow> q_session q \<noteq> [] \<and> q_origin q \<noteq> relay_origin \<and>
     (case identity_of (q_scope q) (q_session q) s of Inl e \<Rightarrow> False | Inr i \<Rightarrow> id_origin i = relay_origin)"

definition child_ops :: "op list" where
  "child_ops = [OpRegister, OpEvent, OpDeregister, OpIdle, OpBroadcast]"

text \<open>The request, the child's session and the name to introduce it by, or the answer.\<close>

definition retarget :: "time \<Rightarrow> request \<Rightarrow> store \<Rightarrow> store \<times> (response + request \<times> string \<times> string)" where
  "retarget now q s =
     (let op = op_of (q_op q) in
      if q_agent q = [] \<or> op \<notin> set child_ops then (s, Inr (q, [], []))
      else (let child = child_session (q_session q) (q_agent q) in
        if op = OpDeregister then (s, Inr (q, child, []))
        else case register_child quiet quiet (q_scope q) (q_session q) (q_agent q) (q_agent_type q) now s of
          (s', Inl e) \<Rightarrow> (s', Inl (fail e))
        | (s', Inr (name, created)) \<Rightarrow>
            if op = OpRegister then (s', Inl (ok_response\<lparr>rs_name := name\<rparr>))
            else (s', Inr (if op = OpBroadcast then q\<lparr>q_from := name\<rparr> else q, child, if created then name else []))))"

definition bind_actor :: "request \<Rightarrow> store \<Rightarrow> err + request \<times> agent_ref \<times> bool" where
  "bind_actor q s =
     (if op_of (q_op q) \<notin> set from_ops then Inr (q, empty_ref, False)
      else bind_sum (resolve_actor (q_scope q) (q_session q) (q_from q) s) (\<lambda>i.
        if id_origin i = relay_origin \<and> q_origin q \<noteq> relay_origin then Inl ErrRelayAuth
        else Inr (q\<lparr>q_from := id_name i\<rparr>, \<lparr>ref_name = id_name i, ref_id = id_id i, ref_scope = q_scope q\<rparr>,
          q_origin q = relay_origin \<and> id_origin i = relay_origin \<and> id_kind i = kind_launcher)))"

definition heartbeat :: "time \<Rightarrow> request \<Rightarrow> store \<Rightarrow> store" where
  "heartbeat now q s =
     (if q_session q = [] \<or> op_of (q_op q) \<in> {OpRegister, OpDeregister, OpIdle, OpEvent, OpWhoami} then s
      else touch (q_scope q) (q_session q) now s)"

section \<open>What a broker is still owed\<close>

definition owed_mail :: "string \<Rightarrow> bool \<Rightarrow> store \<Rightarrow> message list" where
  "owed_mail sess broker s = (if broker then pending_launches sess s @ pending_cancels sess s else [])"

definition with_pending :: "request \<Rightarrow> bool \<Rightarrow> response \<Rightarrow> store \<Rightarrow> response" where
  "with_pending q broker resp s =
     (let owed = owed_mail (q_session q) broker s in
      if owed = [] then resp
      else if op_of (q_op q) = OpRead then resp\<lparr>rs_messages := owed @ rs_messages resp\<rparr>
      else resp\<lparr>rs_peek_froms := fold add_new (map msg_from owed) (rs_peek_froms resp),
             rs_peek_ids := map msg_id owed @ rs_peek_ids resp,
             rs_unread := length (map msg_id owed @ rs_peek_ids resp)\<rparr>)"

section \<open>Handlers\<close>

text \<open>The two shapes most handlers share: an operation that fails without effect, and a reader.\<close>

definition run_op :: "store \<Rightarrow> err + store \<Rightarrow> store \<times> response" where
  "run_op s r = (case r of Inl e \<Rightarrow> (s, fail e) | Inr s' \<Rightarrow> (s', ok_response))"

definition on_register :: "time \<Rightarrow> request \<Rightarrow> store \<Rightarrow> store \<times> response" where
  "on_register now q s =
     (case (if q_no_hook q then register_if_no_live_hook (q_scope q) (q_session q) (q_source q) now s
            else register quiet (q_scope q) (q_session q) (q_source q) now s) of
        (s', Inl e) \<Rightarrow> (s', fail e)
      | (s', Inr name) \<Rightarrow> (s', ok_response\<lparr>rs_name := name\<rparr>))"

definition on_whoami :: "request \<Rightarrow> store \<Rightarrow> response" where
  "on_whoami q s = (case identity_of (q_scope q) (q_session q) s of
     Inl e \<Rightarrow> fail e
   | Inr i \<Rightarrow> ok_response\<lparr>rs_name := id_name i, rs_agent := id_id i, rs_source := id_source i, rs_parent := id_parent i\<rparr>)"

definition acting_session :: "request \<Rightarrow> string \<Rightarrow> string" where
  "acting_session q child = (if child \<noteq> [] then child else q_session q)"

definition on_idle :: "time \<Rightarrow> request \<Rightarrow> string \<Rightarrow> store \<Rightarrow> store \<times> response" where
  "on_idle now q child s =
     (let sess = acting_session q child; s1 = set_status (q_scope q) sess Idle now s in
      if q_source q = ''presence'' then (s1, ok_response)
      else (let (s2, lines) = pending_notices (q_scope q) sess now s1 in (s2, ok_response\<lparr>rs_notices := lines\<rparr>)))"

definition on_event :: "time \<Rightarrow> request \<Rightarrow> string \<Rightarrow> string \<Rightarrow> store \<Rightarrow> store \<times> response" where
  "on_event now q child name s =
     (case record_event (q_scope q) (acting_session q child) q now s of
        (s', Inl e) \<Rightarrow> (s', fail e)
      | (s', Inr lines) \<Rightarrow> (s', ok_response\<lparr>rs_name := name, rs_notices := lines\<rparr>))"

definition on_read :: "time \<Rightarrow> request \<Rightarrow> bool \<Rightarrow> store \<Rightarrow> store \<times> response" where
  "on_read now q broker s =
     (case read_inbox broker (q_scope q) (q_from q) now s of
        Inl e \<Rightarrow> (s, fail e)
      | Inr (s', ms) \<Rightarrow> (s', with_pending q broker (ok_response\<lparr>rs_messages := ms\<rparr>) s'))"

definition on_peek :: "request \<Rightarrow> bool \<Rightarrow> store \<Rightarrow> response" where
  "on_peek q broker s =
     (case peek_inbox broker (q_scope q) (q_from q) (q_after q) s of
        Inl e \<Rightarrow> fail e
      | Inr p \<Rightarrow> with_pending q broker (ok_response\<lparr>rs_unread := pk_unread p, rs_high := pk_high p,
            rs_peek_ids := pk_ids p, rs_peek_froms := pk_froms p\<rparr>) s)"

definition on_claim :: "time \<Rightarrow> request \<Rightarrow> store \<Rightarrow> store \<times> response" where
  "on_claim now q s =
     (case claim quiet (\<lambda>_. now) (q_scope q) (q_from q) (q_path q) (q_note q) s of
        (s', Inl e) \<Rightarrow> (s', fail e)
      | (s', Inr r) \<Rightarrow> (s', if cr_stolen r
          then ok_response\<lparr>rs_notices := [''takeover: previous holder '' @ cr_prev r @ '' was gone'']\<rparr> else ok_response))"

definition on_release :: "time \<Rightarrow> request \<Rightarrow> store \<Rightarrow> store \<times> response" where
  "on_release now q s =
     (case release id (q_scope q) (q_from q) (q_path q) now s of
        (s', Inl e) \<Rightarrow> (s', fail e) | (s', Inr _) \<Rightarrow> (s', ok_response))"

definition eyes_owner :: "request \<Rightarrow> agent_ref \<Rightarrow> store \<Rightarrow> err + string" where
  "eyes_owner q me s = (if ref_id me \<noteq> [] then Inr (ref_id me)
     else bind_sum (resolve_actor (q_scope q) (q_session q) (q_from q) s) (\<lambda>i. Inr (id_id i)))"

definition on_list_tasks :: "time \<Rightarrow> request \<Rightarrow> agent_ref \<Rightarrow> store \<Rightarrow> response" where
  "on_list_tasks now q me s =
     (case (if q_mine q then eyes_owner q me s else Inr []) of
        Inl e \<Rightarrow> fail e
      | Inr owner \<Rightarrow> ok_response\<lparr>rs_tasks := map task_info (list_eyes_tasks
            \<lparr>ef_scope = q_scope q, ef_owner = owner, ef_limit = q_limit q\<rparr> now s)\<rparr>)"

definition workspace_delivery :: "request \<Rightarrow> agent_ref \<Rightarrow> delivery" where
  "workspace_delivery q me =
     \<lparr>dv_from_scope = q_scope q, dv_from_name = ref_name me, dv_from = no_sender,
      dv_to_scope = (case q_target q of None \<Rightarrow> [] | Some t \<Rightarrow> ref_scope t),
      dv_to_name = (case q_target q of None \<Rightarrow> [] | Some t \<Rightarrow> if ref_id t \<noteq> [] then ref_id t else ref_name t),
      dv_body = q_body q, dv_reply = Some me, dv_task = []\<rparr>"

definition on_request_eyes :: "string \<Rightarrow> time \<Rightarrow> request \<Rightarrow> agent_ref \<Rightarrow> store \<Rightarrow> store \<times> response" where
  "on_request_eyes suffix now q me s =
     (case assign_eyes_task \<lparr>rq_requester = me, rq_runtime = q_runtime q, rq_brief = q_brief q,
          rq_deadline = q_deadline q\<rparr> suffix now s of
        Inl e \<Rightarrow> (s, fail e)
      | Inr (s', t, l) \<Rightarrow> (s', ok_response\<lparr>rs_task := et_task t, rs_launcher := Some l\<rparr>))"

definition on_cancel_eyes :: "time \<Rightarrow> request \<Rightarrow> agent_ref \<Rightarrow> store \<Rightarrow> store \<times> response" where
  "on_cancel_eyes now q me s =
     (case cancel_eyes_task (q_task q) (actor_of q me) now s of
        Inl e \<Rightarrow> (s, fail e) | Inr (s', t) \<Rightarrow> (s', ok_response\<lparr>rs_task := et_task t\<rparr>))"

definition serve :: "string \<Rightarrow> time \<Rightarrow> request \<Rightarrow> agent_ref \<Rightarrow> bool \<Rightarrow> string \<Rightarrow> string \<Rightarrow> store \<Rightarrow> store \<times> response" where
  "serve suffix now q me broker child name s =
     (case op_of (q_op q) of
        OpRegister \<Rightarrow> on_register now q s
      | OpWhoami \<Rightarrow> (s, on_whoami q s)
      | OpDeregister \<Rightarrow> (set_status (q_scope q) (acting_session q child) Gone now s, ok_response)
      | OpIdle \<Rightarrow> on_idle now q child s
      | OpEvent \<Rightarrow> on_event now q child name s
      | OpAgents \<Rightarrow> (s, ok_response\<lparr>rs_agents := live_board (q_scope q) now s\<rparr>)
      | OpBoard \<Rightarrow> (s, ok_response\<lparr>rs_agents := board (q_scope q) (q_gone q) now s\<rparr>)
      | OpSend \<Rightarrow> run_op s (send (q_scope q) (q_from q) (q_to q) (q_body q) now s)
      | OpRead \<Rightarrow> on_read now q broker s
      | OpPeek \<Rightarrow> (s, on_peek q broker s)
      | OpBroadcast \<Rightarrow> run_op s (broadcast (q_scope q) (q_from q) (q_body q) now s)
      | OpClaim \<Rightarrow> on_claim now q s
      | OpRelease \<Rightarrow> on_release now q s
      | OpClaims \<Rightarrow> (s, ok_response\<lparr>rs_claims := list_claims (q_scope q) s\<rparr>)
      | OpHistory \<Rightarrow> (s, case message_history (q_scope q) (q_from q) (q_peer q) (q_limit q) s of
            Inl e \<Rightarrow> fail e | Inr hs \<Rightarrow> ok_response\<lparr>rs_history := hs\<rparr>)
      | OpListWorkspaces \<Rightarrow> (s, ok_response\<lparr>rs_workspaces := list_workspaces now s\<rparr>)
      | OpListEyes \<Rightarrow> (s, ok_response\<lparr>rs_agents := list_eyes now s\<rparr>)
      | OpListEyesTasks \<Rightarrow> (s, on_list_tasks now q me s)
      | OpSendWorkspace \<Rightarrow> run_op s (send_to_scope (workspace_delivery q me) now s)
      | OpRequestEyes \<Rightarrow> on_request_eyes suffix now q me s
      | OpCancelEyes \<Rightarrow> on_cancel_eyes now q me s
      | OpUnknown w \<Rightarrow> (s, fail (ErrText (''unknown op '' @ w))))"

section \<open>Dispatch\<close>

definition dispatch :: "string \<Rightarrow> time \<Rightarrow> request \<Rightarrow> store \<Rightarrow> store \<times> response" where
  "dispatch suffix now q s =
     (if relay_row_caller q s then (s, fail ErrRelayAuth)
      else case retarget now q s of
        (s1, Inl resp) \<Rightarrow> (s1, resp)
      | (s1, Inr (q1, child, name)) \<Rightarrow>
          (case bind_actor q1 s1 of
             Inl e \<Rightarrow> (s1, fail e)
           | Inr (q2, me, broker) \<Rightarrow>
               (let s2 = heartbeat now q2 s1 in
                case task_report q2 me now s2 of
                  Some answer \<Rightarrow> answer
                | None \<Rightarrow> serve suffix now q2 me broker child name s2)))"

section \<open>Frames in and out\<close>

definition frame_limit :: nat where "frame_limit = 1048576"

text \<open>What \<open>ReadBytes\<close> returns of the bytes a client sent: up to the newline, the limit or the end.\<close>

definition newline :: char where "newline = chr 10"

definition read_frame :: "string \<Rightarrow> string" where
  "read_frame bytes = (let l = take frame_limit bytes; w = takeWhile (\<lambda>c. c \<noteq> newline) l in
     if w = l then l else w @ [newline])"

definition outbound :: "gate option \<Rightarrow> response \<Rightarrow> response" where
  "outbound og r = (if og \<noteq> None \<and> rs_error r \<noteq> [] then r\<lparr>rs_error := relay_error_text (rs_error r)\<rparr> else r)"

text \<open>\<open>why\<close> is the decoder's own text for a frame that is not a request.\<close>

definition answer :: "gate option \<Rightarrow> string \<Rightarrow> string \<Rightarrow> string \<Rightarrow> time \<Rightarrow> string \<Rightarrow> store \<Rightarrow> store \<times> response" where
  "answer og fresh suffix why now line s =
     (case decode_request line of
        None \<Rightarrow> (s, error_response (''bad request: '' @ why))
      | Some q0 \<Rightarrow>
          (let claimed = q_kind q0; q = q0\<lparr>q_origin := [], q_kind := []\<rparr> in
           case check og fresh now q claimed s of
             (s1, Answer r) \<Rightarrow> (s1, r)
           | (s1, Pass q1) \<Rightarrow> (let (s2, r) = dispatch suffix now q1 s1 in (s2, outbound og r))))"

definition handle :: "gate option \<Rightarrow> string \<Rightarrow> string \<Rightarrow> string \<Rightarrow> time \<Rightarrow> string \<Rightarrow> store \<Rightarrow> store \<times> string" where
  "handle og fresh suffix why now bytes s =
     (let line = read_frame bytes in
      if line = [] then (s, [])
      else (let (s', r) = answer og fresh suffix why now line s in
        (s', json_print (response_json r) @ [newline])))"

end
