(* ===== verification/DaemonRows.thy ===== *)
theory DaemonRows
  imports Daemon
begin

text \<open>
  What one operation of the daemon may do to the agent rows and to the eyes ledger, as a relation
  between the store before and after: the schema holds, the rows outside a set of keys are as they
  were, and no row becomes a relay row that was not one. Every operation the dispatcher calls is
  shown to stay inside it, so that the dispatcher's own laws are a composition.
\<close>

section \<open>The rows that came in over the relay\<close>

definition relay_ids :: "store \<Rightarrow> (string \<times> string) set" where
  "relay_ids s = agent_key ` {r \<in> set (agents s). ar_origin r = relay_origin}"

lemma relay_ids_iff:
  "(sc, sess) \<in> relay_ids s \<longleftrightarrow> (\<exists>r \<in> set (agents s). ar_scope r = sc \<and> ar_session r = sess \<and> ar_origin r = relay_origin)"
  by (auto simp: relay_ids_def agent_key_def image_iff)

lemma relay_single_ids:
  assumes "schema_ok s"
  shows "relay_single s \<longleftrightarrow> (\<forall>a b sess. (a, sess) \<in> relay_ids s \<and> (b, sess) \<in> relay_ids s \<longrightarrow> a = b)"
proof -
  have "r = q" if "r \<in> set (agents s)" "q \<in> set (agents s)" "ar_scope r = ar_scope q" "ar_session r = ar_session q" for r q
    using assms that by (auto simp: schema_ok_def agent_key_def dest: unique_keyD)
  then have same: "r = q" if "(ar_scope r, ar_session r) = (ar_scope q, ar_session q)" "r \<in> set (agents s)" "q \<in> set (agents s)"
    for r q using that by blast
  show ?thesis
  proof
    assume single: "relay_single s"
    show "\<forall>a b sess. (a, sess) \<in> relay_ids s \<and> (b, sess) \<in> relay_ids s \<longrightarrow> a = b"
      using single by (auto simp: relay_single_def relay_ids_iff)
  next
    assume ids: "\<forall>a b sess. (a, sess) \<in> relay_ids s \<and> (b, sess) \<in> relay_ids s \<longrightarrow> a = b"
    have "r = q" if "r \<in> set (agents s)" "q \<in> set (agents s)" "ar_origin r = relay_origin" "ar_origin q = relay_origin"
      "ar_session r = ar_session q" for r q
    proof (rule same)
      have "(ar_scope r, ar_session r) \<in> relay_ids s" "(ar_scope q, ar_session r) \<in> relay_ids s"
        unfolding relay_ids_iff using that by auto
      then show "(ar_scope r, ar_session r) = (ar_scope q, ar_session q)" using ids that(5) by blast
    qed (use that in auto)
    then show "relay_single s" by (auto simp: relay_single_def)
  qed
qed

definition outside :: "(string \<times> string) set \<Rightarrow> store \<Rightarrow> agent_row list" where
  "outside K s = filter (\<lambda>r. agent_key r \<notin> K) (agents s)"

lemma outside_mono: "outside K s' = outside K s \<Longrightarrow> K \<subseteq> K' \<Longrightarrow> outside K' s' = outside K' s"
proof -
  assume "outside K s' = outside K s" and "K \<subseteq> K'"
  moreover have "outside K' t = filter (\<lambda>r. agent_key r \<notin> K') (outside K t)" if "K \<subseteq> K'" for t
    using that by (auto simp: outside_def intro!: filter_cong)
  ultimately show ?thesis by simp
qed

section \<open>Quiet operations\<close>

definition calm :: "(string \<times> string) set \<Rightarrow> store \<Rightarrow> store \<Rightarrow> bool" where
  "calm K s s' \<longleftrightarrow> schema_ok s' \<and> eyes_tasks s' = eyes_tasks s \<and> outside K s' = outside K s \<and> relay_ids s' \<subseteq> relay_ids s"


lemma calm_refl: "schema_ok s \<Longrightarrow> calm K s s"
  by (simp add: calm_def)

lemma calm_trans: "calm K s t \<Longrightarrow> calm K t u \<Longrightarrow> calm K s u"
  by (auto simp: calm_def)

lemma calm_schema: "calm K s s' \<Longrightarrow> schema_ok s'"
  by (simp add: calm_def)

lemma calm_frame: "schema_ok s' \<Longrightarrow> agents s' = agents s \<Longrightarrow> eyes_tasks s' = eyes_tasks s \<Longrightarrow> calm K s s'"
  by (simp add: calm_def outside_def relay_ids_def)

lemma calm_rewrite:
  assumes "schema_ok s" and "\<And>r. p r \<Longrightarrow> agent_key r \<in> K"
    and "\<And>r. agent_key (f r) = agent_key r" and "\<And>r. ar_name (f r) = ar_name r" and "\<And>r. ar_origin (f r) = ar_origin r"
  shows "calm K s (agents_update (update_where p f) s)"
proof -
  have "filter (\<lambda>r. agent_key r \<notin> K) (update_where p f rs) = filter (\<lambda>r. agent_key r \<notin> K) rs" for rs
    by (induction rs) (auto simp: assms)
  moreover have "relay_ids (agents_update (update_where p f) s) \<subseteq> relay_ids s"
    by (auto simp: relay_ids_def set_update_where assms)
  ultimately show ?thesis
    using schema_ok_agent_rewrite [OF assms(1,3,4)] by (simp add: calm_def outside_def)
qed

lemma calm_insert:
  assumes "schema_ok s" and "(sc, sess) \<in> K" and "insert_agent (new_agent sc sess nm at src parent) s = Some s'"
  shows "calm K s s'"
  using schema_ok_insert_agent [OF assms(1,3)] insert_agent_row(1) [OF assms(3)] assms
  by (auto simp: calm_def outside_def relay_ids_def agent_key_def new_agent_def relay_origin_def insert_agent_def
      split: if_splits)

lemma calm_refresh: "schema_ok s \<Longrightarrow> (sc, sess) \<in> K \<Longrightarrow> calm K s (refresh sc sess at s)"
  unfolding refresh_def by (rule calm_rewrite) (auto simp: at_session_def agent_key_def)

lemma calm_set_status: "schema_ok s \<Longrightarrow> (sc, sess) \<in> K \<Longrightarrow> calm K s (set_status sc sess st now s)"
  unfolding set_status_def by (rule calm_rewrite) (auto simp: at_session_def agent_key_def)

lemma calm_touch: "schema_ok s \<Longrightarrow> (sc, sess) \<in> K \<Longrightarrow> calm K s (touch sc sess now s)"
  unfolding touch_def by (rule calm_rewrite) (auto simp: at_session_def agent_key_def heard_from_def)

lemma calm_register:
  assumes "schema_ok s" and "(sc, sess) \<in> K" and "register quiet sc sess src now s = (s', res)"
  shows "calm K s s'"
proof (cases "row_at sc sess s")
  case (Some r)
  then show ?thesis using assms by (auto simp: register_quiet intro: calm_refresh)
next
  case none: None
  show ?thesis
  proof (cases "List.find (\<lambda>w. \<not> taken sc s w) (candidates (friendly_name sess))")
    case None
    then show ?thesis using none assms by (auto simp: register_quiet intro: calm_refl)
  next
    case (Some w)
    then have "\<not> taken sc s w" by (auto dest: find_SomeD)
    then have "insert_agent (new_agent sc sess w (unix now) src []) s = Some s'"
      using none Some assms(3) insert_free_agent [OF none] by (simp add: register_quiet)
    then show ?thesis by (rule calm_insert [OF assms(1,2)])
  qed
qed

lemma calm_child_loop:
  assumes "schema_ok s" and "(sc, child) \<in> K" and "child_loop quiet sc child parent pname typ at ns s = (s', res)"
  shows "calm K s s'"
  using assms(1,3)
proof (induction ns arbitrary: s)
  case (Cons n ns)
  let ?new = "new_agent sc child (pname @ ''/'' @ typ @ ''-'' @ dec_nat n) at ''hook-subagent'' parent"
  show ?case
  proof (cases "0 < name_count sc (pname @ ''/'' @ typ @ ''-'' @ dec_nat n) s")
    case True
    then show ?thesis using Cons by (simp add: Let_def)
  next
    case False
    then show ?thesis
      using Cons calm_insert [OF Cons.prems(1) assms(2)] calm_refl [OF Cons.prems(1)]
      by (auto simp: Let_def split: option.splits)
  qed
qed (auto intro: calm_refl)

lemma calm_register_child:
  assumes "schema_ok s" and "(sc, parent) \<in> K" and "(sc, child_session parent sub) \<in> K"
    and "register_child quiet quiet sc parent sub typ now s = (s', res)"
  shows "calm K s s'"
proof (cases "row_at sc (child_session parent sub) s")
  case (Some r)
  then show ?thesis using assms by (auto simp: register_child_def Let_def intro: calm_refresh)
next
  case None
  obtain s1 pres where reg: "register quiet sc parent ''hook'' now s = (s1, pres)" by fastforce
  note c = calm_register [OF assms(1,2) reg]
  show ?thesis
  proof (cases pres)
    case (Inl e)
    then show ?thesis using None reg assms(4) c by (simp add: register_child_def Let_def)
  next
    case (Inr pname)
    then have "child_loop quiet sc (child_session parent sub) parent pname
        (if to_lower typ = [] then ''sub'' else to_lower typ) (unix now) child_suffixes s1 = (s', res)"
      using None reg assms(4) by (simp add: register_child_def Let_def)
    then show ?thesis using calm_child_loop [OF calm_schema [OF c] assms(3)] c by (blast intro: calm_trans)
  qed
qed

section \<open>Mail, claims and events\<close>

lemma calm_send: "schema_ok s \<Longrightarrow> send_to_scope d now s = Inr s' \<Longrightarrow> calm K s s'"
  using send_frame by (blast intro: calm_frame schema_ok_send)

lemma calm_read:
  assumes "schema_ok s" and "read_inbox broker sc w now s = Inr (s', ms)"
  shows "calm K s s'"
proof -
  obtain aid where "s' = mark_all_read aid (unix now) (unread_ids sc aid s) s"
    using assms(2) by (rule read_inbox_Inr)
  then show ?thesis using assms(1) by (auto intro!: calm_frame schema_ok_marks)
qed

lemma calm_notices: "schema_ok s \<Longrightarrow> notices_for sc aid ws now s = (s', lines) \<Longrightarrow> calm K s s'"
  using notices_mail(1) [of sc aid ws now s s' lines] by (auto intro!: calm_frame schema_ok_marks)

lemma calm_pending:
  "schema_ok s \<Longrightarrow> pending_notices sc sess now s = (s', lines) \<Longrightarrow> calm K s s'"
  unfolding pending_notices_def by (rule calm_notices)

lemma calm_claim:
  assumes "schema_ok s" and "claim quiet clk sc w path note s = (s', res)"
  shows "calm K s s'"
proof -
  have loop: "calm K s t" if "claim_loop quiet clk sc aid p note claim_attempts s = (t, r)" for aid p t r
  proof -
    have fresh: "schema_ok (s\<lparr>claims := claims s @ [c]\<rparr>)" if "claim_at sc p s = None" "claim_key c = (sc, p)" for c
      using assms(1) that by (auto simp: schema_ok_def claim_at_None)
    have keep: "calm K s (rewrite_claims q f s)" if "\<And>c. claim_key (f c) = claim_key c" for q f
      using schema_ok_rewrite_claims [OF assms(1) that] by (auto intro: calm_frame simp: rewrite_claims_def)
    show ?thesis
      using that assms(1) unfolding claim_attempts_def claim_loop_cons Let_def
      by (auto split: option.splits if_splits prod.splits intro!: keep calm_frame fresh calm_refl simp: claim_key_def)
  qed
  then show ?thesis
    using assms by (auto simp: claim_def Let_def intro: calm_refl split: if_splits sum.splits)
qed

lemma calm_release:
  assumes "schema_ok s" and "release id sc w path now s = (s', res)"
  shows "calm K s s'"
proof -
  have "calm K s (claims_update (delete_where q) s)" for q
    using schema_ok_claims [OF assms(1) unique_key_delete] assms(1)
    by (auto intro!: calm_frame simp: schema_ok_def)
  then show ?thesis
    using assms by (auto simp: release_def Let_def intro: calm_refl split: sum.splits option.splits if_splits)
qed

lemma fold_touch_eyes: "eyes_tasks (fold (touch_file sc aid at) ps s) = eyes_tasks s"
  by (induction ps arbitrary: s) (simp_all add: touch_file_def Let_def)

lemma insert_tasks_frame:
  "schema_ok s \<Longrightarrow> insert_tasks sc aid at evs s = (s', res) \<Longrightarrow>
    schema_ok s' \<and> agents s' = agents s \<and> eyes_tasks s' = eyes_tasks s"
proof (induction evs arbitrary: s)
  case (Cons ev evs)
  show ?case
  proof (cases "insert_row task_key (task_of sc aid at (te_key ev) ev) (task_rows s)")
    case (Some rs)
    then have "schema_ok (s\<lparr>task_rows := rs\<rparr>)"
      using Cons.prems(1) by (simp add: schema_ok_def insert_row_Some)
    then show ?thesis using Cons Some by fastforce
  qed (use Cons in simp)
qed simp

lemma calm_record_event:
  assumes "schema_ok s" and "(sc, sess) \<in> K" and "record_event sc sess q now s = (s', res)"
  shows "calm K s s'"
proof -
  obtain s1 r where reg: "register quiet sc sess ''event'' now s = (s1, r)" by fastforce
  note c1 = calm_register [OF assms(1,2) reg]
  show ?thesis
  proof (cases r)
    case (Inl e)
    then show ?thesis using assms(3) reg c1 by (simp add: record_event_def)
  next
    case (Inr name)
    let ?aid = "agent_id sess" and ?at = "unix now"
    let ?s2 = "fold (touch_file sc ?aid ?at) (items (q_writes q)) (log_event sc ?aid q ?at s1)"
    have "schema_ok (log_event sc ?aid q ?at s1)"
      using calm_schema [OF c1] by (simp add: log_event_def schema_ok_def)
    then have c2: "calm K s1 ?s2"
      using fold_touch(1,2)
      by (intro calm_frame) (simp_all add: fold_touch_eyes log_event_def)
    obtain s3 e where rep: "(if q_replace q then replace_tasks sc ?aid ?at (items (q_tasks q)) ?s2 else (?s2, None)) = (s3, e)"
      by fastforce
    have "schema_ok (task_rows_update (delete_where (own_tasks sc ?aid)) ?s2)"
      using calm_schema [OF c2] by (simp add: schema_ok_def unique_key_delete)
    then have "schema_ok s3 \<and> agents s3 = agents ?s2 \<and> eyes_tasks s3 = eyes_tasks ?s2"
      using rep calm_schema [OF c2] insert_tasks_frame by (fastforce simp: replace_tasks_def split: if_splits)
    then have c3: "calm K ?s2 s3" by (intro calm_frame) simp_all
    show ?thesis
    proof (cases e)
      case (Some x)
      then show ?thesis
        using assms(3) reg Inr rep c1 c2 c3 by (auto simp: record_event_def Let_def intro: calm_trans)
    next
      case None
      let ?s4 = "case q_task_ev q of None \<Rightarrow> s3 | Some ev \<Rightarrow> apply_task_event sc ?aid ?at ev s3"
      have "eyes_tasks (apply_task_event sc ?aid ?at ev t) = eyes_tasks t" for ev t
        by (simp add: apply_task_event_def Let_def)
      then have c4: "calm K s3 ?s4"
        using task_event_others [of sc ?aid ?at _ s3] calm_schema [OF c3]
        by (intro calm_frame) (auto simp: same_but_tasks_def split: option.splits)
      have "s' = ?s4 \<or> (\<exists>lines. notices_for sc ?aid (items (q_writes q)) now ?s4 = (s', lines))"
        using assms(3) reg Inr rep None by (auto simp: record_event_def Let_def split: if_splits prod.splits)
      then have "calm K ?s4 s'"
        using calm_notices [OF calm_schema [OF c4]] calm_refl [OF calm_schema [OF c4]] by blast
      then show ?thesis using c1 c2 c3 c4 calm_trans by blast
    qed
  qed
qed

end
