(* ===== verification/DaemonLaws.thy ===== *)
theory DaemonLaws
  imports DaemonRows
begin

text \<open>
  The laws of the daemon as a whole: the invariant every run of frames, sweeps and housekeeping
  keeps, whose rows one request may change, what the relay gate lets through and what may leave
  over it.
\<close>

section \<open>The invariant\<close>

text \<open>
  The declared keys; one relay row to a session, and never the empty session; one task to a broker.
\<close>

definition daemon_ok :: "store \<Rightarrow> bool" where
  "daemon_ok s \<longleftrightarrow> schema_ok s \<and> relay_single s \<and> (\<forall>k \<in> relay_ids s. snd k \<noteq> []) \<and> (\<forall>k. broker_load s k \<le> 1)"

lemma daemon_ok_empty: "daemon_ok empty_store"
  unfolding daemon_ok_def
  by (intro conjI schema_ok_empty) (simp_all add: relay_single_def relay_ids_def broker_load_def empty_store_def)

lemma daemon_ok_schema: "daemon_ok s \<Longrightarrow> schema_ok s"
  by (simp add: daemon_ok_def)

lemma daemon_ok_fewer:
  assumes "daemon_ok s" and "schema_ok s'" and "relay_ids s' \<subseteq> relay_ids s" and "\<And>k. broker_load s' k \<le> 1"
  shows "daemon_ok s'"
proof -
  have "\<forall>a b sess. (a, sess) \<in> relay_ids s' \<and> (b, sess) \<in> relay_ids s' \<longrightarrow> a = b"
    using assms(1,3) relay_single_ids [OF daemon_ok_schema [OF assms(1)]] unfolding daemon_ok_def by blast
  then have "relay_single s'" using relay_single_ids [OF assms(2)] by simp
  then show ?thesis using assms by (auto simp: daemon_ok_def)
qed

lemma daemon_ok_calm: "daemon_ok s \<Longrightarrow> calm K s s' \<Longrightarrow> daemon_ok s'"
  by (rule daemon_ok_fewer) (auto simp: calm_def daemon_ok_def broker_load_def)

text \<open>One session joins, or is there already under the same workspace.\<close>

lemma daemon_ok_join:
  assumes "daemon_ok s" and "schema_ok s'" and "relay_ids s' \<subseteq> insert (sc, sess) (relay_ids s)"
    and "eyes_tasks s' = eyes_tasks s" and "sess \<noteq> []" and "\<And>sc'. (sc', sess) \<in> relay_ids s \<Longrightarrow> sc' = sc"
  shows "daemon_ok s'"
proof -
  have "\<forall>a b w. (a, w) \<in> relay_ids s' \<and> (b, w) \<in> relay_ids s' \<longrightarrow> a = b"
    using assms(1,3,6) relay_single_ids [OF daemon_ok_schema [OF assms(1)]] unfolding daemon_ok_def by blast
  then have "relay_single s'" using relay_single_ids [OF assms(2)] by simp
  then show ?thesis using assms by (auto simp: daemon_ok_def broker_load_def)
qed

section \<open>Turns of the eyes ledger\<close>

definition turn :: "(string \<times> string) set \<Rightarrow> store \<Rightarrow> store \<Rightarrow> bool" where
  "turn K s s' \<longleftrightarrow> (\<exists>e. eyes_step s e s') \<and> outside K s' = outside K s \<and> relay_ids s' \<subseteq> relay_ids s"

lemma daemon_ok_turn: "daemon_ok s \<Longrightarrow> turn K s s' \<Longrightarrow> daemon_ok s'"
proof (rule daemon_ok_fewer)
  assume ok: "daemon_ok s" and t: "turn K s s'"
  then obtain e where e: "eyes_step s e s'" by (auto simp: turn_def)
  show "schema_ok s'" using broker_ledger.keep_ok [OF e] ok by (simp add: daemon_ok_def)
  show "relay_ids s' \<subseteq> relay_ids s" using t by (simp add: turn_def)
  show "broker_load s' k \<le> 1" for k
    using broker_ledger.take_or_leave [OF e, of k] ok by (auto simp: daemon_ok_def dest: spec [of _ k])
qed

lemma turn_frame: "eyes_step s e s' \<Longrightarrow> agents s' = agents s \<Longrightarrow> turn K s s'"
  by (auto simp: turn_def outside_def relay_ids_def)

lemma turn_assign: "schema_ok s \<Longrightarrow> assign_eyes_task req suffix now s = Inr (s', t, ref) \<Longrightarrow> turn K s s'"
  using assign_rows by (blast intro: turn_frame assign_step)

lemma turn_move: "schema_ok s \<Longrightarrow> move_eyes_task task to a msg now s = Inr (s', t, moved) \<Longrightarrow> turn K s s'"
  using move_rows by (blast intro: turn_frame move_step)

text \<open>A sample is written by the broker that holds the task or by its child.\<close>

definition sample_keys :: "eyes_actor \<Rightarrow> store \<Rightarrow> (string \<times> string) set" where
  "sample_keys a s = (if ea_origin a = relay_origin
     then {(et_req_scope t, eyes_session (et_task t)) |t. t \<in> set (eyes_tasks s) \<and>
            (et_launcher t = ea_session a \<or> eyes_session (et_task t) = ea_session a \<and> et_req_scope t = ea_scope a)}
     else {})"

lemma turn_record:
  assumes "schema_ok s" and "record_eyes_progress task a p now s = Inr (s', next, due)"
    and "ea_system a = False" and "sample_keys a s \<subseteq> K"
  shows "turn K s s'"
proof -
  obtain t role d where t: "eyes_task task s = Inr t" and r: "eyes_role t a s = Some role"
    and rr: "role = RoleChild \<or> role = RoleLauncher"
    and d: "deliver_if d now (write_eyes_progress t next (unix now) s) = Inr s'"
    using assms(2) by (rule record_Inr)
  let ?k = "(et_req_scope t, eyes_session (et_task t))"
  have "?k \<in> sample_keys a s"
    using r rr assms(3) eyes_taskD [OF t] by (auto simp: eyes_role_def sample_keys_def split: if_splits)
  then have k: "?k \<in> K" using assms(4) by blast
  have "calm K s (agents_update (update_where (\<lambda>r. at_session (et_req_scope t) (eyes_session (et_task t)) r
      \<and> ar_status r \<noteq> Gone) (heard_from (unix now))) s)"
    using k by (intro calm_rewrite assms(1)) (auto simp: at_session_def agent_key_def heard_from_def)
  then have "outside K s' = outside K s \<and> relay_ids s' \<subseteq> relay_ids s"
    using deliver_if_frame(1) [OF d] by (simp add: calm_def outside_def relay_ids_def write_eyes_progress_def)
  then show ?thesis using sample_step [OF assms(2)] by (auto simp: turn_def)
qed

section \<open>The two registrations of the gate\<close>

lemma relay_register_scope:
  assumes "daemon_ok s" and "relay_verdict r (first_row_of (rr_session r) s) = None" and "(sc', rr_session r) \<in> relay_ids s"
  shows "sc' = rr_scope r"
proof -
  obtain x where x: "x \<in> set (agents s)" "ar_scope x = sc'" "ar_session x = rr_session r" "ar_origin x = relay_origin"
    using assms(3) by (auto simp: relay_ids_iff)
  then have "first_row_of (rr_session r) s = Some x"
    using relay_row_is_first [of s x] assms(1) by (simp add: daemon_ok_def)
  then show ?thesis using assms(2) x by (auto simp: relay_verdict_def split: if_splits)
qed

lemma relay_ids_rewrite:
  assumes "\<And>r. agent_key (f r) = agent_key r"
  shows "relay_ids (agents_update (update_where (at_session sc sess) f) s) \<subseteq> insert (sc, sess) (relay_ids s)"
proof -
  have "agent_key (if at_session sc sess x then f x else x) \<in> insert (sc, sess) (relay_ids s)"
    if "x \<in> set (agents s)" "ar_origin (if at_session sc sess x then f x else x) = relay_origin" for x
    using that assms [of x] by (auto simp: relay_ids_def at_session_def agent_key_def split: if_splits)
  moreover have "\<exists>x \<in> set (agents s). ar_origin (if at_session sc sess x then f x else x) = relay_origin \<and>
      k = agent_key (if at_session sc sess x then f x else x)"
    if "k \<in> relay_ids (agents_update (update_where (at_session sc sess) f) s)" for k
    using that unfolding relay_ids_def by (force simp: set_update_where)
  ultimately show ?thesis by (metis (no_types, lifting) subsetI)
qed

lemma daemon_ok_register_relay:
  assumes "daemon_ok s" and "rr_session r \<noteq> []" and "register_relay r now s = Inr (s', name)"
  shows "daemon_ok s'"
proof -
  obtain s1 source where v: "relay_verdict r (first_row_of (rr_session r) s) = None"
    and reg: "register quiet (rr_scope r) (rr_session r) source now s = (s1, Inr name)"
    and s': "s' = agents_update (update_where (at_session (rr_scope r) (rr_session r))
           (advertise r (kept_secret r (first_row_of (rr_session r) s)))) s1"
    using assms(3) by (rule register_relay_Inr)
  have c: "calm {(rr_scope r, rr_session r)} s s1"
    using calm_register [OF daemon_ok_schema [OF assms(1)] _ reg] by blast
  have ids: "relay_ids s' \<subseteq> insert (rr_scope r, rr_session r) (relay_ids s1)"
    unfolding s' by (rule relay_ids_rewrite) (simp add: advertise_def agent_key_def)
  show ?thesis
  proof (rule daemon_ok_join [OF daemon_ok_calm [OF assms(1) c] _ ids])
    show "schema_ok s'" unfolding s' by (rule schema_ok_advertise [OF calm_schema [OF c]])
    show "sc' = rr_scope r" if "(sc', rr_session r) \<in> relay_ids s1" for sc'
      using relay_register_scope [OF assms(1) v] c that by (auto simp: calm_def)
  qed (simp_all add: s' assms(2))
qed

lemma daemon_ok_reissue:
  assumes "daemon_ok s" and "reissue_eyes_child task launcher lsecret fresh now s = Inr (s', name, secret)"
  shows "daemon_ok s'"
proof -
  obtain t :: eyes_row and s1
    where only: "\<forall>r \<in> set (agents s). ar_session r = eyes_session task \<longrightarrow>
          ar_scope r = et_req_scope t \<and> ar_origin r = relay_origin \<and> ar_kind r = kind_eyes"
      and reg: "register quiet (et_req_scope t) (eyes_session task) ''relay'' now s = (s1, Inr name)"
      and s': "s' = agents_update (update_where (at_session (et_req_scope t) (eyes_session task))
        (\<lambda>r. r\<lparr>ar_kind := kind_eyes, ar_origin := relay_origin, ar_secret := sha256_hex fresh\<rparr>)) s1"
    using assms(2) by (rule reissue_Inr)
  have c: "calm {(et_req_scope t, eyes_session task)} s s1"
    using calm_register [OF daemon_ok_schema [OF assms(1)] _ reg] by blast
  have ids: "relay_ids s' \<subseteq> insert (et_req_scope t, eyes_session task) (relay_ids s1)"
    unfolding s' by (rule relay_ids_rewrite) (simp add: agent_key_def)
  show ?thesis
  proof (rule daemon_ok_join [OF daemon_ok_calm [OF assms(1) c] _ ids])
    show "schema_ok s'"
      unfolding s' by (rule schema_ok_agent_rewrite [OF calm_schema [OF c]]) (simp_all add: agent_key_def)
    show "sc' = et_req_scope t" if "(sc', eyes_session task) \<in> relay_ids s1" for sc'
    proof -
      have "(sc', eyes_session task) \<in> relay_ids s" using c that by (auto simp: calm_def)
      then show ?thesis using only by (auto simp: relay_ids_iff)
    qed
  qed (simp_all add: s' eyes_session_def)
qed

lemma daemon_ok_decide:
  assumes "daemon_ok s" and "decide g fresh now q claimed s = (s', v)"
  shows "daemon_ok s'"
proof -
  have l: "daemon_ok (fst (register_launcher q now s))" if "q_session q \<noteq> []"
  proof -
    have "daemon_ok s2" if "register_relay (registration_of q) now s = Inr (s2, name)" for s2 name
      using daemon_ok_register_relay [OF assms(1) _ that] \<open>q_session q \<noteq> []\<close> by (simp add: registration_of_def)
    then show ?thesis using assms(1) by (auto simp: register_launcher_def split: sum.split)
  qed
  have e: "daemon_ok (fst (register_eyes q fresh now s))"
    using assms(1) daemon_ok_reissue [OF assms(1)]
    by (auto simp: register_eyes_def split: sum.split option.split)
  have reg: "daemon_ok (fst (gate_register q claimed fresh now s))" if "q_session q \<noteq> []"
    using assms(1) l [OF that] e by (simp add: gate_register_def)
  show ?thesis
    using assms reg
    by (auto simp: decide_def Let_def split: if_splits sum.splits prod.splits)
qed

section \<open>One request\<close>

text \<open>The rows a request may change: the caller's, its subagent's, and what its reports refresh.\<close>

definition own_keys :: "request \<Rightarrow> store \<Rightarrow> (string \<times> string) set" where
  "own_keys q s = {(q_scope q, q_session q)}
     \<union> (if q_agent q = [] then {} else {(q_scope q, child_session (q_session q) (q_agent q))})
     \<union> sample_keys (actor_of q empty_ref) s"

definition effect :: "(string \<times> string) set \<Rightarrow> store \<Rightarrow> store \<Rightarrow> bool" where
  "effect K s s' \<longleftrightarrow> calm K s s' \<or> turn K s s'"

lemma sample_keys_actor: "sample_keys (actor_of q me) s = sample_keys (actor_of q empty_ref) s"
  by (simp add: sample_keys_def actor_of_def)

lemma effect_refl: "schema_ok s \<Longrightarrow> effect K s s"
  by (simp add: effect_def calm_refl)

lemma task_report_Some:
  assumes "task_report q me now s = Some (s', r)"
  obtains (refused) e where "s' = s" and "r = fail e" and "e = ErrReservedTask"
  | (unknown) e where "s' = s" and "r = error_response (relay_error e)"
  | (applied) what task sample where "apply_report what task sample q me now s = (s', r)"
      and "decode_task_report what (q_body q) = Some (task, sample)"
proof -
  obtain what reserved where t: "task_message_type (q_body q) = (what, reserved)" by fastforce
  have go: "op_of (q_op q) \<in> set send_ops" "reserved"
    using assms by (auto simp: task_report_def t split: if_splits)
  show thesis
  proof (cases "decode_task_report what (q_body q)")
    case None
    then show thesis using assms go refused by (simp add: task_report_def t)
  next
    case (Some ts)
    obtain task sample where ts: "ts = (task, sample)" by fastforce
    show thesis
    proof (cases "eyes_task task s")
      case (Inl e)
      then show thesis
        using assms go Some ts refused unknown by (cases "task_state_of what = None \<and> what \<noteq> task_progress_type")
          (auto simp: task_report_def t)
    next
      case (Inr row)
      then show thesis
        using assms go Some ts refused applied [of what task sample]
        by (cases "task_state_of what = None \<and> what \<noteq> task_progress_type"; cases "addressed_to_requester q row")
          (auto simp: task_report_def t)
    qed
  qed
qed

lemma apply_report_cases:
  assumes "apply_report what task sample q me now s = (s', r)"
  obtains (err) e where "s' = s" and "r = error_response (relay_error e)"
  | (move) to t m where "move_eyes_task task to (actor_of q me) (q_body q) now s = Inr (s', t, m)"
      and "r = ok_response\<lparr>rs_task := task\<rparr>" and "task_state_of what = Some to"
  | (tick) n d where "record_eyes_progress task (actor_of q me) (sample_of sample) now s = Inr (s', n, d)"
      and "r = ok_response\<lparr>rs_task := task\<rparr>" and "task_state_of what = None"
proof (cases "task_state_of what")
  case None
  show thesis
  proof (cases "record_eyes_progress task (actor_of q me) (sample_of sample) now s")
    case (Inl e)
    then show thesis using assms None by (intro err [of e]) (auto simp: apply_report_def)
  next
    case (Inr x)
    obtain s2 n d where x: "x = (s2, n, d)" by (metis prod_cases3)
    then show thesis using assms None tick Inr by (simp add: apply_report_def)
  qed
next
  case (Some to)
  show thesis
  proof (cases "move_eyes_task task to (actor_of q me) (q_body q) now s")
    case (Inl e)
    then show thesis using assms Some by (intro err [of e]) (auto simp: apply_report_def transition_eyes_task_def)
  next
    case (Inr x)
    obtain s2 n d where x: "x = (s2, n, d)" by (metis prod_cases3)
    then show thesis using assms Some move Inr by (simp add: apply_report_def transition_eyes_task_def)
  qed
qed

lemma report_effect:
  assumes "schema_ok s" and "task_report q me now s = Some (s', r)" and "own_keys q s \<subseteq> K"
  shows "effect K s s'"
  using assms(2)
proof (cases rule: task_report_Some)
  case (applied what task sample)
  then show ?thesis
  proof (cases rule: apply_report_cases)
    case (move to t m)
    then show ?thesis using turn_move [OF assms(1) move(1)] by (simp add: effect_def)
  next
    case (tick n d)
    have "sample_keys (actor_of q me) s \<subseteq> K" using assms(3) sample_keys_actor [of q me s] by (simp add: own_keys_def)
    then show ?thesis using turn_record [OF assms(1) tick(1)] by (simp add: effect_def actor_of_def)
  qed (simp add: effect_refl [OF assms(1)])
qed (simp_all add: effect_refl [OF assms(1)])

section \<open>Dispatch\<close>

lemma serve_effect:
  assumes "schema_ok s" and "serve suffix now q me broker child name s = (s', r)"
    and "(q_scope q, acting_session q child) \<in> K" and "(q_scope q, q_session q) \<in> K"
  shows "effect K s s'"
proof -
  note ok = assms(1)
  have run: "effect K s t" if "run_op s (send_to_scope d now s) = (t, x)" for d t x
    using that calm_send [OF ok] effect_refl [OF ok] by (auto simp: run_op_def effect_def split: sum.splits)
  have reg: "effect K s s'" if on: "on_register now q s = (s', r)"
  proof -
    obtain s1 res where p: "(if q_no_hook q then register_if_no_live_hook (q_scope q) (q_session q) (q_source q) now s
            else register quiet (q_scope q) (q_session q) (q_source q) now s) = (s1, res)" by fastforce
    then have "s1 = s \<or> register quiet (q_scope q) (q_session q) (q_source q) now s = (s1, res)"
      by (auto simp: register_if_no_live_hook_def split: if_splits)
    then have "calm K s s1" using calm_register [OF ok assms(4), of _ _ s1] calm_refl [OF ok] by blast
    then show ?thesis using on p by (cases res) (auto simp: on_register_def effect_def)
  qed
  have idle: "effect K s s'" if on: "on_idle now q child s = (s', r)"
  proof -
    let ?s1 = "set_status (q_scope q) (acting_session q child) Idle now s"
    have c: "calm K s ?s1" by (rule calm_set_status [OF ok assms(3)])
    obtain s2 lines where p: "pending_notices (q_scope q) (acting_session q child) now ?s1 = (s2, lines)" by fastforce
    have "s' = ?s1 \<or> s' = s2" using on p by (auto simp: on_idle_def Let_def split: if_splits)
    then show ?thesis using c calm_trans [OF c calm_pending [OF calm_schema [OF c] p]] by (auto simp: effect_def)
  qed
  have event: "effect K s s'" if on: "on_event now q child name s = (s', r)"
  proof -
    obtain s1 res where p: "record_event (q_scope q) (acting_session q child) q now s = (s1, res)" by fastforce
    show ?thesis using calm_record_event [OF ok assms(3) p] on p by (cases res) (auto simp: on_event_def effect_def)
  qed
  have read: "effect K s s'" if on: "on_read now q broker s = (s', r)"
  proof (cases "read_inbox broker (q_scope q) (q_from q) now s")
    case (Inr x)
    then show ?thesis using calm_read [OF ok, of broker _ _ now] on by (cases x) (auto simp: on_read_def effect_def)
  qed (use on effect_refl [OF ok] in \<open>simp add: on_read_def\<close>)
  have claim: "effect K s s'" if on: "on_claim now q s = (s', r)"
  proof -
    obtain s1 res where p: "claim quiet (\<lambda>_. now) (q_scope q) (q_from q) (q_path q) (q_note q) s = (s1, res)" by fastforce
    show ?thesis using calm_claim [OF ok p] on p by (cases res) (auto simp: on_claim_def effect_def)
  qed
  have rel: "effect K s s'" if on: "on_release now q s = (s', r)"
  proof -
    obtain s1 res where p: "release id (q_scope q) (q_from q) (q_path q) now s = (s1, res)" by fastforce
    show ?thesis using calm_release [OF ok p] on p by (cases res) (auto simp: on_release_def effect_def)
  qed
  have req: "effect K s s'" if on: "on_request_eyes suffix now q me s = (s', r)"
  proof (cases "assign_eyes_task \<lparr>rq_requester = me, rq_runtime = q_runtime q, rq_brief = q_brief q,
          rq_deadline = q_deadline q\<rparr> suffix now s")
    case (Inr x)
    obtain s2 t l where x: "x = (s2, t, l)" by (metis prod_cases3)
    show ?thesis using turn_assign [OF ok Inr [unfolded x]] on Inr x by (simp add: on_request_eyes_def effect_def)
  qed (use on effect_refl [OF ok] in \<open>simp add: on_request_eyes_def\<close>)
  have can: "effect K s s'" if on: "on_cancel_eyes now q me s = (s', r)"
  proof (cases "move_eyes_task (q_task q) ''cancelled'' (actor_of q me) [] now s")
    case (Inr x)
    obtain s2 t l where x: "x = (s2, t, l)" by (metis prod_cases3)
    show ?thesis using turn_move [OF ok Inr [unfolded x]] on Inr x by (simp add: on_cancel_eyes_def cancel_eyes_task_def effect_def)
  qed (use on effect_refl [OF ok] in \<open>simp add: on_cancel_eyes_def cancel_eyes_task_def\<close>)
  have stay: "effect K s s" by (rule effect_refl [OF ok])
  have gone: "effect K s (set_status (q_scope q) (acting_session q child) Gone now s)"
    using calm_set_status [OF ok assms(3)] by (simp add: effect_def)
  show ?thesis
    using assms(2) run reg idle event read claim rel req can stay gone
    by (cases "op_of (q_op q)") (auto simp: serve_def send_def broadcast_def)
qed

text \<open>Only the name a request acts under is ever rewritten on the way.\<close>

definition same_caller :: "request \<Rightarrow> request \<Rightarrow> bool" where
  "same_caller q q' \<longleftrightarrow> (\<exists>w. q' = q\<lparr>q_from := w\<rparr>)"

lemma same_callerD:
  assumes "same_caller q q'"
  shows "q_scope q' = q_scope q" and "q_session q' = q_session q" and "q_agent q' = q_agent q"
    and "q_origin q' = q_origin q" and "q_op q' = q_op q" and "q_body q' = q_body q" and "q_target q' = q_target q"
  using assms by (auto simp: same_caller_def)

lemma same_caller_refl [simp]: "same_caller q q"
  unfolding same_caller_def by (rule exI [of _ "q_from q"]) simp

lemma same_caller_from [simp]: "same_caller q (q'\<lparr>q_from := w\<rparr>) \<longleftrightarrow> same_caller q q'"
proof
  assume "same_caller q (q'\<lparr>q_from := w\<rparr>)"
  then obtain v where "q'\<lparr>q_from := w\<rparr> = q\<lparr>q_from := v\<rparr>" by (auto simp: same_caller_def)
  then have "(q'\<lparr>q_from := w\<rparr>)\<lparr>q_from := q_from q'\<rparr> = (q\<lparr>q_from := v\<rparr>)\<lparr>q_from := q_from q'\<rparr>" by simp
  then show "same_caller q q'" unfolding same_caller_def by (intro exI [of _ "q_from q'"]) simp
qed (auto simp: same_caller_def)

lemma own_keys_same: "same_caller q q' \<Longrightarrow> own_keys q' s = own_keys q s"
  by (simp add: own_keys_def same_callerD sample_keys_def actor_of_def)

lemma own_keys_calm: "calm K s s' \<Longrightarrow> own_keys q s' = own_keys q s"
  by (simp add: own_keys_def calm_def sample_keys_def)

lemma retarget_effect:
  assumes "schema_ok s" and "retarget now q s = (s1, res)"
  shows "calm (own_keys q s) s s1"
    and "res = Inr (q1, child, name) \<Longrightarrow> same_caller q q1 \<and> (q_scope q, acting_session q1 child) \<in> own_keys q s"
proof -
  let ?K = "own_keys q s" and ?child = "child_session (q_session q) (q_agent q)"
  have own: "(q_scope q, q_session q) \<in> ?K" by (simp add: own_keys_def)
  show c: "calm ?K s s1"
  proof (cases "q_agent q = [] \<or> op_of (q_op q) \<notin> set child_ops \<or> op_of (q_op q) = OpDeregister")
    case True
    then show ?thesis using assms calm_refl [OF assms(1)] by (auto simp: retarget_def Let_def split: if_splits)
  next
    case False
    obtain s2 x where p: "register_child quiet quiet (q_scope q) (q_session q) (q_agent q) (q_agent_type q) now s = (s2, x)"
      by fastforce
    have "(q_scope q, ?child) \<in> ?K" using False by (simp add: own_keys_def)
    then have "calm ?K s s2" using calm_register_child [OF assms(1) own _ p] by simp
    moreover have "s1 = s2"
      using assms(2) False p by (cases x) (auto simp: retarget_def Let_def split: if_splits)
    ultimately show ?thesis by simp
  qed
  assume res: "res = Inr (q1, child, name)"
  show "same_caller q q1 \<and> (q_scope q, acting_session q1 child) \<in> ?K"
    using assms(2) own unfolding res
    by (auto simp: retarget_def Let_def acting_session_def own_keys_def split: if_splits prod.splits sum.splits)
qed

lemma bind_actor_same: "bind_actor q s = Inr (q', me, broker) \<Longrightarrow> same_caller q q'"
  by (auto simp: bind_actor_def bind_sum_Inr_iff split: if_splits)

lemma heartbeat_calm: "schema_ok s \<Longrightarrow> calm (own_keys q s) s (heartbeat now q s)"
  by (auto simp: heartbeat_def intro: calm_refl calm_touch simp: own_keys_def)

lemma dispatch_effect:
  assumes "schema_ok s" and "dispatch suffix now q s = (s', r)"
  shows "\<exists>s1. calm (own_keys q s) s s1 \<and> effect (own_keys q s) s1 s'" and "relay_row_caller q s \<Longrightarrow> s' = s"
proof -
  let ?K = "own_keys q s"
  show "\<exists>s1. calm ?K s s1 \<and> effect ?K s1 s'"
  proof (cases "relay_row_caller q s")
    case True
    then have "s' = s" using assms(2) by (simp add: dispatch_def)
    then show ?thesis using calm_refl [OF assms(1)] effect_refl [OF assms(1)] by blast
  next
    case no: False
    obtain s1 res where re: "retarget now q s = (s1, res)" by fastforce
    note c1 = retarget_effect(1) [OF assms(1) re]
    show ?thesis
    proof (cases res)
      case (Inl x)
      then show ?thesis using assms(2) no re c1 effect_refl [OF calm_schema [OF c1]] by (auto simp: dispatch_def)
    next
      case (Inr y)
      obtain q1 child name where y: "y = (q1, child, name)" by (metis prod_cases3)
      note same1 = retarget_effect(2) [OF assms(1) re Inr [unfolded y]]
      show ?thesis
      proof (cases "bind_actor q1 s1")
        case (Inl e)
        then show ?thesis
          using assms(2) no re Inr y c1 effect_refl [OF calm_schema [OF c1]] by (auto simp: dispatch_def)
      next
        case act: (Inr z)
        obtain q2 me broker where z: "z = (q2, me, broker)" by (metis prod_cases3)
        have same2: "same_caller q q2" "q_session q2 = q_session q1"
          using same1 bind_actor_same [OF act [unfolded z]] by (auto simp: same_caller_def)
        let ?s2 = "heartbeat now q2 s1"
        have K: "own_keys q2 s1 = ?K" using own_keys_same [OF same2(1)] own_keys_calm [OF c1] by simp
        have c2: "calm ?K s1 ?s2" using heartbeat_calm [OF calm_schema [OF c1], of q2 now] K by simp
        have K2: "own_keys q2 ?s2 = ?K" using own_keys_calm [OF c2] K by simp
        note ok2 = calm_schema [OF c2]
        have rest: "(case task_report q2 me now ?s2 of Some a \<Rightarrow> a | None \<Rightarrow> serve suffix now q2 me broker child name ?s2)
            = (s', r)"
          using assms(2) no re Inr y act z by (simp add: dispatch_def Let_def)
        have keys: "(q_scope q2, acting_session q2 child) \<in> ?K" "(q_scope q2, q_session q2) \<in> ?K"
        proof -
          have "acting_session q2 child = acting_session q1 child" by (simp add: acting_session_def same2(2))
          then show "(q_scope q2, acting_session q2 child) \<in> ?K" using same1 same_callerD(1) [OF same2(1)] by simp
          show "(q_scope q2, q_session q2) \<in> ?K" using same_callerD [OF same2(1)] by (simp add: own_keys_def)
        qed
        have "effect ?K ?s2 s'"
        proof (cases "task_report q2 me now ?s2")
          case None
          then show ?thesis using rest serve_effect [OF ok2 _ keys] by simp
        next
          case (Some a)
          then show ?thesis using rest report_effect [OF ok2, of q2 me now s' r ?K] K2 by simp
        qed
        then show ?thesis using calm_trans [OF c1 c2] by blast
      qed
    qed
  qed
  show "s' = s" if "relay_row_caller q s" using assms(2) that by (simp add: dispatch_def)
qed

lemma daemon_ok_dispatch: "daemon_ok s \<Longrightarrow> dispatch suffix now q s = (s', r) \<Longrightarrow> daemon_ok s'"
  using dispatch_effect(1) [OF daemon_ok_schema] daemon_ok_calm daemon_ok_turn unfolding effect_def by metis

section \<open>Runs of the daemon\<close>

datatype daemon_event =
    Frame "gate option" string string string time string
  | Sweep time
  | House time

fun daemon_step :: "daemon_event \<Rightarrow> store \<Rightarrow> store" where
  "daemon_step (Frame og fresh suffix why now bytes) s = fst (handle og fresh suffix why now bytes s)"
| "daemon_step (Sweep now) s = fst (expire_eyes_tasks now s)"
| "daemon_step (House now) s = fst (housekeep now s)"

lemma daemon_ok_answer:
  assumes "daemon_ok s" and "answer og fresh suffix why now line s = (s', r)"
  shows "daemon_ok s'"
proof (cases "decode_request line")
  case None
  then show ?thesis using assms by (simp add: answer_def)
next
  case (Some q0)
  let ?q = "q0\<lparr>q_origin := [], q_kind := []\<rparr>"
  obtain s1 v where c: "check og fresh now ?q (q_kind q0) s = (s1, v)" by fastforce
  have ok1: "daemon_ok s1"
    using assms(1) c daemon_ok_decide [OF assms(1)] by (auto simp: check_def split: option.splits)
  show ?thesis
  proof (cases v)
    case (Answer x)
    then show ?thesis using assms(2) ok1 Some c by (simp add: answer_def Let_def)
  next
    case (Pass q1)
    obtain s2 x where d: "dispatch suffix now q1 s1 = (s2, x)" by fastforce
    have "s' = s2" using assms(2) Some c Pass d by (simp add: answer_def Let_def)
    then show ?thesis using daemon_ok_dispatch [OF ok1 d] by simp
  qed
qed

lemma daemon_ok_sweep: "daemon_ok s \<Longrightarrow> daemon_ok (fst (expire_eyes_tasks now s))"
proof -
  have "daemon_ok (fst (fold (expire_one now) ts (s, n, e)))" if "daemon_ok s" for ts s n e
    using that
  proof (induction ts arbitrary: s n e)
    case (Cons t ts)
    obtain s' n' e' where one: "expire_one now t (s, n, e) = (s', n', e')" by (metis prod_cases3)
    have "daemon_ok s'"
      using Cons.prems one turn_move [OF daemon_ok_schema [OF Cons.prems]] daemon_ok_turn [OF Cons.prems]
      by (auto simp: expire_one_def split: sum.splits if_splits)
    then show ?case using Cons.IH one by simp
  qed simp
  then show "daemon_ok s \<Longrightarrow> ?thesis" by (simp add: expire_eyes_tasks_def)
qed

lemma daemon_ok_house: "daemon_ok s \<Longrightarrow> daemon_ok (fst (housekeep now s))"
proof -
  assume "daemon_ok s"
  then have ok: "daemon_ok (fst (expire_eyes_tasks now s))" by (rule daemon_ok_sweep)
  let ?s1 = "fst (expire_eyes_tasks now s)"
  let ?t = "purge_ledgers now (purge_agents now (purge_traffic now ?s1))"
  have t: "fst (housekeep now s) = ?t" by (simp add: housekeep_def split: prod.split)
  show ?thesis unfolding t
  proof (rule daemon_ok_fewer [OF ok])
    show "schema_ok ?t" by (intro schema_ok_purges daemon_ok_schema [OF ok])
    show "relay_ids ?t \<subseteq> relay_ids ?s1" by (auto simp: relay_ids_def purged_rows delete_where_def)
    show "broker_load ?t k \<le> 1" for k
    proof -
      have "broker_load ?t k \<le> broker_load ?s1 k"
        by (simp add: broker_load_def purge_ledgers_def purge_load)
      also have "\<dots> \<le> 1" using ok by (simp add: daemon_ok_def)
      finally show ?thesis .
    qed
  qed
qed

lemma daemon_ok_step: "daemon_ok s \<Longrightarrow> daemon_ok (daemon_step ev s)"
proof (cases ev)
  case (Frame og fresh suffix why now bytes)
  then show "daemon_ok s \<Longrightarrow> ?thesis"
    using daemon_ok_answer by (auto simp: handle_def Let_def split: prod.splits)
qed (simp_all add: daemon_ok_sweep daemon_ok_house)

lemma daemon_ok_run: "daemon_ok s \<Longrightarrow> daemon_ok (fold daemon_step evs s)"
  by (induction evs arbitrary: s) (simp_all add: daemon_ok_step)

end
