(* ===== verification/ReportRound.thy ===== *)
theory ReportRound
  imports Report
begin

text \<open>
  The reports of a broker, read back: a printed lifecycle message is recognised by its type alone
  and decodes to what was printed. The bodies are the ones \<open>internal/hostbroker\<close> and
  \<open>internal/hostrunner\<close> print, so that what they send is what the daemon acts on.
\<close>

section \<open>The type loop on a printed object\<close>

definition member_rest :: "(string \<times> json) list \<Rightarrow> string" where
  "member_rest kvs = concat (map (\<lambda>kv. CHR '','' # member_text kv) kvs) @ ''}''"

lemma member_rest_simps [simp]:
  "member_rest [] = ''}''" "member_rest (kv # kvs) = CHR '','' # member_text kv @ member_rest kvs"
  by (simp_all add: member_rest_def)

lemma ends_number_rest [simp]: "ends_number (member_rest kvs)"
  by (cases kvs) simp_all

lemma print_members: "json_print (JObj (kv # kvs)) = CHR ''{'' # member_text kv @ member_rest kvs"
proof -
  have "join '','' (map member_text (kv # kvs)) @ ''}'' = member_text kv @ member_rest kvs"
    by (induction kvs arbitrary: kv) (simp_all add: join_Cons)
  then show ?thesis by (simp only: json_print_Obj append_Cons append_Nil append_assoc)
qed

lemma next_key_member:
  assumes "valid_utf8 k"
  shows "next_key True (member_text (k, v) @ t) = Some (k, CHR '':'' # json_print v @ t)"
    and "next_key False (CHR '','' # member_text (k, v) @ t) = Some (k, CHR '':'' # json_print v @ t)"
  using scan_json_string [OF assms]
  by (simp_all add: next_key_def member_text_def json_string_def Let_def del: json_print.simps)

lemma type_loop_turn:
  assumes "next_key first s = Some (k, CHR '':'' # json_print v @ t)"
    and "wf_json v" and "json_depth v \<le> max_nesting" and "ends_number t"
  shows "type_loop first s what seen = (if k \<noteq> ''type'' then type_loop False t what seen
    else (case string_value v of None \<Rightarrow> what
      | Some w \<Rightarrow> if seen \<and> (has_prefix reserved_prefix what \<or> has_prefix reserved_prefix w) then reserved_prefix
          else type_loop False t w True))"
proof -
  have one: "Option.bind (next_key first s) (\<lambda>(key, r). Option.bind (after_colon r) (\<lambda>v.
          map_option (\<lambda>(j, r'). (key, j, r')) (read_value v))) = Some (k, v, t)"
    using assms read_printed [OF assms(2-4)] by (simp add: after_colon_def del: json_print.simps)
  show ?thesis by (subst type_loop.simps) (simp only: one option.case prod.case)
qed

lemma type_loop_skips:
  assumes "list_all (\<lambda>(k, v). valid_utf8 k \<and> k \<noteq> ''type'' \<and> wf_json v \<and> json_depth v \<le> max_nesting) kvs"
  shows "type_loop False (member_rest kvs) what seen = what"
  using assms
proof (induction kvs)
  case Nil
  have "next_key False ''}'' = None" by (simp add: next_key_def)
  then show ?case by (subst type_loop.simps) simp
next
  case (Cons kv kvs)
  obtain k v where kv: "kv = (k, v)" by fastforce
  have "next_key False (member_rest ((k, v) # kvs)) = Some (k, CHR '':'' # json_print v @ member_rest kvs)"
    using Cons.prems unfolding kv by (simp add: next_key_member(2) del: json_print.simps)
  from type_loop_turn [OF this] show ?case
    using Cons unfolding kv by simp
qed

lemma message_type_of_print:
  assumes "valid_utf8 w"
    and "list_all (\<lambda>(k, v). valid_utf8 k \<and> k \<noteq> ''type'' \<and> wf_json v \<and> json_depth v \<le> max_nesting) kvs"
  shows "task_message_type (json_print (JObj ((''type'', JStr w) # kvs))) = (w, has_prefix reserved_prefix w)"
proof -
  let ?s = "member_text (''type'', JStr w) @ member_rest kvs"
  have "next_key True ?s = Some (''type'', CHR '':'' # json_print (JStr w) @ member_rest kvs)"
    by (rule next_key_member(1)) simp
  from type_loop_turn [OF this] have "type_loop True ?s [] False = w"
    using type_loop_skips [OF assms(2)] assms(1) by (simp add: string_value_def)
  then show ?thesis
    unfolding print_members task_message_type_def by (simp add: Let_def)
qed

section \<open>The four reports\<close>

datatype report = Accepts accepted_msg | Samples progress_msg | Results result_msg | Fails failed_msg

fun report_json :: "report \<Rightarrow> json" where
  "report_json (Accepts m) = accepted_json m"
| "report_json (Samples m) = progress_json m"
| "report_json (Results m) = result_json m"
| "report_json (Fails m) = failed_json m"

fun report_type :: "report \<Rightarrow> string" where
  "report_type (Accepts m) = am_type m"
| "report_type (Samples m) = pm_type m"
| "report_type (Results m) = xm_type m"
| "report_type (Fails m) = fm_type m"

fun report_task :: "report \<Rightarrow> string" where
  "report_task (Accepts m) = am_task m"
| "report_task (Samples m) = pm_task m"
| "report_task (Results m) = xm_task m"
| "report_task (Fails m) = fm_task m"

fun report_sample :: "report \<Rightarrow> progress_msg" where
  "report_sample (Samples m) = m"
| "report_sample r = zero_progress"

fun report_valid :: "report \<Rightarrow> bool" where
  "report_valid (Accepts m) = valid_accepted m"
| "report_valid (Samples m) = valid_progress m"
| "report_valid (Results m) = valid_result m"
| "report_valid (Fails m) = valid_failed m"

definition wf_texts :: "string list option \<Rightarrow> bool" where
  "wf_texts l = list_all valid_utf8 (case l of None \<Rightarrow> [] | Some ts \<Rightarrow> ts)"

fun report_wf :: "report \<Rightarrow> bool" where
  "report_wf (Accepts m) = (case am_child m of None \<Rightarrow> True | Some r \<Rightarrow> wf_ref r)"
| "report_wf (Samples m) = (valid_utf8 (pm_tool m) \<and> pm_turns m < 2 ^ 63 \<and> pm_elapsed m < 2 ^ 63)"
| "report_wf (Results m) = (valid_utf8 (xm_summary m) \<and> valid_utf8 (xm_error m) \<and> wf_texts (xm_observations m) \<and>
     wf_texts (xm_actions m) \<and> wf_texts (xm_evidence m))"
| "report_wf (Fails m) = valid_utf8 (fm_error m)"

lemma wf_texts_json: "wf_texts l \<Longrightarrow> wf_json (texts_json l)" "json_depth (texts_json l) \<le> 1"
proof -
  have flat: "fold max (map json_depth (map JStr ts)) n = n" for ts :: "string list" and n :: nat
    by (induction ts arbitrary: n) simp_all
  show "json_depth (texts_json l) \<le> 1"
    using flat by (cases l) (simp_all add: texts_json_def)
  show "wf_texts l \<Longrightarrow> wf_json (texts_json l)"
    by (cases l) (simp_all add: texts_json_def wf_texts_def list_all_iff)
qed

lemma valid_task_utf8: "task_id_valid t \<Longrightarrow> valid_utf8 t"
proof -
  assume v: "task_id_valid t"
  then have "t = task_prefix @ drop 5 t" by (metis task_id_valid_def append_take_drop_id)
  moreover have "is_ascii (task_prefix @ drop 5 t)"
    using v by (auto simp: task_id_valid_def list_all_iff is_ascii_def byte_class_defs task_prefix_def)
  ultimately show ?thesis by (metis valid_utf8_ascii)
qed

lemma report_types: "valid_utf8 task_accepted_type" "valid_utf8 task_progress_type" "valid_utf8 task_result_type"
  "valid_utf8 task_failed_type"
  by (simp_all add: task_type_defs valid_utf8_ascii is_ascii_def byte_def)

lemma depth_bounds: "1 \<le> max_nesting" "2 \<le> max_nesting" "3 \<le> max_nesting"
  by (simp_all add: max_nesting_def)

text \<open>A report as its first member, the type, and the rest; and that the rest never names it again.\<close>

definition report_rest :: "report \<Rightarrow> (string \<times> json) list" where
  "report_rest r = (case report_json r of JObj kvs \<Rightarrow> tl kvs | _ \<Rightarrow> [])"

lemma report_members: "report_json r = JObj ((''type'', JStr (report_type r)) # report_rest r)"
  by (cases r) (simp_all add: report_rest_def accepted_json_def progress_json_def result_json_def failed_json_def)

definition fits :: "(string \<times> json) list \<Rightarrow> bool" where
  "fits kvs \<longleftrightarrow> list_all (\<lambda>(k, v). valid_utf8 k \<and> k \<noteq> ''type'' \<and> wf_json v \<and> json_depth v \<le> 1) kvs"

lemma fits_simps [simp]:
  "fits []" "fits (xs @ ys) \<longleftrightarrow> fits xs \<and> fits ys"
  "fits ((k, v) # kvs) \<longleftrightarrow> valid_utf8 k \<and> k \<noteq> ''type'' \<and> wf_json v \<and> json_depth v \<le> 1 \<and> fits kvs"
  by (auto simp: fits_def)

lemma fits_opt_text: "valid_utf8 k \<Longrightarrow> k \<noteq> ''type'' \<Longrightarrow> valid_utf8 v \<Longrightarrow> fits (opt_text k v)"
  by (simp add: opt_text_def)

lemma result_fits:
  assumes "valid_result m" and "report_wf (Results m)"
  shows "fits (report_rest (Results m)) \<and> valid_utf8 (xm_type m)"
proof -
  have w: "valid_utf8 ''succeeded''" "valid_utf8 ''failed''"
    by (simp_all add: valid_utf8_ascii is_ascii_def byte_def)
  have s: "valid_utf8 (xm_status m)" "xm_type m = task_result_type" "valid_utf8 (xm_task m)"
    using assms(1) w by (auto simp: valid_result_def valid_task_utf8)
  show ?thesis
    using assms(2) s wf_texts_json
    by (simp add: report_rest_def result_json_def report_types fits_opt_text)
qed

lemma report_fits: "report_valid r \<Longrightarrow> report_wf r \<Longrightarrow> fits (report_rest r) \<and> valid_utf8 (report_type r)"
proof (cases r)
  case (Results m)
  then show "report_valid r \<Longrightarrow> report_wf r \<Longrightarrow> ?thesis" using result_fits by simp
qed (auto simp: report_rest_def accepted_json_def progress_json_def failed_json_def
      valid_accepted_def valid_progress_def valid_failed_def report_types valid_task_utf8
      wf_ref_json intro!: fits_opt_text split: option.splits)

lemma fits_depth: "fits kvs \<Longrightarrow> json_depth (JObj kvs) \<le> 2"
  by (auto simp: fits_def list_all_iff fold_max_le)

lemma report_print:
  assumes "report_valid r" and "report_wf r"
  shows "read_value (json_print (report_json r)) = Some (report_json r, [])"
    and "task_message_type (json_print (report_json r)) = (report_type r, has_prefix reserved_prefix (report_type r))"
proof -
  note f = report_fits [OF assms]
  have wf: "wf_json (report_json r)" using f by (simp add: report_members fits_def list_all_iff split_beta)
  have "fits (report_rest r) \<Longrightarrow> json_depth (report_json r) \<le> 2"
    unfolding report_members using fits_depth by (force simp: fold_max_le)
  then have d: "json_depth (report_json r) \<le> max_nesting" using f by (simp add: max_nesting_def)
  show "read_value (json_print (report_json r)) = Some (report_json r, [])"
    using read_printed [OF wf d, of "[]"] by simp
  have "list_all (\<lambda>(k, v). valid_utf8 k \<and> k \<noteq> ''type'' \<and> wf_json v \<and> json_depth v \<le> max_nesting) (report_rest r)"
    using f by (auto simp: fits_def list_all_iff max_nesting_def)
  then show "task_message_type (json_print (report_json r)) = (report_type r, has_prefix reserved_prefix (report_type r))"
    unfolding report_members using message_type_of_print f by blast
qed

lemma report_kind: "report_valid r \<Longrightarrow> (case r of Accepts m \<Rightarrow> report_type r = task_accepted_type
    | Samples m \<Rightarrow> report_type r = task_progress_type | Results m \<Rightarrow> report_type r = task_result_type
    | Fails m \<Rightarrow> report_type r = task_failed_type)"
  by (cases r) (simp_all add: valid_accepted_def valid_progress_def valid_result_def valid_failed_def)

lemma report_read_back:
  assumes "report_valid r" and "report_wf r"
  shows "task_message_type (json_print (report_json r)) = (report_type r, True) \<and>
    decode_task_report (report_type r) (json_print (report_json r)) = Some (report_task r, report_sample r)"
proof -
  note p = report_print [OF assms]
  have types: "task_progress_type \<noteq> task_accepted_type" "task_result_type \<noteq> task_accepted_type"
    "task_failed_type \<noteq> task_accepted_type" "task_result_type \<noteq> task_progress_type" "task_accepted_type \<noteq> task_progress_type"
    "task_failed_type \<noteq> task_progress_type" "task_failed_type \<noteq> task_result_type"
    by (simp_all add: task_type_defs)
  have pre: "has_prefix reserved_prefix (report_type r)"
    using report_kind [OF assms(1)] by (cases r) (simp_all add: task_type_defs reserved_prefix_def)
  have "decode_task_report (report_type r) (json_print (report_json r)) = Some (report_task r, report_sample r)"
  proof (cases r)
    case (Accepts m)
    then show ?thesis
      using p(1) assms(1) report_kind [OF assms(1)] types
      by (simp add: decode_task_report_def decode_task_json_def dec_accepted_json checked_def del: json_print.simps)
  next
    case (Samples m)
    have "dec_struct True progress_fields (progress_json m) zero_progress = (m, True)"
      using assms Samples by (intro dec_progress_json) (auto simp: valid_progress_def)
    then show ?thesis
      using p(1) assms(1) report_kind [OF assms(1)] types Samples
      by (simp add: decode_task_report_def decode_task_json_def checked_def del: json_print.simps)
  next
    case (Results m)
    then show ?thesis
      using p(1) assms(1) report_kind [OF assms(1)] types
      by (simp add: decode_task_report_def decode_task_json_def dec_result_json checked_def del: json_print.simps)
  next
    case (Fails m)
    then show ?thesis
      using p(1) assms(1) report_kind [OF assms(1)] types
      by (simp add: decode_task_report_def decode_task_json_def dec_failed_json checked_def del: json_print.simps)
  qed
  then show ?thesis using p(2) pre by simp
qed

text \<open>
  C23. What a broker or its child prints is what the daemon acts on: every well-formed lifecycle
  report of the four kinds is recognised as one of the reserved family by its type and decodes,
  strictly, to the task it names and, for a sample, to the sample.
\<close>

theorem reports_are_read_back:
  assumes "report_valid r" and "report_wf r"
  shows "task_message_type (json_print (report_json r)) = (report_type r, True) \<and>
    decode_task_report (report_type r) (json_print (report_json r)) = Some (report_task r, report_sample r)"
  using assms by (rule report_read_back)

definition deadline_report :: report where
  "deadline_report = Fails \<lparr>fm_type = task_failed_type, fm_task = task_prefix @ ''0123456789ab'', fm_error = ''deadline exceeded''\<rparr>"

theorem reports_are_read_back_witness:
  "task_message_type (json_print (report_json deadline_report)) = (''task.failed'', True)"
proof -
  have "report_valid deadline_report"
    by (simp add: deadline_report_def valid_failed_def task_id_valid_def task_prefix_def is_lower_hex_def is_digit_def
        byte_def trim_space_def is_space_def)
  moreover have "report_wf deadline_report"
    by (simp add: deadline_report_def valid_utf8_ascii is_ascii_def byte_def)
  ultimately show ?thesis
    using reports_are_read_back [of deadline_report] by (simp add: deadline_report_def task_failed_type_def)
qed

end
