(* ===== verification/DaemonProps.thy ===== *)
theory DaemonProps
  imports DaemonLaws ReportRound
begin

text \<open>
  What the daemon promises its callers: the invariant of every run, the authentication the relay
  gate demands, whose rows a request may change, the closed list of texts that may leave over the
  relay, and what mail a request can leave.
\<close>

text \<open>
  C1. Whatever frames arrive on either socket, in whatever order, with deadline sweeps and
  housekeeping between them, the store keeps its declared keys, a session names at most one relay
  row and never the empty session, and no broker holds two tasks.
\<close>

theorem every_run_is_sound: "daemon_ok (fold daemon_step evs empty_store)"
  by (rule daemon_ok_run [OF daemon_ok_empty])

section \<open>Whose rows\<close>

text \<open>
  C20. A request changes no agent row but its caller's, the caller's subagent's, and, for a relay
  caller reporting on a task, the task's child; a caller of the unix socket that presents the
  session of a relay row changes nothing at all.
\<close>

theorem request_changes_own_rows:
  assumes "schema_ok s" and "dispatch suffix now q s = (s', r)"
  shows "outside (own_keys q s) s' = outside (own_keys q s) s \<and>
    (q_origin q \<noteq> relay_origin \<longrightarrow> own_keys q s \<subseteq> {(q_scope q, q_session q), (q_scope q, child_session (q_session q) (q_agent q))}) \<and>
    (relay_row_caller q s \<longrightarrow> s' = s \<and> rs_error r = err_text ErrRelayAuth)"
proof -
  obtain s1 where "calm (own_keys q s) s s1" "effect (own_keys q s) s1 s'"
    using dispatch_effect(1) [OF assms] by blast
  then have "outside (own_keys q s) s' = outside (own_keys q s) s"
    by (auto simp: effect_def calm_def turn_def)
  moreover have "r = fail ErrRelayAuth" if "relay_row_caller q s" using assms(2) that by (simp add: dispatch_def)
  ultimately show ?thesis
    using dispatch_effect(2) [OF assms]
    by (auto simp: own_keys_def sample_keys_def actor_of_def fail_def error_response_def split: if_splits)
qed

definition relay_rows :: "store \<Rightarrow> agent_row list" where
  "relay_rows s = filter (\<lambda>r. ar_origin r = relay_origin) (agents s)"

lemma relay_rows_outside:
  assumes "outside K s' = outside K s" and "relay_ids s' \<subseteq> relay_ids s" and "K \<inter> relay_ids s \<subseteq> D"
  shows "filter (\<lambda>r. agent_key r \<notin> D) (relay_rows s') = filter (\<lambda>r. agent_key r \<notin> D) (relay_rows s)"
proof -
  have "filter (\<lambda>r. agent_key r \<notin> D) (relay_rows t)
      = filter (\<lambda>r. ar_origin r = relay_origin \<and> agent_key r \<notin> D) (outside K t)" if "K \<inter> relay_ids t \<subseteq> D" for t
    using that by (auto simp: relay_rows_def outside_def relay_ids_def intro!: filter_cong)
  moreover have "K \<inter> relay_ids s' \<subseteq> D" using assms(2,3) by blast
  ultimately show ?thesis using assms by simp
qed

definition subagent_keys :: "request \<Rightarrow> (string \<times> string) set" where
  "subagent_keys q = (if q_agent q = [] then {} else {(q_scope q, child_session (q_session q) (q_agent q))})"

lemma local_request_rows:
  assumes "daemon_ok s" and "q_origin q \<noteq> relay_origin" and "dispatch suffix now q s = (s', r)"
  shows "filter (\<lambda>x. agent_key x \<notin> subagent_keys q \<inter> relay_ids s) (relay_rows s')
    = filter (\<lambda>x. agent_key x \<notin> subagent_keys q \<inter> relay_ids s) (relay_rows s)"
proof (cases "relay_row_caller q s")
  case True
  then show ?thesis using dispatch_effect(2) [OF daemon_ok_schema [OF assms(1)] assms(3)] by simp
next
  case False
  note ok = daemon_ok_schema [OF assms(1)]
  obtain s1 where s1: "calm (own_keys q s) s s1" "effect (own_keys q s) s1 s'"
    using dispatch_effect(1) [OF ok assms(3)] by blast
  have "(q_scope q, q_session q) \<notin> relay_ids s"
  proof
    assume in_ids: "(q_scope q, q_session q) \<in> relay_ids s"
    then have "q_session q \<noteq> []" using assms(1) by (auto simp: daemon_ok_def)
    moreover obtain x where x: "row_at (q_scope q) (q_session q) s = Some x" "ar_origin x = relay_origin"
      using in_ids by (auto simp: relay_ids_iff row_at_iff [OF ok])
    then have "\<exists>i. identity_of (q_scope q) (q_session q) s = Inr i \<and> id_origin i = relay_origin"
      by (simp add: identity_of_def)
    ultimately show False using False assms(2) by (auto simp: relay_row_caller_def)
  qed
  then have "own_keys q s \<inter> relay_ids s \<subseteq> subagent_keys q \<inter> relay_ids s"
    using assms(2) by (auto simp: own_keys_def sample_keys_def actor_of_def subagent_keys_def split: if_splits)
  moreover have "outside (own_keys q s) s' = outside (own_keys q s) s" "relay_ids s' \<subseteq> relay_ids s"
    using s1 by (auto simp: effect_def calm_def turn_def)
  ultimately show ?thesis using relay_rows_outside by blast
qed

text \<open>
  C17. A frame of the unix socket refreshes, retires, renames or otherwise changes no row that came
  in over the relay, but at most the one whose session is that of the subagent the frame names
  (\<open>subagent_keys\<close>: the session and the agent id of the frame, joined as \<open>ChildSessionID\<close> does, in
  its workspace; none when it names no subagent). When there is no such row, the relay rows are
  exactly what they were. The exception is real: \<open>subagent_retires_broker\<close> below.
\<close>

theorem local_frame_spares_relay_rows:
  assumes "daemon_ok s" and "decode_request line = Some q" and "answer None fresh suffix why now line s = (s', r)"
  shows "filter (\<lambda>x. agent_key x \<notin> subagent_keys q) (relay_rows s') = filter (\<lambda>x. agent_key x \<notin> subagent_keys q) (relay_rows s) \<and>
    (subagent_keys q \<inter> relay_ids s = {} \<longrightarrow> relay_rows s' = relay_rows s)"
proof -
  let ?q = "q\<lparr>q_origin := [], q_kind := []\<rparr>"
  obtain s2 x where d: "dispatch suffix now ?q s = (s2, x)" by fastforce
  have s': "s' = s2" using assms(2,3) d by (simp add: answer_def check_def)
  have "subagent_keys ?q = subagent_keys q" by (simp add: subagent_keys_def)
  then have rows: "filter (\<lambda>x. agent_key x \<notin> subagent_keys q \<inter> relay_ids s) (relay_rows s')
      = filter (\<lambda>x. agent_key x \<notin> subagent_keys q \<inter> relay_ids s) (relay_rows s)"
    using local_request_rows [OF assms(1) _ d] unfolding s' by (simp add: relay_origin_def)
  have sub: "filter (\<lambda>x. agent_key x \<notin> subagent_keys q) xs
      = filter (\<lambda>x. agent_key x \<notin> subagent_keys q) (filter (\<lambda>x. agent_key x \<notin> subagent_keys q \<inter> relay_ids s) xs)" for xs
    by (auto intro: filter_cong)
  have "relay_rows s' = relay_rows s" if "subagent_keys q \<inter> relay_ids s = {}" using rows unfolding that by simp
  then show ?thesis using rows sub [of "relay_rows s'"] sub [of "relay_rows s"] by metis
qed

section \<open>Witnesses\<close>

text \<open>A caller of the unix socket that knows a broker's workspace and session.\<close>

definition broker_probe :: request where
  "broker_probe = zero_request\<lparr>q_op := ''deregister'', q_scope := ''host:PC'', q_session := ''broker-1''\<rparr>"

lemma probe_is_relay_row: "relay_row_caller broker_probe broker_store"
  by (simp add: relay_row_caller_def broker_probe_def zero_request_def relay_origin_def identity_of_def row_at_def
      broker_store_def office_def plain_agent_def broker_row_def at_session_def)

theorem request_changes_own_rows_witness:
  "\<exists>r. dispatch [] 0 broker_probe broker_store = (broker_store, r) \<and> rs_error r = ''unauthorized''"
proof -
  obtain s' r where run: "dispatch [] 0 broker_probe broker_store = (s', r)" by fastforce
  then show ?thesis
    using request_changes_own_rows [OF schema_ok_broker_store run] probe_is_relay_row by simp
qed

definition probe_json :: json where
  "probe_json = JObj [(''op'', JStr ''deregister''), (''scope'', JStr ''host:PC''), (''session_id'', JStr ''broker-1'')]"

definition probe_line :: string where
  "probe_line = json_print probe_json"

lemma request_keys:
  "find_field ''op'' request_fields = Some (put_text (\<lambda>t. q_op_update (\<lambda>_. t)))"
  "find_field ''scope'' request_fields = Some (put_text (\<lambda>t. q_scope_update (\<lambda>_. t)))"
  "find_field ''session_id'' request_fields = Some (put_text (\<lambda>t. q_session_update (\<lambda>_. t)))"
  by (rule find_field_map, simp add: request_fields_def)+

lemma probe_decodes: "decode_request probe_line = Some broker_probe"
proof -
  have "json_unmarshal probe_line = Some probe_json"
    unfolding probe_line_def
    by (rule unmarshal_printed) (simp_all add: probe_json_def valid_utf8_ascii is_ascii_def byte_def max_nesting_def)
  moreover have "dec_struct False request_fields probe_json zero_request = (broker_probe, True)"
    by (simp add: dec_struct_def probe_json_def request_keys broker_probe_def both_def)
  ultimately show ?thesis by (simp add: decode_request_def unmarshal_into_def Let_def)
qed

lemma daemon_ok_broker_store: "daemon_ok broker_store"
  unfolding daemon_ok_def
  by (intro conjI schema_ok_broker_store relay_single_broker_store)
    (auto simp: relay_ids_def broker_store_def office_def plain_agent_def broker_row_def relay_origin_def
      agent_key_def broker_load_def empty_store_def)

text \<open>
  What the guard of the dispatcher does not see: it looks the caller's own row up, and a subagent
  id makes the request act on another. A broker whose session has a slash can be retired from the
  unix socket by a caller naming the part before it as its session and the part after as its agent.
\<close>

definition slash_broker :: agent_row where
  "slash_broker = broker_row\<lparr>ar_session := ''host/1''\<rparr>"

definition slash_retire :: request where
  "slash_retire = zero_request\<lparr>q_op := ''deregister'', q_scope := ''host:PC'', q_session := ''host'', q_agent := ''1''\<rparr>"

lemma subagent_retires_broker:
  "agents (fst (dispatch [] 0 slash_retire (empty_store\<lparr>agents := [slash_broker]\<rparr>)))
     = [slash_broker\<lparr>ar_status := Gone, ar_seen := 0\<rparr>]"
  by (simp add: dispatch_def relay_row_caller_def slash_retire_def zero_request_def relay_origin_def identity_of_def
      row_at_def at_session_def slash_broker_def broker_row_def plain_agent_def retarget_def Let_def op_of_def op_names_def
      child_ops_def child_session_def bind_actor_def from_ops_def heartbeat_def task_report_def send_ops_def serve_def
      acting_session_def set_status_def empty_store_def unix_def)

text \<open>A second broker, whose session has a slash, and a caller of the unix socket that names it.\<close>

definition slash_store :: store where
  "slash_store = broker_store\<lparr>agents := agents broker_store @ [slash_broker\<lparr>ar_id := ''id-m'', ar_name := ''odd-ant''\<rparr>]\<rparr>"

definition slash_json :: json where
  "slash_json = JObj [(''op'', JStr ''deregister''), (''scope'', JStr ''host:PC''), (''session_id'', JStr ''host''),
     (''agent_id'', JStr ''1'')]"

lemma slash_decodes: "decode_request (json_print slash_json) = Some slash_retire"
proof -
  have "json_unmarshal (json_print slash_json) = Some slash_json"
    by (rule unmarshal_printed) (simp_all add: slash_json_def valid_utf8_ascii is_ascii_def byte_def max_nesting_def)
  moreover have key: "find_field ''agent_id'' request_fields = Some (put_text (\<lambda>t. q_agent_update (\<lambda>_. t)))"
    by (rule find_field_map, simp add: request_fields_def)
  have "dec_struct False request_fields slash_json zero_request = (slash_retire, True)"
    by (simp add: dec_struct_def slash_json_def request_keys key slash_retire_def both_def)
  ultimately show ?thesis by (simp add: decode_request_def unmarshal_into_def Let_def)
qed

lemma daemon_ok_slash_store: "daemon_ok slash_store"
  unfolding daemon_ok_def
  apply (intro conjI)
  subgoal by (simp add: schema_ok_def slash_store_def slash_broker_def broker_store_def office_def empty_store_def plain_agent_def broker_row_def
      agent_key_def agent_name_key_def)
  subgoal by (simp add: relay_single_def slash_store_def slash_broker_def broker_store_def office_def plain_agent_def broker_row_def relay_origin_def)
  by (auto simp: relay_ids_def slash_store_def slash_broker_def broker_store_def office_def plain_agent_def broker_row_def relay_origin_def
      agent_key_def broker_load_def empty_store_def)

theorem local_frame_spares_relay_rows_witness:
  "relay_rows (fst (answer None [] [] [] 0 probe_line broker_store)) = [broker_row] \<and>
   filter (\<lambda>x. agent_key x \<noteq> (''host:PC'', ''host/1'')) (relay_rows (fst (answer None [] [] [] 0 (json_print slash_json) slash_store))) = [broker_row]"
proof (intro conjI)
  obtain s' r where run: "answer None [] [] [] 0 probe_line broker_store = (s', r)" by fastforce
  have rows: "relay_rows broker_store = [broker_row]"
    by (simp add: relay_rows_def broker_store_def office_def plain_agent_def broker_row_def relay_origin_def)
  have "subagent_keys broker_probe = {}" by (simp add: subagent_keys_def broker_probe_def zero_request_def)
  then show "relay_rows (fst (answer None [] [] [] 0 probe_line broker_store)) = [broker_row]"
    using local_frame_spares_relay_rows [OF daemon_ok_broker_store probe_decodes run] run rows by simp
next
  obtain s' r where run: "answer None [] [] [] 0 (json_print slash_json) slash_store = (s', r)" by fastforce
  have keys: "subagent_keys slash_retire = {(''host:PC'', ''host/1'')}"
    by (simp add: subagent_keys_def slash_retire_def zero_request_def child_session_def)
  have rows: "relay_rows slash_store = [broker_row, slash_broker\<lparr>ar_id := ''id-m'', ar_name := ''odd-ant''\<rparr>]"
    by (simp add: relay_rows_def slash_store_def slash_broker_def broker_store_def office_def plain_agent_def broker_row_def relay_origin_def)
  show "filter (\<lambda>x. agent_key x \<noteq> (''host:PC'', ''host/1'')) (relay_rows (fst (answer None [] [] [] 0 (json_print slash_json) slash_store))) = [broker_row]"
    using local_frame_spares_relay_rows [OF daemon_ok_slash_store slash_decodes run]
    unfolding run rows keys fst_conv
    by (simp add: agent_key_def slash_broker_def broker_row_def plain_agent_def)
qed

section \<open>The gate\<close>

lemma decide_Pass:
  assumes "decide g fresh now q claimed s = (s', Pass q')"
  obtains i where "s' = s" and "token_ok g q" and "op_of (q_op q) \<in> set relay_ops" and "op_of (q_op q) \<noteq> OpRegister"
    and "q_session q \<noteq> []" and "verify_relay_secret (q_session q) (q_secret q) s = Inr i" and "q' = as_row i q"
  using assms that by (auto simp: decide_def Let_def split: if_splits sum.splits prod.splits)

text \<open>
  C2. What the gate passes on is authenticated: the shared token holds, the op is on the relay's
  list and is no registration, the session names a relay row whose secret the request proves, and
  the request goes on as that row - its workspace, name and kind, no subagent, the relay's origin,
  and no task id on mail - with the store untouched. Whatever the frame claimed to be is gone.
\<close>

theorem gate_passes_authenticated:
  assumes "decide g fresh now q claimed s = (s', Pass q')"
  shows "s' = s \<and> token_ok g q \<and> op_of (q_op q) \<in> set relay_ops - {OpRegister} \<and> q_session q \<noteq> [] \<and>
    (\<exists>x \<in> set (agents s). ar_session x = q_session q \<and> ar_origin x = relay_origin \<and>
       ar_secret x = sha256_hex (q_secret q) \<and> q_scope q' = ar_scope x \<and> q_from q' = ar_name x \<and>
       q_kind q' = ar_kind x \<and> q_session q' = q_session q \<and> q_agent q' = [] \<and> q_origin q' = relay_origin \<and>
       q_op q' = q_op q \<and> (op_of (q_op q) \<in> set send_ops \<longrightarrow> q_task q' = []))"
proof -
  obtain i where p: "s' = s" "token_ok g q" "op_of (q_op q) \<in> set relay_ops" "op_of (q_op q) \<noteq> OpRegister"
    "q_session q \<noteq> []" and v: "verify_relay_secret (q_session q) (q_secret q) s = Inr i" and q': "q' = as_row i q"
    using assms by (rule decide_Pass)
  obtain x where x: "first_row_of (q_session q) s = Some x" "ar_origin x = relay_origin"
      "sha256_hex (q_secret q) = ar_secret x" "i = identity_row x"
    using v by (auto simp: verify_relay_secret_def agent_by_session_def identity_row_def bind_sum_Inr_iff
        split: option.splits if_splits)
  then show ?thesis
    using p q' first_row_ofD [OF x(1)] by (auto simp: as_row_def identity_row_def)
qed

definition broker_read :: request where
  "broker_read = zero_request\<lparr>q_op := ''read'', q_scope := ''ws'', q_from := ''brave-fox'', q_session := ''broker-1'',
     q_secret := ''s'', q_token := ''t''\<rparr>"

lemma broker_row_verified: "verify_relay_secret ''broker-1'' ''s'' broker_store = Inr (identity_row broker_row)"
proof -
  have "broker_row \<in> set (agents broker_store)" by (simp add: broker_store_def)
  from relay_row_is_first [OF relay_single_broker_store this]
  have "first_row_of ''broker-1'' broker_store = Some broker_row"
    by (simp add: broker_row_def plain_agent_def)
  then show ?thesis
    by (simp add: verify_relay_secret_def agent_by_session_def identity_row_def broker_row_def plain_agent_def)
qed

theorem gate_passes_authenticated_witness:
  "\<exists>q'. decide \<lparr>gt_token = ''t'', gt_insecure = False\<rparr> [] 0 broker_read [] broker_store = (broker_store, Pass q') \<and>
     q_scope q' = ''host:PC'' \<and> q_from q' = ''keen-owl''"
proof -
  have d: "decide \<lparr>gt_token = ''t'', gt_insecure = False\<rparr> [] 0 broker_read [] broker_store
      = (broker_store, Pass (as_row (identity_row broker_row) broker_read))"
    using broker_row_verified
    by (simp add: decide_def token_ok_def broker_read_def zero_request_def op_of_def op_names_def relay_ops_def)
  from gate_passes_authenticated [OF d]
  have "\<exists>x \<in> set (agents broker_store). ar_session x = ''broker-1'' \<and>
     q_scope (as_row (identity_row broker_row) broker_read) = ar_scope x \<and>
     q_from (as_row (identity_row broker_row) broker_read) = ar_name x"
    by (auto simp: broker_read_def zero_request_def)
  then show ?thesis
    using d by (auto simp: broker_store_def office_def plain_agent_def broker_row_def)
qed

section \<open>What may leave over the relay\<close>

definition relay_text :: "string \<Rightarrow> bool" where
  "relay_text t \<longleftrightarrow> t \<in> {[], internal_error, unauthorized, not_allowed} \<or> (\<exists>w \<in> set wire_errors. has_prefix (err_text w) t)"

lemma has_prefix_refl [simp]: "has_prefix w w"
  by (simp add: has_prefix_iff)

lemma err_is_prefix: "err_is e w \<Longrightarrow> has_prefix (err_text w) (err_text e)"
proof (induction e)
  case (ErrWrapped e t)
  then show ?case by (auto simp: has_prefix_iff)
qed auto

lemma wire_error_text: "list_ex (err_is e) wire_errors \<Longrightarrow> \<exists>w \<in> set wire_errors. has_prefix (err_text w) (err_text e)"
  using err_is_prefix unfolding list_ex_iff by blast

lemma relay_error_texts: "relay_text (relay_error e)"
  using wire_error_text [of e] by (auto simp: relay_error_def relay_text_def internal_error_def unauthorized_def)

lemma relay_error_text_texts: "relay_text (relay_error_text t)"
  by (auto simp: relay_error_text_def relay_text_def list_ex_iff)

lemma registered_texts: "relay_text (rs_error (registered sc sess secret s))"
  using relay_error_texts
  by (auto simp: registered_def error_response_def ok_response_def no_response_def relay_text_def split: sum.split)

lemma gate_register_texts: "relay_text (rs_error (snd (gate_register q claimed fresh now s)))"
proof -
  have u: "relay_text unauthorized" "relay_text not_allowed" "relay_text ''foreign session''"
    by (simp_all add: relay_text_def wire_errors_def)
  have c: "relay_text (child_register_error e)" for e
    using relay_error_texts u by (simp add: child_register_error_def)
  show ?thesis
    using u c relay_error_texts registered_texts
    by (auto simp: gate_register_def register_launcher_def register_eyes_def error_response_def split: sum.split option.split)
qed

text \<open>
  Nothing but the documented texts leaves over the relay: the answer to a frame that is a
  request has no error, or one of the gate's three refusals, or a text that begins with one of the
  twelve wire errors - whatever op produced it.
\<close>

theorem relay_answers_documented_errors:
  "case answer (Some g) fresh suffix why now line s of (s', r) \<Rightarrow>
     relay_text (rs_error r) \<or> decode_request line = None \<and> rs_error r = ''bad request: '' @ why"
proof -
  have out: "relay_text (rs_error (outbound (Some g) r))" for r
    using relay_error_text_texts by (simp add: outbound_def relay_text_def)
  have dec: "relay_text (rs_error r)" if "decide g fresh now q claimed s = (s1, Answer r)" for q claimed s1 r
  proof -
    have u: "relay_text unauthorized" "relay_text not_allowed" by (simp_all add: relay_text_def)
    show ?thesis
      using that u relay_error_texts gate_register_texts [of q claimed fresh now s]
      by (auto simp: decide_def Let_def error_response_def split: if_splits sum.splits prod.splits)
  qed
  show ?thesis
    using out dec
    by (auto simp: answer_def check_def error_response_def Let_def split: option.split prod.split verdict.split)
qed

text \<open>
  Asking the relay for a task's child is no way to find out about tasks: unless the caller
  proved the secret of a launcher that holds that unsettled task, in the workspace that asked for
  it, the answer is the one refusal and nothing changes.
\<close>

theorem child_registration_is_no_oracle:
  assumes "register_eyes q fresh now s \<noteq> (s, error_response unauthorized)"
  shows "\<exists>t l. q_session q = ''eyes-'' @ et_task t \<and> eyes_task (et_task t) s = Inr t \<and> et_req_scope t = q_scope q \<and>
    l \<in> set (agents s) \<and> ar_session l = q_auth_session q \<and> ar_origin l = relay_origin \<and>
    ar_kind l = kind_launcher \<and> ar_secret l = sha256_hex (q_secret q) \<and>
    (rs_ok (snd (register_eyes q fresh now s)) \<longrightarrow> et_launcher t = q_auth_session q \<and> unsettled t)"
proof -
  obtain task where task: "cut_prefix ''eyes-'' (q_session q) = Some task"
    using assms by (cases "cut_prefix ''eyes-'' (q_session q)") (auto simp: register_eyes_def)
  then have sess: "q_session q = ''eyes-'' @ task"
    by (simp add: cut_prefix_Some)
  obtain i where i: "verify_relay_secret (q_auth_session q) (q_secret q) s = Inr i" "ri_kind i = kind_launcher"
    using assms task by (cases "verify_relay_secret (q_auth_session q) (q_secret q) s")
      (auto simp: register_eyes_def split: if_splits)
  obtain l where l: "first_row_of (q_auth_session q) s = Some l" "ar_origin l = relay_origin"
      "sha256_hex (q_secret q) = ar_secret l" "i = identity_row l"
    using i by (auto simp: verify_relay_secret_def agent_by_session_def identity_row_def bind_sum_Inr_iff
        split: option.splits if_splits)
  have proved: "q_auth_session q \<noteq> []" using assms task by (auto simp: register_eyes_def)
  note run = assms [unfolded register_eyes_def task option.case i(1) sum.case]
  obtain t where t: "eyes_task task s = Inr t"
    using run i(2) proved by (cases "eyes_task task s")
      (auto simp: child_register_error_def hidden_errors_def eyes_task_def split: option.splits)
  have id: "et_task t = task" using eyes_taskD [OF t] by simp
  have sc: "et_req_scope t = q_scope q"
    using run i(2) proved t by (auto split: if_splits)
  have "et_launcher t = q_auth_session q \<and> unsettled t" if "rs_ok (snd (register_eyes q fresh now s))"
  proof -
    have "\<exists>x. reissue_eyes_child task (q_auth_session q) (q_secret q) fresh now s = Inr x"
      using that task i proved t sc
      by (cases "reissue_eyes_child task (q_auth_session q) (q_secret q) fresh now s")
        (auto simp: register_eyes_def error_response_def no_response_def)
    then obtain s' name secret where "reissue_eyes_child task (q_auth_session q) (q_secret q) fresh now s = Inr (s', name, secret)"
      by (metis prod_cases3)
    then obtain u where "eyes_task task s = Inr u" "et_launcher u = q_auth_session q" "unsettled u"
      by (rule reissue_Inr)
    then show ?thesis using t by simp
  qed
  then show ?thesis
    using sess t id sc l i(2) first_row_ofD [OF l(1)] by (auto simp: identity_row_def)
qed

lemma registered_accepts: "registered sc sess secret s \<noteq> error_response unauthorized"
proof -
  have "error_response internal_error \<noteq> error_response unauthorized"
    by (simp add: error_response_def no_response_def internal_error_def unauthorized_def)
  moreover have "ok_response\<lparr>rs_name := n, rs_agent := a, rs_secret := secret\<rparr> \<noteq> error_response unauthorized" for n a
    by (simp add: ok_response_def no_response_def error_response_def)
  moreover have "relay_error err_no_session_row = internal_error"
    by (simp add: relay_error_def err_no_session_row_def wire_errors_def)
  ultimately show ?thesis by (auto simp: registered_def identity_of_def split: option.split)
qed

definition child_request :: request where
  "child_request = zero_request\<lparr>q_op := ''register'', q_scope := ''ws'', q_session := eyes_session (task_prefix @ ''0123456789ab''),
     q_auth_session := ''broker-1'', q_secret := ''s''\<rparr>"

theorem child_registration_is_no_oracle_witness:
  "\<exists>t. eyes_task (task_prefix @ ''0123456789ab'') child_store = Inr t \<and>
     register_eyes child_request ''child'' (from_unix 130) child_store \<noteq> (child_store, error_response unauthorized)"
proof -
  let ?q = child_request
  obtain s' name where run: "reissue_eyes_child (task_prefix @ ''0123456789ab'') ''broker-1'' ''s'' ''child'' (from_unix 130)
      child_store = Inr (s', name, ''child'')"
    using child_reissued by blast
  have task: "cut_prefix ''eyes-'' (q_session ?q) = Some (task_prefix @ ''0123456789ab'')"
    by (simp add: cut_prefix_Some child_request_def eyes_session_def)
  have "broker_row \<in> set (agents child_store)" "ar_origin broker_row = relay_origin"
    by (simp_all add: child_store_def launched_store_def broker_store_def broker_row_def)
  from relay_row_is_first [OF relay_single_child_store this]
  have "first_row_of ''broker-1'' child_store = Some broker_row" by (simp add: broker_row_def plain_agent_def)
  then have i: "verify_relay_secret ''broker-1'' ''s'' child_store = Inr (identity_row broker_row)"
    by (simp add: verify_relay_secret_def agent_by_session_def identity_row_def broker_row_def plain_agent_def)
  have t: "eyes_task (task_prefix @ ''0123456789ab'') child_store = Inr launched_row"
    using launched_task by (simp add: eyes_task_def child_store_def)
  have fields: "q_auth_session ?q = ''broker-1''" "q_secret ?q = ''s''" "q_scope ?q = et_req_scope launched_row"
    "ri_kind (identity_row broker_row) = kind_launcher"
    by (simp_all add: child_request_def desk_defs identity_row_def)
  have "snd (register_eyes ?q ''child'' (from_unix 130) child_store) = registered (et_req_scope launched_row) (q_session ?q) ''child'' s'"
    by (simp add: register_eyes_def task fields i t run)
  then have ne: "register_eyes ?q ''child'' (from_unix 130) child_store \<noteq> (child_store, error_response unauthorized)"
    using registered_accepts by (metis snd_conv)
  from child_registration_is_no_oracle [OF ne] show ?thesis using ne t by blast
qed

section \<open>Mail of the lifecycle\<close>

lemma child_loop_messages:
  "child_loop quiet sc child parent pname typ at ns s = (s', res) \<Longrightarrow> messages s' = messages s"
proof (induction ns arbitrary: s)
  case (Cons n ns)
  have ins: "insert_agent r s = Some t \<Longrightarrow> messages t = messages s" for r s t
    by (auto simp: insert_agent_def split: if_splits)
  show ?case using Cons by (auto simp: Let_def ins split: if_splits option.splits)
qed auto

lemma register_child_messages:
  assumes "register_child quiet quiet sc parent sub typ now s = (s', res)"
  shows "messages s' = messages s"
proof (cases "row_at sc (child_session parent sub) s")
  case (Some r)
  then show ?thesis using assms by (auto simp: register_child_def Let_def refresh_def)
next
  case None
  obtain s1 pres where reg: "register quiet sc parent ''hook'' now s = (s1, pres)" by fastforce
  then show ?thesis
    using None assms register_frame(4) [OF reg] child_loop_messages
    by (cases pres) (fastforce simp: register_child_def Let_def)+
qed

lemma retarget_messages: "retarget now q s = (s', res) \<Longrightarrow> messages s' = messages s"
  using register_child_messages
  by (auto simp: retarget_def Let_def split: if_splits prod.splits sum.splits)

definition mailed :: "(message_row \<Rightarrow> bool) \<Rightarrow> store \<Rightarrow> store \<Rightarrow> bool" where
  "mailed P s s' \<longleftrightarrow> messages s' = messages s \<or> (\<exists>m. messages s' = messages s @ [m] \<and> P m)"

lemma mailed_send:
  assumes "send_to_scope d now s = Inr s'"
  shows "mailed (\<lambda>m. mr_task m = dv_task d \<and> mr_body m = dv_body d) s s'"
  using assms by (auto simp: mailed_def send_to_scope_Inr new_message_def Let_def)

lemma mailed_mono: "mailed P s s' \<Longrightarrow> (\<And>m. P m \<Longrightarrow> Q m) \<Longrightarrow> mailed Q s s'"
  by (auto simp: mailed_def)

lemma mailed_deliver:
  assumes "deliver_if d now s = Inr s'" and "\<And>x. d = Some x \<Longrightarrow> dv_task x = task"
  shows "mailed (\<lambda>m. mr_task m = task) s s'"
  using assms by (cases d) (auto simp: deliver_if_def mailed_def dest!: mailed_send)

lemma report_mailed:
  assumes "apply_report what task sample q me now s = (s', r)"
  shows "mailed (\<lambda>m. mr_task m = task) s s' \<and> (messages s' \<noteq> messages s \<longrightarrow> q_origin q = relay_origin)"
  using assms
proof (cases rule: apply_report_cases)
  case (move to t m)
  have lifecycle: "to \<noteq> ''cancelled''" using move(3) by (auto simp: task_state_of_def split: if_splits)
  show ?thesis
    using move(1)
  proof (cases rule: move_eyes_Inr)
    case (moves target edge t role froms d)
    have "dv_task x = task" if "d = Some x" for x
      using eyes_mail_Some [OF moves(6) [unfolded that]] eyes_taskD [OF moves(2)] by simp
    then have "mailed (\<lambda>m. mr_task m = task) s s'"
      using mailed_deliver [OF moves(7)] by (simp add: mailed_def)
    moreover have "role = RoleChild \<or> role = RoleLauncher"
      using moves(3,4) requester_cancels [of target edge role froms] edge_target_Some [OF moves(1)] lifecycle
      by (cases role; cases target) (auto simp: eyes_role_def actor_of_def split: if_splits)
    then have "q_origin q = relay_origin"
      using eyes_role_Some [OF moves(3)] by (auto simp: relay_actor_def actor_of_def)
    ultimately show ?thesis by simp
  qed (simp_all add: mailed_def)
next
  case (tick n d)
  obtain t role x where t: "eyes_task task s = Inr t" and role: "eyes_role t (actor_of q me) s = Some role"
      "role = RoleChild \<or> role = RoleLauncher"
    and x: "deliver_if x now (write_eyes_progress t n (unix now) s) = Inr s'"
      "if d then eyes_mail t role (actor_of q me) (progress_body t n (unix now))
             (write_eyes_progress t n (unix now) s) = Inr x else x = None"
    using tick(1) by (rule record_Inr)
  have "dv_task y = task" if "x = Some y" for y
    using x(2) that eyes_mail_Some eyes_taskD [OF t] by (fastforce split: if_splits)
  then have "mailed (\<lambda>m. mr_task m = task) s s'"
    using mailed_deliver [OF x(1)] by (simp add: mailed_def write_eyes_progress_def)
  then show ?thesis using role eyes_role_Some [OF role(1)] by (auto simp: relay_actor_def actor_of_def)
qed (simp add: mailed_def)

lemma task_report_None:
  assumes "op_of (q_op q) \<in> set send_ops"
  shows "task_report q me now s = None \<longleftrightarrow> \<not> snd (task_message_type (q_body q))"
  using assms by (auto simp: task_report_def Let_def split: prod.split option.split)

lemma valid_task_id: "decode_task_report what body = Some (task, sample) \<Longrightarrow> task \<noteq> []"
  by (auto simp: decode_task_report_def checked_def valid_progress_def valid_accepted_def valid_result_def valid_failed_def
      task_id_valid_def task_prefix_def split: if_splits option.splits)

lemma send_op_serves:
  assumes "op_of (q_op q) \<in> set send_ops" and "serve suffix now q me broker child name s = (s', r)"
  shows "mailed (\<lambda>m. mr_task m = [] \<and> mr_body m = q_body q) s s'"
proof -
  have run: "mailed (\<lambda>m. mr_task m = [] \<and> mr_body m = q_body q) s t"
    if "run_op s (send_to_scope d now s) = (t, x)" "dv_task d = []" "dv_body d = q_body q" for d t x
    using that mailed_send [of d now s]
    by (cases "send_to_scope d now s") (auto simp: run_op_def mailed_def)
  show ?thesis
    using assms run
    by (auto simp: send_ops_def serve_def send_def broadcast_def plain_delivery_def workspace_delivery_def)
qed

lemma dispatch_stages:
  assumes "dispatch suffix now q s = (s', r)"
  obtains (early) "messages s' = messages s"
  | (served) q' me broker child name s2 where "same_caller q q'" and "messages s2 = messages s"
      and "(case task_report q' me now s2 of Some a \<Rightarrow> a | None \<Rightarrow> serve suffix now q' me broker child name s2) = (s', r)"
proof (cases "relay_row_caller q s")
  case True
  then show thesis using assms by (intro early) (simp add: dispatch_def)
next
  case no: False
  obtain s1 res where re: "retarget now q s = (s1, res)" by fastforce
  note ms = retarget_messages [OF re]
  show thesis
  proof (cases res)
    case (Inl x)
    then show thesis using assms no re ms by (intro early) (simp add: dispatch_def)
  next
    case (Inr y)
    obtain q1 child name where y: "y = (q1, child, name)" by (metis prod_cases3)
    have same1: "same_caller q q1"
      using re unfolding Inr y by (auto simp: retarget_def Let_def split: if_splits prod.splits sum.splits)
    show thesis
    proof (cases "bind_actor q1 s1")
      case (Inl e)
      then show thesis using assms no re Inr y ms by (intro early) (simp add: dispatch_def)
    next
      case act: (Inr z)
      obtain q2 me broker where z: "z = (q2, me, broker)" by (metis prod_cases3)
      have "same_caller q q2" using same1 bind_actor_same [OF act [unfolded z]] by (auto simp: same_caller_def)
      moreover have "messages (heartbeat now q2 s1) = messages s" using ms by (simp add: heartbeat_def touch_def)
      ultimately show thesis
        using assms no re Inr y act z by (intro served [of q2 "heartbeat now q2 s1" me broker child name])
          (simp_all add: dispatch_def Let_def)
    qed
  qed
qed

lemma fold_touch_messages: "messages (fold (touch_file sc aid at) ps s) = messages s"
  by (induction ps arbitrary: s) (simp_all add: touch_file_def Let_def)

lemma insert_tasks_messages: "insert_tasks sc aid at evs s = (s', res) \<Longrightarrow> messages s' = messages s"
  by (induction evs arbitrary: s) (auto split: option.splits)

lemma claim_messages: "claim quiet clk sc w path note s = (s', res) \<Longrightarrow> messages s' = messages s"
proof -
  have loop: "messages t = messages s" if "claim_loop quiet clk sc aid p note claim_attempts s = (t, r)" for aid p t r
    using that unfolding claim_attempts_def claim_loop_cons Let_def
    by (auto simp: rewrite_claims_def split: option.splits if_splits prod.splits)
  then show "claim quiet clk sc w path note s = (s', res) \<Longrightarrow> messages s' = messages s"
    by (auto simp: claim_def Let_def split: if_splits sum.splits)
qed

lemma release_messages: "release id sc w path now s = (s', res) \<Longrightarrow> messages s' = messages s"
  by (auto simp: release_def Let_def split: sum.splits option.splits if_splits)

lemma notices_messages: "notices_for sc aid ws now s = (s', lines) \<Longrightarrow> messages s' = messages s"
  using notices_mail(1) [of sc aid ws now s s' lines] by simp

lemma record_event_messages:
  assumes "record_event sc sess q now s = (s', res)"
  shows "messages s' = messages s"
proof -
  obtain s1 r where reg: "register quiet sc sess ''event'' now s = (s1, r)" by fastforce
  note m1 = register_frame(4) [OF reg]
  show ?thesis
  proof (cases r)
    case (Inl e)
    then show ?thesis using assms reg m1 by (simp add: record_event_def)
  next
    case (Inr name)
    let ?aid = "agent_id sess" and ?at = "unix now"
    let ?s2 = "fold (touch_file sc ?aid ?at) (items (q_writes q)) (log_event sc ?aid q ?at s1)"
    have m2: "messages ?s2 = messages s" using m1 by (simp add: fold_touch_messages log_event_def)
    obtain s3 e where rep: "(if q_replace q then replace_tasks sc ?aid ?at (items (q_tasks q)) ?s2 else (?s2, None)) = (s3, e)"
      by fastforce
    then have m3: "messages s3 = messages s"
      using m2 insert_tasks_messages by (fastforce simp: replace_tasks_def split: if_splits)
    let ?s4 = "case q_task_ev q of None \<Rightarrow> s3 | Some ev \<Rightarrow> apply_task_event sc ?aid ?at ev s3"
    have m4: "messages ?s4 = messages s" using m3 by (simp add: apply_task_event_def Let_def split: option.split)
    have "s' = s3 \<or> s' = ?s4 \<or> (\<exists>lines. notices_for sc ?aid (items (q_writes q)) now ?s4 = (s', lines))"
      using assms reg Inr rep by (auto simp: record_event_def Let_def split: if_splits prod.splits option.splits)
    then show ?thesis using m3 m4 notices_messages by metis
  qed
qed

text \<open>The mail the daemon composes itself: the launch of a new task and the cancel of one.\<close>

definition composed :: "request \<Rightarrow> message_row \<Rightarrow> bool" where
  "composed q m \<longleftrightarrow>
     (op_of (q_op q) = OpRequestEyes \<and> is_ledger m \<and>
        (\<exists>req runtime. rq_brief req = q_brief q \<and> rq_deadline req = q_deadline q \<and> mr_body m = launch_body req (mr_task m) runtime)) \<or>
     (op_of (q_op q) = OpCancelEyes \<and> mr_task m = q_task q \<and> q_origin q = [] \<and>
        mr_body m = json_print (cancel_json \<lparr>cm_type = task_cancel_type, cm_task = q_task q\<rparr>))"

lemma request_eyes_mailed:
  assumes "on_request_eyes suffix now q me s = (s', r)" and "op_of (q_op q) = OpRequestEyes"
  shows "mailed (composed q) s s'"
proof (cases "assign_eyes_task \<lparr>rq_requester = me, rq_runtime = q_runtime q, rq_brief = q_brief q,
    rq_deadline = q_deadline q\<rparr> suffix now s")
  case (Inr x)
  let ?req = "\<lparr>rq_requester = me, rq_runtime = q_runtime q, rq_brief = q_brief q, rq_deadline = q_deadline q\<rparr>"
  obtain s2 t ref where x: "x = (s2, t, ref)" by (metis prod_cases3)
  then have s2: "s2 = s'" using assms(1) Inr by (simp add: on_request_eyes_def)
  obtain l runtime where "send_to_scope (launch_delivery ?req (task_prefix @ suffix) runtime l) now
      (s\<lparr>eyes_tasks := eyes_tasks s @ [t]\<rparr>) = Inr s'"
    using Inr unfolding x s2 by (rule assign_Inr)
  from mailed_send [OF this] have "mailed (\<lambda>m. mr_task m = task_prefix @ suffix \<and>
      mr_body m = launch_body ?req (task_prefix @ suffix) runtime) s s'"
    by (simp add: mailed_def launch_delivery_def)
  moreover have "composed q m" if "mr_task m = task_prefix @ suffix"
      "mr_body m = launch_body ?req (task_prefix @ suffix) runtime" for m
    using that assms(2) unfolding composed_def
    by (intro disjI1 conjI exI [of _ ?req] exI [of _ runtime]) (simp_all add: is_ledger_def task_prefix_def)
  ultimately show ?thesis using mailed_mono by blast
qed (use assms in \<open>simp add: on_request_eyes_def mailed_def\<close>)

lemma cancel_eyes_mailed:
  assumes "on_cancel_eyes now q me s = (s', r)" and "op_of (q_op q) = OpCancelEyes"
  shows "mailed (composed q) s s'"
proof (cases "move_eyes_task (q_task q) ''cancelled'' (actor_of q me) [] now s")
  case (Inr x)
  obtain s2 t moved where x: "x = (s2, t, moved)" by (metis prod_cases3)
  then have s2: "s2 = s'" using assms(1) Inr by (simp add: on_cancel_eyes_def cancel_eyes_task_def)
  show ?thesis
    using Inr unfolding x s2
  proof (cases rule: move_eyes_Inr)
    case (moves target edge u role froms d)
    have edge: "target = Cancelled" "role = RoleRequester"
      using edge_target_Some [OF moves(1)] requester_cancels [of target edge role froms] moves(4)
      by (cases target; auto)+
    have local: "q_origin q = []" using eyes_role_Some [OF moves(3)] edge(2) by (simp add: local_actor_def actor_of_def)
    show ?thesis
    proof (cases d)
      case None
      then show ?thesis using moves(7) by (auto simp: deliver_if_def mailed_def)
    next
      case (Some y)
      have "dv_task y = q_task q" "dv_body y = json_print (cancel_json \<lparr>cm_type = task_cancel_type, cm_task = q_task q\<rparr>)"
        using eyes_mail_Some [OF moves(6) [unfolded Some]] edge(2) eyes_taskD [OF moves(2)]
        by (auto simp: cancel_delivery_def)
      then show ?thesis
        using mailed_send [of y now _ s'] moves(7) local assms(2) Some
        by (fastforce simp: deliver_if_def mailed_def composed_def)
    qed
  qed (simp_all add: mailed_def)
qed (use assms in \<open>simp add: on_cancel_eyes_def cancel_eyes_task_def mailed_def\<close>)

lemma other_op_serves:
  assumes "op_of (q_op q) \<notin> set send_ops" and "serve suffix now q me broker child name s = (s', r)"
  shows "mailed (composed q) s s'"
proof -
  have keep: "mailed (composed q) s t" if "messages t = messages s" for t using that by (simp add: mailed_def)
  have reg: "messages s' = messages s" if "on_register now q s = (s', r)"
    using that register_frame(4)
    by (auto simp: on_register_def register_if_no_live_hook_def split: if_splits prod.splits sum.splits)
  have idle: "messages s' = messages s" if "on_idle now q child s = (s', r)"
    using that notices_messages by (fastforce simp: on_idle_def Let_def pending_notices_def set_status_def split: if_splits prod.splits)
  have event: "messages s' = messages s" if "on_event now q child name s = (s', r)"
    using that record_event_messages by (auto simp: on_event_def split: prod.splits sum.splits)
  have read: "messages s' = messages s" if "on_read now q broker s = (s', r)"
    using that by (auto simp: on_read_def split: sum.splits elim: read_inbox_Inr)
  have claim: "messages s' = messages s" if "on_claim now q s = (s', r)"
    using that claim_messages by (auto simp: on_claim_def split: prod.splits sum.splits)
  have rel: "messages s' = messages s" if "on_release now q s = (s', r)"
    using that release_messages by (auto simp: on_release_def split: prod.splits sum.splits)
  show ?thesis
    using assms keep reg idle event read claim rel request_eyes_mailed cancel_eyes_mailed
    by (cases "op_of (q_op q)") (auto simp: serve_def send_ops_def set_status_def)
qed


lemma composed_same: "same_caller q q' \<Longrightarrow> composed q' m \<longleftrightarrow> composed q m"
  by (auto simp: same_caller_def composed_def)

text \<open>
  C9. What mail one request can leave, whichever op it is and wherever it comes from. It adds at most
  one message. For the three ops that send (\<open>send\<close>, \<open>broadcast\<close>, \<open>send_workspace\<close>) the message is
  stamped with a task exactly when the body handed in is of the reserved family, and then only a
  caller the relay authenticated can have caused it; otherwise it is the body as it was handed in,
  stamped with no task. Of the other ops only two write mail, both composed by the daemon
  (\<open>composed\<close>): \<open>request_eyes\<close> the launch of the brief it was given, stamped with a task, and
  \<open>cancel_eyes\<close>, from a caller on the unix socket, the cancel of the task it names. The mail of the
  deadline sweep belongs to no request.
\<close>

theorem request_mail_is_vetted:
  assumes "dispatch suffix now q s = (s', r)"
  shows "messages s' = messages s \<or> (\<exists>m. messages s' = messages s @ [m] \<and>
      (if op_of (q_op q) \<notin> set send_ops then composed q m
       else if snd (task_message_type (q_body q)) then is_ledger m \<and> q_origin q = relay_origin
       else \<not> is_ledger m \<and> mr_body m = q_body q))"
  using assms
proof (cases rule: dispatch_stages)
  case (served q' me broker child name s2)
  note same = same_callerD [OF served(1)]
  show ?thesis
  proof (cases "op_of (q_op q) \<in> set send_ops \<and> snd (task_message_type (q_body q))")
    case True
    then have op: "op_of (q_op q') \<in> set send_ops" using same by simp
    from True obtain a where "task_report q' me now s2 = Some a" using task_report_None [OF op] same by fastforce
    then have "task_report q' me now s2 = Some (s', r)" using served(3) by simp
    then show ?thesis
    proof (cases rule: task_report_Some)
      case (applied what task sample)
      have "mailed (\<lambda>m. mr_task m = task) s2 s'" "messages s' \<noteq> messages s2 \<longrightarrow> q_origin q = relay_origin"
        using report_mailed [OF applied(1)] same by auto
      then show ?thesis
        using valid_task_id [OF applied(2)] True served(2) by (auto simp: mailed_def is_ledger_def)
    qed (use served(2) in simp_all)
  next
    case False
    then have "task_report q' me now s2 = None"
      using task_report_None [of q'] same by (auto simp: task_report_def)
    then have run: "serve suffix now q' me broker child name s2 = (s', r)" using served(3) by simp
    show ?thesis
    proof (cases "op_of (q_op q) \<in> set send_ops")
      case True
      then show ?thesis
        using send_op_serves [OF _ run] served(2) False same by (auto simp: mailed_def is_ledger_def)
    next
      case other: False
      then show ?thesis
        using other_op_serves [OF _ run] served(2) same composed_same [OF served(1)] by (auto simp: mailed_def)
    qed
  qed
qed simp

definition forged_mail :: request where
  "forged_mail = zero_request\<lparr>q_op := ''send'', q_scope := ''ws'', q_session := ''sess-a'', q_from := ''brave-fox'',
     q_to := ''keen-owl'', q_body := ''{\"type\":\"task.launch\"}''\<rparr>"

lemma forged_is_reserved: "snd (task_message_type (q_body forged_mail))"
proof -
  have quiet: "json_string w = dquote # w @ [dquote]" if "list_all plain_char w" for w using that by (rule plain_text)
  have "json_print (JObj [(''type'', JStr ''task.launch'')]) = q_body forged_mail"
    by (simp add: quiet forged_mail_def plain_char_def byte_def)
  then show ?thesis
    using message_type_of_print [of "''task.launch''" "[]"]
    by (simp add: valid_utf8_ascii is_ascii_def byte_def reserved_prefix_def)
qed

definition plain_mail :: request where
  "plain_mail = zero_request\<lparr>q_op := ''send'', q_scope := ''ws'', q_session := ''a'',
     q_to := ''deft-owl'', q_body := ''hello''\<rparr>"

lemma plain_is_not_reserved: "\<not> snd (task_message_type (q_body plain_mail))"
proof -
  have "task_message_type ''hello'' = ([], False)" by code_simp
  then show ?thesis by (simp add: plain_mail_def)
qed

lemma plain_mail_sent: "messages (fst (dispatch [] 0 plain_mail office)) \<noteq> messages office"
proof -
  have op: "op_of (q_op plain_mail) = OpSend" by (simp add: plain_mail_def op_of_def op_names_def)
  have f: "q_scope plain_mail = ''ws''" "q_session plain_mail = ''a''" "q_origin plain_mail = []" "q_agent plain_mail = []"
    "q_from plain_mail = []" "q_to plain_mail = ''deft-owl''" "q_body plain_mail = ''hello''"
    by (simp_all add: plain_mail_def zero_request_def)
  obtain i where i: "identity_of ''ws'' ''a'' office = Inr i" "id_origin i = []" "id_name i = ''calm-fox''"
    by (simp add: identity_of_def row_at_def at_session_def office_def plain_agent_def)
  have calm: "\<not> relay_row_caller plain_mail office" by (simp add: relay_row_caller_def f i relay_origin_def)
  have re: "retarget 0 plain_mail office = (office, Inr (plain_mail, [], []))" by (simp add: retarget_def f)
  let ?q = "plain_mail\<lparr>q_from := ''calm-fox''\<rparr>" and ?s = "touch ''ws'' ''a'' 0 office"
  obtain me where act: "bind_actor plain_mail office = Inr (?q, me, False)"
    by (simp add: bind_actor_def op from_ops_def f i resolve_actor_def relay_origin_def)
  have beat: "heartbeat 0 ?q office = ?s" by (simp add: heartbeat_def f op)
  have quiet: "task_report ?q me 0 ?s = None" using plain_is_not_reserved by (simp add: task_report_None op send_ops_def)
  have run: "fst (dispatch [] 0 plain_mail office) = fst (run_op ?s (send ''ws'' ''calm-fox'' ''deft-owl'' ''hello'' 0 ?s))"
    by (simp add: dispatch_def calm re act Let_def beat quiet serve_def op f)
  have "\<exists>s'. send ''ws'' ''calm-fox'' ''deft-owl'' ''hello'' 0 ?s = Inr s' \<and> messages s' \<noteq> []"
    by (simp add: send_def send_to_scope_def plain_delivery_def delivery_sender_def no_sender_def
        empty_ref_def resolve_sender_def row_named_def goes_by_def touch_def heard_from_def update_where_def at_session_def office_def plain_agent_def
        delivery_targets_def resolve_agent_def empty_store_def insert_row_def Let_def)
  then show ?thesis unfolding run by (auto simp: run_op_def office_def empty_store_def)
qed

theorem request_mail_is_vetted_witness:
  "messages (fst (dispatch [] 0 forged_mail office)) = [] \<and>
   (\<exists>m. messages (fst (dispatch [] 0 plain_mail office)) = [m] \<and> \<not> is_ledger m \<and> mr_body m = ''hello'')"
proof (intro conjI)
  have none: "messages office = []" by (simp add: office_def empty_store_def)
  have op: "op_of (q_op forged_mail) \<in> set send_ops" "op_of (q_op plain_mail) \<in> set send_ops"
    by (simp_all add: forged_mail_def plain_mail_def op_of_def op_names_def send_ops_def)
  have "q_origin forged_mail \<noteq> relay_origin" by (simp add: forged_mail_def zero_request_def relay_origin_def)
  then show "messages (fst (dispatch [] 0 forged_mail office)) = []"
    using request_mail_is_vetted [of "[]" 0 forged_mail office] op(1) forged_is_reserved none by (metis prod.collapse)
  show "\<exists>m. messages (fst (dispatch [] 0 plain_mail office)) = [m] \<and> \<not> is_ledger m \<and> mr_body m = ''hello''"
    using request_mail_is_vetted [of "[]" 0 plain_mail office, OF prod.collapse [symmetric]] op(2)
      plain_is_not_reserved plain_mail_sent none
    by (auto simp: plain_mail_def)
qed

section \<open>Frames\<close>

definition visible :: "string \<Rightarrow> bool" where
  "visible t \<longleftrightarrow> list_all (\<lambda>c. 32 \<le> byte c) t"

lemma visible_simps [simp]:
  "visible []" "visible (c # t) \<longleftrightarrow> 32 \<le> byte c \<and> visible t" "visible (a @ b) \<longleftrightarrow> visible a \<and> visible b"
  by (simp_all add: visible_def)

lemma visible_concat: "visible (concat ts) \<longleftrightarrow> list_all visible ts"
  by (induction ts) simp_all

lemma visible_join: "visible sep \<Longrightarrow> list_all visible ts \<Longrightarrow> visible (join sep ts)"
  by (induction ts) (simp_all add: join_Cons)

lemma visible_hex: "visible (hex4_text n)"
  using hex4_text_hex(1) [of n] by (auto simp: visible_def list_all_iff byte_class_defs)

lemma visible_escape: "rb \<in> set (runes t) \<Longrightarrow> visible (escape_rune rb)"
proof -
  assume rb: "rb \<in> set (runes t)"
  obtain r bs where e: "rb = (r, bs)" by fastforce
  show ?thesis
  proof (cases "is_bad_rune rb")
    case True
    then have "escape_rune rb = backslash # ''ufffd''"
      by (auto simp: escape_rune_def is_bad_rune_def rune_error_def e)
    then show ?thesis by (simp add: byte_def)
  next
    case False
    then have g: "good_rune (r, bs)" using good_runes [OF rb] e by simp
    then have "visible (escape_rune (r, bs))"
    proof (cases rule: escape_rune_cases)
      case multi
      then have "\<forall>c \<in> set bs. 128 \<le> byte c" using good_rune_bytes(2) [OF g] by simp
      then show ?thesis using multi by (force simp: visible_def list_all_iff)
    qed (auto simp: byte_def visible_hex [unfolded byte_def])
    then show ?thesis by (simp add: e)
  qed
qed

lemma visible_json_string: "visible (json_string t)"
  using visible_escape [of _ t]
  by (auto simp: json_string_def escape_text_def visible_concat list_all_iff byte_def)

text \<open>Documents whose numbers are printed integers: every response is one.\<close>

fun printed :: "json \<Rightarrow> bool" where
  "printed (JNum t) = visible t"
| "printed (JArr js) = list_all printed js"
| "printed (JObj kvs) = list_all (\<lambda>(k, v). printed v) kvs"
| "printed j = True"

lemma visible_print: "printed j \<Longrightarrow> visible (json_print j)"
proof (induction j rule: json_print.induct)
  case (5 js)
  then show ?case by (auto simp: list_all_iff byte_def intro!: visible_join)
next
  case (6 kvs)
  then have "list_all visible (map (\<lambda>(k, v). json_string k @ '':'' @ json_print v) kvs)"
    by (fastforce simp: list_all_iff visible_json_string byte_def)
  then show ?case by (simp add: byte_def visible_join)
qed (simp_all add: byte_def visible_json_string)

lemma visible_nat: "visible (dec_nat n)"
  using dec_nat_digits [of n] by (auto simp: visible_def list_all_iff is_digit_def)

lemma printed_int [simp]: "printed (json_int i)"
  using visible_nat by (simp add: json_int_def dec_int_def byte_def)

lemma printed_opts [simp]:
  "list_all (\<lambda>(k, v). printed v) (opt_text k t)" "list_all (\<lambda>(k, v). printed v) (opt_int k i)"
  "list_all (\<lambda>(k, v). printed v) (opt_bool k b)" "list_all (\<lambda>(k, v). printed v) (opt_ref k r)"
  by (simp_all add: opt_text_def opt_int_def opt_bool_def opt_ref_def ref_json_def split: option.split)

lemma printed_list: "(\<And>x. printed (f x)) \<Longrightarrow> list_all (\<lambda>(k, v). printed v) (opt_list k f xs)"
  by (simp add: opt_list_def list_all_iff)

lemma printed_response: "printed (response_json r)"
proof -
  have "printed (agent_json a)" "printed (message_json m)" "printed (claim_json c)" "printed (history_json h)"
    "printed (workspace_json w)" "printed (task_info_json t)" for a m c h w t
    by (simp_all add: agent_json_def message_json_def claim_json_def history_json_def workspace_json_def
        task_info_json_def printed_list)
  then show ?thesis by (simp add: response_json_def printed_list)
qed

text \<open>
  Every frame that carries at least one byte is answered, on either socket and whatever it
  holds, by exactly one line: one JSON document without a newline in it, and a newline. An empty
  frame is answered by nothing and changes nothing.
\<close>

theorem one_line_per_frame:
  "case handle og fresh suffix why now bytes s of (s', out) \<Rightarrow>
     if bytes = [] then s' = s \<and> out = []
     else \<exists>r. out = json_print (response_json r) @ [newline] \<and> newline \<notin> set (json_print (response_json r))"
proof -
  have line: "read_frame bytes = [] \<longleftrightarrow> bytes = []"
    by (cases bytes) (auto simp: read_frame_def frame_limit_def Let_def)
  have "newline \<notin> set (json_print (response_json r))" for r
    using visible_print [OF printed_response, of r] by (auto simp: visible_def list_all_iff newline_def byte_chr)
  then show ?thesis using line by (auto simp: handle_def Let_def split: prod.split)
qed

end
