(* ===== verification/Stream.thy ===== *)
theory Stream
  imports Wire "HOL-Library.Sublist"
begin

text \<open>
  \<open>internal/hostrunner/stream.go\<close> and the capped buffer of \<open>runner.go\<close>: how the bytes a provider
  writes become progress samples and the one line the report is decoded from. The reader gets the
  bytes in whatever chunks the pipe delivers; the reference here is the list of lines, and the
  lemmas show that the chunks do not matter.
\<close>

section \<open>Bounds\<close>

definition max_report_bytes :: nat where "max_report_bytes = 1048576"
definition max_envelope_bytes :: nat where "max_envelope_bytes = 65536"
definition default_output :: nat where "default_output = max_report_bytes + max_envelope_bytes"
definition max_output :: nat where "max_output = 16777216"
definition max_tool_name_bytes :: nat where "max_tool_name_bytes = 64"
definition max_stream_line :: nat where "max_stream_line = default_output"
definition max_turns :: nat where "max_turns = 100000"

section \<open>The capped buffer\<close>

record capped_buffer =
  cb_buf :: string
  cb_limit :: nat
  cb_truncated :: bool

definition new_capped_buffer :: "nat \<Rightarrow> capped_buffer" where
  "new_capped_buffer limit = \<lparr>cb_buf = [], cb_limit = limit, cb_truncated = False\<rparr>"

definition capped_write :: "string \<Rightarrow> capped_buffer \<Rightarrow> capped_buffer" where
  "capped_write data b =
     (let remaining = int (cb_limit b) - int (length (cb_buf b)) in
      if remaining < int (length data)
      then b\<lparr>cb_truncated := True, cb_buf := cb_buf b @ take (nat remaining) data\<rparr>
      else b\<lparr>cb_buf := cb_buf b @ data\<rparr>)"

section \<open>Progress samples\<close>

record progress =
  pg_turns :: nat
  pg_tool :: string

record stream_event =
  se_turn :: bool
  se_tool :: string
  se_final :: bool

definition no_event :: stream_event where
  "no_event = \<lparr>se_turn = False, se_tool = [], se_final = False\<rparr>"

type_synonym stream_decoder = "string \<Rightarrow> stream_event"

definition tool_char :: "char \<Rightarrow> bool" where
  "tool_char c \<longleftrightarrow> is_lower c \<or> is_upper c \<or> is_digit c \<or> c = CHR ''_'' \<or> c = CHR ''-'' \<or> c = CHR ''.'' \<or> c = CHR '':''"

definition clean_tool_name :: "string \<Rightarrow> string" where
  "clean_tool_name name =
     (let name = (if length name > max_tool_name_bytes then take max_tool_name_bytes name else name) in
      if list_all tool_char name then name else [])"

section \<open>The reader\<close>

text \<open>\<open>st_offered\<close> is the sequence of samples handed to the pump.\<close>

record stream =
  st_pending :: string
  st_skip :: bool
  st_final :: string
  st_turns :: nat
  st_tool :: string
  st_offered :: "progress list"

definition new_stream_reader :: stream where
  "new_stream_reader = \<lparr>st_pending = [], st_skip = False, st_final = [], st_turns = 0, st_tool = [], st_offered = []\<rparr>"

definition newline :: char where
  "newline = chr 10"

definition buffer :: "string \<Rightarrow> stream \<Rightarrow> stream" where
  "buffer chunk r =
     (if st_skip r \<or> length (st_pending r) + length chunk > max_stream_line
      then r\<lparr>st_skip := True, st_pending := []\<rparr>
      else r\<lparr>st_pending := st_pending r @ chunk\<rparr>)"

text \<open>What a decoded line changes, once the buffer has let go of it.\<close>

definition observe :: "stream_decoder \<Rightarrow> string \<Rightarrow> stream \<Rightarrow> stream" where
  "observe decode line r =
     (let event = decode line;
          r = (if se_final event then r\<lparr>st_final := line\<rparr> else r);
          tool = clean_tool_name (se_tool event);
          r = (if tool \<noteq> [] then r\<lparr>st_tool := tool\<rparr> else r);
          r = (if se_turn event \<and> st_turns r < max_turns then r\<lparr>st_turns := st_turns r + 1\<rparr> else r);
          sample = \<lparr>pg_turns = st_turns r, pg_tool = st_tool r\<rparr>
      in if se_turn event \<or> se_tool event \<noteq> [] then r\<lparr>st_offered := st_offered r @ [sample]\<rparr> else r)"

definition flush :: "stream_decoder \<Rightarrow> stream \<Rightarrow> stream" where
  "flush decode r =
     (let line = st_pending r; skipped = st_skip r; r = r\<lparr>st_pending := [], st_skip := False\<rparr> in
      if skipped \<or> trim_space line = [] then r else observe decode line r)"

function stream_write :: "stream_decoder \<Rightarrow> string \<Rightarrow> stream \<Rightarrow> stream" where
  "stream_write decode data r =
     (if data = [] then r
      else case dropWhile (\<lambda>c. c \<noteq> newline) data of
        [] \<Rightarrow> buffer data r
      | _ # rest \<Rightarrow> stream_write decode rest
          (flush decode (buffer (takeWhile (\<lambda>c. c \<noteq> newline) data) r)))"
  by pat_completeness auto
termination
proof (relation "measure (\<lambda>(decode, data, r). length data)", goal_cases)
  case (2 decode data r c rest)
  then have "length (c # rest) \<le> length data" by (metis length_dropWhile_le)
  then show ?case by simp
qed simp

declare stream_write.simps [simp del]

text \<open>\<open>Close\<close>: the stream that ended without a newline is flushed.\<close>

definition stream_close :: "stream_decoder \<Rightarrow> stream \<Rightarrow> stream" where
  "stream_close decode r = flush decode r"

section \<open>The pump\<close>

text \<open>
  A channel of capacity one between the producer and the goroutine that calls back. Under the
  pump's mutex an offer always ends with its sample in the channel, in place of a stale one; a
  take is the goroutine receiving; closing lets the goroutine drain what is left.
\<close>

record pump =
  pp_closed :: bool
  pp_samples :: "progress option"
  pp_reported :: "progress list"

datatype pump_event = Offer progress | Take | ClosePump

definition new_pump :: pump where
  "new_pump = \<lparr>pp_closed = False, pp_samples = None, pp_reported = []\<rparr>"

definition pump_take :: "pump \<Rightarrow> pump" where
  "pump_take p = (case pp_samples p of None \<Rightarrow> p
     | Some s \<Rightarrow> p\<lparr>pp_samples := None, pp_reported := pp_reported p @ [s]\<rparr>)"

fun pump_step :: "pump_event \<Rightarrow> pump \<Rightarrow> pump" where
  "pump_step (Offer s) p = (if pp_closed p then p else p\<lparr>pp_samples := Some s\<rparr>)"
| "pump_step Take p = pump_take p"
| "pump_step ClosePump p = pump_take (p\<lparr>pp_closed := True\<rparr>)"

section \<open>Chunks do not matter\<close>

text \<open>The reference: the lines of the whole stream, one after the other.\<close>

definition take_line :: "stream_decoder \<Rightarrow> string \<Rightarrow> stream \<Rightarrow> stream" where
  "take_line decode line r =
     (if length line > max_stream_line \<or> trim_space line = [] then r else observe decode line r)"

definition stream_ok :: "stream \<Rightarrow> bool" where
  "stream_ok r \<longleftrightarrow> (st_skip r \<longrightarrow> st_pending r = []) \<and> length (st_pending r) \<le> max_stream_line"

definition stream_byte :: "stream_decoder \<Rightarrow> char \<Rightarrow> stream \<Rightarrow> stream" where
  "stream_byte decode c r = (if c = newline then flush decode r else buffer [c] r)"

lemma stream_ok_new: "stream_ok new_stream_reader"
  by (simp add: stream_ok_def new_stream_reader_def)

lemma stream_ok_buffer: "stream_ok r \<Longrightarrow> stream_ok (buffer chunk r)"
  by (auto simp: stream_ok_def buffer_def)

lemma observe_frame [simp]: "st_pending (observe decode line r) = st_pending r"
  "st_skip (observe decode line r) = st_skip r"
  by (simp_all add: observe_def Let_def)

lemma stream_ok_flush [simp]: "stream_ok (flush decode r)"
  by (simp add: stream_ok_def flush_def Let_def)

lemma buffer_append:
  "stream_ok r \<Longrightarrow> buffer (c # cs) r = buffer cs (buffer [c] r)"
  by (auto simp: buffer_def stream_ok_def)

lemma buffer_Nil: "stream_ok r \<Longrightarrow> buffer [] r = r"
  by (cases r) (auto simp: buffer_def stream_ok_def)

lemma fold_bytes_line:
  "newline \<notin> set cs \<Longrightarrow> stream_ok r \<Longrightarrow> fold (stream_byte decode) cs r = buffer cs r"
proof (induction cs arbitrary: r)
  case Nil
  then show ?case by (simp add: buffer_Nil)
next
  case (Cons c cs)
  then show ?case
    by (auto simp: stream_byte_def stream_ok_buffer buffer_append [symmetric])
qed

lemma stream_write_bytes:
  "stream_ok r \<Longrightarrow> stream_write decode data r = fold (stream_byte decode) data r"
proof (induction decode data r rule: stream_write.induct)
  case (1 decode data r)
  let ?line = "takeWhile (\<lambda>c. c \<noteq> newline) data"
  have line: "newline \<notin> set ?line" by (auto dest: set_takeWhileD)
  show ?case
  proof (cases "dropWhile (\<lambda>c. c \<noteq> newline) data")
    case Nil
    then have "newline \<notin> set data" by auto
    then show ?thesis
      using Nil "1.prems" by (subst stream_write.simps) (simp add: fold_bytes_line buffer_Nil del: dropWhile_eq_Nil_conv)
  next
    case (Cons c rest)
    then have c: "c = newline"
      using hd_dropWhile [of "\<lambda>c. c \<noteq> newline" data] by auto
    have data: "data = ?line @ newline # rest"
      using Cons c takeWhile_dropWhile_id [of "\<lambda>c. c \<noteq> newline" data] by simp
    then have "data \<noteq> []" by auto
    with "1.IH" [OF this Cons] have "stream_write decode rest (flush decode (buffer ?line r))
        = fold (stream_byte decode) rest (flush decode (buffer ?line r))" by simp
    moreover have "fold (stream_byte decode) data r
        = fold (stream_byte decode) rest (flush decode (buffer ?line r))"
      by (subst data) (simp add: fold_bytes_line [OF line "1.prems"] stream_byte_def)
    ultimately show ?thesis
      using Cons \<open>data \<noteq> []\<close> by (subst stream_write.simps) simp
  qed
qed

lemma stream_ok_bytes: "stream_ok r \<Longrightarrow> stream_ok (fold (stream_byte decode) data r)"
  by (induction data arbitrary: r) (auto simp: stream_byte_def stream_ok_buffer)

lemma stream_ok_write: "stream_ok r \<Longrightarrow> stream_ok (stream_write decode data r)"
  by (simp add: stream_write_bytes stream_ok_bytes)

lemma writes_bytes:
  "stream_ok r \<Longrightarrow> fold (stream_write decode) chunks r = fold (stream_byte decode) (concat chunks) r"
  by (induction chunks arbitrary: r) (auto simp: stream_write_bytes stream_ok_bytes)

text \<open>A line that fits its bound is what the buffer holds when the newline comes.\<close>

lemma flush_line:
  "st_pending r = [] \<Longrightarrow> \<not> st_skip r \<Longrightarrow> flush decode (buffer line r) = take_line decode line r"
  by (cases r) (auto simp: flush_def buffer_def take_line_def Let_def)

lemma take_line_frame [simp]: "st_pending (take_line decode line r) = st_pending r"
  "st_skip (take_line decode line r) = st_skip r"
  by (simp_all add: take_line_def)

lemma split_on_line:
  "newline \<notin> set line \<Longrightarrow> split_on newline (line @ newline # rest) = line # split_on newline rest"
  by (induction line) auto

lemma split_on_last: "newline \<notin> set line \<Longrightarrow> split_on newline line = [line]"
  by (induction line) auto

lemma bytes_lines:
  "st_pending r = [] \<Longrightarrow> \<not> st_skip r \<Longrightarrow>
   flush decode (fold (stream_byte decode) data r) = fold (take_line decode) (split_on newline data) r"
proof (induction data arbitrary: r rule: length_induct)
  case (1 data)
  let ?line = "takeWhile (\<lambda>c. c \<noteq> newline) data"
  have line: "newline \<notin> set ?line" by (auto dest: set_takeWhileD)
  have ok: "stream_ok r" using "1.prems" by (simp add: stream_ok_def)
  show ?case
  proof (cases "dropWhile (\<lambda>c. c \<noteq> newline) data")
    case Nil
    then have "newline \<notin> set data" by auto
    then show ?thesis using "1.prems" ok by (simp add: fold_bytes_line flush_line split_on_last)
  next
    case (Cons c rest)
    then have "c = newline" using hd_dropWhile [of "\<lambda>c. c \<noteq> newline" data] by auto
    then have data: "data = ?line @ newline # rest"
      using Cons takeWhile_dropWhile_id [of "\<lambda>c. c \<noteq> newline" data] by simp
    have "length rest < length data" by (subst data) simp
    with "1.IH" "1.prems" have "flush decode (fold (stream_byte decode) rest (take_line decode ?line r))
        = fold (take_line decode) (split_on newline rest) (take_line decode ?line r)" by simp
    moreover have "stream_byte decode newline (buffer ?line r) = take_line decode ?line r"
      using "1.prems" by (simp add: stream_byte_def flush_line)
    ultimately show ?thesis
      by (subst (1 2) data) (simp add: fold_bytes_line [OF line ok] split_on_line [OF line])
  qed
qed

section \<open>Bounds of what is kept and published\<close>

definition tool_ok :: "string \<Rightarrow> bool" where
  "tool_ok t \<longleftrightarrow> length t \<le> max_tool_name_bytes \<and> list_all tool_char t"

definition sample_ok :: "progress \<Rightarrow> bool" where
  "sample_ok p \<longleftrightarrow> pg_turns p \<le> max_turns \<and> tool_ok (pg_tool p)"

definition stream_bounded :: "stream \<Rightarrow> bool" where
  "stream_bounded r \<longleftrightarrow> stream_ok r \<and> length (st_final r) \<le> max_stream_line \<and> st_turns r \<le> max_turns \<and>
     tool_ok (st_tool r) \<and> list_all sample_ok (st_offered r) \<and>
     sorted (map pg_turns (st_offered r)) \<and> (\<forall>p \<in> set (st_offered r). pg_turns p \<le> st_turns r)"

lemma tool_ok_clean [simp]: "tool_ok (clean_tool_name name)"
  by (simp add: clean_tool_name_def tool_ok_def Let_def)

lemma stream_bounded_new: "stream_bounded new_stream_reader"
  by (simp add: stream_bounded_def stream_ok_def new_stream_reader_def tool_ok_def)

lemma stream_bounded_buffer: "stream_bounded r \<Longrightarrow> stream_bounded (buffer chunk r)"
  using stream_ok_buffer [of r chunk] by (auto simp: stream_bounded_def buffer_def)

lemma stream_bounded_observe:
  assumes "stream_bounded r" and "length line \<le> max_stream_line"
  shows "stream_bounded (observe decode line r)"
  using assms
  by (auto simp: stream_bounded_def observe_def stream_ok_def Let_def sample_ok_def sorted_append
      intro: le_SucI)

lemma stream_bounded_flush: "stream_bounded r \<Longrightarrow> stream_bounded (flush decode r)"
proof -
  assume r: "stream_bounded r"
  then have "stream_bounded (r\<lparr>st_pending := [], st_skip := False\<rparr>)" and "length (st_pending r) \<le> max_stream_line"
    by (auto simp: stream_bounded_def stream_ok_def)
  then show ?thesis by (auto simp: flush_def Let_def intro: stream_bounded_observe)
qed

lemma stream_bounded_write: "stream_bounded r \<Longrightarrow> stream_bounded (stream_write decode data r)"
proof -
  assume r: "stream_bounded r"
  have "stream_bounded (fold (stream_byte decode) data r)" if "stream_bounded r" for r
    using that by (induction data arbitrary: r)
      (auto simp: stream_byte_def stream_bounded_buffer stream_bounded_flush)
  then show ?thesis using r by (simp add: stream_write_bytes stream_bounded_def)
qed

lemma stream_bounded_writes: "stream_bounded r \<Longrightarrow> stream_bounded (fold (stream_write decode) chunks r)"
  by (induction chunks arbitrary: r) (auto simp: stream_bounded_write)

lemma capped_write_take:
  assumes "cb_buf b = take (cb_limit b) seen" and "cb_truncated b = (cb_limit b < length seen)"
  shows "capped_write data b =
    b\<lparr>cb_buf := take (cb_limit b) (seen @ data), cb_truncated := cb_limit b < length (seen @ data)\<rparr>"
  using assms by (cases b) (auto simp: capped_write_def Let_def nat_diff_distrib min_def)

lemma capped_writes:
  "fold capped_write chunks (new_capped_buffer limit) =
    \<lparr>cb_buf = take limit (concat chunks), cb_limit = limit, cb_truncated = limit < length (concat chunks)\<rparr>"
proof (induction chunks rule: rev_induct)
  case Nil
  then show ?case by (simp add: new_capped_buffer_def)
next
  case (snoc c cs)
  then show ?case by (simp add: capped_write_take [where seen = "concat cs"])
qed

section \<open>What the pump reports\<close>

definition offers :: "pump_event list \<Rightarrow> progress list" where
  "offers es = concat (map (\<lambda>e. case e of Offer s \<Rightarrow> [s] | _ \<Rightarrow> []) es)"

definition waiting :: "pump \<Rightarrow> progress list" where
  "waiting p = (case pp_samples p of None \<Rightarrow> [] | Some s \<Rightarrow> [s])"

lemma waiting_take [simp]: "pp_reported (pump_take p) @ waiting (pump_take p) = pp_reported p @ waiting p"
  "pp_closed (pump_take p) = pp_closed p" "pp_samples (pump_take p) = None"
  by (auto simp: pump_take_def waiting_def split: option.splits)

lemma offers_snoc [simp]: "offers (es @ [e]) = offers es @ (case e of Offer s \<Rightarrow> [s] | _ \<Rightarrow> [])"
  by (simp add: offers_def)

text \<open>Until it is closed the pump holds a subsequence of the offers that ends with the last one.\<close>

lemma pump_holds_last:
  assumes "ClosePump \<notin> set es" and "p = fold pump_step es new_pump"
  shows "\<not> pp_closed p \<and> subseq (pp_reported p @ waiting p) (offers es) \<and>
    (offers es \<noteq> [] \<longrightarrow> pp_reported p @ waiting p \<noteq> [] \<and> last (pp_reported p @ waiting p) = last (offers es))"
  using assms
proof (induction es arbitrary: p rule: rev_induct)
  case Nil
  then show ?case by (simp add: new_pump_def waiting_def offers_def)
next
  case (snoc e es)
  let ?p = "fold pump_step es new_pump"
  have IH: "\<not> pp_closed ?p" "subseq (pp_reported ?p @ waiting ?p) (offers es)"
    "offers es \<noteq> [] \<Longrightarrow> pp_reported ?p @ waiting ?p \<noteq> [] \<and> last (pp_reported ?p @ waiting ?p) = last (offers es)"
    using snoc by auto
  show ?case
  proof (cases e)
    case (Offer s)
    have "subseq (pp_reported ?p) (offers es)" 
      using subseq_order.trans [OF subseq_rev_drop_many [OF subseq_order.order_refl] IH(2)] .
    then show ?thesis
      using Offer IH(1) snoc.prems by (simp add: waiting_def list_emb_append_mono)
  next
    case Take
    then show ?thesis using IH snoc.prems by simp
  next
    case ClosePump
    then show ?thesis using snoc.prems by simp
  qed
qed

lemma pump_closed_still:
  "pp_closed p \<Longrightarrow> pp_samples p = None \<Longrightarrow> fold pump_step es p = p"
proof (induction es arbitrary: p)
  case (Cons e es)
  have "pump_step e p = p" using Cons.prems by (cases e; cases p) (auto simp: pump_take_def)
  then show ?case using Cons by simp
qed simp

section \<open>Properties\<close>

text \<open>
  C36. However the pipe cuts a provider's output into chunks, the reader ends in the state it would
  have reached by reading the whole output line by line: the same final line, turn count, tool and
  published samples.
\<close>
theorem stream_chunks_do_not_matter:
  "stream_close decode (fold (stream_write decode) chunks new_stream_reader)
   = fold (take_line decode) (split_on newline (concat chunks)) new_stream_reader"
  unfolding stream_close_def writes_bytes [OF stream_ok_new]
  by (rule bytes_lines) (simp_all add: new_stream_reader_def)

text \<open>
  Whatever a provider writes and whatever the decoder makes of it, the reader never keeps more
  than one line of bounded length, counts at most 100000 turns, and publishes only samples whose
  tool is a name of at most 64 name characters and whose turn counts never go back; the diagnostic
  buffer beside it keeps exactly the first bytes up to its limit and says when it dropped some.
\<close>
theorem stream_is_bounded:
  "let r = stream_close decode (fold (stream_write decode) chunks new_stream_reader);
       b = fold capped_write chunks (new_capped_buffer limit)
   in stream_bounded r \<and> cb_buf b = take limit (concat chunks) \<and>
      cb_truncated b = (limit < length (concat chunks))"
  unfolding stream_close_def Let_def
  by (intro conjI stream_bounded_flush stream_bounded_writes stream_bounded_new)
    (simp_all add: capped_writes)

text \<open>
  Offers never block and may lose intermediate samples, but once the pump is closed the
  callback has seen a subsequence of the offers that ends with the last one, and sees nothing
  after that, in every interleaving of offers and receives.
\<close>
theorem pump_delivers_last:
  assumes "ClosePump \<notin> set es"
  shows "let seen = pp_reported (fold pump_step (es @ ClosePump # later) new_pump) in
    subseq seen (offers es) \<and> (if offers es = [] then seen = [] else seen \<noteq> [] \<and> last seen = last (offers es))"
proof -
  let ?p = "fold pump_step es new_pump"
  let ?q = "pump_step ClosePump ?p"
  have "pp_closed ?q" "pp_samples ?q = None" by simp_all
  then have "fold pump_step (es @ ClosePump # later) new_pump = ?q"
    by (simp add: pump_closed_still del: pump_step.simps)
  moreover have "pp_reported ?q = pp_reported ?p @ waiting ?p"
    by (auto simp: pump_take_def waiting_def split: option.splits)
  ultimately show ?thesis using pump_holds_last [OF assms refl] by (auto simp: Let_def dest: list_emb_Nil2)
qed

theorem pump_delivers_last_witness:
  "pp_reported (fold pump_step ([Offer \<lparr>pg_turns = 1, pg_tool = ''click''\<rparr>, Offer \<lparr>pg_turns = 2, pg_tool = ''click''\<rparr>]
      @ ClosePump # [Take]) new_pump) \<noteq> []"
  using pump_delivers_last [of "[Offer \<lparr>pg_turns = 1, pg_tool = ''click''\<rparr>, Offer \<lparr>pg_turns = 2, pg_tool = ''click''\<rparr>]" "[Take]"]
  by (auto simp: Let_def offers_def)

end
