(* ===== verification/HostState.thy ===== *)
theory HostState
  imports HostJournal
begin

text \<open>
  The broker's credential (\<open>internal/hostbroker/state.go\<close>) and its view of the relay
  (\<open>client.go\<close>): what a valid credential is, how it is stored, how pairing changes it, which errors
  are worth another attempt, and what is cut out of an error before it is shown.
\<close>

section \<open>Credentials\<close>

record credential =
  cr_token :: string
  cr_launcher :: string
  cr_secret :: string

definition no_credential :: credential where
  "no_credential = \<lparr>cr_token = [], cr_launcher = [], cr_secret = []\<rparr>"

definition valid_lower_hex :: "string \<Rightarrow> nat \<Rightarrow> bool" where
  "valid_lower_hex v bytes \<longleftrightarrow> length v = bytes * 2 \<and> to_lower v = v \<and> list_all is_hex v"

definition validate_token :: "string \<Rightarrow> string option" where
  "validate_token token = (if \<not> valid_lower_hex token 32 then
     Some ''relay token must be 64 lowercase hexadecimal characters'' else None)"

text \<open>The characters of \<open>"\x00\r\n \t"\<close>.\<close>

definition blank_char :: "char \<Rightarrow> bool" where
  "blank_char c \<longleftrightarrow> c \<in> {chr 0, chr 13, chr 10, CHR '' '', chr 9}"

definition credential_validate :: "credential \<Rightarrow> string option" where
  "credential_validate c =
     (case validate_token (cr_token c) of
        Some e \<Rightarrow> Some e
      | None \<Rightarrow>
        if cr_launcher c = [] \<or> length (cr_launcher c) > 128 \<or> list_ex blank_char (cr_launcher c) then
          Some ''invalid launcher session identity''
        else if \<not> valid_lower_hex (cr_secret c) 32 then Some ''invalid launcher session secret''
        else None)"

definition credential_json :: "credential \<Rightarrow> json" where
  "credential_json c = JObj ([(''token'', JStr (cr_token c)), (''launcher_session'', JStr (cr_launcher c))]
     @ opt_text ''session_secret'' (cr_secret c))"

definition credential_fields :: "(string \<times> credential decoder) list" where
  "credential_fields = [(''token'', put_text (\<lambda>t. cr_token_update (\<lambda>_. t))),
     (''launcher_session'', put_text (\<lambda>t. cr_launcher_update (\<lambda>_. t))),
     (''session_secret'', put_text (\<lambda>t. cr_secret_update (\<lambda>_. t)))]"

definition encode_credential :: "credential \<Rightarrow> string + string" where
  "encode_credential c = (case credential_validate c of
     Some e \<Rightarrow> Inl e | None \<Rightarrow> Inr (json_print (credential_json c)))"

definition decode_credential :: "string \<Rightarrow> string + credential" where
  "decode_credential data = (case read_value data of
     None \<Rightarrow> Inl ''decode host credential''
   | Some (j, rest) \<Rightarrow>
       (let (c, fits) = dec_struct True credential_fields j no_credential in
        if \<not> fits then Inl ''decode host credential''
        else if skip_space rest \<noteq> [] then Inl ''decode host credential: trailing data''
        else case credential_validate c of Some e \<Rightarrow> Inl e | None \<Rightarrow> Inr c))"

text \<open>\<open>ErrCredentialNotFound\<close> is the error \<open>None\<close>; every other error has a text.\<close>

definition load_credential :: "protector \<Rightarrow> file_read \<Rightarrow> string option + credential" where
  "load_credential p file = (case file of
     NoFile \<Rightarrow> Inl None
   | Unreadable e \<Rightarrow> Inl (Some e)
   | Content sealed \<Rightarrow>
       if length sealed > 65536 then Inl (Some ''protected state exceeds size limit'')
       else (case pt_open p sealed of
         None \<Rightarrow> Inl (Some ''open host credential'')
       | Some plain \<Rightarrow> (case decode_credential plain of Inl e \<Rightarrow> Inl (Some e) | Inr c \<Rightarrow> Inr c)))"

text \<open>The file after a save, or the error.\<close>

definition save_credential :: "protector \<Rightarrow> string option \<Rightarrow> credential \<Rightarrow> string + file_read" where
  "save_credential p disk c = (case encode_credential c of
     Inl e \<Rightarrow> Inl e
   | Inr plain \<Rightarrow> (case pt_seal p plain of
       None \<Rightarrow> Inl ''seal host credential''
     | Some sealed \<Rightarrow> (case write_protected disk sealed of Some e \<Rightarrow> Inl e | None \<Rightarrow> Inr (Content sealed))))"

definition update_credential :: "protector \<Rightarrow> string option \<Rightarrow> (credential \<Rightarrow> string + credential) \<Rightarrow> file_read
    \<Rightarrow> string + file_read" where
  "update_credential p disk f file =
     (case (case load_credential p file of Inl None \<Rightarrow> Inr no_credential | Inl (Some e) \<Rightarrow> Inl e | Inr c \<Rightarrow> Inr c) of
        Inl e \<Rightarrow> Inl e
      | Inr c \<Rightarrow> (case f c of Inl e \<Rightarrow> Inl e | Inr c' \<Rightarrow> save_credential p disk c'))"

text \<open>
  \<open>Pair\<close>: the token comes from the input, at most 513 bytes of it; an identity is minted only when
  there is none. The random bytes, as hex or an error, are arguments.
\<close>

definition minted :: "string \<Rightarrow> string \<Rightarrow> string option \<Rightarrow> string \<Rightarrow> string + string" where
  "minted current prefix fresh what = (if current \<noteq> [] then Inr current
     else case fresh of None \<Rightarrow> Inl what | Some h \<Rightarrow> Inr (prefix @ h))"

definition pair_update :: "string option \<Rightarrow> string option \<Rightarrow> string \<Rightarrow> credential \<Rightarrow> string + credential" where
  "pair_update session secret value c =
     bind_sum (minted (cr_launcher c) ''launcher-'' session ''generate launcher identity'') (\<lambda>l.
     bind_sum (minted (cr_secret c) [] secret ''generate launcher secret'') (\<lambda>k.
       let c' = \<lparr>cr_token = value, cr_launcher = l, cr_secret = k\<rparr> in
       case credential_validate c' of Some e \<Rightarrow> Inl e | None \<Rightarrow> Inr c'))"

definition pair :: "protector \<Rightarrow> string option \<Rightarrow> string option \<Rightarrow> string option \<Rightarrow> string \<Rightarrow> file_read
    \<Rightarrow> string + file_read" where
  "pair p disk session secret input file =
     (let value = trim_space (take 513 input) in
      case validate_token value of
        Some e \<Rightarrow> Inl e
      | None \<Rightarrow> update_credential p disk (pair_update session secret value) file)"

section \<open>Relay errors\<close>

text \<open>
  \<open>RelayRefused\<close> is a \<open>RelayError\<close>, the answer of a daemon that said no; everything else is a failure
  to get an answer, or of the broker itself.
\<close>

datatype call_err = RelayRefused string | CallFailed string

fun call_err_text :: "call_err \<Rightarrow> string" where
  "call_err_text (RelayRefused t) = t"
| "call_err_text (CallFailed t) = t"

text \<open>\<open>errors.As\<close> on a nil error finds no rejection, so nil counts as retryable.\<close>

definition retryable :: "call_err option \<Rightarrow> bool" where
  "retryable e = (case e of Some (RelayRefused _) \<Rightarrow> False | _ \<Rightarrow> True)"

text \<open>\<open>strings.ReplaceAll\<close> of a text that is not empty.\<close>

function replace_all :: "string \<Rightarrow> string \<Rightarrow> string \<Rightarrow> string" where
  "replace_all old new s =
     (case s of
        [] \<Rightarrow> []
      | c # cs \<Rightarrow> if old \<noteq> [] \<and> has_prefix old s then new @ replace_all old new (drop (length old) s)
          else c # replace_all old new cs)"
  by pat_completeness auto
termination
  by (relation "measure (\<lambda>(old, new, s). length s)") (auto simp: neq_Nil_conv)

declare replace_all.simps [simp del]

record session =
  se_token :: string
  se_id :: string
  se_secret :: string

definition redact_credentials :: "string \<Rightarrow> session \<Rightarrow> string" where
  "redact_credentials message s =
     fold (\<lambda>secret m. if secret \<noteq> [] then replace_all secret ''[redacted]'' m else m) [se_token s, se_secret s] message"

text \<open>What \<open>Call\<close> makes of a decoded response that is not ok.\<close>

definition refusal :: "string \<Rightarrow> session \<Rightarrow> call_err" where
  "refusal err_field s = (let message = trim_space err_field in
     RelayRefused (redact_credentials (if message = [] then ''request failed'' else message) s))"

section \<open>Laws\<close>

lemma lower_hex_ascii: "valid_lower_hex v n \<Longrightarrow> is_ascii v"
  by (auto simp: valid_lower_hex_def is_ascii_def list_all_iff is_hex_def is_lower_hex_def is_digit_def)

lemma credential_validate_None:
  "credential_validate c = None \<longleftrightarrow> valid_lower_hex (cr_token c) 32 \<and> cr_launcher c \<noteq> [] \<and>
     length (cr_launcher c) \<le> 128 \<and> \<not> list_ex blank_char (cr_launcher c) \<and> valid_lower_hex (cr_secret c) 32"
  by (auto simp: credential_validate_def validate_token_def split: option.splits)

lemma dec_credential_json: "dec_struct True credential_fields (credential_json c) no_credential = (c, True)"
  by (cases c) (auto simp: dec_struct_def credential_json_def credential_fields_def opt_text_def find_field_def
      no_credential_def Let_def both_def)

lemma credential_keys [simp]:
  "valid_utf8 ''token''" "valid_utf8 ''launcher_session''" "valid_utf8 ''session_secret''"
  by (simp_all add: valid_utf8_ascii is_ascii_def byte_def)

lemma decode_encoded:
  assumes "encode_credential c = Inr plain" and "valid_utf8 (cr_launcher c)"
  shows "decode_credential plain = Inr c"
proof -
  have v: "credential_validate c = None" and plain: "plain = json_print (credential_json c)"
    using assms(1) by (auto simp: encode_credential_def split: option.splits)
  have u: "valid_utf8 (cr_token c)" "valid_utf8 (cr_secret c)"
    using v by (auto simp: credential_validate_None intro: valid_utf8_ascii lower_hex_ascii)
  have "wf_json (credential_json c)" "json_depth (credential_json c) = 1"
    using u assms(2) by (simp_all add: credential_json_def opt_text_def)
  then have "read_value plain = Some (credential_json c, [])"
    using read_printed [of "credential_json c" "[]"] by (simp add: plain max_nesting_def)
  then show ?thesis using v by (simp add: decode_credential_def dec_credential_json)
qed

end
