(* ===== verification/Retry.thy ===== *)
theory Retry
  imports HostState
begin

text \<open>
  \<open>retryWhile\<close> and the wrappers around it in \<open>internal/hostbroker/broker.go\<close>. The loop may run for
  ever, so it is a partial function: \<open>None\<close> is a loop that does not end. What an attempt answers,
  how long a sleep takes part in and the jitter are functions of the attempt's number.
\<close>

section \<open>Durations\<close>

text \<open>\<open>time.Duration\<close> is an \<open>int64\<close>: a sum wraps around.\<close>

definition wrap64 :: "int \<Rightarrow> int" where
  "wrap64 i = (i + 2 ^ 63) mod 2 ^ 64 - 2 ^ 63"

lemma wrap64_id: "- (2 ^ 63) \<le> i \<Longrightarrow> i < 2 ^ 63 \<Longrightarrow> wrap64 i = i"
  by (simp add: wrap64_def)

definition ns_minute :: int where "ns_minute = 60 * ns_second"

section \<open>The loop\<close>

record retry_env =
  rv_min :: int
  rv_max :: int
  rv_jitter :: "nat \<Rightarrow> int"
  rv_attempt :: "nat \<Rightarrow> call_err option"
  rv_sleep :: "nat \<Rightarrow> call_err option"
  rv_again :: "call_err \<Rightarrow> bool"

definition backoff_wait :: "retry_env \<Rightarrow> nat \<Rightarrow> int \<Rightarrow> int" where
  "backoff_wait v n delay =
     (let wait = wrap64 (delay + rv_jitter v n) in if wait < delay \<or> wait > rv_max v then rv_max v else wait)"

definition next_delay :: "retry_env \<Rightarrow> int \<Rightarrow> int" where
  "next_delay v delay = (if delay < rv_max v div 2 then delay * 2 else rv_max v)"

text \<open>The error it ends with, if any, and the waits it slept.\<close>

partial_function (option) retry_loop :: "retry_env \<Rightarrow> nat \<Rightarrow> int \<Rightarrow> (call_err option \<times> int list) option" where
  "retry_loop v n delay =
     (case rv_attempt v n of
        None \<Rightarrow> Some (None, [])
      | Some e \<Rightarrow>
          if \<not> rv_again v e then Some (Some e, [])
          else (case rv_sleep v n of
              Some stop \<Rightarrow> Some (Some stop, [backoff_wait v n delay])
            | None \<Rightarrow> Option.bind (retry_loop v (n + 1) (next_delay v delay))
                (\<lambda>r. Some (fst r, backoff_wait v n delay # snd r))))"

definition retry_while :: "retry_env \<Rightarrow> (call_err option \<times> int list) option" where
  "retry_while v = retry_loop v 0 (rv_min v)"

definition retry :: "retry_env \<Rightarrow> (call_err option \<times> int list) option" where
  "retry v = retry_while (v\<lparr>rv_again := \<lambda>e. retryable (Some e)\<rparr>)"

definition retry_all :: "retry_env \<Rightarrow> (call_err option \<times> int list) option" where
  "retry_all v = retry_while (v\<lparr>rv_again := \<lambda>e. True\<rparr>)"

text \<open>
  \<open>retryFreshAuthorization\<close>: an operation the relay refuses runs once more when the stored token has
  changed meanwhile. The two loads, the token after each, and the two answers are arguments; the
  result says how often the operation ran.
\<close>

definition retry_fresh_authorization :: "call_err option \<Rightarrow> string \<Rightarrow> call_err option \<Rightarrow> call_err option \<Rightarrow> string
    \<Rightarrow> call_err option \<Rightarrow> call_err option \<times> nat" where
  "retry_fresh_authorization load1 token1 answer1 load2 token2 answer2 =
     (case load1 of
        Some e \<Rightarrow> (Some e, 0)
      | None \<Rightarrow>
          if retryable answer1 then (answer1, 1)
          else (case load2 of
              Some e \<Rightarrow> (Some e, 1)
            | None \<Rightarrow> if token2 = token1 then (answer1, 1) else (answer2, 2)))"

section \<open>The options of the broker\<close>

record broker_options =
  bo_computer :: string
  bo_provider :: string
  bo_poll :: int
  bo_backoff_min :: int
  bo_backoff_max :: int
  bo_progress :: int

definition default_to :: "int \<Rightarrow> int \<Rightarrow> int" where
  "default_to d v = (if v = 0 then d else v)"

definition new_options :: "broker_options \<Rightarrow> string + broker_options" where
  "new_options o0 =
     (let computer = trim_space (bo_computer o0);
          o1 = o0\<lparr>bo_poll := default_to (5 * ns_second) (bo_poll o0),
                 bo_backoff_min := default_to (ns_second div 4) (bo_backoff_min o0),
                 bo_backoff_max := default_to (5 * ns_second) (bo_backoff_max o0),
                 bo_progress := default_to (5 * ns_second) (bo_progress o0)\<rparr> in
      if computer = [] \<or> length computer > 128 \<or> list_ex (\<lambda>c. c = chr 0 \<or> c = CHR ''/'' \<or> c = backslash) computer then
        Inl ''invalid Windows computer name''
      else if bo_poll o1 < ns_second div 10 \<or> bo_poll o1 > 5 * ns_second then
        Inl ''poll interval must be between 100ms and 5s''
      else if bo_backoff_min o1 \<le> 0 \<or> bo_backoff_min o1 > bo_backoff_max o1 \<or> bo_backoff_max o1 > ns_minute then
        Inl ''invalid reconnect backoff''
      else if bo_progress o1 < 0 \<or> bo_progress o1 > ns_minute then Inl ''invalid task progress interval''
      else Inr o1)"

definition backoff_ok :: "retry_env \<Rightarrow> bool" where
  "backoff_ok v \<longleftrightarrow> 0 < rv_min v \<and> rv_min v \<le> rv_max v"

section \<open>Bounds, ends and endlessness\<close>

lemma next_delay_bounds:
  "backoff_ok v \<Longrightarrow> rv_min v \<le> d \<Longrightarrow> d \<le> rv_max v \<Longrightarrow> rv_min v \<le> next_delay v d \<and> next_delay v d \<le> rv_max v"
  by (auto simp: next_delay_def backoff_ok_def)

lemma backoff_wait_bounds:
  "rv_min v \<le> d \<Longrightarrow> d \<le> rv_max v \<Longrightarrow> rv_min v \<le> backoff_wait v n d \<and> backoff_wait v n d \<le> rv_max v"
  by (auto simp: backoff_wait_def Let_def)

text \<open>An attempt the loop goes on after.\<close>

definition goes_on :: "retry_env \<Rightarrow> nat \<Rightarrow> bool" where
  "goes_on v k \<longleftrightarrow> rv_sleep v k = None \<and> (case rv_attempt v k of None \<Rightarrow> False | Some e \<Rightarrow> rv_again v e)"

definition waits_within :: "retry_env \<Rightarrow> int \<Rightarrow> call_err option \<times> int list \<Rightarrow> bool" where
  "waits_within v d r \<longleftrightarrow> \<not> (backoff_ok v \<and> rv_min v \<le> d \<and> d \<le> rv_max v) \<or>
     (\<forall>w \<in> set (snd r). rv_min v \<le> w \<and> w \<le> rv_max v)"

lemma waits_within_step:
  assumes "waits_within v (next_delay v d) r"
  shows "waits_within v d (a, backoff_wait v n d # snd r)"
proof (cases "backoff_ok v \<and> rv_min v \<le> d \<and> d \<le> rv_max v")
  case True
  then show ?thesis
    using assms backoff_wait_bounds [of v d n] next_delay_bounds [of v d] by (simp add: waits_within_def)
qed (simp add: waits_within_def)

lemma retry_loop_waits:
  assumes "retry_loop v n d = Some r"
  shows "waits_within v d r"
  using assms
proof (rule retry_loop.raw_induct [where P = "\<lambda>v n d r. waits_within v d r", rotated], goal_cases)
  case (1 loop v n d r)
  have one: "waits_within v d (a, [backoff_wait v n d])" "waits_within v d (a, [])" for a
    using backoff_wait_bounds [of v d n] by (auto simp: waits_within_def)
  show ?case
  proof (cases "goes_on v n")
    case True
    then obtain e where "rv_attempt v n = Some e" "rv_again v e" "rv_sleep v n = None"
      by (auto simp: goes_on_def split: option.splits)
    then have "Option.bind (loop v (n + 1) (next_delay v d)) (\<lambda>r. Some (fst r, backoff_wait v n d # snd r)) = Some r"
      using "1"(2) by simp
    then obtain r' where r': "loop v (n + 1) (next_delay v d) = Some r'" "r = (fst r', backoff_wait v n d # snd r')"
      unfolding bind_eq_Some_conv by (metis option.inject)
    show ?thesis unfolding r'(2) by (rule waits_within_step [OF "1"(1) [OF r'(1)]])
  next
    case False
    then show ?thesis using "1"(2) one by (auto simp: goes_on_def split: option.splits if_splits)
  qed
qed

lemma retry_loop_on:
  "goes_on v n \<Longrightarrow> retry_loop v n d =
     map_option (\<lambda>r. (fst r, backoff_wait v n d # snd r)) (retry_loop v (n + 1) (next_delay v d))"
  by (subst retry_loop.simps) (cases "retry_loop v (n + 1) (next_delay v d)";
    auto simp: goes_on_def split: option.splits)

lemma retry_loop_ends:
  assumes "\<And>k. n \<le> k \<Longrightarrow> k < n + m \<Longrightarrow> goes_on v k"
    and "rv_attempt v (n + m) = None \<or> (\<exists>e. rv_attempt v (n + m) = Some e \<and> \<not> rv_again v e)"
  shows "\<exists>ws. retry_loop v n d = Some (rv_attempt v (n + m), ws) \<and> length ws = m"
  using assms
proof (induction m arbitrary: n d)
  case 0
  then show ?case by (subst retry_loop.simps) (auto split: option.splits)
next
  case (Suc m)
  have "goes_on v n" using Suc.prems(1) by simp
  moreover have "\<exists>ws. retry_loop v (n + 1) (next_delay v d) = Some (rv_attempt v (n + 1 + m), ws) \<and> length ws = m"
    using Suc.prems by (intro Suc.IH) auto
  ultimately show ?case by (auto simp: retry_loop_on)
qed

lemma retry_loop_endless:
  assumes "\<And>k. goes_on v k"
  shows "retry_loop v n d = None"
proof (rule ccontr)
  assume "retry_loop v n d \<noteq> None"
  then obtain r where "retry_loop v n d = Some r" by auto
  then have "\<not> (\<forall>k. goes_on v k)"
  proof (rule retry_loop.raw_induct [where P = "\<lambda>v n d r. \<not> (\<forall>k. goes_on v k)", rotated], goal_cases)
    case (1 loop v n d r)
    show ?case
    proof
      assume all: "\<forall>k. goes_on v k"
      then have "goes_on v n" by simp
      then obtain e where "rv_attempt v n = Some e" "rv_again v e" "rv_sleep v n = None"
        by (auto simp: goes_on_def split: option.splits)
      then have "Option.bind (loop v (n + 1) (next_delay v d)) (\<lambda>r. Some (fst r, backoff_wait v n d # snd r)) = Some r"
        using "1"(2) by simp
      then obtain r' where "loop v (n + 1) (next_delay v d) = Some r'"
        unfolding bind_eq_Some_conv by blast
      then show False using "1"(1) all by blast
    qed
  qed
  then show False using assms by blast
qed

lemma goes_on_again:
  "goes_on (v\<lparr>rv_again := a\<rparr>) k \<longleftrightarrow> rv_sleep v k = None \<and> (case rv_attempt v k of None \<Rightarrow> False | Some e \<Rightarrow> a e)"
  by (auto simp: goes_on_def split: option.splits)

end
