(* ===== verification/HostBroker.thy ===== *)
theory HostBroker
  imports Runner Retry
begin

text \<open>
  \<open>internal/hostbroker/broker.go\<close>: what the broker does with its mail and with the tasks it accepts.
  \<open>decide_message\<close> is everything \<open>handleMessage\<close> and \<open>handleLaunch\<close> decide before they do anything;
  the steps after that are stages of the main loop and of its workers, each driven by the outcome of
  one call to the relay, the runner or the journal. A retry loop is a stage that stays where it is
  until its operation succeeds. The network, the runner and the disk choose the outcomes; a crash
  may come between any two steps.
\<close>

section \<open>Bodies\<close>

definition max_message_body :: nat where "max_message_body = 131072"

text \<open>What \<open>json.Marshal\<close> makes of a text that is not UTF-8: its bad bytes become U+FFFD.\<close>

definition to_valid :: "string \<Rightarrow> string" where
  "to_valid s = concat (map (\<lambda>rb. if is_bad_rune rb then encode_rune rune_error else snd rb) (runes s))"

definition failure_text :: "string \<Rightarrow> string" where
  "failure_text failure =
     (let message = trim_space failure;
          message = (if message = [] then ''host task failed'' else message)
      in take 4096 message)"

definition failed_body :: "string \<Rightarrow> string \<Rightarrow> json" where
  "failed_body task failure = failed_json
     \<lparr>fm_type = task_failed_type, fm_task = task, fm_error = to_valid (failure_text failure)\<rparr>"

definition result_body :: "string \<Rightarrow> host_report \<Rightarrow> json" where
  "result_body task r = result_json
     \<lparr>xm_type = task_result_type, xm_task = task, xm_status = hr_status r, xm_summary = hr_summary r,
      xm_observations = hr_observations r, xm_actions = hr_actions r, xm_evidence = hr_evidence r,
      xm_error = hr_error r\<rparr>"

section \<open>Deciding about a message\<close>

datatype decision =
    Ignore
  | CancelRunning string
  | Acknowledge task_record
  | Resume task_record
  | Refuse task_record
  | Begin task_record host_task

definition header_type :: "string \<Rightarrow> string option" where
  "header_type body = (let (t, fits) = unmarshal_into (dec_struct False [(''type'', put_text (\<lambda>t _. t))]) [] body in
     if fits then Some t else None)"

definition launch_task :: "launch_msg \<Rightarrow> host_task" where
  "launch_task launch = \<lparr>ht_id = lm_task launch, ht_provider = lm_runtime launch, ht_brief = lm_brief launch,
     ht_timeout = wrap64 (lm_deadline launch * ns_second)\<rparr>"

definition received :: "launch_msg \<Rightarrow> task_record" where
  "received launch = zero_record\<lparr>tr_launch := launch, tr_state := record_received\<rparr>"

definition with_terminal :: "json \<Rightarrow> task_record \<Rightarrow> task_record" where
  "with_terminal body r = r\<lparr>tr_state := record_terminal, tr_terminal := Some body\<rparr>"

text \<open>The guards of \<open>handleLaunch\<close>; \<open>look\<close> is the journal's \<open>Get\<close>.\<close>

definition decide_launch :: "string \<Rightarrow> (string \<Rightarrow> task_record option) \<Rightarrow> string \<Rightarrow> launch_msg \<Rightarrow> decision" where
  "decide_launch default_provider look active launch0 =
     (let provider = (if lm_runtime launch0 = [] then default_provider else lm_runtime launch0);
          launch = launch0\<lparr>lm_runtime := provider\<rparr>;
          task = launch_task launch in
      if lm_type launch \<noteq> task_launch_type \<or> lm_scope launch = [] \<or> ref_scope (lm_reply launch) \<noteq> lm_scope launch \<or>
          (ref_id (lm_reply launch) = [] \<and> ref_name (lm_reply launch) = []) \<or> task_validate task \<noteq> None then Ignore
      else (case look (lm_task launch) of
          Some r \<Rightarrow>
            if tr_launch r \<noteq> launch then Ignore
            else if tr_state r = record_terminal then Resume r
            else Ignore
        | None \<Rightarrow>
            if active \<noteq> [] then
              (if active = lm_task launch then Ignore
               else Refuse (with_terminal (failed_body (lm_task launch) ''eyes busy'') (received launch)))
            else Begin (received launch) task))"

definition valid_cancel_envelope :: "message \<Rightarrow> cancel_msg \<Rightarrow> bool" where
  "valid_cancel_envelope m c \<longleftrightarrow> cm_type c = task_cancel_type \<and> cm_task c = msg_task m \<and> msg_from_scope m \<noteq> [] \<and>
     (case msg_reply_to m of None \<Rightarrow> False
      | Some r \<Rightarrow> ref_scope r = msg_from_scope m \<and> (ref_id r \<noteq> [] \<or> ref_name r \<noteq> [])) \<and> task_id_valid (cm_task c)"

definition decide_cancel :: "(string \<Rightarrow> task_record option) \<Rightarrow> message \<Rightarrow> cancel_msg \<Rightarrow> decision" where
  "decide_cancel look m c =
     (if \<not> valid_cancel_envelope m c then Ignore
      else case msg_reply_to m of None \<Rightarrow> Ignore
      | Some reply \<Rightarrow> (case look (msg_task m) of
          Some r \<Rightarrow>
            if msg_from_scope m = lm_scope (tr_launch r) \<and> reply = lm_reply (tr_launch r) then CancelRunning (msg_task m)
            else Ignore
        | None \<Rightarrow> Acknowledge (with_terminal (failed_body (cm_task c) ''cancelled'')
            (zero_record\<lparr>tr_launch := zero_launch\<lparr>lm_type := task_launch_type, lm_task := cm_task c,
              lm_scope := msg_from_scope m, lm_reply := reply\<rparr>\<rparr>))))"

definition decide_message :: "string \<Rightarrow> (string \<Rightarrow> task_record option) \<Rightarrow> string \<Rightarrow> message \<Rightarrow> decision" where
  "decide_message default_provider look active m =
     (let body = msg_body m in
      if body = [] \<or> length body > max_message_body then Ignore
      else (case header_type body of
          None \<Rightarrow> Ignore
        | Some t \<Rightarrow>
            if t = task_launch_type then
              (case decode_task_json (dec_struct True (launch_fields True)) zero_launch body of
                 None \<Rightarrow> Ignore
               | Some launch \<Rightarrow>
                   if msg_task m = lm_task launch \<and> msg_from_scope m = lm_scope launch \<and> msg_reply_to m = Some (lm_reply launch)
                   then decide_launch default_provider look active launch
                   else Ignore)
            else if t = task_cancel_type then
              (case decode_task_json (dec_struct True cancel_fields) zero_cancel body of
                 None \<Rightarrow> Ignore | Some c \<Rightarrow> decide_cancel look m c)
            else Ignore))"

section \<open>The state\<close>

datatype stage = Accepting | Running | Persisting | Delivering | Burying

text \<open>A worker goroutine, or the main loop inside \<open>superviseTerminal\<close>. The owner frees the slot.\<close>

record worker =
  wk_record :: task_record
  wk_stage :: stage
  wk_owner :: bool

datatype main_pc =
    Polling
  | Registering task_record host_task
  | Preparing task_record
  | Supervising worker "task_record list"
  | Recovering "task_record list"
  | Stopped

text \<open>
  The fields from \<open>br_started\<close> on record the history: the tasks the journal already held at first
  followed by those the runner was started for, the terminal reports the relay took, and the tasks
  whose record left the journal.
\<close>

record broker =
  br_journal :: journal
  br_active :: string
  br_main :: main_pc
  br_workers :: "worker list"
  br_started :: "string list"
  br_sent :: "(string \<times> json) list"
  br_forgotten :: "string list"

definition new_broker :: "journal \<Rightarrow> broker" where
  "new_broker j = \<lparr>br_journal = j, br_active = [], br_main = Recovering (journal_records j), br_workers = [],
     br_started = map fst (jr_records j), br_sent = [], br_forgotten = []\<rparr>"

type_synonym disk = "protector \<times> string option"

definition put_record :: "disk \<Rightarrow> task_record \<Rightarrow> broker \<Rightarrow> broker \<times> string option" where
  "put_record d r b =
     (let (j, e) = journal_put (fst d) (snd d) r (br_journal b) in
      (b\<lparr>br_journal := j, br_forgotten := br_forgotten b @
          filter (\<lambda>k. journal_get j k = None) (map fst (jr_records (br_journal b)))\<rparr>, e))"

definition activate :: "string \<Rightarrow> broker \<Rightarrow> broker" where
  "activate task b = (if br_active b \<noteq> [] then b else b\<lparr>br_active := task\<rparr>)"

definition deactivate :: "string \<Rightarrow> broker \<Rightarrow> broker" where
  "deactivate task b = (if br_active b = task then b\<lparr>br_active := []\<rparr> else b)"

section \<open>Stages\<close>

text \<open>The outcome of the one operation a stage waits for.\<close>

datatype outcome =
    Answered
  | Refused call_err
  | Ran "host_err + host_report"
  | Disk disk
  | Interrupted

definition set_terminal :: "json \<Rightarrow> worker \<Rightarrow> worker" where
  "set_terminal body w = w\<lparr>wk_record := with_terminal body (wk_record w), wk_stage := Persisting\<rparr>"

definition delivered :: "task_record \<Rightarrow> task_record" where
  "delivered r = zero_record\<lparr>tr_launch := tr_launch r, tr_state := record_delivered\<rparr>"

text \<open>
  \<open>execute\<close>, \<open>superviseTerminal\<close> and the two \<open>deliver\<close> functions: what one outcome makes of a worker.
  No worker is left when the function returns.
\<close>

fun advance :: "outcome \<Rightarrow> worker \<Rightarrow> broker \<Rightarrow> broker \<times> worker option" where
  "advance out w b =
     (let r = wk_record w; i = record_id r in
      case wk_stage w of
        Accepting \<Rightarrow> (case out of
            Answered \<Rightarrow> (b\<lparr>br_started := br_started b @ [i]\<rparr>, Some (w\<lparr>wk_stage := Running\<rparr>))
          | Refused e \<Rightarrow> (b, Some (set_terminal (failed_body i (call_err_text e)) w))
          | _ \<Rightarrow> (b, Some w))
      | Running \<Rightarrow> (case out of
            Ran (Inl e) \<Rightarrow> (b, Some (set_terminal (failed_body i (host_err_text e)) w))
          | Ran (Inr rep) \<Rightarrow> (b, Some (set_terminal (result_body i rep) w))
          | _ \<Rightarrow> (b, Some w))
      | Persisting \<Rightarrow> (case out of
            Disk d \<Rightarrow> (case put_record d r b of
                (b', None) \<Rightarrow> (b', Some (w\<lparr>wk_stage := Delivering\<rparr>))
              | (b', Some e) \<Rightarrow> (b', Some w))
          | _ \<Rightarrow> (b, Some w))
      | Delivering \<Rightarrow> (case out of
            Answered \<Rightarrow> (b\<lparr>br_sent := br_sent b @ [(i, case tr_terminal r of None \<Rightarrow> JNull | Some t \<Rightarrow> t)]\<rparr>,
              Some (w\<lparr>wk_stage := Burying\<rparr>))
          | Interrupted \<Rightarrow> (b, None)
          | _ \<Rightarrow> (b, Some w))
      | Burying \<Rightarrow> (case out of
            Disk d \<Rightarrow> (case put_record d (delivered r) b of
                (b', None) \<Rightarrow> (b', None)
              | (b', Some e) \<Rightarrow> (b', Some w))
          | _ \<Rightarrow> (b, Some w)))"

declare advance.simps [simp del]

definition supervise :: "task_record \<Rightarrow> worker" where
  "supervise r = \<lparr>wk_record = r, wk_stage = Persisting, wk_owner = False\<rparr>"

definition add_worker :: "worker \<Rightarrow> broker \<Rightarrow> broker" where
  "add_worker w b = b\<lparr>br_workers := br_workers b @ [w]\<rparr>"

text \<open>The end of \<open>handleLaunch\<close> for a broker that is busy: the refusal is recorded, a child will carry it.\<close>

definition refuse :: "disk \<Rightarrow> task_record \<Rightarrow> broker \<Rightarrow> broker" where
  "refuse d r b = (case put_record d r b of
     (b', None) \<Rightarrow> b'\<lparr>br_main := Preparing r\<rparr>
   | (b', Some e) \<Rightarrow> b'\<lparr>br_main := Stopped\<rparr>)"

text \<open>The main loop hands one message to \<open>handleMessage\<close>.\<close>

definition take_message :: "string \<Rightarrow> disk \<Rightarrow> message \<Rightarrow> broker \<Rightarrow> broker" where
  "take_message provider d m b =
     (case decide_message provider (journal_get (br_journal b)) (br_active b) m of
        Ignore \<Rightarrow> b
      | CancelRunning task \<Rightarrow> b
      | Acknowledge r \<Rightarrow> b\<lparr>br_main := Supervising (supervise r) []\<rparr>
      | Resume r \<Rightarrow> add_worker (supervise r) b
      | Refuse r \<Rightarrow> refuse d r b
      | Begin r t \<Rightarrow> (case put_record d r b of
            (b', None) \<Rightarrow>
              if br_active b' \<noteq> [] then refuse d (with_terminal (failed_body (record_id r) ''eyes busy'') r) b'
              else (activate (record_id r) b')\<lparr>br_main := Registering r t\<rparr>
          | (b', Some e) \<Rightarrow> b'\<lparr>br_main := Stopped\<rparr>))"

record child_identity =
  ci_ref :: agent_ref
  ci_session :: session

text \<open>
  \<open>registerChild\<close> ends with a child, with a refusal of the relay, or with an error that is not one
  (a cancelled wait, an incomplete identity). A response is checked for a name and a secret.
\<close>

definition child_of :: "launch_msg \<Rightarrow> session \<Rightarrow> call_err + (string \<times> string \<times> string) \<Rightarrow> call_err + child_identity" where
  "child_of launch launcher answer = (case answer of
     Inl e \<Rightarrow> Inl e
   | Inr (name, agent_id, secret) \<Rightarrow>
       if name = [] \<or> \<not> valid_lower_hex secret 32 then Inl (CallFailed ''relay returned incomplete eyes identity'')
       else Inr \<lparr>ci_ref = \<lparr>ref_name = name, ref_id = agent_id, ref_scope = lm_scope launch\<rparr>,
         ci_session = \<lparr>se_token = se_token launcher, se_id = ''eyes-'' @ lm_task launch, se_secret = secret\<rparr>\<rparr>)"

definition with_child :: "child_identity \<Rightarrow> task_record \<Rightarrow> task_record" where
  "with_child c r = r\<lparr>tr_child := ci_ref c, tr_child_session := se_id (ci_session c),
     tr_child_secret := se_secret (ci_session c)\<rparr>"

definition without_child :: "string \<Rightarrow> task_record \<Rightarrow> task_record" where
  "without_child failure r = (if tr_terminal r = None then with_terminal (failed_body (record_id r) failure) r else r)"

definition restart_text :: "task_record \<Rightarrow> string" where
  "restart_text r = (if tr_state r = record_accepted then ''broker restarted after accepting task; execution was not repeated''
     else ''broker restarted before accepting task; execution was not started'')"

text \<open>A record \<open>recover\<close> registers a child for: undelivered, without one, and not a report of the launcher's.\<close>

definition needs_child :: "task_record \<Rightarrow> bool" where
  "needs_child r \<longleftrightarrow> tr_state r \<noteq> record_delivered \<and> tr_state r \<noteq> record_terminal \<and> tr_child_session r = []"

text \<open>What the answer to a child registration makes of the broker, in each of the three callers.\<close>

definition child_answer :: "disk \<Rightarrow> call_err + child_identity \<Rightarrow> broker \<Rightarrow> broker" where
  "child_answer d answer b =
     (case br_main b of
        Registering r t \<Rightarrow> (case answer of
            Inl (RelayRefused e) \<Rightarrow> (deactivate (record_id r) b)
              \<lparr>br_main := Supervising (supervise (without_child (''register eyes child: '' @ e) r)) []\<rparr>
          | Inl (CallFailed e) \<Rightarrow> (deactivate (record_id r) b)\<lparr>br_main := Stopped\<rparr>
          | Inr c \<Rightarrow>
              (let r' = (with_child c r)\<lparr>tr_state := record_accepted\<rparr> in
               case put_record d r' b of
                 (b', None) \<Rightarrow> (add_worker \<lparr>wk_record = r', wk_stage = Accepting, wk_owner = True\<rparr> b')\<lparr>br_main := Polling\<rparr>
               | (b', Some e) \<Rightarrow> (deactivate (record_id r) b')\<lparr>br_main := Stopped\<rparr>))
      | Preparing r \<Rightarrow> (case answer of
            Inl (RelayRefused e) \<Rightarrow>
              b\<lparr>br_main := Supervising (supervise (without_child (''register terminal eyes child: '' @ e) r)) []\<rparr>
          | Inl (CallFailed e) \<Rightarrow> b\<lparr>br_main := Stopped\<rparr>
          | Inr c \<Rightarrow> (case put_record d (with_child c r) b of
                (b', None) \<Rightarrow> (add_worker (supervise (with_child c r)) b')\<lparr>br_main := Polling\<rparr>
              | (b', Some e) \<Rightarrow> b'\<lparr>br_main := Stopped\<rparr>))
      | Recovering (r # rs) \<Rightarrow> if \<not> needs_child r then b else (case answer of
            Inl (RelayRefused e) \<Rightarrow>
              b\<lparr>br_main := Supervising (supervise (without_child (''register recovery eyes child: '' @ e) r)) rs\<rparr>
          | Inl (CallFailed e) \<Rightarrow> b\<lparr>br_main := Stopped\<rparr>
          | Inr c \<Rightarrow>
              (let r' = with_child c r;
                   r'' = (if tr_state r' = record_terminal then r'
                     else with_terminal (failed_body (record_id r') (restart_text r')) r') in
               b\<lparr>br_main := Supervising (supervise r'') rs\<rparr>))
      | _ \<Rightarrow> b)"

text \<open>The part of \<open>recover\<close> that asks nobody: delivered records, and those that have a child or need none.\<close>

definition recover_next :: "broker \<Rightarrow> broker option" where
  "recover_next b =
     (case br_main b of
        Recovering [] \<Rightarrow> Some (b\<lparr>br_main := Polling\<rparr>)
      | Recovering (r # rs) \<Rightarrow>
          if tr_state r = record_delivered then Some (b\<lparr>br_main := Recovering rs\<rparr>)
          else if tr_state r = record_terminal \<and> tr_child_session r = [] then
            Some (b\<lparr>br_main := Supervising (supervise r) rs\<rparr>)
          else if needs_child r then None
          else Some (b\<lparr>br_main := Supervising (supervise (if tr_state r = record_terminal then r
            else with_terminal (failed_body (record_id r) (restart_text r)) r)) rs\<rparr>)
      | _ \<Rightarrow> None)"

text \<open>A worker that returned leaves, and the owner frees the slot.\<close>

definition settle :: "worker list \<Rightarrow> worker \<Rightarrow> worker option \<Rightarrow> worker list \<Rightarrow> broker \<Rightarrow> broker" where
  "settle before w w' after b = (case w' of
     Some x \<Rightarrow> b\<lparr>br_workers := before @ x # after\<rparr>
   | None \<Rightarrow> (let b' = b\<lparr>br_workers := before @ after\<rparr> in
       if wk_owner w then deactivate (record_id (wk_record w)) b' else b'))"

definition settle_main :: "worker option \<Rightarrow> outcome \<Rightarrow> task_record list \<Rightarrow> broker \<Rightarrow> broker" where
  "settle_main w' out rest b = (case w' of
     Some x \<Rightarrow> b\<lparr>br_main := Supervising x rest\<rparr>
   | None \<Rightarrow> b\<lparr>br_main := (if out = Interrupted then Stopped else Recovering rest)\<rparr>)"

section \<open>Steps\<close>

text \<open>
  After a crash the records are those of the file, which are those in memory; nothing else
  survives. A report handed to the broker by the runner is one that passed its validation.
\<close>

definition restarted :: "broker \<Rightarrow> broker" where
  "restarted b = b\<lparr>br_active := [], br_main := Recovering (journal_records (br_journal b)), br_workers := []\<rparr>"

definition sound_outcome :: "outcome \<Rightarrow> bool" where
  "sound_outcome out = (case out of Ran (Inr rep) \<Rightarrow> report_validate rep = None | _ \<Rightarrow> True)"

datatype broker_event = Message message | ChildAnswer | RecoverNext | Work outcome | MainWork outcome | Crash

inductive broker_step :: "string \<Rightarrow> broker \<Rightarrow> broker_event \<Rightarrow> broker \<Rightarrow> bool" for provider where
  step_message: "br_main b = Polling \<Longrightarrow> broker_step provider b (Message m) (take_message provider d m b)"
| step_child: "broker_step provider b ChildAnswer (child_answer d answer b)"
| step_recover: "recover_next b = Some b' \<Longrightarrow> broker_step provider b RecoverNext b'"
| step_work: "br_workers b = before @ w # after \<Longrightarrow> sound_outcome out \<Longrightarrow> advance out w b = (b', w') \<Longrightarrow>
    broker_step provider b (Work out) (settle before w w' after b')"
| step_main: "br_main b = Supervising w rest \<Longrightarrow> sound_outcome out \<Longrightarrow> advance out w b = (b', w') \<Longrightarrow>
    broker_step provider b (MainWork out) (settle_main w' out rest b')"
| step_crash: "broker_step provider b Crash (restarted b)"

inductive_cases broker_stepE: "broker_step provider b e b'"

end
