(* ===== verification/BrokerProps.thy ===== *)
theory BrokerProps
  imports HostBroker "HOL-Library.Multiset"
begin

text \<open>
  The invariant of the broker over every interleaving of its main loop, its workers and crashes:
  one task at a time, no task started twice, and nothing sent but a well-formed report of the task
  it belongs to.
\<close>

section \<open>Writing a record\<close>

lemma put_record_frame [simp]:
  assumes "put_record d r b = (b', e)"
  shows "br_active b' = br_active b" "br_main b' = br_main b" "br_workers b' = br_workers b"
    "br_started b' = br_started b" "br_sent b' = br_sent b"
  using assms by (auto simp: put_record_def split: prod.splits)

definition known :: "broker \<Rightarrow> string \<Rightarrow> bool" where
  "known b i \<longleftrightarrow> journal_get (br_journal b) i \<noteq> None \<or> i \<in> set (br_forgotten b)"

lemma put_record_law:
  assumes ok: "journal_ok (br_journal b)" and p: "put_record d r b = (b', e)"
  shows "journal_ok (br_journal b')"
    and "set (br_forgotten b) \<subseteq> set (br_forgotten b')"
    and "known b i \<Longrightarrow> known b' i"
    and "e = None \<Longrightarrow> known b' (record_id r)"
    and "e = None \<Longrightarrow> journal_get (br_journal b') (record_id r) = Some (stored_record r)"
    and "journal_get (br_journal b') i = Some q \<Longrightarrow>
      journal_get (br_journal b) i = Some q \<or> e = None \<and> i = record_id r \<and> q = stored_record r"
proof -
  obtain j e' where j: "journal_put (fst d) (snd d) r (br_journal b) = (j, e')"
    by (cases "journal_put (fst d) (snd d) r (br_journal b)")
  have b': "e' = e" "br_journal b' = j" "br_forgotten b' = br_forgotten b @
      filter (\<lambda>k. journal_get j k = None) (map fst (jr_records (br_journal b)))"
    using p j by (auto simp: put_record_def)
  note J = file_journal.save_refused [OF ok, of d r j] file_journal.save_done [OF ok, of d r j]
    file_journal.save_others [OF ok, of d r j]
  show "journal_ok (br_journal b')" using file_journal.save_ok [OF ok, of d r] j b' by simp
  show "set (br_forgotten b) \<subseteq> set (br_forgotten b')" using b' by auto
  show "known b i \<Longrightarrow> known b' i"
    by (auto simp: known_def b' journal_get_def intro: rev_image_eqI [OF map_of_SomeD])
  show st: "journal_get (br_journal b') (record_id r) = Some (stored_record r)" if "e = None"
    using J(2) j b' that by simp
  show "known b' (record_id r)" if "e = None" using st [OF that] by (simp add: known_def)
  show "journal_get (br_journal b) i = Some q \<or> e = None \<and> i = record_id r \<and> q = stored_record r"
    if q: "journal_get (br_journal b') i = Some q"
  proof (cases e)
    case (Some m)
    then show ?thesis using J(1) j b' q by simp
  next
    case None
    show ?thesis
    proof (cases "i = record_id r")
      case True
      then show ?thesis using None J(2) j b' q by simp
    next
      case False
      then show ?thesis using None J(3) [of i] j b' q by auto
    qed
  qed
qed

section \<open>Well-formed records\<close>

definition terminal_body :: "string \<Rightarrow> json \<Rightarrow> bool" where
  "terminal_body i t \<longleftrightarrow> (\<exists>e. t = failed_body i e) \<or> (\<exists>rep. report_validate rep = None \<and> t = result_body i rep)"

definition proper :: "task_record \<Rightarrow> bool" where
  "proper r \<longleftrightarrow> task_id_valid (record_id r) \<and>
     (case tr_terminal r of None \<Rightarrow> True | Some t \<Rightarrow> terminal_body (record_id r) t)"

definition settled :: "task_record \<Rightarrow> bool" where
  "settled r \<longleftrightarrow> proper r \<and> tr_state r = record_terminal \<and> tr_terminal r \<noteq> None"

lemma settled_with_terminal:
  "proper r \<Longrightarrow> terminal_body (record_id r) t \<Longrightarrow> settled (with_terminal t r)"
  by (simp add: settled_def proper_def with_terminal_def record_id_def)

lemma terminal_bodies [simp]: "terminal_body i (failed_body i e)"
  "report_validate rep = None \<Longrightarrow> terminal_body i (result_body i rep)"
  by (auto simp: terminal_body_def)

lemma record_id_simps [simp]:
  "record_id (with_terminal t r) = record_id r" "record_id (with_child c r) = record_id r"
  "record_id (without_child f r) = record_id r" "record_id (r\<lparr>tr_state := st\<rparr>) = record_id r"
  "record_id (delivered r) = record_id r" "record_id (received l) = lm_task l"
  "record_id (tombstone i) = i" "record_id (stored_record r) = record_id r"
  by (simp_all add: record_id_def with_terminal_def with_child_def without_child_def delivered_def received_def
      tombstone_def stored_record_def)

lemma proper_simps [simp]: "proper (with_child c r) = proper r" "proper (r\<lparr>tr_state := st\<rparr>) = proper r"
  by (auto simp: proper_def with_child_def record_id_def split: option.splits)

lemma proper_stored: "proper r \<Longrightarrow> proper (stored_record r)"
  by (auto simp: stored_record_def proper_def tombstone_def zero_record_def record_id_def)

lemma settled_child: "settled (with_child c r) = settled r"
  by (auto simp: settled_def with_child_def proper_def record_id_def split: option.splits)

lemma settled_without_child:
  "proper r \<Longrightarrow> tr_terminal r \<noteq> None \<longrightarrow> tr_state r = record_terminal \<Longrightarrow> settled (without_child f r)"
  by (auto simp: without_child_def settled_with_terminal) (simp add: settled_def)

definition proper_journal :: "journal \<Rightarrow> bool" where
  "proper_journal j \<longleftrightarrow> (\<forall>i r. journal_get j i = Some r \<longrightarrow> proper r)"

lemma proper_put:
  "journal_ok (br_journal b) \<Longrightarrow> put_record d r b = (b', e) \<Longrightarrow> proper r \<Longrightarrow> proper_journal (br_journal b) \<Longrightarrow>
   proper_journal (br_journal b')"
  using put_record_law(6) by (fastforce simp: proper_journal_def proper_stored)

lemma journal_record: "journal_ok j \<Longrightarrow> journal_get j i = Some r \<Longrightarrow> validate_record i r = None"
  by (auto simp: journal_ok_def journal_get_def list_all_iff dest!: map_of_SomeD)

lemma journal_record_id: "journal_ok j \<Longrightarrow> journal_get j i = Some r \<Longrightarrow> record_id r = i"
  by (drule (1) journal_record) (auto simp: validate_record_def split: if_splits)

lemma journal_records_get:
  assumes "journal_ok j" and "r \<in> set (journal_records j)"
  shows "journal_get j (record_id r) = Some r"
proof -
  obtain i where i: "(i, r) \<in> set (jr_records j)" using assms(2) by (auto simp: journal_records_def)
  then have g: "journal_get j i = Some r"
    using assms(1) key_order_distinct [of "jr_records j"] by (simp add: journal_get_def journal_ok_def)
  then show ?thesis using journal_record_id [OF assms(1) g] by simp
qed

section \<open>The invariant\<close>

definition starting :: "worker \<Rightarrow> bool" where
  "starting w \<longleftrightarrow> wk_stage w = Accepting"

definition registering :: "main_pc \<Rightarrow> string list" where
  "registering pc = (case pc of Registering r t \<Rightarrow> [record_id r] | _ \<Rightarrow> [])"

definition owner_ids :: "broker \<Rightarrow> string list" where
  "owner_ids b = map (\<lambda>w. record_id (wk_record w)) (filter wk_owner (br_workers b)) @ registering (br_main b)"

text \<open>The tasks that were, or still may be, started.\<close>

definition start_ids :: "broker \<Rightarrow> string list" where
  "start_ids b = br_started b @ map (\<lambda>w. record_id (wk_record w)) (filter starting (br_workers b)) @
     registering (br_main b)"

definition worker_ok :: "worker \<Rightarrow> bool" where
  "worker_ok w \<longleftrightarrow> proper (wk_record w) \<and>
     (if wk_stage w = Accepting \<or> wk_stage w = Running then wk_owner w else settled (wk_record w))"

definition main_ok :: "main_pc \<Rightarrow> bool" where
  "main_ok pc = (case pc of
     Registering r t \<Rightarrow> proper r \<and> tr_terminal r = None
   | Preparing r \<Rightarrow> settled r
   | Supervising w rs \<Rightarrow> worker_ok w \<and> \<not> wk_owner w \<and>
       (\<forall>r \<in> set rs. proper r \<and> validate_record (record_id r) r = None)
   | Recovering rs \<Rightarrow> (\<forall>r \<in> set rs. proper r \<and> validate_record (record_id r) r = None)
   | _ \<Rightarrow> True)"

definition once :: "broker \<Rightarrow> string \<Rightarrow> bool" where
  "once b i \<longleftrightarrow> i \<in> set (br_forgotten b) \<or>
     count_list (start_ids b) i \<le> 1 \<and> (i \<in> set (start_ids b) \<longrightarrow> known b i)"

definition broker_ok :: "broker \<Rightarrow> bool" where
  "broker_ok b \<longleftrightarrow> journal_ok (br_journal b) \<and> proper_journal (br_journal b) \<and>
     owner_ids b = (if br_active b = [] then [] else [br_active b]) \<and>
     list_all worker_ok (br_workers b) \<and> main_ok (br_main b) \<and> (\<forall>i. once b i) \<and>
     list_all (\<lambda>(i, t). task_id_valid i \<and> terminal_body i t) (br_sent b)"

lemma once_mono:
  assumes "once b i" and "mset (start_ids b') \<subseteq># mset (start_ids b)"
    and "set (br_forgotten b) \<subseteq> set (br_forgotten b')" and "known b i \<Longrightarrow> known b' i"
  shows "once b' i"
proof (cases "i \<in> set (br_forgotten b')")
  case False
  then have c: "count_list (start_ids b) i \<le> 1" "i \<in> set (start_ids b) \<longrightarrow> known b i"
    using assms(1,3) by (auto simp: once_def)
  have "count_list (start_ids b') i \<le> count_list (start_ids b) i"
    using mset_subset_eq_count [OF assms(2), of i] by (simp add: count_mset)
  moreover have "i \<in> set (start_ids b') \<Longrightarrow> i \<in> set (start_ids b)"
    using mset_subset_eqD [OF assms(2)] by auto
  ultimately show ?thesis using c assms(4) by (auto simp: once_def)
qed (simp add: once_def)

section \<open>Preservation\<close>

lemma broker_ok_put:
  assumes ok: "broker_ok b" and p: "put_record d r b = (b', e)" and r: "proper r"
  shows "broker_ok b'"
proof -
  have j: "journal_ok (br_journal b)" "proper_journal (br_journal b)" using ok by (simp_all add: broker_ok_def)
  note L = put_record_law [OF j(1) p]
  have ids: "start_ids b' = start_ids b" "owner_ids b' = owner_ids b"
    using p by (simp_all add: start_ids_def owner_ids_def)
  have "once b' i" for i
    using ok L(2,3) by (intro once_mono [of b i b']) (auto simp: broker_ok_def ids)
  then show ?thesis
    using ok p L(1) proper_put [OF j(1) p r j(2)] by (simp add: broker_ok_def ids)
qed

lemma advance_cases:
  assumes "advance out w b = (b', w')" and "sound_outcome out"
  obtains (started) "wk_stage w = Accepting" "b' = b\<lparr>br_started := br_started b @ [record_id (wk_record w)]\<rparr>"
      "w' = Some (w\<lparr>wk_stage := Running\<rparr>)"
  | (ended) t where "wk_stage w = Accepting \<or> wk_stage w = Running" "b' = b" "w' = Some (set_terminal t w)"
      "terminal_body (record_id (wk_record w)) t"
  | (stay) "b' = b" "w' = Some w"
  | (saved) d where "wk_stage w = Persisting" "put_record d (wk_record w) b = (b', None)"
      "w' = Some (w\<lparr>wk_stage := Delivering\<rparr>)"
  | (unsaved) d r e where "put_record d r b = (b', Some e)" "r = wk_record w \<or> r = delivered (wk_record w)" "w' = Some w"
  | (sent) "wk_stage w = Delivering" "w' = Some (w\<lparr>wk_stage := Burying\<rparr>)"
      "b' = b\<lparr>br_sent := br_sent b @ [(record_id (wk_record w),
        case tr_terminal (wk_record w) of None \<Rightarrow> JNull | Some t \<Rightarrow> t)]\<rparr>"
  | (gone) "wk_stage w = Delivering" "b' = b" "w' = None"
  | (buried) d where "wk_stage w = Burying" "put_record d (delivered (wk_record w)) b = (b', None)" "w' = None"
proof -
  have s: "(case out of Ran (Inr rep) \<Rightarrow> report_validate rep = None | _ \<Rightarrow> True)"
    using assms(2) by (simp add: sound_outcome_def)
  show ?thesis
  proof (cases "wk_stage w")
    case Accepting
    then show ?thesis using assms(1) started ended stay
      by (auto simp: advance.simps Let_def split: outcome.splits)
  next
    case Running
    show ?thesis
    proof (cases out)
      case (Ran res)
      then show ?thesis using Running assms(1) s ended
        by (cases res) (auto simp: advance.simps Let_def)
    qed (use Running assms(1) stay in \<open>auto simp: advance.simps Let_def\<close>)
  next
    case Persisting
    show ?thesis
    proof (cases out)
      case (Disk d)
      obtain c e where "put_record d (wk_record w) b = (c, e)" by (cases "put_record d (wk_record w) b")
      then show ?thesis using Disk Persisting assms(1) saved unsaved
        by (cases e) (auto simp: advance.simps Let_def)
    qed (use Persisting assms(1) stay in \<open>auto simp: advance.simps Let_def\<close>)
  next
    case Delivering
    then show ?thesis using assms(1) sent gone stay
      by (auto simp: advance.simps Let_def split: outcome.splits)
  next
    case Burying
    show ?thesis
    proof (cases out)
      case (Disk d)
      obtain c e where "put_record d (delivered (wk_record w)) b = (c, e)"
        by (cases "put_record d (delivered (wk_record w)) b")
      then show ?thesis using Disk Burying assms(1) buried unsaved
        by (cases e) (auto simp: advance.simps Let_def)
    qed (use Burying assms(1) stay in \<open>auto simp: advance.simps Let_def\<close>)
  qed
qed

lemma proper_delivered: "proper r \<Longrightarrow> proper (delivered r)"
  by (simp add: proper_def delivered_def record_id_def zero_record_def)

lemma worker_ok_simps:
  "worker_ok w \<Longrightarrow> proper (wk_record w)"
  "worker_ok w \<Longrightarrow> wk_stage w = Accepting \<Longrightarrow> worker_ok (w\<lparr>wk_stage := Running\<rparr>)"
  "worker_ok w \<Longrightarrow> wk_stage w \<notin> {Accepting, Running} \<Longrightarrow> st \<notin> {Accepting, Running} \<Longrightarrow> worker_ok (w\<lparr>wk_stage := st\<rparr>)"
  "worker_ok w \<Longrightarrow> terminal_body (record_id (wk_record w)) t \<Longrightarrow> worker_ok (set_terminal t w)"
  by (auto simp: worker_ok_def set_terminal_def settled_with_terminal settled_def split: if_splits)
    (auto simp: proper_def with_terminal_def record_id_def)

text \<open>A worker exchanged for one with the same task, and a worker that leaves.\<close>

lemma exchange_worker:
  assumes ok: "broker_ok b" and w: "br_workers b = bef @ w # aft" and x: "worker_ok x"
    and o: "wk_owner x = wk_owner w" "record_id (wk_record x) = record_id (wk_record w)"
    and st: "st = [] \<and> (starting x \<longrightarrow> starting w) \<or>
      st = [record_id (wk_record w)] \<and> starting w \<and> \<not> starting x"
  shows "broker_ok (b\<lparr>br_started := br_started b @ st, br_workers := bef @ x # aft\<rparr>)"
proof -
  let ?b = "b\<lparr>br_started := br_started b @ st, br_workers := bef @ x # aft\<rparr>"
  have ids: "owner_ids ?b = owner_ids b" using w o by (simp add: owner_ids_def)
  have "mset (start_ids ?b) \<subseteq># mset (start_ids b)" using w o st by (auto simp: start_ids_def)
  moreover have "known b i \<Longrightarrow> known ?b i" for i by (simp add: known_def)
  ultimately have "once ?b i" for i
    using ok by (intro once_mono [of b i ?b]) (auto simp: broker_ok_def)
  moreover have "list_all worker_ok (bef @ x # aft)" using ok w x by (simp add: broker_ok_def)
  ultimately show ?thesis using ok ids by (simp add: broker_ok_def)
qed

lemma exchange_same:
  assumes "broker_ok b" and "br_workers b = bef @ w # aft" and "worker_ok x"
    and "wk_owner x = wk_owner w" "record_id (wk_record x) = record_id (wk_record w)" "starting x \<longrightarrow> starting w"
  shows "broker_ok (b\<lparr>br_workers := bef @ x # aft\<rparr>)"
  using exchange_worker [OF assms(1-5), of "[]"] assms(6) by simp

lemma append_is_singleton: "xs @ i # ys = [a] \<longleftrightarrow> xs = [] \<and> ys = [] \<and> i = a"
  by (cases xs) auto

lemma remove_worker:
  assumes ok: "broker_ok b" and w: "br_workers b = bef @ w # aft"
  shows "broker_ok (settle bef w None aft b)"
proof -
  let ?c = "b\<lparr>br_workers := bef @ aft\<rparr>"
  let ?b = "settle bef w None aft b"
  have fields: "br_journal ?b = br_journal b" "br_workers ?b = bef @ aft" "br_main ?b = br_main b"
      "br_started ?b = br_started b" "br_sent ?b = br_sent b" "br_forgotten ?b = br_forgotten b"
    by (simp_all add: settle_def Let_def deactivate_def)
  have "mset (start_ids ?b) \<subseteq># mset (start_ids b)"
    using w by (auto simp: start_ids_def fields)
  moreover have "known b i \<Longrightarrow> known ?b i" for i by (simp add: known_def fields)
  ultimately have "once ?b i" for i
    using ok by (intro once_mono [of b i ?b]) (auto simp: broker_ok_def fields)
  moreover have "owner_ids ?b = (if br_active ?b = [] then [] else [br_active ?b])"
  proof -
    let ?o = "\<lambda>ws. map (\<lambda>w. record_id (wk_record w)) (filter wk_owner ws)"
    have e: "?o (bef @ w # aft) @ registering (br_main b) = (if br_active b = [] then [] else [br_active b])"
      using ok w by (simp add: broker_ok_def owner_ids_def)
    show ?thesis
    proof (cases "wk_owner w")
      case True
      then have a: "br_active b \<noteq> []" using e by (auto split: if_splits)
      then have "?o bef @ record_id (wk_record w) # (?o aft @ registering (br_main b)) = [br_active b]"
        using e True by simp
      then have "?o bef = []" "?o aft @ registering (br_main b) = []" "record_id (wk_record w) = br_active b"
        unfolding append_is_singleton by blast+
      then show ?thesis using True by (simp add: owner_ids_def fields) (simp add: settle_def deactivate_def)
    next
      case False
      then have "br_active ?b = br_active b" by (simp add: settle_def)
      then show ?thesis using e False by (simp add: owner_ids_def fields)
    qed
  qed
  ultimately show ?thesis using ok w by (simp add: broker_ok_def fields)
qed

lemma settled_sent:
  "settled r \<Longrightarrow> task_id_valid (record_id r) \<and>
    terminal_body (record_id r) (case tr_terminal r of None \<Rightarrow> JNull | Some t \<Rightarrow> t)"
  by (auto simp: settled_def proper_def)

lemma work_ok:
  assumes ok: "broker_ok b" and w: "br_workers b = bef @ w # aft"
    and adv: "advance out w b = (b', w')" and so: "sound_outcome out"
  shows "broker_ok (settle bef w w' aft b')"
proof -
  have wok: "worker_ok w" using ok w by (simp add: broker_ok_def)
  note W = worker_ok_simps [OF wok]
  have same: "broker_ok (settle bef w (Some x) aft b)"
    if "worker_ok x" "wk_owner x = wk_owner w" "record_id (wk_record x) = record_id (wk_record w)"
      "starting x \<longrightarrow> starting w" for x
    using exchange_same [OF ok w that] by (simp add: settle_def)
  show ?thesis
    using adv so
  proof (cases rule: advance_cases)
    case started
    then show ?thesis
      using exchange_worker [OF ok w W(2), of "[record_id (wk_record w)]"] by (simp add: settle_def starting_def)
  next
    case (ended t)
    then show ?thesis using same [OF W(3)] W(4) same by (simp add: set_terminal_def starting_def)
  next
    case stay
    then show ?thesis using same [OF wok] by simp
  next
    case (saved d)
    have "broker_ok b'" by (rule broker_ok_put [OF ok saved(2) W(1)])
    moreover have "br_workers b' = bef @ w # aft" using saved(2) w by simp
    ultimately show ?thesis
      using exchange_same [of b' bef w aft "w\<lparr>wk_stage := Delivering\<rparr>"] saved W(3) [of Delivering]
      by (simp add: settle_def starting_def)
  next
    case (unsaved d r e)
    have "broker_ok b'" using broker_ok_put [OF ok unsaved(1)] unsaved(2) W(1) proper_delivered by blast
    moreover have "br_workers b' = bef @ w # aft" using unsaved(1) w by simp
    ultimately show ?thesis
      using exchange_same [of b' bef w aft w] unsaved(3) wok by (simp add: settle_def)
  next
    case sent
    let ?c = "settle bef w (Some (w\<lparr>wk_stage := Burying\<rparr>)) aft b"
    have "broker_ok ?c" using sent W(3) [of Burying] by (intro same) (simp_all add: starting_def)
    moreover have "settled (wk_record w)" using wok sent(1) by (simp add: worker_ok_def)
    ultimately show ?thesis
      using sent settled_sent [of "wk_record w"]
      by (simp add: settle_def broker_ok_def owner_ids_def start_ids_def once_def known_def)
  next
    case gone
    then show ?thesis using remove_worker [OF ok w] by simp
  next
    case (buried d)
    have "broker_ok b'" using broker_ok_put [OF ok buried(2)] W(1) proper_delivered by blast
    moreover have "br_workers b' = bef @ w # aft" using buried(2) w by simp
    ultimately show ?thesis using remove_worker buried(3) by simp
  qed
qed

section \<open>The main loop\<close>

lemma set_main:
  assumes "broker_ok b" and "main_ok pc" and "registering (br_main b) = []" and "registering pc = []"
  shows "broker_ok (b\<lparr>br_main := pc\<rparr>)"
  using assms by (simp add: broker_ok_def owner_ids_def start_ids_def once_def known_def)

lemma add_supervised:
  assumes "broker_ok b" and "settled r"
  shows "broker_ok (add_worker (supervise r) b)"
  using assms by (simp add: add_worker_def supervise_def broker_ok_def owner_ids_def start_ids_def once_def known_def
      worker_ok_def starting_def settled_def)

lemma leave_registering:
  assumes ok: "broker_ok b" and m: "br_main b = Registering r t" and pc: "main_ok pc" "registering pc = []"
  shows "broker_ok ((deactivate (record_id r) b)\<lparr>br_main := pc\<rparr>)"
proof -
  let ?b = "(deactivate (record_id r) b)\<lparr>br_main := pc\<rparr>"
  have fields: "br_journal ?b = br_journal b" "br_workers ?b = br_workers b" "br_main ?b = pc"
      "br_started ?b = br_started b" "br_sent ?b = br_sent b" "br_forgotten ?b = br_forgotten b"
    by (simp_all add: deactivate_def)
  have e: "map (\<lambda>w. record_id (wk_record w)) (filter wk_owner (br_workers b)) @ record_id r # [] =
      (if br_active b = [] then [] else [br_active b])"
    using ok m by (simp add: broker_ok_def owner_ids_def registering_def)
  then have a: "br_active b \<noteq> []" by (auto split: if_splits)
  then have "filter wk_owner (br_workers b) = []" "record_id r = br_active b"
    using e append_is_singleton [of _ "record_id r" "[]" "br_active b"] by auto
  then have "owner_ids ?b = []" "br_active ?b = []"
    using pc(2) by (simp_all add: owner_ids_def deactivate_def)
  moreover have "once ?b i" for i
    using ok pc(2) by (intro once_mono [of b i ?b]) (auto simp: broker_ok_def start_ids_def fields known_def)
  ultimately show ?thesis using ok pc(1) by (simp add: broker_ok_def fields)
qed

lemma hand_to_worker:
  assumes ok: "broker_ok b" and m: "br_main b = Registering r t" and r': "proper r'" "record_id r' = record_id r"
  shows "broker_ok ((add_worker \<lparr>wk_record = r', wk_stage = Accepting, wk_owner = True\<rparr> b)\<lparr>br_main := Polling\<rparr>)"
proof -
  let ?b = "(add_worker \<lparr>wk_record = r', wk_stage = Accepting, wk_owner = True\<rparr> b)\<lparr>br_main := Polling\<rparr>"
  have "owner_ids ?b = owner_ids b"
    using m r'(2) by (simp add: owner_ids_def registering_def add_worker_def)
  moreover have "once ?b i" for i
    using ok m r'(2) by (intro once_mono [of b i ?b])
      (auto simp: broker_ok_def start_ids_def registering_def add_worker_def known_def starting_def)
  moreover have "worker_ok \<lparr>wk_record = r', wk_stage = Accepting, wk_owner = True\<rparr>"
    using r'(1) by (simp add: worker_ok_def)
  ultimately show ?thesis using ok by (simp add: broker_ok_def add_worker_def main_ok_def)
qed

lemma begin_task:
  assumes ok: "broker_ok b" and m: "br_main b = Polling" and free: "br_active b = []"
    and fresh: "journal_get (br_journal b) (record_id r) = None" and r: "proper r" "tr_terminal r = None"
    and p: "put_record d r b = (b', None)"
  shows "broker_ok ((activate (record_id r) b')\<lparr>br_main := Registering r t\<rparr>)"
proof -
  let ?i = "record_id r"
  let ?b = "(activate ?i b')\<lparr>br_main := Registering r t\<rparr>"
  have ok': "broker_ok b'" by (rule broker_ok_put [OF ok p r(1)])
  have j: "journal_ok (br_journal b)" using ok by (simp add: broker_ok_def)
  note L = put_record_law [OF j p]
  have ne: "?i \<noteq> []" using r(1) by (auto simp: proper_def task_id_valid_def task_prefix_def cut_prefix_def)
  have a: "br_active b' = []" "br_main b' = Polling" using p free m by simp_all
  have none: "owner_ids b' = []" using ok' a by (simp add: broker_ok_def)
  have fields: "br_journal ?b = br_journal b'" "br_workers ?b = br_workers b'" "br_main ?b = Registering r t"
      "br_started ?b = br_started b'" "br_sent ?b = br_sent b'" "br_forgotten ?b = br_forgotten b'" "br_active ?b = ?i"
    using a by (simp_all add: activate_def)
  have ids: "mset (start_ids ?b) = mset (start_ids b') + {#?i#}"
    using a by (simp add: start_ids_def fields registering_def)
  have "once ?b i" for i
  proof (cases "i = ?i \<and> i \<notin> set (br_forgotten b')")
    case True
    then have "\<not> known b ?i" using fresh L(2) by (auto simp: known_def)
    then have "?i \<notin> set (start_ids b)" using ok True L(2) by (auto simp: broker_ok_def once_def)
    moreover have "start_ids b' = start_ids b" using p by (simp add: start_ids_def)
    ultimately have "count (mset (start_ids ?b)) ?i = 1" unfolding ids by (simp add: count_list_0_iff count_mset)
    then have "count_list (start_ids ?b) ?i = 1" by (simp add: count_mset)
    moreover have "known ?b ?i" using L(4) by (simp add: known_def fields)
    ultimately show ?thesis using True by (simp add: once_def)
  next
    case False
    then show ?thesis
    proof (cases "i = ?i")
      case True
      then show ?thesis using False by (simp add: once_def fields)
    next
      case ni: False
      have "count (mset (start_ids ?b)) i = count (mset (start_ids b')) i" "set_mset (mset (start_ids ?b)) = insert ?i (set (start_ids b'))"
        unfolding ids using ni by simp_all
      then have "count_list (start_ids ?b) i = count_list (start_ids b') i" "i \<in> set (start_ids ?b) \<longleftrightarrow> i \<in> set (start_ids b')"
        using ni by (simp_all add: count_mset)
      moreover have "once b' i" using ok' by (simp add: broker_ok_def)
      ultimately show ?thesis by (simp add: once_def fields known_def)
    qed
  qed
  moreover have "owner_ids ?b = [?i]" using none a by (simp add: owner_ids_def fields registering_def)
  ultimately show ?thesis using ok' ne r by (simp add: broker_ok_def fields main_ok_def)
qed

section \<open>Decisions\<close>

lemma launch_id: "task_validate (launch_task l) = None \<Longrightarrow> task_id_valid (lm_task l)"
  by (auto simp: task_validate_def launch_task_def split: if_splits)

lemma received_simps [simp]: "tr_terminal (received l) = None" "tr_launch (received l) = l"
  by (simp_all add: received_def zero_record_def)

lemma proper_received: "task_id_valid (lm_task l) \<Longrightarrow> proper (received l)"
  by (simp add: proper_def)

lemma decide_launch_cases:
  assumes "decide_launch p look active l0 = dec" and "dec \<noteq> Ignore"
  obtains (again) r where "dec = Resume r" "look (lm_task l0) = Some r" "tr_state r = record_terminal"
  | (busy) l where "dec = Refuse (with_terminal (failed_body (lm_task l) ''eyes busy'') (received l))"
      "task_id_valid (lm_task l)"
  | (fresh) l where "dec = Begin (received l) (launch_task l)" "task_validate (launch_task l) = None"
      "look (lm_task l) = None" "active = []"
proof -
  let ?l = "l0\<lparr>lm_runtime := if lm_runtime l0 = [] then p else lm_runtime l0\<rparr>"
  have v: "task_validate (launch_task ?l) = None"
    using assms by (auto simp: decide_launch_def Let_def split: if_splits)
  have id: "lm_task ?l = lm_task l0" by simp
  show ?thesis
  proof (cases "look (lm_task l0)")
    case None
    then show ?thesis
      using assms v busy [of ?l] fresh [of ?l] launch_id [OF v]
      by (simp add: decide_launch_def Let_def split: if_splits)
  next
    case (Some r)
    then show ?thesis
      using assms again [of r] by (simp add: decide_launch_def Let_def split: if_splits)
  qed
qed

lemma decide_cancel_acknowledge:
  "decide_cancel look m c = Acknowledge r \<Longrightarrow> settled r"
  by (auto simp: decide_cancel_def valid_cancel_envelope_def intro!: settled_with_terminal
      split: option.splits if_splits) (simp_all add: proper_def record_id_def zero_record_def)

lemma decide_cancel_only:
  "decide_cancel look m c \<noteq> Begin r t" "decide_cancel look m c \<noteq> Refuse r" "decide_cancel look m c \<noteq> Resume r"
  by (auto simp: decide_cancel_def split: option.splits)

lemma decide_launch_only: "decide_launch p look active l \<noteq> Acknowledge r" "decide_launch p look active l \<noteq> CancelRunning i"
  by (auto simp: decide_launch_def Let_def split: option.splits)

lemma decide_message_cases:
  assumes "decide_message p look active m = dec" and "dec \<noteq> Ignore"
  obtains (launch) l where "decode_task_json (dec_struct True (launch_fields True)) zero_launch (msg_body m) = Some l"
      "msg_task m = lm_task l" "decide_launch p look active l = dec"
  | (cancel) c where "decide_cancel look m c = dec"
  using assms by (auto simp: decide_message_def Let_def split: option.splits if_splits)

lemma refuse_ok:
  assumes "broker_ok b" and "registering (br_main b) = []" and "settled r"
  shows "broker_ok (refuse d r b)"
proof -
  obtain b' e where p: "put_record d r b = (b', e)" by (cases "put_record d r b")
  have "broker_ok b'" using broker_ok_put [OF assms(1) p] assms(3) by (simp add: settled_def)
  then show ?thesis
    using set_main [of b'] p assms(2,3) by (cases e) (simp_all add: refuse_def main_ok_def registering_def)
qed

lemma take_message_ok:
  assumes ok: "broker_ok b" and m: "br_main b = Polling"
  shows "broker_ok (take_message provider d msg b)"
proof -
  let ?look = "journal_get (br_journal b)"
  have reg: "registering (br_main b) = []" by (simp add: m registering_def)
  have j: "journal_ok (br_journal b)" "proper_journal (br_journal b)" using ok by (simp_all add: broker_ok_def)
  show ?thesis
  proof (cases "decide_message provider ?look (br_active b) msg = Ignore")
    case True
    then show ?thesis using ok by (simp add: take_message_def)
  next
    case False
    show ?thesis
      using refl False
    proof (cases rule: decide_message_cases)
      case (cancel c)
      show ?thesis
      proof (cases "decide_message provider ?look (br_active b) msg")
        case (Acknowledge r)
        then have "settled r" using cancel decide_cancel_acknowledge by metis
        then show ?thesis using set_main [OF ok _ reg, of "Supervising (supervise r) []"] Acknowledge
          by (simp add: take_message_def main_ok_def registering_def supervise_def worker_ok_def settled_def)
      qed (use cancel decide_cancel_only ok in \<open>auto simp: take_message_def\<close>)
    next
      case (launch l0)
      show ?thesis
        using launch(3) False
      proof (cases rule: decide_launch_cases)
        case (again r)
        have "validate_record (lm_task l0) r = None" "proper r"
          using again(2) j journal_record by (auto simp: proper_journal_def)
        then have "settled r" using again(3)
          by (auto simp: settled_def validate_record_def record_state_defs split: if_splits)
        then show ?thesis using add_supervised [OF ok] again(1) by (simp add: take_message_def)
      next
        case (busy l)
        have "settled (with_terminal (failed_body (lm_task l) ''eyes busy'') (received l))"
          using busy(2) by (intro settled_with_terminal proper_received) simp_all
        then show ?thesis using refuse_ok [OF ok reg] busy(1) by (simp add: take_message_def)
      next
        case (fresh l)
        have pr: "proper (received l)" by (rule proper_received [OF launch_id [OF fresh(2)]])
        obtain b' e where p: "put_record d (received l) b = (b', e)" by (cases "put_record d (received l) b")
        show ?thesis
        proof (cases e)
          case None
          have "br_active b' = []" using p fresh(4) by simp
          moreover have "broker_ok ((activate (record_id (received l)) b')\<lparr>br_main := Registering (received l) (launch_task l)\<rparr>)"
            using fresh p None by (intro begin_task [OF ok m fresh(4) _ pr]) simp_all
          ultimately show ?thesis using fresh(1) p None by (simp add: take_message_def)
        next
          case (Some x)
          have "broker_ok b'" by (rule broker_ok_put [OF ok p pr])
          then show ?thesis using fresh(1) p Some set_main [of b' Stopped] reg
            by (simp add: take_message_def main_ok_def registering_def)
        qed
      qed
    qed
  qed
qed

lemma needs_child_open:
  "needs_child r \<Longrightarrow> validate_record (record_id r) r = None \<Longrightarrow> tr_terminal r = None"
  by (auto simp: needs_child_def validate_record_def record_state_defs split: if_splits)

lemma main_supervise:
  "settled r \<Longrightarrow> \<forall>x \<in> set rs. proper x \<and> validate_record (record_id x) x = None \<Longrightarrow>
   main_ok (Supervising (supervise r) rs)"
  by (simp add: main_ok_def supervise_def worker_ok_def settled_def)

lemma registering_simps [simp]: "registering (Supervising w rs) = []" "registering Stopped = []"
  "registering Polling = []" "registering (Recovering rs) = []" "registering (Preparing r) = []"
  by (simp_all add: registering_def)

lemma main_ok_idle [simp]: "main_ok Stopped" "main_ok Polling"
  by (simp_all add: main_ok_def)

lemma child_answer_registering:
  assumes ok: "broker_ok b" and m: "br_main b = Registering r t"
  shows "broker_ok (child_answer d answer b)"
proof -
  have r: "proper r" "tr_terminal r = None" using ok m by (simp_all add: broker_ok_def main_ok_def)
  show ?thesis
  proof (cases answer)
    case (Inl e)
    show ?thesis
    proof (cases e)
      case (RelayRefused x)
      have "settled (without_child (''register eyes child: '' @ x) r)"
        using r by (intro settled_without_child) simp_all
      then show ?thesis
        using Inl RelayRefused m leave_registering [OF ok m main_supervise] by (simp add: child_answer_def)
    next
      case (CallFailed x)
      then show ?thesis using Inl m leave_registering [OF ok m, of Stopped] by (simp add: child_answer_def)
    qed
  next
    case (Inr c)
    let ?r = "(with_child c r)\<lparr>tr_state := record_accepted\<rparr>"
    obtain b' e where p: "put_record d ?r b = (b', e)" by (cases "put_record d ?r b")
    have ok': "broker_ok b'" by (rule broker_ok_put [OF ok p]) (simp add: r)
    have m': "br_main b' = Registering r t" using p m by simp
    show ?thesis
    proof (cases e)
      case None
      have "broker_ok ((add_worker \<lparr>wk_record = ?r, wk_stage = Accepting, wk_owner = True\<rparr> b')\<lparr>br_main := Polling\<rparr>)"
        by (rule hand_to_worker [OF ok' m']) (simp_all add: r)
      then show ?thesis using Inr m p None by (simp add: child_answer_def Let_def)
    next
      case (Some x)
      then show ?thesis using Inr m p leave_registering [OF ok' m', of Stopped] by (simp add: child_answer_def Let_def)
    qed
  qed
qed

lemma child_answer_preparing:
  assumes ok: "broker_ok b" and m: "br_main b = Preparing r"
  shows "broker_ok (child_answer d answer b)"
proof -
  have r: "settled r" and reg: "registering (br_main b) = []" using ok m by (simp_all add: broker_ok_def main_ok_def)
  show ?thesis
  proof (cases answer)
    case (Inl e)
    have "settled (without_child f r)" for f
      using r by (intro settled_without_child) (simp_all add: settled_def)
    then show ?thesis
      using Inl m set_main [OF ok _ reg] main_supervise by (cases e) (simp_all add: child_answer_def)
  next
    case (Inr c)
    obtain b' e where p: "put_record d (with_child c r) b = (b', e)" by (cases "put_record d (with_child c r) b")
    have ok': "broker_ok b'" using broker_ok_put [OF ok p] r by (simp add: settled_def)
    have reg': "registering (br_main b') = []" using p m by simp
    show ?thesis
    proof (cases e)
      case None
      have "broker_ok (add_worker (supervise (with_child c r)) b')"
        using add_supervised [OF ok'] r by (simp add: settled_child)
      then have "broker_ok ((add_worker (supervise (with_child c r)) b')\<lparr>br_main := Polling\<rparr>)"
        using reg' by (intro set_main) (simp_all add: add_worker_def)
      then show ?thesis using Inr m p None by (simp add: child_answer_def)
    next
      case (Some x)
      then show ?thesis using Inr m p set_main [OF ok' _ reg', of Stopped] by (simp add: child_answer_def)
    qed
  qed
qed

lemma child_answer_recovering:
  assumes ok: "broker_ok b" and m: "br_main b = Recovering (r # rs)" and n: "needs_child r"
  shows "broker_ok (child_answer d answer b)"
proof -
  have r: "proper r" "validate_record (record_id r) r = None" and reg: "registering (br_main b) = []"
    and rs: "\<forall>x \<in> set rs. proper x \<and> validate_record (record_id x) x = None"
    using ok m by (auto simp: broker_ok_def main_ok_def)
  have open_: "tr_terminal r = None" by (rule needs_child_open [OF n r(2)])
  show ?thesis
  proof (cases answer)
    case (Inl e)
    have "settled (without_child f r)" for f using r open_ by (intro settled_without_child) simp_all
    then show ?thesis
      using Inl m n set_main [OF ok _ reg] main_supervise [OF _ rs] by (cases e) (simp_all add: child_answer_def)
  next
    case (Inr c)
    have "tr_state (with_child c r) \<noteq> record_terminal" using n by (simp add: needs_child_def with_child_def)
    moreover have "settled (with_terminal (failed_body (record_id r) f) (with_child c r))" for f
      using r by (intro settled_with_terminal) simp_all
    ultimately show ?thesis
      using Inr m n set_main [OF ok main_supervise [OF _ rs] reg] by (simp add: child_answer_def Let_def)
  qed
qed

lemma child_answer_ok: "broker_ok b \<Longrightarrow> broker_ok (child_answer d answer b)"
proof (cases "br_main b")
  case (Recovering rs)
  assume "broker_ok b"
  then show ?thesis
    using Recovering child_answer_recovering [of b] by (cases rs) (auto simp: child_answer_def)
qed (auto simp: child_answer_registering child_answer_preparing, auto simp: child_answer_def)

lemma recover_ok:
  assumes ok: "broker_ok b" and n: "recover_next b = Some b'"
  shows "broker_ok b'"
proof -
  obtain rs where m: "br_main b = Recovering rs" using n by (auto simp: recover_next_def split: main_pc.splits)
  then have reg: "registering (br_main b) = []" by simp
  show ?thesis
  proof (cases rs)
    case Nil
    then show ?thesis using n m set_main [OF ok _ reg, of Polling] by (simp add: recover_next_def)
  next
    case (Cons r qs)
    have r: "proper r" "validate_record (record_id r) r = None"
      and qs: "\<forall>x \<in> set qs. proper x \<and> validate_record (record_id x) x = None"
      using ok m Cons by (auto simp: broker_ok_def main_ok_def)
    have fin: "tr_state r = record_terminal \<Longrightarrow> settled r"
      using r by (auto simp: settled_def validate_record_def record_state_defs split: if_splits)
    have fail: "settled (with_terminal (failed_body (record_id r) f) r)" for f
      using r by (intro settled_with_terminal) simp_all
    have skip: "main_ok (Recovering qs)" using qs by (simp add: main_ok_def)
    show ?thesis
      using n m Cons set_main [OF ok _ reg] main_supervise [OF fin qs] main_supervise [OF fail qs] skip
      by (auto simp: recover_next_def split: if_splits)
  qed
qed

lemma main_work_ok:
  assumes ok: "broker_ok b" and m: "br_main b = Supervising w rest"
    and adv: "advance out w b = (b', w')" and so: "sound_outcome out"
  shows "broker_ok (settle_main w' out rest b')"
proof -
  have w: "worker_ok w" "\<not> wk_owner w" and rest: "\<forall>x \<in> set rest. proper x \<and> validate_record (record_id x) x = None"
    using ok m by (auto simp: broker_ok_def main_ok_def)
  have st: "wk_stage w \<noteq> Accepting" "wk_stage w \<noteq> Running" using w by (auto simp: worker_ok_def split: if_splits)
  have reg: "registering (br_main b) = []" using m by simp
  note W = worker_ok_simps [OF w(1)]
  have go: "broker_ok (settle_main (Some x) out rest c)"
    if "broker_ok c" "registering (br_main c) = []" "worker_ok x" "\<not> wk_owner x" for x c
    using set_main [OF that(1) _ that(2)] that(3,4) rest by (simp add: settle_main_def main_ok_def)
  have stop: "broker_ok (settle_main None out rest c)" if "broker_ok c" "registering (br_main c) = []" for c
    using set_main [OF that(1) _ that(2)] rest by (simp add: settle_main_def main_ok_def)
  show ?thesis
    using adv so
  proof (cases rule: advance_cases)
    case (saved d)
    then show ?thesis
      using go [of b' "w\<lparr>wk_stage := Delivering\<rparr>"] broker_ok_put [OF ok saved(2) W(1)] W(3) [of Delivering] w reg
      by simp
  next
    case (unsaved d r e)
    have "broker_ok b'" using broker_ok_put [OF ok unsaved(1)] unsaved(2) W(1) proper_delivered by blast
    then show ?thesis using go [of b' w] unsaved(1,3) w reg by simp
  next
    case sent
    have "settled (wk_record w)" using w(1) sent(1) by (simp add: worker_ok_def)
    then have "broker_ok b'"
      using ok sent settled_sent [of "wk_record w"]
      by (simp add: broker_ok_def owner_ids_def start_ids_def once_def known_def)
    then show ?thesis using go [of b' "w\<lparr>wk_stage := Burying\<rparr>"] sent W(3) [of Burying] w reg by simp
  next
    case (buried d)
    have "broker_ok b'" using broker_ok_put [OF ok buried(2)] W(1) proper_delivered by blast
    then show ?thesis using stop [of b'] buried(2,3) reg by simp
  qed (use st go [OF ok reg] stop [OF ok reg] w in auto)
qed

lemma records_ok:
  "broker_ok b \<Longrightarrow> main_ok (Recovering (journal_records (br_journal b)))"
  using journal_records_get [of "br_journal b"] journal_record [of "br_journal b"]
  by (fastforce simp: broker_ok_def main_ok_def proper_journal_def)

lemma restart_ok:
  assumes ok: "broker_ok b"
  shows "broker_ok (restarted b)"
proof -
  have "once (restarted b) i" for i
    using ok by (intro once_mono [of b i "restarted b"])
      (auto simp: broker_ok_def start_ids_def restarted_def known_def)
  then show ?thesis
    using ok records_ok [OF ok] by (simp add: broker_ok_def restarted_def owner_ids_def)
qed

lemma broker_step_ok: "broker_step provider b e b' \<Longrightarrow> broker_ok b \<Longrightarrow> broker_ok b'"
  by (induction rule: broker_step.induct)
    (simp_all add: take_message_ok child_answer_ok recover_ok work_ok main_work_ok restart_ok)

lemma new_broker_ok: "journal_ok j \<Longrightarrow> proper_journal j \<Longrightarrow> broker_ok (new_broker j)"
proof -
  assume j: "journal_ok j" "proper_journal j"
  have "once (new_broker j) i" for i
  proof -
    have "distinct (map fst (jr_records j))" using j(1) key_order_distinct [of "jr_records j"] by (simp add: journal_ok_def)
    then have "count_list (map fst (jr_records j)) i \<le> 1" by (metis count_mset distinct_count_atmost_1 le_numeral_extra(4) zero_le)
    moreover have "start_ids (new_broker j) = map fst (jr_records j)" by (simp add: start_ids_def new_broker_def)
    moreover have "i \<in> set (map fst (jr_records j)) \<Longrightarrow> known (new_broker j) i"
      by (auto simp: known_def new_broker_def journal_get_def map_of_eq_None_iff)
    ultimately show ?thesis by (simp add: once_def)
  qed
  then have start: "\<forall>i. once (new_broker j) i" by blast
  have "main_ok (Recovering (journal_records j))"
    using journal_records_get [OF j(1)] journal_record [OF j(1)] j(2) by (fastforce simp: main_ok_def proper_journal_def)
  then show ?thesis
    using j start by (simp add: broker_ok_def owner_ids_def) (simp add: new_broker_def)
qed

lemma broker_run_ok:
  assumes "runs (broker_step provider) (new_broker j) es b" and "journal_ok j" and "proper_journal j"
  shows "broker_ok b"
  using runs_invariant [OF assms(1), of broker_ok] new_broker_ok [OF assms(2,3)] broker_step_ok by blast

lemma count_list_distinct: "(\<And>i. count_list xs i \<le> 1) \<Longrightarrow> distinct xs"
proof (induction xs)
  case (Cons x xs)
  have "count_list xs i \<le> 1" for i using Cons.prems [of i] by (simp split: if_splits)
  moreover have "x \<notin> set xs" using Cons.prems [of x] by (simp add: count_list_0_iff)
  ultimately show ?case using Cons.IH by simp
qed simp

lemma count_list_filter: "count_list (filter p xs) i = (if p i then count_list xs i else 0)"
  by (induction xs) auto

lemma once_distinct:
  assumes "\<And>i. once b i"
  shows "distinct (filter (\<lambda>i. i \<notin> set (br_forgotten b)) (start_ids b))"
proof (rule count_list_distinct)
  fix i
  show "count_list (filter (\<lambda>i. i \<notin> set (br_forgotten b)) (start_ids b)) i \<le> 1"
    using assms [of i] by (auto simp: once_def count_list_filter)
qed

end
