(* ===== verification/RunnerProps.thy ===== *)
theory RunnerProps
  imports Runner
begin

text \<open>
  What the host runner promises: a run either carries a validated report or an error, never more
  output than its limit, and leaves the slot free; and what a task brings with it reaches the
  provider's prompt only.
\<close>

section \<open>Reports\<close>

lemma finish_report_valid: "finish_report r = Inr rep \<Longrightarrow> report_validate rep = None"
  by (auto simp: finish_report_def Let_def split: option.splits)

lemma report_of_valid: "report_of j = Inr rep \<Longrightarrow> report_validate rep = None"
  by (auto simp: report_of_def finish_report_valid split: prod.splits if_splits)

lemma parse_report_valid: "parse_report data = Inr rep \<Longrightarrow> report_validate rep = None"
  by (auto simp: parse_report_def report_of_valid split: option.splits prod.splits if_splits)

lemma read_report_valid: "read_report file = Inr rep \<Longrightarrow> report_validate rep = None"
  by (auto simp: read_report_def parse_report_valid split: option.splits if_splits)

lemma parse_claude_report_valid: "parse_claude_report out = Inr rep \<Longrightarrow> report_validate rep = None"
  by (auto simp: parse_claude_report_def Let_def report_of_valid split: option.splits prod.splits if_splits)

text \<open>A decoder whose every success is a validated report.\<close>

definition decodes_valid :: "invocation \<Rightarrow> bool" where
  "decodes_valid iv \<longleftrightarrow> (case iv_decode iv of None \<Rightarrow> True
     | Some d \<Rightarrow> \<forall>files out rep. d files out = Inr rep \<longrightarrow> report_validate rep = None)"

lemma codex_decodes_valid: "codex_prepare os c t scratch = Inr iv \<Longrightarrow> decodes_valid iv"
  by (auto simp: codex_prepare_def Let_def base_invocation_def decodes_valid_def read_report_valid split: if_splits)

lemma claude_decodes_valid: "claude_prepare schema os c t scratch = Inr iv \<Longrightarrow> decodes_valid iv"
  by (auto simp: claude_prepare_def Let_def base_invocation_def decodes_valid_def parse_claude_report_valid
      bind_sum_Inr_iff split: if_splits)

section \<open>One run\<close>

definition run_sound :: "int \<Rightarrow> run_result \<times> host_err option \<times> progress list \<Rightarrow> bool" where
  "run_sound limit = (\<lambda>(res, err, samples).
     (case rr_report res of None \<Rightarrow> err \<noteq> None | Some rep \<Rightarrow> err = None \<and> report_validate rep = None) \<and>
     length (rr_stdout res) \<le> nat limit \<and> length (rr_stderr res) \<le> nat limit \<and> list_all sample_ok samples)"

lemma run_sound_fail [simp]: "run_sound limit (no_result, Some e, [])"
  by (simp add: run_sound_def no_result_def)

lemma no_result_report [simp]: "rr_report no_result = None"
  by (simp add: no_result_def)

lemma closed_samples:
  "list_all sample_ok (st_offered (stream_close d (fold (stream_write d) chunks new_stream_reader)))"
  using stream_bounded_flush [OF stream_bounded_writes [OF stream_bounded_new], of d d chunks]
  by (simp add: stream_close_def stream_bounded_def)

lemma finish_run_sound:
  assumes "decodes_valid iv"
  shows "run_sound limit (finish_run limit t iv pr)"
proof -
  have s: "list_all sample_ok (case map_option (\<lambda>d. stream_close d (fold (stream_write d) (pr_stdout pr) new_stream_reader))
      (iv_stream iv) of None \<Rightarrow> [] | Some st \<Rightarrow> st_offered st)"
    by (simp add: closed_samples split: option.splits)
  show ?thesis
    using assms s
    by (auto simp: finish_run_def Let_def run_sound_def capture_def no_result_def capped_writes decodes_valid_def
        split: option.splits sum.splits)
qed

lemma run_slot_sound:
  assumes "\<And>scratch iv. prepare t scratch = Inr iv \<Longrightarrow> decodes_valid iv"
  shows "run_sound (ro_output_limit opts) (run_slot os opts prepare t pr)"
  using assms by (simp add: run_slot_def finish_run_sound split: option.splits sum.splits)

definition fixed_registry :: "string \<Rightarrow> host_os \<Rightarrow> exec_config \<Rightarrow> exec_config \<Rightarrow> (string \<times> prepare) list" where
  "fixed_registry schema os codex claude =
     [(''codex'', codex_prepare os codex), (''claude'', claude_prepare schema os claude)]"

lemma fixed_registry_new: "new_registry (fixed_registry schema os a b) = Inr (fixed_registry schema os a b)"
  by (simp add: new_registry_def fixed_registry_def valid_identifier_def max_provider_bytes_def
      is_lower_def is_digit_def byte_def)

lemma fixed_registry_decodes:
  "registry_provider (fixed_registry schema os a b) name = Inr p \<Longrightarrow> p t scratch = Inr iv \<Longrightarrow> decodes_valid iv"
  by (auto simp: registry_provider_def fixed_registry_def codex_decodes_valid claude_decodes_valid
      split: option.splits if_splits)

section \<open>What reaches the provider\<close>

lemma codex_prompt_only:
  "codex_prepare os c t scratch =
    map_sum id (iv_prompt_update (\<lambda>_. eyes_prompt t ''the configured browser tools'')) (codex_prepare os c u scratch)"
  by (simp add: codex_prepare_def Let_def base_invocation_def)

lemma claude_prompt_only:
  "claude_prepare schema os c t scratch =
    map_sum id (iv_prompt_update (\<lambda>_. eyes_prompt t ''Claude in Chrome'')) (claude_prepare schema os c u scratch)"
  by (cases "refresh_credentials os c") (simp_all add: claude_prepare_def Let_def base_invocation_def)

definition clean_entry :: "string \<Rightarrow> bool" where
  "clean_entry e \<longleftrightarrow> (case env_key e of None \<Rightarrow> False | Some k \<Rightarrow> \<not> coordinator_environment (upper_key k))"

lemma filter_environment_clean: "list_all clean_entry (filter_environment es)"
  by (auto simp: filter_environment_def list_all_iff clean_entry_def env_passes_def split: option.splits)

lemma clean_config_entries:
  "clean_entry (''CODEX_HOME='' @ dir)" "clean_entry (''CLAUDE_CONFIG_DIR='' @ dir)"
  by (simp_all add: clean_entry_def env_key_def upper_key_def runes_ascii is_ascii_def byte_def
      coordinator_environment_def upper_rune_def to_upper_def upper_char_def is_lower_def)

lemma child_environment_clean:
  "iv_config_key iv \<in> {[], ''CODEX_HOME'', ''CLAUDE_CONFIG_DIR''} \<Longrightarrow> list_all clean_entry (child_environment iv)"
  using clean_config_entries by (auto simp: child_environment_def filter_environment_clean)

text \<open>The isolated login only ever moves forward.\<close>

lemma copy_published:
  assumes "copy_newer_credentials os source dest copied = (e, True)"
  shows "e = None \<and> (\<exists>src info. os_stat os src = Some info \<and> fi_regular info \<and>
    fi_size info \<le> max_credentials_bytes \<and> os_publish os src dest = None \<and>
    (\<forall>c. copied = Some c \<longrightarrow> fi_mtime c < fi_mtime info))"
  using assms
  by (auto simp: copy_newer_credentials_def not_le not_less split: option.splits if_splits)

section \<open>Properties\<close>

text \<open>
  C35. With the two fixed providers, a run that reports no error carries a report that passed
  validation, and one that reports an error carries none; the captured output stays within the
  configured limit, every sample published is bounded, and the slot the run took is free again
  while a run refused by a busy slot leaves it as it was.
\<close>
theorem run_outcome_is_sound:
  "let reg = fixed_registry schema os codex claude; (r', out) = run_task os opts reg t pr r in
   run_sound (ro_output_limit opts) out \<and>
   (if task_validate t = None \<and> ht_provider t \<in> {''codex'', ''claude''} \<and> rn_active r = [] then r' = idle_runner
    else r' = r \<and> rr_report (fst out) = None)"
proof -
  let ?reg = "fixed_registry schema os codex claude"
  have reg: "registry_provider ?reg (ht_provider t) =
    (if ht_provider t = ''codex'' then Inr (codex_prepare os codex)
     else if ht_provider t = ''claude'' then Inr (claude_prepare schema os claude)
     else Inl (ErrUnknownProvider (ht_provider t)))"
    by (simp add: registry_provider_def fixed_registry_def)
  have "run_sound (ro_output_limit opts) (run_slot os opts p t pr)"
    if "registry_provider ?reg (ht_provider t) = Inr p" for p
    using that by (intro run_slot_sound) (rule fixed_registry_decodes)
  then show ?thesis
    by (auto simp: run_task_def reg reserve_def release_slot_def Let_def
        split: option.splits if_splits)
qed

text \<open>
  Nothing of a task but the prompt distinguishes its invocation: executable, arguments,
  directory, environment, decoder and configuration are those of any other task, and the
  environment the process gets holds no variable of the coordinator, whatever case it is
  spelled in.
\<close>
theorem task_reaches_prompt_only:
  "codex_prepare os c t scratch =
     map_sum id (iv_prompt_update (\<lambda>_. eyes_prompt t ''the configured browser tools'')) (codex_prepare os c u scratch) \<and>
   claude_prepare schema os c t scratch =
     map_sum id (iv_prompt_update (\<lambda>_. eyes_prompt t ''Claude in Chrome'')) (claude_prepare schema os c u scratch) \<and>
   (case codex_prepare os c t scratch of Inl _ \<Rightarrow> True | Inr iv \<Rightarrow> list_all clean_entry (child_environment iv)) \<and>
   (case claude_prepare schema os c t scratch of Inl _ \<Rightarrow> True | Inr iv \<Rightarrow> list_all clean_entry (child_environment iv))"
proof (intro conjI)
  show "case codex_prepare os c t scratch of Inl _ \<Rightarrow> True | Inr iv \<Rightarrow> list_all clean_entry (child_environment iv)"
    by (auto simp: codex_prepare_def Let_def base_invocation_def intro!: child_environment_clean)
  show "case claude_prepare schema os c t scratch of Inl _ \<Rightarrow> True | Inr iv \<Rightarrow> list_all clean_entry (child_environment iv)"
    by (cases "refresh_credentials os c")
      (auto simp: claude_prepare_def Let_def base_invocation_def intro!: child_environment_clean)
qed (rule codex_prompt_only claude_prompt_only)+

end
