(* ===== verification/JournalProps.thy ===== *)
theory JournalProps
  imports HostJournal
begin

text \<open>
  What the broker can rely on: a write to the journal is all or nothing, tasks that are not
  delivered are never forgotten for others, and a restart reads back the records of the last write.
\<close>

section \<open>Printing and reading the records\<close>

definition wf_launch :: "launch_msg \<Rightarrow> bool" where
  "wf_launch m \<longleftrightarrow> valid_utf8 (lm_type m) \<and> valid_utf8 (lm_task m) \<and> valid_utf8 (lm_runtime m) \<and>
     valid_utf8 (lm_scope m) \<and> valid_utf8 (lm_brief m) \<and> wf_ref (lm_reply m) \<and>
     - (2 ^ 63) \<le> lm_deadline m \<and> lm_deadline m < 2 ^ 63"

definition wf_record :: "task_record \<Rightarrow> bool" where
  "wf_record r \<longleftrightarrow> wf_launch (tr_launch r) \<and> wf_ref (tr_child r) \<and> valid_utf8 (tr_child_session r) \<and>
     valid_utf8 (tr_child_secret r) \<and> valid_utf8 (tr_state r) \<and>
     (case tr_terminal r of None \<Rightarrow> True | Some j \<Rightarrow> wf_json j \<and> json_depth j \<le> 100)"

lemma record_keys [simp]:
  "valid_utf8 ''launch''" "valid_utf8 ''child_session''" "valid_utf8 ''child_secret''" "valid_utf8 ''state''"
  "valid_utf8 ''terminal''"
  by (simp_all add: valid_utf8_ascii is_ascii_def byte_def)

lemma wf_record_json: "wf_record r \<Longrightarrow> wf_json (record_json r)" "wf_record r \<Longrightarrow> json_depth (record_json r) \<le> 101"
  by (auto simp: record_json_def wf_record_def wf_launch_def wf_launch_json wf_ref_json split: option.splits)

lemma dec_struct_obj: "dec_struct strict fs (JObj kvs) a = dec_members strict fs kvs a"
  by (simp add: dec_struct_def)

lemma dec_record_json: "wf_record r \<Longrightarrow> dec_struct True record_fields (record_json r) zero_record = (r, True)"
  by (cases r) (auto simp: dec_struct_obj record_json_def record_fields_def find_field_def zero_record_def
      on_part_def dec_launch_json dec_ref_json wf_record_def wf_launch_def Let_def both_def split: option.splits)

lemma dec_record_map_sorted:
  "key_order (rs @ qs) \<Longrightarrow> list_all (\<lambda>(k, r). wf_record r) qs \<Longrightarrow>
   dec_record_map (map (\<lambda>(k, r). (k, record_json r)) qs) rs = (rs @ qs, True)"
proof (induction qs arbitrary: rs)
  case (Cons kr qs)
  obtain k r where kr: "kr = (k, r)" by (cases kr)
  have "\<forall>x \<in> set rs. fst x < k"
    using Cons.prems(1) by (auto simp: kr key_order_def sorted_wrt_append)
  then have "jput k r rs = rs @ [(k, r)]" by (rule jput_last)
  then show ?case using Cons by (simp add: kr dec_record_json both_def)
qed simp

lemma dec_records_json:
  "key_order rs \<Longrightarrow> list_all (\<lambda>(k, r). wf_record r) rs \<Longrightarrow> dec_records (records_json rs) [] = (rs, True)"
  using dec_record_map_sorted [of "[]" rs] by (simp add: dec_records_def records_json_def)

lemma wf_records_json:
  assumes "list_all (\<lambda>(k, r). valid_utf8 k \<and> wf_record r) rs"
  shows "wf_json (records_json rs)" and "json_depth (records_json rs) \<le> 102"
proof -
  show "wf_json (records_json rs)"
    using assms by (auto simp: records_json_def list_all_iff wf_record_json)
  have "fold max (map (\<lambda>(k, v). json_depth v) (map (\<lambda>(k, r). (k, record_json r)) rs)) m \<le> 101" if "m \<le> 101" for m
    using assms that
  proof (induction rs arbitrary: m)
    case (Cons kr rs)
    obtain k r where kr: "kr = (k, r)" by (cases kr)
    have "max (json_depth (record_json r)) m \<le> 101" using Cons.prems wf_record_json(2) [of r] by (simp add: kr)
    then show ?case using Cons by (simp add: kr)
  qed simp
  from this [of 0] show "json_depth (records_json rs) \<le> 102" by (simp add: records_json_def)
qed

lemma wf_tombstone: "valid_utf8 task \<Longrightarrow> wf_record (tombstone task)"
  by (simp add: tombstone_def wf_record_def wf_launch_def zero_record_def zero_launch_def wf_ref_def empty_ref_def
      record_state_defs task_launch_type_def valid_utf8_ascii is_ascii_def byte_def)

text \<open>Records in the journal are what \<open>Put\<close> was given, so they stay printable.\<close>

definition printable :: "journal \<Rightarrow> bool" where
  "printable j \<longleftrightarrow> list_all (\<lambda>(k, r). wf_record r) (jr_records j)"

lemma printable_key: "validate_record k r = None \<Longrightarrow> wf_record r \<Longrightarrow> valid_utf8 k"
  by (auto simp: validate_record_def record_id_def wf_record_def wf_launch_def split: if_splits)

lemma printable_put:
  assumes "journal_ok j" and "printable j" and "wf_record r" and "journal_put p disk r j = (j', e)"
  shows "printable j'"
  using assms(1,4)
proof (cases rule: journal_put_cases)
  case (written rs ev sealed)
  have "wf_record (stored_record r)"
    using assms(3) wf_tombstone [of "record_id r"]
    by (auto simp: stored_record_def record_id_def) (simp add: wf_record_def wf_launch_def)
  then have v: "list_all (\<lambda>(k, r). wf_record r) (jput (record_id r) (stored_record r) (jr_records j))"
    using assms(2) by (intro valid_jput [where P = "\<lambda>k r. wf_record r"]) (simp_all add: printable_def)
  have "map_of rs ++ map_of ev = map_of (jput (record_id r) (stored_record r) (jr_records j))" "key_order rs"
      "fst ` set rs \<inter> fst ` set ev = {}"
    using written(3) unfolding drops_def by blast+
  then show ?thesis
    using keep_valid [where P = "\<lambda>k r. wf_record r", OF _ _ v] written(8) by (simp add: printable_def)
qed (use assms in simp)

lemma open_printed:
  assumes ok: "journal_ok j" and pr: "printable j"
    and kept: "jr_file j = Some sealed" "pt_seal p (json_print (records_json (jr_records j))) = Some sealed"
      "length sealed \<le> journal_limit"
    and law: "pt_open p sealed = Some (json_print (records_json (jr_records j)))"
  shows "open_journal p True (Content sealed) = Inr (j\<lparr>jr_limit := journal_limit\<rparr>)"
proof -
  let ?rs = "jr_records j"
  have wf: "list_all (\<lambda>(k, r). valid_utf8 k \<and> wf_record r) ?rs"
    using ok pr by (fastforce simp: journal_ok_def printable_def list_all_iff intro: printable_key)
  have "read_value (json_print (records_json ?rs)) = Some (records_json ?rs, [])"
    using read_printed [of "records_json ?rs" "[]"] wf_records_json [OF wf] by (simp add: max_nesting_def)
  moreover have "dec_records (records_json ?rs) [] = (?rs, True)"
    using ok pr by (intro dec_records_json) (auto simp: journal_ok_def printable_def)
  moreover have "\<not> list_ex (\<lambda>(k, r). validate_record k r \<noteq> None) ?rs"
    using ok by (auto simp: journal_ok_def list_ex_iff list_all_iff)
  ultimately show ?thesis
    using ok kept law by (cases j) (simp add: open_journal_def journal_ok_def)
qed

section \<open>Properties\<close>

text \<open>
  Writing a record is all or nothing. When it fails, for an invalid record, a full journal, a
  seal or a file that cannot be written, records and file are what they were. When it succeeds the
  record is the task's (a delivered task keeps its id only), no other record changes except that
  delivered tasks may be forgotten, the limits hold, and the file is the sealed print of the records.
\<close>
theorem put_is_all_or_nothing:
  assumes ok: "journal_ok j"
  shows "case journal_put p disk r j of
      (j', Some e) \<Rightarrow> j' = j
    | (j', None) \<Rightarrow> journal_ok j' \<and> journal_get j' (record_id r) = Some (stored_record r) \<and>
        (\<forall>k. k = record_id r \<or> journal_get j' k = journal_get j k \<or>
          (journal_get j' k = None \<and> (\<exists>q. journal_get j k = Some q \<and> tr_state q = record_delivered))) \<and>
        (\<exists>sealed. jr_file j' = Some sealed \<and> length sealed \<le> journal_limit \<and>
          pt_seal p (json_print (records_json (jr_records j'))) = Some sealed)"
proof -
  obtain j' res where jr: "journal_put p disk r j = (j', res)" by (cases "journal_put p disk r j")
  note rules = file_journal.save_refused [OF ok, of "(p, disk)" r] file_journal.save_ok [OF ok, of "(p, disk)" r]
    file_journal.save_done [OF ok, of "(p, disk)" r] file_journal.save_others [OF ok, of "(p, disk)" r]
  show ?thesis
  proof (cases res)
    case None
    have "\<exists>sealed. jr_file j' = Some sealed \<and> length sealed \<le> journal_limit \<and>
        pt_seal p (json_print (records_json (jr_records j'))) = Some sealed"
      using ok jr by (cases rule: journal_put_cases) (simp_all add: None)
    then show ?thesis using jr None rules by auto
  next
    case (Some e)
    then show ?thesis using jr rules by simp
  qed
qed

definition sample_record :: task_record where
  "sample_record = zero_record\<lparr>tr_launch := zero_launch\<lparr>lm_type := ''task.launch'', lm_task := ''task-0123456789ab''\<rparr>,
     tr_state := ''received''\<rparr>"

definition clear_protector :: protector where
  "clear_protector = \<lparr>pt_seal = Some, pt_open = Some\<rparr>"

definition empty_journal :: journal where
  "empty_journal = \<lparr>jr_records = [], jr_file = None, jr_limit = journal_limit\<rparr>"

lemma empty_journal_ok: "journal_ok empty_journal" "printable empty_journal"
  by (simp_all add: journal_ok_def empty_journal_def key_order_def printable_def)

lemma sample_record_id: "record_id sample_record = ''task-0123456789ab''"
  "stored_record sample_record = sample_record"
  by (simp_all add: sample_record_def record_id_def stored_record_def record_delivered_def)

lemma sample_put: "snd (journal_put clear_protector None sample_record empty_journal) = None"
  by code_simp

theorem put_is_all_or_nothing_witness:
  "journal_get (fst (journal_put clear_protector None sample_record empty_journal)) ''task-0123456789ab''
   = Some sample_record"
  using put_is_all_or_nothing [OF empty_journal_ok(1), where p = clear_protector and disk = None and r = sample_record]
    sample_put sample_record_id
  by (auto split: prod.splits option.splits)

text \<open>
  C33. What was written is read back: after a successful write, opening the file with a protector
  that opens what it sealed gives exactly the records in memory.
\<close>
theorem restart_reads_journal_back:
  assumes "journal_ok j" and "printable j" and "wf_record r"
    and "journal_put p disk r j = (j', None)"
    and "\<And>plain sealed. pt_seal p plain = Some sealed \<Longrightarrow> pt_open p sealed = Some plain"
  shows "open_journal p True (Content (the (jr_file j'))) = Inr (j'\<lparr>jr_limit := journal_limit\<rparr>)"
  using assms(1,4)
proof (cases rule: journal_put_cases)
  case (written rs ev sealed)
  have ok: "journal_ok j'" using put_keeps_ok [OF assms(1), of p disk r] assms(4) by simp
  have "printable j'" by (rule printable_put [OF assms(1-4)])
  then show ?thesis using open_printed [OF ok] written assms(5) by simp
qed simp

theorem restart_reads_journal_back_witness:
  "open_journal clear_protector True
     (Content (the (jr_file (fst (journal_put clear_protector None sample_record empty_journal)))))
   = Inr (fst (journal_put clear_protector None sample_record empty_journal)\<lparr>jr_limit := journal_limit\<rparr>)"
proof (rule restart_reads_journal_back [OF empty_journal_ok])
  show "wf_record sample_record"
    by (simp add: sample_record_def wf_record_def wf_launch_def zero_record_def zero_launch_def wf_ref_def
        empty_ref_def valid_utf8_ascii is_ascii_def byte_def)
  show "journal_put clear_protector None sample_record empty_journal
      = (fst (journal_put clear_protector None sample_record empty_journal), None)"
    using sample_put by (metis prod.collapse)
qed (simp add: clear_protector_def)

text \<open>
  C16. No sequence of writes for other tasks, whatever fails in between and however full the
  journal is, makes it forget a task whose outcome has not been delivered.
\<close>
theorem undelivered_task_survives:
  assumes "journal_ok j" and "journal_get j k = Some q" and "tr_state q \<noteq> record_delivered"
    and "list_all (\<lambda>(w, r). record_id r \<noteq> k) ws"
  shows "journal_get (fold (\<lambda>(w, r) j. fst (journal_put (fst w) (snd w) r j)) ws j) k = Some q"
  using file_journal.undelivered_kept [OF assms] by (simp add: file_journal.saves_def)

theorem undelivered_task_survives_witness:
  "journal_get (fold (\<lambda>(w, r) j. fst (journal_put (fst w) (snd w) r j))
      [((clear_protector, None), sample_record\<lparr>tr_launch := zero_launch\<lparr>lm_task := ''task-ffffffffffff''\<rparr>\<rparr>)]
      (fst (journal_put clear_protector None sample_record empty_journal))) ''task-0123456789ab''
   = Some sample_record"
proof (rule undelivered_task_survives [where q = sample_record])
  show "journal_ok (fst (journal_put clear_protector None sample_record empty_journal))"
    by (rule put_keeps_ok [OF empty_journal_ok(1)])
  show "journal_get (fst (journal_put clear_protector None sample_record empty_journal)) ''task-0123456789ab''
      = Some sample_record"
    using file_journal.save_done [OF empty_journal_ok(1), of "(clear_protector, None)" sample_record] sample_put
    by (metis fst_conv prod.collapse snd_conv sample_record_id)
qed (simp_all add: sample_record_def record_state_defs record_id_def)

end
