(* ===== verification/FailureText.thy ===== *)
theory FailureText
  imports HostBroker ReportRound
begin

text \<open>
  The bodies the broker sends are reports: a failure's text is never blank and always UTF-8,
  whatever the error said and wherever the 4096 byte limit cut it, and a validated report keeps the
  constraints the daemon puts on a result.
\<close>

section \<open>Runes of a repaired text\<close>

lemma runes_Cons: "s \<noteq> [] \<Longrightarrow> runes s = (fst (decode_rune s), take (snd (decode_rune s)) s) # runes (drop (snd (decode_rune s)) s)"
  by (cases s) (auto simp del: decode_rune.simps split: prod.splits)

lemma runes_good_append:
  assumes "good_rune rb"
  shows "runes (snd rb @ t) = rb # runes t"
proof -
  have "decode_rune (snd rb @ t) = (fst rb, length (snd rb))" "snd rb @ t \<noteq> []" using assms by (auto simp: good_rune_def)
  then show ?thesis by (simp add: runes_Cons)
qed

lemma runes_concat_good: "\<forall>rb \<in> set rbs. good_rune rb \<Longrightarrow> runes (concat (map snd rbs)) = rbs"
  by (induction rbs) (simp_all add: runes_good_append)

definition repaired :: "nat \<times> string \<Rightarrow> nat \<times> string" where
  "repaired rb = (if is_bad_rune rb then (rune_error, encode_rune rune_error) else rb)"

lemma good_error_rune: "good_rune (rune_error, encode_rune rune_error)"
  by (simp add: good_rune_def encode_rune_def rune_error_def byte_chr tail_in_def second_lo_def second_hi_def tail_bits_def)

lemma rune_good: "rb \<in> set (runes s) \<Longrightarrow> \<not> is_bad_rune rb \<Longrightarrow> good_rune rb"
  by (rule good_runes)

lemma runes_to_valid: "runes (to_valid s) = map repaired (runes s)"
proof -
  have "to_valid s = concat (map snd (map repaired (runes s)))"
    by (simp add: to_valid_def repaired_def comp_def if_distrib cong: if_cong)
  moreover have "\<forall>rb \<in> set (map repaired (runes s)). good_rune rb"
    using good_error_rune rune_good by (auto simp: repaired_def)
  ultimately show ?thesis using runes_concat_good by metis
qed

lemma valid_to_valid: "valid_utf8 (to_valid s)"
proof -
  have "\<not> is_bad_rune (repaired rb)" for rb
    by (simp add: repaired_def is_bad_rune_def encode_rune_def rune_error_def)
  then show ?thesis by (simp add: valid_utf8_def runes_to_valid list_all_iff)
qed

section \<open>Blank texts\<close>

lemma rune_text_nonempty: "rb \<in> set (runes s) \<Longrightarrow> snd rb \<noteq> []"
proof (induction s rule: runes.induct)
  case (2 c cs)
  obtain r n where d: "decode_rune (c # cs) = (r, n)" by (cases "decode_rune (c # cs)")
  have "1 \<le> n" using decode_rune_width [of "c # cs"] by (simp add: d del: decode_rune.simps)
  then show ?case using 2 d by (auto simp del: decode_rune.simps)
qed simp

definition strip :: "('a \<Rightarrow> bool) \<Rightarrow> 'a list \<Rightarrow> 'a list" where
  "strip p xs = rev (dropWhile p (rev (dropWhile p xs)))"

lemma strip_subset: "set (strip p xs) \<subseteq> set xs"
  unfolding strip_def set_rev using set_dropWhileD by (metis set_rev subsetI)

lemma strip_Nil: "strip p xs = [] \<longleftrightarrow> (\<forall>x \<in> set xs. p x)"
proof -
  have "strip p xs = [] \<longleftrightarrow> (\<forall>x \<in> set (dropWhile p xs). p x)" by (simp add: strip_def)
  also have "\<dots> \<longleftrightarrow> (\<forall>x \<in> set xs. p x)"
  proof
    assume a: "\<forall>x \<in> set (dropWhile p xs). p x"
    have "dropWhile p xs = []"
    proof (rule ccontr)
      assume n: "dropWhile p xs \<noteq> []"
      then show False using hd_dropWhile [OF n] a hd_in_set [OF n] by blast
    qed
    then show "\<forall>x \<in> set xs. p x" by simp
  qed (use set_dropWhileD in fast)
  finally show ?thesis .
qed

lemma strip_head:
  assumes "strip p xs = y # ys"
  shows "\<not> p y \<and> (\<exists>zs. dropWhile p xs = y # ys @ zs)"
proof -
  have "dropWhile p xs = rev (dropWhile p (rev (dropWhile p xs))) @ rev (takeWhile p (rev (dropWhile p xs)))"
    by (metis rev_append rev_rev_ident takeWhile_dropWhile_id)
  then have e: "dropWhile p xs = y # ys @ rev (takeWhile p (rev (dropWhile p xs)))"
    using assms unfolding strip_def by simp
  then have "dropWhile p xs \<noteq> []" and "hd (dropWhile p xs) = y" by (metis list.discI, metis list.sel(1))
  then show ?thesis using hd_dropWhile e by metis
qed

lemma trim_space_strip: "trim_space s = concat (map snd (strip (\<lambda>rb. is_space (fst rb)) (runes s)))"
  by (simp add: trim_space_def strip_def)

lemma concat_texts: "\<forall>rb \<in> set rbs. snd rb \<noteq> [] \<Longrightarrow> concat (map snd rbs) = [] \<longleftrightarrow> rbs = []"
  by (cases rbs) auto

lemma trim_space_blank: "trim_space s \<noteq> [] \<longleftrightarrow> (\<exists>rb \<in> set (runes s). \<not> is_space (fst rb))"
proof -
  let ?I = "strip (\<lambda>rb. is_space (fst rb)) (runes s)"
  have "snd rb \<noteq> []" if "rb \<in> set ?I" for rb
    by (rule rune_text_nonempty [OF subsetD [OF strip_subset that]])
  then have "\<forall>rb \<in> set ?I. snd rb \<noteq> []" by simp
  then have "trim_space s = [] \<longleftrightarrow> ?I = []" unfolding trim_space_strip by (rule concat_texts)
  then show ?thesis by (simp add: strip_Nil)
qed

text \<open>What is left of a text keeps its first rune, or loses it to the error rune, which is no space.\<close>

lemma decode_rune_prefix: "m \<noteq> [] \<Longrightarrow> decode_rune m = decode_rune (m @ t) \<or> decode_rune m = (rune_error, 1)"
proof -
  assume "m \<noteq> []"
  then consider c where "m = [c]" | c d where "m = [c, d]" | c d e where "m = [c, d, e]" | c d e f r where "m = c # d # e # f # r"
    by (metis neq_Nil_conv)
  then show ?thesis
    by cases (simp_all add: Let_def)
qed

lemma head_rune: "runes s = rb # rbs \<Longrightarrow> fst (decode_rune s) = fst rb"
  by (cases s) (auto simp del: decode_rune.simps split: prod.splits)

lemma runes_suffix: "runes s = xs @ ys \<Longrightarrow> runes (concat (map snd ys)) = ys"
proof (induction s arbitrary: xs rule: runes.induct)
  case 1
  then show ?case by simp
next
  case (2 c cs)
  obtain r n where d: "decode_rune (c # cs) = (r, n)" by (cases "decode_rune (c # cs)")
  show ?case
  proof (cases xs)
    case Nil
    then have "concat (map snd ys) = c # cs" using 2(2) concat_runes [of "c # cs"] by simp
    then show ?thesis using 2(2) Nil by simp
  next
    case (Cons x xs')
    then have "runes (drop n (c # cs)) = xs' @ ys" using 2(2) d by (simp del: decode_rune.simps)
    then show ?thesis using "2.IH" [OF d [symmetric]] by simp
  qed
qed

lemma error_no_space: "\<not> is_space rune_error"
  by (simp add: is_space_def rune_error_def)

lemma trimmed_head:
  assumes "trim_space s \<noteq> []"
  shows "\<not> is_space (fst (decode_rune (trim_space s)))"
proof -
  let ?sp = "\<lambda>rb. is_space (fst rb)"
  obtain rb rest where I: "strip ?sp (runes s) = rb # rest"
    using assms by (cases "strip ?sp (runes s)") (simp_all add: trim_space_strip)
  then have t: "trim_space s = concat (map snd (rb # rest))" by (simp add: trim_space_strip)
  obtain zs where nsp: "\<not> ?sp rb" and D: "dropWhile ?sp (runes s) = rb # rest @ zs"
    using strip_head [OF I] by blast
  have "runes s = takeWhile ?sp (runes s) @ (rb # rest @ zs)" by (simp add: D [symmetric])
  from runes_suffix [OF this] have "runes (trim_space s @ concat (map snd zs)) = rb # rest @ zs"
    unfolding t by simp
  then have "fst (decode_rune (trim_space s @ concat (map snd zs))) = fst rb"
    by (rule head_rune)
  then show ?thesis
    using decode_rune_prefix [OF assms, of "concat (map snd zs)"] nsp error_no_space by (metis fst_conv)
qed

lemma failure_text_prefix:
  "\<exists>m t. m = failure_text e @ t \<and> failure_text e \<noteq> [] \<and> \<not> is_space (fst (decode_rune m))"
proof (cases "trim_space e = []")
  case True
  have "decode_rune ''host task failed'' = (104, 1)" by (simp add: byte_def)
  then have "\<not> is_space (fst (decode_rune ''host task failed''))" by (simp add: is_space_def)
  then show ?thesis using True by (intro exI [of _ "''host task failed''"] exI [of _ "[]"]) (simp add: failure_text_def)
next
  case False
  have f: "failure_text e = take 4096 (trim_space e)" using False by (simp add: failure_text_def)
  show ?thesis
    using False trimmed_head [OF False]
    by (intro exI [of _ "trim_space e"] exI [of _ "drop 4096 (trim_space e)"]) (simp add: f)
qed

lemma failure_text_visible: "trim_space (to_valid (failure_text e)) \<noteq> []"
proof -
  obtain m t where m: "m = failure_text e @ t" "failure_text e \<noteq> []" "\<not> is_space (fst (decode_rune m))"
    using failure_text_prefix by blast
  have "\<not> is_space (fst (decode_rune (failure_text e)))"
    using decode_rune_prefix [OF m(2), of t] m(1,3) error_no_space by (metis fst_conv)
  then have "\<exists>rb \<in> set (runes (failure_text e)). \<not> is_space (fst rb)"
    using runes_Cons [OF m(2)] by (metis fst_conv list.set_intros(1))
  then obtain rb where rb: "rb \<in> set (runes (failure_text e))" "\<not> is_space (fst rb)" by blast
  then have "\<not> is_space (fst (repaired rb))" using error_no_space by (simp add: repaired_def)
  then show ?thesis unfolding trim_space_blank runes_to_valid using rb(1) by (metis image_eqI set_map)
qed

section \<open>The bodies are reports\<close>

lemma failed_body_report:
  assumes "task_id_valid i"
  shows "\<exists>r. failed_body i e = report_json r \<and> report_valid r \<and> report_wf r \<and> report_task r = i \<and>
    report_type r = task_failed_type"
proof -
  let ?r = "Fails \<lparr>fm_type = task_failed_type, fm_task = i, fm_error = to_valid (failure_text e)\<rparr>"
  have "report_valid ?r \<and> report_wf ?r"
    using assms failure_text_visible [of e] valid_to_valid by (simp add: valid_failed_def)
  then show ?thesis by (intro exI [of _ ?r]) (simp add: failed_body_def)
qed

lemma result_body_report:
  assumes "task_id_valid i" and "report_validate rep = None"
  shows "\<exists>r. result_body i rep = report_json r \<and> report_valid r \<and> report_wf r \<and> report_task r = i \<and>
    report_type r = task_result_type"
proof -
  let ?m = "\<lparr>xm_type = task_result_type, xm_task = i, xm_status = hr_status rep, xm_summary = hr_summary rep,
      xm_observations = hr_observations rep, xm_actions = hr_actions rep, xm_evidence = hr_evidence rep,
      xm_error = hr_error rep\<rparr>"
  have "report_valid (Results ?m)"
    using assms by (auto simp: valid_result_def report_validate_def valid_items_def split: if_splits option.splits)
  moreover have "report_wf (Results ?m)"
    using assms(2) by (auto simp: report_validate_def valid_items_def valid_text_def wf_texts_def list_all_iff
        split: if_splits option.splits)
  ultimately show ?thesis by (intro exI [of _ "Results ?m"]) (simp add: result_body_def)
qed

end
