(* ===== verification/HostProps.thy ===== *)
theory HostProps
  imports BrokerProps RunnerProps JournalProps FailureText EyesProps
begin

text \<open>
  What the broker promises to the rest of the system: a task runs at most once, every terminal
  report it delivers is one the daemon reads as the outcome of that task, and the launch a daemon mails
  is one the broker takes.
\<close>

section \<open>A launch as it was printed\<close>

lemma decode_printed_launch:
  assumes "wf_launch l"
  shows "decode_task_json (dec_struct True (launch_fields True)) zero_launch (json_print (launch_json l)) = Some l"
    and "header_type (json_print (launch_json l)) = Some (lm_type l)"
proof -
  note wf = wf_launch_json [of l] and l = assms [unfolded wf_launch_def]
  have j: "wf_json (launch_json l)" "json_depth (launch_json l) = 2" using wf l by simp_all
  have rd: "read_value (json_print (launch_json l)) = Some (launch_json l, [])"
    using read_printed [of "launch_json l" "[]"] j by (simp add: max_nesting_def)
  then show "decode_task_json (dec_struct True (launch_fields True)) zero_launch (json_print (launch_json l)) = Some l"
    using dec_launch_json [of l True] l by (simp add: decode_task_json_def)
  have "json_unmarshal (json_print (launch_json l)) = Some (launch_json l)"
    using unmarshal_printed j by (simp add: max_nesting_def)
  moreover have "dec_members False [(''type'', put_text (\<lambda>t _. t))] kvs a = (a, True)"
    if "\<forall>(k, j) \<in> set kvs. find_field k [(''type'', put_text (\<lambda>t (_::string). t))] = None" for kvs a
    using that by (induction kvs arbitrary: a) (auto simp: both_def)
  ultimately show "header_type (json_print (launch_json l)) = Some (lm_type l)"
    by (auto simp: header_type_def unmarshal_into_def launch_json_def dec_struct_obj opt_text_def
        find_field_def fold_key_def fold_step_def runes_ascii is_ascii_def byte_def to_upper_def upper_char_def
        is_lower_def both_def Let_def split: if_splits)
qed

lemma chr_zero: "chr 0 = c \<longleftrightarrow> byte c = 0"
  by (metis byte_chr chr_byte mod_0)

lemma decide_printed_launch:
  assumes l: "wf_launch l" "lm_type l = task_launch_type" "lm_scope l \<noteq> []" "ref_scope (lm_reply l) = lm_scope l"
      "ref_id (lm_reply l) \<noteq> [] \<or> ref_name (lm_reply l) \<noteq> []" "task_validate (launch_task l) = None"
    and m: "msg_body m = json_print (launch_json l)" "length (msg_body m) \<le> max_message_body"
      "msg_task m = lm_task l" "msg_from_scope m = lm_scope l" "msg_reply_to m = Some (lm_reply l)"
    and free: "look (lm_task l) = None"
  shows "decide_message p look active m =
    (if active = [] then Begin (received l) (launch_task l)
     else if active = lm_task l then Ignore
     else Refuse (with_terminal (failed_body (lm_task l) ''eyes busy'') (received l)))"
proof -
  have "lm_runtime l \<noteq> []"
    using l(6) by (auto simp: task_validate_def launch_task_def valid_identifier_def split: if_splits)
  then have "decide_launch p look active l =
    (if active = [] then Begin (received l) (launch_task l)
     else if active = lm_task l then Ignore
     else Refuse (with_terminal (failed_body (lm_task l) ''eyes busy'') (received l)))"
    using l free by (auto simp: decide_launch_def Let_def)
  moreover have "msg_body m \<noteq> []" unfolding m(1) by (simp add: launch_json_def)
  ultimately show ?thesis
    using m l(2) decode_printed_launch [OF l(1)] by (simp add: decide_message_def Let_def)
qed

lemma decide_fresh_launch:
  assumes l: "wf_launch l" "lm_type l = task_launch_type" "lm_scope l \<noteq> []" "ref_scope (lm_reply l) = lm_scope l"
      "ref_id (lm_reply l) \<noteq> []" "lm_runtime l \<noteq> []"
    and m: "msg_body m = json_print (launch_json l)" "msg_task m = lm_task l" "msg_reply_to m = Some (lm_reply l)"
      "msg_from_scope m = (if far then lm_scope l else [])"
  shows "decide_message p (\<lambda>_. None) [] m =
    (if far \<and> length (json_print (launch_json l)) \<le> max_message_body \<and> task_validate (launch_task l) = None
     then Begin (received l) (launch_task l) else Ignore)"
proof (cases "far \<and> length (json_print (launch_json l)) \<le> max_message_body \<and> task_validate (launch_task l) = None")
  case True
  then have "decide_message p (\<lambda>_. None) [] m =
    (if [] = ([]::string) then Begin (received l) (launch_task l) else if [] = lm_task l then Ignore
     else Refuse (with_terminal (failed_body (lm_task l) ''eyes busy'') (received l)))"
    using l m by (intro decide_printed_launch) simp_all
  then show ?thesis using True by simp
next
  case no: False
  have dec: "decode_task_json (dec_struct True (launch_fields True)) zero_launch (msg_body m) = Some l"
      "header_type (msg_body m) = Some task_launch_type"
    using decode_printed_launch [OF l(1)] m(1) l(2) by simp_all
  have rt: "l\<lparr>lm_runtime := if lm_runtime l = [] then p else lm_runtime l\<rparr> = l" using l(6) by simp
  have "decide_message p (\<lambda>_. None) [] m = Ignore"
  proof (cases far)
    case True
    then have "\<not> (length (msg_body m) \<le> max_message_body \<and> task_validate (launch_task l) = None)"
      using no m(1) by simp
    then show ?thesis using dec rt by (auto simp: decide_message_def decide_launch_def Let_def)
  next
    case False
    then have "msg_from_scope m \<noteq> lm_scope l" using m(4) l(3) by simp
    then show ?thesis using dec by (simp add: decide_message_def Let_def)
  qed
  then show ?thesis using no by simp
qed

section \<open>Properties\<close>

text \<open>
  C3. The broker runs a task at most once, whatever mail arrives in whatever order, whatever the
  relay, the runner and the disk answer, and however often the broker crashes: as long as a task's
  record has not been dropped from the journal, the runner is never started for it a second time,
  nor for a task an earlier broker had recorded. At any moment at most one task is being
  started or run, and the slot says which.
\<close>
theorem task_runs_at_most_once:
  assumes "runs (broker_step provider) (new_broker j) es b" and "journal_ok j" and "proper_journal j"
  shows "distinct (filter (\<lambda>i. i \<notin> set (br_forgotten b)) (br_started b)) \<and>
    map (\<lambda>w. record_id (wk_record w)) (filter wk_owner (br_workers b)) @ registering (br_main b)
      = (if br_active b = [] then [] else [br_active b]) \<and>
    list_all (\<lambda>w. wk_stage w \<notin> {Accepting, Running} \<or> wk_owner w) (br_workers b)"
proof -
  have ok: "broker_ok b" by (rule broker_run_ok [OF assms])
  have "distinct (filter (\<lambda>i. i \<notin> set (br_forgotten b)) (start_ids b))"
    using ok by (intro once_distinct) (simp add: broker_ok_def)
  then have "distinct (filter (\<lambda>i. i \<notin> set (br_forgotten b)) (br_started b))"
    by (simp add: start_ids_def)
  moreover have "list_all (\<lambda>w. wk_stage w \<notin> {Accepting, Running} \<or> wk_owner w) (br_workers b)"
    using ok by (auto simp: broker_ok_def list_all_iff worker_ok_def split: if_splits)
  ultimately show ?thesis using ok by (simp add: broker_ok_def owner_ids_def)
qed

definition demo_launch :: launch_msg where
  "demo_launch = \<lparr>lm_type = ''task.launch'', lm_task = ''task-0123456789ab'', lm_runtime = ''claude'', lm_scope = ''ws:a'',
     lm_brief = ''look'', lm_reply = \<lparr>ref_name = ''fox'', ref_id = ''a1'', ref_scope = ''ws:a''\<rparr>, lm_deadline = 600\<rparr>"

definition demo_mail :: message where
  "demo_mail = \<lparr>msg_id = 1, msg_from = ''fox'', msg_body = json_print (launch_json demo_launch), msg_sent = 0,
     msg_broadcast = False, msg_reply_to = Some (lm_reply demo_launch), msg_from_scope = ''ws:a'', msg_kind = [],
     msg_task = ''task-0123456789ab''\<rparr>"

definition demo_child :: child_identity where
  "demo_child = \<lparr>ci_ref = \<lparr>ref_name = ''owl'', ref_id = ''c1'', ref_scope = ''ws:a''\<rparr>,
     ci_session = \<lparr>se_token = [], se_id = ''eyes-task-0123456789ab'', se_secret = ''s''\<rparr>\<rparr>"

text \<open>Sealing to one byte keeps the demonstration from printing the journal.\<close>

definition brief_protector :: protector where
  "brief_protector = \<lparr>pt_seal = (\<lambda>x. Some ''x''), pt_open = Some\<rparr>"

definition demo_idle :: broker where
  "demo_idle = (new_broker empty_journal)\<lparr>br_main := Polling\<rparr>"

definition demo_registering :: broker where
  "demo_registering = (activate ''task-0123456789ab'' (fst (put_record (brief_protector, None) (received demo_launch) demo_idle)))
     \<lparr>br_main := Registering (received demo_launch) (launch_task demo_launch)\<rparr>"

definition demo_accepting :: broker where
  "demo_accepting = child_answer (brief_protector, None) (Inr demo_child) demo_registering"

definition demo_work :: "outcome \<Rightarrow> broker \<Rightarrow> broker" where
  "demo_work out b = (let w = hd (br_workers b); (b', w') = advance out w b in settle [] w w' [] b')"

definition demo_running :: broker where
  "demo_running = demo_work Answered demo_accepting"

definition demo_failed :: broker where
  "demo_failed = demo_work (Ran (Inl ErrOutputLimit)) demo_running"

definition demo_kept :: broker where
  "demo_kept = demo_work (Disk (brief_protector, None)) demo_failed"

definition demo_told :: broker where
  "demo_told = demo_work Answered demo_kept"

lemma demo_wf: "wf_launch demo_launch"
  by (simp add: wf_launch_def demo_launch_def wf_ref_def valid_utf8_ascii is_ascii_def byte_def)

lemma demo_valid: "task_validate (launch_task demo_launch) = None"
  by (simp add: task_validate_def launch_task_def demo_launch_def wrap64_def ns_second_def task_id_valid_def
      task_prefix_def cut_prefix_def is_lower_hex_def is_digit_def is_lower_def byte_def valid_identifier_def
      max_provider_bytes_def valid_text_def max_brief_bytes_def valid_utf8_ascii is_ascii_def chr_zero trim_space_def
      is_space_def min_task_timeout_def max_task_timeout_def)

lemma demo_decision: "decide_message ''claude'' (journal_get empty_journal) [] demo_mail
    = Begin (received demo_launch) (launch_task demo_launch)"
proof -
  have "length (json_print (launch_json demo_launch)) \<le> max_message_body"
    by (simp add: launch_json_def demo_launch_def max_message_body_def opt_text_def ref_json_def json_int_def
        dec_int_def dec_nat.simps json_string_def escape_text_def runes_ascii is_ascii_def byte_def escape_rune_def
        is_bad_rune_def)
  then show ?thesis
    using decide_printed_launch [OF demo_wf _ _ _ _ demo_valid, of demo_mail "journal_get empty_journal" "''claude''" "[]"]
    by (simp add: demo_mail_def demo_launch_def task_launch_type_def journal_get_def empty_journal_def)
qed

lemma brief_put:
  assumes "jr_limit (br_journal b) = journal_limit" and "length (jr_records (br_journal b)) < max_journal_records"
    and "validate_record (record_id r) (stored_record r) = None"
  shows "put_record (brief_protector, None) r b =
    (b\<lparr>br_journal := \<lparr>jr_records = jput (record_id r) (stored_record r) (jr_records (br_journal b)), jr_file = Some ''x'',
         jr_limit = journal_limit\<rparr>\<rparr>, None)"
proof -
  let ?rs = "jput (record_id r) (stored_record r) (jr_records (br_journal b))"
  have "fit_records brief_protector journal_limit (record_id r) ?rs [] = (?rs, [], Inr ''x'')"
    by (subst fit_records.simps) (simp add: brief_protector_def journal_limit_def)
  moreover have "write_protected None ''x'' = None" by (simp add: write_protected_def journal_limit_def)
  moreover have "journal_limit \<noteq> 0" by (simp add: journal_limit_def)
  ultimately have "journal_put brief_protector None r (br_journal b) =
      (\<lparr>jr_records = ?rs, jr_file = Some ''x'', jr_limit = journal_limit\<rparr>, None)"
    using assms by (cases "br_journal b") (simp add: journal_put_def Let_def)
  moreover have "filter (\<lambda>k. map_of ?rs k = None) (map fst (jr_records (br_journal b))) = []"
    by (auto simp: filter_empty_conv map_of_jput) (metis map_of_eq_None_iff image_eqI fst_conv not_None_eq)
  ultimately show ?thesis by (simp add: put_record_def journal_get_def)
qed

text \<open>The states the demonstration goes through, each with what the next one needs of it.\<close>

abbreviation demo_id :: string where "demo_id \<equiv> ''task-0123456789ab''"

definition demo_journal :: "task_record \<Rightarrow> journal" where
  "demo_journal r = \<lparr>jr_records = [(demo_id, r)], jr_file = Some ''x'', jr_limit = journal_limit\<rparr>"

definition demo_accepted :: task_record where
  "demo_accepted = (with_child demo_child (received demo_launch))\<lparr>tr_state := record_accepted\<rparr>"

definition demo_terminal :: task_record where
  "demo_terminal = with_terminal (failed_body demo_id (host_err_text ErrOutputLimit)) demo_accepted"

lemma demo_ids [simp]: "record_id (received demo_launch) = demo_id" "record_id demo_accepted = demo_id" "record_id demo_terminal = demo_id"
  "lm_task demo_launch = demo_id"
  by (simp_all add: demo_accepted_def demo_terminal_def demo_launch_def)

lemma demo_records:
  "stored_record (received demo_launch) = received demo_launch" "stored_record demo_accepted = demo_accepted"
  "stored_record demo_terminal = demo_terminal"
  "validate_record demo_id (received demo_launch) = None" "validate_record demo_id demo_accepted = None"
  "validate_record demo_id demo_terminal = None"
  by (simp_all add: stored_record_def validate_record_def received_def demo_accepted_def demo_terminal_def with_terminal_def
      with_child_def zero_record_def record_id_def demo_launch_def demo_child_def record_state_defs)

lemma demo_put:
  assumes "(\<exists>r0. br_journal b = demo_journal r0) \<or> br_journal b = empty_journal" and "record_id r = demo_id"
    and "stored_record r = r" and "validate_record demo_id r = None"
  shows "put_record (brief_protector, None) r b = (b\<lparr>br_journal := demo_journal r\<rparr>, None)"
proof -
  have "jput demo_id r (jr_records (br_journal b)) = [(demo_id, r)]"
    using assms(1) by (auto simp: demo_journal_def empty_journal_def)
  then show ?thesis
    using assms brief_put [of b r]
    by (auto simp: demo_journal_def empty_journal_def max_journal_records_def)
qed

lemma demo_puts:
  "put_record (brief_protector, None) (received demo_launch) demo_idle = (demo_idle\<lparr>br_journal := demo_journal (received demo_launch)\<rparr>, None)"
  by (rule demo_put) (simp_all add: demo_idle_def new_broker_def demo_records)

lemma demo_takes: "take_message ''claude'' (brief_protector, None) demo_mail demo_idle = demo_registering"
  using demo_decision demo_puts by (simp add: take_message_def demo_registering_def demo_idle_def new_broker_def)

lemma demo_accepting_is:
  "demo_accepting = \<lparr>br_journal = demo_journal demo_accepted, br_active = demo_id, br_main = Polling,
     br_workers = [\<lparr>wk_record = demo_accepted, wk_stage = Accepting, wk_owner = True\<rparr>], br_started = [], br_sent = [],
     br_forgotten = []\<rparr>"
proof -
  have reg: "demo_registering = \<lparr>br_journal = demo_journal (received demo_launch), br_active = demo_id,
      br_main = Registering (received demo_launch) (launch_task demo_launch), br_workers = [], br_started = [], br_sent = [],
      br_forgotten = []\<rparr>"
    using demo_puts by (simp add: demo_registering_def activate_def demo_idle_def new_broker_def empty_journal_def)
  have "put_record (brief_protector, None) demo_accepted demo_registering =
      (demo_registering\<lparr>br_journal := demo_journal demo_accepted\<rparr>, None)"
    by (rule demo_put [OF disjI1]) (auto simp: reg demo_records)
  then show ?thesis
    by (simp add: demo_accepting_def child_answer_def reg demo_accepted_def [symmetric] add_worker_def)
qed

lemma demo_running_is:
  "demo_running = demo_accepting\<lparr>br_workers := [\<lparr>wk_record = demo_accepted, wk_stage = Running, wk_owner = True\<rparr>],
     br_started := [demo_id]\<rparr>"
  by (simp add: demo_running_def demo_work_def demo_accepting_is advance.simps settle_def)

lemma demo_failed_is:
  "demo_failed = demo_running\<lparr>br_workers := [\<lparr>wk_record = demo_terminal, wk_stage = Persisting, wk_owner = True\<rparr>]\<rparr>"
  by (simp add: demo_failed_def demo_work_def demo_running_is advance.simps settle_def set_terminal_def demo_terminal_def)

lemma demo_kept_is:
  "demo_kept = demo_failed\<lparr>br_journal := demo_journal demo_terminal,
     br_workers := [\<lparr>wk_record = demo_terminal, wk_stage = Delivering, wk_owner = True\<rparr>]\<rparr>"
proof -
  have "put_record (brief_protector, None) demo_terminal demo_failed = (demo_failed\<lparr>br_journal := demo_journal demo_terminal\<rparr>, None)"
    by (rule demo_put [OF disjI1]) (auto simp: demo_failed_is demo_running_is demo_accepting_is demo_records)
  then show ?thesis
    by (simp add: demo_kept_def demo_work_def demo_failed_is advance.simps settle_def)
qed

lemma demo_facts:
  "(map wk_stage (br_workers demo_accepting), br_started demo_running, br_forgotten demo_running) = ([Accepting], [demo_id], [])"
  by (simp add: demo_accepting_is demo_running_is)

lemma demo_busy: "length (br_workers demo_running) = 1" "length (br_workers demo_failed) = 1"
    "length (br_workers demo_kept) = 1"
  by (simp_all add: demo_running_is demo_failed_is demo_kept_is)

lemma demo_works:
  assumes "length (br_workers b) = 1" and "sound_outcome out"
  shows "broker_step ''claude'' b (Work out) (demo_work out b)"
proof -
  obtain w where w: "br_workers b = [] @ w # []" using assms(1) by (auto simp: length_Suc_conv)
  obtain c w' where adv: "advance out w b = (c, w')" by (cases "advance out w b")
  have "broker_step ''claude'' b (Work out) (settle [] w w' [] c)"
    using w adv assms(2) by (intro step_work)
  then show ?thesis using w adv by (simp add: demo_work_def)
qed

lemma demo_run:
  "\<exists>es. runs (broker_step ''claude'') (new_broker empty_journal) es demo_running"
  "\<exists>es. runs (broker_step ''claude'') (new_broker empty_journal) es demo_told"
proof -
  let ?s = "broker_step ''claude''"
  have "recover_next (new_broker empty_journal) = Some demo_idle"
    by (simp add: recover_next_def new_broker_def demo_idle_def journal_records_def empty_journal_def)
  then have s1: "?s (new_broker empty_journal) RecoverNext demo_idle" by (rule step_recover)
  have s2: "?s demo_idle (Message demo_mail) demo_registering"
    unfolding demo_takes [symmetric] by (rule step_message) (simp add: demo_idle_def)
  have s3: "?s demo_registering ChildAnswer demo_accepting"
    unfolding demo_accepting_def by (rule step_child)
  have "length (br_workers demo_accepting) = 1" using demo_facts by (auto simp: map_eq_Cons_conv)
  then have s4: "?s demo_accepting (Work Answered) demo_running"
    unfolding demo_running_def by (rule demo_works) (simp add: sound_outcome_def)
  have s5: "?s demo_running (Work (Ran (Inl ErrOutputLimit))) demo_failed"
    unfolding demo_failed_def by (rule demo_works [OF demo_busy(1)]) (simp add: sound_outcome_def)
  have s6: "?s demo_failed (Work (Disk (brief_protector, None))) demo_kept"
    unfolding demo_kept_def by (rule demo_works [OF demo_busy(2)]) (simp add: sound_outcome_def)
  have s7: "?s demo_kept (Work Answered) demo_told"
    unfolding demo_told_def by (rule demo_works [OF demo_busy(3)]) (simp add: sound_outcome_def)
  note go = runs_step [of ?s]
  have tail: "runs ?s demo_running [Work (Ran (Inl ErrOutputLimit)), Work (Disk (brief_protector, None)), Work Answered] demo_told"
    by (rule go [OF s5 go [OF s6 go [OF s7 runs_stop]]])
  have run: "runs ?s (new_broker empty_journal) (RecoverNext # Message demo_mail # ChildAnswer # Work Answered # es) b"
    if "runs ?s demo_running es b" for es b
    by (rule go [OF s1 go [OF s2 go [OF s3 go [OF s4 that]]]])
  show "\<exists>es. runs ?s (new_broker empty_journal) es demo_running" using run [OF runs_stop] by blast
  show "\<exists>es. runs ?s (new_broker empty_journal) es demo_told" using run [OF tail] by blast
qed

lemma proper_empty: "proper_journal empty_journal"
  by (simp add: proper_journal_def journal_get_def empty_journal_def)

theorem task_runs_at_most_once_witness:
  "br_started demo_running = [''task-0123456789ab''] \<and>
   distinct (filter (\<lambda>i. i \<notin> set (br_forgotten demo_running)) (br_started demo_running))"
proof -
  obtain es where "runs (broker_step ''claude'') (new_broker empty_journal) es demo_running" using demo_run(1) by blast
  from task_runs_at_most_once [OF this empty_journal_ok(1) proper_empty]
  show ?thesis using demo_facts by simp
qed

section \<open>Reports\<close>

text \<open>
  C10. Everything the broker tells a requester at the end of a task is something the daemon acts on:
  in every run, each terminal report the relay took, a validated result or the text of a failure,
  is recognised by its type as one of the reserved family and decodes, strictly, to the task it was
  sent for.
\<close>
theorem delivered_reports_are_read:
  assumes "runs (broker_step provider) (new_broker j) es b" and "journal_ok j" and "proper_journal j"
  shows "list_all (\<lambda>(i, t). \<exists>typ \<in> {task_result_type, task_failed_type}.
    task_message_type (json_print t) = (typ, True) \<and>
    decode_task_report typ (json_print t) = Some (i, zero_progress)) (br_sent b)"
  unfolding list_all_iff
proof (clarify)
  fix i t
  assume it: "(i, t) \<in> set (br_sent b)"
  have "broker_ok b" by (rule broker_run_ok [OF assms])
  then have v: "task_id_valid i" "terminal_body i t" using it by (auto simp: broker_ok_def list_all_iff)
  then obtain r where r: "t = report_json r" "report_valid r" "report_wf r" "report_task r = i"
      "report_type r = task_failed_type \<or> report_type r = task_result_type"
    using failed_body_report [OF v(1)] result_body_report [OF v(1)] unfolding terminal_body_def by metis
  have "report_sample r = zero_progress"
    using r(2,5) report_kind [OF r(2)] by (cases r) (auto simp: task_type_defs)
  then show "\<exists>typ \<in> {task_result_type, task_failed_type}. task_message_type (json_print t) = (typ, True) \<and>
      decode_task_report typ (json_print t) = Some (i, zero_progress)"
    using report_read_back [OF r(2,3)] r by auto
qed

lemma demo_sent: "map fst (br_sent demo_told) = [''task-0123456789ab'']"
  by (simp add: demo_told_def demo_work_def demo_kept_is demo_failed_is demo_running_is demo_accepting_is advance.simps settle_def)

theorem delivered_reports_are_read_witness:
  "\<exists>t typ. map fst (br_sent demo_told) = [''task-0123456789ab''] \<and> t \<in> snd ` set (br_sent demo_told) \<and>
    decode_task_report typ (json_print t) = Some (''task-0123456789ab'', zero_progress)"
proof -
  obtain es where "runs (broker_step ''claude'') (new_broker empty_journal) es demo_told" using demo_run(2) by blast
  from delivered_reports_are_read [OF this empty_journal_ok(1) proper_empty] demo_sent
  show ?thesis by (auto simp: map_eq_Cons_conv)
qed

section \<open>From the daemon's ledger to the broker\<close>

definition launch_of :: "eyes_request \<Rightarrow> eyes_row \<Rightarrow> launch_msg" where
  "launch_of req t = \<lparr>lm_type = task_launch_type, lm_task = et_task t, lm_runtime = et_runtime t,
     lm_scope = ref_scope (rq_requester req), lm_brief = rq_brief req, lm_reply = rq_requester req,
     lm_deadline = et_deadline t\<rparr>"

text \<open>The message an assignment puts into the broker's inbox.\<close>

lemma assigned_message:
  assumes "assign_eyes_task req suf now s = Inr (s', t, ref)"
  shows "\<exists>m. messages s' = messages s @ [m] \<and> mr_task m = et_task t \<and> mr_body m = json_print (launch_json (launch_of req t)) \<and>
    mr_reply_to m = json_print (ref_json (rq_requester req)) \<and>
    mr_from_scope m = (if et_launcher_scope t \<noteq> ref_scope (rq_requester req) then ref_scope (rq_requester req) else [])"
proof -
  obtain l runtime where l: "pick_launcher (rq_runtime req) now s = Inr l"
    and t: "t = new_task req (task_prefix @ suf) runtime l (unix now)"
    and send: "send_to_scope (launch_delivery req (task_prefix @ suf) runtime l) now
           (s\<lparr>eyes_tasks := eyes_tasks s @ [t]\<rparr>) = Inr s'"
    by (rule assign_Inr [OF assms])
  let ?d = "launch_delivery req (task_prefix @ suf) runtime l"
  obtain sn to where sn: "delivery_sender ?d (s\<lparr>eyes_tasks := eyes_tasks s @ [t]\<rparr>) = Inr sn"
    and s': "messages s' = messages s @ [new_message ?d sn to now (next_message s)]"
    using send by (auto simp: send_to_scope_Inr)
  have "ref_scope (sn_ref sn) = ref_scope (rq_requester req)"
    using sn by (auto simp: delivery_sender_def launch_delivery_def no_sender_def empty_ref_def resolve_sender_def
        split: option.splits)
  moreover have "ar_scope l \<noteq> []" using polling_scope pick_launcher_Inr(2) [OF l] by blast
  ultimately show ?thesis
    using s' by (auto simp: t new_task_def new_message_def launch_delivery_def launch_body_def launch_of_def stamp_def Let_def)
qed

lemma assigned_deadline:
  assumes "assign_eyes_task req suf now s = Inr (s', t, ref)"
  shows "et_deadline t = eyes_deadline (rq_deadline req)" and "et_runtime t \<noteq> []"
  by (rule assign_Inr [OF assms], simp add: new_task_def)+

lemma launch_of_wf:
  assumes "wf_ref (rq_requester req)" and "valid_utf8 (rq_brief req)" and "task_id_valid (et_task t)"
    and "is_ascii (et_runtime t)" and "0 \<le> et_deadline t" and "et_deadline t \<le> deadline_max"
  shows "wf_launch (launch_of req t)" and "launch_task (launch_of req t) =
    \<lparr>ht_id = et_task t, ht_provider = et_runtime t, ht_brief = rq_brief req, ht_timeout = et_deadline t * ns_second\<rparr>"
proof -
  have u: "valid_utf8 task_launch_type" by (simp add: task_launch_type_def valid_utf8_ascii is_ascii_def byte_def)
  show "wf_launch (launch_of req t)"
    using assms u by (simp add: wf_launch_def launch_of_def valid_utf8_ascii valid_task_utf8 deadline_max_def wf_ref_def)
  show "launch_task (launch_of req t) =
    \<lparr>ht_id = et_task t, ht_provider = et_runtime t, ht_brief = rq_brief req, ht_timeout = et_deadline t * ns_second\<rparr>"
    using assms by (simp add: launch_task_def launch_of_def wrap64_id deadline_max_def ns_second_def)
qed

text \<open>
  C22. When the daemon assigns a task it mails a launch, and an idle broker that has not seen the
  task starts exactly that task, under the daemon's deadline, if and only if the requester works in
  another scope than the broker, the launch fits the broker's message limit, and the broker's own
  rules accept runtime, brief and deadline; otherwise it ignores the launch the daemon has queued.
\<close>
theorem assigned_launch_is_taken:
  assumes "assign_eyes_task req suf now s = Inr (s', t, ref)"
    and "wf_ref (rq_requester req)" and "ref_scope (rq_requester req) \<noteq> []" and "ref_id (rq_requester req) \<noteq> []"
    and "valid_utf8 (rq_brief req)" and "task_id_valid (et_task t)" and "is_ascii (et_runtime t)"
  shows "\<exists>m. messages s' = messages s @ [m] \<and>
    (\<forall>w. decide_message provider (\<lambda>_. None) [] (message_of (m, w)) =
      (let task = \<lparr>ht_id = et_task t, ht_provider = et_runtime t, ht_brief = rq_brief req,
             ht_timeout = et_deadline t * ns_second\<rparr> in
       if et_launcher_scope t \<noteq> ref_scope (rq_requester req) \<and>
          length (json_print (launch_json (launch_of req t))) \<le> max_message_body \<and> task_validate task = None
       then Begin (received (launch_of req t)) task else Ignore))"
proof -
  obtain m where m: "messages s' = messages s @ [m]" "mr_task m = et_task t"
      "mr_body m = json_print (launch_json (launch_of req t))" "mr_reply_to m = json_print (ref_json (rq_requester req))"
      "mr_from_scope m = (if et_launcher_scope t \<noteq> ref_scope (rq_requester req) then ref_scope (rq_requester req) else [])"
    using assigned_message [OF assms(1)] by blast
  have d: "0 \<le> et_deadline t" "et_deadline t \<le> deadline_max" "et_runtime t \<noteq> []"
    using assigned_deadline [OF assms(1)] eyes_deadline_bounds [of "rq_deadline req"] by auto
  note wf = launch_of_wf [OF assms(2,5,6,7) d(1,2)]
  have reply: "msg_reply_to (message_of (m, w)) = Some (rq_requester req)" for w
    using reply_ref_printed [OF assms(2)] m(4) by (simp add: message_of_def)
  have "decide_message provider (\<lambda>_. None) [] (message_of (m, w)) =
      (if et_launcher_scope t \<noteq> ref_scope (rq_requester req) \<and>
          length (json_print (launch_json (launch_of req t))) \<le> max_message_body \<and> task_validate (launch_task (launch_of req t)) = None
       then Begin (received (launch_of req t)) (launch_task (launch_of req t)) else Ignore)" for w
    using m(2-) reply [of w] assms(3,4) d(3)
    by (intro decide_fresh_launch [OF wf(1)]) (simp_all add: message_of_def launch_of_def)
  then show ?thesis using m(1) by (intro exI [of _ m]) (simp add: wf(2) Let_def)
qed

lemma assigned_row:
  assumes "assigned = Inr (s', t, ref)"
  shows "t = new_task eyes_caller ''task-0123456789ab'' ''claude'' broker_row 110"
proof -
  have rq: "rq_runtime eyes_caller = []" by (simp add: eyes_caller_def)
  obtain l runtime where "pick_launcher (rq_runtime eyes_caller) (from_unix 110) broker_store = Inr l"
    and "runtime = (if rq_runtime eyes_caller = [] then default_provider (ar_caps l) else rq_runtime eyes_caller)"
    and "t = new_task eyes_caller (task_prefix @ ''0123456789ab'') runtime l (unix (from_unix 110))"
    by (rule assign_Inr [OF assms [unfolded assigned_def]])
  then show ?thesis
    using broker_picked caps_example(1) by (simp add: rq task_prefix_def unix_def from_unix_def ns_second_def broker_row_def)
qed

lemma assigned_task_valid:
  "task_validate \<lparr>ht_id = ''task-0123456789ab'', ht_provider = ''claude'', ht_brief = ''look'', ht_timeout = 300 * ns_second\<rparr> = None"
  by (simp add: task_validate_def ns_second_def task_id_valid_def
      task_prefix_def cut_prefix_def is_lower_hex_def is_digit_def is_lower_def byte_def valid_identifier_def
      max_provider_bytes_def valid_text_def max_brief_bytes_def valid_utf8_ascii is_ascii_def chr_zero trim_space_def
      is_space_def min_task_timeout_def max_task_timeout_def)

theorem assigned_launch_is_taken_witness:
  "\<exists>s' t ref m r task. assigned = Inr (s', t, ref) \<and> messages s' = messages broker_store @ [m] \<and>
    decide_message ''claude'' (\<lambda>_. None) [] (message_of (m, [])) = Begin r task \<and> ht_id task = ''task-0123456789ab''"
proof -
  obtain s' t ref where a: "assigned = Inr (s', t, ref)" using assigned_ok by blast
  note t = assigned_row [OF a]
  have f: "et_task t = ''task-0123456789ab''" "et_runtime t = ''claude''" "et_deadline t = 300"
      "et_launcher_scope t = ''host:PC''"
    by (simp_all add: t new_task_def eyes_caller_def eyes_deadline_def deadline_default_def broker_row_def plain_agent_def)
  have w: "wf_ref (rq_requester eyes_caller)" "ref_scope (rq_requester eyes_caller) \<noteq> []"
      "ref_id (rq_requester eyes_caller) \<noteq> []" "valid_utf8 (rq_brief eyes_caller)" "is_ascii (et_runtime t)"
    by (simp_all add: f(2) eyes_caller_def wf_ref_def valid_utf8_ascii is_ascii_def byte_def)
  have "task_id_valid (et_task t)"
    by (simp add: f(1) task_id_valid_def task_prefix_def cut_prefix_def is_lower_hex_def is_digit_def is_lower_def byte_def)
  from assigned_launch_is_taken [OF a [unfolded assigned_def] w(1-4) this w(5), of "''claude''"]
  obtain m where m: "messages s' = messages broker_store @ [m]"
      "\<And>v. decide_message ''claude'' (\<lambda>_. None) [] (message_of (m, v)) =
      (let task = \<lparr>ht_id = et_task t, ht_provider = et_runtime t, ht_brief = rq_brief eyes_caller,
             ht_timeout = et_deadline t * ns_second\<rparr> in
       if et_launcher_scope t \<noteq> ref_scope (rq_requester eyes_caller) \<and>
          length (json_print (launch_json (launch_of eyes_caller t))) \<le> max_message_body \<and> task_validate task = None
       then Begin (received (launch_of eyes_caller t)) task else Ignore)"
    by blast
  have "length (json_print (launch_json (launch_of eyes_caller t))) \<le> max_message_body"
    by (simp add: launch_json_def launch_of_def f eyes_caller_def max_message_body_def opt_text_def ref_json_def json_int_def
        dec_int_def dec_nat.simps json_string_def escape_text_def runes_ascii is_ascii_def byte_def escape_rune_def
        is_bad_rune_def task_launch_type_def)
  moreover have "et_launcher_scope t \<noteq> ref_scope (rq_requester eyes_caller)" "rq_brief eyes_caller = ''look''"
    by (simp_all add: f eyes_caller_def)
  ultimately have "decide_message ''claude'' (\<lambda>_. None) [] (message_of (m, [])) = Begin (received (launch_of eyes_caller t))
      \<lparr>ht_id = ''task-0123456789ab'', ht_provider = ''claude'', ht_brief = ''look'', ht_timeout = 300 * ns_second\<rparr>"
    using m(2) assigned_task_valid f by (simp add: Let_def)
  then show ?thesis
    using a m(1) by (metis (no_types, lifting) host_task.select_convs(1))
qed

end
