(* ===== verification/RetryProps.thy ===== *)
theory RetryProps
  imports Retry
begin

text \<open>
  How long the broker's retries wait and when they end (\<open>internal/hostbroker/broker.go\<close>), and what
  pairing again keeps of the broker's identity (\<open>client.go\<close>, \<open>state.go\<close>).
\<close>

section \<open>The waits of a loop\<close>

definition delay_at :: "retry_env \<Rightarrow> nat \<Rightarrow> int" where
  "delay_at v n = (next_delay v ^^ n) (rv_min v)"

definition wait_at :: "retry_env \<Rightarrow> nat \<Rightarrow> int" where
  "wait_at v n = backoff_wait v n (delay_at v n)"

lemma delay_at_bounds:
  assumes "backoff_ok v"
  shows "rv_min v \<le> delay_at v n \<and> delay_at v n \<le> rv_max v"
proof (induction n)
  case 0
  then show ?case using assms by (simp add: delay_at_def backoff_ok_def)
next
  case (Suc n)
  then show ?case using next_delay_bounds [OF assms, of "delay_at v n"] by (simp add: delay_at_def)
qed

lemma wait_at_bounds: "backoff_ok v \<Longrightarrow> rv_min v \<le> wait_at v n \<and> wait_at v n \<le> rv_max v"
  unfolding wait_at_def using delay_at_bounds by (intro backoff_wait_bounds) auto

lemma retry_loop_slept:
  assumes "retry_loop v n d = Some r"
  shows "d = delay_at v n \<longrightarrow> snd r = map (wait_at v) [n ..< n + length (snd r)]"
  using assms
proof (rule retry_loop.raw_induct [where
      P = "\<lambda>v n d r. d = delay_at v n \<longrightarrow> snd r = map (wait_at v) [n ..< n + length (snd r)]", rotated], goal_cases)
  case (1 loop v n d r)
  have one: "[backoff_wait v n d] = map (wait_at v) [n ..< n + 1]" if "d = delay_at v n"
    using that by (simp add: wait_at_def)
  show ?case
  proof (cases "goes_on v n")
    case True
    then obtain e where "rv_attempt v n = Some e" "rv_again v e" "rv_sleep v n = None"
      by (auto simp: goes_on_def split: option.splits)
    then have "Option.bind (loop v (n + 1) (next_delay v d)) (\<lambda>r. Some (fst r, backoff_wait v n d # snd r)) = Some r"
      using "1"(2) by simp
    then obtain r' where r': "loop v (n + 1) (next_delay v d) = Some r'" "r = (fst r', backoff_wait v n d # snd r')"
      unfolding bind_eq_Some_conv by (metis option.inject)
    have "next_delay v (delay_at v n) = delay_at v (n + 1)" by (simp add: delay_at_def)
    then show ?thesis
      using "1"(1) [OF r'(1)] r'(2) by (auto simp: wait_at_def upt_conv_Cons simp del: upt_Suc)
  next
    case False
    then show ?thesis using "1"(2) one by (auto simp: goes_on_def split: option.splits if_splits)
  qed
qed

text \<open>
  No wait between two attempts of the broker is out of bounds: under every options record the
  constructor accepts, each wait is positive, at least the minimal and at most the maximal backoff,
  and never above a minute, whatever the jitter, a negative or overflowing one included; and
  the waits a loop slept are these, one per attempt, in order.
\<close>
theorem retry_waits_bounded:
  "case new_options o0 of Inl _ \<Rightarrow> True
   | Inr o1 \<Rightarrow> (let v = v0\<lparr>rv_min := bo_backoff_min o1, rv_max := bo_backoff_max o1\<rparr> in
       0 < wait_at v n \<and> bo_backoff_min o1 \<le> wait_at v n \<and> wait_at v n \<le> bo_backoff_max o1 \<and> wait_at v n \<le> ns_minute \<and>
       (case retry_while v of None \<Rightarrow> True | Some (e, ws) \<Rightarrow> ws = map (wait_at v) [0 ..< length ws]))"
proof (cases "new_options o0")
  case (Inr o1)
  let ?v = "v0\<lparr>rv_min := bo_backoff_min o1, rv_max := bo_backoff_max o1\<rparr>"
  have o1: "0 < bo_backoff_min o1" "bo_backoff_min o1 \<le> bo_backoff_max o1" "bo_backoff_max o1 \<le> ns_minute"
    using Inr by (auto simp: new_options_def Let_def split: if_splits)
  then have "backoff_ok ?v" by (simp add: backoff_ok_def)
  note w = wait_at_bounds [OF this, of n]
  have "ws = map (wait_at ?v) [0 ..< length ws]" if "retry_while ?v = Some (e, ws)" for e ws
  proof -
    have "retry_loop ?v 0 (rv_min ?v) = Some (e, ws)" using that by (simp only: retry_while_def)
    from retry_loop_slept [OF this] show ?thesis by (simp add: delay_at_def)
  qed
  then show ?thesis using Inr w o1 by (simp add: Let_def split: option.splits prod.splits)
qed simp

section \<open>When a loop ends\<close>

lemma retry_loop_stops:
  assumes "\<And>k. n \<le> k \<Longrightarrow> k < n + m \<Longrightarrow> goes_on v k" and "\<not> goes_on v (n + m)"
  shows "\<exists>r. retry_loop v n d = Some r"
  using assms
proof (induction m arbitrary: n d)
  case 0
  then show ?case by (subst retry_loop.simps) (auto simp: goes_on_def split: option.splits)
next
  case (Suc m)
  have "goes_on v n" using Suc.prems(1) by simp
  moreover have "\<exists>r. retry_loop v (n + 1) (next_delay v d) = Some r"
    using Suc.prems by (intro Suc.IH) auto
  ultimately show ?case by (auto simp: retry_loop_on)
qed

lemma retry_while_ends: "(\<exists>r. retry_while v = Some r) \<longleftrightarrow> (\<exists>m. \<not> goes_on v m)"
proof
  show "\<exists>m. \<not> goes_on v m" if "\<exists>r. retry_while v = Some r"
    using that retry_loop_endless [of v 0 "rv_min v"] unfolding retry_while_def by (metis option.distinct(1))
next
  assume "\<exists>m. \<not> goes_on v m"
  let ?m = "LEAST m. \<not> goes_on v m"
  have "\<not> goes_on v (0 + ?m)" using LeastI_ex [OF \<open>\<exists>m. \<not> goes_on v m\<close>] by simp
  moreover have "goes_on v k" if "0 \<le> k" "k < 0 + ?m" for k
    using not_less_Least [of k "\<lambda>m. \<not> goes_on v m"] that(2) by simp
  ultimately show "\<exists>r. retry_while v = Some r"
    unfolding retry_while_def by (intro retry_loop_stops [of 0 ?m])
qed

text \<open>
  C37. When the broker's retries end: \<open>retry\<close> ends exactly if some attempt succeeds, is refused by
  the relay, or its wait is cancelled; \<open>retryAll\<close> exactly if some attempt succeeds or its
  wait is cancelled.
\<close>
theorem retry_ends:
  "((\<exists>r. retry v = Some r) \<longleftrightarrow>
      (\<exists>m. rv_attempt v m = None \<or> (\<exists>t. rv_attempt v m = Some (RelayRefused t)) \<or> (\<exists>e. rv_sleep v m = Some e))) \<and>
   ((\<exists>r. retry_all v = Some r) \<longleftrightarrow> (\<exists>m. rv_attempt v m = None \<or> (\<exists>e. rv_sleep v m = Some e)))"
  unfolding retry_def retry_all_def retry_while_ends goes_on_again
  by (intro conjI arg_cong [where f = Ex] ext) (auto simp: retryable_def split: option.splits call_err.splits)

text \<open>
  A result the relay refuses for good is sent for ever: \<open>retry\<close> gives a refusal back after the
  first attempt and without a wait, but \<open>retryAll\<close>, which delivers the terminal reports, does
  not return as long as nobody cancels it.
\<close>
theorem retry_all_never_gives_up:
  "let v = v0\<lparr>rv_attempt := (\<lambda>_. Some (RelayRefused e)), rv_sleep := (\<lambda>_. None)\<rparr> in
   retry v = Some (Some (RelayRefused e), []) \<and> retry_all v = None"
proof -
  let ?v = "v0\<lparr>rv_attempt := (\<lambda>_. Some (RelayRefused e)), rv_sleep := (\<lambda>_. None)\<rparr>"
  have "retry ?v = Some (Some (RelayRefused e), [])"
    by (simp add: retry_def retry_while_def) (subst retry_loop.simps, simp add: retryable_def)
  moreover have "retry_all ?v = None"
    unfolding retry_all_def retry_while_def by (rule retry_loop_endless) (simp add: goes_on_def)
  ultimately show ?thesis by (simp add: Let_def)
qed

section \<open>Pairing\<close>

text \<open>Pairings one after the other: for each the disk, the fresh randomness and the input.\<close>

fun pairings :: "protector \<Rightarrow> (string option \<times> string option \<times> string option \<times> string) list \<Rightarrow> file_read
    \<Rightarrow> string + file_read" where
  "pairings p [] file = Inr file"
| "pairings p ((disk, session, secret, input) # rest) file =
     bind_sum (pair p disk session secret input file) (pairings p rest)"

definition token_of :: "string \<Rightarrow> string" where
  "token_of input = trim_space (take 513 input)"

lemma saved_loads:
  assumes "save_credential p disk c = Inr file" and "valid_utf8 (cr_launcher c)"
    and "\<And>x s. pt_seal p x = Some s \<Longrightarrow> pt_open p s = Some x \<and> length s \<le> 65536"
  shows "load_credential p file = Inr c"
  using assms(1) decode_encoded [OF _ assms(2)] assms(3)
  by (fastforce simp: save_credential_def load_credential_def split: sum.splits option.splits)

lemma pair_Inr:
  assumes "pair p disk session secret input file = Inr file'"
  shows "\<exists>c c'. (load_credential p file = Inr c \<or> load_credential p file = Inl None \<and> c = no_credential) \<and>
    pair_update session secret (token_of input) c = Inr c' \<and> save_credential p disk c' = Inr file'"
  using assms
  by (auto simp: pair_def update_credential_def Let_def token_of_def split: option.splits sum.splits)

lemma pair_update_kept:
  assumes "pair_update session secret value c = Inr c'"
  shows "cr_token c' = value" and "cr_launcher c \<noteq> [] \<Longrightarrow> cr_launcher c' = cr_launcher c"
    and "cr_secret c \<noteq> [] \<Longrightarrow> cr_secret c' = cr_secret c" and "credential_validate c' = None"
  using assms by (auto simp: pair_update_def minted_def Let_def bind_sum_Inr_iff split: option.splits if_splits)

lemma pairings_keep:
  assumes "pairings p rest g = Inr g'" and "load_credential p g = Inr c" and "valid_utf8 (cr_launcher c)"
    and "credential_validate c = None" and "\<And>x s. pt_seal p x = Some s \<Longrightarrow> pt_open p s = Some x \<and> length s \<le> 65536"
  shows "\<exists>t. load_credential p g' = Inr (c\<lparr>cr_token := t\<rparr>) \<and> validate_token t = None \<and>
    (if rest = [] then t = cr_token c else t = token_of (snd (snd (snd (last rest)))))"
  using assms(1-4)
proof (induction rest arbitrary: g c)
  case Nil
  then show ?case by (cases c) (auto simp: credential_validate_def split: option.splits)
next
  case (Cons m rest)
  obtain disk session secret input where m: "m = (disk, session, secret, input)" by (cases m)
  obtain f where f: "pair p disk session secret input g = Inr f" "pairings p rest f = Inr g'"
    using Cons.prems(1) by (auto simp: m bind_sum_Inr_iff)
  obtain c' where c': "pair_update session secret (token_of input) c = Inr c'" "save_credential p disk c' = Inr f"
    using pair_Inr [OF f(1)] Cons.prems(2) by auto
  have "cr_launcher c \<noteq> []" "cr_secret c \<noteq> []"
    using Cons.prems(4) by (auto simp: credential_validate_None valid_lower_hex_def)
  then have eq: "c' = c\<lparr>cr_token := token_of input\<rparr>" "credential_validate c' = None"
    using pair_update_kept [OF c'(1)] by (cases c; cases c'; simp)+
  have utf: "valid_utf8 (cr_launcher c')" using Cons.prems(3) by (simp add: eq)
  from Cons.IH [OF f(2) saved_loads [OF c'(2) utf assms(5)] utf eq(2)]
  show ?case by (auto simp: eq m split: if_splits)
qed

text \<open>
  Pairing again changes the token and nothing else: after a first pairing and any number of
  later ones that succeeded, the stored credential loads, its token is the valid one of the last
  input, and its launcher session and secret are those the first pairing minted. Hypotheses on
  the platform's sealing: it opens what it sealed, within the file's size limit.
\<close>
theorem pairing_keeps_identity:
  assumes "\<And>x s. pt_seal p x = Some s \<Longrightarrow> pt_open p s = Some x \<and> length s \<le> 65536"
    and "pairings p ((disk, Some h, Some k, input) # rest) NoFile = Inr file" and "is_ascii h"
  shows "\<exists>t. load_credential p file = Inr \<lparr>cr_token = t, cr_launcher = ''launcher-'' @ h, cr_secret = k\<rparr> \<and>
    validate_token t = None \<and> t = token_of (last (input # map (\<lambda>m. snd (snd (snd m))) rest))"
proof -
  obtain f where f: "pair p disk (Some h) (Some k) input NoFile = Inr f" "pairings p rest f = Inr file"
    using assms(2) by (auto simp: bind_sum_Inr_iff)
  obtain c where c: "pair_update (Some h) (Some k) (token_of input) no_credential = Inr c" "save_credential p disk c = Inr f"
    using pair_Inr [OF f(1)] by (auto simp: load_credential_def)
  then have eq: "c = \<lparr>cr_token = token_of input, cr_launcher = ''launcher-'' @ h, cr_secret = k\<rparr>"
    by (auto simp: pair_update_def minted_def no_credential_def Let_def split: option.splits)
  have "is_ascii (cr_launcher c)" using assms(3) by (simp add: eq is_ascii_def byte_def)
  then have utf: "valid_utf8 (cr_launcher c)" by (rule valid_utf8_ascii)
  from pairings_keep [OF f(2) saved_loads [OF c(2) utf assms(1)] utf pair_update_kept(4) [OF c(1)] assms(1)]
  show ?thesis by (auto simp: eq last_map split: if_splits)
qed

definition sample_protector :: protector where
  "sample_protector = \<lparr>pt_seal = (\<lambda>x. if length x \<le> 65536 then Some x else None), pt_open = Some\<rparr>"

definition sample_credential :: "char \<Rightarrow> credential" where
  "sample_credential c = \<lparr>cr_token = replicate 64 c, cr_launcher = ''launcher-'' @ replicate 32 CHR ''a'',
     cr_secret = replicate 64 CHR ''b''\<rparr>"

lemma blank_others: "byte c \<notin> {0, 9, 10, 13} \<Longrightarrow> c \<noteq> chr 0 \<and> c \<noteq> chr 9 \<and> c \<noteq> chr 10 \<and> c \<noteq> chr 13"
  using byte_chr [of 0] byte_chr [of 9] byte_chr [of 10] byte_chr [of 13] by auto

lemma sample_saved:
  assumes "c = CHR ''1'' \<or> c = CHR ''2''"
  shows "\<exists>f. save_credential sample_protector None (sample_credential c) = Inr f"
    and "pair_update (Some (replicate 32 CHR ''a'')) (Some (replicate 64 CHR ''b'')) (token_of (replicate 64 c))
      no_credential = Inr (sample_credential c)"
    and "pair_update s k (token_of (replicate 64 CHR ''2'')) (sample_credential c) = Inr (sample_credential CHR ''2'')"
    and "valid_utf8 (cr_launcher (sample_credential c))" and "validate_token (token_of (replicate 64 c)) = None"
proof -
  have v: "credential_validate (sample_credential d) = None" if "d = CHR ''1'' \<or> d = CHR ''2''" for d
    using that by (elim disjE) (simp_all add: credential_validate_None sample_credential_def valid_lower_hex_def
        to_lower_def lower_char_def byte_class_defs blank_char_def list_all_iff list_ex_iff blank_others)
  have t: "token_of (replicate 64 d) = replicate 64 d" if "d = CHR ''1'' \<or> d = CHR ''2''" for d
    using that by (elim disjE; simp only:; code_simp)
  have len: "json_print (credential_json (sample_credential d)) \<noteq> [] \<and>
    length (json_print (credential_json (sample_credential d))) \<le> 65536" if "d = CHR ''1'' \<or> d = CHR ''2''" for d
    using that by (elim disjE; simp only:; code_simp)
  show "\<exists>f. save_credential sample_protector None (sample_credential c) = Inr f"
    using v [OF assms] len [OF assms]
    by (simp add: save_credential_def encode_credential_def sample_protector_def write_protected_def journal_limit_def)
  show "valid_utf8 (cr_launcher (sample_credential c))"
    by (rule valid_utf8_ascii) (simp add: sample_credential_def is_ascii_def byte_def list_all_iff)
  show "pair_update (Some (replicate 32 CHR ''a'')) (Some (replicate 64 CHR ''b'')) (token_of (replicate 64 c))
      no_credential = Inr (sample_credential c)"
    using v [OF assms] t [OF assms]
    by (simp add: pair_update_def minted_def no_credential_def sample_credential_def)
  show "pair_update s k (token_of (replicate 64 CHR ''2'')) (sample_credential c) = Inr (sample_credential CHR ''2'')"
    using v [of "CHR ''2''"] t [of "CHR ''2''"]
    by (simp add: pair_update_def minted_def sample_credential_def)
  show "validate_token (token_of (replicate 64 c)) = None"
    using t [OF assms] v [OF assms] by (auto simp: credential_validate_def sample_credential_def split: option.splits)
qed

lemma sample_sealing: "pt_seal sample_protector x = Some s \<Longrightarrow> pt_open sample_protector s = Some x \<and> length s \<le> 65536"
  by (auto simp: sample_protector_def split: if_splits)

theorem pairing_keeps_identity_witness:
  "\<exists>f. pairings sample_protector [(None, Some (replicate 32 CHR ''a''), Some (replicate 64 CHR ''b''), replicate 64 CHR ''1''),
       (None, None, None, replicate 64 CHR ''2'')] NoFile = Inr f \<and>
     (\<exists>t. load_credential sample_protector f = Inr \<lparr>cr_token = t, cr_launcher = ''launcher-'' @ replicate 32 CHR ''a'',
        cr_secret = replicate 64 CHR ''b''\<rparr>)"
proof -
  obtain f where f: "save_credential sample_protector None (sample_credential CHR ''1'') = Inr f"
    using sample_saved(1) by blast
  obtain g where g: "save_credential sample_protector None (sample_credential CHR ''2'') = Inr g"
    using sample_saved(1) by blast
  have l: "load_credential sample_protector f = Inr (sample_credential CHR ''1'')"
    by (rule saved_loads [OF f sample_saved(4) sample_sealing]) simp
  have "pair sample_protector None (Some (replicate 32 CHR ''a'')) (Some (replicate 64 CHR ''b'')) (replicate 64 CHR ''1'') NoFile
      = Inr f"
    using sample_saved(2,5) [of "CHR ''1''"] f
    by (simp add: pair_def update_credential_def load_credential_def token_of_def Let_def)
  moreover have "pair sample_protector None None None (replicate 64 CHR ''2'') f = Inr g"
    using sample_saved(3) [of "CHR ''1''" None None] sample_saved(5) [of "CHR ''2''"] g l
    by (simp add: pair_def update_credential_def token_of_def Let_def)
  ultimately have run: "pairings sample_protector [(None, Some (replicate 32 CHR ''a''), Some (replicate 64 CHR ''b''), replicate 64 CHR ''1''),
       (None, None, None, replicate 64 CHR ''2'')] NoFile = Inr g"
    by simp
  have "is_ascii (replicate 32 CHR ''a'')" by code_simp
  from pairing_keeps_identity [OF sample_sealing run this] run show ?thesis by blast
qed

end
