(* ===== verification/Values.thy ===== *)
theory Values
  imports Request
begin

text \<open>
  What the clients of the daemon use of Go beyond the daemon itself: \<open>float64\<close> as the decoder
  makes it of a number literal, values of no fixed type (\<open>map[string]any\<close>), and
  \<open>path/filepath\<close> on Unix.
\<close>

section \<open>Ops by name\<close>

lemma op_of_names [simp]:
  "op_of ''register'' = OpRegister" "op_of ''deregister'' = OpDeregister" "op_of ''whoami'' = OpWhoami"
  "op_of ''event'' = OpEvent" "op_of ''idle'' = OpIdle"
  "op_of ''board'' = OpBoard" "op_of ''agents'' = OpAgents" "op_of ''send'' = OpSend" "op_of ''read'' = OpRead"
  "op_of ''peek'' = OpPeek" "op_of ''broadcast'' = OpBroadcast" "op_of ''claim'' = OpClaim"
  "op_of ''release'' = OpRelease" "op_of ''claims'' = OpClaims" "op_of ''history'' = OpHistory"
  "op_of ''list_workspaces'' = OpListWorkspaces" "op_of ''list_eyes'' = OpListEyes"
  "op_of ''list_eyes_tasks'' = OpListEyesTasks" "op_of ''send_workspace'' = OpSendWorkspace"
  "op_of ''request_eyes'' = OpRequestEyes" "op_of ''cancel_eyes'' = OpCancelEyes"
  by (simp_all add: op_of_def op_names_def)

section \<open>Floating point\<close>

text \<open>The exact value of a literal: its sign, and numerator and denominator of its magnitude.\<close>

definition exponent_value :: "string \<Rightarrow> int" where
  "exponent_value t = (case t of
     [] \<Rightarrow> 0
   | e # r \<Rightarrow> (case r of
       [] \<Rightarrow> 0
     | c # ds \<Rightarrow> if c = CHR ''-'' then - int (undec_nat ds) else if c = CHR ''+'' then int (undec_nat ds)
         else int (undec_nat r)))"

definition literal_ratio :: "string \<Rightarrow> bool \<times> nat \<times> nat" where
  "literal_ratio t =
     (let neg = has_prefix ''-'' t; b = (if neg then tl t else t);
          whole = takeWhile is_digit b; r = dropWhile is_digit b;
          frac = (if has_prefix ''.'' r then takeWhile is_digit (tl r) else []);
          r' = (if has_prefix ''.'' r then dropWhile is_digit (tl r) else r);
          e = exponent_value r' - int (length frac) in
      (neg, undec_nat (whole @ frac) * 10 ^ nat e, 10 ^ nat (- e)))"

text \<open>\<open>Float m e\<close> stands for \<open>m * 2 ^ e\<close>. Rounding is to the nearest, ties to even.\<close>

datatype float64 = Float (mantissa: int) (scale: int)

fun bit_count :: "nat \<Rightarrow> nat" where
  "bit_count n = (if n = 0 then 0 else Suc (bit_count (n div 2)))"

declare bit_count.simps [simp del]

definition round_div :: "nat \<Rightarrow> nat \<Rightarrow> nat" where
  "round_div n d = (let q = n div d; r = n mod d in if d < 2 * r \<or> (2 * r = d \<and> odd q) then q + 1 else q)"

definition float_scale :: "nat \<Rightarrow> nat \<Rightarrow> int" where
  "float_scale n d =
     (let e = int (bit_count n) - int (bit_count d) - 53 in
      max (- 1074) (if n * 2 ^ nat (- (e + 53)) < d * 2 ^ nat (e + 53) then e else e + 1))"

text \<open>\<open>None\<close> is a magnitude that overflows, which the decoder refuses.\<close>

definition float_limit :: nat where "float_limit = 2 ^ 1024"

definition float_of_literal :: "string \<Rightarrow> float64 option" where
  "float_of_literal t =
     (case literal_ratio t of (neg, n, d) \<Rightarrow>
        (let e = float_scale n d; m = round_div (n * 2 ^ nat (- e)) (d * 2 ^ nat e) in
         if float_limit \<le> m * 2 ^ nat e then None else Some (Float (if neg then - int m else int m) e)))"

definition float_trunc :: "float64 \<Rightarrow> int" where
  "float_trunc x = (let m = mantissa x; e = scale x in
     if 0 \<le> e then m * 2 ^ nat e else sgn m * (\<bar>m\<bar> div 2 ^ nat (- e)))"

definition float_is_whole :: "float64 \<Rightarrow> bool" where
  "float_is_whole x \<longleftrightarrow> 0 \<le> scale x \<or> (2::int) ^ nat (- scale x) dvd mantissa x"

text \<open>
  \<open>int64(x)\<close>. Go leaves the result of a conversion that does not fit to the platform: it is an
  argument.
\<close>

definition float_to_int64 :: "(float64 \<Rightarrow> int) \<Rightarrow> float64 \<Rightarrow> int" where
  "float_to_int64 wild x = (let i = float_trunc x in if - (2 ^ 63) \<le> i \<and> i < 2 ^ 63 then i else wild x)"

lemma bit_count_less: "n < 2 ^ bit_count n"
proof (induction n rule: bit_count.induct)
  case (1 n)
  then show ?case by (subst bit_count.simps) (auto simp: div_less_iff_less_mult)
qed

lemma bit_count_le: "n < 2 ^ k \<Longrightarrow> bit_count n \<le> k"
proof (induction k arbitrary: n)
  case 0
  then show ?case by (simp add: bit_count.simps)
next
  case (Suc k)
  then have "n div 2 < 2 ^ k" by (simp add: div_less_iff_less_mult)
  then have "bit_count (n div 2) \<le> k" by (rule Suc.IH)
  then show ?case by (subst bit_count.simps) simp
qed

lemma round_div_one [simp]: "round_div n (Suc 0) = n"
  by (simp add: round_div_def)

lemma literal_ratio_int: "literal_ratio (dec_int i) = (i < 0, nat \<bar>i\<bar>, 1)"
proof -
  have d: "\<forall>c \<in> set (dec_nat n). is_digit c" for n using dec_nat_digits by (simp add: list_all_iff)
  have tw: "takeWhile is_digit (dec_nat n) = dec_nat n" "dropWhile is_digit (dec_nat n) = []" for n
    using d by (simp_all add: takeWhile_eq_all_conv dropWhile_eq_Nil_conv)
  have np: "\<not> has_prefix ''-'' (dec_nat n)" for n
  proof -
    obtain c cs where "dec_nat n = c # cs" by (cases "dec_nat n") auto
    then show ?thesis using hd_dec_nat_digit [of n] by (auto simp: is_digit_def byte_def)
  qed
  show ?thesis
    by (simp add: literal_ratio_def dec_int_def np tw exponent_value_def Let_def)
qed

text \<open>Whole numbers below \<open>2 ^ 53\<close> come through unchanged.\<close>

lemma float_of_dec_int:
  assumes "\<bar>i\<bar> < 2 ^ 53"
  obtains x where "float_of_literal (dec_int i) = Some x" and "float_trunc x = i" and "float_is_whole x"
proof -
  define n where "n = nat \<bar>i\<bar>"
  have n: "n < 2 ^ 53" using assms by (simp add: n_def nat_less_iff)
  have b: "bit_count n \<le> 53" by (rule bit_count_le [OF n])
  have b1: "bit_count (Suc 0) = 1" by (simp add: bit_count.simps)
  define e where "e = float_scale n (Suc 0)"
  have e: "e \<le> 0" using b by (auto simp: e_def float_scale_def b1 Let_def)
  define k where "k = nat (- e)"
  have ek: "e = - int k" using e by (simp add: k_def)
  define x where "x = Float (if i < 0 then - int (n * 2 ^ k) else int (n * 2 ^ k)) e"
  have small: "n * 2 ^ k * 2 ^ nat e < float_limit"
  proof -
    have k: "k \<le> 54" using e by (auto simp: k_def e_def float_scale_def b1 Let_def)
    have "n * 2 ^ k < 2 ^ 53 * 2 ^ k" using n by simp
    also have "\<dots> \<le> (2::nat) ^ 53 * 2 ^ 54" using k by (intro mult_left_mono power_increasing) auto
    also have "\<dots> < float_limit" by (simp add: float_limit_def)
    finally show ?thesis by (simp add: ek)
  qed
  have f: "float_of_literal (dec_int i) = Some x"
    using small by (simp add: float_of_literal_def literal_ratio_int n_def [symmetric] Let_def e_def [symmetric] ek x_def)
  have n_i: "int n = \<bar>i\<bar>" by (simp add: n_def)
  have "\<bar>i * 2 ^ k\<bar> div 2 ^ k = \<bar>i\<bar>" by (simp add: abs_mult)
  moreover have "mantissa x = i * 2 ^ k" using n_i by (auto simp: x_def)
  moreover have "sgn (i * 2 ^ k) = sgn i" by (simp add: sgn_mult)
  ultimately have "float_trunc x = i"
    by (simp add: float_trunc_def Let_def x_def ek sgn_mult_abs)
  moreover have "float_is_whole x" by (simp add: float_is_whole_def x_def ek)
  ultimately show ?thesis using f that by blast
qed

section \<open>Texts\<close>

text \<open>The verb \<open>%-ns\<close> counts runes.\<close>

definition pad_right :: "nat \<Rightarrow> string \<Rightarrow> string" where
  "pad_right n t = t @ replicate (n - length (runes t)) (CHR '' '')"

lemma runes_append: "\<forall>rb \<in> set rbs. good_rune rb \<Longrightarrow> runes (concat (map snd rbs) @ t) = rbs @ runes t"
proof (induction rbs)
  case (Cons rb rbs)
  obtain r bs where rb: "rb = (r, bs)" by (cases rb)
  have g: "good_rune (r, bs)" using Cons.prems rb by simp
  then obtain c cs where bs: "bs = c # cs" by (cases bs) (auto simp: good_rune_def)
  let ?s = "concat (map snd rbs) @ t"
  have "decode_rune (c # cs @ ?s) = (r, Suc (length cs))" using g bs by (auto simp: good_rune_def simp del: decode_rune.simps)
  then show ?case using Cons rb bs by (simp del: decode_rune.simps)
qed simp

lemma valid_utf8_append: "valid_utf8 s \<Longrightarrow> valid_utf8 t \<Longrightarrow> valid_utf8 (s @ t)"
proof -
  assume s: "valid_utf8 s" and t: "valid_utf8 t"
  have "runes (s @ t) = runes s @ runes t"
    using runes_append [of "runes s" t] valid_utf8_good [OF s] by (simp add: concat_runes)
  then show ?thesis using s t by (simp add: valid_utf8_def)
qed

section \<open>Integers in text\<close>

text \<open>\<open>strconv.ParseInt(s, 10, 64)\<close>, which takes a leading plus sign as well.\<close>

definition parse_int :: "string \<Rightarrow> int option" where
  "parse_int t = (case t of
     [] \<Rightarrow> None
   | c # r \<Rightarrow> if c = CHR ''+'' then (if r \<noteq> [] \<and> hd r = CHR ''-'' then None else parse_int64 r) else parse_int64 t)"

section \<open>Values of no fixed type\<close>

text \<open>
  A document decoded into \<open>any\<close> and the members of a \<open>map[string]any\<close>, in the order they were
  stored: the last one of a key counts. A number that does not fit is an error and leaves nil.
\<close>

type_synonym members = "(string \<times> json) list"

fun any_value :: "json \<Rightarrow> json \<times> bool" where
  "any_value (JNum t) = (if float_of_literal t = None then (JNull, False) else (JNum t, True))"
| "any_value (JArr js) = (JArr (map (\<lambda>j. fst (any_value j)) js), list_all (\<lambda>j. snd (any_value j)) js)"
| "any_value (JObj kvs) = (JObj (map (\<lambda>(k, j). (k, fst (any_value j))) kvs), list_all (\<lambda>(k, j). snd (any_value j)) kvs)"
| "any_value j = (j, True)"

definition dec_any_map :: "members decoder" where
  "dec_any_map j m = (case j of
     JNull \<Rightarrow> ([], True)
   | JObj kvs \<Rightarrow> (m @ map (\<lambda>(k, v). (k, fst (any_value v))) kvs, snd (any_value j))
   | _ \<Rightarrow> (m, False))"

definition arg_at :: "members \<Rightarrow> string \<Rightarrow> json option" where
  "arg_at m k = map_of (rev m) k"

text \<open>\<open>s, _ := m[k].(string)\<close> and the same for a bool, a nested object and a number.\<close>

definition text_arg :: "members \<Rightarrow> string \<Rightarrow> string" where
  "text_arg m k = (case arg_at m k of Some (JStr s) \<Rightarrow> s | _ \<Rightarrow> [])"

definition bool_arg :: "members \<Rightarrow> string \<Rightarrow> bool" where
  "bool_arg m k = (case arg_at m k of Some (JBool b) \<Rightarrow> b | _ \<Rightarrow> False)"

definition object_arg :: "members \<Rightarrow> string \<Rightarrow> members option" where
  "object_arg m k = (case arg_at m k of Some (JObj kvs) \<Rightarrow> Some kvs | _ \<Rightarrow> None)"

definition number_arg :: "members \<Rightarrow> string \<Rightarrow> float64 option" where
  "number_arg m k = (case arg_at m k of Some (JNum t) \<Rightarrow> float_of_literal t | _ \<Rightarrow> None)"

section \<open>Paths\<close>

abbreviation slash :: char where "slash \<equiv> CHR 0x2F"

definition is_abs :: "string \<Rightarrow> bool" where
  "is_abs p = has_prefix [slash] p"

text \<open>\<open>filepath.Clean\<close>: the elements kept so far, the last one first.\<close>

definition clean_step :: "bool \<Rightarrow> string \<Rightarrow> string list \<Rightarrow> string list" where
  "clean_step rooted c out =
     (if c = [] \<or> c = ''.'' then out
      else if c = ''..'' then
        (case out of
           x # xs \<Rightarrow> if x = ''..'' then c # out else xs
         | [] \<Rightarrow> if rooted then [] else [c])
      else c # out)"

definition clean_parts :: "bool \<Rightarrow> string list \<Rightarrow> string list" where
  "clean_parts rooted cs = rev (fold (clean_step rooted) cs [])"

definition clean :: "string \<Rightarrow> string" where
  "clean p =
     (let out = clean_parts (is_abs p) (split_on slash p) in
      if is_abs p then slash # join [slash] out
      else if out = [] then ''.'' else join [slash] out)"

definition join_path :: "string \<Rightarrow> string \<Rightarrow> string" where
  "join_path a b =
     (if a \<noteq> [] then clean (a @ slash # b) else if b \<noteq> [] then clean b else [])"

text \<open>\<open>filepath.Base\<close> of a path that is not empty.\<close>

definition base_name :: "string \<Rightarrow> string" where
  "base_name p =
     (if p = [] then ''.''
      else (let r = dropWhile (\<lambda>c. c = slash) (rev p); w = rev (takeWhile (\<lambda>c. c \<noteq> slash) r) in
        if w = [] then [slash] else w))"

section \<open>Cleaned paths\<close>

text \<open>The elements a cleaned path is built of: \<open>..\<close> only in front, and not under the root.\<close>

definition plain_part :: "string \<Rightarrow> bool" where
  "plain_part c \<longleftrightarrow> c \<noteq> [] \<and> c \<noteq> ''.'' \<and> slash \<notin> set c"

fun settled :: "bool \<Rightarrow> string list \<Rightarrow> bool" where
  "settled rooted [] = True"
| "settled rooted (x # xs) = (plain_part x \<and>
     (if x = ''..'' then \<not> rooted \<and> (\<forall>y \<in> set xs. y = ''..'') else True) \<and> settled rooted xs)"

lemma settled_step: "settled rooted out \<Longrightarrow> slash \<notin> set c \<Longrightarrow> settled rooted (clean_step rooted c out)"
  by (cases out) (auto simp: clean_step_def plain_part_def)

lemma settled_fold: "settled rooted out \<Longrightarrow> \<forall>c \<in> set cs. slash \<notin> set c \<Longrightarrow> settled rooted (fold (clean_step rooted) cs out)"
  by (induction cs arbitrary: out) (auto intro: settled_step)

lemma settled_fixed: "settled rooted out \<Longrightarrow> fold (clean_step rooted) (rev out) [] = out"
proof (induction out)
  case (Cons x xs)
  then have "fold (clean_step rooted) (rev xs) [] = xs" by simp
  moreover have "clean_step rooted x xs = x # xs"
    using Cons.prems by (cases xs; cases "x = ''..''") (simp_all add: clean_step_def plain_part_def)
  ultimately show ?case by simp
qed simp

lemma split_on_no_sep: "w \<in> set (split_on sep s) \<Longrightarrow> sep \<notin> set w"
  by (induction s arbitrary: w) (auto split: if_splits list.splits)

lemma split_on_whole: "sep \<notin> set w \<Longrightarrow> split_on sep w = [w]"
  by (induction w) auto

lemma split_on_cut: "sep \<notin> set w \<Longrightarrow> split_on sep (w @ sep # r) = w # split_on sep r"
  by (induction w) auto

lemma split_on_join: "ws \<noteq> [] \<Longrightarrow> \<forall>w \<in> set ws. sep \<notin> set w \<Longrightarrow> split_on sep (join [sep] ws) = ws"
  by (induction "[sep]" ws rule: join.induct) (auto simp: split_on_whole split_on_cut)

lemma clean_parts_settled: "settled rooted (rev (clean_parts rooted (split_on slash p)))"
  using settled_fold [of rooted "[]" "split_on slash p"] split_on_no_sep by (fastforce simp: clean_parts_def)

lemma settled_plain: "settled rooted xs \<Longrightarrow> \<forall>x \<in> set xs. plain_part x"
  by (induction xs) auto

lemma clean_parts_again: "settled rooted (rev out) \<Longrightarrow> clean_parts rooted out = out"
  using settled_fixed [of rooted "rev out"] by (simp add: clean_parts_def)

lemma is_abs_clean [simp]: "is_abs (clean p) = is_abs p"
proof (cases "is_abs p")
  case False
  let ?out = "clean_parts False (split_on slash p)"
  have plain: "\<forall>x \<in> set ?out. plain_part x" using settled_plain [OF clean_parts_settled] by fastforce
  show ?thesis
  proof (cases ?out)
    case (Cons x xs)
    then obtain c cs where "x = c # cs" "c \<noteq> slash" using plain by (cases x) (auto simp: plain_part_def)
    then show ?thesis using False Cons by (cases xs) (simp_all add: clean_def is_abs_def Let_def)
  qed (use False in \<open>simp add: clean_def is_abs_def Let_def\<close>)
qed (simp add: clean_def is_abs_def Let_def)

lemma clean_clean [simp]: "clean (clean p) = clean p"
proof -
  let ?r = "is_abs p"
  define out where "out = clean_parts ?r (split_on slash p)"
  have st: "settled ?r (rev out)" by (simp add: out_def clean_parts_settled)
  have plain: "\<forall>x \<in> set out. plain_part x" using settled_plain [OF st] by simp
  then have no: "\<forall>x \<in> set out. slash \<notin> set x" by (auto simp: plain_part_def)
  have c: "clean p = (if ?r then slash # join [slash] out else if out = [] then ''.'' else join [slash] out)"
    by (simp add: clean_def out_def Let_def)
  have skip: "clean_parts r ([] # cs) = clean_parts r cs" "clean_parts r [[]] = []" "clean_parts r [''.''] = []" for r cs
    by (simp_all add: clean_parts_def clean_step_def)
  have "clean_parts ?r (split_on slash (clean p)) = out"
    using split_on_join [OF _ no] clean_parts_again [OF st]
    by (cases "out = []"; cases "is_abs p") (simp_all add: c skip)
  then have "clean (clean p) = (if ?r then slash # join [slash] out else if out = [] then ''.'' else join [slash] out)"
    by (subst clean_def) (simp only: is_abs_clean Let_def)
  then show ?thesis by (simp only: c)
qed

lemma join_path_abs: "is_abs a \<Longrightarrow> is_abs (join_path a b)"
  by (cases a) (auto simp: join_path_def is_abs_def [of "_ # _"]; simp add: is_abs_def)+

lemma join_snoc: "xs \<noteq> [] \<Longrightarrow> join [c] (xs @ [a]) = join [c] xs @ c # a"
proof (induction xs)
  case (Cons x xs)
  then show ?case by (cases xs) simp_all
qed simp

end
