(* ===== verification/Wait.thy ===== *)
theory Wait
  imports Daemon Values
begin

text \<open>
  The \<open>wait\<close> command (\<open>cmd/agent-coordinator/wait.go\<close>): a process that blocks until an agent has
  mail newer than a cursor kept on disk. The cursor file, what each look into the inbox answers,
  the clock and the errors of the disk are arguments.
\<close>

section \<open>The cursor on disk\<close>

definition wait_state_ttl :: int where "wait_state_ttl = 24 * 60 * 60 * ns_second"

text \<open>A file that is there: when it was last written, and its text unless it cannot be read.\<close>

record cursor_file =
  cf_mtime :: time
  cf_text :: "string option"

definition load_wait_state :: "time \<Rightarrow> cursor_file option \<Rightarrow> int option" where
  "load_wait_state now f = (case f of
     None \<Rightarrow> None
   | Some c \<Rightarrow>
       if \<not> now < cf_mtime c + wait_state_ttl then None
       else (case cf_text c of
           None \<Rightarrow> None
         | Some t \<Rightarrow> (case parse_int (trim_space t) of
               None \<Rightarrow> None | Some i \<Rightarrow> if i < 0 then None else Some i)))"

text \<open>
  \<open>retryWaitStateRename\<close>: the replacement of the old file, tried nine times where a sharing
  conflict is worth another attempt. The result says how long it slept in between.
\<close>

datatype rename_result = Renamed | AccessDenied | SharingViolation | RenameFailed string

definition last_attempt :: nat where "last_attempt = 8"

fun rename_attempts :: "(nat \<Rightarrow> rename_result) \<Rightarrow> bool \<Rightarrow> nat \<Rightarrow> rename_result \<times> int list" where
  "rename_attempts rename windows 0 = (rename last_attempt, [])"
| "rename_attempts rename windows (Suc left) =
     (let attempt = last_attempt - Suc left; e = rename attempt in
      if e = Renamed \<or> \<not> windows \<or> e \<noteq> AccessDenied \<and> e \<noteq> SharingViolation then (e, [])
      else (let (e', waits) = rename_attempts rename windows left in
        (e', 5 * (ns_second div 1000) * 2 ^ attempt # waits)))"

definition retry_rename :: "(nat \<Rightarrow> rename_result) \<Rightarrow> bool \<Rightarrow> rename_result \<times> int list" where
  "retry_rename rename windows = rename_attempts rename windows last_attempt"

text \<open>The error of the first step of a save that failed, if one did.\<close>

definition save_wait_state :: "string option \<Rightarrow> time \<Rightarrow> int \<Rightarrow> cursor_file option \<Rightarrow> cursor_file option \<times> string option" where
  "save_wait_state disk now after_id f = (case disk of
     Some e \<Rightarrow> (f, Some e)
   | None \<Rightarrow> (Some \<lparr>cf_mtime = now, cf_text = Some (dec_int after_id @ [newline])\<rparr>, None))"

definition wait_state_name :: "string \<Rightarrow> string \<Rightarrow> string" where
  "wait_state_name sc name = sha256_hex (sc @ [chr 0] @ name) @ ''.cursor''"

section \<open>One look into the inbox\<close>

datatype peek_answer = PeekOk peek_info | PeekRefused string | PeekMissed

definition peek_request :: "string \<Rightarrow> string \<Rightarrow> int \<Rightarrow> request" where
  "peek_request sc name after_id = zero_request\<lparr>q_op := ''peek'', q_scope := sc, q_from := name, q_after := after_id\<rparr>"

text \<open>\<open>None\<close> is a daemon that could not be reached.\<close>

definition peek_once :: "response option \<Rightarrow> peek_answer" where
  "peek_once r = (case r of
     None \<Rightarrow> PeekMissed
   | Some x \<Rightarrow> if \<not> rs_ok x then PeekRefused (rs_error x)
       else PeekOk \<lparr>pk_unread = rs_unread x, pk_high = rs_high x, pk_ids = rs_peek_ids x, pk_froms = rs_peek_froms x\<rparr>)"

section \<open>Waiting\<close>

record wait_result =
  wr_unread :: nat
  wr_ids :: "nat list"
  wr_froms :: "string list"

datatype wait_end = Mail wait_result | TimedOut | WaitFailed string

text \<open>The start of \<open>waitForMail\<close>: resume a live cursor, or take the newest delivered mail as seen.\<close>

definition arm :: "time \<Rightarrow> peek_answer \<Rightarrow> string option \<Rightarrow> cursor_file option
    \<Rightarrow> cursor_file option \<times> (wait_end + int)" where
  "arm now seen disk f =
     (case load_wait_state now f of
        Some after_id \<Rightarrow> (case disk of
            Some e \<Rightarrow> (f, Inl (WaitFailed (''refresh arm state: '' @ e)))
          | None \<Rightarrow> (map_option (cf_mtime_update (\<lambda>_. now)) f, Inr after_id))
      | None \<Rightarrow> (case seen of
            PeekRefused e \<Rightarrow> (f, Inl (WaitFailed e))
          | _ \<Rightarrow>
              (let after_id = (case seen of PeekOk i \<Rightarrow> int (pk_high i) | _ \<Rightarrow> 0) in
               case save_wait_state disk now after_id f of
                 (f', Some e) \<Rightarrow> (f', Inl (WaitFailed (''save arm state: '' @ e)))
               | (f', None) \<Rightarrow> (f', Inr after_id))))"

text \<open>One turn of the loop: the end of the wait, or the cursor to go on with after the sleep.\<close>

definition unless_late :: "bool \<Rightarrow> int \<Rightarrow> wait_end + int" where
  "unless_late late after_id = (if late then Inl TimedOut else Inr after_id)"

definition poll :: "time \<Rightarrow> bool \<Rightarrow> peek_answer \<Rightarrow> string option \<Rightarrow> int \<Rightarrow> cursor_file option
    \<Rightarrow> cursor_file option \<times> (wait_end + int)" where
  "poll now late seen disk after_id f =
     (case seen of
        PeekOk i \<Rightarrow>
          if 0 < pk_unread i then
            (f, Inl (Mail \<lparr>wr_unread = pk_unread i, wr_ids = pk_ids i, wr_froms = pk_froms i\<rparr>))
          else if after_id < int (pk_high i) then
            (case save_wait_state disk now (int (pk_high i)) f of
               (f', Some e) \<Rightarrow> (f', Inl (WaitFailed (''advance consumed state: '' @ e)))
             | (f', None) \<Rightarrow> (f', unless_late late (int (pk_high i))))
          else (f, unless_late late after_id)
      | PeekRefused e \<Rightarrow> (f, Inl (WaitFailed e))
      | PeekMissed \<Rightarrow> (f, unless_late late after_id))"

text \<open>The loop may wait as long as the clock lets it: \<open>None\<close> is a wait that never ends.\<close>

record wait_env =
  we_now :: "nat \<Rightarrow> time"
  we_peek :: "nat \<Rightarrow> int \<Rightarrow> peek_answer"
  we_disk :: "nat \<Rightarrow> string option"
  we_deadline :: time

partial_function (option) wait_loop :: "wait_env \<Rightarrow> nat \<Rightarrow> int \<Rightarrow> cursor_file option
    \<Rightarrow> (cursor_file option \<times> wait_end) option" where
  "wait_loop v n after_id f =
     (case poll (we_now v n) (we_deadline v < we_now v n) (we_peek v n after_id) (we_disk v n) after_id f of
        (f', Inl e) \<Rightarrow> Some (f', e)
      | (f', Inr a) \<Rightarrow> wait_loop v (n + 1) a f')"

text \<open>What \<open>runWait\<close> prints, and its exit code.\<close>

definition wait_output :: "wait_end \<Rightarrow> string \<times> nat" where
  "wait_output e = (case e of
     Mail r \<Rightarrow>
       (let from = join '','' (wr_froms r) in
        (''mail from='' @ (if from = [] then ''?'' else from) @ '' count='' @ dec_nat (wr_unread r) @
          '' ids='' @ join '','' (map dec_nat (wr_ids r)), 0))
   | TimedOut \<Rightarrow> (''timeout'', 1)
   | WaitFailed t \<Rightarrow> ([], 2))"

section \<open>Laws\<close>

text \<open>A cursor that was saved is the one the next waiter resumes from, as long as the file is fresh.\<close>

lemma parse_saved:
  assumes "0 \<le> a"
  shows "parse_int (trim_space (dec_int a @ [newline])) = (if a < 2 ^ 63 then Some a else None)"
proof -
  have t: "dec_int a = dec_nat (nat a)" using assms by (simp add: dec_int_def)
  have dig: "\<forall>c \<in> set (dec_nat (nat a)). is_digit c" using dec_nat_digits by (auto simp: list_all_iff)
  have solid: "\<not> is_space (byte c) \<and> byte c < 128" if "is_digit c" for c
    using that by (auto simp: is_digit_def is_space_def)
  have ascii: "is_ascii (dec_nat (nat a) @ [newline])"
    using dig solid by (auto simp: is_ascii_def list_all_iff newline_def byte_chr)
  have keep: "dropWhile (\<lambda>rb. is_space (fst rb)) (map (\<lambda>c. (byte c, [c])) cs @ more) = map (\<lambda>c. (byte c, [c])) cs @ more"
    if "cs \<noteq> []" "\<forall>c \<in> set cs. is_digit c" for cs more
    using that solid by (cases cs) auto
  have trim: "trim_space (dec_int a @ [newline]) = dec_int a"
    using keep [of "dec_nat (nat a)" "[(10, [newline])]"] keep [of "rev (dec_nat (nat a))" "[]"] dig ascii
    by (simp add: t trim_space_def runes_ascii newline_def byte_chr is_space_def rev_map o_def)
  obtain c cs where cs: "dec_nat (nat a) = c # cs" by (cases "dec_nat (nat a)") auto
  have c: "c \<noteq> CHR ''+''" "c \<noteq> CHR ''-''" using dig cs by (auto simp: is_digit_def byte_def)
  have "parse_int (dec_int a) = parse_int64 (dec_nat (nat a))" using c cs by (simp add: parse_int_def t)
  moreover have "undec_int (dec_nat (nat a)) = a" using assms undec_dec_int [of a] by (simp add: t)
  then have "parse_int64 (dec_nat (nat a)) = (if a < 2 ^ 63 then Some a else None)"
    using assms dig c cs by (simp add: parse_int64_def Let_def list_all_iff)
  ultimately show ?thesis by (simp only: trim)
qed

text \<open>The nine attempts at a rename sleep 1.275 seconds at most.\<close>

lemma rename_attempts_waits:
  "left \<le> last_attempt \<Longrightarrow> sum_list (snd (rename_attempts rename windows left)) \<le> 5 * (ns_second div 1000) * (2 ^ last_attempt - 2 ^ (last_attempt - left))"
proof (induction left)
  case (Suc left)
  let ?u = "5 * (ns_second div 1000)" and ?a = "last_attempt - Suc left"
  have u: "0 < ?u" by (simp add: ns_second_def)
  have a: "last_attempt - left = Suc ?a" using Suc.prems by simp
  have "(2::int) ^ ?a \<le> 2 ^ last_attempt" by (rule power_increasing) simp_all
  then have nonneg: "0 \<le> ?u * (2 ^ last_attempt - 2 ^ ?a)" using u by simp
  have "?u * 2 ^ ?a + ?u * (2 ^ last_attempt - 2 ^ Suc ?a) = ?u * (2 ^ last_attempt - 2 ^ ?a)"
    by (simp add: algebra_simps)
  then show ?case
    using Suc nonneg unfolding a by (auto simp: Let_def split: prod.splits)
qed simp

lemma retry_rename_waits: "sum_list (snd (retry_rename rename windows)) \<le> 1275 * (ns_second div 1000)"
  using rename_attempts_waits [of last_attempt rename windows] by (simp add: retry_rename_def last_attempt_def ns_second_def)

end
