(* ===== verification/MailMoves.thy ===== *)
theory MailMoves
  imports DaemonLaws
begin

text \<open>
  What the daemon as a whole does to mail: whatever frame, sweep or housekeeping it processes, a
  message keeps its number, an unread delivery of an old number was unread before, and new mail has a new number.
\<close>

definition mail_moves :: "store \<Rightarrow> store \<Rightarrow> bool" where
  "mail_moves s s' \<longleftrightarrow> next_message s \<le> next_message s' \<and>
     (\<forall>k \<in> unread_keys s'. fst k < next_message s \<longrightarrow> k \<in> unread_keys s) \<and>
     (\<forall>m \<in> set (messages s'). mr_id m < next_message s \<longrightarrow> m \<in> set (messages s))"

definition box :: "store \<Rightarrow> message_row list \<times> delivery_row list \<times> nat" where
  "box s = (messages s, deliveries s, next_message s)"

lemma mail_moves_refl [simp]: "mail_moves s s"
  by (simp add: mail_moves_def)

lemma mail_moves_trans: "mail_moves s t \<Longrightarrow> mail_moves t u \<Longrightarrow> mail_moves s u"
  unfolding mail_moves_def by (meson le_trans order_less_le_trans)

lemma mail_moves_box: "box s' = box s \<Longrightarrow> mail_moves s s'"
  by (simp add: box_def mail_moves_def unread_keys_def)

lemma mail_moves_send: "send_to_scope d now s = Inr s' \<Longrightarrow> mail_moves s s'"
  using sent_keys(1) [of d now s s'] send_frame(7) [of d now s s']
  by (auto simp: mail_moves_def issued_keys_def send_to_scope_Inr)

lemma mail_moves_read: "read_inbox broker sc w now s = Inr (s', ms) \<Longrightarrow> mail_moves s s'"
  by (erule read_inbox_Inr) (auto simp: mail_moves_def marked_unread)

lemma mail_moves_notices: "notices_for sc aid ws now s = (s', lines) \<Longrightarrow> mail_moves s s'"
  using notices_mail(1) [of sc aid ws now s s' lines] by (auto simp: mail_moves_def marked_unread)

lemma mail_moves_fewer:
  assumes "set (messages s') \<subseteq> set (messages s)" and "set (deliveries s') \<subseteq> set (deliveries s)"
    and "next_message s' = next_message s"
  shows "mail_moves s s'"
  using assms other_keys(1) [OF assms(2)] by (auto simp: mail_moves_def)

section \<open>Operations that touch no mail\<close>

lemma box_insert_agent: "insert_agent r s = Some t \<Longrightarrow> box t = box s"
  by (auto simp: insert_agent_def box_def split: if_splits)

lemma box_register: "register quiet sc sess src now s = (s', res) \<Longrightarrow> box s' = box s"
  using register_frame [of sc sess src now s s' res] by (simp add: box_def)

lemma box_child_loop: "child_loop quiet sc child parent pname typ at ns s = (s', res) \<Longrightarrow> box s' = box s"
proof (induction ns arbitrary: s)
  case (Cons n ns)
  then show ?case by (auto simp: Let_def box_insert_agent split: if_splits option.splits)
qed auto

lemma box_register_child:
  assumes "register_child quiet quiet sc parent sub typ now s = (s', res)"
  shows "box s' = box s"
proof (cases "row_at sc (child_session parent sub) s")
  case (Some r)
  then show ?thesis using assms by (auto simp: register_child_def Let_def refresh_def box_def)
next
  case None
  obtain s1 pres where reg: "register quiet sc parent ''hook'' now s = (s1, pres)" by fastforce
  then show ?thesis
    using None assms box_register [OF reg] box_child_loop
    by (cases pres) (fastforce simp: register_child_def Let_def)+
qed

lemma box_update [simp]:
  "box (agents_update f s) = box s" "box (claims_update g s) = box s" "box (eyes_tasks_update h s) = box s"
  "box (task_rows_update i s) = box s" "box (events_update j s) = box s" "box (file_touches_update k s) = box s"
  by (simp_all add: box_def)

lemma box_claim: "claim quiet clk sc w path note s = (s', res) \<Longrightarrow> box s' = box s"
proof -
  have loop: "box t = box s" if "claim_loop quiet clk sc aid p note claim_attempts s = (t, r)" for aid p t r
    using that unfolding claim_attempts_def claim_loop_cons Let_def
    by (auto split: option.splits if_splits prod.splits simp: rewrite_claims_def)
  show "claim quiet clk sc w path note s = (s', res) \<Longrightarrow> box s' = box s"
    using loop by (auto simp: claim_def Let_def split: if_splits sum.splits)
qed

lemma box_release: "release id sc w path now s = (s', res) \<Longrightarrow> box s' = box s"
  by (auto simp: release_def Let_def split: sum.splits option.splits if_splits)

lemma box_insert_tasks: "insert_tasks sc aid at evs s = (s', res) \<Longrightarrow> box s' = box s"
proof (induction evs arbitrary: s)
  case (Cons ev evs)
  then show ?case by (fastforce split: option.splits)
qed simp

lemma box_replace_tasks: "replace_tasks sc aid at evs s = (s', res) \<Longrightarrow> box s' = box s"
  unfolding replace_tasks_def by (drule box_insert_tasks) simp

lemma box_touch_files: "box (fold (touch_file sc aid at) ps s) = box s"
  by (induction ps arbitrary: s) (simp_all add: touch_file_def Let_def)

lemma box_eyes [simp]: "box (set_eyes task f s) = box s" "box (write_eyes_progress t p at s) = box s"
  by (simp_all add: set_eyes_def write_eyes_progress_def)

section \<open>Operations that do\<close>

lemma mail_moves_after: "mail_moves t u \<Longrightarrow> box t = box s \<Longrightarrow> mail_moves s u"
  using mail_moves_trans mail_moves_box by blast

lemma mail_moves_event:
  assumes "record_event sc sess q now s = (s', res)"
  shows "mail_moves s s'"
proof -
  obtain s1 r where reg: "register quiet sc sess ''event'' now s = (s1, r)" by fastforce
  show ?thesis
  proof (cases r)
    case (Inl e)
    then show ?thesis using assms reg box_register [OF reg] by (simp add: record_event_def mail_moves_box)
  next
    case (Inr name)
    let ?aid = "agent_id sess" and ?at = "unix now"
    let ?s2 = "fold (touch_file sc ?aid ?at) (items (q_writes q)) (log_event sc ?aid q ?at s1)"
    have "box (log_event sc ?aid q ?at s1) = box s" using box_register [OF reg] by (simp add: log_event_def box_def)
    then have b2: "box ?s2 = box s" by (simp add: box_touch_files)
    obtain s3 e where rep: "(if q_replace q then replace_tasks sc ?aid ?at (items (q_tasks q)) ?s2 else (?s2, None)) = (s3, e)"
      by fastforce
    have b3: "box s3 = box s" using rep b2 box_replace_tasks [of sc ?aid ?at _ ?s2] by (auto split: if_splits)
    let ?s4 = "case q_task_ev q of None \<Rightarrow> s3 | Some ev \<Rightarrow> apply_task_event sc ?aid ?at ev s3"
    have b4: "box ?s4 = box s" using b3 by (simp add: apply_task_event_def Let_def split: option.split)
    have "s' = s3 \<or> s' = ?s4 \<or> (\<exists>lines. notices_for sc ?aid (items (q_writes q)) now ?s4 = (s', lines))"
      using assms reg Inr rep by (cases e) (auto simp: record_event_def Let_def split: if_splits prod.splits)
    then show ?thesis
      using b3 b4 mail_moves_box mail_moves_after [OF mail_moves_notices b4] by blast
  qed
qed

lemma mail_moves_deliver: "deliver_if d now s = Inr s' \<Longrightarrow> mail_moves s s'"
  by (auto simp: deliver_if_def mail_moves_send split: option.splits)

lemma mail_moves_move: "move_eyes_task task to a msg now s = Inr (s', t, moved) \<Longrightarrow> mail_moves s s'"
proof (erule move_eyes_Inr)
  show "mail_moves s s'" if "deliver_if d now (set_eyes task f s) = Inr s'" for d f
    by (rule mail_moves_after [OF mail_moves_deliver [OF that]]) simp
qed (simp_all add: mail_moves_box)

lemma mail_moves_record: "record_eyes_progress task a p now s = Inr (s', next, due) \<Longrightarrow> mail_moves s s'"
proof (erule record_Inr)
  show "mail_moves s s'" if "deliver_if d now (write_eyes_progress t next (unix now) s) = Inr s'" for d t
    by (rule mail_moves_after [OF mail_moves_deliver [OF that]]) simp
qed

lemma mail_moves_assign: "assign_eyes_task req suf now s = Inr (s', t, ref) \<Longrightarrow> mail_moves s s'"
proof (erule assign_Inr)
  show "mail_moves s s'" if "send_to_scope d now (s\<lparr>eyes_tasks := eyes_tasks s @ [t]\<rparr>) = Inr s'" for d t
    by (rule mail_moves_after [OF mail_moves_send [OF that]]) (simp add: box_def)
qed

lemma mail_moves_report: "task_report q me now s = Some (s', r) \<Longrightarrow> mail_moves s s'"
proof (erule task_report_Some)
  show "mail_moves s s'" if "apply_report what task sample q me now s = (s', r)" for what task sample
    using that by (rule apply_report_cases) (auto intro: mail_moves_move mail_moves_record)
qed simp_all

section \<open>A frame, a sweep, a night\<close>

lemma mail_moves_serve:
  assumes "serve suf now q me broker child name s = (s', r)"
  shows "mail_moves s s'"
proof -
  have run: "mail_moves s t" if "run_op s (send_to_scope d now s) = (t, x)" for d t x
    using that mail_moves_send by (auto simp: run_op_def split: sum.splits)
  have reg: "mail_moves s s'" if "on_register now q s = (s', r)"
    using that box_register
    by (fastforce simp: on_register_def register_if_no_live_hook_def intro: mail_moves_box split: if_splits prod.splits sum.splits)
  have idle: "mail_moves s s'" if "on_idle now q child s = (s', r)"
  proof -
    let ?s1 = "set_status (q_scope q) (acting_session q child) Idle now s"
    have b: "box ?s1 = box s" by (simp add: set_status_def)
    then show ?thesis
      using that mail_moves_box [OF b] mail_moves_after [OF mail_moves_notices b]
      by (auto simp: on_idle_def Let_def pending_notices_def split: if_splits prod.splits)
  qed
  have event: "mail_moves s s'" if "on_event now q child name s = (s', r)"
    using that mail_moves_event by (auto simp: on_event_def split: prod.splits sum.splits)
  have read: "mail_moves s s'" if "on_read now q broker s = (s', r)"
    using that mail_moves_read by (auto simp: on_read_def split: sum.splits)
  have claim: "mail_moves s s'" if "on_claim now q s = (s', r)"
    using that box_claim by (fastforce simp: on_claim_def intro: mail_moves_box split: prod.splits sum.splits)
  have rel: "mail_moves s s'" if "on_release now q s = (s', r)"
    using that box_release by (fastforce simp: on_release_def intro: mail_moves_box split: prod.splits sum.splits)
  have req: "mail_moves s s'" if "on_request_eyes suf now q me s = (s', r)"
    using that mail_moves_assign by (auto simp: on_request_eyes_def split: sum.splits)
  have can: "mail_moves s s'" if "on_cancel_eyes now q me s = (s', r)"
    using that mail_moves_move by (auto simp: on_cancel_eyes_def cancel_eyes_task_def bind_sum_Inr_iff split: sum.splits)
  have gone: "mail_moves s (set_status (q_scope q) (acting_session q child) Gone now s)"
    by (rule mail_moves_box) (simp add: set_status_def)
  show ?thesis
    using assms run reg idle event read claim rel req can gone
    by (cases "op_of (q_op q)") (auto simp: serve_def send_def broadcast_def)
qed

lemma box_retarget: "retarget now q s = (s', res) \<Longrightarrow> box s' = box s"
  using box_register_child by (fastforce simp: retarget_def Let_def split: if_splits prod.splits sum.splits)

lemma box_heartbeat: "box (heartbeat now q s) = box s"
  by (simp add: heartbeat_def touch_def)

lemma mail_moves_dispatch:
  assumes "dispatch suf now q s = (s', r)"
  shows "mail_moves s s'"
proof (cases "relay_row_caller q s")
  case no: False
  obtain s1 res where re: "retarget now q s = (s1, res)" by fastforce
  note b = box_retarget [OF re]
  show ?thesis
  proof (cases res)
    case (Inl x)
    then show ?thesis using assms no re b by (simp add: dispatch_def mail_moves_box)
  next
    case (Inr y)
    obtain q1 child name where y: "y = (q1, child, name)" by (metis prod_cases3)
    show ?thesis
    proof (cases "bind_actor q1 s1")
      case (Inl e)
      then show ?thesis using assms no re Inr y b by (simp add: dispatch_def mail_moves_box)
    next
      case act: (Inr z)
      obtain q2 me broker where z: "z = (q2, me, broker)" by (metis prod_cases3)
      let ?s2 = "heartbeat now q2 s1"
      have rest: "(case task_report q2 me now ?s2 of Some a \<Rightarrow> a | None \<Rightarrow> serve suf now q2 me broker child name ?s2) = (s', r)"
        using assms no re Inr y act z by (simp add: dispatch_def Let_def)
      then have "mail_moves ?s2 s'"
        using mail_moves_report mail_moves_serve by (cases "task_report q2 me now ?s2") auto
      then show ?thesis by (rule mail_moves_after) (simp add: box_heartbeat b)
    qed
  qed
qed (use assms in \<open>simp add: dispatch_def\<close>)

lemma box_decide: "decide g fresh now q claimed s = (s', v) \<Longrightarrow> box s' = box s"
proof -
  have launcher: "box s' = box s" if "register_relay rr now s = Inr (s', name)" for rr s' name
    using that box_register by (rule_tac register_relay_Inr [OF that]) simp
  have eyes: "box s' = box s" if "reissue_eyes_child task l ls fresh now s = Inr (s', name, secret)" for task l ls s' name secret
    using that box_register by (rule_tac reissue_Inr [OF that]) simp
  have "box (fst (gate_register q claimed fresh now s)) = box s"
    using launcher eyes
    by (auto simp: gate_register_def register_launcher_def register_eyes_def split: sum.split option.split)
  then show "decide g fresh now q claimed s = (s', v) \<Longrightarrow> box s' = box s"
    by (simp add: decide_def Let_def split: if_split_asm sum.split_asm prod.split_asm)
qed

lemma mail_moves_answer:
  assumes "answer og fresh suf why now line s = (s', r)"
  shows "mail_moves s s'"
proof (cases "decode_request line")
  case None
  then show ?thesis using assms by (simp add: answer_def)
next
  case (Some q0)
  let ?q = "q0\<lparr>q_origin := [], q_kind := []\<rparr>"
  obtain s1 v where c: "check og fresh now ?q (q_kind q0) s = (s1, v)" by fastforce
  have b: "box s1 = box s" using c box_decide by (auto simp: check_def split: option.splits)
  show ?thesis
  proof (cases v)
    case (Answer x)
    then show ?thesis using assms Some c b by (simp add: answer_def Let_def mail_moves_box)
  next
    case (Pass q1)
    obtain s2 x where d: "dispatch suf now q1 s1 = (s2, x)" by fastforce
    have "s' = s2" using assms Some c Pass d by (simp add: answer_def Let_def)
    then show ?thesis using mail_moves_after [OF mail_moves_dispatch [OF d] b] by simp
  qed
qed

lemma mail_moves_sweep: "mail_moves s (fst (expire_eyes_tasks now s))"
proof -
  have "mail_moves s (fst (fold (expire_one now) ts (s, n, e)))" for ts n e
  proof (induction ts arbitrary: s n e)
    case (Cons t ts)
    obtain s' n' e' where one: "expire_one now t (s, n, e) = (s', n', e')" by (metis prod_cases3)
    have "mail_moves s s'"
      using one mail_moves_move by (auto simp: expire_one_def split: sum.splits if_splits)
    then show ?case using Cons mail_moves_trans one by simp
  qed simp
  then show ?thesis by (simp add: expire_eyes_tasks_def)
qed

lemma mail_moves_house: "mail_moves s (fst (housekeep now s))"
proof -
  let ?s1 = "fst (expire_eyes_tasks now s)"
  have "fst (housekeep now s) = purge_ledgers now (purge_agents now (purge_traffic now ?s1))"
    by (simp add: housekeep_def split: prod.split)
  moreover have "mail_moves ?s1 (purge_ledgers now (purge_agents now (purge_traffic now ?s1)))"
    by (rule mail_moves_fewer)
      (auto simp: purge_ledgers_def purge_agents_def purge_traffic_def Let_def)
  ultimately show ?thesis using mail_moves_trans [OF mail_moves_sweep] by simp
qed

lemma mail_moves_step: "mail_moves s (daemon_step ev s)"
proof (cases ev)
  case (Frame og fresh suf why now bytes)
  then show ?thesis using mail_moves_answer by (auto simp: handle_def Let_def split: prod.splits)
qed (simp_all add: mail_moves_sweep mail_moves_house)

end
