(* ===== verification/WaitProps.thy ===== *)
theory WaitProps
  imports Wait MailMoves
begin

text \<open>
  What a waiter may rely on: it never sleeps through mail, whatever the daemon does meanwhile and
  however often waiters die and are replaced, and it ends when its deadline passes.
\<close>

section \<open>A look at the inbox\<close>

lemma high_water_old:
  assumes "schema_ok s" and "0 < next_message s"
  shows "high_water sc aid s < next_message s"
proof -
  have less: "fold max xs b < n" if "b < n" "\<forall>x \<in> set xs. x < n" for xs and b n :: nat
    using that by (induction xs arbitrary: b) auto
  then show ?thesis
    using assms unfolding high_water_def by (intro less) (auto simp: schema_ok_def list_all_iff)
qed

lemma with_pending_local: "with_pending q False r s = r"
  by (simp add: with_pending_def owed_mail_def)

text \<open>The daemon answers a waiter from the row its name stands for, and stays as it was.\<close>

lemma peek_dispatch:
  assumes "schema_ok s" and "row_named sc name s = Some q" and "ar_name q = name" and "name \<noteq> []"
    and "ar_origin q \<noteq> relay_origin"
  shows "peek_once (Some (snd (dispatch suf now (peek_request sc name a) s))) =
    (case peek_inbox False sc name a s of Inl e \<Rightarrow> PeekRefused (err_text e) | Inr i \<Rightarrow> PeekOk i)"
proof -
  have q: "q \<in> set (agents s)" "ar_scope q = sc" using assms(2) by (auto simp: row_named_def goes_by_def dest: find_SomeD)
  have at: "row_at sc (ar_session q) s = Some q" using row_at_unique [OF assms(1) q(1)] q(2) by simp
  obtain i where i: "identity_of sc (ar_session q) s = Inr i" "id_name i = name" "id_origin i \<noteq> relay_origin"
    using at assms(3,5) by (auto simp: identity_of_def Let_def split: option.splits)
  have act: "resolve_actor sc [] name s = Inr i"
    using assms(2,4) i(1) by (simp add: resolve_actor_def)
  have op: "op_of ''peek'' = OpPeek" by (simp add: op_of_def op_names_def)
  let ?q = "peek_request sc name a"
  have f: "q_op ?q = ''peek''" "q_scope ?q = sc" "q_from ?q = name" "q_session ?q = []" "q_agent ?q = []" "q_after ?q = a"
    by (simp_all add: peek_request_def zero_request_def)
  have "retarget now ?q s = (s, Inr (?q, [], []))" by (simp add: retarget_def f)
  moreover have "\<not> relay_row_caller ?q s" by (simp add: relay_row_caller_def f)
  moreover have "?q\<lparr>q_from := name\<rparr> = ?q" by (simp add: peek_request_def)
  then have "bind_actor ?q s = Inr (?q, \<lparr>ref_name = name, ref_id = id_id i, ref_scope = sc\<rparr>, False)"
    using act i by (simp add: bind_actor_def f op from_ops_def)
  moreover have "heartbeat now ?q s = s" by (simp add: heartbeat_def f)
  moreover have "task_report ?q me now s = None" for me by (simp add: task_report_def f op send_ops_def)
  ultimately have "dispatch suf now ?q s = (s, on_peek ?q False s)"
    by (simp add: dispatch_def serve_def f op)
  then show ?thesis
    by (auto simp: on_peek_def f with_pending_local peek_once_def fail_def error_response_def ok_response_def no_response_def
        split: sum.split)
qed

lemma peek_nobody:
  assumes "row_named sc name s = None" and "name \<noteq> []"
  shows "\<exists>e. peek_once (Some (snd (dispatch suf now (peek_request sc name a) s))) = PeekRefused e"
proof -
  have op: "op_of ''peek'' = OpPeek" by (simp add: op_of_def op_names_def)
  let ?q = "peek_request sc name a"
  have f: "q_op ?q = ''peek''" "q_scope ?q = sc" "q_from ?q = name" "q_session ?q = []" "q_agent ?q = []"
    by (simp_all add: peek_request_def zero_request_def)
  obtain e where "dispatch suf now ?q s = (s, fail e)"
    using assms by (auto simp: dispatch_def relay_row_caller_def retarget_def bind_actor_def resolve_actor_def f op from_ops_def)
  then show ?thesis by (simp add: peek_once_def fail_def error_response_def no_response_def)
qed

lemma peek_sees:
  assumes "row_named sc name s = Some q"
  shows "\<exists>i. peek_inbox False sc name a s = Inr i \<and> pk_unread i = length (pk_ids i) \<and> pk_high i = high_water sc (ar_id q) s \<and>
    set (pk_ids i) = {mr_id m |m. m \<in> set (messages s) \<and> mr_scope m = sc \<and> a < int (mr_id m) \<and>
      (mr_id m, ar_id q) \<in> unread_keys s}"
  using assms mail_ids [of "unread_for (ar_id q)" "\<lambda>m. mr_scope m = sc \<and> a < int (mr_id m)" s]
  by (auto simp: peek_inbox_def resolve_agent_def Let_def image_image unread_keys_iff unread_for_def)

section \<open>Waiters and the daemon\<close>

text \<open>
  The waiters of one name share its cursor file. Any number of them wait at once; each has the cursor it goes on with.
\<close>

record wait_world =
  ww_store :: store
  ww_file :: "cursor_file option"
  ww_waiters :: "int list"

datatype wait_event = Served daemon_event | Resumed | Polled "wait_end + int" | Killed

text \<open>Every agent the name has stood for while waiters looked is the same one.\<close>

definition stands_for :: "string \<Rightarrow> string \<Rightarrow> string \<Rightarrow> store \<Rightarrow> bool" where
  "stands_for sc name aid s \<longleftrightarrow> (case row_named sc name s of None \<Rightarrow> True
     | Some q \<Rightarrow> ar_name q = name \<and> ar_id q = aid \<and> ar_origin q \<noteq> relay_origin)"

inductive wait_step :: "string \<Rightarrow> string \<Rightarrow> string \<Rightarrow> wait_world \<Rightarrow> wait_event \<Rightarrow> wait_world \<Rightarrow> bool" for sc name aid where
  step_served: "wait_step sc name aid w (Served ev) (w\<lparr>ww_store := daemon_step ev (ww_store w)\<rparr>)"
| step_resumed: "load_wait_state now (ww_file w) \<noteq> None \<Longrightarrow> arm now seen disk (ww_file w) = (f, Inr a) \<Longrightarrow>
    wait_step sc name aid w Resumed (w\<lparr>ww_file := f, ww_waiters := ww_waiters w @ [a]\<rparr>)"
| step_polled: "ww_waiters w = before @ a # after \<Longrightarrow> stands_for sc name aid (ww_store w) \<Longrightarrow>
    seen = PeekMissed \<or> seen = peek_once (Some (snd (dispatch suf t (peek_request sc name a) (ww_store w)))) \<Longrightarrow>
    poll now late seen disk a (ww_file w) = (f, r) \<Longrightarrow>
    wait_step sc name aid w (Polled r)
      (w\<lparr>ww_file := f, ww_waiters := before @ (case r of Inl e \<Rightarrow> [] | Inr c \<Rightarrow> [c]) @ after\<rparr>)"
| step_killed: "ww_waiters w = before @ a # after \<Longrightarrow>
    wait_step sc name aid w Killed (w\<lparr>ww_waiters := before @ after\<rparr>)"

definition file_cursor :: "cursor_file option \<Rightarrow> int option" where
  "file_cursor f = Option.bind f (\<lambda>c. Option.bind (cf_text c) (\<lambda>t. parse_int (trim_space t)))"

definition cursors :: "wait_world \<Rightarrow> int set" where
  "cursors w = set (ww_waiters w) \<union> set_option (file_cursor (ww_file w))"

definition owed :: "string \<Rightarrow> string \<Rightarrow> int \<Rightarrow> store \<Rightarrow> nat set" where
  "owed sc aid base s = {mr_id m |m. m \<in> set (messages s) \<and> mr_scope m = sc \<and> base < int (mr_id m) \<and>
     (mr_id m, aid) \<in> unread_keys s}"

definition watchful :: "string \<Rightarrow> string \<Rightarrow> int \<Rightarrow> wait_world \<Rightarrow> bool" where
  "watchful sc aid base w \<longleftrightarrow> daemon_ok (ww_store w) \<and> 0 < next_message (ww_store w) \<and>
     (\<forall>c \<in> cursors w. c < int (next_message (ww_store w)) \<and> (\<forall>i \<in> owed sc aid base (ww_store w). c < int i))"

lemma owed_moves:
  assumes "mail_moves s s'" and "i \<in> owed sc aid base s'"
  shows "i \<in> owed sc aid base s \<or> next_message s \<le> i"
  using assms by (fastforce simp: owed_def mail_moves_def not_less)

lemma load_is_file_cursor: "load_wait_state now f = Some a \<Longrightarrow> file_cursor f = Some a"
  by (auto simp: load_wait_state_def file_cursor_def split: option.splits if_splits)

lemma file_cursor_saved:
  assumes "0 \<le> a"
  shows "set_option (file_cursor (Some \<lparr>cf_mtime = now, cf_text = Some (dec_int a @ [newline])\<rparr>)) \<subseteq> {a}"
  using parse_saved [OF assms] by (simp add: file_cursor_def)

lemma watchful_step:
  assumes "wait_step sc name aid w e w'" and "watchful sc aid base w" and "name \<noteq> []"
  shows "watchful sc aid base w'"
  using assms(1)
proof (cases rule: wait_step.cases)
  case (step_served ev)
  have m: "mail_moves (ww_store w) (daemon_step ev (ww_store w))" by (rule mail_moves_step)
  have ok: "daemon_ok (daemon_step ev (ww_store w))"
    using assms(2) daemon_ok_step by (simp add: watchful_def)
  have "c < int i" if "c \<in> cursors w" "i \<in> owed sc aid base (daemon_step ev (ww_store w))" for c i
    using that assms(2) owed_moves [OF m that(2)] by (force simp: watchful_def)
  moreover have "c < int (next_message (daemon_step ev (ww_store w)))" if "c \<in> cursors w" for c
    using that assms(2) m by (fastforce simp: watchful_def mail_moves_def)
  moreover have "0 < next_message (daemon_step ev (ww_store w))"
    using assms(2) m by (simp add: watchful_def mail_moves_def)
  ultimately show ?thesis using ok step_served by (auto simp: watchful_def cursors_def)
next
  case (step_resumed now seen disk f a)
  then obtain b where b: "load_wait_state now (ww_file w) = Some b" by auto
  have "a = b" "file_cursor f = file_cursor (ww_file w)"
    using step_resumed b by (auto simp: arm_def file_cursor_def bind_map_option o_def split: option.splits)
  then have "cursors w' = cursors w"
    using load_is_file_cursor [OF b] step_resumed by (auto simp: cursors_def)
  then show ?thesis using assms(2) step_resumed by (simp add: watchful_def)
next
  case (step_polled before a after seen suf t now late disk f r)
  let ?s = "ww_store w"
  have a: "a \<in> cursors w" using step_polled by (simp add: cursors_def)
  have stays: "cursors w' \<subseteq> cursors w" if "f = ww_file w" "set_option (case r of Inl e \<Rightarrow> None | Inr c \<Rightarrow> Some c) \<subseteq> {a}"
    using that step_polled by (auto simp: cursors_def split: sum.splits)
  have easy: ?thesis if "cursors w' \<subseteq> cursors w"
    using that assms(2) step_polled by (auto simp: watchful_def)
  show ?thesis
  proof (cases "\<exists>i. seen = PeekOk i \<and> pk_unread i = 0 \<and> a < int (pk_high i)")
    case False
    then have "f = ww_file w" "set_option (case r of Inl e \<Rightarrow> None | Inr c \<Rightarrow> Some c) \<subseteq> {a}"
      using step_polled by (auto simp: poll_def unless_late_def split: peek_answer.splits if_splits)
    then show ?thesis by (intro easy stays)
  next
    case True
    then obtain i where i: "seen = PeekOk i" "pk_unread i = 0" "a < int (pk_high i)" by blast
    have ok: "schema_ok ?s" using assms(2) by (simp add: watchful_def daemon_ok_def)
    have pk: "PeekOk i = peek_once (Some (snd (dispatch suf t (peek_request sc name a) ?s)))"
      using step_polled i by simp
    obtain q where q: "row_named sc name ?s = Some q"
      using pk peek_nobody [OF _ assms(3), of sc ?s suf t a] by (cases "row_named sc name ?s") auto
    then have q': "ar_name q = name" "ar_id q = aid" "ar_origin q \<noteq> relay_origin"
      using step_polled by (simp_all add: stands_for_def)
    have "peek_inbox False sc name a ?s = Inr i"
      using pk peek_dispatch [OF ok q q'(1) assms(3) q'(3)] by (auto split: sum.splits)
    then have sees: "pk_high i = high_water sc aid ?s" "pk_ids i = []"
        "set (pk_ids i) = {mr_id m |m. m \<in> set (messages ?s) \<and> mr_scope m = sc \<and> a < int (mr_id m) \<and>
          (mr_id m, aid) \<in> unread_keys ?s}"
      using peek_sees [OF q, of a] i(2) q'(2) by auto
    have none: "owed sc aid base ?s = {}"
      using a assms(2) sees(2,3) by (fastforce simp: owed_def watchful_def)
    have "pk_high i < next_message ?s"
      using high_water_old [OF ok] assms(2) sees(1) by (simp add: watchful_def)
    moreover have "poll now late (PeekOk i) disk a (ww_file w) = (f, r)" using step_polled i(1) by simp
    then have "set_option (file_cursor f) \<union> set_option (case r of Inl e \<Rightarrow> None | Inr c \<Rightarrow> Some c)
        \<subseteq> insert (int (pk_high i)) (set_option (file_cursor (ww_file w)))"
      using i(2,3) file_cursor_saved [of "int (pk_high i)" now]
      by (cases disk) (auto simp: poll_def save_wait_state_def unless_late_def split: if_splits)
    then have "cursors w' \<subseteq> insert (int (pk_high i)) (cursors w)"
      using step_polled(2,3) by (auto simp: cursors_def split: sum.splits)
    ultimately show ?thesis using assms(2) none step_polled by (auto simp: watchful_def)
  qed
next
  case (step_killed before a after)
  then have "cursors w' \<subseteq> cursors w" by (auto simp: cursors_def)
  then show ?thesis using assms(2) step_killed by (auto simp: watchful_def)
qed

text \<open>
  C4. No wake-up is lost. Start from any moment at which every cursor of a name, in its file or in
  a waiter, is at most \<open>base\<close>; then let the daemon serve whatever frames, sweeps and housekeeping,
  and let waiters resume from the file, poll, time out and die, in any order. As long as the name
  stands for one agent, every message with a number above \<open>base\<close> that this agent has not read is
  still ahead of every cursor, so the next look of any waiter wakes it and reports that message.
\<close>
theorem no_wakeup_is_lost:
  assumes "runs (wait_step sc name aid) w es w'" and "daemon_ok (ww_store w)" and "0 < next_message (ww_store w)"
    and "\<forall>c \<in> cursors w. c \<le> base \<and> c < int (next_message (ww_store w))" and "name \<noteq> []"
    and "a \<in> set (ww_waiters w') \<or> load_wait_state now (ww_file w') = Some a"
    and "m \<in> set (messages (ww_store w'))" and "mr_scope m = sc" and "base < int (mr_id m)"
    and "(mr_id m, aid) \<in> unread_keys (ww_store w')"
    and "row_named sc name (ww_store w') = Some q" and "stands_for sc name aid (ww_store w')"
  shows "a < int (mr_id m) \<and>
    (\<exists>r. poll t late (peek_once (Some (snd (dispatch suf t (peek_request sc name a) (ww_store w'))))) disk a (ww_file w')
      = (ww_file w', Inl (Mail r)) \<and> mr_id m \<in> set (wr_ids r) \<and> wr_unread r = length (wr_ids r))"
proof -
  have "watchful sc aid base w"
    using assms(2,3,4) by (fastforce simp: watchful_def owed_def)
  then have ok: "watchful sc aid base w'"
    using runs_invariant [OF assms(1), of "watchful sc aid base"] watchful_step [OF _ _ assms(5)] by blast
  have "a \<in> cursors w'" using assms(6) load_is_file_cursor by (auto simp: cursors_def)
  moreover have "mr_id m \<in> owed sc aid base (ww_store w')" using assms(7-10) by (auto simp: owed_def)
  ultimately have ahead: "a < int (mr_id m)" using ok by (simp add: watchful_def)
  have q: "ar_name q = name" "ar_id q = aid" "ar_origin q \<noteq> relay_origin"
    using assms(11,12) by (simp_all add: stands_for_def)
  have sch: "schema_ok (ww_store w')" using ok by (simp add: watchful_def daemon_ok_def)
  obtain i where i: "peek_inbox False sc name a (ww_store w') = Inr i" "pk_unread i = length (pk_ids i)"
      "mr_id m \<in> set (pk_ids i)"
    using peek_sees [OF assms(11), of a] assms(7,8,10) ahead q(2) by auto
  then have "0 < pk_unread i" by (cases "pk_ids i") auto
  then show ?thesis
    using ahead i peek_dispatch [OF sch assms(11) q(1) assms(5) q(3), of suf t a] by (simp add: poll_def)
qed

text \<open>
  C39. A wait ends: whatever its looks answer and whatever the disk does, once the clock shows a
  time after the deadline the loop returns, at the latest in that turn.
\<close>
theorem wait_ends:
  assumes "we_deadline v < we_now v (n + k)"
  shows "\<exists>r. wait_loop v n a f = Some r"
  using assms
proof (induction k arbitrary: n a f)
  case 0
  have "\<exists>g e. poll t True seen disk a f = (g, Inl e)" for t seen disk
    by (auto simp: poll_def unless_late_def split: peek_answer.splits option.splits prod.splits)
  then show ?case using 0 by (subst wait_loop.simps) (simp, metis (no_types, lifting) case_prod_conv sum.simps(5))
next
  case (Suc k)
  obtain g r where p: "poll (we_now v n) (we_deadline v < we_now v n) (we_peek v n a) (we_disk v n) a f = (g, r)"
    by fastforce
  show ?case
  proof (cases r)
    case (Inr b)
    then show ?thesis using Suc.IH [of "n + 1" b g] Suc.prems p by (subst wait_loop.simps) simp
  qed (use p in \<open>subst wait_loop.simps, simp\<close>)
qed

theorem wait_ends_witness:
  "\<exists>r. wait_loop \<lparr>we_now = int, we_peek = (\<lambda>_ _. PeekMissed), we_disk = (\<lambda>_. None), we_deadline = 3\<rparr> 0 7 None = Some r"
  by (rule wait_ends [where k = 4]) simp

lemma office_mail_rows:
  "agents office_mail = agents office" "next_message office_mail = 2" "eyes_tasks office_mail = []"
  "\<exists>m. messages office_mail = [m] \<and> mr_id m = 1 \<and> mr_scope m = ''ws''"
  "deliveries office_mail = [unread_row 1 ''id-b'']"
  by (simp_all add: office_mail_def send_def send_to_scope_def plain_delivery_def delivery_sender_def no_sender_def
      empty_ref_def resolve_sender_def row_named_def goes_by_def office_def plain_agent_def new_message_def
      delivery_targets_def resolve_agent_def empty_store_def insert_row_def Let_def)

lemma daemon_ok_office_mail: "daemon_ok office_mail"
  unfolding daemon_ok_def
  by (intro conjI schema_ok_office_mail)
    (auto simp: relay_ids_def relay_single_def office_mail_rows office_def plain_agent_def relay_origin_def broker_load_def)

definition demo_wait :: wait_world where
  "demo_wait = \<lparr>ww_store = office_mail, ww_file = None, ww_waiters = [0, 0]\<rparr>"

theorem no_wakeup_is_lost_witness:
  "\<exists>w' r. wait_step ''ws'' ''deft-owl'' ''id-b'' demo_wait Killed w' \<and> ww_waiters w' = [0] \<and>
    poll 0 True (peek_once (Some (snd (dispatch [] 0 (peek_request ''ws'' ''deft-owl'' 0) office_mail)))) None 0 None
      = (None, Inl (Mail r)) \<and> 1 \<in> set (wr_ids r)"
proof -
  let ?w = "demo_wait\<lparr>ww_waiters := [] @ [0]\<rparr>"
  have step: "wait_step ''ws'' ''deft-owl'' ''id-b'' demo_wait Killed ?w"
    by (rule step_killed [of _ "[]" 0]) (simp add: demo_wait_def)
  have run: "runs (wait_step ''ws'' ''deft-owl'' ''id-b'') demo_wait [Killed] ?w"
    by (rule runs_step [of "wait_step ''ws'' ''deft-owl'' ''id-b''", OF step runs_stop])
  obtain m where m: "messages office_mail = [m]" "mr_id m = 1" "mr_scope m = ''ws''"
    using office_mail_rows(4) by blast
  obtain q where q: "row_named ''ws'' ''deft-owl'' office_mail = Some q" "stands_for ''ws'' ''deft-owl'' ''id-b'' office_mail"
    by (simp add: row_named_def goes_by_def stands_for_def office_mail_rows office_def plain_agent_def relay_origin_def)
  have c: "\<forall>c \<in> cursors demo_wait. c \<le> 0 \<and> c < int (next_message (ww_store demo_wait))"
    by (simp add: cursors_def file_cursor_def demo_wait_def office_mail_rows)
  have s: "ww_store demo_wait = office_mail" "ww_store ?w = office_mail" "ww_file ?w = None" "ww_waiters ?w = [0]"
    by (simp_all add: demo_wait_def)
  have u: "(mr_id m, ''id-b'') \<in> unread_keys (ww_store ?w)"
    by (simp add: s unread_keys_iff office_mail_rows m unread_row_def)
  have "\<exists>r. poll 0 True (peek_once (Some (snd (dispatch [] 0 (peek_request ''ws'' ''deft-owl'' 0) (ww_store ?w))))) None 0 (ww_file ?w)
      = (ww_file ?w, Inl (Mail r)) \<and> mr_id m \<in> set (wr_ids r) \<and> wr_unread r = length (wr_ids r)"
    by (rule no_wakeup_is_lost [OF run, where base = 0 and q = q and now = 0, THEN conjunct2])
      (use s m q u c daemon_ok_office_mail in \<open>simp_all add: office_mail_rows\<close>)
  then show ?thesis using step m(2) unfolding s(2,3) using s(4) by (intro exI [of _ ?w]) auto
qed

end
