(* ===== verification/Activity.thy ===== *)
theory Activity
  imports Values
begin

text \<open>
  \<open>internal/activity\<close>: what a tool call of the host agent says about its work, as a line of text,
  the files it touches and writes, and the tasks it creates, updates or replaces.
\<close>

section \<open>Text\<close>

definition truncate :: "string \<Rightarrow> nat \<Rightarrow> string" where
  "truncate s n = (if length s \<le> n then s else take n s @ ''...'')"

definition base :: "string \<Rightarrow> string" where
  "base p = (if p = [] then ''file'' else base_name p)"

definition one :: "string \<Rightarrow> string list" where
  "one p = (if p = [] then [] else [p])"

definition trim_prefix :: "string \<Rightarrow> string \<Rightarrow> string" where
  "trim_prefix p s = (case cut_prefix p s of Some t \<Rightarrow> t | None \<Rightarrow> s)"

definition host :: "string \<Rightarrow> string" where
  "host u = takeWhile (\<lambda>c. c \<noteq> slash) (trim_prefix ''http://'' (trim_prefix ''https://'' u))"

text \<open>\<open>humanize\<close>: a capital after the start becomes a space and its small letter.\<close>

definition human_rune :: "nat \<Rightarrow> string" where
  "human_rune r = (if 65 \<le> r \<and> r \<le> 90 then CHR '' '' # encode_rune (r + 32) else encode_rune r)"

definition humanize :: "string \<Rightarrow> string" where
  "humanize s = (case map fst (runes s) of [] \<Rightarrow> [] | r # rs \<Rightarrow> encode_rune r @ concat (map human_rune rs))"

text \<open>\<open>strings.SplitN(s, "__", 2)\<close> where the separator occurs.\<close>

fun cut_dunder :: "string \<Rightarrow> (string \<times> string) option" where
  "cut_dunder [] = None"
| "cut_dunder (c # cs) =
     (if has_prefix ''__'' (c # cs) then Some ([], drop 2 (c # cs))
      else map_option (\<lambda>(a, b). (c # a, b)) (cut_dunder cs))"

definition underscores :: "string \<Rightarrow> string" where
  "underscores s = map (\<lambda>c. if c = CHR ''_'' then CHR '' '' else c) s"

section \<open>Patches and plans\<close>

definition patch_prefixes :: "string list" where
  "patch_prefixes = [''*** Add File: '', ''*** Update File: '', ''*** Delete File: '']"

definition patch_line :: "string \<Rightarrow> string option" where
  "patch_line line = (case List.find (\<lambda>p. has_prefix p line) patch_prefixes of
     None \<Rightarrow> None | Some p \<Rightarrow> map_option trim_space (cut_prefix p line))"

definition add_path :: "string \<Rightarrow> string list \<Rightarrow> string list" where
  "add_path line paths = (case patch_line line of
     None \<Rightarrow> paths | Some p \<Rightarrow> if p \<noteq> [] \<and> p \<notin> set paths then paths @ [p] else paths)"

definition patch_paths :: "string \<Rightarrow> string list" where
  "patch_paths patch = fold add_path (split_on (chr 10) patch) []"

definition plan_item :: "nat \<Rightarrow> json \<Rightarrow> task_event list" where
  "plan_item i item =
     (let m = (case item of JObj kvs \<Rightarrow> kvs | _ \<Rightarrow> []); step = text_arg m ''step''; status = text_arg m ''status'' in
      if step = [] \<or> status = [] then []
      else [\<lparr>te_kind = ''upsert'', te_key = ''plan-'' @ dec_nat i, te_subject = step, te_status = status\<rparr>])"

definition plan_snapshot :: "members \<Rightarrow> task_event list" where
  "plan_snapshot input = (case arg_at input ''plan'' of
     Some (JArr js) \<Rightarrow> concat (map (\<lambda>(i, j). plan_item i j) (enumerate 0 js))
   | _ \<Rightarrow> [])"

section \<open>What a call does\<close>

text \<open>
  The activity with the files touched and written. A patch returns one slice for both, which
  matters to the caller that rewrites it in place.
\<close>

datatype touched = Nothing | Reads "string list" | Separate "string list" | Shared "string list"

definition touched_files :: "touched \<Rightarrow> string list" where
  "touched_files t = (case t of Nothing \<Rightarrow> [] | Reads fs \<Rightarrow> fs | Separate fs \<Rightarrow> fs | Shared fs \<Rightarrow> fs)"

definition touched_writes :: "touched \<Rightarrow> string list" where
  "touched_writes t = (case t of Separate fs \<Rightarrow> fs | Shared fs \<Rightarrow> fs | _ \<Rightarrow> [])"

definition infer_patch :: "string \<Rightarrow> string \<times> touched" where
  "infer_patch command = (let paths = patch_paths command in
     if paths = [] then (''Applying patch'', Nothing)
     else (''Editing '' @ join '', '' (map base paths), Shared paths))"

definition infer_plan :: "members \<Rightarrow> string" where
  "infer_plan input = (case List.find (\<lambda>t. te_status t = ''in_progress'') (plan_snapshot input) of
     Some t \<Rightarrow> ''Working on: '' @ te_subject t | None \<Rightarrow> ''Updating plan'')"

definition infer_other :: "string \<Rightarrow> string" where
  "infer_other tool = (case Option.bind (cut_prefix ''mcp__'' tool) cut_dunder of
     Some (server, name) \<Rightarrow> server @ '': '' @ underscores name
   | None \<Rightarrow> humanize tool)"

definition infer :: "string \<Rightarrow> members \<Rightarrow> string \<times> touched" where
  "infer tool input =
     (let fp = text_arg input ''file_path''; np = text_arg input ''notebook_path'' in
      if tool = ''Read'' then (''Reading '' @ base fp, Reads (one fp))
      else if tool = ''Edit'' then (''Editing '' @ base fp, Separate (one fp))
      else if tool = ''Write'' then (''Writing '' @ base fp, Separate (one fp))
      else if tool = ''NotebookEdit'' then (''Editing notebook '' @ base np, Separate (one np))
      else if tool = ''Bash'' then (''Running: '' @ truncate (text_arg input ''command'') 40, Nothing)
      else if tool = ''Grep'' then (''Searching for '' @ [CHR 0x27] @ text_arg input ''pattern'' @ [CHR 0x27], Nothing)
      else if tool = ''Glob'' then (''Globbing '' @ [CHR 0x27] @ text_arg input ''pattern'' @ [CHR 0x27], Nothing)
      else if tool = ''Agent'' \<or> tool = ''Task'' then (''Delegating: '' @ text_arg input ''description'', Nothing)
      else if tool = ''WebSearch'' then (''Searching web: '' @ text_arg input ''query'', Nothing)
      else if tool = ''WebFetch'' then (''Fetching '' @ host (text_arg input ''url''), Nothing)
      else if tool = ''TaskCreate'' then (''Planning: '' @ text_arg input ''subject'', Nothing)
      else if tool = ''TaskUpdate'' then
        (''Updating task '' @ text_arg input ''taskId'' @ '' -> '' @ text_arg input ''status'', Nothing)
      else if tool = ''apply_patch'' then infer_patch (text_arg input ''command'')
      else if tool = ''update_plan'' then (infer_plan input, Nothing)
      else (infer_other tool, Nothing))"

section \<open>Task signals\<close>

text \<open>The id in a \<open>TaskCreate\<close> response: a struct of a struct, decoded without regard to unknown members.\<close>

definition key_from_response :: "json option \<Rightarrow> string" where
  "key_from_response response = (case response of
     None \<Rightarrow> []
   | Some j \<Rightarrow>
       (let r = dec_struct False [(''task'', dec_struct False [(''id'', put_text (\<lambda>t _. t))])] j [] in
        if snd r then fst r else []))"

definition task_signal :: "string \<Rightarrow> members \<Rightarrow> json option \<Rightarrow> task_event option" where
  "task_signal tool input response =
     (if tool = ''TaskCreate'' then
        Some \<lparr>te_kind = ''create'', te_key = key_from_response response, te_subject = text_arg input ''subject'',
          te_status = ''pending''\<rparr>
      else if tool = ''TaskUpdate'' then
        (let st = text_arg input ''status'' in
         if st = [] then None
         else Some \<lparr>te_kind = ''update'', te_key = text_arg input ''taskId'', te_subject = [], te_status = st\<rparr>)
      else None)"

section \<open>Laws\<close>

lemma add_path_keeps:
  "distinct ps \<and> (\<forall>p \<in> set ps. p \<noteq> []) \<Longrightarrow>
   distinct (add_path l ps) \<and> (\<forall>p \<in> set (add_path l ps). p \<noteq> [])"
  by (auto simp: add_path_def split: option.splits)

lemma fold_add_path:
  "distinct ps \<and> (\<forall>p \<in> set ps. p \<noteq> []) \<Longrightarrow>
   distinct (fold add_path ls ps) \<and> (\<forall>p \<in> set (fold add_path ls ps). p \<noteq> [])"
proof (induction ls arbitrary: ps)
  case (Cons l ls)
  then show ?case using add_path_keeps [OF Cons.prems, of l] by (simp del: split_paired_All)
qed simp

lemma patch_paths_sound: "distinct (patch_paths patch)" "p \<in> set (patch_paths patch) \<Longrightarrow> p \<noteq> []"
  using fold_add_path [of "[]"] by (auto simp: patch_paths_def)

text \<open>Exactly the files the patch names: one header line per path, its blanks trimmed.\<close>

lemma set_fold_add_path:
  "set (fold add_path ls ps) = set ps \<union> {p. p \<noteq> [] \<and> Some p \<in> patch_line ` set ls}"
proof (induction ls arbitrary: ps)
  case (Cons l ls)
  have "set (add_path l ps) = set ps \<union> {p. p \<noteq> [] \<and> Some p = patch_line l}"
    by (auto simp: add_path_def split: option.splits)
  then show ?case by (auto simp: Cons.IH)
qed simp

lemma set_patch_paths:
  "set (patch_paths patch) = {p. p \<noteq> [] \<and> Some p \<in> patch_line ` set (split_on (chr 10) patch)}"
  by (simp add: patch_paths_def set_fold_add_path)

lemma infer_writes_files: "set (touched_writes (snd (infer tool input))) \<subseteq> set (touched_files (snd (infer tool input)))"
  by (simp add: infer_def infer_patch_def Let_def touched_writes_def touched_files_def)

lemma infer_files_named: "p \<in> set (touched_files (snd (infer tool input))) \<Longrightarrow> p \<noteq> []"
  using patch_paths_sound(2) by (auto simp: infer_def infer_patch_def Let_def touched_files_def one_def split: if_splits)

end
