(* ===== verification/Binds.thy ===== *)
theory Binds
  imports Values
begin

text \<open>
  The bind files of \<open>internal/hookcli/bind.go\<close>: how a session registered by a hook is found by
  a sibling process of the same host agent. The directory is the list of its files in name
  order; process liveness, the process table and the clock are arguments.
\<close>

section \<open>Binds\<close>

record bind =
  bd_session :: string
  bd_scope :: string
  bd_name :: string
  bd_pids :: "int list option"
  bd_ts :: int

definition zero_bind :: bind where
  "zero_bind = \<lparr>bd_session = [], bd_scope = [], bd_name = [], bd_pids = None, bd_ts = 0\<rparr>"

definition bind_json :: "bind \<Rightarrow> json" where
  "bind_json b = JObj [(''session_id'', JStr (bd_session b)), (''scope'', JStr (bd_scope b)), (''name'', JStr (bd_name b)),
     (''pids'', case bd_pids b of None \<Rightarrow> JNull | Some ps \<Rightarrow> JArr (map json_int ps)), (''ts'', json_int (bd_ts b))]"

definition bind_fields :: "(string \<times> bind decoder) list" where
  "bind_fields = [(''session_id'', put_text (\<lambda>t. bd_session_update (\<lambda>_. t))),
     (''scope'', put_text (\<lambda>t. bd_scope_update (\<lambda>_. t))),
     (''name'', put_text (\<lambda>t. bd_name_update (\<lambda>_. t))),
     (''pids'', on_part bd_pids bd_pids_update (dec_slice 0 (put_int (\<lambda>i _. i)))),
     (''ts'', put_int (\<lambda>i. bd_ts_update (\<lambda>_. i)))]"

definition read_bind :: "string \<Rightarrow> bind option" where
  "read_bind t = (let r = unmarshal_into (dec_struct False bind_fields) zero_bind t in
     if snd r then Some (fst r) else None)"

definition bind_max_age :: int where "bind_max_age = 48 * 60 * 60 * ns_second"

definition match_depth :: nat where "match_depth = 3"

text \<open>A file, its text unless it cannot be read, and when it was last written.\<close>

record bind_file =
  bf_name :: string
  bf_text :: "string option"
  bf_mtime :: time

section \<open>The process tree\<close>

text \<open>\<open>strings.Fields\<close> over decoded runes.\<close>

fun field_runes :: "(nat \<times> string) list \<Rightarrow> string \<Rightarrow> string list" where
  "field_runes [] w = (if w = [] then [] else [w])"
| "field_runes ((r, bs) # rs) w =
     (if is_space r then (if w = [] then field_runes rs [] else w # field_runes rs []) else field_runes rs (w @ bs))"

definition fields :: "string \<Rightarrow> string list" where
  "fields s = field_runes (runes s) []"

text \<open>\<open>ppidOf\<close> on the text of the process's \<open>stat\<close> file: the second field after the last parenthesis.\<close>

definition ppid_of :: "string option \<Rightarrow> int" where
  "ppid_of stat = (case stat of
     None \<Rightarrow> 0
   | Some t \<Rightarrow>
       if CHR '')'' \<notin> set t then 0
       else (case fields (rev (takeWhile (\<lambda>c. c \<noteq> CHR '')'') (rev t))) of
           _ # w # _ \<Rightarrow> (case parse_int w of Some i \<Rightarrow> i | None \<Rightarrow> 0)
         | _ \<Rightarrow> 0))"

fun ancestors_from :: "(int \<Rightarrow> string option) \<Rightarrow> nat \<Rightarrow> int \<Rightarrow> int list" where
  "ancestors_from stat 0 pid = []"
| "ancestors_from stat (Suc n) pid = (if 1 < pid then pid # ancestors_from stat n (ppid_of (stat pid)) else [])"

definition ancestry :: "(int \<Rightarrow> string option) \<Rightarrow> int \<Rightarrow> int list" where
  "ancestry stat parent = ancestors_from stat 6 parent"

section \<open>Writing and cleaning\<close>

text \<open>
  \<open>time.Unix\<close> keeps seconds since the year 1 in 64 bits, so a stamp near the end of the range
  wraps into the past.
\<close>

definition unix_to_internal :: int where "unix_to_internal = 62135596800"

definition stamp_time :: "int \<Rightarrow> time" where
  "stamp_time ts = from_unix ((ts + unix_to_internal + 2 ^ 63) mod 2 ^ 64 - 2 ^ 63 - unix_to_internal)"

definition stale_file :: "time \<Rightarrow> bind_file \<Rightarrow> bool" where
  "stale_file now f =
     (let cutoff = now - bind_max_age in
      case Option.bind (bf_text f) read_bind of
        Some b \<Rightarrow> if 0 < bd_ts b then stamp_time (bd_ts b) < cutoff else bf_mtime f < cutoff
      | None \<Rightarrow> bf_mtime f < cutoff)"

definition clean_stale_binds :: "time \<Rightarrow> bind_file list \<Rightarrow> bind_file list" where
  "clean_stale_binds now dir = filter (\<lambda>f. \<not> stale_file now f) dir"

definition bind_name :: "int \<Rightarrow> string" where
  "bind_name pid = dec_int pid @ ''.json''"

definition put_file :: "bind_file \<Rightarrow> bind_file list \<Rightarrow> bind_file list" where
  "put_file f dir = insort_key bf_name f (delete_where (\<lambda>g. bf_name g = bf_name f) dir)"

text \<open>What the disk allows: nothing, making the directory only, or the write.\<close>

datatype bind_disk = NoDirectory | NoFile | DiskOk

definition write_bind :: "time \<Rightarrow> bind_disk \<Rightarrow> bind \<Rightarrow> bind_file list \<Rightarrow> bind_file list" where
  "write_bind now disk b dir = (case items (bd_pids b) of
     [] \<Rightarrow> dir
   | p # ps \<Rightarrow>
       (let f = \<lparr>bf_name = bind_name p, bf_text = Some (json_print (bind_json b)), bf_mtime = now\<rparr> in
        case disk of
          NoDirectory \<Rightarrow> dir
        | NoFile \<Rightarrow> clean_stale_binds now dir
        | DiskOk \<Rightarrow> put_file f (clean_stale_binds now dir)))"

text \<open>The three calls the hooks make; \<open>pids\<close> is the caller's ancestry.\<close>

definition write_bind_file :: "time \<Rightarrow> bind_disk \<Rightarrow> int list \<Rightarrow> string \<Rightarrow> string \<Rightarrow> string \<Rightarrow> bind_file list \<Rightarrow> bind_file list" where
  "write_bind_file now disk pids sc sess name dir =
     write_bind now disk \<lparr>bd_session = sess, bd_scope = sc, bd_name = name,
       bd_pids = (if pids = [] then None else Some pids), bd_ts = unix now\<rparr> dir"

definition refresh_bind_file :: "time \<Rightarrow> bind_disk \<Rightarrow> int list \<Rightarrow> string \<Rightarrow> string \<Rightarrow> bind_file list \<Rightarrow> bind_file list" where
  "refresh_bind_file now disk pids sc sess dir = (case pids of
     [] \<Rightarrow> dir
   | p # _ \<Rightarrow>
       if bind_name p \<in> bf_name ` set dir then dir
       else write_bind now disk \<lparr>bd_session = sess, bd_scope = sc, bd_name = [], bd_pids = Some pids, bd_ts = unix now\<rparr> dir)"

definition remove_bind_file :: "int list \<Rightarrow> bind_file list \<Rightarrow> bind_file list" where
  "remove_bind_file pids dir = (case pids of
     [] \<Rightarrow> dir | p # _ \<Rightarrow> delete_where (\<lambda>f. bf_name f = bind_name p) dir)"

section \<open>Matching\<close>

text \<open>How far up the caller's ancestry a process is: its first place among the nearest ancestors.\<close>

fun place :: "int \<Rightarrow> int list \<Rightarrow> nat \<Rightarrow> nat option" where
  "place p [] i = None"
| "place p (a # as) i = (if a = p then Some i else place p as (i + 1))"

definition depth_of :: "int list \<Rightarrow> int \<Rightarrow> nat option" where
  "depth_of ancestors p = (if 1 < p then place p (take match_depth ancestors) 0 else None)"

definition nearer :: "nat option \<Rightarrow> nat option \<Rightarrow> nat option" where
  "nearer d i = (case i of None \<Rightarrow> d | Some n \<Rightarrow> (case d of None \<Rightarrow> Some n | Some m \<Rightarrow> if n < m then Some n else d))"

definition bind_depth :: "int list \<Rightarrow> bind \<Rightarrow> nat option" where
  "bind_depth ancestors b = fold (\<lambda>p d. nearer d (depth_of ancestors p)) (items (bd_pids b)) None"

definition live_bind :: "(int \<Rightarrow> bool) \<Rightarrow> time \<Rightarrow> string \<Rightarrow> bind \<Rightarrow> bool" where
  "live_bind alive now sc b \<longleftrightarrow> bd_scope b = sc \<and> bd_session b \<noteq> [] \<and>
     (case items (bd_pids b) of [] \<Rightarrow> False | p # _ \<Rightarrow> unix (now - bind_max_age) \<le> bd_ts b \<and> alive p)"

definition better_bind :: "nat \<times> bind \<Rightarrow> (nat \<times> bind) option \<Rightarrow> bool" where
  "better_bind db best = (case best of
     None \<Rightarrow> True
   | Some (d', b') \<Rightarrow> (case db of (d, b) \<Rightarrow> d < d' \<or> (d = d' \<and> bd_ts b' < bd_ts b)))"

definition try_file :: "(int \<Rightarrow> bool) \<Rightarrow> time \<Rightarrow> string \<Rightarrow> int list \<Rightarrow> bind_file \<Rightarrow> (nat \<times> bind) option \<Rightarrow> (nat \<times> bind) option" where
  "try_file alive now sc ancestors f best = (case Option.bind (bf_text f) read_bind of
     None \<Rightarrow> best
   | Some b \<Rightarrow>
       if \<not> live_bind alive now sc b then best
       else (case bind_depth ancestors b of
           None \<Rightarrow> best
         | Some d \<Rightarrow> if better_bind (d, b) best then Some (d, b) else best))"

definition match_bind :: "(int \<Rightarrow> bool) \<Rightarrow> time \<Rightarrow> string \<Rightarrow> int list \<Rightarrow> bind_file list \<Rightarrow> bind option" where
  "match_bind alive now sc ancestors dir =
     (if \<forall>p \<in> set (take match_depth ancestors). p \<le> 1 then None
      else map_option snd (fold (try_file alive now sc ancestors) dir None))"

end
