(* ===== verification/Hook.thy ===== *)
theory Hook
  imports Activity Binds Frames
begin

text \<open>
  \<open>internal/hookcli/hookcli.go\<close>: one hook invocation of a host agent. The envelope on stdin becomes
  at most a few requests to the daemon, changes of the bind directory and one document on stdout.
  The daemon is a function from a request and its state to its state and a response, or none when
  it cannot be reached in time; the environment of the process is a record.
\<close>

section \<open>The envelope\<close>

record hook_input =
  hi_event :: string
  hi_session :: string
  hi_cwd :: string
  hi_tool :: string
  hi_input :: members
  hi_response :: "json option"
  hi_agent :: string
  hi_agent_type :: string

text \<open>The first key whose value decodes; a value that does not may have been stored in part.\<close>

fun pick :: "members \<Rightarrow> 'a decoder \<Rightarrow> string list \<Rightarrow> 'a \<Rightarrow> 'a" where
  "pick m d [] a = a"
| "pick m d (k # ks) a = (case arg_at m k of
     None \<Rightarrow> pick m d ks a
   | Some j \<Rightarrow> (let r = d j a in if snd r then fst r else pick m d ks (fst r)))"

definition pick_text :: "members \<Rightarrow> string list \<Rightarrow> string" where
  "pick_text m ks = pick m dec_text ks []"

definition read_envelope :: "members \<Rightarrow> hook_input" where
  "read_envelope m =
     \<lparr>hi_event = pick_text m [''hook_event_name'', ''hookEventName''],
      hi_session = pick_text m [''session_id'', ''sessionId''],
      hi_cwd = pick_text m [''cwd''],
      hi_tool = pick_text m [''tool_name'', ''toolName''],
      hi_input = pick m dec_any_map [''tool_input'', ''toolInput''] [],
      hi_response = pick m (\<lambda>j _. (Some j, True)) [''tool_response'', ''toolResult''] None,
      hi_agent = pick_text m [''agent_id'', ''agentId''],
      hi_agent_type = pick_text m [''agent_type'', ''agentType'']\<rparr>"

definition parse_hook_input :: "string \<Rightarrow> hook_input option" where
  "parse_hook_input raw = (case json_unmarshal raw of
     Some (JObj kvs) \<Rightarrow> Some (read_envelope kvs)
   | Some JNull \<Rightarrow> Some (read_envelope [])
   | _ \<Rightarrow> None)"

text \<open>
  Event names without regard to case and underscores. The two letters outside ASCII whose small
  letter is inside are mapped; any other keeps a name from being known.
\<close>

definition canonical_events :: "(string \<times> string) list" where
  "canonical_events = [(''sessionstart'', ''SessionStart''), (''sessionend'', ''SessionEnd''), (''stop'', ''Stop''),
     (''userpromptsubmit'', ''UserPromptSubmit''), (''pretooluse'', ''PreToolUse''), (''posttooluse'', ''PostToolUse''),
     (''subagentstart'', ''SubagentStart''), (''subagentstop'', ''SubagentStop''),
     (''permissionrequest'', ''PermissionRequest''), (''interrupt'', ''Interrupt''), (''precompact'', ''PreCompact''),
     (''postcompact'', ''PostCompact'')]"

definition lower_step :: "string \<Rightarrow> string" where
  "lower_step bs = (if bs = [chr 196, chr 176] then ''i'' else if bs = [chr 226, chr 132, chr 170] then ''k''
     else to_lower bs)"

definition canonical_event :: "string \<Rightarrow> string" where
  "canonical_event name =
     (case map_of canonical_events (concat (map (\<lambda>rb. lower_step (snd rb)) (runes (filter (\<lambda>c. c \<noteq> CHR ''_'') name)))) of
        Some e \<Rightarrow> e | None \<Rightarrow> [])"

section \<open>The process and the daemon\<close>

record hook_env =
  he_kind :: string
  he_scope :: string
  he_resolve :: "string \<Rightarrow> string"
  he_wait :: string
  he_pids :: "int list"
  he_bind_dir :: bool
  he_disk :: bind_disk
  he_now :: time

record 'd hook_world =
  hw_daemon :: 'd
  hw_dir :: "bind_file list"
  hw_out :: string

type_synonym 'd link = "request \<Rightarrow> 'd \<Rightarrow> 'd \<times> response option"

definition round_trip :: "'d link \<Rightarrow> request \<Rightarrow> 'd hook_world \<Rightarrow> 'd hook_world \<times> response option" where
  "round_trip link q w = (let (d, r) = link q (hw_daemon w) in (w\<lparr>hw_daemon := d\<rparr>, r))"

definition resolve_scope :: "hook_env \<Rightarrow> string \<Rightarrow> string" where
  "resolve_scope v cwd = (let t = trim_space (he_scope v) in if t \<noteq> [] then t else he_resolve v cwd)"

definition on_dir :: "hook_env \<Rightarrow> (bind_file list \<Rightarrow> bind_file list) \<Rightarrow> 'd hook_world \<Rightarrow> 'd hook_world" where
  "on_dir v f w = (if he_bind_dir v then w\<lparr>hw_dir := f (hw_dir w)\<rparr> else w)"

definition refresh_bind :: "hook_env \<Rightarrow> string \<Rightarrow> string \<Rightarrow> 'd hook_world \<Rightarrow> 'd hook_world" where
  "refresh_bind v sc sess = on_dir v (refresh_bind_file (he_now v) (he_disk v) (he_pids v) sc sess)"

definition print_out :: "json \<Rightarrow> 'd hook_world \<Rightarrow> 'd hook_world" where
  "print_out j w = w\<lparr>hw_out := hw_out w @ json_print j\<rparr>"

section \<open>What is printed\<close>

definition quoted :: "string \<Rightarrow> string" where
  "quoted t = [CHR 0x27] @ t @ [CHR 0x27]"

definition context_json :: "string \<Rightarrow> string \<Rightarrow> json" where
  "context_json event ctx = JObj [(''hookSpecificOutput'', JObj [(''additionalContext'', JStr ctx), (''hookEventName'', JStr event)])]"

definition deny_json :: "string \<Rightarrow> json" where
  "deny_json reason = JObj [(''hookSpecificOutput'', JObj [(''hookEventName'', JStr ''PreToolUse''),
     (''permissionDecision'', JStr ''deny''), (''permissionDecisionReason'', JStr reason)])]"

definition block_json :: "string \<Rightarrow> json" where
  "block_json reason = JObj [(''decision'', JStr ''block''), (''reason'', JStr reason)]"

definition child_text :: "string \<Rightarrow> string" where
  "child_text name = ''[coordinator] you are '' @ quoted name @ '' in this workspace; use from='' @ quoted name @
     '' on coordinator tools because the MCP connection is shared with the parent.''"

definition start_text :: "string \<Rightarrow> string \<Rightarrow> string" where
  "start_text wait name = ''[coordinator] you are '' @ quoted name @
     '' in this workspace. Peer tools (MCP agent-coordinator): status_board, list_agents, send_message, read_messages, broadcast. '' @
     ''To stay reachable while waiting on a peer, run: '' @ wait @ '' wait '' @ quoted name @
     '' -timeout 570 - it exits the moment a DM arrives. '' @
     ''Run it in the FOREGROUND and block on it unless you know your harness starts a new turn when a background task exits '' @
     ''(Claude Code does; Codex background terminals do NOT - they yield and never call you back). '' @
     ''When it returns, call read_messages, then re-arm. Do not end your turn with an unread inbox and no armed wait.''"

definition deny_reason :: "bool \<Rightarrow> string \<Rightarrow> string \<Rightarrow> string" where
  "deny_reason whoami from_arg name =
     (if whoami then ''you are '' @ quoted name @ '' in this workspace; use from='' @ quoted name @
          '' on coordinator tools. whoami on this shared connection reports the parent identity.''
      else if from_arg \<noteq> [] then ''you are '' @ quoted name @ '' in this workspace; use from='' @ quoted name @
          '' on coordinator tools. from='' @ quoted from_arg @ '' is the parent'' @ [CHR 0x27] @ ''s inbox, not yours.''
      else ''subagents share the parent MCP connection: retry with from='' @ quoted name @
          '' (your own inbox). Parent mail stays with the parent.'')"

section \<open>Before a tool runs\<close>

text \<open>Whether a call is one of a coordinator tool, and the sender it names.\<close>

definition nested_from :: "members \<Rightarrow> string \<Rightarrow> string" where
  "nested_from input k = (case object_arg input k of None \<Rightarrow> [] | Some m \<Rightarrow> text_arg m ''from'')"

definition coord_tool_call :: "string \<Rightarrow> members \<Rightarrow> string \<Rightarrow> string option" where
  "coord_tool_call tool input want =
     (case cut_suffix (''__'' @ want) tool of
        Some server \<Rightarrow> if has_suffix ''agent-coordinator'' server then Some (text_arg input ''from'')
          else None
      | None \<Rightarrow>
          if tool \<noteq> ''use_tool'' then None
          else (let n = text_arg input ''name'' in
            if n \<noteq> want \<and> \<not> has_suffix (''__'' @ want) n then None
            else Some (if text_arg input ''from'' \<noteq> [] then text_arg input ''from''
              else if nested_from input ''args'' \<noteq> [] then nested_from input ''args''
              else nested_from input ''arguments'')))"

definition whoami_request :: "string \<Rightarrow> string \<Rightarrow> request" where
  "whoami_request sc sess = zero_request\<lparr>q_op := ''whoami'', q_scope := sc, q_session := sess\<rparr>"

definition parent_named :: "'d link \<Rightarrow> string \<Rightarrow> string \<Rightarrow> 'd hook_world \<Rightarrow> 'd hook_world \<times> string" where
  "parent_named link sc sess w = (case round_trip link (whoami_request sc sess) w of
     (w', Some r) \<Rightarrow> (w', if rs_ok r then rs_name r else [])
   | (w', None) \<Rightarrow> (w', []))"

definition subagent_request :: "hook_input \<Rightarrow> string \<Rightarrow> request" where
  "subagent_request i sc = zero_request\<lparr>q_op := ''register'', q_scope := sc, q_session := hi_session i,
     q_source := ''hook-subagent'', q_agent := hi_agent i, q_agent_type := hi_agent_type i\<rparr>"

definition deny_as_child :: "'d link \<Rightarrow> hook_input \<Rightarrow> string \<Rightarrow> bool \<Rightarrow> string \<Rightarrow> 'd hook_world \<Rightarrow> 'd hook_world \<times> bool" where
  "deny_as_child link i sc whoami from_arg w = (case round_trip link (subagent_request i sc) w of
     (w', Some r) \<Rightarrow>
       if rs_ok r \<and> rs_name r \<noteq> [] then (print_out (deny_json (deny_reason whoami from_arg (rs_name r))) w', True)
       else (w', False)
   | (w', None) \<Rightarrow> (w', False))"

definition deny_subagent_identity :: "'d link \<Rightarrow> hook_input \<Rightarrow> string \<Rightarrow> 'd hook_world \<Rightarrow> 'd hook_world \<times> bool" where
  "deny_subagent_identity link i sc w =
     (case (coord_tool_call (hi_tool i) (hi_input i) ''whoami'', coord_tool_call (hi_tool i) (hi_input i) ''read_messages'') of
        (None, None) \<Rightarrow> (w, False)
      | (wa, None) \<Rightarrow> deny_as_child link i sc True [] w
      | (wa, Some from_arg) \<Rightarrow>
          if from_arg = [] then deny_as_child link i sc (wa \<noteq> None) from_arg w
          else (case parent_named link sc (hi_session i) w of (w', name) \<Rightarrow>
            if from_arg \<noteq> name then (w', False) else deny_as_child link i sc (wa \<noteq> None) from_arg w'))"

text \<open>A \<open>use_tool\<close> wrapper stands for the tool it names, with the arguments it carries.\<close>

definition unwrap_tool :: "string \<Rightarrow> members \<Rightarrow> string \<times> members" where
  "unwrap_tool tool input =
     (if tool = ''use_tool'' \<and> text_arg input ''name'' \<noteq> [] then
        (text_arg input ''name'',
         case object_arg input ''args'' of Some m \<Rightarrow> m
         | None \<Rightarrow> (case object_arg input ''arguments'' of Some m \<Rightarrow> m | None \<Rightarrow> input))
      else (tool, input))"

definition record_tool_start :: "'d link \<Rightarrow> hook_env \<Rightarrow> hook_input \<Rightarrow> string \<Rightarrow> 'd hook_world \<Rightarrow> 'd hook_world" where
  "record_tool_start link v i sc w =
     (let (tool, input) = unwrap_tool (hi_tool i) (hi_input i); act = fst (infer tool input) in
      if act = [] then w
      else (let (w1, r) = round_trip link (zero_request\<lparr>q_op := ''event'', q_scope := sc, q_session := hi_session i,
              q_source := ''presence'', q_tool := tool, q_activity := act, q_agent := hi_agent i,
              q_agent_type := hi_agent_type i\<rparr>) w;
            w2 = refresh_bind v sc (hi_session i) w1 in
        case r of
          None \<Rightarrow> w2
        | Some x \<Rightarrow>
            if rs_ok x \<and> hi_agent i \<noteq> [] \<and> rs_name x \<noteq> [] then print_out (context_json (hi_event i) (child_text (rs_name x))) w2
            else w2))"

definition pre_tool_use :: "'d link \<Rightarrow> hook_env \<Rightarrow> hook_input \<Rightarrow> string \<Rightarrow> 'd hook_world \<Rightarrow> 'd hook_world" where
  "pre_tool_use link v i sc w =
     (if hi_agent i = [] then record_tool_start link v i sc w
      else (case deny_subagent_identity link i sc w of
          (w', True) \<Rightarrow> w'
        | (w', False) \<Rightarrow> record_tool_start link v i sc w'))"

section \<open>Compaction\<close>

definition notify_compact :: "'d link \<Rightarrow> hook_env \<Rightarrow> string \<Rightarrow> hook_input \<Rightarrow> string \<Rightarrow> 'd hook_world \<Rightarrow> 'd hook_world" where
  "notify_compact link v event i sc w =
     (let post = (event = ''PostCompact'');
          w1 = fst (round_trip link (zero_request\<lparr>q_op := ''event'', q_scope := sc, q_session := hi_session i,
            q_source := ''presence'', q_tool := event,
            q_activity := (if post then ''Compacted session'' else ''Compacting session''),
            q_agent := hi_agent i, q_agent_type := hi_agent_type i\<rparr>) w);
          w2 = refresh_bind v sc (hi_session i) w1 in
      fst (round_trip link (zero_request\<lparr>q_op := ''broadcast'', q_scope := sc, q_session := hi_session i,
        q_agent := hi_agent i, q_agent_type := hi_agent_type i,
        q_body := (if post then ''compacted context; details may need restating''
          else ''compacting context; details may need restating'')\<rparr>) w2))"

section \<open>The other events\<close>

text \<open>
  \<open>normalizePaths\<close> rewrites its slice in place, so a slice that is both the files and the writes of
  a patch is rewritten twice.
\<close>

definition normal_path :: "string \<Rightarrow> string \<Rightarrow> string" where
  "normal_path cwd p = clean (if is_abs p then p else join_path cwd p)"

definition normal_touched :: "string \<Rightarrow> touched \<Rightarrow> string list \<times> string list" where
  "normal_touched cwd t = (case t of
     Shared fs \<Rightarrow> (let ps = map (normal_path cwd) (map (normal_path cwd) fs) in (ps, ps))
   | _ \<Rightarrow> (map (normal_path cwd) (touched_files t), map (normal_path cwd) (touched_writes t)))"

definition slice_of :: "'a list \<Rightarrow> 'a list option" where
  "slice_of xs = (if xs = [] then None else Some xs)"

definition base_request :: "hook_env \<Rightarrow> hook_input \<Rightarrow> string \<Rightarrow> request" where
  "base_request v i sc = zero_request\<lparr>q_scope := sc, q_session := hi_session i, q_kind := trim_space (he_kind v)\<rparr>"

definition tool_request :: "hook_input \<Rightarrow> request \<Rightarrow> request" where
  "tool_request i q =
     (let (act, t) = infer (hi_tool i) (hi_input i); (files, writes) = normal_touched (hi_cwd i) t in
      q\<lparr>q_op := ''event'', q_tool := hi_tool i, q_activity := act, q_files := slice_of files, q_writes := slice_of writes,
        q_agent := hi_agent i, q_agent_type := hi_agent_type i,
        q_task_ev := task_signal (hi_tool i) (hi_input i) (hi_response i),
        q_tasks := (if hi_tool i = ''update_plan'' then Some (plan_snapshot (hi_input i)) else None),
        q_replace := (hi_tool i = ''update_plan'')\<rparr>)"

definition event_request :: "hook_env \<Rightarrow> string \<Rightarrow> hook_input \<Rightarrow> string \<Rightarrow> request option" where
  "event_request v event i sc =
     (let q = base_request v i sc in
      if event = ''SessionStart'' then Some (q\<lparr>q_op := ''register'', q_source := ''hook''\<rparr>)
      else if event = ''SessionEnd'' then Some (q\<lparr>q_op := ''deregister''\<rparr>)
      else if event = ''Stop'' then Some (q\<lparr>q_op := ''idle''\<rparr>)
      else if event = ''Interrupt'' then
        Some (q\<lparr>q_op := ''idle'', q_source := ''presence'', q_agent := hi_agent i, q_agent_type := hi_agent_type i\<rparr>)
      else if event = ''PermissionRequest'' then
        Some (q\<lparr>q_op := ''event'', q_source := ''presence'', q_tool := ''PermissionRequest'',
          q_activity := (if hi_tool i = [] then ''Permission requested'' else ''Permission requested: '' @ hi_tool i),
          q_agent := hi_agent i, q_agent_type := hi_agent_type i\<rparr>)
      else if event = ''UserPromptSubmit'' then
        Some (q\<lparr>q_op := ''event'', q_tool := ''UserPromptSubmit'', q_activity := ''Handling user prompt''\<rparr>)
      else if event = ''SubagentStart'' then
        (if hi_agent i = [] then None
         else Some (q\<lparr>q_op := ''register'', q_source := ''hook-subagent'', q_agent := hi_agent i, q_agent_type := hi_agent_type i\<rparr>))
      else if event = ''SubagentStop'' then
        (if hi_agent i = [] then None else Some (q\<lparr>q_op := ''deregister'', q_agent := hi_agent i\<rparr>))
      else if event = ''PostToolUse'' then Some (tool_request i q)
      else None)"

definition event_upkeep :: "hook_env \<Rightarrow> string \<Rightarrow> hook_input \<Rightarrow> string \<Rightarrow> 'd hook_world \<Rightarrow> 'd hook_world" where
  "event_upkeep v event i sc w =
     (if event = ''SessionEnd'' then on_dir v (remove_bind_file (he_pids v)) w
      else if event \<in> {''Stop'', ''Interrupt'', ''PermissionRequest'', ''UserPromptSubmit'', ''PostToolUse''}
      then refresh_bind v sc (hi_session i) w else w)"

definition all_notices :: "string \<Rightarrow> hook_input \<Rightarrow> response \<Rightarrow> string list" where
  "all_notices event i r =
     (if event = ''PostToolUse'' \<and> hi_agent i \<noteq> [] \<and> rs_name r \<noteq> [] then child_text (rs_name r) # rs_notices r else rs_notices r)"

definition event_answer :: "hook_env \<Rightarrow> string \<Rightarrow> hook_input \<Rightarrow> string \<Rightarrow> response \<Rightarrow> 'd hook_world \<Rightarrow> 'd hook_world" where
  "event_answer v event i sc r w =
     (if event = ''SubagentStart'' then
        (if rs_name r = [] then w else print_out (context_json event (child_text (rs_name r))) w)
      else if event = ''PostToolUse'' \<or> event = ''UserPromptSubmit'' then
        (let notices = all_notices event i r in
         if notices = [] then w else print_out (context_json (hi_event i) (join [chr 10] notices)) w)
      else if event = ''Stop'' then
        (if rs_notices r = [] then w else print_out (block_json (join [chr 10] (rs_notices r))) w)
      else if event = ''SessionStart'' then
        (let w' = on_dir v (write_bind_file (he_now v) (he_disk v) (he_pids v) sc (hi_session i) (rs_name r)) w in
         if rs_name r = [] then w' else print_out (context_json ''SessionStart'' (start_text (he_wait v) (rs_name r))) w')
      else w)"

definition report_event :: "'d link \<Rightarrow> hook_env \<Rightarrow> string \<Rightarrow> hook_input \<Rightarrow> string \<Rightarrow> 'd hook_world \<Rightarrow> 'd hook_world" where
  "report_event link v event i sc w = (case event_request v event i sc of
     None \<Rightarrow> w
   | Some q \<Rightarrow> (case round_trip link q (event_upkeep v event i sc w) of
       (w', None) \<Rightarrow> w'
     | (w', Some r) \<Rightarrow> if rs_ok r then event_answer v event i sc r w' else w'))"

section \<open>One invocation\<close>

definition input_limit :: nat where "input_limit = 4 * 1048576"

definition hook_event :: "'d link \<Rightarrow> hook_env \<Rightarrow> hook_input \<Rightarrow> 'd hook_world \<Rightarrow> 'd hook_world" where
  "hook_event link v i w =
     (let sc = resolve_scope v (hi_cwd i); event = canonical_event (hi_event i) in
      if event = ''PreCompact'' \<or> event = ''PostCompact'' then notify_compact link v event i sc w
      else if event = ''PreToolUse'' then pre_tool_use link v i sc w
      else report_event link v event i sc w)"

text \<open>\<open>None\<close> is standard input that cannot be read.\<close>

definition hook_run :: "'d link \<Rightarrow> hook_env \<Rightarrow> string option \<Rightarrow> 'd hook_world \<Rightarrow> 'd hook_world" where
  "hook_run link v stdin w = (case Option.bind stdin (\<lambda>t. parse_hook_input (take input_limit t)) of
     None \<Rightarrow> w
   | Some i \<Rightarrow> if hi_session i = [] then w else hook_event link v i w)"

end
