(* ===== verification/RequestRound.thy ===== *)
theory RequestRound
  imports Daemon
begin

text \<open>
  The request frame as \<open>json.Marshal\<close> prints it, and the daemon's decoder reading it back. A slice is
  printed with \<open>omitempty\<close>, so an empty one arrives as an absent one; the daemon's own stamp is never
  printed.
\<close>

section \<open>Printing\<close>

definition event_json :: "task_event \<Rightarrow> json" where
  "event_json e = JObj ([(''kind'', JStr (te_kind e)), (''key'', JStr (te_key e))] @ opt_text ''subject'' (te_subject e)
     @ opt_text ''status'' (te_status e))"

definition opt_event :: "string \<Rightarrow> task_event option \<Rightarrow> (string \<times> json) list" where
  "opt_event k e = (case e of None \<Rightarrow> [] | Some x \<Rightarrow> [(k, event_json x)])"

definition opt_slice :: "string \<Rightarrow> ('a \<Rightarrow> json) \<Rightarrow> 'a list option \<Rightarrow> (string \<times> json) list" where
  "opt_slice k f l = opt_list k f (items l)"

definition request_members :: "request \<Rightarrow> (string \<times> json) list" where
  "request_members q = [(''op'', JStr (q_op q)), (''scope'', JStr (q_scope q))] @ opt_text ''session_id'' (q_session q)
     @ opt_text ''source'' (q_source q) @ opt_text ''tool'' (q_tool q) @ opt_text ''activity'' (q_activity q)
     @ opt_slice ''files'' JStr (q_files q) @ opt_slice ''writes'' JStr (q_writes q) @ opt_event ''task_ev'' (q_task_ev q)
     @ opt_slice ''tasks'' event_json (q_tasks q) @ opt_bool ''replace_tasks'' (q_replace q) @ opt_text ''from'' (q_from q)
     @ opt_text ''to'' (q_to q) @ opt_text ''body'' (q_body q) @ opt_int ''after_id'' (q_after q)
     @ opt_bool ''only_if_no_hook'' (q_no_hook q) @ opt_bool ''include_gone'' (q_gone q) @ opt_text ''agent_id'' (q_agent q)
     @ opt_text ''agent_type'' (q_agent_type q) @ opt_text ''path'' (q_path q) @ opt_text ''note'' (q_note q)
     @ opt_text ''peer'' (q_peer q) @ opt_int ''limit'' (q_limit q) @ opt_text ''token'' (q_token q)
     @ opt_text ''session_secret'' (q_secret q) @ opt_text ''kind'' (q_kind q) @ opt_text ''runtime'' (q_runtime q)
     @ opt_text ''brief'' (q_brief q) @ opt_ref ''reply_to'' (q_reply q) @ opt_ref ''target'' (q_target q)
     @ opt_text ''task_id'' (q_task q) @ opt_bool ''mine'' (q_mine q) @ opt_text ''platform'' (q_platform q)
     @ opt_slice ''capabilities'' JStr (q_caps q) @ opt_int ''deadline_s'' (q_deadline q)
     @ opt_text ''auth_session_id'' (q_auth_session q) @ []"

definition request_json :: "request \<Rightarrow> json" where
  "request_json q = JObj (request_members q)"

section \<open>Decoding one member after the other\<close>

text \<open>One step of a decoding: an optional member that is there, or is not and need not be.\<close>

lemma seg_text:
  "find_field k fs = Some (put_text put) \<Longrightarrow> (v = [] \<Longrightarrow> put v a = a) \<Longrightarrow> dec_members s fs rest (put v a) = r \<Longrightarrow>
   dec_members s fs (opt_text k v @ rest) a = r"
  by (auto simp: opt_text_def both_def)

lemma seg_int:
  "find_field k fs = Some (put_int put) \<Longrightarrow> - (2 ^ 63) \<le> v \<and> v < 2 ^ 63 \<Longrightarrow> (v = 0 \<Longrightarrow> put v a = a) \<Longrightarrow>
   dec_members s fs rest (put v a) = r \<Longrightarrow> dec_members s fs (opt_int k v @ rest) a = r"
  by (auto simp: opt_int_def both_def)

lemma seg_bool:
  "find_field k fs = Some (put_bool put) \<Longrightarrow> (\<not> v \<Longrightarrow> put v a = a) \<Longrightarrow> dec_members s fs rest (put v a) = r \<Longrightarrow>
   dec_members s fs (opt_bool k v @ rest) a = r"
  by (auto simp: opt_bool_def both_def put_bool_def)

definition tidy :: "'a list option \<Rightarrow> 'a list option" where
  "tidy l = (case l of Some [] \<Rightarrow> None | _ \<Rightarrow> l)"

lemma seg_slice:
  assumes "find_field k fs = Some (on_part get upd (dec_slice zero d))" and "get a = None"
    and "\<And>xs. v = Some xs \<Longrightarrow> dec_elems zero d (map f xs) [] = (xs, True)"
    and "v = None \<or> v = Some [] \<Longrightarrow> upd (\<lambda>_. None) a = a"
    and "dec_members s fs rest (upd (\<lambda>_. tidy v) a) = r"
  shows "dec_members s fs (opt_slice k f v @ rest) a = r"
proof (cases "items v")
  case Nil
  then have "v = None \<or> v = Some []" by (cases v) (auto simp: items_def)
  then show ?thesis using assms(4,5) by (auto simp: opt_slice_def opt_list_def items_def tidy_def)
next
  case (Cons x xs)
  then have v: "v = Some (x # xs)" by (cases v) (auto simp: items_def)
  then have "dec_slice zero d (JArr (map f (x # xs))) None = (Some (x # xs), True)"
    using assms(3) [OF v] by (simp add: dec_slice_def)
  then show ?thesis using assms(1,2,5) v
    by (simp add: opt_slice_def opt_list_def items_def tidy_def both_def on_part_def Let_def)
qed

lemma seg_ptr:
  assumes "find_field k fs = Some (on_part get upd (dec_ptr zero d))" and "get a = None"
    and "\<And>x. v = Some x \<Longrightarrow> d (f x) zero = (x, True) \<and> f x \<noteq> JNull" and "v = None \<Longrightarrow> upd (\<lambda>_. None) a = a"
    and "dec_members s fs rest (upd (\<lambda>_. v) a) = r"
  shows "dec_members s fs ((case v of None \<Rightarrow> [] | Some x \<Rightarrow> [(k, f x)]) @ rest) a = r"
proof (cases v)
  case None
  then show ?thesis using assms(4,5) by simp
next
  case (Some x)
  then have "dec_ptr zero d (f x) None = (Some x, True)"
    using assms(3) [OF Some] by (cases "f x") (simp_all add: dec_ptr_def)
  then show ?thesis using assms(1,2,5) Some by (simp add: both_def on_part_def Let_def)
qed

lemma request_lookup:
  "find_field ''op'' request_fields = Some (put_text (\<lambda>t. q_op_update (\<lambda>_. t)))"
  "find_field ''scope'' request_fields = Some (put_text (\<lambda>t. q_scope_update (\<lambda>_. t)))"
  "find_field ''session_id'' request_fields = Some (put_text (\<lambda>t. q_session_update (\<lambda>_. t)))"
  "find_field ''source'' request_fields = Some (put_text (\<lambda>t. q_source_update (\<lambda>_. t)))"
  "find_field ''tool'' request_fields = Some (put_text (\<lambda>t. q_tool_update (\<lambda>_. t)))"
  "find_field ''activity'' request_fields = Some (put_text (\<lambda>t. q_activity_update (\<lambda>_. t)))"
  "find_field ''files'' request_fields = Some (on_part q_files q_files_update (dec_slice [] dec_text))"
  "find_field ''writes'' request_fields = Some (on_part q_writes q_writes_update (dec_slice [] dec_text))"
  "find_field ''task_ev'' request_fields = Some (on_part q_task_ev q_task_ev_update (dec_ptr zero_event (dec_struct False event_fields)))"
  "find_field ''tasks'' request_fields = Some (on_part q_tasks q_tasks_update (dec_slice zero_event (dec_struct False event_fields)))"
  "find_field ''replace_tasks'' request_fields = Some (put_bool (\<lambda>b. q_replace_update (\<lambda>_. b)))"
  "find_field ''from'' request_fields = Some (put_text (\<lambda>t. q_from_update (\<lambda>_. t)))"
  "find_field ''to'' request_fields = Some (put_text (\<lambda>t. q_to_update (\<lambda>_. t)))"
  "find_field ''body'' request_fields = Some (put_text (\<lambda>t. q_body_update (\<lambda>_. t)))"
  "find_field ''after_id'' request_fields = Some (put_int (\<lambda>i. q_after_update (\<lambda>_. i)))"
  "find_field ''only_if_no_hook'' request_fields = Some (put_bool (\<lambda>b. q_no_hook_update (\<lambda>_. b)))"
  "find_field ''include_gone'' request_fields = Some (put_bool (\<lambda>b. q_gone_update (\<lambda>_. b)))"
  "find_field ''agent_id'' request_fields = Some (put_text (\<lambda>t. q_agent_update (\<lambda>_. t)))"
  by (rule find_field_map, simp add: request_fields_def dec_texts_def)+

lemma request_lookup_more:
  "find_field ''agent_type'' request_fields = Some (put_text (\<lambda>t. q_agent_type_update (\<lambda>_. t)))"
  "find_field ''path'' request_fields = Some (put_text (\<lambda>t. q_path_update (\<lambda>_. t)))"
  "find_field ''note'' request_fields = Some (put_text (\<lambda>t. q_note_update (\<lambda>_. t)))"
  "find_field ''peer'' request_fields = Some (put_text (\<lambda>t. q_peer_update (\<lambda>_. t)))"
  "find_field ''limit'' request_fields = Some (put_int (\<lambda>i. q_limit_update (\<lambda>_. i)))"
  "find_field ''token'' request_fields = Some (put_text (\<lambda>t. q_token_update (\<lambda>_. t)))"
  "find_field ''session_secret'' request_fields = Some (put_text (\<lambda>t. q_secret_update (\<lambda>_. t)))"
  "find_field ''kind'' request_fields = Some (put_text (\<lambda>t. q_kind_update (\<lambda>_. t)))"
  "find_field ''runtime'' request_fields = Some (put_text (\<lambda>t. q_runtime_update (\<lambda>_. t)))"
  "find_field ''brief'' request_fields = Some (put_text (\<lambda>t. q_brief_update (\<lambda>_. t)))"
  "find_field ''reply_to'' request_fields = Some (on_part q_reply q_reply_update (dec_ptr empty_ref (dec_ref False)))"
  "find_field ''target'' request_fields = Some (on_part q_target q_target_update (dec_ptr empty_ref (dec_ref False)))"
  "find_field ''task_id'' request_fields = Some (put_text (\<lambda>t. q_task_update (\<lambda>_. t)))"
  "find_field ''mine'' request_fields = Some (put_bool (\<lambda>b. q_mine_update (\<lambda>_. b)))"
  "find_field ''platform'' request_fields = Some (put_text (\<lambda>t. q_platform_update (\<lambda>_. t)))"
  "find_field ''capabilities'' request_fields = Some (on_part q_caps q_caps_update (dec_slice [] dec_text))"
  "find_field ''deadline_s'' request_fields = Some (put_int (\<lambda>i. q_deadline_update (\<lambda>_. i)))"
  "find_field ''auth_session_id'' request_fields = Some (put_text (\<lambda>t. q_auth_session_update (\<lambda>_. t)))"
  by (rule find_field_map, simp add: request_fields_def dec_texts_def)+

lemma dec_event_json: "dec_struct False event_fields (event_json e) zero_event = (e, True)"
  by (cases e) (simp add: dec_struct_def event_json_def event_fields_def zero_event_def find_field_def both_def opt_text_def Let_def)

lemma dec_elems_events: "dec_elems zero_event (dec_struct False event_fields) (map event_json es) [] = (es, True)"
  by (induction es) (simp_all add: dec_event_json Let_def)

definition ints_fit :: "request \<Rightarrow> bool" where
  "ints_fit q \<longleftrightarrow> list_all (\<lambda>i. - (2 ^ 63) \<le> i \<and> i < 2 ^ 63) [q_after q, q_limit q, q_deadline q]"

text \<open>What arrives of a request.\<close>

definition on_wire :: "request \<Rightarrow> request" where
  "on_wire q = q\<lparr>q_files := tidy (q_files q), q_writes := tidy (q_writes q), q_tasks := tidy (q_tasks q),
     q_caps := tidy (q_caps q), q_origin := []\<rparr>"

lemma seg_must:
  "find_field k fs = Some (put_text put) \<Longrightarrow> dec_members s fs rest (put v a) = r \<Longrightarrow>
   dec_members s fs ((k, JStr v) # rest) a = r"
  by (auto simp: both_def)

lemma not_null [simp]: "ref_json x \<noteq> JNull" "event_json e \<noteq> JNull"
  by (simp_all add: ref_json_def event_json_def)

lemma tidy_simps [simp]: "v = None \<or> v = Some [] \<Longrightarrow> tidy v = None"
  by (auto simp: tidy_def)

lemma dec_request_members:
  assumes "ints_fit q"
  shows "dec_members False request_fields (request_members q) zero_request = (on_wire q, True)"
  using assms unfolding request_members_def opt_ref_def opt_event_def append_Cons append_Nil zero_request_def
  apply -
  apply ((rule seg_must, rule request_lookup)
    | (rule seg_text, rule request_lookup request_lookup_more, simp)
    | (rule seg_bool, rule request_lookup request_lookup_more, simp)
    | (rule seg_int, rule request_lookup request_lookup_more, simp add: ints_fit_def, simp)
    | (rule seg_slice, rule request_lookup request_lookup_more, simp, simp add: dec_elems_texts dec_elems_events, simp)
    | (rule seg_ptr, rule request_lookup request_lookup_more, simp, simp add: dec_ref_json dec_event_json, simp))+
  apply (cases q)
  apply (simp add: on_wire_def)
  done

section \<open>What a frame may hold\<close>

definition wf_event :: "task_event \<Rightarrow> bool" where
  "wf_event e \<longleftrightarrow> list_all valid_utf8 [te_kind e, te_key e, te_subject e, te_status e]"

definition request_texts :: "request \<Rightarrow> string list" where
  "request_texts q = [q_op q, q_scope q, q_session q, q_source q, q_tool q, q_activity q, q_from q, q_to q, q_body q, q_agent q,
     q_agent_type q, q_path q, q_note q, q_peer q, q_token q, q_secret q, q_kind q, q_runtime q, q_brief q, q_task q,
     q_platform q, q_auth_session q] @ items (q_files q) @ items (q_writes q) @ items (q_caps q)"

definition wf_request :: "request \<Rightarrow> bool" where
  "wf_request q \<longleftrightarrow> ints_fit q \<and> list_all valid_utf8 (request_texts q) \<and> pred_option wf_event (q_task_ev q) \<and>
     list_all wf_event (items (q_tasks q)) \<and> pred_option wf_ref (q_reply q) \<and> pred_option wf_ref (q_target q)"

text \<open>Members that print and parse: keys and values are sound and shallow.\<close>

definition sound_members :: "(string \<times> json) list \<Rightarrow> bool" where
  "sound_members kvs \<longleftrightarrow> list_all (\<lambda>(k, v). valid_utf8 k \<and> wf_json v \<and> json_depth v \<le> 3) kvs"

lemma sound_append [simp]: "sound_members (xs @ ys) \<longleftrightarrow> sound_members xs \<and> sound_members ys"
  by (simp add: sound_members_def)

lemma sound_simps [simp]:
  "sound_members []"
  "sound_members ((k, JStr v) # kvs) \<longleftrightarrow> valid_utf8 k \<and> valid_utf8 v \<and> sound_members kvs"
  by (simp_all add: sound_members_def)

lemma depth_strings: "json_depth (JArr (map JStr ts)) = 1"
proof -
  have "fold max (map (json_depth \<circ> JStr) ts) 0 = (0::nat)" by (induction ts) auto
  then show ?thesis by simp
qed

lemma sound_event: "wf_event e \<Longrightarrow> wf_json (event_json e) \<and> json_depth (event_json e) = 1"
  by (simp add: event_json_def wf_event_def opt_text_def valid_utf8_ascii is_ascii_def byte_def)

lemma depth_events: "list_all wf_event es \<Longrightarrow> json_depth (JArr (map event_json es)) \<le> 2"
  using sound_event by (fastforce simp: fold_max_le list_all_iff)

lemma sound_opts:
  "valid_utf8 k \<Longrightarrow> valid_utf8 v \<Longrightarrow> sound_members (opt_text k v)"
  "valid_utf8 k \<Longrightarrow> sound_members (opt_int k i)"
  "valid_utf8 k \<Longrightarrow> sound_members (opt_bool k b)"
  "valid_utf8 k \<Longrightarrow> list_all valid_utf8 (items l) \<Longrightarrow> sound_members (opt_slice k JStr l)"
  "valid_utf8 k \<Longrightarrow> list_all wf_event (items t) \<Longrightarrow> sound_members (opt_slice k event_json t)"
  "valid_utf8 k \<Longrightarrow> pred_option wf_event e \<Longrightarrow> sound_members (opt_event k e)"
  "valid_utf8 k \<Longrightarrow> pred_option wf_ref r \<Longrightarrow> sound_members (opt_ref k r)"
  using sound_event depth_events [of "items t"] depth_strings
  by (auto simp: sound_members_def opt_text_def opt_int_def opt_bool_def opt_slice_def opt_list_def opt_event_def opt_ref_def
      list_all_iff wf_ref_json simp del: json_depth.simps(1) split: option.splits)

lemma request_key_texts:
  "list_all valid_utf8 [''op'', ''session_id'', ''source'', ''activity'', ''files'', ''writes'', ''task_ev'', ''tasks'', ''replace_tasks'',
     ''from'', ''to'', ''body'', ''after_id'', ''only_if_no_hook'', ''include_gone'', ''agent_type'', ''path'', ''note'', ''peer'',
     ''limit'', ''token'', ''session_secret'', ''kind'', ''target'', ''mine'', ''platform'', ''capabilities'', ''auth_session_id'']"
  by (simp add: valid_utf8_ascii is_ascii_def byte_def)

lemma sound_request: "wf_request q \<Longrightarrow> sound_members (request_members q)"
  using request_key_texts by (simp add: request_members_def wf_request_def request_texts_def sound_opts)

lemma wf_request_json: "wf_request q \<Longrightarrow> wf_json (request_json q) \<and> json_depth (request_json q) \<le> 4"
  using sound_request [of q] by (fastforce simp: request_json_def sound_members_def list_all_iff fold_max_le)

section \<open>Lines\<close>

lemma newline_is: "newline = CHR 0x0A"
  by (simp add: newline_def chr_def) code_simp

lemma escape_one_line:
  assumes "good_rune (r, bs)"
  shows "newline \<notin> set (escape_rune (r, bs))"
proof -
  have n: "byte newline = 10" by (simp add: newline_def byte_chr)
  have hex: "c \<noteq> newline" if "is_hex c" for c using that n by (auto simp: is_hex_def is_lower_hex_def is_digit_def)
  from assms show ?thesis
  proof (cases rule: escape_rune_cases)
    case (plain c)
    then show ?thesis using n by auto
  next
    case (short c e)
    then show ?thesis by (auto simp: newline_is)
  next
    case unicode
    then show ?thesis using hex4_text_hex(1) [of r] hex by (auto simp: newline_is list_all_iff)
  next
    case multi
    then show ?thesis using good_rune_bytes(2) [OF assms] n by auto
  qed
qed

lemma json_string_one_line:
  assumes "valid_utf8 t"
  shows "newline \<notin> set (json_string t)"
proof -
  have "\<forall>rb \<in> set (runes t). newline \<notin> set (escape_rune rb)"
    using valid_utf8_good [OF assms] escape_one_line by (metis surj_pair)
  then show ?thesis by (auto simp: json_string_def escape_text_def newline_is)
qed

lemma set_join: "set (join sep ws) \<subseteq> set sep \<union> \<Union> (set ` set ws)"
  by (induction sep ws rule: join.induct) auto

lemma json_print_one_line: "wf_json j \<Longrightarrow> newline \<notin> set (json_print j)"
proof (induction j rule: json_print.induct)
  case (3 t)
  have "newline \<notin> set (dec_nat n)" for n
    using dec_nat_digits [of n] by (auto simp: list_all_iff is_digit_def newline_is byte_def)
  then have "newline \<notin> set (dec_int i)" for i by (simp add: dec_int_def newline_is)
  moreover have "t = dec_int (undec_int t)" using 3 by simp
  ultimately show ?case by (metis json_print.simps(3))
next
  case (4 t)
  then show ?case using json_string_one_line by simp
next
  case (5 js)
  then show ?case using set_join [of "'',''" "map json_print js"] by (auto simp: list_all_iff newline_is)
next
  case (6 kvs)
  have "newline \<notin> set (json_string k @ '':'' @ json_print v)" if "(k, v) \<in> set kvs" for k v
    using 6 that json_string_one_line by (fastforce simp: list_all_iff newline_is)
  then show ?case
    using set_join [of "'',''" "map (\<lambda>(k, v). json_string k @ '':'' @ json_print v) kvs"] by (fastforce simp: newline_is)
qed (auto simp: newline_is)

section \<open>The daemon gets what the client sent\<close>

definition request_line :: "request \<Rightarrow> string" where
  "request_line q = json_print (request_json q) @ [newline]"

lemma decode_request_line:
  assumes "wf_request q"
  shows "decode_request (request_line q) = Some (on_wire q)"
proof -
  have wf: "wf_json (request_json q)" "json_depth (request_json q) \<le> max_nesting"
    using wf_request_json [OF assms] by (simp_all add: max_nesting_def)
  have "ends_number [newline]" "skip_space [newline] = []"
    by (simp_all add: ends_number_def is_json_space_def newline_is is_digit_def byte_def)
  then have "json_unmarshal (request_line q) = Some (request_json q)"
    using read_printed [OF wf, of "[newline]"] by (simp add: json_unmarshal_def request_line_def)
  moreover have "ints_fit q" using assms by (simp add: wf_request_def)
  then have "dec_struct False request_fields (request_json q) zero_request = (on_wire q, True)"
    using dec_request_members [of q] by (simp add: dec_struct_def request_json_def)
  ultimately show ?thesis by (simp add: decode_request_def unmarshal_into_def)
qed

lemma read_request_line:
  assumes "wf_request q" and "length (request_line q) \<le> frame_limit"
  shows "read_frame (request_line q) = request_line q"
proof -
  have no: "newline \<notin> set (json_print (request_json q))" by (rule json_print_one_line) (use wf_request_json [OF assms(1)] in simp)
  have "takeWhile (\<lambda>c. c \<noteq> newline) (request_line q) = json_print (request_json q)"
    using no by (simp add: request_line_def takeWhile_append)
  then show ?thesis using assms(2) by (simp add: read_frame_def request_line_def)
qed

text \<open>
  C11. What a client asks is what the daemon does. The line a client writes for a request of printable text, if it is
  within the limit of a frame, is read from the unix socket whole and decoded to that same request, so the
  daemon's state and answer are those of dispatching it; only the kind a frame claims and the origin it
  cannot carry are dropped, and an empty slice is as good as none.
\<close>

theorem requests_arrive_whole:
  assumes "wf_request q" and "length (request_line q) \<le> frame_limit"
  shows "handle None fresh suf why now (request_line q) s =
    (case dispatch suf now ((on_wire q)\<lparr>q_kind := []\<rparr>) s of (s', r) \<Rightarrow> (s', json_print (response_json r) @ [newline]))"
proof -
  have "request_line q \<noteq> []" by (simp add: request_line_def)
  then show ?thesis
    using decode_request_line [OF assms(1)] read_request_line [OF assms]
    by (simp add: handle_def answer_def check_def outbound_def on_wire_def Let_def split: prod.splits)
qed

theorem requests_arrive_whole_witness:
  "handle None [] ''x'' [] 0 (request_line (zero_request\<lparr>q_op := ''whoami'', q_scope := ''ws'', q_session := ''s''\<rparr>)) empty_store =
    (case dispatch ''x'' 0 (zero_request\<lparr>q_op := ''whoami'', q_scope := ''ws'', q_session := ''s''\<rparr>) empty_store of
      (s', r) \<Rightarrow> (s', json_print (response_json r) @ [newline]))"
proof -
  let ?q = "zero_request\<lparr>q_op := ''whoami'', q_scope := ''ws'', q_session := ''s''\<rparr>"
  have "wf_request ?q"
    by (simp add: wf_request_def ints_fit_def request_texts_def zero_request_def items_def valid_utf8_ascii is_ascii_def byte_def)
  moreover have "length (request_line ?q) \<le> 100" by code_simp
  then have "length (request_line ?q) \<le> frame_limit" by (simp add: frame_limit_def)
  moreover have "(on_wire ?q)\<lparr>q_kind := []\<rparr> = ?q" by (simp add: on_wire_def tidy_def zero_request_def)
  ultimately show ?thesis using requests_arrive_whole [of ?q "[]" "''x''" "[]" 0 empty_store] by simp
qed

end
