(* ===== verification/HookProps.thy ===== *)
theory HookProps
  imports Hook RequestRound
begin

text \<open>
  What a hook may do to the agent it serves and to its peers: which requests it sends and in whose
  name, which documents it prints, and that it is silent when the daemon is no help.
\<close>

section \<open>Recording the requests\<close>

text \<open>A daemon that answers in any way at all, and whose state is the list of the requests it got.\<close>

definition logged :: "(request list \<Rightarrow> request \<Rightarrow> response option) \<Rightarrow> request list link" where
  "logged f q log = (log @ [q], f log q)"

lemma round_trip_simps [simp]:
  "hw_out (fst (round_trip link q w)) = hw_out w"
  "hw_dir (fst (round_trip link q w)) = hw_dir w"
  "hw_daemon (fst (round_trip (logged f) q w')) = hw_daemon w' @ [q]"
  "snd (round_trip link q w) = snd (link q (hw_daemon w))"
  by (simp_all add: round_trip_def logged_def split: prod.splits)

lemma upkeep_simps [simp]:
  "hw_daemon (on_dir v g w) = hw_daemon w" "hw_out (on_dir v g w) = hw_out w"
  "hw_daemon (refresh_bind v sc sess w) = hw_daemon w" "hw_out (refresh_bind v sc sess w) = hw_out w"
  "hw_daemon (event_upkeep v ev i sc w) = hw_daemon w" "hw_out (event_upkeep v ev i sc w) = hw_out w"
  "hw_daemon (print_out j w) = hw_daemon w" "hw_out (print_out j w) = hw_out w @ json_print j"
  by (simp_all add: on_dir_def refresh_bind_def event_upkeep_def print_out_def)

lemma event_answer_daemon [simp]: "hw_daemon (event_answer v ev i sc r w) = hw_daemon w"
  by (simp add: event_answer_def Let_def)

section \<open>What is sent\<close>

definition event_of :: "hook_input \<Rightarrow> string" where
  "event_of i = canonical_event (hi_event i)"

definition hook_request_ok :: "hook_env \<Rightarrow> hook_input \<Rightarrow> request \<Rightarrow> bool" where
  "hook_request_ok v i q \<longleftrightarrow> q_session q = hi_session i \<and> q_scope q = resolve_scope v (hi_cwd i) \<and>
     (case op_of (q_op q) of
        OpRegister \<Rightarrow> q_agent q = hi_agent i \<and> hi_agent i \<noteq> [] \<or> event_of i = ''SessionStart'' \<and> q_agent q = []
      | OpDeregister \<Rightarrow> event_of i = ''SubagentStop'' \<and> q_agent q = hi_agent i \<and> hi_agent i \<noteq> []
          \<or> event_of i = ''SessionEnd'' \<and> q_agent q = []
      | OpEvent \<Rightarrow> q_agent q = hi_agent i \<or> event_of i = ''UserPromptSubmit'' \<and> q_agent q = []
      | OpIdle \<Rightarrow> event_of i = ''Interrupt'' \<and> q_agent q = hi_agent i \<or> event_of i = ''Stop'' \<and> q_agent q = []
      | OpBroadcast \<Rightarrow> event_of i \<in> {''PreCompact'', ''PostCompact''} \<and> q_agent q = hi_agent i
      | OpWhoami \<Rightarrow> event_of i = ''PreToolUse'' \<and> hi_agent i \<noteq> []
      | _ \<Rightarrow> False)"

lemmas hook_request_defs = zero_request_def base_request_def subagent_request_def whoami_request_def

definition asks :: "(request \<Rightarrow> bool) \<Rightarrow> request list hook_world \<Rightarrow> request list hook_world \<Rightarrow> bool" where
  "asks ok w w' \<longleftrightarrow> (\<exists>sent. hw_daemon w' = hw_daemon w @ sent \<and> list_all ok sent)"

lemma asks_nothing: "hw_daemon w' = hw_daemon w \<Longrightarrow> asks ok w w'"
  by (simp add: asks_def)

lemma asks_trans: "asks ok w w1 \<Longrightarrow> asks ok w1 w2 \<Longrightarrow> asks ok w w2"
  by (fastforce simp: asks_def)

lemma asks_round_trip: "round_trip (logged f) q w = (w', r) \<Longrightarrow> ok q \<Longrightarrow> asks ok w w'"
  using round_trip_simps(3) [of f q w] by (auto simp: asks_def)

lemma asks_same: "asks ok w w1 \<Longrightarrow> hw_daemon w2 = hw_daemon w1 \<Longrightarrow> asks ok w w2"
  by (simp add: asks_def)

lemma deny_as_child_log:
  assumes "hi_agent i \<noteq> []"
  shows "asks (hook_request_ok v i) w (fst (deny_as_child (logged f) i (resolve_scope v (hi_cwd i)) a b w))"
proof -
  have "hook_request_ok v i (subagent_request i (resolve_scope v (hi_cwd i)))"
    using assms by (simp add: hook_request_ok_def hook_request_defs)
  then show ?thesis
    by (auto simp: deny_as_child_def intro: asks_same elim!: asks_round_trip split: prod.splits option.splits)
qed

lemma parent_name_log:
  assumes "hi_agent i \<noteq> []" and "event_of i = ''PreToolUse''"
  shows "asks (hook_request_ok v i) w (fst (parent_named (logged f) (resolve_scope v (hi_cwd i)) (hi_session i) w))"
proof -
  have "hook_request_ok v i (whoami_request (resolve_scope v (hi_cwd i)) (hi_session i))"
    using assms by (simp add: hook_request_ok_def hook_request_defs)
  then show ?thesis by (auto simp: parent_named_def elim!: asks_round_trip split: prod.splits option.splits)
qed

lemma deny_log:
  assumes "hi_agent i \<noteq> []" and "event_of i = ''PreToolUse''"
  shows "asks (hook_request_ok v i) w (fst (deny_subagent_identity (logged f) i (resolve_scope v (hi_cwd i)) w))"
proof -
  obtain w' name where p: "parent_named (logged f) (resolve_scope v (hi_cwd i)) (hi_session i) w = (w', name)" by (cases "parent_named (logged f) (resolve_scope v (hi_cwd i)) (hi_session i) w")
  then have "asks (hook_request_ok v i) w w'" using parent_name_log [OF assms, of v w f] by simp
  then show ?thesis
    using deny_as_child_log [OF assms(1), of v _ f]
    by (auto simp: deny_subagent_identity_def p intro: asks_nothing asks_trans split: prod.splits option.splits)
qed

lemma record_tool_start_log:
  "asks (hook_request_ok v i) w (record_tool_start (logged f) v i (resolve_scope v (hi_cwd i)) w)"
proof -
  obtain tool input where u: "unwrap_tool (hi_tool i) (hi_input i) = (tool, input)" by (cases "unwrap_tool (hi_tool i) (hi_input i)")
  let ?q = "zero_request\<lparr>q_op := ''event'', q_scope := resolve_scope v (hi_cwd i), q_session := hi_session i,
    q_source := ''presence'', q_tool := tool, q_activity := fst (infer tool input), q_agent := hi_agent i,
    q_agent_type := hi_agent_type i\<rparr>"
  obtain w' r where rt: "round_trip (logged f) ?q w = (w', r)" by (cases "round_trip (logged f) ?q w")
  have "hook_request_ok v i ?q" by (simp add: hook_request_ok_def hook_request_defs)
  then have "asks (hook_request_ok v i) w w'" by (rule asks_round_trip [OF rt])
  then show ?thesis
    by (auto simp: record_tool_start_def u rt Let_def intro: asks_nothing asks_same split: option.splits)
qed

lemma pre_tool_use_log:
  assumes "event_of i = ''PreToolUse''"
  shows "asks (hook_request_ok v i) w (pre_tool_use (logged f) v i (resolve_scope v (hi_cwd i)) w)"
proof -
  have "asks (hook_request_ok v i) w w'"
    if "deny_subagent_identity (logged f) i (resolve_scope v (hi_cwd i)) w = (w', b)" "hi_agent i \<noteq> []" for w' b
    using deny_log [OF that(2) assms, of v w f] that(1) by simp
  then show ?thesis
    using record_tool_start_log [of v i _ f]
    by (auto simp: pre_tool_use_def intro: asks_trans split: prod.splits bool.splits)
qed

lemma notify_compact_log:
  assumes "event_of i = ev" and "ev = ''PreCompact'' \<or> ev = ''PostCompact''"
  shows "asks (hook_request_ok v i) w (notify_compact (logged f) v ev i (resolve_scope v (hi_cwd i)) w)"
  using assms by (auto simp: asks_def notify_compact_def Let_def hook_request_ok_def hook_request_defs)

lemma event_request_ok:
  assumes "event_request v (event_of i) i (resolve_scope v (hi_cwd i)) = Some q"
  shows "hook_request_ok v i q"
  using assms by (auto simp: event_request_def Let_def hook_request_ok_def hook_request_defs tool_request_def
      split: if_splits prod.splits)

lemma report_event_log:
  "asks (hook_request_ok v i) w (report_event (logged f) v (event_of i) i (resolve_scope v (hi_cwd i)) w)"
proof (cases "event_request v (event_of i) i (resolve_scope v (hi_cwd i))")
  case None
  then show ?thesis by (simp add: report_event_def asks_nothing)
next
  case (Some q)
  let ?w = "event_upkeep v (event_of i) i (resolve_scope v (hi_cwd i)) w"
  obtain w' r where rt: "round_trip (logged f) q ?w = (w', r)" by (cases "round_trip (logged f) q ?w")
  have "asks (hook_request_ok v i) ?w w'" by (rule asks_round_trip [OF rt, where ok = "hook_request_ok v i"]) (rule event_request_ok [OF Some])
  then have "asks (hook_request_ok v i) w w'" by (simp add: asks_def)
  then show ?thesis by (auto simp: report_event_def Some rt intro: asks_same split: option.splits)
qed

lemma hook_event_log: "asks (hook_request_ok v i) w (hook_event (logged f) v i w)"
  using notify_compact_log [OF refl, of i v w f] pre_tool_use_log [of i v w f] report_event_log [of v i w f]
  by (auto simp: hook_event_def Let_def event_of_def)

text \<open>
  C6. A hook acts for the session of its envelope alone. Whatever the daemon answers, every request of
  one invocation names that session and the workspace of its directory; one that retires an agent is
  sent at the end of the session for the session itself, or at the end of a subagent for that
  subagent, never for its parent; one that registers names the subagent or starts the session; and
  what a subagent does is reported under the subagent.
\<close>

theorem hook_acts_for_its_session:
  "case parse_hook_input (take input_limit stdin) of
     None \<Rightarrow> hw_daemon (hook_run (logged f) v (Some stdin) w) = hw_daemon w
   | Some i \<Rightarrow> hi_session i = [] \<and> hw_daemon (hook_run (logged f) v (Some stdin) w) = hw_daemon w \<or>
       (\<exists>sent. hw_daemon (hook_run (logged f) v (Some stdin) w) = hw_daemon w @ sent \<and> list_all (hook_request_ok v i) sent)"
  using hook_event_log by (auto simp: hook_run_def asks_def split: option.split)

section \<open>What is printed\<close>

definition printable :: "hook_input \<Rightarrow> json \<Rightarrow> bool" where
  "printable i j \<longleftrightarrow> (\<exists>ev ctx. j = context_json ev ctx) \<or>
     (\<exists>reason. j = block_json reason \<and> event_of i = ''Stop'') \<or>
     (\<exists>reason. j = deny_json reason \<and> event_of i = ''PreToolUse'' \<and> hi_agent i \<noteq> [] \<and>
        (\<exists>want from_arg. want \<in> {''whoami'', ''read_messages''} \<and> coord_tool_call (hi_tool i) (hi_input i) want = Some from_arg))"

definition prints :: "(json \<Rightarrow> bool) \<Rightarrow> 'd hook_world \<Rightarrow> 'd hook_world \<Rightarrow> bool" where
  "prints ok w w' \<longleftrightarrow> hw_out w' = hw_out w \<or> (\<exists>j. ok j \<and> hw_out w' = hw_out w @ json_print j)"

text \<open>A daemon that is not there, or refuses everything.\<close>

definition no_help :: "'d link \<Rightarrow> bool" where
  "no_help link \<longleftrightarrow> (\<forall>q d r. snd (link q d) = Some r \<longrightarrow> \<not> rs_ok r)"

lemma prints_same: "hw_out w' = hw_out w \<Longrightarrow> prints ok w w'"
  and prints_doc: "hw_out w' = hw_out w @ json_print j \<Longrightarrow> ok j \<Longrightarrow> prints ok w w'"
  by (auto simp: prints_def)

lemma prints_if:
  "(b \<Longrightarrow> prints ok w x) \<Longrightarrow> (\<not> b \<Longrightarrow> prints ok w y) \<Longrightarrow> prints ok w (if b then x else y)"
  and prints_on_dir: "prints ok w (on_dir v f w)"
  and prints_out: "ok j \<Longrightarrow> prints ok w (print_out j w)"
  and prints_dir_out: "ok j \<Longrightarrow> prints ok w (print_out j (on_dir v f w))"
  and prints_id: "prints ok w w"
  by (simp_all add: prints_same prints_doc print_out_def on_dir_def)

lemma round_trip_out: "round_trip link q w = (w', r) \<Longrightarrow> hw_out w' = hw_out w \<and> r = snd (link q (hw_daemon w))"
  by (metis fst_conv round_trip_simps(1,4) snd_conv)

lemma no_help_ok: "no_help link \<Longrightarrow> snd (link q d) = Some r \<Longrightarrow> rs_ok r = False"
  by (auto simp: no_help_def)

lemma context_printable [simp]: "printable i (context_json ev ctx)"
  and block_printable: "event_of i = ''Stop'' \<Longrightarrow> printable i (block_json reason)"
  by (auto simp: printable_def)

lemma deny_as_child_out:
  "hw_out (fst (deny_as_child link i sc a b w)) = hw_out w \<and> \<not> snd (deny_as_child link i sc a b w) \<or>
   snd (deny_as_child link i sc a b w) \<and> \<not> no_help link \<and>
     (\<exists>reason. hw_out (fst (deny_as_child link i sc a b w)) = hw_out w @ json_print (deny_json reason))"
  using no_help_ok [of link]
  by (auto simp: deny_as_child_def dest!: round_trip_out split: prod.splits option.splits)

lemma parent_name_out: "hw_out (fst (parent_named link sc sess w)) = hw_out w"
  by (auto simp: parent_named_def dest!: round_trip_out split: prod.splits option.splits)

lemma deny_shape:
  assumes "deny_subagent_identity link i sc w = (w', d)"
  obtains "hw_out w' = hw_out w" and "\<not> d"
  | a b w1 want from_arg where "hw_out w1 = hw_out w" and "deny_as_child link i sc a b w1 = (w', d)"
      and "want \<in> {''whoami'', ''read_messages''}" and "coord_tool_call (hi_tool i) (hi_input i) want = Some from_arg"
proof -
  obtain w1 name where p: "parent_named link sc (hi_session i) w = (w1, name)" by (cases "parent_named link sc (hi_session i) w")
  then have w1: "hw_out w1 = hw_out w" using parent_name_out [of link sc "hi_session i" w] by simp
  show ?thesis
  proof (cases "coord_tool_call (hi_tool i) (hi_input i) ''read_messages''")
    case None
    show ?thesis
    proof (cases "coord_tool_call (hi_tool i) (hi_input i) ''whoami''")
      case None
      then show ?thesis using assms \<open>coord_tool_call _ _ ''read_messages'' = None\<close> that(1)
        by (auto simp: deny_subagent_identity_def)
    next
      case (Some x)
      then show ?thesis using assms None that(2) [of w True "[]" "''whoami''" x] by (auto simp: deny_subagent_identity_def)
    qed
  next
    case (Some from_arg)
    show ?thesis
    proof (cases "from_arg = [] \<or> from_arg = name")
      case True
      then show ?thesis
        using assms Some w1 that(2) [of _ _ _ "''read_messages''" from_arg]
        by (cases "coord_tool_call (hi_tool i) (hi_input i) ''whoami''"; cases "from_arg = []")
          (simp_all add: deny_subagent_identity_def p)
    next
      case False
      then show ?thesis
        using assms Some w1 that(1)
        by (cases "coord_tool_call (hi_tool i) (hi_input i) ''whoami''") (auto simp: deny_subagent_identity_def p)
    qed
  qed
qed

lemma deny_out:
  assumes "deny_subagent_identity link i sc w = (w', d)"
  shows "hw_out w' = hw_out w \<and> \<not> d \<or> d \<and> \<not> no_help link \<and>
    (\<exists>reason want from_arg. hw_out w' = hw_out w @ json_print (deny_json reason) \<and> want \<in> {''whoami'', ''read_messages''} \<and>
      coord_tool_call (hi_tool i) (hi_input i) want = Some from_arg)"
  using assms
proof (cases rule: deny_shape)
  case (2 a b w1 want from_arg)
  then show ?thesis using deny_as_child_out [of link i sc a b w1] by (simp only: fst_conv snd_conv) blast
qed blast

lemma record_tool_start_out:
  "hw_out (record_tool_start link v i sc w) = hw_out w \<or> \<not> no_help link \<and>
   (\<exists>ctx. hw_out (record_tool_start link v i sc w) = hw_out w @ json_print (context_json (hi_event i) ctx))"
  using no_help_ok [of link]
  by (auto simp: record_tool_start_def Let_def dest!: round_trip_out split: prod.splits option.splits)

lemma pre_tool_use_out:
  assumes "event_of i = ''PreToolUse''"
  shows "prints (\<lambda>j. printable i j \<and> \<not> no_help link) w (pre_tool_use link v i sc w)"
proof (cases "hi_agent i = []")
  case True
  then show ?thesis using record_tool_start_out [of link v i sc w]
    by (auto simp: pre_tool_use_def intro: prints_same prints_doc)
next
  case False
  obtain w1 d where dn: "deny_subagent_identity link i sc w = (w1, d)" by (cases "deny_subagent_identity link i sc w")
  show ?thesis
  proof (cases d)
    case True
    then obtain reason where "hw_out w1 = hw_out w @ json_print (deny_json reason)" "printable i (deny_json reason)" "\<not> no_help link"
      using False assms deny_out [OF dn] by (auto simp: printable_def)
    then show ?thesis using True False by (auto simp: pre_tool_use_def dn intro: prints_doc)
  next
    case fall: False
    then show ?thesis using False deny_out [OF dn] record_tool_start_out [of link v i sc w1]
      by (auto simp: pre_tool_use_def dn intro: prints_same prints_doc)
  qed
qed

lemma notify_compact_out: "hw_out (notify_compact link v ev i sc w) = hw_out w"
  by (simp add: notify_compact_def Let_def)

lemma event_answer_out: "prints (printable i) w (event_answer v (event_of i) i sc r w)"
  unfolding event_answer_def Let_def
  by (intro prints_if prints_dir_out prints_on_dir prints_out prints_id context_printable block_printable)

lemma report_event_out:
  "prints (\<lambda>j. printable i j \<and> \<not> no_help link) w (report_event link v (event_of i) i sc w)"
proof (cases "event_request v (event_of i) i sc")
  case None
  then show ?thesis by (simp add: report_event_def prints_def)
next
  case (Some q)
  obtain w' r where rt: "round_trip link q (event_upkeep v (event_of i) i sc w) = (w', r)"
    by (cases "round_trip link q (event_upkeep v (event_of i) i sc w)")
  show ?thesis
  proof (cases r)
    case None
    then show ?thesis using round_trip_out [OF rt] by (simp add: report_event_def Some rt prints_def)
  next
    case (Some x)
    have same: "hw_out w' = hw_out w" using round_trip_out [OF rt] by simp
    have helped: "\<not> no_help link" if "rs_ok x"
      using that round_trip_out [OF rt] Some unfolding no_help_def by metis
    have run: "report_event link v (event_of i) i sc w = (if rs_ok x then event_answer v (event_of i) i sc x w' else w')"
      using rt [unfolded Some] \<open>event_request v (event_of i) i sc = Some q\<close> by (simp add: report_event_def)
    show ?thesis unfolding run
      using same helped event_answer_out [of i w' v sc x] by (auto simp: prints_def)
  qed
qed

lemma hook_event_out: "prints (\<lambda>j. printable i j \<and> \<not> no_help link) w (hook_event link v i w)"
  using pre_tool_use_out [of i] report_event_out [of i]
  by (auto simp: hook_event_def Let_def event_of_def) (simp_all add: prints_def notify_compact_out)

text \<open>
  C12. A hook never stands in the way of its host agent. One invocation prints at most one document: a line of
  context; a block, at the end of a turn only; or a refusal, for a subagent's own call of the coordinator's
  \<open>whoami\<close> or \<open>read_messages\<close> only. And it prints nothing at all, whatever it reads and whatever the event,
  if the daemon cannot be reached or refuses what it is asked.
\<close>

theorem hooks_fail_open:
  "hw_out (hook_run link v stdin w) = hw_out w \<or>
   (\<exists>t i j. stdin = Some t \<and> parse_hook_input (take input_limit t) = Some i \<and> printable i j \<and> \<not> no_help link \<and>
     hw_out (hook_run link v stdin w) = hw_out w @ json_print j)"
proof (cases "Option.bind stdin (\<lambda>t. parse_hook_input (take input_limit t))")
  case None
  then show ?thesis by (simp add: hook_run_def)
next
  case (Some i)
  then obtain t where "stdin = Some t" "parse_hook_input (take input_limit t) = Some i" by (cases stdin) auto
  then show ?thesis using hook_event_out [of i link w v] by (auto simp: hook_run_def prints_def)
qed

section \<open>What is reported of a tool call\<close>

lemma normal_path_abs: "is_abs cwd \<Longrightarrow> is_abs (normal_path cwd p)"
  by (auto simp: normal_path_def intro: join_path_abs)

lemma normal_path_again: "is_abs (normal_path cwd p) \<Longrightarrow> normal_path cwd (normal_path cwd p) = normal_path cwd p"
  by (auto simp: normal_path_def)

lemma normal_path_clean: "is_abs cwd \<Longrightarrow> clean (normal_path cwd p) = normal_path cwd p"
  by (simp add: normal_path_def)

lemma items_slice_of [simp]: "items (slice_of xs) = xs"
  by (simp add: slice_of_def items_def)

lemma normal_touched_abs:
  "is_abs cwd \<Longrightarrow> normal_touched cwd t = (map (normal_path cwd) (touched_files t), map (normal_path cwd) (touched_writes t))"
  by (cases t) (simp_all add: normal_touched_def touched_files_def touched_writes_def Let_def normal_path_abs normal_path_again)

text \<open>
  C0. The files a hook reports are addressed the way peers compare them. For a tool call in an absolute directory
  the request lists the files the call touches and writes, each as an absolute path in its cleaned form, in
  spite of the slice a patch uses for both being rewritten twice; and nothing is written that is not touched.
\<close>

theorem reported_paths_are_absolute:
  assumes "is_abs (hi_cwd i)"
  shows "items (q_files (tool_request i q)) = map (normal_path (hi_cwd i)) (touched_files (snd (infer (hi_tool i) (hi_input i)))) \<and>
    items (q_writes (tool_request i q)) = map (normal_path (hi_cwd i)) (touched_writes (snd (infer (hi_tool i) (hi_input i)))) \<and>
    set (items (q_writes (tool_request i q))) \<subseteq> set (items (q_files (tool_request i q))) \<and>
    list_all (\<lambda>p. is_abs p \<and> clean p = p) (items (q_files (tool_request i q)))"
proof -
  obtain act t where inf: "infer (hi_tool i) (hi_input i) = (act, t)" by (cases "infer (hi_tool i) (hi_input i)")
  then have "set (touched_writes t) \<subseteq> set (touched_files t)" using infer_writes_files [of "hi_tool i" "hi_input i"] by simp
  then show ?thesis
    using assms by (auto simp: tool_request_def inf normal_touched_abs list_all_iff normal_path_abs normal_path_clean)
qed

definition edit_input :: hook_input where
  "edit_input = \<lparr>hi_event = ''PostToolUse'', hi_session = ''s'', hi_cwd = ''/w'', hi_tool = ''Edit'',
     hi_input = [(''file_path'', JStr ''../a'')], hi_response = None, hi_agent = [], hi_agent_type = []\<rparr>"

theorem reported_paths_are_absolute_witness:
  "items (q_files (tool_request edit_input zero_request)) = [''/a''] \<and>
   list_all (\<lambda>p. is_abs p \<and> clean p = p) (items (q_files (tool_request edit_input zero_request)))"
proof -
  have "is_abs (hi_cwd edit_input)" by code_simp
  note c = reported_paths_are_absolute [OF this, of zero_request]
  have "map (normal_path (hi_cwd edit_input)) (touched_files (snd (infer (hi_tool edit_input) (hi_input edit_input)))) = [''/a'']"
    by code_simp
  with c [THEN conjunct1] have "items (q_files (tool_request edit_input zero_request)) = [''/a'']" by (rule trans)
  with c [THEN conjunct2, THEN conjunct2, THEN conjunct2] show ?thesis by (intro conjI)
qed

text \<open>In a relative directory the second rewriting shows.\<close>

lemma patch_paths_doubled: "normal_touched ''w'' (Shared [''a'']) = ([''w/w/a''], [''w/w/a''])"
  by code_simp

section \<open>The end of a subagent\<close>

text \<open>
  The daemon behind the unix socket, as it answers the line of a request.
\<close>

definition local_link :: "string \<Rightarrow> time \<Rightarrow> store link" where
  "local_link suf now q s = (let (s', r) = dispatch suf now ((on_wire q)\<lparr>q_kind := []\<rparr>) s in (s', Some r))"

lemma on_wire_simps [simp]:
  "q_op (on_wire q) = q_op q" "q_agent (on_wire q) = q_agent q" "q_session (on_wire q) = q_session q"
  "q_scope (on_wire q) = q_scope q" "q_origin (on_wire q) = []"
  by (simp_all add: on_wire_def)

lemma child_session_other: "child_session sess agent \<noteq> sess"
  by (auto simp: child_session_def)

lemma deregister_child:
  assumes "q_op q = ''deregister''" and "q_agent q \<noteq> []"
  shows "fst (local_link suf now q s) = s \<or>
    fst (local_link suf now q s) = set_status (q_scope q) (child_session (q_session q) (q_agent q)) Gone now s"
  using assms by (auto simp: local_link_def dispatch_def retarget_def bind_actor_def from_ops_def heartbeat_def task_report_def
      send_ops_def serve_def acting_session_def child_session_def child_ops_def split: prod.splits)

lemma row_at_set_status:
  assumes "sess' \<noteq> sess \<or> sc' \<noteq> sc"
  shows "row_at sc' sess' (set_status sc sess st now s) = row_at sc' sess' s"
proof -
  let ?f = "\<lambda>r. r\<lparr>ar_status := st, ar_seen := unix now\<rparr>"
  have "List.find (at_session sc' sess') (update_where (at_session sc sess) ?f rs) = List.find (at_session sc' sess') rs" for rs
    using assms by (induction rs) (auto simp: at_session_def)
  then show ?thesis by (simp add: row_at_def set_status_def)
qed

text \<open>
  C14. The end of a subagent is the end of that subagent only. When a host agent reports \<open>SubagentStop\<close>, the
  daemon behind the hook keeps every other agent's row as it was, in this workspace and in any other, and
  the subagent's session is not the session of the parent that reports it.
\<close>

theorem subagent_stop_spares_parent:
  assumes "parse_hook_input (take input_limit t) = Some i" and "event_of i = ''SubagentStop''"
  shows "(\<forall>sc sess. row_at sc sess (hw_daemon (hook_run (local_link suf now) v (Some t) w)) = row_at sc sess (hw_daemon w)
      \<or> sc = resolve_scope v (hi_cwd i) \<and> sess = child_session (hi_session i) (hi_agent i)) \<and>
    hi_session i \<noteq> child_session (hi_session i) (hi_agent i)"
proof -
  let ?sc = "resolve_scope v (hi_cwd i)" and ?w' = "hook_run (local_link suf now) v (Some t) w"
  have run: "?w' = (if hi_session i = [] then w else report_event (local_link suf now) v ''SubagentStop'' i ?sc w)"
    using assms by (simp add: hook_run_def hook_event_def event_of_def)
  let ?q = "(base_request v i ?sc)\<lparr>q_op := ''deregister'', q_agent := hi_agent i\<rparr>"
  have "hw_daemon ?w' = hw_daemon w \<or> hw_daemon ?w' = fst (local_link suf now ?q (hw_daemon w)) \<and> hi_agent i \<noteq> []"
    unfolding run
    by (auto simp: report_event_def event_request_def event_upkeep_def event_answer_def Let_def round_trip_def
        split: prod.splits option.splits)
  then have "hw_daemon ?w' = hw_daemon w \<or>
    hw_daemon ?w' = set_status ?sc (child_session (hi_session i) (hi_agent i)) Gone now (hw_daemon w)"
    using deregister_child [of ?q suf now "hw_daemon w"] by (auto simp: base_request_def zero_request_def)
  then show ?thesis
    using row_at_set_status child_session_other [of "hi_session i" "hi_agent i"] by metis
qed

definition stop_json :: json where
  "stop_json = JObj [(''hook_event_name'', JStr ''SubagentStop''), (''session_id'', JStr ''s''), (''agent_id'', JStr ''a'')]"

lemma parse_stop: "\<exists>i. parse_hook_input (take input_limit (json_print stop_json)) = Some i \<and> event_of i = ''SubagentStop''
    \<and> hi_session i = ''s'' \<and> hi_agent i = ''a'' \<and> hi_cwd i = []"
proof -
  have u: "valid_utf8 ''hook_event_name''" "valid_utf8 ''session_id''" "valid_utf8 ''agent_id''" "valid_utf8 ''SubagentStop''"
    "valid_utf8 ''s''" "valid_utf8 ''a''"
    by (simp_all add: valid_utf8_ascii is_ascii_def byte_def)
  have "json_unmarshal (json_print stop_json) = Some stop_json"
    by (rule unmarshal_printed) (simp_all add: stop_json_def u max_nesting_def)
  moreover have "length (json_print stop_json) \<le> 100" by code_simp
  then have "take input_limit (json_print stop_json) = json_print stop_json" by (simp add: input_limit_def)
  moreover have "canonical_event ''SubagentStop'' = ''SubagentStop''" by code_simp
  ultimately show ?thesis
    by (simp add: parse_hook_input_def stop_json_def read_envelope_def pick_text_def arg_at_def dec_text_def event_of_def Let_def)
qed

definition stop_env :: hook_env where
  "stop_env = \<lparr>he_kind = [], he_scope = ''ws'', he_resolve = id, he_wait = [], he_pids = [], he_bind_dir = False, he_disk = DiskOk, he_now = 0\<rparr>"

theorem subagent_stop_spares_parent_witness:
  "row_at ''ws'' ''s'' (hw_daemon (hook_run (local_link ''x'' 0) stop_env (Some (json_print stop_json))
      \<lparr>hw_daemon = empty_store, hw_dir = [], hw_out = []\<rparr>)) = row_at ''ws'' ''s'' empty_store"
proof -
  obtain i where i: "parse_hook_input (take input_limit (json_print stop_json)) = Some i" "event_of i = ''SubagentStop''"
    "hi_session i = ''s''" "hi_agent i = ''a''"
    using parse_stop by blast
  have "''s'' \<noteq> child_session ''s'' ''a''" by (simp add: child_session_def)
  then show ?thesis
    using subagent_stop_spares_parent [OF i(1,2), of "''x''" 0 stop_env "\<lparr>hw_daemon = empty_store, hw_dir = [], hw_out = []\<rparr>"] i(3,4)
    by fastforce
qed

end
