(* ===== verification/Mcp.thy ===== *)
theory Mcp
  imports Binds Frames
begin

text \<open>
  \<open>internal/mcpserv\<close>: the MCP server a host agent starts beside itself. One JSON-RPC message per line;
  a tool call becomes requests to the daemon in the name of the one agent this connection stands for.
  The daemon is a function from a request and its state to its state and a response, or the error of
  the connection; the clock, the process tree and the bind directory are arguments.
\<close>

section \<open>The connection\<close>

record mcp_server =
  sv_scope :: string
  sv_session :: string
  sv_source :: string
  sv_name :: string
  sv_bound :: bool

record mcp_env =
  me_kind :: string
  me_alive :: "int \<Rightarrow> bool"
  me_pids :: "int list"
  me_bind_dir :: bool
  me_disk :: bind_disk
  me_now :: time
  me_wait :: string
  me_wild :: "float64 \<Rightarrow> int"

record 'd mcp_world =
  mw_server :: mcp_server
  mw_daemon :: 'd
  mw_dir :: "bind_file list"

type_synonym 'd mcp_link = "request \<Rightarrow> 'd \<Rightarrow> 'd \<times> (string + response)"

definition ask :: "'d mcp_link \<Rightarrow> request \<Rightarrow> 'd mcp_world \<Rightarrow> 'd mcp_world \<times> (string + response)" where
  "ask link q w = (let (d, r) = link q (mw_daemon w) in (w\<lparr>mw_daemon := d\<rparr>, r))"

text \<open>\<open>newSessionID\<close>: the sixteen random bytes are an argument.\<close>

definition minted_session :: "string \<Rightarrow> string" where
  "minted_session bytes = ''mcp-'' @ concat (map (\<lambda>c. [hex_digit (byte c div 16), hex_digit (byte c mod 16)]) bytes)"

definition new_server :: "string \<Rightarrow> string \<Rightarrow> string \<Rightarrow> mcp_server" where
  "new_server ac_scope resolved session =
     \<lparr>sv_scope = (let t = trim_space ac_scope in if t = [] then resolved else t), sv_session = session,
      sv_source = ''mcp'', sv_name = [], sv_bound = False\<rparr>"

section \<open>Results\<close>

record tool_result =
  tr_text :: string
  tr_error :: bool

definition text_result :: "string \<Rightarrow> tool_result" where "text_result t = \<lparr>tr_text = t, tr_error = False\<rparr>"
definition err_result :: "string \<Rightarrow> tool_result" where "err_result t = \<lparr>tr_text = t, tr_error = True\<rparr>"

definition result_doc :: "tool_result \<Rightarrow> json" where
  "result_doc r = JObj ((''content'', JArr [JObj [(''text'', JStr (tr_text r)), (''type'', JStr ''text'')]])
     # (if tr_error r then [(''isError'', JBool True)] else []))"

definition unreachable :: "string \<Rightarrow> string" where
  "unreachable e = ''coordinator daemon unreachable: '' @ e"

text \<open>\<open>json.MarshalIndent\<close> with an indentation of two blanks.\<close>

definition new_line :: "nat \<Rightarrow> string" where
  "new_line n = chr 10 # replicate (2 * n) (CHR '' '')"

fun indent_json :: "nat \<Rightarrow> json \<Rightarrow> string" where
  "indent_json n (JArr js) = (if js = [] then ''[]''
     else ''['' @ new_line (n + 1) @ join ('','' @ new_line (n + 1)) (map (indent_json (n + 1)) js) @ new_line n @ '']'')"
| "indent_json n (JObj kvs) = (if kvs = [] then ''{}''
     else ''{'' @ new_line (n + 1) @ join ('','' @ new_line (n + 1)) (map (\<lambda>(k, v). json_string k @ '': '' @ indent_json (n + 1) v) kvs)
       @ new_line n @ ''}'')"
| "indent_json n j = json_print j"

section \<open>Who the connection stands for\<close>

definition session_request :: "string \<Rightarrow> mcp_server \<Rightarrow> request" where
  "session_request op s = zero_request\<lparr>q_op := op, q_scope := sv_scope s, q_session := sv_session s\<rparr>"

text \<open>A bind for this workspace and process tree is adopted; a name minted before is retired.\<close>

definition adopt_bind :: "'d mcp_link \<Rightarrow> mcp_env \<Rightarrow> 'd mcp_world \<Rightarrow> 'd mcp_world" where
  "adopt_bind link v w =
     (let s = mw_server w in
      if sv_bound s \<or> \<not> me_bind_dir v then w
      else (case match_bind (me_alive v) (me_now v) (sv_scope s) (me_pids v) (mw_dir w) of
          None \<Rightarrow> w
        | Some b \<Rightarrow>
            (let w1 = (if sv_name s \<noteq> [] then fst (ask link (session_request ''deregister'' s) w) else w) in
             w1\<lparr>mw_server := s\<lparr>sv_session := bd_session b, sv_name := [], sv_bound := True\<rparr>\<rparr>)))"

definition bind_connection :: "mcp_env \<Rightarrow> string \<Rightarrow> 'd mcp_world \<Rightarrow> 'd mcp_world" where
  "bind_connection v name w =
     (let s = mw_server w; w1 = w\<lparr>mw_server := s\<lparr>sv_bound := True\<rparr>\<rparr> in
      if \<not> me_bind_dir v then w1
      else w1\<lparr>mw_dir := write_bind (me_now v) (me_disk v)
        \<lparr>bd_session = sv_session s, bd_scope = sv_scope s, bd_name = name,
         bd_pids = (if me_pids v = [] then None else Some (me_pids v)), bd_ts = unix (me_now v)\<rparr> (mw_dir w)\<rparr>)"

definition register_request :: "mcp_env \<Rightarrow> bool \<Rightarrow> mcp_server \<Rightarrow> request" where
  "register_request v explicit s = (session_request ''register'' s)\<lparr>q_source := sv_source s, q_kind := trim_space (me_kind v),
     q_no_hook := (\<not> sv_bound s \<and> \<not> explicit)\<rparr>"

definition ensure_registered :: "'d mcp_link \<Rightarrow> mcp_env \<Rightarrow> bool \<Rightarrow> 'd mcp_world \<Rightarrow> 'd mcp_world \<times> (string + string)" where
  "ensure_registered link v explicit w =
     (let w1 = adopt_bind link v w; s = mw_server w1 in
      if sv_name s \<noteq> [] \<and> \<not> explicit then (w1, Inr (sv_name s))
      else (case ask link (register_request v explicit s) w1 of
          (w2, Inl e) \<Rightarrow> (w2, Inl (unreachable e))
        | (w2, Inr r) \<Rightarrow>
            if \<not> rs_ok r then (w2, Inl (rs_error r))
            else (let w3 = w2\<lparr>mw_server := s\<lparr>sv_name := rs_name r\<rparr>\<rparr> in
              (if explicit then bind_connection v (rs_name r) w3 else w3, Inr (rs_name r)))))"

definition identity_ops :: "op list" where
  "identity_ops = [OpSend, OpRead, OpPeek, OpBroadcast, OpClaim, OpRelease, OpHistory, OpSendWorkspace,
     OpRequestEyes, OpCancelEyes]"

definition bind_identity :: "'d mcp_link \<Rightarrow> mcp_env \<Rightarrow> request \<Rightarrow> 'd mcp_world \<Rightarrow> 'd mcp_world \<times> (string + request)" where
  "bind_identity link v q w =
     (if op_of (q_op q) \<notin> set identity_ops then (w, Inr q)
      else (case ensure_registered link v False w of
          (w1, Inl e) \<Rightarrow> (w1, Inl e)
        | (w1, Inr name) \<Rightarrow>
            (let q1 = q\<lparr>q_session := sv_session (mw_server w1)\<rparr> in
             if q_from q = [] then (w1, Inr (q1\<lparr>q_from := name\<rparr>))
             else if q_from q \<noteq> name \<and> \<not> has_prefix (name @ ''/'') (q_from q) then
               (w1, Inl (''from must be this session ('' @ name @ '') or a child identity''))
             else (w1, Inr q1))))"

definition deregister_on_exit :: "'d mcp_link \<Rightarrow> 'd mcp_world \<Rightarrow> 'd mcp_world" where
  "deregister_on_exit link w =
     (let s = mw_server w in
      if sv_name s = [] \<or> sv_bound s then w else fst (ask link (session_request ''deregister'' s) w))"

section \<open>Arguments of a tool call\<close>

definition is_agent_id :: "string \<Rightarrow> bool" where
  "is_agent_id t \<longleftrightarrow> length t = 12 \<and> list_all is_lower_hex t"

definition agent_ref_from_args :: "members \<Rightarrow> agent_ref option" where
  "agent_ref_from_args m =
     (let r0 = (case object_arg m ''target'' of
          None \<Rightarrow> empty_ref
        | Some raw \<Rightarrow> \<lparr>ref_name = text_arg raw ''name'', ref_id = text_arg raw ''agent_id'', ref_scope = text_arg raw ''scope''\<rparr>);
      r1 = (if text_arg m ''workspace'' \<noteq> [] \<and> ref_scope r0 = [] then r0\<lparr>ref_scope := text_arg m ''workspace''\<rparr> else r0);
      r2 = (if text_arg m ''agent_id'' \<noteq> [] \<and> ref_id r1 = [] then r1\<lparr>ref_id := text_arg m ''agent_id''\<rparr> else r1);
      t = text_arg m ''to'';
      r3 = (if t \<noteq> [] \<and> ref_id r2 = [] \<and> ref_name r2 = [] then
          (if is_agent_id t then r2\<lparr>ref_id := t\<rparr> else r2\<lparr>ref_name := t\<rparr>) else r2) in
      if r3 = empty_ref then None else Some r3)"

definition min_eyes_deadline :: int where "min_eyes_deadline = 300"
definition max_eyes_deadline :: int where "max_eyes_deadline = 1800"

text \<open>\<open>x == float64(i)\<close> for a number and the integer it was converted to.\<close>

definition float_equals :: "float64 \<Rightarrow> int \<Rightarrow> bool" where
  "float_equals x i \<longleftrightarrow> float_is_whole x \<and>
     (case float_of_literal (dec_int i) of None \<Rightarrow> False | Some y \<Rightarrow> float_trunc y = float_trunc x)"

definition parse_timeout_arg :: "(float64 \<Rightarrow> int) \<Rightarrow> members \<Rightarrow> string + int option" where
  "parse_timeout_arg wild m = (case arg_at m ''timeout'' of
     None \<Rightarrow> Inr None
   | Some JNull \<Rightarrow> Inr None
   | _ \<Rightarrow>
       (case number_arg m ''timeout'' of
          None \<Rightarrow> Inl ''timeout must be an integer number of seconds''
        | Some x \<Rightarrow>
            (let d = float_to_int64 wild x in
             if \<not> float_equals x d then Inl ''timeout must be an integer number of seconds''
             else if d < min_eyes_deadline \<or> max_eyes_deadline < d then Inl ''timeout must be between 300 and 1800 seconds''
             else Inr (Some d))))"

definition int_arg :: "(float64 \<Rightarrow> int) \<Rightarrow> members \<Rightarrow> string \<Rightarrow> int" where
  "int_arg wild m k = (case number_arg m k of None \<Rightarrow> 0 | Some x \<Rightarrow> float_to_int64 wild x)"

section \<open>From a call to a request\<close>

definition eyes_call :: "(float64 \<Rightarrow> int) \<Rightarrow> members \<Rightarrow> request \<Rightarrow> string + request" where
  "eyes_call wild a q =
     (case parse_timeout_arg wild a of
        Inl e \<Rightarrow> Inl e
      | Inr d \<Rightarrow>
          (let rt = text_arg a ''runtime'' in
           if rt \<noteq> [] \<and> rt \<noteq> ''claude'' \<and> rt \<noteq> ''codex'' \<and> rt \<noteq> ''grok'' then Inl ''runtime must be claude, codex, or grok''
           else Inr (q\<lparr>q_op := ''request_eyes'', q_from := text_arg a ''from'', q_brief := text_arg a ''brief'',
             q_runtime := rt, q_deadline := (case d of None \<Rightarrow> 0 | Some n \<Rightarrow> n)\<rparr>)))"

definition call_request :: "(float64 \<Rightarrow> int) \<Rightarrow> string \<Rightarrow> string \<Rightarrow> members \<Rightarrow> string + request" where
  "call_request wild sc tool a =
     (let q = zero_request\<lparr>q_scope := sc\<rparr>; sender = text_arg a ''from'' in
      if tool = ''status_board'' then Inr (q\<lparr>q_op := ''board'', q_gone := bool_arg a ''include_gone''\<rparr>)
      else if tool = ''list_agents'' then Inr (q\<lparr>q_op := ''agents''\<rparr>)
      else if tool = ''send_message'' then
        Inr (q\<lparr>q_op := ''send'', q_from := sender, q_to := text_arg a ''to'', q_body := text_arg a ''body''\<rparr>)
      else if tool = ''read_messages'' then Inr (q\<lparr>q_op := ''read'', q_from := sender\<rparr>)
      else if tool = ''peek_messages'' then Inr (q\<lparr>q_op := ''peek'', q_from := sender, q_after := int_arg wild a ''after_id''\<rparr>)
      else if tool = ''broadcast'' then Inr (q\<lparr>q_op := ''broadcast'', q_from := sender, q_body := text_arg a ''body''\<rparr>)
      else if tool = ''claim'' then
        Inr (q\<lparr>q_op := ''claim'', q_from := sender, q_path := text_arg a ''path'', q_note := text_arg a ''note''\<rparr>)
      else if tool = ''release'' then Inr (q\<lparr>q_op := ''release'', q_from := sender, q_path := text_arg a ''path''\<rparr>)
      else if tool = ''list_claims'' then Inr (q\<lparr>q_op := ''claims''\<rparr>)
      else if tool = ''message_history'' then
        Inr (q\<lparr>q_op := ''history'', q_from := sender, q_peer := text_arg a ''peer'', q_limit := int_arg wild a ''limit''\<rparr>)
      else if tool = ''list_workspaces'' then Inr (q\<lparr>q_op := ''list_workspaces''\<rparr>)
      else if tool = ''list_eyes'' then Inr (q\<lparr>q_op := ''list_eyes''\<rparr>)
      else if tool = ''list_eyes_tasks'' then Inr (q\<lparr>q_op := ''list_eyes_tasks'', q_mine := bool_arg a ''mine''\<rparr>)
      else if tool = ''relay'' then
        Inr (q\<lparr>q_op := ''send_workspace'', q_from := sender, q_body := text_arg a ''body'', q_target := agent_ref_from_args a\<rparr>)
      else if tool = ''request_eyes'' then eyes_call wild a q
      else if tool = ''cancel_eyes'' then Inr (q\<lparr>q_op := ''cancel_eyes'', q_from := sender, q_task := text_arg a ''task_id''\<rparr>)
      else Inl (''unknown tool '' @ tool))"

section \<open>From a response to a result\<close>

definition listing :: "('a \<Rightarrow> json) \<Rightarrow> 'a list \<Rightarrow> string \<Rightarrow> string" where
  "listing f xs none = (if xs = [] then none else indent_json 0 (JArr (map f xs)))"

definition peek_text :: "response \<Rightarrow> string" where
  "peek_text r = indent_json 0 (JObj [(''high_water'', json_int (int (rs_high r))),
     (''ids'', JArr (map (\<lambda>i. json_int (int i)) (rs_peek_ids r))), (''senders'', JArr (map JStr (rs_peek_froms r))),
     (''unread'', json_int (int (rs_unread r)))])"

definition eyes_text :: "string \<Rightarrow> request \<Rightarrow> response \<Rightarrow> tool_result" where
  "eyes_text wait q r =
     (if rs_task r = [] then err_result ''request_eyes: daemon returned no task_id''
      else text_result (''task_id='' @ rs_task r @
        (case rs_launcher r of None \<Rightarrow> [] | Some l \<Rightarrow> '' launcher='' @ ref_name l) @
        [chr 10] @ ''arm: '' @ wait @ '' wait '' @ [CHR 0x27] @ q_from q @ [CHR 0x27]))"

definition call_result :: "string \<Rightarrow> string \<Rightarrow> members \<Rightarrow> request \<Rightarrow> response \<Rightarrow> tool_result" where
  "call_result wait tool a q r =
     (let path = trim_space (text_arg a ''path'') in
      if tool = ''status_board'' \<or> tool = ''list_agents'' then
        text_result (listing agent_json (rs_agents r) ''no agents in this workspace'')
      else if tool = ''read_messages'' then text_result (listing message_json (rs_messages r) ''no unread messages'')
      else if tool = ''peek_messages'' then text_result (peek_text r)
      else if tool = ''claim'' then
        text_result (''claimed '' @ path @ (if rs_notices r = [] then [] else '' ('' @ join ''; '' (rs_notices r) @ '')''))
      else if tool = ''release'' then text_result (''released '' @ path)
      else if tool = ''list_claims'' then text_result (listing claim_json (rs_claims r) ''no claims in this workspace'')
      else if tool = ''message_history'' then text_result (listing history_json (rs_history r) ''no message history'')
      else if tool = ''list_workspaces'' then text_result (listing workspace_json (rs_workspaces r) ''no workspaces'')
      else if tool = ''list_eyes'' then text_result (listing agent_json (rs_agents r) ''no eyes agents'')
      else if tool = ''list_eyes_tasks'' then
        text_result (listing task_info_json (rs_tasks r) ''no eyes tasks in this workspace'')
      else if tool = ''request_eyes'' then eyes_text wait q r
      else if tool = ''cancel_eyes'' then text_result (''cancelled '' @ q_task q)
      else text_result ''ok'')"

section \<open>Tool calls\<close>

definition whoami :: "'d mcp_link \<Rightarrow> mcp_env \<Rightarrow> 'd mcp_world \<Rightarrow> 'd mcp_world \<times> tool_result" where
  "whoami link v w = (case ensure_registered link v False w of
     (w1, Inl e) \<Rightarrow> (w1, err_result e)
   | (w1, Inr name) \<Rightarrow>
       (let s = mw_server w1 in
        case ask link (session_request ''whoami'' s) w1 of
          (w2, Inl e) \<Rightarrow> (w2, err_result (unreachable e))
        | (w2, Inr r) \<Rightarrow>
            if \<not> rs_ok r then (w2, err_result (rs_error r))
            else (w2, text_result (indent_json 0 (JObj ([(''agent_id'', JStr (rs_agent r)), (''name'', JStr (rs_name r))]
              @ opt_text ''parent'' (rs_parent r)
              @ [(''scope'', JStr (sv_scope s)), (''source'', JStr (rs_source r))]))))))"

definition call_daemon :: "'d mcp_link \<Rightarrow> mcp_env \<Rightarrow> string \<Rightarrow> members \<Rightarrow> request \<Rightarrow> 'd mcp_world \<Rightarrow> 'd mcp_world \<times> tool_result" where
  "call_daemon link v tool a q0 w = (case bind_identity link v q0 w of
     (w1, Inl e) \<Rightarrow> (w1, err_result e)
   | (w1, Inr q) \<Rightarrow> (case ask link q w1 of
       (w2, Inl e) \<Rightarrow> (w2, err_result (unreachable e))
     | (w2, Inr r) \<Rightarrow>
         (w2, if rs_ok r then call_result (me_wait v) tool a q r else err_result (rs_error r))))"

definition call_tool :: "'d mcp_link \<Rightarrow> mcp_env \<Rightarrow> string \<Rightarrow> members \<Rightarrow> 'd mcp_world \<Rightarrow> 'd mcp_world \<times> tool_result" where
  "call_tool link v tool a w =
     (if tool = ''register_agent'' then
        (case ensure_registered link v True w of
           (w1, Inl e) \<Rightarrow> (w1, err_result e)
         | (w1, Inr name) \<Rightarrow> (w1, text_result (''registered as '' @ name)))
      else if tool = ''whoami'' then whoami link v w
      else (case call_request (me_wild v) (sv_scope (mw_server w)) tool a of
          Inl e \<Rightarrow> (w, err_result e)
        | Inr q \<Rightarrow> call_daemon link v tool a q w))"

section \<open>The protocol\<close>

definition supported_versions :: "string list" where
  "supported_versions = [''2024-11-05'', ''2025-03-26'', ''2025-06-18'', ''2025-11-25'']"

definition latest_version :: string where "latest_version = ''2025-11-25''"

definition negotiate_version :: "string \<Rightarrow> string" where
  "negotiate_version requested = (if requested \<in> set supported_versions then requested else latest_version)"

text \<open>A message; its id and parameters are kept as they came, and an absent id makes it a notification.\<close>

record rpc_req =
  rq_version :: string
  rq_id :: "json option"
  rq_method :: string
  rq_params :: "json option"

definition rpc_fields :: "(string \<times> rpc_req decoder) list" where
  "rpc_fields = [(''jsonrpc'', put_text (\<lambda>t. rq_version_update (\<lambda>_. t))),
     (''id'', \<lambda>j a. (a\<lparr>rq_id := Some j\<rparr>, True)),
     (''method'', put_text (\<lambda>t. rq_method_update (\<lambda>_. t))),
     (''params'', \<lambda>j a. (a\<lparr>rq_params := Some j\<rparr>, True))]"

definition no_rpc :: rpc_req where
  "no_rpc = \<lparr>rq_version = [], rq_id = None, rq_method = [], rq_params = None\<rparr>"

text \<open>The two parts of \<open>initialize\<close> that are read; errors of its parameters are ignored.\<close>

definition init_fields :: "(string \<times> (string \<times> string) decoder) list" where
  "init_fields = [(''protocolVersion'', put_text (\<lambda>t p. (t, snd p))),
     (''clientInfo'', dec_struct False [(''name'', put_text (\<lambda>t p. (fst p, t)))])]"

definition init_params :: "json option \<Rightarrow> string \<times> string" where
  "init_params p = (case p of None \<Rightarrow> ([], []) | Some j \<Rightarrow> fst (dec_struct False init_fields j ([], [])))"

definition call_fields :: "(string \<times> (string \<times> members) decoder) list" where
  "call_fields = [(''name'', put_text (\<lambda>t p. (t, snd p))),
     (''arguments'', \<lambda>j p. (let r = dec_any_map j (snd p) in ((fst p, fst r), snd r)))]"

definition call_params :: "json option \<Rightarrow> (string \<times> members) option" where
  "call_params p = (case p of
     None \<Rightarrow> None
   | Some j \<Rightarrow> (let r = dec_struct False call_fields j ([], []) in if snd r then Some (fst r) else None))"

definition plain :: "string \<Rightarrow> json" where "plain ty = JObj [(''type'', JStr ty)]"

definition described :: "string \<Rightarrow> string \<Rightarrow> json" where
  "described ty text = JObj [(''description'', JStr text), (''type'', JStr ty)]"

definition tool :: "string \<Rightarrow> string \<Rightarrow> string list \<Rightarrow> (string \<times> json) list \<Rightarrow> json" where
  "tool name description required properties =
     JObj [(''description'', JStr description),
       (''inputSchema'', JObj ([(''properties'', JObj properties)]
         @ (if required = [] then [] else [(''required'', JArr (map JStr required))]) @ [(''type'', JStr ''object'')])),
       (''name'', JStr name)]"

definition tool_defs :: "json list" where
  "tool_defs =
    [tool ''register_agent''
       ''ONLY if no SessionStart-assigned name; call once, or again if identity was lost after a long idle. Registers this MCP session, binds it to this connection, and returns its assigned agent name.''
       []
       [],
     tool ''whoami''
       ''This connection's identity: name, agent_id, scope, source, and parent when running as a subagent.''
       []
       [],
     tool ''status_board''
       ''Full detail on every agent in THIS workspace: agent_id, name, presence, current task, task counts, latest activity and files. Hides gone agents by default (include_gone=true for all).''
       []
       [(''include_gone'', described ''boolean'' ''Also list agents whose presence has decayed to gone.'')],
     tool ''list_agents''
       ''Live peers (active/idle) in this workspace, for picking who to contact. Presence only; use status_board for detail.''
       []
       [],
     tool ''send_message''
       ''Send a direct message to one agent. Keep bodies short; for large content write a file and DM the path. 'to' accepts a name or agent_id; 'from' is optional for a bound identity.''
       [''to'', ''body'']
       [(''body'', plain ''string''),
        (''from'', plain ''string''),
        (''to'', plain ''string'')],
     tool ''read_messages''
       ''DESTRUCTIVE: returns and CLEARS your unread messages. Subagents: pass from='<your child name>' - never bare (a bare call drains the parent inbox). Use peek_messages to look without clearing.''
       []
       [(''from'', plain ''string'')],
     tool ''peek_messages''
       ''Non-destructive preview of unread mail: count, senders, message ids, high-water id. Clears nothing. Optional after_id limits to messages with id greater than it.''
       []
       [(''after_id'', described ''number'' ''Only count messages with id above this.''),
        (''from'', plain ''string'')],
     tool ''broadcast''
       ''One-shot message to agents registered NOW; late joiners miss it; not a chatroom. DM critical directives instead. 'from' is optional for a bound identity.''
       [''body'']
       [(''body'', plain ''string''),
        (''from'', plain ''string'')],
     tool ''claim''
       ''Advisory coordination ledger, NOT a lock: claim a path or label before editing shared/hub files so peers see ownership. Held by a live agent fails with holder and note; a gone holder's stale claim is taken over. Re-claim your own path to refresh the note.''
       [''path'']
       [(''from'', plain ''string''),
        (''note'', described ''string'' ''Why you hold it (shown to anyone who collides).''),
        (''path'', described ''string'' ''File path or free-form label to claim.'')],
     tool ''release''
       ''Release a claim you hold in the coordination ledger. Only the holder can release; releasing an unheld path is a no-op.''
       [''path'']
       [(''from'', plain ''string''),
        (''path'', plain ''string'')],
     tool ''list_claims''
       ''Every claim in this workspace's coordination ledger: path, holder name and agent_id, note, since.''
       []
       [],
     tool ''message_history''
       ''Non-destructive audit of your sent and received mail incl. who read what and when; answers 'who ate my mail'. Newest first. Optional peer filters to exchanges with that agent; limit defaults to 20 (max 100).''
       []
       [(''from'', plain ''string''),
        (''limit'', described ''number'' ''Max rows, default 20, capped at 100.''),
        (''peer'', described ''string'' ''Only exchanges with this agent (name or agent_id).'')],
     tool ''list_workspaces''
       ''Occupancy directory of every workspace with a live agent: scope, live/eyes/launcher counts.''
       []
       [],
     tool ''list_eyes''
       ''Live eyes and launcher agents across workspaces (kind, scope, platform, capabilities). Empty means no host broker is connected.''
       []
       [],
     tool ''list_eyes_tasks''
       ''Eyes tasks in this workspace, still-running first: state, elapsed_s and remaining_s against the deadline, plus turns, the name of the tool last used and heartbeat_age_s. overdue=true means the deadline passed with no completion or cancellation confirmed - whether it still runs is unknown. heartbeat_stale=true means no recent liveness report arrived - a reason to look, not proof the run failed. Pass mine=true for only your own tasks.''
       []
       [(''mine'', described ''boolean'' ''List only tasks you or your parent requested.'')],
     tool ''relay''
       ''Send a body to a workspace, optionally one agent. Prefer structured 'target' {scope, agent_id, name} (agent_id wins) so a reply_to stays unicast. Flat workspace/to/agent_id are compatibility aliases. Server stamps reply-to.''
       [''body'']
       [(''agent_id'', described ''string'' ''Destination agent_id (flat).''),
        (''body'', plain ''string''),
        (''from'', plain ''string''),
        (''target'', JObj [(''description'', JStr ''Structured address. agent_id wins over name.''), (''properties'', JObj [(''agent_id'', JObj [(''type'', JStr ''string'')]), (''name'', JObj [(''type'', JStr ''string'')]), (''scope'', JObj [(''type'', JStr ''string'')])]), (''type'', JStr ''object'')]),
        (''to'', described ''string'' ''Destination name or 12-hex agent_id (flat).''),
        (''workspace'', described ''string'' ''Destination scope id (flat).'')],
     tool ''request_eyes''
       ''Dispatch a brief to host eyes in this workspace; the report arrives as ordinary mail. Scope is this session. Optional runtime is claude, codex, or grok. timeout is seconds in 300..1800.''
       [''brief'']
       [(''brief'', plain ''string''),
        (''from'', plain ''string''),
        (''runtime'', JObj [(''enum'', JArr [JStr ''claude'', JStr ''codex'', JStr ''grok'']), (''type'', JStr ''string'')]),
        (''timeout'', JObj [(''description'', JStr ''Deadline in seconds.''), (''maximum'', JNum ''1800''), (''minimum'', JNum ''300''), (''type'', JStr ''integer'')])],
     tool ''cancel_eyes''
       ''Cancel an eyes task you requested. Only the stamped requester (or a child passing from=) can cancel.''
       [''task_id'']
       [(''from'', plain ''string''),
        (''task_id'', plain ''string'')]]"

definition instructions :: "string \<Rightarrow> string" where
  "instructions wait =
     ''Presence + messaging mesh for agents sharing this workspace. '' @
     ''Identity: if session-start context assigned a coordinator name ('you are <name>'), use it and do not call register_agent; otherwise call register_agent once. '' @
     ''If whoami or claim fail after a long idle, call register_agent again to rebind this connection. '' @
     ''Subagents share the parent connection and MUST pass from='<their child name>' on read_messages - a bare call drains the PARENT inbox. '' @
     ''Wake pattern while waiting on a peer: run `'' @
     wait @
     '' wait '<your name>' -timeout 570`; it prints `armed after_id=N` once its durable cursor is set and exits when a DM arrives; then call read_messages and re-arm (also after a kill or timeout - the cursor loses no mail) - never busy-poll. '' @
     ''Background it ONLY if your harness starts a new turn when a background task exits (Claude Code does; Codex background terminals do not - they yield and never call back); otherwise block on it in the foreground as the last action of your turn. '' @
     ''Keep DMs short: write long content (plans, surveys, inventories) to a file under <repo>/.ignore/coordination/ and DM a one-line pointer to the path. '' @
     ''Collab recipe: agree ONE writer per file up front; before editing a shared hub file, check status_board and take it in the claims ledger (claim/release/list_claims - advisory, not a lock). '' @
     ''message_history audits your sent/received mail without clearing anything.''"

definition initialize_result :: "string \<Rightarrow> string \<Rightarrow> json" where
  "initialize_result wait requested = JObj [(''capabilities'', JObj [(''tools'', JObj [])]),
     (''instructions'', JStr (instructions wait)), (''protocolVersion'', JStr (negotiate_version requested)),
     (''serverInfo'', JObj [(''name'', JStr ''agent-coordinator''), (''version'', JStr ''2.0.0'')])]"

definition rpc_error :: "int \<Rightarrow> string \<Rightarrow> json" where
  "rpc_error code text = JObj [(''code'', json_int code), (''message'', JStr text)]"

definition handle_rpc :: "'d mcp_link \<Rightarrow> mcp_env \<Rightarrow> rpc_req \<Rightarrow> 'd mcp_world \<Rightarrow> 'd mcp_world \<times> (json + json)" where
  "handle_rpc link v q w =
     (let m = rq_method q in
      if m = ''initialize'' then
        (let (version, client) = init_params (rq_params q) in
         (if client = [] then w else w\<lparr>mw_server := (mw_server w)\<lparr>sv_source := ''mcp:'' @ client\<rparr>\<rparr>,
          Inr (initialize_result (me_wait v) version)))
      else if m = ''ping'' then (w, Inr (JObj []))
      else if m = ''tools/list'' then (w, Inr (JObj [(''tools'', JArr tool_defs)]))
      else if m = ''tools/call'' then
        (case call_params (rq_params q) of
           None \<Rightarrow> (w, Inl (rpc_error (- 32602) ''bad params''))
         | Some (name, a) \<Rightarrow> (let (w', r) = call_tool link v name a w in (w', Inr (result_doc r))))
      else (w, Inl (rpc_error (- 32601) (''method not found: '' @ m))))"

text \<open>
  One line of input and the document it is answered with, if any. The id comes back as the value it was;
  how it was spelled is not modelled.
\<close>

definition parse_error :: json where
  "parse_error = JObj [(''error'', rpc_error (- 32700) ''parse error''), (''id'', JNull), (''jsonrpc'', JStr ''2.0'')]"

definition serve_line :: "'d mcp_link \<Rightarrow> mcp_env \<Rightarrow> string \<Rightarrow> 'd mcp_world \<Rightarrow> 'd mcp_world \<times> json list" where
  "serve_line link v line w =
     (let t = trim_space line in
      if t = [] then (w, [])
      else (case unmarshal_into (dec_struct False rpc_fields) no_rpc t of
          (q, False) \<Rightarrow> (w, [parse_error])
        | (q, True) \<Rightarrow> (case rq_id q of
            None \<Rightarrow> (w, [])
          | Some i \<Rightarrow> (case handle_rpc link v q w of
              (w', Inl e) \<Rightarrow> (w', [JObj [(''error'', e), (''id'', i), (''jsonrpc'', JStr ''2.0'')]])
            | (w', Inr r) \<Rightarrow> (w', [JObj [(''id'', i), (''jsonrpc'', JStr ''2.0''), (''result'', r)]])))))"

fun serve_lines :: "'d mcp_link \<Rightarrow> (mcp_env \<times> string) list \<Rightarrow> 'd mcp_world \<Rightarrow> 'd mcp_world \<times> json list" where
  "serve_lines link [] w = (w, [])"
| "serve_lines link ((v, line) # ls) w =
     (let (w1, out) = serve_line link v line w; (w2, outs) = serve_lines link ls w1 in (w2, out @ outs))"

text \<open>The whole life of a server: its lines until the input ends or the output breaks, then its exit.\<close>

definition serve_mcp :: "'d mcp_link \<Rightarrow> (mcp_env \<times> string) list \<Rightarrow> 'd mcp_world \<Rightarrow> 'd mcp_world \<times> json list" where
  "serve_mcp link ls w = (let (w1, out) = serve_lines link ls w in (deregister_on_exit link w1, out))"

end
