(* ===== verification/BindProps.thy ===== *)
theory BindProps
  imports Binds
begin

text \<open>
  Which bind a sibling process adopts: the nearest live one of its workspace, the newest of those;
  and the bind a hook has just written is that one.
\<close>

section \<open>Depth\<close>

lemma place_bounds: "place p as i = Some n \<Longrightarrow> i \<le> n \<and> n < i + length as \<and> as ! (n - i) = p"
proof (induction as arbitrary: i)
  case (Cons a as)
  then show ?case by (cases "a = p") (auto dest!: Cons.IH simp: nth_Cons' Suc_le_eq)
qed simp

lemma place_None: "place p as i = None \<longleftrightarrow> p \<notin> set as"
  by (induction as arbitrary: i) auto

definition depths :: "int list \<Rightarrow> bind \<Rightarrow> nat set" where
  "depths ancestors b = {n. \<exists>p \<in> set (items (bd_pids b)). depth_of ancestors p = Some n}"

lemma fold_nearer:
  "case fold (\<lambda>p d. nearer d (f p)) ps dd of
     None \<Rightarrow> dd = None \<and> {n. \<exists>p \<in> set ps. f p = Some n} = {}
   | Some m \<Rightarrow> (dd = Some m \<or> m \<in> {n. \<exists>p \<in> set ps. f p = Some n}) \<and>
       (\<forall>n. dd = Some n \<or> (\<exists>p \<in> set ps. f p = Some n) \<longrightarrow> m \<le> n)"
proof (induction ps arbitrary: dd)
  case (Cons p ps)
  show ?case using Cons.IH [of "nearer dd (f p)"]
    by (cases dd; cases "f p") (auto simp: nearer_def split: option.splits if_splits; fastforce)+
qed (auto split: option.splits)

lemma bind_depth_None: "bind_depth ancestors b = None \<longleftrightarrow> depths ancestors b = {}"
  and bind_depth_Some: "bind_depth ancestors b = Some d \<longleftrightarrow> d \<in> depths ancestors b \<and> (\<forall>n \<in> depths ancestors b. d \<le> n)"
proof -
  note f = fold_nearer [where f = "depth_of ancestors" and ps = "items (bd_pids b)" and dd = None, folded bind_depth_def, folded depths_def]
  show "bind_depth ancestors b = None \<longleftrightarrow> depths ancestors b = {}"
    using f by (auto simp: depths_def split: option.splits)
  show "bind_depth ancestors b = Some d \<longleftrightarrow> d \<in> depths ancestors b \<and> (\<forall>n \<in> depths ancestors b. d \<le> n)"
    using f by (auto simp: depths_def split: option.splits intro: antisym)
qed

section \<open>The choice\<close>

text \<open>The files that may be adopted: readable, of the workspace, anchored at a live process, fresh, related.\<close>

definition candidate :: "(int \<Rightarrow> bool) \<Rightarrow> time \<Rightarrow> string \<Rightarrow> int list \<Rightarrow> bind_file \<Rightarrow> (nat \<times> bind) option" where
  "candidate alive now sc ancestors f = (case Option.bind (bf_text f) read_bind of
     None \<Rightarrow> None
   | Some b \<Rightarrow> if live_bind alive now sc b then map_option (\<lambda>d. (d, b)) (bind_depth ancestors b) else None)"

definition outranks :: "nat \<times> bind \<Rightarrow> nat \<times> bind \<Rightarrow> bool" where
  "outranks db e = (fst db < fst e \<or> (fst db = fst e \<and> bd_ts (snd e) \<le> bd_ts (snd db)))"

lemma try_file_candidate:
  "try_file alive now sc ancestors f best = (case candidate alive now sc ancestors f of
     None \<Rightarrow> best | Some db \<Rightarrow> if better_bind db best then Some db else best)"
  by (cases "Option.bind (bf_text f) read_bind") (auto simp: try_file_def candidate_def split: option.split)

lemma outranks_trans: "outranks a b \<Longrightarrow> outranks b c \<Longrightarrow> outranks a c"
  by (auto simp: outranks_def)

lemma better_outranks:
  "better_bind e (Some db) \<Longrightarrow> outranks e db" "\<not> better_bind e (Some db) \<Longrightarrow> outranks db e"
  by (auto simp: better_bind_def outranks_def split: prod.splits)

lemma fold_try_file:
  assumes "fold (try_file alive now sc ancestors) dir best = r"
  shows "case r of
     None \<Rightarrow> best = None \<and> (\<forall>f \<in> set dir. candidate alive now sc ancestors f = None)
   | Some db \<Rightarrow> (best = Some db \<or> Some db \<in> candidate alive now sc ancestors ` set dir) \<and>
       (\<forall>e. best = Some e \<longrightarrow> outranks db e) \<and>
       (\<forall>f \<in> set dir. \<forall>e. candidate alive now sc ancestors f = Some e \<longrightarrow> outranks db e)"
  using assms
proof (induction dir arbitrary: best)
  case Nil
  then show ?case by (auto simp: outranks_def split: option.splits)
next
  case (Cons f dir)
  let ?b = "try_file alive now sc ancestors f best"
  note IH = Cons.IH [of ?b] Cons.prems
  show ?case
  proof (cases "candidate alive now sc ancestors f")
    case None
    then show ?thesis using IH by (auto simp: try_file_candidate split: option.splits)
  next
    case (Some e)
    show ?thesis
    proof (cases "better_bind e best")
      case True
      then have "\<forall>e'. best = Some e' \<longrightarrow> outranks e e'" using better_outranks(1) by blast
      then show ?thesis
        using IH True Some by (auto simp: try_file_candidate split: option.splits intro: outranks_trans)
    next
      case False
      then obtain db where db: "best = Some db" "outranks db e"
        using better_outranks(2) by (cases best) (auto simp: better_bind_def)
      then show ?thesis
        using IH False Some by (auto simp: try_file_candidate split: option.splits intro: outranks_trans)
    qed
  qed
qed

lemma no_ancestor_no_depth:
  assumes "\<forall>p \<in> set (take match_depth ancestors). p \<le> 1"
  shows "candidate alive now sc ancestors f = None"
proof -
  have "depth_of ancestors p = None" for p
    using assms by (auto simp: depth_of_def place_None)
  then show ?thesis by (auto simp: candidate_def bind_depth_None depths_def split: option.splits)
qed

lemma match_bind_choice:
  "case match_bind alive now sc ancestors dir of
     None \<Rightarrow> \<forall>f \<in> set dir. candidate alive now sc ancestors f = None
   | Some b \<Rightarrow> \<exists>d. (\<exists>f \<in> set dir. candidate alive now sc ancestors f = Some (d, b)) \<and>
       (\<forall>f \<in> set dir. \<forall>e. candidate alive now sc ancestors f = Some e \<longrightarrow> outranks (d, b) e)"
proof (cases "\<forall>p \<in> set (take match_depth ancestors). p \<le> 1")
  case True
  then show ?thesis using no_ancestor_no_depth [OF True] by (simp add: match_bind_def)
next
  case False
  let ?r = "fold (try_file alive now sc ancestors) dir None"
  have m: "match_bind alive now sc ancestors dir = map_option snd ?r"
    using False by (simp only: match_bind_def if_False)
  note f = fold_try_file [OF refl, where alive = alive and now = now and sc = sc and ancestors = ancestors and dir = dir and best = None]
  show ?thesis
  proof (cases ?r)
    case None
    then show ?thesis using f by (simp add: m)
  next
    case (Some db)
    obtain d b where db: "db = (d, b)" by (cases db)
    have "\<exists>f \<in> set dir. candidate alive now sc ancestors f = Some (d, b)"
      and "\<forall>f \<in> set dir. \<forall>e. candidate alive now sc ancestors f = Some e \<longrightarrow> outranks (d, b) e"
      using f unfolding Some db by (auto simp: image_iff eq_commute [of "Some _"])
    then show ?thesis unfolding m Some db by simp blast
  qed
qed

section \<open>Reading back what was written\<close>

definition bind_ok :: "bind \<Rightarrow> bool" where
  "bind_ok b \<longleftrightarrow> valid_utf8 (bd_session b) \<and> valid_utf8 (bd_scope b) \<and> valid_utf8 (bd_name b) \<and>
     (\<forall>p \<in> set (items (bd_pids b)). - (2 ^ 63) \<le> p \<and> p < 2 ^ 63) \<and> - (2 ^ 63) \<le> bd_ts b \<and> bd_ts b < 2 ^ 63"

lemma bind_keys [simp]:
  "valid_utf8 ''session_id''" "valid_utf8 ''scope''" "valid_utf8 ''name''" "valid_utf8 ''pids''" "valid_utf8 ''ts''"
  by (simp_all add: valid_utf8_ascii is_ascii_def byte_def)

lemma dec_elems_ints:
  "\<forall>p \<in> set ps. - (2 ^ 63) \<le> p \<and> p < 2 ^ 63 \<Longrightarrow> dec_elems 0 (put_int (\<lambda>i _. i)) (map json_int ps) [] = (ps, True)"
  by (induction ps) (simp_all add: Let_def)

lemma depth_ints: "json_depth (JArr (map json_int ps)) = 1"
proof -
  have "fold max (map (json_depth \<circ> json_int) ps) 0 = (0::nat)" by (induction ps) auto
  then show ?thesis by simp
qed

lemma read_written_bind: "bind_ok b \<Longrightarrow> read_bind (json_print (bind_json b)) = Some b"
proof -
  assume ok: "bind_ok b"
  have pids: "dec_slice 0 (put_int (\<lambda>i _. i)) (case bd_pids b of None \<Rightarrow> JNull | Some ps \<Rightarrow> JArr (map json_int ps)) None = (bd_pids b, True)"
    using ok dec_elems_ints by (auto simp: dec_slice_def bind_ok_def items_def split: option.splits)
  have "dec_struct False bind_fields (bind_json b) zero_bind = (b, True)"
    using ok pids by (cases b) (simp add: dec_struct_def bind_json_def bind_fields_def find_field_def zero_bind_def both_def Let_def
        on_part_def bind_ok_def)
  moreover have "wf_json (bind_json b)" "json_depth (bind_json b) \<le> max_nesting"
    using ok depth_ints by (auto simp: bind_json_def bind_ok_def max_nesting_def items_def list_all_iff simp del: json_depth.simps(5) split: option.splits)
  ultimately show ?thesis
    using unmarshal_printed [of "bind_json b"] by (simp add: read_bind_def unmarshal_into_def Let_def)
qed

section \<open>Properties\<close>

lemma set_put_file: "set (put_file f dir) = insert f {g \<in> set dir. bf_name g \<noteq> bf_name f}"
  by (simp add: put_file_def set_insort_key)

text \<open>The bind a hook writes is ranked first by a sibling right below the same parent.\<close>

lemma depth_of_parent: "1 < p \<Longrightarrow> depth_of (p # as) p = Some 0"
  by (simp add: depth_of_def match_depth_def)

lemma written_candidate:
  assumes "bind_ok b" and "bd_pids b = Some (p # ps)" and "1 < p" and "alive p" and "bd_session b \<noteq> []"
    and "unix (now - bind_max_age) \<le> bd_ts b"
  shows "candidate alive now (bd_scope b) (p # as) \<lparr>bf_name = n, bf_text = Some (json_print (bind_json b)), bf_mtime = t\<rparr> = Some (0, b)"
proof -
  have "0 \<in> depths (p # as) b" using assms(2) depth_of_parent [OF assms(3)] by (auto simp: depths_def items_def)
  then have "bind_depth (p # as) b = Some 0" by (simp add: bind_depth_Some)
  then show ?thesis using assms read_written_bind [OF assms(1)] by (simp add: candidate_def live_bind_def items_def)
qed

lemma adopts_written:
  assumes "bind_ok b" and "bd_pids b = Some (p # ps)" and "1 < p" and "alive p" and "bd_session b \<noteq> []"
    and "unix (later - bind_max_age) \<le> bd_ts b"
    and "\<And>f b'. f \<in> set dir \<Longrightarrow> Option.bind (bf_text f) read_bind = Some b' \<Longrightarrow> bd_ts b' < bd_ts b"
  shows "match_bind alive later (bd_scope b) (p # as) (write_bind now DiskOk b dir) = Some b"
proof -
  let ?f = "\<lparr>bf_name = bind_name p, bf_text = Some (json_print (bind_json b)), bf_mtime = now\<rparr>"
  let ?dir = "write_bind now DiskOk b dir" and ?cand = "candidate alive later (bd_scope b) (p # as)"
  have dir: "set ?dir = insert ?f {g \<in> set (clean_stale_binds now dir). bf_name g \<noteq> bind_name p}"
    using assms(2) by (simp add: write_bind_def items_def Let_def set_put_file)
  have mine: "?cand ?f = Some (0, b)" using assms(1-6) by (intro written_candidate)
  have older: "bd_ts (snd e) < bd_ts b" if "g \<in> set ?dir" "g \<noteq> ?f" "?cand g = Some e" for g e
    using that assms(7) [of g] by (auto simp: dir clean_stale_binds_def candidate_def split: option.splits if_splits)
  show ?thesis
  proof (cases "match_bind alive later (bd_scope b) (p # as) ?dir")
    case None
    then show ?thesis
      using match_bind_choice [of ?dir alive later "bd_scope b" "p # as"] mine dir by auto
  next
    case (Some b')
    then obtain d g where g: "g \<in> set ?dir" "?cand g = Some (d, b')" and top: "outranks (d, b') (0, b)"
      using match_bind_choice [of ?dir alive later "bd_scope b" "p # as"] mine dir by auto
    have "g = ?f"
    proof (rule ccontr)
      assume "g \<noteq> ?f"
      with older [OF g(1) _ g(2)] show False using top by (simp add: outranks_def)
    qed
    then show ?thesis using g(2) mine Some by simp
  qed
qed

text \<open>
  C15. The bind a process adopts is the right one. \<open>MatchBind\<close> finds nothing exactly when no file of the directory is a
  candidate: a readable bind of the workspace with a session, younger than 48 hours, whose anchor
  process is alive and one of whose processes is among the caller's three nearest ancestors. When it
  finds one, that bind is a candidate whose process is at least as near as that of every other
  candidate, and among equally near ones none is newer.
\<close>

theorem nearest_bind_is_adopted:
  "case match_bind alive now sc ancestors dir of
     None \<Rightarrow> \<forall>f \<in> set dir. candidate alive now sc ancestors f = None
   | Some b \<Rightarrow> \<exists>f \<in> set dir. \<exists>d. candidate alive now sc ancestors f = Some (d, b) \<and>
       (\<forall>g \<in> set dir. \<forall>d' b'. candidate alive now sc ancestors g = Some (d', b') \<longrightarrow>
          d < d' \<or> (d = d' \<and> bd_ts b' \<le> bd_ts b))"
proof (cases "match_bind alive now sc ancestors dir")
  case None
  then show ?thesis using match_bind_choice [of dir alive now sc ancestors] by simp
next
  case (Some b)
  then obtain d f where "f \<in> set dir" "candidate alive now sc ancestors f = Some (d, b)"
    and "\<forall>g \<in> set dir. \<forall>e. candidate alive now sc ancestors g = Some e \<longrightarrow> outranks (d, b) e"
    using match_bind_choice [of dir alive now sc ancestors] by auto
  then show ?thesis using Some by (fastforce simp: outranks_def)
qed

definition near_bind :: bind where
  "near_bind = \<lparr>bd_session = ''s-near'', bd_scope = ''ws'', bd_name = ''n'', bd_pids = Some [41], bd_ts = 1000\<rparr>"

definition far_bind :: bind where
  "far_bind = \<lparr>bd_session = ''s-far'', bd_scope = ''ws'', bd_name = ''f'', bd_pids = Some [7], bd_ts = 2000\<rparr>"

definition stored_bind :: "bind \<Rightarrow> string \<Rightarrow> bind_file" where
  "stored_bind b n = \<lparr>bf_name = n, bf_text = Some (json_print (bind_json b)), bf_mtime = 0\<rparr>"

lemma near_candidates:
  "candidate (\<lambda>p. True) (seconds 3000) ''ws'' [41, 7] (stored_bind near_bind n) = Some (0, near_bind)"
  "candidate (\<lambda>p. True) (seconds 3000) ''ws'' [41, 7] (stored_bind far_bind n) = Some (1, far_bind)"
proof -
  have ok: "bind_ok near_bind" "bind_ok far_bind"
    by (simp_all add: bind_ok_def near_bind_def far_bind_def items_def valid_utf8_ascii is_ascii_def byte_def)
  show "candidate (\<lambda>p. True) (seconds 3000) ''ws'' [41, 7] (stored_bind near_bind n) = Some (0, near_bind)"
    using read_written_bind [OF ok(1)]
    by (simp add: candidate_def stored_bind_def live_bind_def near_bind_def items_def bind_depth_def depth_of_def
        match_depth_def nearer_def unix_def seconds_def bind_max_age_def ns_second_def)
  show "candidate (\<lambda>p. True) (seconds 3000) ''ws'' [41, 7] (stored_bind far_bind n) = Some (1, far_bind)"
    using read_written_bind [OF ok(2)]
    by (simp add: candidate_def stored_bind_def live_bind_def far_bind_def items_def bind_depth_def depth_of_def
        match_depth_def nearer_def unix_def seconds_def bind_max_age_def ns_second_def)
qed

lemma near_chosen:
  "match_bind (\<lambda>p. True) (seconds 3000) ''ws'' [41, 7] [stored_bind far_bind ''1'', stored_bind near_bind ''2''] = Some near_bind"
  by (simp add: match_bind_def match_depth_def try_file_candidate near_candidates better_bind_def)

theorem nearest_bind_is_adopted_witness:
  "\<exists>d. candidate (\<lambda>p. True) (seconds 3000) ''ws'' [41, 7] (stored_bind near_bind ''2'') = Some (d, near_bind) \<and>
     (d < 1 \<or> (d = 1 \<and> bd_ts far_bind \<le> bd_ts near_bind))"
  using nearest_bind_is_adopted [of "[stored_bind far_bind ''1'', stored_bind near_bind ''2'']"
      "\<lambda>p. True" "seconds 3000" "''ws''" "[41, 7]"]
  by (simp add: near_chosen near_candidates)

end
