(* ===== verification/McpProps.thy ===== *)
theory McpProps
  imports Mcp BindProps
begin

text \<open>
  What the daemon and its other clients may rely on from an MCP server: in whose name it speaks, which
  sessions it retires, which deadline it asks for, and that it joins the session its host agent's hook
  registered.
\<close>

section \<open>Recording the conversation\<close>

type_synonym exchange = "request \<times> (string + response)"

text \<open>A daemon that answers in any way at all, and whose state is the conversation so far.\<close>

definition recorded :: "(exchange list \<Rightarrow> request \<Rightarrow> string + response) \<Rightarrow> exchange list mcp_link" where
  "recorded f q log = (log @ [(q, f log q)], f log q)"

text \<open>The daemon has accepted a registration of a session, and called it by a name.\<close>

definition introduced :: "exchange list \<Rightarrow> string \<Rightarrow> string \<Rightarrow> bool" where
  "introduced past sess name \<longleftrightarrow> (\<exists>q r. (q, Inr r) \<in> set past \<and> op_of (q_op q) = OpRegister \<and> q_session q = sess \<and>
     rs_ok r \<and> rs_name r = name)"

definition kept_on :: "exchange list \<Rightarrow> string \<Rightarrow> bool" where
  "kept_on past sess \<longleftrightarrow> (\<exists>q r. (q, Inr r) \<in> set past \<and> op_of (q_op q) = OpRegister \<and> q_session q = sess \<and>
     rs_ok r \<and> \<not> q_no_hook q)"

definition mcp_request_ok :: "string \<Rightarrow> string \<Rightarrow> exchange list \<Rightarrow> request \<Rightarrow> bool" where
  "mcp_request_ok sc minted past q \<longleftrightarrow> q_scope q = sc \<and> q_agent q = [] \<and>
     (if op_of (q_op q) \<in> set identity_ops then
        (\<exists>name. introduced past (q_session q) name \<and> (q_from q = name \<or> has_prefix (name @ ''/'') (q_from q)))
      else if op_of (q_op q) = OpDeregister then q_session q = minted \<and> \<not> kept_on past minted
      else op_of (q_op q) \<in> {OpRegister, OpWhoami, OpBoard, OpAgents, OpClaims, OpListWorkspaces, OpListEyes, OpListEyesTasks})"

definition conversation_ok :: "string \<Rightarrow> string \<Rightarrow> exchange list \<Rightarrow> bool" where
  "conversation_ok sc minted log \<longleftrightarrow> (\<forall>past e rest. log = past @ e # rest \<longrightarrow> mcp_request_ok sc minted past (fst e))"

lemma conversation_ok_snoc:
  "conversation_ok sc minted (log @ [e]) \<longleftrightarrow> conversation_ok sc minted log \<and> mcp_request_ok sc minted log (fst e)"
proof
  assume ok: "conversation_ok sc minted (log @ [e])"
  have "mcp_request_ok sc minted past (fst x)" if "log = past @ x # rest" for past x rest
    using ok [unfolded conversation_ok_def, rule_format, of past x "rest @ [e]"] that by simp
  then have "conversation_ok sc minted log" unfolding conversation_ok_def by blast
  then show "conversation_ok sc minted log \<and> mcp_request_ok sc minted log (fst e)"
    using ok [unfolded conversation_ok_def, rule_format, of log e "[]"] by simp
next
  assume ok: "conversation_ok sc minted log \<and> mcp_request_ok sc minted log (fst e)"
  have "mcp_request_ok sc minted past (fst x)" if "log @ [e] = past @ x # rest" for past x rest
  proof (cases rest rule: rev_cases)
    case Nil
    then show ?thesis using that ok by simp
  next
    case (snoc ys y)
    then have "log = past @ x # ys" using that by simp
    then show ?thesis using ok unfolding conversation_ok_def by blast
  qed
  then show "conversation_ok sc minted (log @ [e])" unfolding conversation_ok_def by blast
qed

section \<open>The invariant of a connection\<close>

definition mcp_ok :: "string \<Rightarrow> string \<Rightarrow> exchange list mcp_world \<Rightarrow> bool" where
  "mcp_ok sc minted w \<longleftrightarrow> conversation_ok sc minted (mw_daemon w) \<and> sv_scope (mw_server w) = sc \<and>
     (\<not> sv_bound (mw_server w) \<longrightarrow> sv_session (mw_server w) = minted \<and> \<not> kept_on (mw_daemon w) minted) \<and>
     (sv_name (mw_server w) \<noteq> [] \<longrightarrow> introduced (mw_daemon w) (sv_session (mw_server w)) (sv_name (mw_server w)))"

lemma ask_recorded [simp]:
  "ask (recorded f) q w = (w\<lparr>mw_daemon := mw_daemon w @ [(q, f (mw_daemon w) q)]\<rparr>, f (mw_daemon w) q)"
  by (simp add: ask_def recorded_def)

lemma introduced_more: "introduced past sess name \<Longrightarrow> introduced (past @ more') sess name"
  by (auto simp: introduced_def)

lemma kept_on_snoc:
  "kept_on (past @ [(q, a)]) sess \<longleftrightarrow> kept_on past sess \<or>
     op_of (q_op q) = OpRegister \<and> q_session q = sess \<and> \<not> q_no_hook q \<and> (\<exists>r. a = Inr r \<and> rs_ok r)"
  by (auto simp: kept_on_def)

lemma introduced_snoc:
  "introduced (past @ [(q, Inr r)]) (q_session q) (rs_name r)" if "op_of (q_op q) = OpRegister" "rs_ok r"
  using that by (auto simp: introduced_def)

lemma session_request_simps [simp]:
  "q_op (session_request op s) = op" "q_scope (session_request op s) = sv_scope s"
  "q_session (session_request op s) = sv_session s" "q_agent (session_request op s) = []"
  "q_op (register_request v x s) = ''register''" "q_scope (register_request v x s) = sv_scope s"
  "q_session (register_request v x s) = sv_session s" "q_agent (register_request v x s) = []"
  "q_no_hook (register_request v x s) = (\<not> sv_bound s \<and> \<not> x)"
  by (simp_all add: session_request_def register_request_def zero_request_def)

text \<open>A request that needs no introduction may be sent at any time.\<close>

lemma mcp_ok_ask:
  assumes "mcp_ok sc minted w" and "mcp_request_ok sc minted (mw_daemon w) q" and "op_of (q_op q) \<noteq> OpRegister"
  shows "mcp_ok sc minted (w\<lparr>mw_daemon := mw_daemon w @ [(q, a)]\<rparr>)"
  using assms by (auto simp: mcp_ok_def conversation_ok_snoc kept_on_snoc introduced_more)

lemma adopt_bind_ok: "mcp_ok sc minted w \<Longrightarrow> mcp_ok sc minted (adopt_bind (recorded f) v w)"
proof -
  assume ok: "mcp_ok sc minted w"
  let ?s = "mw_server w" and ?q = "session_request ''deregister'' (mw_server w)"
  have "mcp_request_ok sc minted (mw_daemon w) ?q" if "\<not> sv_bound ?s"
    using ok that by (simp add: mcp_request_ok_def mcp_ok_def identity_ops_def)
  then have "mcp_ok sc minted (w\<lparr>mw_daemon := mw_daemon w @ [(?q, a)]\<rparr>)" if "\<not> sv_bound ?s" for a
    using mcp_ok_ask [OF ok] that by simp
  then show ?thesis
    using ok by (auto simp: adopt_bind_def Let_def mcp_ok_def split: option.splits)
qed

lemma adopt_bind_bound: "sv_bound (mw_server w) \<Longrightarrow> adopt_bind link v w = w"
  by (simp add: adopt_bind_def Let_def)

lemma bind_connection_simps [simp]:
  "mw_daemon (bind_connection v name w) = mw_daemon w"
  "mw_server (bind_connection v name w) = (mw_server w)\<lparr>sv_bound := True\<rparr>"
  by (simp_all add: bind_connection_def Let_def)

lemma ensure_registered_ok:
  assumes "mcp_ok sc minted w" and "ensure_registered (recorded f) v explicit w = (w', r)"
  shows "mcp_ok sc minted w' \<and> (\<forall>name. r = Inr name \<longrightarrow>
    sv_name (mw_server w') = name \<and> introduced (mw_daemon w') (sv_session (mw_server w')) name)"
proof -
  define w1 where "w1 = adopt_bind (recorded f) v w"
  let ?s = "mw_server w1" and ?q = "register_request v explicit (mw_server w1)"
  have ok: "mcp_ok sc minted w1" by (simp add: w1_def adopt_bind_ok [OF assms(1)])
  have req: "mcp_request_ok sc minted (mw_daemon w1) ?q"
    using ok by (simp add: mcp_request_ok_def mcp_ok_def identity_ops_def)
  show ?thesis
  proof (cases "sv_name ?s \<noteq> [] \<and> \<not> explicit")
    case True
    then have "w' = w1" "r = Inr (sv_name ?s)" using assms(2) by (auto simp: ensure_registered_def w1_def [symmetric] Let_def)
    then show ?thesis using ok True by (simp add: mcp_ok_def)
  next
    case False
    define a where "a = f (mw_daemon w1) ?q"
    have run: "(w', r) = (case a of
        Inl e \<Rightarrow> (w1\<lparr>mw_daemon := mw_daemon w1 @ [(?q, a)]\<rparr>, Inl (unreachable e))
      | Inr x \<Rightarrow> if \<not> rs_ok x then (w1\<lparr>mw_daemon := mw_daemon w1 @ [(?q, a)]\<rparr>, Inl (rs_error x))
          else (let w3 = w1\<lparr>mw_daemon := mw_daemon w1 @ [(?q, a)], mw_server := ?s\<lparr>sv_name := rs_name x\<rparr>\<rparr> in
            (if explicit then bind_connection v (rs_name x) w3 else w3, Inr (rs_name x))))"
      using assms(2) False by (simp add: ensure_registered_def w1_def [symmetric] Let_def a_def [symmetric] split: sum.splits)
    show ?thesis
    proof (cases a)
      case (Inl e)
      then show ?thesis using run ok req
        by (auto simp: mcp_ok_def conversation_ok_snoc kept_on_snoc introduced_more)
    next
      case (Inr x)
      show ?thesis
      proof (cases "rs_ok x")
        case False
        then show ?thesis using run ok req Inr
          by (auto simp: mcp_ok_def conversation_ok_snoc kept_on_snoc introduced_more)
      next
        case True
        have "introduced (mw_daemon w1 @ [(?q, a)]) (sv_session ?s) (rs_name x)"
          using introduced_snoc [of ?q x "mw_daemon w1"] True Inr by simp
        then show ?thesis using run ok req Inr True
          by (auto simp: mcp_ok_def conversation_ok_snoc kept_on_snoc Let_def)
      qed
    qed
  qed
qed

lemma bind_identity_ok:
  assumes "mcp_ok sc minted w" and "bind_identity (recorded f) v q w = (w', r)" and "q_scope q = sc" and "q_agent q = []"
    and "op_of (q_op q) \<in> set identity_ops \<or>
      op_of (q_op q) \<in> {OpBoard, OpAgents, OpClaims, OpListWorkspaces, OpListEyes, OpListEyesTasks}"
  shows "mcp_ok sc minted w' \<and> (\<forall>q'. r = Inr q' \<longrightarrow> mcp_request_ok sc minted (mw_daemon w') q' \<and> q_op q' = q_op q)"
proof (cases "op_of (q_op q) \<in> set identity_ops")
  case False
  then show ?thesis using assms by (auto simp: bind_identity_def mcp_request_ok_def)
next
  case True
  obtain w1 x where er: "ensure_registered (recorded f) v False w = (w1, x)" by (cases "ensure_registered (recorded f) v False w")
  note ok = ensure_registered_ok [OF assms(1) er]
  show ?thesis
  proof (cases x)
    case (Inl e)
    then show ?thesis using assms(2) True ok by (auto simp: bind_identity_def er)
  next
    case (Inr name)
    then show ?thesis using assms(2-4) True ok
      by (auto simp: bind_identity_def er Let_def mcp_request_ok_def split: if_splits)
  qed
qed

lemma call_request_ok:
  assumes "call_request wild sc tn a = Inr q"
  shows "q_scope q = sc \<and> q_agent q = [] \<and> (op_of (q_op q) \<in> set identity_ops \<or>
    op_of (q_op q) \<in> {OpBoard, OpAgents, OpClaims, OpListWorkspaces, OpListEyes, OpListEyesTasks})"
  using assms
  by (simp add: call_request_def eyes_call_def Let_def zero_request_def split: if_split_asm sum.split_asm)
    (auto simp: identity_ops_def)

lemma call_daemon_ok:
  assumes "mcp_ok sc minted w" and "call_request wild sc tn a = Inr q"
  shows "mcp_ok sc minted (fst (call_daemon (recorded f) v tn a q w))"
proof -
  obtain w1 x where bi: "bind_identity (recorded f) v q w = (w1, x)" by (cases "bind_identity (recorded f) v q w")
  note qok = call_request_ok [OF assms(2)]
  have ok: "mcp_ok sc minted w1" "\<And>q'. x = Inr q' \<Longrightarrow> mcp_request_ok sc minted (mw_daemon w1) q' \<and> q_op q' = q_op q"
    using bind_identity_ok [OF assms(1) bi] qok by blast+
  show ?thesis
  proof (cases x)
    case (Inl e)
    then show ?thesis using ok by (simp add: call_daemon_def bi)
  next
    case (Inr q')
    have "op_of (q_op q') \<noteq> OpRegister" using ok(2) [OF Inr] qok by (auto simp: identity_ops_def)
    then have "mcp_ok sc minted (w1\<lparr>mw_daemon := mw_daemon w1 @ [(q', b)]\<rparr>)" for b
      using mcp_ok_ask [OF ok(1)] ok(2) [OF Inr] by blast
    then show ?thesis by (simp add: call_daemon_def bi Inr split: sum.splits)
  qed
qed

lemma whoami_ok:
  assumes "mcp_ok sc minted w"
  shows "mcp_ok sc minted (fst (whoami (recorded f) v w))"
proof -
  obtain w1 x where er: "ensure_registered (recorded f) v False w = (w1, x)" by (cases "ensure_registered (recorded f) v False w")
  note ok = ensure_registered_ok [OF assms er]
  let ?q = "session_request ''whoami'' (mw_server w1)"
  have "mcp_request_ok sc minted (mw_daemon w1) ?q"
    using ok by (simp add: mcp_request_ok_def mcp_ok_def identity_ops_def)
  then have "mcp_ok sc minted (w1\<lparr>mw_daemon := mw_daemon w1 @ [(?q, b)]\<rparr>)" for b
    using mcp_ok_ask ok by simp
  then show ?thesis using ok by (simp add: whoami_def er Let_def split: sum.splits)
qed

lemma call_tool_ok:
  assumes "mcp_ok sc minted w"
  shows "mcp_ok sc minted (fst (call_tool (recorded f) v tn a w))"
proof -
  have sc: "sv_scope (mw_server w) = sc" using assms by (simp add: mcp_ok_def)
  have "mcp_ok sc minted w1" if "ensure_registered (recorded f) v True w = (w1, x)" for w1 x
    using ensure_registered_ok [OF assms that] by simp
  then show ?thesis
    using assms whoami_ok [OF assms] call_daemon_ok [OF assms, of "me_wild v" tn a]
    by (auto simp: call_tool_def sc split: sum.splits prod.splits)
qed

lemma mcp_ok_source: "mcp_ok sc minted (w\<lparr>mw_server := (mw_server w)\<lparr>sv_source := t\<rparr>\<rparr>) = mcp_ok sc minted w"
  by (simp add: mcp_ok_def)

lemma handle_rpc_ok:
  assumes "mcp_ok sc minted w"
  shows "mcp_ok sc minted (fst (handle_rpc (recorded f) v q w))"
  using assms call_tool_ok [OF assms, of f v]
  by (auto simp: handle_rpc_def Let_def mcp_ok_source split: prod.splits option.splits; metis fst_conv)

lemma serve_lines_ok:
  "mcp_ok sc minted w \<Longrightarrow> mcp_ok sc minted (fst (serve_lines (recorded f) ls w))"
proof (induction ls arbitrary: w)
  case (Cons vl ls)
  obtain v line where vl: "vl = (v, line)" by (cases vl)
  have "mcp_ok sc minted (fst (serve_line (recorded f) v line w))"
    using Cons.prems handle_rpc_ok [OF Cons.prems, of f v]
    by (auto simp: serve_line_def Let_def split: prod.splits bool.splits option.splits sum.splits; metis fst_conv)
  then show ?case using Cons.IH by (auto simp: vl split: prod.splits; metis fst_conv)
qed simp

text \<open>
  C5. An MCP server speaks for its own connection only. Over its whole life, whatever it reads and whatever the
  daemon answers, all its requests are for its workspace and none acts for a subagent's session; a request
  that sends, reads, claims or assigns names a session the daemon has registered for this connection, and
  as its sender the name the daemon gave that session or a child of it; and the only session it ever
  retires is the one it minted itself, and only while no registration without the fallback guard has
  succeeded for it.
\<close>

theorem mcp_speaks_for_itself:
  "conversation_ok (sv_scope (new_server ac_scope resolved minted)) minted
     (mw_daemon (fst (serve_mcp (recorded f) ls \<lparr>mw_server = new_server ac_scope resolved minted, mw_daemon = [], mw_dir = dir\<rparr>)))"
proof -
  let ?sc = "sv_scope (new_server ac_scope resolved minted)"
  let ?w = "\<lparr>mw_server = new_server ac_scope resolved minted, mw_daemon = [], mw_dir = dir\<rparr>"
  have "mcp_ok ?sc minted ?w" by (simp add: mcp_ok_def conversation_ok_def kept_on_def new_server_def)
  then have ok: "mcp_ok ?sc minted (fst (serve_lines (recorded f) ls ?w))" by (rule serve_lines_ok)
  have "mcp_request_ok ?sc minted (mw_daemon u) (session_request ''deregister'' (mw_server u))"
    if "mcp_ok ?sc minted u" "\<not> sv_bound (mw_server u)" for u
    using that by (simp add: mcp_request_ok_def mcp_ok_def identity_ops_def)
  then have "mcp_ok ?sc minted (deregister_on_exit (recorded f) u)" if "mcp_ok ?sc minted u" for u
    using that mcp_ok_ask [OF that] by (simp add: deregister_on_exit_def Let_def)
  from this [OF ok] show ?thesis by (auto simp: serve_mcp_def mcp_ok_def split: prod.splits)
qed

section \<open>One session, one inbox\<close>

text \<open>
  C13. A host agent and the MCP server it starts share one identity. When the hook of a session has written its bind
  and every other bind is older, a server that starts under the same parent process within 48 hours, while that
  process lives, registers the hook's session and no other with its first call, without asking for a fallback.
\<close>

theorem server_joins_hook_session:
  assumes "valid_utf8 sess" and "valid_utf8 sc" and "valid_utf8 name" and "sess \<noteq> []"
    and "list_all (\<lambda>q. - (2 ^ 63) \<le> q \<and> q < 2 ^ 63) (p # ps)" and "1 < p"
    and "- (2 ^ 63) \<le> unix now" and "unix now < 2 ^ 63"
    and "list_all (\<lambda>g. case Option.bind (bf_text g) read_bind of None \<Rightarrow> True | Some b \<Rightarrow> bd_ts b < unix now) dir"
    and "me_alive v p" and "me_pids v = p # as" and "me_bind_dir v" and "me_now v \<le> now + bind_max_age"
    and "sv_scope s = sc" and "sv_name s = []" and "\<not> sv_bound s"
  shows "\<exists>q a. mw_daemon (fst (ensure_registered (recorded f) v False
      \<lparr>mw_server = s, mw_daemon = [], mw_dir = write_bind_file now DiskOk (p # ps) sc sess name dir\<rparr>)) = [(q, a)] \<and>
    op_of (q_op q) = OpRegister \<and> q_scope q = sc \<and> q_session q = sess \<and> \<not> q_no_hook q"
proof -
  let ?b = "\<lparr>bd_session = sess, bd_scope = sc, bd_name = name, bd_pids = Some (p # ps), bd_ts = unix now\<rparr>"
  let ?dir = "write_bind_file now DiskOk (p # ps) sc sess name dir"
  have "bind_ok ?b" using assms(1-8) by (auto simp: bind_ok_def items_def list_all_iff)
  moreover have "unix (me_now v - bind_max_age) \<le> unix now" using assms(13) by (intro unix_mono) simp
  moreover have "bd_ts b' < unix now" if "g \<in> set dir" "Option.bind (bf_text g) read_bind = Some b'" for g b'
    using assms(9) that by (force simp: list_all_iff)
  ultimately have m: "match_bind (me_alive v) (me_now v) sc (p # as) ?dir = Some ?b"
    using adopts_written [of ?b p ps "me_alive v" "me_now v" dir as now] assms(4,6,10) by (simp add: write_bind_file_def)
  then show ?thesis
    using assms(11,12,14-16)
    by (auto simp: ensure_registered_def adopt_bind_def Let_def split: sum.splits)
qed

definition sibling_env :: mcp_env where
  "sibling_env = \<lparr>me_kind = [], me_alive = (\<lambda>p. True), me_pids = [41], me_bind_dir = True, me_disk = DiskOk,
     me_now = 0, me_wait = [], me_wild = float_trunc\<rparr>"

theorem server_joins_hook_session_witness:
  "\<exists>q a. mw_daemon (fst (ensure_registered (recorded (\<lambda>past q. Inl ''down'')) sibling_env False
      \<lparr>mw_server = new_server [] ''ws'' ''mcp-1'', mw_daemon = [],
       mw_dir = write_bind_file 0 DiskOk [41] ''ws'' ''s-1'' ''fox'' []\<rparr>)) = [(q, a)] \<and>
    op_of (q_op q) = OpRegister \<and> q_scope q = ''ws'' \<and> q_session q = ''s-1'' \<and> \<not> q_no_hook q"
proof (rule server_joins_hook_session)
  show "valid_utf8 ''s-1''" "valid_utf8 ''ws''" "valid_utf8 ''fox''"
    by (simp_all add: valid_utf8_ascii is_ascii_def byte_def)
  have "trim_space [] = []" by code_simp
  then show "sv_scope (new_server [] ''ws'' ''mcp-1'') = ''ws''" by (simp add: new_server_def)
qed (simp_all add: sibling_env_def unix_def bind_max_age_def ns_second_def new_server_def)

section \<open>Tool calls\<close>

lemma parse_timeout_range:
  "parse_timeout_arg wild a = Inr (Some d) \<Longrightarrow> min_eyes_deadline \<le> d \<and> d \<le> max_eyes_deadline"
  by (auto simp: parse_timeout_arg_def Let_def split: option.splits json.splits if_splits)

lemma parse_timeout_integer:
  assumes "\<bar>i\<bar> < 2 ^ 53"
  shows "parse_timeout_arg wild [(''timeout'', JNum (dec_int i))] =
    (if 300 \<le> i \<and> i \<le> 1800 then Inr (Some i) else Inl ''timeout must be between 300 and 1800 seconds'')"
proof -
  obtain x where x: "float_of_literal (dec_int i) = Some x" "float_trunc x = i" "float_is_whole x"
    using float_of_dec_int [OF assms] by blast
  have r: "- (2 ^ 63) \<le> i \<and> i < 2 ^ 63" using assms by auto
  then have d: "float_to_int64 wild x = i" by (simp add: float_to_int64_def x(2))
  moreover have "float_equals x i" by (simp add: float_equals_def x)
  moreover have "number_arg [(''timeout'', JNum (dec_int i))] ''timeout'' = Some x" by (simp add: number_arg_def arg_at_def x(1))
  ultimately show ?thesis
    by (simp add: parse_timeout_arg_def arg_at_def Let_def min_eyes_deadline_def max_eyes_deadline_def)
qed

text \<open>
  C38. The MCP server asks for eyes deadlines the daemon documents. A \<open>request_eyes\<close> call that becomes a request at
  all carries no deadline, which stands for the default, or one between 300 and 1800 seconds, whatever number the
  caller wrote and whatever the platform makes of a number too large for an integer; and every whole number below
  \<open>2 ^ 53\<close> is accepted exactly when it is in that range.
\<close>

theorem eyes_deadline_in_range:
  assumes "\<bar>i\<bar> < 2 ^ 53"
  shows "(case call_request wild sc ''request_eyes'' a of Inl e \<Rightarrow> True
      | Inr q \<Rightarrow> q_deadline q = 0 \<or> 300 \<le> q_deadline q \<and> q_deadline q \<le> 1800) \<and>
    call_request wild sc ''request_eyes'' [(''timeout'', JNum (dec_int i))] =
      (if 300 \<le> i \<and> i \<le> 1800 then Inr (zero_request\<lparr>q_scope := sc, q_op := ''request_eyes'', q_deadline := i\<rparr>)
       else Inl ''timeout must be between 300 and 1800 seconds'')"
proof
  show "case call_request wild sc ''request_eyes'' a of Inl e \<Rightarrow> True
      | Inr q \<Rightarrow> q_deadline q = 0 \<or> 300 \<le> q_deadline q \<and> q_deadline q \<le> 1800"
    using parse_timeout_range [of wild a]
    by (auto simp: call_request_def eyes_call_def Let_def min_eyes_deadline_def max_eyes_deadline_def split: sum.splits option.splits)
  show "call_request wild sc ''request_eyes'' [(''timeout'', JNum (dec_int i))] =
      (if 300 \<le> i \<and> i \<le> 1800 then Inr (zero_request\<lparr>q_scope := sc, q_op := ''request_eyes'', q_deadline := i\<rparr>)
       else Inl ''timeout must be between 300 and 1800 seconds'')"
    by (simp add: call_request_def eyes_call_def parse_timeout_integer [OF assms] text_arg_def arg_at_def zero_request_def)
qed

theorem eyes_deadline_in_range_witness:
  "call_request float_trunc ''ws'' ''request_eyes'' [(''timeout'', JNum ''600'')] =
     Inr (zero_request\<lparr>q_scope := ''ws'', q_op := ''request_eyes'', q_deadline := 600\<rparr>)"
proof -
  have "dec_int 600 = ''600''" by code_simp
  then show ?thesis using eyes_deadline_in_range [of 600 float_trunc "''ws''" "[]"] by simp
qed

definition tool_name :: "json \<Rightarrow> string" where
  "tool_name j = (case j of JObj kvs \<Rightarrow> text_arg kvs ''name'' | _ \<Rightarrow> [])"

lemma listed_tools:
  "map tool_name tool_defs = [''register_agent'', ''whoami'', ''status_board'', ''list_agents'', ''send_message'',
     ''read_messages'', ''peek_messages'', ''broadcast'', ''claim'', ''release'', ''list_claims'', ''message_history'',
     ''list_workspaces'', ''list_eyes'', ''list_eyes_tasks'', ''relay'', ''request_eyes'', ''cancel_eyes'']"
  by (simp add: tool_defs_def tool_def tool_name_def text_arg_def arg_at_def)

text \<open>
  C0. What \<open>tools/list\<close> offers is what \<open>tools/call\<close> does: a name is listed exactly when a call of it is one of the
  two identity tools or becomes a request of its own, and not the answer that the tool is unknown.
\<close>

theorem listed_tools_are_served:
  "(name \<in> set (map tool_name tool_defs)) =
   (name = ''register_agent'' \<or> name = ''whoami'' \<or> call_request wild sc name a \<noteq> Inl (''unknown tool '' @ name))"
proof -
  have "parse_timeout_arg wild a \<noteq> Inl ''unknown tool request_eyes''"
    by (auto simp: parse_timeout_arg_def Let_def split: option.splits json.splits)
  then show ?thesis unfolding listed_tools
    by (auto simp: call_request_def eyes_call_def Let_def split: sum.splits)
qed

end
