(* ===== verification/Settings.thy ===== *)
theory Settings
  imports Values
begin

text \<open>
  A settings file as the installer sees it: decoded into \<open>map[string]any\<close>, changed, and written
  back by an encoder with two-space indentation and no HTML escaping (\<open>marshalSettings\<close>). A map is
  the list of its members in the order the encoder writes them, sorted by key; a number is the
  literal the encoder writes for its \<open>float64\<close>. The main result is that a file that was
  written is read back as the same tree.
\<close>

section \<open>Numbers as they are written\<close>

text \<open>
  \<open>strconv.FormatFloat(x, 'f', -1, 64)\<close>, or \<open>'e'\<close> for magnitudes below \<open>1e-6\<close> and from \<open>1e21\<close> up: the
  shortest decimal that reads back as \<open>x\<close>, and the nearest of those. \<open>q\<close> and \<open>s\<close> stand
  for \<open>q * 10 ^ s\<close>.
\<close>

definition magnitude :: "float64 \<Rightarrow> nat \<times> nat" where
  "magnitude x = (nat \<bar>mantissa x\<bar> * 2 ^ nat (scale x), 2 ^ nat (- scale x))"

definition same_magnitude :: "float64 \<Rightarrow> float64 \<Rightarrow> bool" where
  "same_magnitude x y \<longleftrightarrow> fst (magnitude x) * snd (magnitude y) = fst (magnitude y) * snd (magnitude x)"

definition decimal_point :: "nat \<Rightarrow> nat \<Rightarrow> int" where
  "decimal_point n d =
     (let p = int (length (dec_nat n)) - int (length (dec_nat d)) in
      if n * 10 ^ nat (- p) < d * 10 ^ nat p then p else p + 1)"

definition nearest_digits :: "nat \<Rightarrow> nat \<Rightarrow> int \<Rightarrow> nat list" where
  "nearest_digits n d k =
     (let a = n * 10 ^ nat k; b = d * 10 ^ nat (- k); q = a div b; r = a mod b in
      if r = 0 then [q] else if 2 * r < b \<or> (2 * r = b \<and> even q) then [q, q + 1] else [q + 1, q])"

fun strip_zeros :: "nat \<Rightarrow> nat \<times> int \<Rightarrow> nat \<times> int" where
  "strip_zeros n qs = (case qs of (q, s) \<Rightarrow>
     if n \<noteq> 0 \<and> q \<noteq> 0 \<and> q mod 10 = 0 then strip_zeros (n - 1) (q div 10, s + 1) else (q, s))"

declare strip_zeros.simps [simp del]

text \<open>The encoder drops the zero of a one-digit exponent.\<close>

definition exponent_text :: "int \<Rightarrow> string" where
  "exponent_text e = (if e < 0 then ''-'' else ''+'') @ dec_nat (nat \<bar>e\<bar>)"

definition decimal_text :: "bool \<Rightarrow> nat \<times> int \<Rightarrow> string" where
  "decimal_text expo qs =
     (let (q, s) = strip_zeros 400 qs; ds = dec_nat q; p = int (length ds) + s in
      if expo then
        take 1 ds @ (if length ds \<le> 1 then [] else ''.'' @ drop 1 ds) @ ''e'' @ exponent_text (p - 1)
      else if p \<le> 0 then ''0.'' @ replicate (nat (- p)) (CHR ''0'') @ ds
      else if int (length ds) \<le> p then ds @ replicate (nat p - length ds) (CHR ''0'')
      else take (nat p) ds @ ''.'' @ drop (nat p) ds)"

text \<open>The constant \<open>1e-6\<close> is the float \<open>4722366482869645 * 2 ^ -72\<close>.\<close>

definition number_candidates :: "nat \<Rightarrow> nat \<Rightarrow> string list" where
  "number_candidates n d =
     (let p = decimal_point n d; expo = n * 2 ^ 72 < d * 4722366482869645 \<or> d * 10 ^ 21 \<le> n in
      concat (map (\<lambda>k. map (\<lambda>q. decimal_text expo (q, p - int k)) (nearest_digits n d (int k - p))) [1 ..< 18]))"

definition float_text :: "float64 \<Rightarrow> string" where
  "float_text x = (case magnitude x of (n, d) \<Rightarrow>
     if n = 0 then ''0''
     else (let ts = number_candidates n d in
       case List.find (\<lambda>t. case float_of_literal t of Some y \<Rightarrow> same_magnitude x y | None \<Rightarrow> False) ts of
         Some t \<Rightarrow> t | None \<Rightarrow> last ts))"

definition number_text :: "string \<Rightarrow> string" where
  "number_text t = (case float_of_literal t of
     None \<Rightarrow> t
   | Some x \<Rightarrow> (if has_prefix ''-'' t then ''-'' else []) @ float_text x)"

section \<open>Maps\<close>

text \<open>Keys in the order of their bytes.\<close>

fun text_less :: "string \<Rightarrow> string \<Rightarrow> bool" where
  "text_less s [] = False"
| "text_less [] (c # cs) = True"
| "text_less (a # s) (b # t) = (byte a < byte b \<or> (a = b \<and> text_less s t))"

text \<open>\<open>m[k] = v\<close> and \<open>delete(m, k)\<close>.\<close>

fun put_member :: "string \<Rightarrow> json \<Rightarrow> members \<Rightarrow> members" where
  "put_member k v [] = [(k, v)]"
| "put_member k v ((l, w) # m) =
     (if k = l then (k, v) # m else if text_less k l then (k, v) # (l, w) # m else (l, w) # put_member k v m)"

definition drop_member :: "string \<Rightarrow> members \<Rightarrow> members" where
  "drop_member k m = filter (\<lambda>(l, v). l \<noteq> k) m"

definition build_map :: "members \<Rightarrow> members" where
  "build_map kvs = fold (\<lambda>(k, v). put_member k v) kvs []"

text \<open>A document decoded into \<open>any\<close>.\<close>

fun any_tree :: "json \<Rightarrow> json" where
  "any_tree (JNum t) = JNum (number_text t)"
| "any_tree (JArr js) = JArr (map any_tree js)"
| "any_tree (JObj kvs) = JObj (build_map (map (\<lambda>(k, j). (k, any_tree j)) kvs))"
| "any_tree j = j"

text \<open>
  \<open>json.Unmarshal(text, &root)\<close> with \<open>root\<close> a nil \<open>map[string]any\<close>: \<open>None\<close> is an error, \<open>Some None\<close> the
  nil map that the literal \<open>null\<close> leaves.
\<close>

definition read_root :: "string \<Rightarrow> members option option" where
  "read_root t = (case json_unmarshal t of
     None \<Rightarrow> None
   | Some JNull \<Rightarrow> Some None
   | Some (JObj kvs) \<Rightarrow> if snd (any_value (JObj kvs)) then
        (case any_tree (JObj kvs) of JObj m \<Rightarrow> Some (Some m) | _ \<Rightarrow> None) else None
   | Some _ \<Rightarrow> None)"

section \<open>Writing\<close>

text \<open>A string literal without HTML escaping.\<close>

definition raw_rune :: "nat \<times> string \<Rightarrow> string" where
  "raw_rune rb = (if fst rb \<in> {60, 62, 38} then snd rb else escape_rune rb)"

definition raw_text :: "string \<Rightarrow> string" where
  "raw_text s = concat (map raw_rune (runes s))"

definition raw_string :: "string \<Rightarrow> string" where
  "raw_string s = dquote # raw_text s @ [dquote]"

definition new_line :: "nat \<Rightarrow> string" where
  "new_line l = chr 10 # replicate (2 * l) (CHR '' '')"

fun indent_print :: "nat \<Rightarrow> json \<Rightarrow> string" where
  "indent_print l JNull = ''null''"
| "indent_print l (JBool b) = (if b then ''true'' else ''false'')"
| "indent_print l (JNum t) = t"
| "indent_print l (JStr s) = raw_string s"
| "indent_print l (JArr js) =
     (if js = [] then ''[]''
      else ''['' @ join '','' (map (\<lambda>j. new_line (Suc l) @ indent_print (Suc l) j) js) @ new_line l @ '']'')"
| "indent_print l (JObj kvs) =
     (if kvs = [] then ''{}''
      else ''{'' @ join '','' (map (\<lambda>(k, v). new_line (Suc l) @ raw_string k @ '': '' @ indent_print (Suc l) v) kvs)
        @ new_line l @ ''}'')"

definition marshal_settings :: "members \<Rightarrow> string" where
  "marshal_settings root = indent_print 0 (JObj root) @ [chr 10]"

section \<open>Reading back\<close>

lemma raw_rune_cases:
  assumes "good_rune (r, bs)"
  obtains (escaped) "raw_rune (r, bs) = escape_rune (r, bs)"
  | (plain) c where "bs = [c]" "raw_rune (r, bs) = [c]" "32 \<le> byte c" "c \<noteq> dquote" "c \<noteq> backslash" "byte c < 128"
proof (cases "r \<in> {60, 62, 38}")
  case True
  then have bs: "bs = [chr r]" using good_rune_bytes(1) [OF assms] by auto
  have "byte (chr r) = r" using True by (auto simp: byte_chr)
  then show ?thesis using True bs by (intro plain [of "chr r"]) (auto simp: raw_rune_def)
next
  case False
  then show ?thesis by (intro escaped) (simp add: raw_rune_def)
qed

lemma scan_raw_rune:
  assumes "good_rune (r, bs)"
  shows "scan_string (raw_rune (r, bs) @ t) = map_option (\<lambda>(w, q). (raw_rune (r, bs) @ w, q)) (scan_string t)"
  using assms
proof (cases rule: raw_rune_cases)
  case escaped
  then show ?thesis using scan_escape_rune [OF assms] by simp
next
  case (plain c)
  then show ?thesis by simp
qed

lemma unquote_raw_rune:
  assumes "good_rune (r, bs)"
  shows "unquote (raw_rune (r, bs) @ t) = bs @ unquote t"
  using assms
proof (cases rule: raw_rune_cases)
  case escaped
  then show ?thesis using unquote_escape_rune [OF assms] by simp
next
  case (plain c)
  then show ?thesis by simp
qed

lemma scan_raw_string:
  assumes "valid_utf8 s"
  shows "scan_string (raw_text s @ dquote # rest) = Some (raw_text s, rest)"
    and "unquote (raw_text s) = s"
proof -
  have g: "\<forall>rb \<in> set (runes s). good_rune rb" using valid_utf8_good [OF assms] by blast
  have "scan_string (concat (map raw_rune rbs) @ dquote # rest) = Some (concat (map raw_rune rbs), rest)"
    if "\<forall>rb \<in> set rbs. good_rune rb" for rbs
    using that by (induction rbs) (auto simp: scan_raw_rune split: prod.splits)
  then show "scan_string (raw_text s @ dquote # rest) = Some (raw_text s, rest)"
    using g by (simp add: raw_text_def)
  have "unquote (concat (map raw_rune rbs)) = concat (map snd rbs)" if "\<forall>rb \<in> set rbs. good_rune rb" for rbs
    using that by (induction rbs) (auto simp: unquote_raw_rune)
  then show "unquote (raw_text s) = s" using g by (simp add: raw_text_def concat_runes)
qed

text \<open>A literal that is a number by itself is one in front of anything that cannot continue it.\<close>

definition number_ok :: "string \<Rightarrow> bool" where
  "number_ok t \<longleftrightarrow> scan_number t = Some (t, [])"

lemma digits_before:
  assumes "ends_number rest"
  shows "takeWhile is_digit (s @ rest) = takeWhile is_digit s" "dropWhile is_digit (s @ rest) = dropWhile is_digit s @ rest"
  using assms by (induction s) (auto simp: ends_number_def split: list.splits)

lemma scan_before:
  assumes r: "ends_number rest"
  shows "scan_nat s = Some (w, q) \<Longrightarrow> scan_nat (s @ rest) = Some (w, q @ rest)"
    and "scan_frac s = Some (w, q) \<Longrightarrow> scan_frac (s @ rest) = Some (w, q @ rest)"
    and "scan_exp s = Some (w, q) \<Longrightarrow> scan_exp (s @ rest) = Some (w, q @ rest)"
proof -
  show "scan_nat (s @ rest) = Some (w, q @ rest)" if "scan_nat s = Some (w, q)"
    using that digits_before [OF r, of s] by (cases s) (auto simp: scan_nat_def split: if_splits)
  show "scan_frac (s @ rest) = Some (w, q @ rest)" if "scan_frac s = Some (w, q)"
  proof (cases s)
    case Nil
    then show ?thesis using that r by (auto simp: scan_frac_def ends_number_def split: list.splits)
  next
    case (Cons c cs)
    then show ?thesis using that digits_before [OF r, of cs] by (auto simp: scan_frac_def Let_def split: if_splits)
  qed
  show "scan_exp (s @ rest) = Some (w, q @ rest)" if "scan_exp s = Some (w, q)"
  proof (cases s)
    case Nil
    then show ?thesis using that r by (auto simp: scan_exp_def ends_number_def split: list.splits)
  next
    case (Cons c cs)
    show ?thesis
    proof (cases cs)
      case Nil
      then show ?thesis using that Cons by (auto simp: scan_exp_def Let_def split: if_splits)
    next
      case (Cons x xs)
      then show ?thesis using that \<open>s = c # cs\<close> digits_before [OF r, of xs] digits_before [OF r, of cs]
        by (auto simp: scan_exp_def Let_def split: if_splits)
    qed
  qed
qed

lemma scan_number_before:
  assumes r: "ends_number rest" and "scan_number s = Some (w, q)"
  shows "scan_number (s @ rest) = Some (w, q @ rest)"
proof -
  define sg s1 where "sg = (case s of c # r \<Rightarrow> if c = CHR ''-'' then [c] else [] | [] \<Rightarrow> [])"
    and "s1 = (case s of c # r \<Rightarrow> if c = CHR ''-'' then r else s | [] \<Rightarrow> [])"
  have cut: "(case s of c # r \<Rightarrow> if c = CHR ''-'' then ([c], r) else ([], s) | [] \<Rightarrow> ([], s)) = (sg, s1)"
    by (simp add: sg_def s1_def split: list.splits)
  obtain ds s2 fr s3 ex where f: "scan_nat s1 = Some (ds, s2)" "scan_frac s2 = Some (fr, s3)" "scan_exp s3 = Some (ex, q)"
      "w = sg @ ds @ fr @ ex"
    using assms(2) by (auto simp: scan_number_def cut Let_def split: option.splits)
  then have "s \<noteq> []" by (auto simp: s1_def scan_nat_def)
  then have "(case s @ rest of c # r \<Rightarrow> if c = CHR ''-'' then ([c], r) else ([], s @ rest) | [] \<Rightarrow> ([], s @ rest)) = (sg, s1 @ rest)"
    by (auto simp: sg_def s1_def split: list.splits)
  then show ?thesis using scan_before [OF r] f by (simp add: scan_number_def)
qed

lemma number_ok_head: "number_ok t \<Longrightarrow> \<exists>c cs. t = c # cs \<and> (is_digit c \<or> c = CHR ''-'')"
  by (cases t) (auto simp: number_ok_def scan_number_def scan_nat_def is_digit_def byte_def Let_def split: if_splits)

lemma parses_number:
  assumes "number_ok t"
  shows "parses d t (JNum t)"
proof (rule parses_atom)
  fix n rest
  assume r: "ends_number rest"
  obtain c cs where c: "t = c # cs" "is_digit c \<or> c = CHR ''-''" using number_ok_head [OF assms] by blast
  then have "c \<noteq> CHR ''{''" "c \<noteq> CHR ''[''" "c \<noteq> dquote" "c \<noteq> CHR ''t''" "c \<noteq> CHR ''f''" "c \<noteq> CHR ''n''"
      "\<not> is_json_space c"
    by (auto simp: is_digit_def is_json_space_def byte_def)
  then show "parse_value (Suc n) d (t @ rest) = Some (JNum t, rest)"
    using scan_number_before [OF r, of t t "[]"] assms c(1) by (simp add: number_ok_def map_value_def)
qed

lemma dec_int_ok: "number_ok (dec_int i)"
  using scan_dec_int [of "[]" i] by (simp add: number_ok_def)

text \<open>Trees as the installer keeps them: text is UTF-8, a number is written as it is, a map is sorted.\<close>

definition sorted_keys :: "members \<Rightarrow> bool" where
  "sorted_keys m \<longleftrightarrow> sorted_wrt text_less (map fst m)"

fun legible :: "json \<Rightarrow> bool" where
  "legible (JNum t) \<longleftrightarrow> number_ok t \<and> number_text t = t \<and> float_of_literal t \<noteq> None"
| "legible (JStr s) \<longleftrightarrow> valid_utf8 s"
| "legible (JArr js) \<longleftrightarrow> list_all legible js"
| "legible (JObj kvs) \<longleftrightarrow> list_all (\<lambda>(k, v). valid_utf8 k \<and> legible v) kvs \<and> sorted_keys kvs"
| "legible j \<longleftrightarrow> True"

lemma skip_blanks: "list_all is_json_space ws \<Longrightarrow> skip_space (ws @ t) = skip_space t"
  by (induction ws) auto

lemma ends_blanks: "list_all is_json_space ws \<Longrightarrow> ends_number t \<Longrightarrow> ends_number (ws @ t)"
  by (cases ws) (auto simp: ends_number_def is_json_space_def is_digit_def byte_def)

lemma new_line_blank [simp]: "list_all is_json_space (new_line l)"
proof -
  have "is_json_space (chr 10)" "is_json_space (CHR '' '')" by (simp add: is_json_space_def byte_chr, simp add: is_json_space_def byte_def)
  then show ?thesis by (simp add: new_line_def list_all_iff)
qed

lemma parse_value_blanks: "list_all is_json_space ws \<Longrightarrow> parse_value n d (ws @ t) = parse_value n d t"
  by (cases n) (simp_all add: skip_blanks)

lemma parses_blanks: "list_all is_json_space ws \<Longrightarrow> parses d t j \<Longrightarrow> parses d (ws @ t) j"
  by (simp add: parses_def parse_value_blanks)

lemma parses_spaced_elems:
  assumes "js \<noteq> []" and "\<forall>j \<in> set js. parses d (f j) j" and ws: "list_all is_json_space ws"
  shows "\<exists>N. \<forall>n \<ge> N. parse_elems n d (join '','' (map f js) @ ws @ CHR '']'' # rest) = Some (js, rest)"
  using assms(1,2)
proof (induction js)
  case (Cons j js)
  have pj: "parses d (f j) j" using Cons.prems by simp
  let ?e = "ws @ CHR '']'' # rest"
  show ?case
  proof (cases js)
    case Nil
    obtain N where N: "\<And>n. N \<le> n \<Longrightarrow> parse_value n d (f j @ ?e) = Some (j, ?e)"
      by (rule parsesE [OF pj, of ?e]) (auto simp: ends_blanks [OF ws])
    have "parse_elems n d (f j @ ?e) = Some ([j], rest)" if "Suc N \<le> n" for n
      using that N by (cases n) (auto simp: skip_blanks [OF ws])
    then show ?thesis using Nil by (intro exI [of _ "Suc N"]) simp
  next
    case (Cons k ks)
    let ?t = "join '','' (map f js) @ ?e"
    obtain N where N: "\<forall>n \<ge> N. parse_elems n d ?t = Some (js, rest)"
      using Cons.IH Cons.prems Cons by auto
    obtain M where M: "\<And>n. M \<le> n \<Longrightarrow> parse_value n d (f j @ CHR '','' # ?t) = Some (j, CHR '','' # ?t)"
      by (rule parsesE [OF pj, of "CHR '','' # ?t"]) auto
    have "parse_elems n d (f j @ CHR '','' # ?t) = Some (j # js, rest)" if "Suc (max M N) \<le> n" for n
      using that M N by (cases n) (auto simp: map_value_Some)
    then show ?thesis using Cons by (intro exI [of _ "Suc (max M N)"]) simp
  qed
qed simp

text \<open>A member of an object, on a line of its own.\<close>

definition spaced_member :: "(json \<Rightarrow> string) \<Rightarrow> string \<Rightarrow> string \<times> json \<Rightarrow> string" where
  "spaced_member f ws kv = ws @ raw_string (fst kv) @ '': '' @ f (snd kv)"

lemma parse_spaced_member:
  assumes k: "valid_utf8 k" and ws: "list_all is_json_space ws" and v: "parse_value n d (f v @ t) = Some (v, t)"
  shows "parse_members (Suc n) d (spaced_member f ws (k, v) @ t)
    = (case skip_space t of [] \<Rightarrow> None
       | x # t' \<Rightarrow> if x = CHR ''}'' then Some ([(k, v)], t')
         else if x = CHR '','' then map_value (\<lambda>kvs. (k, v) # kvs) (parse_members n d t') else None)"
proof -
  have "parse_value n d (CHR '' '' # f v @ t) = Some (v, t)"
    using parse_value_blanks [of "'' ''" n d "f v @ t"] v by (simp add: is_json_space_def byte_def)
  then show ?thesis
    using scan_raw_string [OF k]
    by (cases "skip_space t") (simp_all add: spaced_member_def raw_string_def skip_blanks [OF ws])
qed

lemma parses_spaced_members:
  assumes "kvs \<noteq> []" and "\<forall>(k, v) \<in> set kvs. valid_utf8 k \<and> parses d (f v) v"
    and ws: "list_all is_json_space ws" and ws': "list_all is_json_space ws'"
  shows "\<exists>N. \<forall>n \<ge> N. parse_members n d (join '','' (map (spaced_member f ws) kvs) @ ws' @ CHR ''}'' # rest) = Some (kvs, rest)"
  using assms(1,2)
proof (induction kvs)
  case (Cons kv kvs)
  obtain k v where kv: "kv = (k, v)" by (cases kv)
  have k: "valid_utf8 k" and pv: "parses d (f v) v" using Cons.prems kv by auto
  let ?e = "ws' @ CHR ''}'' # rest"
  show ?case
  proof (cases kvs)
    case Nil
    obtain N where N: "\<And>n. N \<le> n \<Longrightarrow> parse_value n d (f v @ ?e) = Some (v, ?e)"
      by (rule parsesE [OF pv, of ?e]) (auto simp: ends_blanks [OF ws'])
    have "parse_members n d (spaced_member f ws kv @ ?e) = Some ([kv], rest)" if "Suc N \<le> n" for n
      using that N by (cases n) (auto simp: kv parse_spaced_member [OF k ws] skip_blanks [OF ws'] simp del: parse_members.simps)
    then show ?thesis using Nil by (intro exI [of _ "Suc N"]) (simp del: parse_members.simps)
  next
    case (Cons kv2 kvs2)
    let ?t = "join '','' (map (spaced_member f ws) kvs) @ ?e"
    obtain N where N: "\<forall>n \<ge> N. parse_members n d ?t = Some (kvs, rest)"
      using Cons.IH Cons.prems Cons by auto
    obtain M where M: "\<And>n. M \<le> n \<Longrightarrow> parse_value n d (f v @ CHR '','' # ?t) = Some (v, CHR '','' # ?t)"
      by (rule parsesE [OF pv, of "CHR '','' # ?t"]) auto
    have "parse_members n d (spaced_member f ws kv @ CHR '','' # ?t) = Some (kv # kvs, rest)"
      if "Suc (max M N) \<le> n" for n
      using that M N
      by (cases n) (auto simp: kv parse_spaced_member [OF k ws] map_value_Some simp del: parse_members.simps)
    then show ?thesis using Cons by (intro exI [of _ "Suc (max M N)"]) (simp del: parse_members.simps)
  qed
qed simp

lemma indent_object:
  "kvs \<noteq> [] \<Longrightarrow> indent_print l (JObj kvs) =
     ''{'' @ join '','' (map (spaced_member (indent_print (Suc l)) (new_line (Suc l))) kvs) @ new_line l @ ''}''"
proof -
  have "(\<lambda>(k, v). new_line (Suc l) @ raw_string k @ '': '' @ indent_print (Suc l) v)
      = spaced_member (indent_print (Suc l)) (new_line (Suc l))"
    by (auto simp: spaced_member_def fun_eq_iff)
  then show "kvs \<noteq> [] \<Longrightarrow> ?thesis" by simp
qed

lemma new_line_Cons: "\<exists>ws. new_line l = chr 10 # ws \<and> list_all is_json_space ws"
  using new_line_blank [of l] by (simp add: new_line_def)

lemma parses_indented_array:
  assumes "js \<noteq> []" and "d < max_nesting" and "\<forall>j \<in> set js. parses (Suc d) (indent_print (Suc l) j) j"
    and heads: "\<forall>j \<in> set js. \<exists>c cs. indent_print (Suc l) j = c # cs \<and> \<not> is_json_space c \<and> c \<noteq> CHR '']''"
  shows "parses d (indent_print l (JArr js)) (JArr js)"
  unfolding parses_def
proof (intro allI impI)
  fix rest
  let ?f = "\<lambda>j. new_line (Suc l) @ indent_print (Suc l) j"
  let ?t = "join '','' (map ?f js) @ new_line l @ CHR '']'' # rest"
  have "\<forall>j \<in> set js. parses (Suc d) (?f j) j" using assms(3) by (simp add: parses_blanks)
  then obtain N where N: "\<forall>n \<ge> N. parse_elems n (Suc d) ?t = Some (js, rest)"
    using parses_spaced_elems [OF assms(1), of "Suc d" ?f "new_line l" rest] by auto
  obtain j js' where js: "js = j # js'" using assms(1) by (cases js) auto
  obtain c cs where c: "indent_print (Suc l) j = c # cs" "\<not> is_json_space c" "c \<noteq> CHR '']''"
    using heads js by auto
  then obtain r where t: "skip_space ?t = c # r" using js by (simp add: join_Cons skip_blanks)
  have "parse_elems n (Suc d) (c # r) = parse_elems n (Suc d) ?t" for n
  proof (cases n)
    case (Suc m)
    have "parse_value m (Suc d) (c # r) = parse_value m (Suc d) ?t"
      using t c(2) by (cases m) simp_all
    then show ?thesis by (simp add: Suc)
  qed simp
  then have M: "\<forall>n \<ge> N. parse_elems n (Suc d) (c # r) = Some (js, rest)" using N by simp
  have "parse_value n d (indent_print l (JArr js) @ rest) = Some (JArr js, rest)" if "Suc N \<le> n" for n
  proof -
    obtain m where m: "n = Suc m" "N \<le> m" using \<open>Suc N \<le> n\<close> by (cases n) auto
    have "parse_elems m (Suc d) (c # r) = Some (js, rest)" using M m by simp
    then show ?thesis using m t c assms(1,2) by (simp add: map_value_def del: parse_elems.simps)
  qed
  then show "\<exists>N. \<forall>n \<ge> N. parse_value n d (indent_print l (JArr js) @ rest) = Some (JArr js, rest)" by blast
qed

lemma parses_indented_object:
  assumes "kvs \<noteq> []" and "d < max_nesting"
    and p: "\<forall>(k, v) \<in> set kvs. valid_utf8 k \<and> parses (Suc d) (indent_print (Suc l) v) v"
  shows "parses d (indent_print l (JObj kvs)) (JObj kvs)"
  unfolding parses_def
proof (intro allI impI)
  fix rest
  let ?t = "join '','' (map (spaced_member (indent_print (Suc l)) (new_line (Suc l))) kvs) @ new_line l @ CHR ''}'' # rest"
  obtain N where N: "\<forall>n \<ge> N. parse_members n (Suc d) ?t = Some (kvs, rest)"
    using parses_spaced_members [OF assms(1) p new_line_blank new_line_blank] by blast
  obtain kv kvs' where kvs: "kvs = kv # kvs'" using assms(1) by (cases kvs) auto
  then obtain r where t: "skip_space ?t = dquote # r"
    by (simp add: join_Cons spaced_member_def raw_string_def skip_blanks)
  have "parse_members n (Suc d) (dquote # r) = parse_members n (Suc d) ?t" for n
    using t by (cases n) simp_all
  then have M: "\<forall>n \<ge> N. parse_members n (Suc d) (dquote # r) = Some (kvs, rest)" using N by simp
  have "parse_value n d (indent_print l (JObj kvs) @ rest) = Some (JObj kvs, rest)" if "Suc N \<le> n" for n
  proof -
    obtain m where m: "n = Suc m" "N \<le> m" using \<open>Suc N \<le> n\<close> by (cases n) auto
    have "parse_members m (Suc d) (dquote # r) = Some (kvs, rest)" using M m by simp
    then show ?thesis using m t assms(1,2)
      by (simp add: map_value_def indent_object del: parse_members.simps indent_print.simps)
  qed
  then show "\<exists>N. \<forall>n \<ge> N. parse_value n d (indent_print l (JObj kvs) @ rest) = Some (JObj kvs, rest)" by blast
qed

lemma indent_head:
  "legible j \<Longrightarrow> \<exists>c cs. indent_print l j = c # cs \<and> \<not> is_json_space c \<and> c \<noteq> CHR '']''"
proof (cases j)
  case (JNum t)
  assume "legible j"
  then have "number_ok t" by (simp add: JNum)
  then obtain c cs where c: "t = c # cs" "is_digit c \<or> c = CHR ''-''" using number_ok_head by blast
  then have "\<not> is_json_space c" "c \<noteq> CHR '']''" by (auto simp: is_digit_def is_json_space_def byte_def)
  then show ?thesis by (simp add: JNum c(1))
next
  case (JBool b)
  then show ?thesis by (cases b) (auto simp: is_json_space_def byte_def)
qed (auto simp: raw_string_def)

lemma indent_roundtrip_at:
  "legible j \<Longrightarrow> d + json_depth j \<le> max_nesting \<Longrightarrow> parses d (indent_print l j) j"
proof (induction l j arbitrary: d rule: indent_print.induct)
  case (5 l js)
  have d: "d < max_nesting" using "5.prems"(2) by simp
  show ?case
  proof (cases "js = []")
    case True
    then show ?thesis using d by (auto intro!: parses_atom)
  next
    case False
    have "\<forall>j \<in> set js. parses (Suc d) (indent_print (Suc l) j) j"
      using "5.IH" [OF False] "5.prems" depth_elem by (auto simp: list_all_iff simp del: json_depth.simps)
    moreover have "\<forall>j \<in> set js. \<exists>c cs. indent_print (Suc l) j = c # cs \<and> \<not> is_json_space c \<and> c \<noteq> CHR '']''"
      using "5.prems"(1) indent_head by (auto simp: list_all_iff)
    ultimately show ?thesis using parses_indented_array False d by blast
  qed
next
  case (6 l kvs)
  have d: "d < max_nesting" using "6.prems"(2) by simp
  show ?case
  proof (cases "kvs = []")
    case True
    then show ?thesis using d by (auto intro!: parses_atom)
  next
    case False
    have "\<forall>(k, v) \<in> set kvs. valid_utf8 k \<and> parses (Suc d) (indent_print (Suc l) v) v"
      using "6.IH" [OF False] "6.prems" depth_member
      by (fastforce simp: list_all_iff simp del: json_depth.simps)
    then show ?thesis using parses_indented_object False d by blast
  qed
next
  case (3 l t)
  then show ?case by (simp add: parses_number)
next
  case (4 l s)
  then show ?case
    by (intro parses_atom) (simp add: raw_string_def scan_raw_string map_value_def)
qed (auto intro!: parses_atom simp: scan_literal_def cut_prefix_def)

section \<open>Maps as sorted lists\<close>

lemma text_less_irrefl [simp]: "\<not> text_less s s"
  by (induction s) auto

lemma text_less_trans: "text_less r s \<Longrightarrow> text_less s t \<Longrightarrow> text_less r t"
proof (induction r arbitrary: s t)
  case Nil
  then show ?case by (cases s; cases t) auto
next
  case (Cons a r)
  then show ?case by (cases s; cases t) auto
qed

lemma text_less_total: "s = t \<or> text_less s t \<or> text_less t s"
proof (induction s arbitrary: t)
  case Nil
  then show ?case by (cases t) auto
next
  case (Cons a s)
  then show ?case
  proof (cases t)
    case (Cons b u)
    then show ?thesis using Cons.IH [of u] nat_neq_iff [of "byte a" "byte b"] by auto
  qed simp
qed

lemma map_of_put [simp]: "map_of (put_member k v m) = (map_of m)(k \<mapsto> v)"
  by (induction k v m rule: put_member.induct) (auto simp: fun_upd_twist)

lemma map_of_drop [simp]: "map_of (drop_member k m) = (map_of m)(k := None)"
  by (induction m) (auto simp: drop_member_def)

lemma set_put: "set (put_member k v m) \<subseteq> insert (k, v) (set m)"
  by (induction k v m rule: put_member.induct) auto

lemma put_keys: "fst ` set (put_member k v m) = insert k (fst ` set m)"
  by (induction k v m rule: put_member.induct) auto

lemma sorted_keys_Cons [simp]:
  "sorted_keys []" "sorted_keys (kv # m) \<longleftrightarrow> (\<forall>x \<in> set m. text_less (fst kv) (fst x)) \<and> sorted_keys m"
  by (auto simp: sorted_keys_def)

lemma sorted_put: "sorted_keys m \<Longrightarrow> sorted_keys (put_member k v m)"
proof (induction k v m rule: put_member.induct)
  case (2 k v l w m)
  have "\<forall>x \<in> set (put_member k v m). text_less l (fst x)" if "text_less l k"
    using 2 that set_put [of k v m] by auto
  then show ?case using 2 text_less_total [of k l] by (auto intro: text_less_trans)
qed simp

lemma sorted_drop: "sorted_keys m \<Longrightarrow> sorted_keys (drop_member k m)"
  by (simp add: sorted_keys_def drop_member_def sorted_wrt_map sorted_wrt_filter)

lemma put_last: "\<forall>x \<in> set m. text_less (fst x) k \<Longrightarrow> put_member k v m = m @ [(k, v)]"
proof (induction k v m rule: put_member.induct)
  case (2 k v l w m)
  then have "k \<noteq> l" "\<not> text_less k l" using text_less_trans [of k l k] by auto
  then show ?case using 2 by simp
qed simp

lemma build_sorted: "sorted_keys kvs \<Longrightarrow> build_map kvs = kvs"
proof -
  have "fold (\<lambda>(k, v). put_member k v) kvs m = m @ kvs"
    if "sorted_keys kvs" "\<forall>x \<in> set m. \<forall>y \<in> set kvs. text_less (fst x) (fst y)" for m
    using that by (induction kvs arbitrary: m) (auto simp: put_last)
  then show "sorted_keys kvs \<Longrightarrow> ?thesis" by (simp add: build_map_def)
qed

lemma sorted_build: "sorted_keys (build_map kvs)"
proof -
  have "sorted_keys m \<Longrightarrow> sorted_keys (fold (\<lambda>(k, v). put_member k v) kvs m)" for m
    by (induction kvs arbitrary: m) (auto simp: sorted_put)
  then show ?thesis by (simp add: build_map_def)
qed

text \<open>A legible tree is decoded as itself.\<close>

lemma any_tree_legible: "legible j \<Longrightarrow> any_tree j = j"
proof (induction j rule: any_tree.induct)
  case (2 js)
  then show ?case by (auto simp: list_all_iff intro: map_idI)
next
  case (3 kvs)
  then have "map (\<lambda>(k, j). (k, any_tree j)) kvs = kvs" by (fastforce simp: list_all_iff intro: map_idI)
  then show ?case using "3.prems" by (simp add: build_sorted)
qed simp_all

lemma any_value_legible: "legible j \<Longrightarrow> snd (any_value j)"
  by (induction j rule: any_value.induct) (auto simp: list_all_iff)

lemma read_marshalled:
  assumes "legible (JObj m)" and "json_depth (JObj m) \<le> max_nesting"
  shows "read_root (marshal_settings m) = Some (Some m)"
proof -
  let ?t = "indent_print 0 (JObj m)" and ?s = "marshal_settings m"
  have e: "ends_number [chr 10]" using ends_blanks [of "[chr 10]" "[]"] by (simp add: is_json_space_def byte_chr)
  obtain N where N: "\<And>n. N \<le> n \<Longrightarrow> parse_value n 0 (?t @ [chr 10]) = Some (JObj m, [chr 10])"
    by (rule parsesE [OF indent_roundtrip_at [OF assms(1), of 0] e]) (use assms(2) in auto)
  have "parse_value (max N (2 * length ?s + 2)) 0 ?s = parse_value (2 * length ?s + 2) 0 ?s"
    by (rule parse_fuel) auto
  then have "read_value ?s = Some (JObj m, [chr 10])"
    using N [of "max N (2 * length ?s + 2)"] by (simp add: read_value_def marshal_settings_def del: indent_print.simps)
  moreover have "skip_space [chr 10] = []" by (simp add: is_json_space_def byte_chr)
  ultimately have "json_unmarshal ?s = Some (JObj m)" by (simp add: json_unmarshal_def)
  then show ?thesis
    using any_value_legible [OF assms(1)] any_tree_legible [OF assms(1)]
    by (simp add: read_root_def del: any_tree.simps any_value.simps)
qed

end
