(* ===== verification/Installer.thy ===== *)
theory Installer
  imports Settings
begin

text \<open>
  \<open>internal/installer\<close>: the entries of the coordinator in the settings of the host agents. Merging and
  removing hook entries, the OpenCode entry, and the two commands over a machine that is its files,
  the commands that were run on it and the notes printed. Reading, writing and running can fail; how
  they do is an argument. The text of a parse error is not kept.
\<close>

section \<open>The hooks the coordinator needs\<close>

record coordinator_hook =
  hk_event :: string
  hk_matcher :: string

definition plain_hook :: "string \<Rightarrow> coordinator_hook" where
  "plain_hook e = \<lparr>hk_event = e, hk_matcher = []\<rparr>"

definition start_hook :: coordinator_hook where
  "start_hook = \<lparr>hk_event = ''SessionStart'', hk_matcher = ''startup|resume|clear|compact''\<rparr>"

definition hook_events :: "coordinator_hook list" where
  "hook_events = start_hook # map plain_hook [''UserPromptSubmit'', ''PreToolUse'', ''PostToolUse'', ''PreCompact'',
     ''PostCompact'', ''Stop'', ''SubagentStart'', ''SubagentStop'', ''SessionEnd'']"

definition codex_hook_events :: "coordinator_hook list" where
  "codex_hook_events = start_hook # map plain_hook [''SessionEnd'', ''UserPromptSubmit'', ''PreToolUse'', ''PermissionRequest'',
     ''PostToolUse'', ''PreCompact'', ''PostCompact'', ''Stop'', ''Interrupt'', ''SubagentStart'', ''SubagentStop'']"

definition grok_hook_events :: "coordinator_hook list" where
  "grok_hook_events = start_hook # map plain_hook [''UserPromptSubmit'', ''PreToolUse'', ''PostToolUse'', ''PreCompact'',
     ''PostCompact'', ''Stop'', ''SubagentStart'', ''SubagentStop'', ''SessionEnd'']"

definition hook_command :: "string \<Rightarrow> string" where
  "hook_command bin =
     (if CHR '' '' \<in> set bin then dquote # bin @ dquote # '' hook'' else bin @ '' hook'')"

definition hook_timeout :: "coordinator_hook \<Rightarrow> int" where
  "hook_timeout he = (if hk_event he = ''SessionEnd'' \<or> hk_event he = ''Interrupt'' then 3 else 5)"

section \<open>One matcher group\<close>

text \<open>The command is never empty, so an entry without one is never ours.\<close>

definition is_command :: "string \<Rightarrow> json \<Rightarrow> bool" where
  "is_command cmd h = (case h of JObj m \<Rightarrow> map_of m ''command'' = Some (JStr cmd) | _ \<Rightarrow> False)"

definition group_inner :: "members \<Rightarrow> json list" where
  "group_inner g = (case map_of g ''hooks'' of Some (JArr hs) \<Rightarrow> hs | _ \<Rightarrow> [])"

definition command_in_group :: "json list \<Rightarrow> string \<Rightarrow> bool \<times> bool" where
  "command_in_group inner cmd =
     (let ours = list_ex (is_command cmd) inner in (ours, ours \<and> list_all (is_command cmd) inner))"

definition strip_command :: "json list \<Rightarrow> string \<Rightarrow> json list" where
  "strip_command inner cmd = filter (\<lambda>h. \<not> is_command cmd h) inner"

definition group_matcher :: "members \<Rightarrow> string" where
  "group_matcher g = (case map_of g ''matcher'' of Some (JStr s) \<Rightarrow> s | _ \<Rightarrow> [])"

definition group_timeout :: "(float64 \<Rightarrow> int) \<Rightarrow> json list \<Rightarrow> int" where
  "group_timeout wild inner = (case inner of
     JObj m # _ \<Rightarrow> (case map_of m ''timeout'' of
        Some (JNum t) \<Rightarrow> (case float_of_literal t of Some x \<Rightarrow> float_to_int64 wild x | None \<Rightarrow> 0)
      | _ \<Rightarrow> 0)
   | _ \<Rightarrow> 0)"

definition canonical_group :: "string \<Rightarrow> coordinator_hook \<Rightarrow> json" where
  "canonical_group cmd he = JObj [(''hooks'', JArr [JObj [(''command'', JStr cmd), (''timeout'', json_int (hook_timeout he)),
     (''type'', JStr ''command'')]]), (''matcher'', JStr (hk_matcher he))]"

section \<open>Merging\<close>

text \<open>
  What becomes of one entry of an event's list: what stands in its place, whether it is the
  entry we need, and whether anything changed.
\<close>

definition upsert_entry :: "(float64 \<Rightarrow> int) \<Rightarrow> string \<Rightarrow> coordinator_hook \<Rightarrow> json \<Rightarrow> json list \<times> bool \<times> bool" where
  "upsert_entry wild cmd he e = (case e of
     JObj g \<Rightarrow>
       (let inner = group_inner g; (ours, only) = command_in_group inner cmd in
        if \<not> ours then ([e], False, False)
        else if only \<and> group_matcher g = hk_matcher he \<and> group_timeout wild inner = hook_timeout he then ([e], True, False)
        else if only then ([canonical_group cmd he], True, True)
        else (let kept = strip_command inner cmd in
          (if kept = [] then [] else [JObj (put_member ''hooks'' (JArr kept) g)], False, True)))
   | _ \<Rightarrow> ([e], False, False))"

definition upsert_our_hook :: "(float64 \<Rightarrow> int) \<Rightarrow> json list \<Rightarrow> string \<Rightarrow> coordinator_hook \<Rightarrow> json list \<times> bool" where
  "upsert_our_hook wild entries cmd he =
     (let rs = map (upsert_entry wild cmd he) entries;
          out = concat (map fst rs); found = list_ex (\<lambda>r. fst (snd r)) rs; changed = list_ex (\<lambda>r. snd (snd r)) rs in
      if found then (out, changed) else (out @ [canonical_group cmd he], True))"

fun merge_events :: "(float64 \<Rightarrow> int) \<Rightarrow> string \<Rightarrow> coordinator_hook list \<Rightarrow> members \<Rightarrow> bool \<Rightarrow> string + members \<times> bool" where
  "merge_events wild cmd [] hooks changed = Inr (hooks, changed)"
| "merge_events wild cmd (he # rest) hooks changed =
     (case (case map_of hooks (hk_event he) of
              None \<Rightarrow> Some [] | Some (JArr es) \<Rightarrow> Some es | Some _ \<Rightarrow> None) of
        None \<Rightarrow> Inl (''settings.json: hooks.'' @ hk_event he @ '' is not an array; refusing to overwrite'')
      | Some entries \<Rightarrow>
          (case upsert_our_hook wild entries cmd he of
             (updated, True) \<Rightarrow> merge_events wild cmd rest (put_member (hk_event he) (JArr updated) hooks) True
           | (_, False) \<Rightarrow> merge_events wild cmd rest hooks changed))"

definition merge_root :: "(float64 \<Rightarrow> int) \<Rightarrow> string \<Rightarrow> coordinator_hook list \<Rightarrow> members \<Rightarrow> string + members \<times> bool" where
  "merge_root wild cmd events root =
     (case (case map_of root ''hooks'' of None \<Rightarrow> Some [] | Some (JObj m) \<Rightarrow> Some m | Some _ \<Rightarrow> None) of
        None \<Rightarrow> Inl (''settings.json: '' @ dquote # ''hooks'' @ dquote # '' is not an object; refusing to overwrite'')
      | Some hooks \<Rightarrow> (case merge_events wild cmd events hooks False of
            Inl e \<Rightarrow> Inl e
          | Inr (hooks', changed) \<Rightarrow> Inr (if changed then put_member ''hooks'' (JObj hooks') root else root, changed)))"

definition merge_hooks :: "(float64 \<Rightarrow> int) \<Rightarrow> coordinator_hook list \<Rightarrow> string \<Rightarrow> string \<Rightarrow> string + string \<times> bool" where
  "merge_hooks wild events settings0 bin =
     (let settings = (if settings0 = [] then ''{}'' else settings0) in
      case read_root settings of
        None \<Rightarrow> Inl ''settings.json is not valid JSON''
      | Some root \<Rightarrow> (case merge_root wild (hook_command bin) events (case root of None \<Rightarrow> [] | Some m \<Rightarrow> m) of
            Inl e \<Rightarrow> Inl e
          | Inr (root', changed) \<Rightarrow> Inr (if changed then marshal_settings root' else settings, changed)))"

section \<open>Removing\<close>

definition remove_entry :: "string \<Rightarrow> json \<Rightarrow> json list \<times> bool" where
  "remove_entry cmd e = (case e of
     JObj g \<Rightarrow> (case map_of g ''hooks'' of
        Some (JArr inner) \<Rightarrow>
          (let kept = strip_command inner cmd in
           if inner = [] then ([e], False)
           else (if kept = [] then [] else [JObj (put_member ''hooks'' (JArr kept) g)], list_ex (is_command cmd) inner))
      | _ \<Rightarrow> ([e], False))
   | _ \<Rightarrow> ([e], False))"

definition remove_event :: "string \<Rightarrow> string \<times> json \<Rightarrow> members \<times> bool" where
  "remove_event cmd kv = (case kv of (event, v) \<Rightarrow> (case v of
     JArr (e # es) \<Rightarrow>
       (let rs = map (remove_entry cmd) (e # es); kept = concat (map fst rs) in
        (if kept = [] then [] else [(event, JArr kept)], list_ex snd rs))
   | _ \<Rightarrow> ([(event, v)], False)))"

definition remove_root :: "string \<Rightarrow> members \<Rightarrow> members \<times> bool" where
  "remove_root cmd root = (case map_of root ''hooks'' of
     Some (JObj hooks) \<Rightarrow>
       (let rs = map (remove_event cmd) hooks; hooks' = concat (map fst rs) in
        if \<not> list_ex snd rs then (root, False)
        else (if hooks' = [] then drop_member ''hooks'' root else put_member ''hooks'' (JObj hooks') root, True))
   | _ \<Rightarrow> (root, False))"

definition remove_hooks :: "string \<Rightarrow> string \<Rightarrow> string + string \<times> bool" where
  "remove_hooks settings bin =
     (if bin = [] then Inr (settings, False)
      else case read_root settings of
        None \<Rightarrow> Inl ''invalid JSON''
      | Some None \<Rightarrow> Inr (settings, False)
      | Some (Some root) \<Rightarrow> (case remove_root (hook_command bin) root of
          (root', changed) \<Rightarrow> Inr (if changed then marshal_settings root' else settings, changed)))"

section \<open>OpenCode\<close>

definition json_text :: "json \<Rightarrow> string" where
  "json_text j = (case j of JStr s \<Rightarrow> s | _ \<Rightarrow> [])"

definition open_code_entry_matches :: "members \<Rightarrow> string \<Rightarrow> bool" where
  "open_code_entry_matches entry bin =
     (map_of entry ''type'' = Some (JStr ''local'') \<and>
      (case map_of entry ''command'' of
         Some (JArr [a, b]) \<Rightarrow> json_text a = bin \<and> json_text b = ''mcp''
       | _ \<Rightarrow> False))"

definition our_name :: string where "our_name = ''agent-coordinator''"

definition our_open_code :: "string \<Rightarrow> json" where
  "our_open_code bin = JObj [(''command'', JArr [JStr bin, JStr ''mcp'']), (''enabled'', JBool True), (''type'', JStr ''local'')]"

definition has_our_open_code :: "members \<Rightarrow> string \<Rightarrow> bool" where
  "has_our_open_code mcp bin = (case map_of mcp our_name of Some (JObj e) \<Rightarrow> open_code_entry_matches e bin | _ \<Rightarrow> False)"

definition merge_open_code_config :: "string \<Rightarrow> string \<Rightarrow> string + string \<times> bool" where
  "merge_open_code_config config0 bin =
     (let config = (if trim_space config0 = [] then ''{}'' else config0) in
      case read_root config of
        None \<Rightarrow> Inl ''opencode.json is not plain JSON''
      | Some r \<Rightarrow>
          (let root = (case r of None \<Rightarrow> [] | Some m \<Rightarrow> m) in
           case (case map_of root ''mcp'' of None \<Rightarrow> Some [] | Some (JObj m) \<Rightarrow> Some m | Some _ \<Rightarrow> None) of
             None \<Rightarrow> Inl (''opencode.json: '' @ dquote # ''mcp'' @ dquote # '' is not an object; refusing to overwrite'')
           | Some mcp \<Rightarrow>
               if has_our_open_code mcp bin then Inr (config, False)
               else Inr (marshal_settings (put_member ''mcp'' (JObj (put_member our_name (our_open_code bin) mcp)) root), True)))"

definition remove_open_code_config :: "string \<Rightarrow> string \<Rightarrow> string + string \<times> bool" where
  "remove_open_code_config config bin =
     (case read_root config of
        None \<Rightarrow> Inl ''invalid JSON''
      | Some None \<Rightarrow> Inr (config, False)
      | Some (Some root) \<Rightarrow> (case map_of root ''mcp'' of
          Some (JObj mcp) \<Rightarrow>
            if \<not> has_our_open_code mcp bin then Inr (config, False)
            else (let mcp' = drop_member our_name mcp in
              Inr (marshal_settings (if mcp' = [] then drop_member ''mcp'' root else put_member ''mcp'' (JObj mcp') root), True))
        | _ \<Rightarrow> Inr (config, False)))"

end
