(* ===== verification/Machine.thy ===== *)
theory Machine
  imports Installer
begin

text \<open>
  The commands \<open>Install\<close> and \<open>Uninstall\<close> of \<open>internal/installer\<close> on a machine: its files, the commands
  that were run on it and the notes printed. Which reads, writes and commands fail is an argument,
  and so is what a failed \<open>os.WriteFile\<close> leaves of a file; \<open>writeFileAtomic\<close> leaves the old one.
\<close>

section \<open>The machine\<close>

datatype command_result = RunOk | RunMissing | RunFailed string

record machine =
  mc_files :: "string \<Rightarrow> string option"
  mc_ran :: "(string \<times> string list) list"
  mc_notes :: "string list"

record machine_env =
  me_linux :: bool
  me_read :: "string \<Rightarrow> string option"
  me_mkdir :: "string \<Rightarrow> string option"
  me_write :: "string \<Rightarrow> string option"
  me_torn :: "string \<Rightarrow> string option \<Rightarrow> string option"
  me_stuck :: "string \<Rightarrow> bool"
  me_run :: "nat \<Rightarrow> string \<Rightarrow> string list \<Rightarrow> command_result"

text \<open>A file that is not there reads as none; an error is something else.\<close>

definition read_file :: "machine_env \<Rightarrow> string \<Rightarrow> machine \<Rightarrow> string + string option" where
  "read_file v p w = (case me_read v p of Some e \<Rightarrow> Inl e | None \<Rightarrow> Inr (mc_files w p))"

definition set_file :: "string \<Rightarrow> string option \<Rightarrow> machine \<Rightarrow> machine" where
  "set_file p t w = w\<lparr>mc_files := (mc_files w)(p := t)\<rparr>"

definition write_file_atomic :: "machine_env \<Rightarrow> string \<Rightarrow> string \<Rightarrow> machine \<Rightarrow> machine \<times> string option" where
  "write_file_atomic v p t w = (case me_write v p of Some e \<Rightarrow> (w, Some e) | None \<Rightarrow> (set_file p (Some t) w, None))"

definition write_plain :: "machine_env \<Rightarrow> string \<Rightarrow> string \<Rightarrow> machine \<Rightarrow> machine \<times> string option" where
  "write_plain v p t w = (case me_write v p of
     Some e \<Rightarrow> (set_file p (me_torn v p (mc_files w p)) w, Some e)
   | None \<Rightarrow> (set_file p (Some t) w, None))"

definition remove_file :: "machine_env \<Rightarrow> string \<Rightarrow> machine \<Rightarrow> machine" where
  "remove_file v p w = (if me_stuck v p then w else set_file p None w)"

definition run_command :: "machine_env \<Rightarrow> string \<Rightarrow> string list \<Rightarrow> machine \<Rightarrow> machine \<times> command_result" where
  "run_command v n args w = (w\<lparr>mc_ran := mc_ran w @ [(n, args)]\<rparr>, me_run v (length (mc_ran w)) n args)"

definition print_note :: "string \<Rightarrow> machine \<Rightarrow> machine" where
  "print_note t w = w\<lparr>mc_notes := mc_notes w @ [t]\<rparr>"

text \<open>\<open>filepath.Join\<close> of several elements and \<open>filepath.Dir\<close> of a path that is joined.\<close>

definition join_paths :: "string list \<Rightarrow> string" where
  "join_paths es = (case dropWhile (\<lambda>e. e = []) es of [] \<Rightarrow> [] | es' \<Rightarrow> clean (join [slash] es'))"

definition dir_name :: "string \<Rightarrow> string" where
  "dir_name p = clean (rev (dropWhile (\<lambda>c. c \<noteq> slash) (rev p)))"

section \<open>One settings file\<close>

definition install_hook_config :: "machine_env \<Rightarrow> string \<Rightarrow> string \<Rightarrow> (string \<Rightarrow> string \<Rightarrow> string + string \<times> bool)
    \<Rightarrow> machine \<Rightarrow> machine \<times> string option" where
  "install_hook_config v path bin merge w = (case read_file v path w of
     Inl e \<Rightarrow> (w, Some e)
   | Inr cur \<Rightarrow> (case merge (case cur of None \<Rightarrow> [] | Some t \<Rightarrow> t) bin of
        Inl e \<Rightarrow> (w, Some e)
      | Inr (merged, changed) \<Rightarrow>
          if \<not> changed then (w, None)
          else (case me_mkdir v (dir_name path) of Some e \<Rightarrow> (w, Some e) | None \<Rightarrow> write_file_atomic v path merged w)))"

definition uninstall_hook_config :: "machine_env \<Rightarrow> string \<Rightarrow> string \<Rightarrow> machine \<Rightarrow> machine" where
  "uninstall_hook_config v path bin w = (case read_file v path w of
     Inr (Some cur) \<Rightarrow> (case remove_hooks cur bin of
        Inr (out, True) \<Rightarrow> fst (write_file_atomic v path out w)
      | _ \<Rightarrow> w)
   | _ \<Rightarrow> w)"

definition open_code_path :: "string \<Rightarrow> string" where
  "open_code_path home = join_paths [home, ''.config'', ''opencode'', ''opencode.json'']"

definition install_open_code :: "machine_env \<Rightarrow> string \<Rightarrow> string \<Rightarrow> machine \<Rightarrow> machine \<times> string option" where
  "install_open_code v bin home w = install_hook_config v (open_code_path home) bin merge_open_code_config w"

definition uninstall_open_code :: "machine_env \<Rightarrow> string \<Rightarrow> string \<Rightarrow> machine \<Rightarrow> machine \<times> string option" where
  "uninstall_open_code v bin home w = (case read_file v (open_code_path home) w of
     Inl e \<Rightarrow> (w, Some e)
   | Inr None \<Rightarrow> (w, None)
   | Inr (Some config) \<Rightarrow> (case remove_open_code_config config bin of
        Inl e \<Rightarrow> (w, Some e)
      | Inr (out, changed) \<Rightarrow> if \<not> changed then (w, None) else write_file_atomic v (open_code_path home) out w))"

section \<open>MCP clients\<close>

definition mcp_clients :: "string \<Rightarrow> (string \<times> string list \<times> string list) list" where
  "mcp_clients bin =
     [(''claude'', [''mcp'', ''remove'', ''--scope'', ''user'', ''agent-coordinator''],
         [''mcp'', ''add'', ''--scope'', ''user'', ''--transport'', ''stdio'', ''agent-coordinator'', ''--'', bin, ''mcp'']),
      (''codex'', [''mcp'', ''remove'', ''agent-coordinator''], [''mcp'', ''add'', ''agent-coordinator'', ''--'', bin, ''mcp'']),
      (''grok'', [''mcp'', ''remove'', ''--scope'', ''user'', ''agent-coordinator''],
         [''mcp'', ''add'', ''--scope'', ''user'', ''agent-coordinator'', ''--'', bin, ''mcp''])]"

definition skip_note :: "string \<Rightarrow> string" where
  "skip_note n = ''note: '' @ n @ '' not installed; skipping MCP registration''"

fun register_clients :: "machine_env \<Rightarrow> (string \<times> string list \<times> string list) list \<Rightarrow> machine \<Rightarrow> machine \<times> string option" where
  "register_clients v [] w = (w, None)"
| "register_clients v ((n, remove, add) # cs) w =
     (case run_command v n remove w of (w1, r1) \<Rightarrow>
        if r1 = RunMissing then register_clients v cs (print_note (skip_note n) w1)
        else (case run_command v n add w1 of
            (w2, RunOk) \<Rightarrow> register_clients v cs w2
          | (w2, RunMissing) \<Rightarrow> register_clients v cs (print_note (skip_note n) w2)
          | (w2, RunFailed e) \<Rightarrow> (w2, Some (n @ '' mcp add: '' @ e))))"

definition register_mcp_clients :: "machine_env \<Rightarrow> string \<Rightarrow> machine \<Rightarrow> machine \<times> string option" where
  "register_mcp_clients v bin w = register_clients v (mcp_clients bin) w"

definition unregister_mcp_clients :: "machine_env \<Rightarrow> machine \<Rightarrow> machine" where
  "unregister_mcp_clients v w =
     (let w1 = fst (run_command v ''claude'' [''mcp'', ''remove'', ''--scope'', ''user'', ''agent-coordinator''] w);
          w2 = fst (run_command v ''codex'' [''mcp'', ''remove'', ''agent-coordinator''] w1) in
      fst (run_command v ''grok'' [''mcp'', ''remove'', ''--scope'', ''user'', ''agent-coordinator''] w2))"

section \<open>systemd units\<close>

definition unit_files :: "string \<Rightarrow> string \<times> string" where
  "unit_files bin =
     (join [chr 10] [''[Unit]'', ''Description=Agent coordinator socket'', [], ''[Socket]'',
        ''ListenStream=%t/agent-coordinator.sock'', [], ''[Install]'', ''WantedBy=sockets.target'', []],
      join [chr 10] [''[Unit]'', ''Description=Agent coordinator daemon'', ''Requires=agent-coordinator.socket'', [],
        ''[Service]'', ''ExecStart='' @ bin @ '' daemon'', []])"

definition unit_dir :: "string \<Rightarrow> string" where
  "unit_dir home = join_paths [home, ''.config'', ''systemd'', ''user'']"

definition sock_path :: "string \<Rightarrow> string" where
  "sock_path home = join_paths [unit_dir home, ''agent-coordinator.socket'']"

definition svc_path :: "string \<Rightarrow> string" where
  "svc_path home = join_paths [unit_dir home, ''agent-coordinator.service'']"

fun run_units :: "machine_env \<Rightarrow> string \<Rightarrow> string list list \<Rightarrow> machine \<Rightarrow> machine" where
  "run_units v home [] w = w"
| "run_units v home (args # rest) w =
     (case run_command v ''systemctl'' args w of (w1, r) \<Rightarrow>
        if r = RunOk then run_units v home rest w1
        else (let w2 = fst (run_command v ''systemctl'' [''--user'', ''disable'', ''--now'', ''agent-coordinator.socket''] w1) in
          print_note ''note: systemctl unavailable or failed; skipping socket activation - clients start the daemon on demand''
            (remove_file v (svc_path home) (remove_file v (sock_path home) w2))))"

definition unit_commands :: "string list list" where
  "unit_commands = [[''--user'', ''daemon-reload''], [''--user'', ''enable'', ''--now'', ''agent-coordinator.socket''],
     [''--user'', ''try-restart'', ''agent-coordinator.service'']]"

definition install_units :: "machine_env \<Rightarrow> string \<Rightarrow> string \<Rightarrow> machine \<Rightarrow> machine \<times> string option" where
  "install_units v bin home w = (case me_mkdir v (unit_dir home) of
     Some e \<Rightarrow> (w, Some e)
   | None \<Rightarrow> (case write_plain v (sock_path home) (fst (unit_files bin)) w of
        (w1, Some e) \<Rightarrow> (w1, Some e)
      | (w1, None) \<Rightarrow> (case write_plain v (svc_path home) (snd (unit_files bin)) w1 of
           (w2, Some e) \<Rightarrow> (w2, Some e)
         | (w2, None) \<Rightarrow> (run_units v home unit_commands w2, None))))"

section \<open>The two commands\<close>

definition claude_path :: "string \<Rightarrow> string" where
  "claude_path home = join_paths [home, ''.claude'', ''settings.json'']"

definition codex_path :: "string \<Rightarrow> string" where
  "codex_path home = join_paths [home, ''.codex'', ''hooks.json'']"

definition grok_path :: "string \<Rightarrow> string" where
  "grok_path home = join_paths [home, ''.grok'', ''hooks'', ''agent-coordinator.json'']"

definition and_then :: "machine \<times> string option \<Rightarrow> (machine \<Rightarrow> machine \<times> string option) \<Rightarrow> machine \<times> string option" where
  "and_then r f = (case r of (w, Some e) \<Rightarrow> (w, Some e) | (w, None) \<Rightarrow> f w)"

definition note_error :: "string \<Rightarrow> machine \<times> string option \<Rightarrow> machine" where
  "note_error t r = (case r of (w, None) \<Rightarrow> w | (w, Some e) \<Rightarrow> print_note (t @ e) w)"

definition install :: "machine_env \<Rightarrow> (float64 \<Rightarrow> int) \<Rightarrow> string \<Rightarrow> string \<Rightarrow> machine \<Rightarrow> machine \<times> string option" where
  "install v wild bin home w =
     and_then (if me_linux v then install_units v bin home w else (w, None)) (\<lambda>w.
     and_then (install_hook_config v (claude_path home) bin (merge_hooks wild hook_events) w) (\<lambda>w.
     and_then (install_hook_config v (codex_path home) bin (merge_hooks wild codex_hook_events) w) (\<lambda>w.
     and_then (install_hook_config v (grok_path home) bin (merge_hooks wild grok_hook_events) w) (\<lambda>w.
     and_then (register_mcp_clients v bin w) (\<lambda>w.
       (note_error ''note: OpenCode MCP config: '' (install_open_code v bin home w), None))))))"

definition drop_empty_grok :: "machine_env \<Rightarrow> string \<Rightarrow> machine \<Rightarrow> machine" where
  "drop_empty_grok v home w = (case read_file v (grok_path home) w of
     Inr (Some b) \<Rightarrow>
       (let t = trim_space b in
        if t = [] \<or> t = ''{}'' \<or> t = ''{'' @ dquote # ''hooks'' @ dquote # '': {}}'' then remove_file v (grok_path home) w else w)
   | _ \<Rightarrow> w)"

definition uninstall_units :: "machine_env \<Rightarrow> string \<Rightarrow> machine \<Rightarrow> machine" where
  "uninstall_units v home w =
     (let w1 = fst (run_command v ''systemctl'' [''--user'', ''disable'', ''--now'', ''agent-coordinator.socket''] w);
          w2 = fst (run_command v ''systemctl'' [''--user'', ''stop'', ''agent-coordinator.service''] w1);
          w3 = remove_file v (svc_path home) (remove_file v (sock_path home) w2) in
      fst (run_command v ''systemctl'' [''--user'', ''daemon-reload''] w3))"

definition uninstall :: "machine_env \<Rightarrow> string \<Rightarrow> string \<Rightarrow> machine \<Rightarrow> machine" where
  "uninstall v bin home w =
     (let w1 = (if me_linux v then uninstall_units v home w else w);
          w2 = uninstall_hook_config v (claude_path home) bin w1;
          w3 = uninstall_hook_config v (codex_path home) bin w2;
          w4 = uninstall_hook_config v (grok_path home) bin w3;
          w5 = unregister_mcp_clients v (drop_empty_grok v home w4) in
      note_error ''note: OpenCode MCP config: '' (uninstall_open_code v bin home w5))"

end
