(* ===== verification/InstallerProps.thy ===== *)
theory InstallerProps
  imports Installer
begin

text \<open>
  What an installation leaves of a settings file: the coordinator's hooks are there once and for all,
  everything else is as it was, and a file of an unexpected shape is not touched.
\<close>

section \<open>What is ours and what is not\<close>

definition has_command :: "string \<Rightarrow> json \<Rightarrow> bool" where
  "has_command cmd e = (case e of JObj g \<Rightarrow> list_ex (is_command cmd) (group_inner g) | _ \<Rightarrow> False)"

definition our_group :: "(float64 \<Rightarrow> int) \<Rightarrow> string \<Rightarrow> coordinator_hook \<Rightarrow> json \<Rightarrow> bool" where
  "our_group wild cmd he e = (case e of
     JObj g \<Rightarrow> group_inner g \<noteq> [] \<and> list_all (is_command cmd) (group_inner g) \<and> group_matcher g = hk_matcher he \<and>
       group_timeout wild (group_inner g) = hook_timeout he
   | _ \<Rightarrow> False)"

text \<open>What somebody else put into an entry.\<close>

definition foreign_part :: "string \<Rightarrow> json \<Rightarrow> json list" where
  "foreign_part cmd e = (if \<not> has_command cmd e then [e] else
     (case e of JObj g \<Rightarrow> (let kept = strip_command (group_inner g) cmd in
        if kept = [] then [] else [JObj (put_member ''hooks'' (JArr kept) g)]) | _ \<Rightarrow> [e]))"

definition foreign_parts :: "string \<Rightarrow> json list \<Rightarrow> json list" where
  "foreign_parts cmd es = concat (map (foreign_part cmd) es)"

definition event_list :: "members \<Rightarrow> string \<Rightarrow> json list" where
  "event_list hooks ev = (case map_of hooks ev of Some (JArr es) \<Rightarrow> es | _ \<Rightarrow> [])"

definition hooks_of :: "members \<Rightarrow> members" where
  "hooks_of root = (case map_of root ''hooks'' of Some (JObj m) \<Rightarrow> m | _ \<Rightarrow> [])"

section \<open>One entry\<close>

lemma group_inner_put [simp]: "group_inner (put_member ''hooks'' (JArr kept) g) = kept"
  by (simp add: group_inner_def)

lemma strip_command_none: "list_ex (is_command cmd) (strip_command inner cmd) = False"
  by (simp add: strip_command_def list_ex_iff)

lemma strip_command_all: "strip_command inner cmd = [] \<longleftrightarrow> list_all (is_command cmd) inner"
  by (auto simp: strip_command_def filter_empty_conv list_all_iff)

lemma stripped_is_foreign: "\<not> has_command cmd (JObj (put_member ''hooks'' (JArr (strip_command inner cmd)) g))"
  by (simp add: has_command_def strip_command_none)

lemma foreign_part_clean: "e' \<in> set (foreign_part cmd e) \<Longrightarrow> \<not> has_command cmd e'"
  by (cases e) (auto simp: foreign_part_def Let_def stripped_is_foreign has_command_def [of _ "JArr _"]
      has_command_def [of _ "JStr _"] has_command_def [of _ "JNum _"] has_command_def [of _ "JBool _"]
      has_command_def [of _ JNull] split: if_splits)

lemma foreign_part_again: "foreign_parts cmd (foreign_part cmd e) = foreign_part cmd e"
proof -
  have "foreign_part cmd e' = [e']" if "e' \<in> set (foreign_part cmd e)" for e'
    using foreign_part_clean [OF that] by (simp add: foreign_part_def)
  moreover have "length (foreign_part cmd e) \<le> 1"
    by (auto simp: foreign_part_def Let_def split: json.splits)
  ultimately show ?thesis by (cases "foreign_part cmd e") (auto simp: foreign_parts_def)
qed

lemma json_int_small: "json_int 5 = JNum ''5''" "json_int 3 = JNum ''3''"
  by code_simp+

lemma float_small: "\<bar>i\<bar> < 2 ^ 53 \<Longrightarrow>
  (case float_of_literal (dec_int i) of Some x \<Rightarrow> float_to_int64 wild x | None \<Rightarrow> 0) = i"
proof -
  assume i: "\<bar>i\<bar> < 2 ^ 53"
  obtain x where "float_of_literal (dec_int i) = Some x" "float_trunc x = i" by (rule float_of_dec_int [OF i])
  moreover have "- (2 ^ 63) \<le> i" "i < 2 ^ 63" using i by (simp_all add: abs_less_iff)
  ultimately show ?thesis by (simp add: float_to_int64_def)
qed

lemma canonical_ours: "our_group wild cmd he (canonical_group cmd he)"
proof -
  have "group_timeout wild [JObj [(''command'', JStr cmd), (''timeout'', json_int (hook_timeout he)), (''type'', JStr ''command'')]]
      = hook_timeout he"
    using float_small [of "hook_timeout he" wild] by (simp add: group_timeout_def json_int_def hook_timeout_def)
  then show ?thesis
    by (simp add: our_group_def canonical_group_def group_inner_def group_matcher_def is_command_def)
qed

lemma our_group_command: "our_group wild cmd he e \<Longrightarrow> has_command cmd e \<and> foreign_part cmd e = []"
proof (cases e)
  case (JObj g)
  assume "our_group wild cmd he e"
  then have inner: "group_inner g \<noteq> []" "list_all (is_command cmd) (group_inner g)" by (simp_all add: our_group_def JObj)
  then have "has_command cmd e" by (auto simp: has_command_def JObj neq_Nil_conv)
  moreover have "strip_command (group_inner g) cmd = []" using inner(2) by (simp add: strip_command_all)
  ultimately show ?thesis by (simp add: foreign_part_def JObj Let_def)
qed (simp_all add: our_group_def)

text \<open>The three things an upsert does to an entry.\<close>

lemma upsert_entry_cases:
  obtains (foreign) "\<not> has_command cmd e" "upsert_entry wild cmd he e = ([e], False, False)"
  | (right) "our_group wild cmd he e" "upsert_entry wild cmd he e = ([e], True, False)"
  | (stale) "foreign_part cmd e = []" "has_command cmd e" "\<not> our_group wild cmd he e"
      "upsert_entry wild cmd he e = ([canonical_group cmd he], True, True)"
  | (mixed) "has_command cmd e" "\<not> our_group wild cmd he e" "upsert_entry wild cmd he e = (foreign_part cmd e, False, True)"
proof (cases "has_command cmd e")
  case False
  then show ?thesis
    by (intro foreign) (auto simp: has_command_def upsert_entry_def command_in_group_def Let_def split: json.splits)
next
  case True
  then obtain g where g: "e = JObj g" "list_ex (is_command cmd) (group_inner g)"
    by (auto simp: has_command_def split: json.splits)
  then have ne: "group_inner g \<noteq> []" by auto
  show ?thesis
  proof (cases "list_all (is_command cmd) (group_inner g)")
    case all: True
    then have fp: "foreign_part cmd e = []" using True by (simp add: foreign_part_def g(1) Let_def strip_command_all)
    show ?thesis
    proof (cases "our_group wild cmd he e")
      case True
      then show ?thesis using g ne all
        by (intro right) (simp_all add: upsert_entry_def command_in_group_def our_group_def Let_def)
    next
      case no: False
      then show ?thesis using True g ne all fp
        by (intro stale) (simp_all add: upsert_entry_def command_in_group_def our_group_def Let_def)
    qed
  next
    case False
    then show ?thesis using True g
      by (intro mixed) (simp_all add: upsert_entry_def command_in_group_def foreign_part_def our_group_def Let_def strip_command_all)
  qed
qed

lemma upsert_entry_foreign: "foreign_parts cmd (fst (upsert_entry wild cmd he e)) = foreign_part cmd e"
proof (cases rule: upsert_entry_cases [of cmd e wild he])
  case mixed
  then show ?thesis by (simp add: foreign_part_again)
next
  case stale
  then show ?thesis using our_group_command [OF canonical_ours] by (simp add: foreign_parts_def)
qed (simp_all add: foreign_parts_def)

lemma upsert_entry_ours:
  "e' \<in> set (fst (upsert_entry wild cmd he e)) \<Longrightarrow> has_command cmd e' \<Longrightarrow> our_group wild cmd he e'"
  using foreign_part_clean canonical_ours by (cases rule: upsert_entry_cases [of cmd e wild he]) auto

lemma upsert_entry_found:
  "fst (snd (upsert_entry wild cmd he e)) \<longleftrightarrow> (\<exists>e' \<in> set (fst (upsert_entry wild cmd he e)). our_group wild cmd he e')"
proof (cases rule: upsert_entry_cases [of cmd e wild he])
  case foreign
  then show ?thesis using our_group_command by auto
next
  case mixed
  then show ?thesis using foreign_part_clean our_group_command by fastforce
qed (simp_all add: canonical_ours)

lemma upsert_entry_same:
  "\<not> snd (snd (upsert_entry wild cmd he e)) \<Longrightarrow> fst (upsert_entry wild cmd he e) = [e]"
  by (cases rule: upsert_entry_cases [of cmd e wild he]) auto

lemma upsert_entry_settled:
  "\<not> snd (snd (upsert_entry wild cmd he e)) \<longleftrightarrow> \<not> has_command cmd e \<or> our_group wild cmd he e"
  using our_group_command by (cases rule: upsert_entry_cases [of cmd e wild he]) simp_all

section \<open>One event\<close>

definition settled_list :: "(float64 \<Rightarrow> int) \<Rightarrow> string \<Rightarrow> coordinator_hook \<Rightarrow> json list \<Rightarrow> bool" where
  "settled_list wild cmd he es \<longleftrightarrow>
     (\<exists>e \<in> set es. our_group wild cmd he e) \<and> (\<forall>e \<in> set es. has_command cmd e \<longrightarrow> our_group wild cmd he e)"

lemma foreign_parts_append [simp]:
  "foreign_parts cmd [] = []" "foreign_parts cmd (e # es) = foreign_part cmd e @ foreign_parts cmd es"
  "foreign_parts cmd (es @ es') = foreign_parts cmd es @ foreign_parts cmd es'"
  by (simp_all add: foreign_parts_def)

lemma foreign_parts_clean: "e \<in> set (foreign_parts cmd es) \<Longrightarrow> \<not> has_command cmd e"
  by (auto simp: foreign_parts_def dest: foreign_part_clean)

lemma foreign_parts_id: "\<forall>e \<in> set es. \<not> has_command cmd e \<Longrightarrow> foreign_parts cmd es = es"
  by (induction es) (auto simp: foreign_part_def)

lemma upsert_foreign: "foreign_parts cmd (fst (upsert_our_hook wild es cmd he)) = foreign_parts cmd es"
proof -
  have "foreign_parts cmd (concat (map fst (map (upsert_entry wild cmd he) es))) = foreign_parts cmd es"
    by (induction es) (simp_all add: upsert_entry_foreign)
  then show ?thesis
    using our_group_command [OF canonical_ours, of cmd he] by (simp add: upsert_our_hook_def Let_def)
qed

lemma upsert_settles: "settled_list wild cmd he (fst (upsert_our_hook wild es cmd he))"
proof -
  let ?rs = "map (upsert_entry wild cmd he) es"
  have o: "has_command cmd e \<Longrightarrow> our_group wild cmd he e" if "e \<in> set (concat (map fst ?rs))" for e
    using that upsert_entry_ours by fastforce
  show ?thesis
  proof (cases "list_ex (\<lambda>r. fst (snd r)) ?rs")
    case True
    then obtain e where "e \<in> set es" "fst (snd (upsert_entry wild cmd he e))" by (auto simp: list_ex_iff)
    then obtain e' where "e' \<in> set (concat (map fst ?rs))" "our_group wild cmd he e'"
      using upsert_entry_found by fastforce
    then show ?thesis using o True by (auto simp: upsert_our_hook_def settled_list_def Let_def)
  next
    case False
    then show ?thesis using o canonical_ours [of wild cmd he] by (auto simp: upsert_our_hook_def settled_list_def Let_def)
  qed
qed

lemma upsert_unchanged:
  "\<not> snd (upsert_our_hook wild es cmd he) \<longleftrightarrow> settled_list wild cmd he es"
  "\<not> snd (upsert_our_hook wild es cmd he) \<Longrightarrow> fst (upsert_our_hook wild es cmd he) = es"
proof -
  let ?rs = "map (upsert_entry wild cmd he) es"
  have all: "\<not> list_ex (\<lambda>r. snd (snd r)) ?rs \<longleftrightarrow> (\<forall>e \<in> set es. has_command cmd e \<longrightarrow> our_group wild cmd he e)"
    using upsert_entry_settled by (auto simp: list_ex_iff)
  have same: "concat (map fst ?rs) = es" if "\<not> list_ex (\<lambda>r. snd (snd r)) ?rs"
    using that by (induction es) (auto simp: upsert_entry_same)
  have "list_ex (\<lambda>r. fst (snd r)) ?rs \<longleftrightarrow> (\<exists>e \<in> set es. our_group wild cmd he e)"
    if "\<not> list_ex (\<lambda>r. snd (snd r)) ?rs"
  proof -
    have "fst (upsert_entry wild cmd he e) = [e]" if "e \<in> set es" for e
      using that \<open>\<not> list_ex _ _\<close> upsert_entry_same by (auto simp: list_ex_iff)
    then show ?thesis using upsert_entry_found by (auto simp: list_ex_iff)
  qed
  then show "\<not> snd (upsert_our_hook wild es cmd he) \<longleftrightarrow> settled_list wild cmd he es"
    and "\<not> snd (upsert_our_hook wild es cmd he) \<Longrightarrow> fst (upsert_our_hook wild es cmd he) = es"
    using all same by (auto simp: upsert_our_hook_def settled_list_def Let_def)
qed

section \<open>All events\<close>

lemma event_list_put: "event_list (put_member k v hooks) ev =
    (if ev = k then (case v of JArr es \<Rightarrow> es | _ \<Rightarrow> []) else event_list hooks ev)"
  by (auto simp: event_list_def)

lemma merge_events_step:
  assumes "merge_events wild cmd (he # evs) hooks c = Inr (hooks', c')"
  obtains h1 es c1 where "merge_events wild cmd evs h1 c1 = Inr (hooks', c')"
    and "h1 = hooks \<and> c1 = c \<or> h1 = put_member (hk_event he) (JArr es) hooks \<and> c1"
    and "map_of h1 (hk_event he) = Some (JArr es)" and "settled_list wild cmd he es"
    and "foreign_parts cmd es = foreign_parts cmd (event_list hooks (hk_event he))"
proof -
  obtain es where es: "map_of hooks (hk_event he) = None \<and> es = [] \<or> map_of hooks (hk_event he) = Some (JArr es)"
    using assms by (auto split: option.splits json.splits)
  then have l: "event_list hooks (hk_event he) = es" by (auto simp: event_list_def)
  obtain u ch where u: "upsert_our_hook wild es cmd he = (u, ch)" by fastforce
  have f: "settled_list wild cmd he u" "foreign_parts cmd u = foreign_parts cmd es"
    using upsert_settles [of wild cmd he es] upsert_foreign [of cmd wild es he] u by simp_all
  show ?thesis
  proof (cases ch)
    case True
    then have "merge_events wild cmd evs (put_member (hk_event he) (JArr u) hooks) True = Inr (hooks', c')"
      using assms es u by auto
    from that [OF this, of u] show ?thesis by (simp add: f l)
  next
    case False
    then have "u = es" using upsert_unchanged(2) [of wild es cmd he] u by simp
    moreover from this have "es \<noteq> []" using f(1) by (auto simp: settled_list_def)
    moreover from this have "merge_events wild cmd evs hooks c = Inr (hooks', c')" using assms es u False by auto
    ultimately show ?thesis using es f l by (intro that [of hooks c es]) auto
  qed
qed

lemma merge_events_others:
  assumes "merge_events wild cmd evs hooks c = Inr (hooks', c')" and "ev \<notin> hk_event ` set evs"
  shows "map_of hooks' ev = map_of hooks ev"
  using assms
proof (induction evs arbitrary: hooks c)
  case (Cons x evs)
  from Cons.prems(1) show ?case
    by (rule merge_events_step) (use Cons.IH Cons.prems(2) in auto)
qed simp

lemma merge_events_foreign:
  assumes "merge_events wild cmd evs hooks c = Inr (hooks', c')"
  shows "foreign_parts cmd (event_list hooks' ev) = foreign_parts cmd (event_list hooks ev)"
  using assms
proof (induction evs arbitrary: hooks c)
  case (Cons x evs)
  from Cons.prems show ?case
  proof (rule merge_events_step)
    fix h1 es c1
    assume rest: "merge_events wild cmd evs h1 c1 = Inr (hooks', c')"
      and h1: "h1 = hooks \<and> c1 = c \<or> h1 = put_member (hk_event x) (JArr es) hooks \<and> c1"
      and es: "foreign_parts cmd es = foreign_parts cmd (event_list hooks (hk_event x))"
    then show ?thesis using Cons.IH [OF rest] by (auto simp: event_list_put)
  qed
qed simp

lemma merge_events_settled:
  assumes "merge_events wild cmd evs hooks c = Inr (hooks', c')" and "distinct (map hk_event evs)" and "he \<in> set evs"
  shows "\<exists>es. map_of hooks' (hk_event he) = Some (JArr es) \<and> settled_list wild cmd he es"
  using assms
proof (induction evs arbitrary: hooks c)
  case (Cons x evs)
  from Cons.prems(1) show ?case
  proof (rule merge_events_step)
    fix h1 es c1
    assume rest: "merge_events wild cmd evs h1 c1 = Inr (hooks', c')"
      and es: "map_of h1 (hk_event x) = Some (JArr es)" "settled_list wild cmd x es"
    show ?thesis
    proof (cases "he = x")
      case True
      then show ?thesis using merge_events_others [OF rest, of "hk_event x"] Cons.prems(2) es by auto
    next
      case False
      then show ?thesis using Cons.IH [OF rest] Cons.prems by auto
    qed
  qed
qed simp

lemma merge_events_unchanged:
  assumes "merge_events wild cmd evs hooks c = Inr (hooks', c')"
  shows "(c \<longrightarrow> c') \<and> (\<not> c' \<longrightarrow> hooks' = hooks)"
  using assms
proof (induction evs arbitrary: hooks c)
  case (Cons x evs)
  from Cons.prems show ?case by (rule merge_events_step) (use Cons.IH in blast)
qed simp

lemma merge_settled_events:
  assumes "\<forall>he \<in> set evs. \<exists>es. map_of hooks (hk_event he) = Some (JArr es) \<and> settled_list wild cmd he es"
  shows "merge_events wild cmd evs hooks c = Inr (hooks, c)"
  using assms
proof (induction evs)
  case (Cons x evs)
  then obtain es where es: "map_of hooks (hk_event x) = Some (JArr es)" "settled_list wild cmd x es" by auto
  then have "\<not> snd (upsert_our_hook wild es cmd x)" using upsert_unchanged(1) by blast
  then show ?case using es Cons by (cases "upsert_our_hook wild es cmd x") auto
qed simp

lemma merge_events_error:
  "(\<exists>e. merge_events wild cmd evs hooks c = Inl e) \<longleftrightarrow>
     (\<exists>he \<in> set evs. \<exists>v. map_of hooks (hk_event he) = Some v \<and> (\<forall>es. v \<noteq> JArr es))"
  if "distinct (map hk_event evs)"
  using that
proof (induction evs arbitrary: hooks c)
  case (Cons x evs)
  show ?case
  proof (cases "case map_of hooks (hk_event x) of None \<Rightarrow> Some [] | Some (JArr es) \<Rightarrow> Some es | Some _ \<Rightarrow> None")
    case None
    then have "\<exists>v. map_of hooks (hk_event x) = Some v \<and> (\<forall>es. v \<noteq> JArr es)" by (auto split: option.splits json.splits)
    then show ?thesis using None by auto
  next
    case (Some es)
    obtain u ch where u: "upsert_our_hook wild es cmd x = (u, ch)" by fastforce
    have ok: "\<not> (\<exists>v. map_of hooks (hk_event x) = Some v \<and> (\<forall>es. v \<noteq> JArr es))" using Some by (auto split: option.splits json.splits)
    have d: "distinct (map hk_event evs)" "\<forall>he \<in> set evs. hk_event he \<noteq> hk_event x" using Cons.prems by (auto simp: image_iff)
    have "(\<exists>e. merge_events wild cmd (x # evs) hooks c = Inl e) \<longleftrightarrow>
        (\<exists>e. merge_events wild cmd evs (if ch then put_member (hk_event x) (JArr u) hooks else hooks) (ch \<or> c) = Inl e)"
      using Some u by (cases ch) simp_all
    also have "\<dots> \<longleftrightarrow> (\<exists>he \<in> set evs. \<exists>v. map_of hooks (hk_event he) = Some v \<and> (\<forall>es. v \<noteq> JArr es))"
      using Cons.IH [OF d(1)] d(2) by (cases ch) auto
    finally show ?thesis using ok by auto
  qed
qed simp

section \<open>Legible trees stay legible\<close>

definition fine :: "nat \<Rightarrow> json \<Rightarrow> bool" where
  "fine n j \<longleftrightarrow> legible j \<and> json_depth j \<le> n"

lemma fine_object: "fine n (JObj m) \<longleftrightarrow> 0 < n \<and> sorted_keys m \<and> (\<forall>(k, v) \<in> set m. valid_utf8 k \<and> fine (n - 1) v)"
  by (cases n) (auto simp: fine_def list_all_iff fold_max_le)

lemma fine_array: "fine n (JArr js) \<longleftrightarrow> 0 < n \<and> (\<forall>j \<in> set js. fine (n - 1) j)"
  by (cases n) (auto simp: fine_def list_all_iff fold_max_le)

lemma fine_text: "fine n (JStr s) \<longleftrightarrow> valid_utf8 s"
  by (simp add: fine_def)

lemma fine_at: "fine n (JObj m) \<Longrightarrow> map_of m k = Some v \<Longrightarrow> fine (n - 1) v"
  using map_of_SomeD [of m k v] by (auto simp: fine_object)

lemma fine_put: "fine n (JObj m) \<Longrightarrow> valid_utf8 k \<Longrightarrow> fine (n - 1) v \<Longrightarrow> fine n (JObj (put_member k v m))"
  using set_put [of k v m] sorted_put [of m k v] by (fastforce simp: fine_object)

lemma fine_drop: "fine n (JObj m) \<Longrightarrow> fine n (JObj (drop_member k m))"
  using sorted_drop [of m k] by (auto simp: fine_object drop_member_def)

text \<open>The search for the shortest literal ends with the first candidate when that one reads back.\<close>

lemma number_text_first:
  assumes "float_of_literal t = Some x" and "magnitude x = (n, d)" and "0 < n" and "\<not> has_prefix ''-'' t"
    and "decimal_point n d = p" and "n * 2 ^ 72 < d * 4722366482869645 \<or> d * 10 ^ 21 \<le> n \<longleftrightarrow> expo"
    and "nearest_digits n d (1 - p) = q # qs" and "decimal_text expo (q, p - 1) = t"
  shows "number_text t = t"
proof -
  have "[1 ..< 18] = (1::nat) # [2 ..< 18]" by (simp add: upt_conv_Cons)
  then obtain ts where "number_candidates n d = t # ts"
    unfolding number_candidates_def Let_def assms(5,6) using assms(7,8) by simp
  moreover have "same_magnitude x x" by (simp add: same_magnitude_def)
  ultimately show ?thesis using assms(1-4) by (simp add: number_text_def float_text_def)
qed

lemma small_bits: "bit_count 5 = 3" "bit_count 3 = 2" "bit_count (Suc 0) = 1"
  by (simp_all add: bit_count.simps)

lemma small_digits: "dec_int 5 = ''5''" "dec_int 3 = ''3''" "dec_nat 5 = ''5''" "dec_nat 3 = ''3''" "dec_nat (Suc 0) = ''1''"
  by code_simp+

lemma small_floats:
  "float_of_literal ''5'' = Some (Float 5629499534213120 (- 50))" "float_of_literal ''3'' = Some (Float 6755399441055744 (- 51))"
proof -
  have "float_scale 5 (Suc 0) = - 50" "float_scale 3 (Suc 0) = - 51" by (simp_all add: float_scale_def small_bits)
  moreover have "literal_ratio ''5'' = (False, 5, 1)" "literal_ratio ''3'' = (False, 3, 1)"
    using literal_ratio_int [of 5] literal_ratio_int [of 3] by (simp_all add: small_digits)
  ultimately show "float_of_literal ''5'' = Some (Float 5629499534213120 (- 50))"
      "float_of_literal ''3'' = Some (Float 6755399441055744 (- 51))"
    by (simp_all add: float_of_literal_def Let_def float_limit_def)
qed

lemma small_points:
  "decimal_point 5629499534213120 1125899906842624 = 1" "decimal_point 6755399441055744 2251799813685248 = 1"
  by (simp_all add: decimal_point_def Let_def dec_nat.simps [of "numeral _"] small_digits)

lemma fine_numbers: "fine n (JNum ''5'')" "fine n (JNum ''3'')"
proof -
  have "number_ok ''5''" "number_ok ''3''" by code_simp+
  moreover have "number_text ''5'' = ''5''"
    by (rule number_text_first [OF small_floats(1) _ _ _ small_points(1), where q = 5 and qs = "[]" and expo = False])
      (simp_all add: magnitude_def nearest_digits_def decimal_text_def strip_zeros.simps small_digits Let_def)
  moreover have "number_text ''3'' = ''3''"
    by (rule number_text_first [OF small_floats(2) _ _ _ small_points(2), where q = 3 and qs = "[]" and expo = False])
      (simp_all add: magnitude_def nearest_digits_def decimal_text_def strip_zeros.simps small_digits Let_def)
  ultimately show "fine n (JNum ''5'')" "fine n (JNum ''3'')" by (simp_all add: fine_def small_floats)
qed

lemma ascii_names [simp]:
  "valid_utf8 ''hooks''" "valid_utf8 ''command''" "valid_utf8 ''timeout''" "valid_utf8 ''type''" "valid_utf8 ''matcher''"
  "valid_utf8 ''mcp''" "valid_utf8 ''enabled''" "valid_utf8 ''local''" "valid_utf8 our_name"
  by (intro valid_utf8_ascii; code_simp)+

lemma canonical_fine:
  assumes "valid_utf8 cmd" and "valid_utf8 (hk_matcher he)" and "3 \<le> n"
  shows "fine n (canonical_group cmd he)"
proof -
  let ?h = "[(''command'', JStr cmd), (''timeout'', json_int (hook_timeout he)), (''type'', JStr ''command'')]"
  have "text_less ''command'' ''timeout''" "text_less ''command'' ''type''" "text_less ''timeout'' ''type''"
      "text_less ''hooks'' ''matcher''"
    by code_simp+
  then have k: "sorted_keys ?h" "sorted_keys [(''hooks'', x), (''matcher'', y)]" for x y by simp_all
  have t: "fine m (json_int (hook_timeout he))" for m using fine_numbers by (auto simp: hook_timeout_def json_int_small)
  have "fine m (JObj ?h)" if "0 < m" for m
    using that k(1) t assms(1) by (simp add: fine_object [of m] fine_text)
  then show ?thesis
    using k(2) assms(2,3) by (simp add: canonical_group_def fine_object [of n] fine_array [of "n - Suc 0"] fine_text)
qed

lemma foreign_part_fine: "fine n e \<Longrightarrow> e' \<in> set (foreign_part cmd e) \<Longrightarrow> fine n e'"
proof (cases "has_command cmd e")
  case True
  assume e: "fine n e" and e': "e' \<in> set (foreign_part cmd e)"
  obtain g where g: "e = JObj g" "list_ex (is_command cmd) (group_inner g)" using True by (auto simp: has_command_def split: json.splits)
  then obtain inner where i: "map_of g ''hooks'' = Some (JArr inner)" by (auto simp: group_inner_def split: option.splits json.splits)
  have k: "e' = JObj (put_member ''hooks'' (JArr (strip_command inner cmd)) g)"
    using e' True g i by (auto simp: foreign_part_def group_inner_def Let_def split: if_splits)
  have "fine (n - 1) (JArr inner)" using fine_at [OF e [unfolded g(1)] i] .
  then have "fine (n - 1) (JArr (strip_command inner cmd))" by (simp add: fine_array strip_command_def)
  then show ?thesis using e g(1) k fine_put by simp
qed (simp add: foreign_part_def)

lemma upsert_fine:
  assumes "\<forall>e \<in> set es. fine n e" and "valid_utf8 cmd" and "valid_utf8 (hk_matcher he)" and "3 \<le> n"
  shows "\<forall>e \<in> set (fst (upsert_our_hook wild es cmd he)). fine n e"
proof -
  note canon = canonical_fine [OF assms(2-4)]
  have "fine n e'" if "e \<in> set es" "e' \<in> set (fst (upsert_entry wild cmd he e))" for e e'
    using that assms(1) canon foreign_part_fine by (cases rule: upsert_entry_cases [of cmd e wild he]) auto
  then show ?thesis using canon by (auto simp: upsert_our_hook_def Let_def)
qed

definition known_event :: "coordinator_hook \<Rightarrow> bool" where
  "known_event he \<longleftrightarrow> valid_utf8 (hk_event he) \<and> valid_utf8 (hk_matcher he)"

lemma merge_events_fine:
  assumes "merge_events wild cmd evs hooks c = Inr (hooks', c')" and "fine n (JObj hooks)" and "5 \<le> n"
    and "valid_utf8 cmd" and "\<forall>he \<in> set evs. known_event he"
  shows "fine n (JObj hooks')"
  using assms(1,2,5)
proof (induction evs arbitrary: hooks c)
  case (Cons x evs)
  obtain es where es: "map_of hooks (hk_event x) = None \<and> es = [] \<or> map_of hooks (hk_event x) = Some (JArr es)"
    using Cons.prems(1) by (auto split: option.splits json.splits)
  then have "\<forall>e \<in> set es. fine (n - 2) e"
    using fine_at [OF Cons.prems(2), of "hk_event x" "JArr es"] by (auto simp: fine_array numeral_2_eq_2)
  then have "\<forall>e \<in> set (fst (upsert_our_hook wild es cmd x)). fine (n - 2) e"
    using upsert_fine assms(3,4) Cons.prems(3) by (auto simp: known_event_def)
  then have put: "fine n (JObj (put_member (hk_event x) (JArr (fst (upsert_our_hook wild es cmd x))) hooks))"
    using Cons.prems(2,3) assms(3) by (intro fine_put) (auto simp: fine_array known_event_def numeral_2_eq_2)
  obtain u ch where u: "upsert_our_hook wild es cmd x = (u, ch)" by fastforce
  have "merge_events wild cmd evs (if ch then put_member (hk_event x) (JArr u) hooks else hooks) (ch \<or> c) = Inr (hooks', c')"
    using Cons.prems(1) es u by (cases ch) auto
  then show ?case using Cons.IH Cons.prems(2,3) put u by (cases ch) auto
qed simp

section \<open>The whole file\<close>

definition root_of :: "string \<Rightarrow> members option" where
  "root_of s = map_option (\<lambda>r. case r of None \<Rightarrow> [] | Some m \<Rightarrow> m) (read_root (if s = [] then ''{}'' else s))"

lemma merge_root_Inr:
  assumes "merge_root wild cmd events root = Inr (root', changed)"
  obtains hooks where "merge_events wild cmd events (hooks_of root) False = Inr (hooks, changed)"
    and "root' = (if changed then put_member ''hooks'' (JObj hooks) root else root)"
    and "map_of root ''hooks'' = None \<or> (\<exists>m. map_of root ''hooks'' = Some (JObj m))"
  using assms by (auto simp: merge_root_def hooks_of_def split: option.splits json.splits sum.splits prod.splits)

lemma hooks_of_put [simp]: "hooks_of (put_member ''hooks'' (JObj m) root) = m"
  by (simp add: hooks_of_def)

lemma merged_hooks:
  assumes "merge_root wild cmd events root = Inr (root', changed)"
  shows "merge_events wild cmd events (hooks_of root) False = Inr (hooks_of root', changed)"
proof -
  obtain hooks where h: "merge_events wild cmd events (hooks_of root) False = Inr (hooks, changed)"
      "root' = (if changed then put_member ''hooks'' (JObj hooks) root else root)"
    by (rule merge_root_Inr [OF assms])
  then show ?thesis using merge_events_unchanged [OF h(1)] by auto
qed

lemma merge_root_again:
  assumes "merge_root wild cmd events root = Inr (root', changed)" and "distinct (map hk_event events)"
  shows "merge_root wild cmd events root' = Inr (root', False)"
proof -
  have again: "merge_events wild cmd events (hooks_of root') False = Inr (hooks_of root', False)"
    by (rule merge_settled_events) (use merge_events_settled [OF merged_hooks [OF assms(1)] assms(2)] in blast)
  obtain hooks where "root' = (if changed then put_member ''hooks'' (JObj hooks) root else root)"
      "map_of root ''hooks'' = None \<or> (\<exists>m. map_of root ''hooks'' = Some (JObj m))"
    by (rule merge_root_Inr [OF assms(1)])
  then have "map_of root' ''hooks'' = None \<or> (\<exists>m. map_of root' ''hooks'' = Some (JObj m))" by (auto split: if_splits)
  then show ?thesis using again by (auto simp: merge_root_def hooks_of_def)
qed

lemma fine_hooks:
  assumes "fine n (JObj root)" and "1 < n"
  shows "fine (n - 1) (JObj (hooks_of root))"
proof -
  have "fine (n - 1) (JObj [])" using assms(2) by (simp add: fine_object)
  then show ?thesis using fine_at [OF assms(1), of "''hooks''"] by (auto simp: hooks_of_def split: option.split json.split)
qed

lemma merge_root_fine:
  assumes "merge_root wild cmd events root = Inr (root', changed)" and "fine n (JObj root)" and "6 \<le> n"
    and "valid_utf8 cmd" and "\<forall>he \<in> set events. known_event he"
  shows "fine n (JObj root')"
proof -
  obtain hooks where h: "merge_events wild cmd events (hooks_of root) False = Inr (hooks, changed)"
      "root' = (if changed then put_member ''hooks'' (JObj hooks) root else root)"
    by (rule merge_root_Inr [OF assms(1)])
  have "fine (n - 1) (JObj hooks)"
    using assms(3) by (intro merge_events_fine [OF h(1) fine_hooks [OF assms(2)] _ assms(4,5)]) auto
  then show ?thesis using h(2) assms(2) fine_put [of n root "''hooks''" "JObj hooks"] by simp
qed

lemma root_of_marshalled: "fine max_nesting (JObj m) \<Longrightarrow> root_of (marshal_settings m) = Some m"
  using read_marshalled [of m] by (auto simp: root_of_def fine_def marshal_settings_def)

text \<open>A merge in terms of trees.\<close>

lemma merge_hooks_tree:
  assumes "root_of s = Some root"
  shows "merge_hooks wild events s bin = (case merge_root wild (hook_command bin) events root of
      Inl e \<Rightarrow> Inl e
    | Inr (root', changed) \<Rightarrow> Inr (if changed then marshal_settings root' else if s = [] then ''{}'' else s, changed))"
proof -
  obtain r where "read_root (if s = [] then ''{}'' else s) = Some r" "root = (case r of None \<Rightarrow> [] | Some m \<Rightarrow> m)"
    using assms by (auto simp: root_of_def)
  then show ?thesis by (simp add: merge_hooks_def Let_def)
qed

lemma merge_hooks_Inr:
  assumes "merge_hooks wild events s bin = Inr (out, changed)"
  obtains root root' where "root_of s = Some root" "merge_root wild (hook_command bin) events root = Inr (root', changed)"
    and "out = (if changed then marshal_settings root' else if s = [] then ''{}'' else s)"
proof -
  obtain root where r: "root_of s = Some root"
    using assms by (auto simp: merge_hooks_def root_of_def Let_def split: option.splits)
  then show ?thesis using assms that [OF r]
    by (auto simp: merge_hooks_tree [OF r] split: sum.splits prod.splits if_splits)
qed

lemma known_hooks:
  assumes "events \<in> {hook_events, codex_hook_events, grok_hook_events}"
  shows "distinct (map hk_event events)" and "\<forall>he \<in> set events. known_event he" and "events \<noteq> []"
proof -
  show "distinct (map hk_event events)"
    using assms by (auto simp: hook_events_def codex_hook_events_def grok_hook_events_def plain_hook_def start_hook_def)
  have "valid_utf8 []" by code_simp
  moreover have "\<forall>he \<in> set events. is_ascii (hk_event he) \<and> is_ascii (hk_matcher he)"
    using assms by (elim insertE emptyE; simp only:; code_simp)
  ultimately show "\<forall>he \<in> set events. known_event he" by (simp add: known_event_def valid_utf8_ascii)
  show "events \<noteq> []" using assms by (auto simp: hook_events_def codex_hook_events_def grok_hook_events_def)
qed

lemma hook_command_utf8: "valid_utf8 bin \<Longrightarrow> valid_utf8 (hook_command bin)"
proof -
  assume b: "valid_utf8 bin"
  have "valid_utf8 [dquote]" "valid_utf8 ('' hook'')" "valid_utf8 (dquote # '' hook'')" by (intro valid_utf8_ascii; code_simp)+
  then have "valid_utf8 ([dquote] @ bin @ dquote # '' hook'')" "valid_utf8 (bin @ '' hook'')"
    using b by (intro valid_utf8_append; simp)+
  then show ?thesis by (simp add: hook_command_def)
qed

section \<open>Removal\<close>

lemma put_same: "sorted_keys m \<Longrightarrow> map_of m k = Some v \<Longrightarrow> put_member k v m = m"
proof (induction k v m rule: put_member.induct)
  case (2 k v l w m)
  have "\<not> text_less k l" if "k \<noteq> l"
    using 2 that map_of_SomeD [of m k v] text_less_trans [of k l k] by force
  then show ?case using 2 by auto
qed simp

lemma remove_entry_result:
  assumes "fine n e"
  shows "remove_entry cmd e = (foreign_part cmd e, has_command cmd e)"
proof (cases e)
  case (JObj g)
  have s: "sorted_keys g" using assms by (simp add: JObj fine_object)
  show ?thesis
  proof (cases "map_of g ''hooks''")
    case (Some j)
    then show ?thesis
    proof (cases j)
      case (JArr inner)
      have "strip_command inner cmd = inner" if "\<not> list_ex (is_command cmd) inner"
        using that by (auto simp: strip_command_def list_ex_iff filter_id_conv)
      then show ?thesis using s Some JArr put_same [OF s, of "''hooks''" "JArr inner"]
        by (cases "inner = []") (auto simp: \<open>e = JObj g\<close> remove_entry_def foreign_part_def has_command_def group_inner_def Let_def)
    qed (auto simp: \<open>e = JObj g\<close> remove_entry_def foreign_part_def has_command_def group_inner_def)
  qed (simp add: \<open>e = JObj g\<close> remove_entry_def foreign_part_def has_command_def group_inner_def)
qed (simp_all add: remove_entry_def foreign_part_def has_command_def)

lemma remove_event_result:
  assumes "fine n v"
  shows "remove_event cmd (ev, v) = (case v of
      JArr (e # es) \<Rightarrow> (if foreign_parts cmd (e # es) = [] then [] else [(ev, JArr (foreign_parts cmd (e # es)))],
        list_ex (has_command cmd) (e # es))
    | _ \<Rightarrow> ([(ev, v)], False))"
proof (cases v)
  case (JArr es)
  have each: "remove_entry cmd e = (foreign_part cmd e, has_command cmd e)" if "e \<in> set es" for e
    using assms remove_entry_result that by (auto simp: JArr fine_array)
  then have "concat (map fst (map (remove_entry cmd) es)) = foreign_parts cmd es"
    by (simp add: foreign_parts_def comp_def cong: map_cong)
  moreover have "list_ex snd (map (remove_entry cmd) es) = list_ex (has_command cmd) es"
    using each by (simp add: list_ex_iff)
  ultimately show ?thesis
    by (cases es) (simp_all only: JArr remove_event_def Let_def prod.case json.case list.case)
qed (simp_all add: remove_event_def)

definition removed :: "string \<Rightarrow> members \<Rightarrow> members" where
  "removed cmd hooks = concat (map (\<lambda>kv. fst (remove_event cmd kv)) hooks)"

lemma remove_event_key: "kv \<in> set (fst (remove_event cmd (ev, v))) \<Longrightarrow> fst kv = ev"
  by (auto simp: remove_event_def Let_def split: json.splits list.splits if_splits)

lemma removed_keys:
  assumes "kv \<in> set (removed cmd hooks)"
  shows "fst kv \<in> fst ` set hooks"
proof -
  from assms obtain k v where "(k, v) \<in> set hooks" "kv \<in> set (fst (remove_event cmd (k, v)))" by (auto simp: removed_def)
  then show ?thesis using remove_event_key [of kv cmd k v] by (auto intro: image_eqI [of _ fst "(k, v)"])
qed

lemma event_list_Cons: "event_list ((k, v) # hooks) ev = (if ev = k then (case v of JArr es \<Rightarrow> es | _ \<Rightarrow> []) else event_list hooks ev)"
  by (auto simp: event_list_def)

lemma event_list_none: "ev \<notin> fst ` set hooks \<Longrightarrow> event_list hooks ev = []"
  by (auto simp: event_list_def map_of_eq_None_iff [symmetric])

lemma removed_result:
  assumes "fine n (JObj hooks)"
  shows "event_list (removed cmd hooks) ev = foreign_parts cmd (event_list hooks ev) \<and> fine n (JObj (removed cmd hooks))"
  using assms
proof (induction hooks)
  case Nil
  then show ?case by (simp add: removed_def event_list_def)
next
  case (Cons kv hooks)
  obtain k v where kv: "kv = (k, v)" by (cases kv)
  have v: "fine (n - 1) v" "valid_utf8 k" "\<forall>x \<in> set hooks. text_less k (fst x)" and h: "fine n (JObj hooks)"
    using Cons.prems by (auto simp: fine_object kv)
  have IH: "event_list (removed cmd hooks) ev = foreign_parts cmd (event_list hooks ev)" "fine n (JObj (removed cmd hooks))"
    using Cons.IH h by auto
  have k: "k \<notin> fst ` set hooks" using v(3) by auto
  then have none: "event_list (removed cmd hooks) k = []" "event_list hooks k = []"
    using removed_keys by (fastforce intro: event_list_none)+
  have rm: "removed cmd ((k, v) # hooks) = fst (remove_event cmd (k, v)) @ removed cmd hooks" by (simp add: removed_def)
  have less: "\<forall>x \<in> set (removed cmd hooks). text_less k (fst x)" using removed_keys v(3) by fastforce
  show ?case
  proof (cases "\<exists>e es. v = JArr (e # es)")
    case False
    then have "fst (remove_event cmd (k, v)) = [(k, v)]" "ev = k \<Longrightarrow> event_list [(k, v)] ev = []"
      by (auto simp: remove_event_def event_list_Cons split: json.splits list.splits) (metis list.exhaust)
    then show ?thesis using IH v less by (auto simp: rm kv event_list_Cons fine_object)
  next
    case True
    then obtain e es where es: "v = JArr (e # es)" by blast
    let ?kept = "foreign_parts cmd (e # es)"
    have r: "fst (remove_event cmd (k, v)) = (if ?kept = [] then [] else [(k, JArr ?kept)])"
      using remove_event_result [OF v(1)] by (simp add: es)
    have "fine (n - 1) (JArr ?kept)"
      using v(1) foreign_part_fine by (fastforce simp: es fine_array foreign_parts_def)
    moreover have "removed cmd (kv # hooks) = (if ?kept = [] then [] else [(k, JArr ?kept)]) @ removed cmd hooks"
      using rm r by (simp only: kv)
    ultimately show ?thesis using IH v(2) less none by (auto simp: kv es event_list_Cons fine_object)
  qed
qed

lemma remove_root_result:
  assumes "fine n (JObj root)" and "1 < n" and "remove_root cmd root = (root', changed)"
  shows "fine n (JObj root')" and "event_list (hooks_of root') ev = foreign_parts cmd (event_list (hooks_of root) ev)"
    and "k \<noteq> ''hooks'' \<Longrightarrow> map_of root' k = map_of root k" and "\<not> changed \<Longrightarrow> root' = root"
proof -
  have f: "fine (n - 1) (JObj (hooks_of root))" by (rule fine_hooks [OF assms(1,2)])
  let ?rs = "map (remove_event cmd) (hooks_of root)"
  have rm: "concat (map fst ?rs) = removed cmd (hooks_of root)" by (simp add: removed_def comp_def)
  consider (same) "root' = root" "\<not> changed" "\<not> list_ex snd ?rs \<or> hooks_of root = []"
    | (gone) "removed cmd (hooks_of root) = []" "root' = drop_member ''hooks'' root" changed
    | (put) "root' = put_member ''hooks'' (JObj (removed cmd (hooks_of root))) root" changed
    using assms(3) rm by (auto simp: remove_root_def hooks_of_def Let_def split: option.splits json.splits if_splits)
  then have "fine n (JObj root') \<and> event_list (hooks_of root') ev = foreign_parts cmd (event_list (hooks_of root) ev) \<and>
    (k \<noteq> ''hooks'' \<longrightarrow> map_of root' k = map_of root k) \<and> (\<not> changed \<longrightarrow> root' = root)"
  proof cases
    case same
    have "\<not> has_command cmd e" if "e \<in> set (event_list (hooks_of root) ev)" for e
    proof -
      obtain es where es: "map_of (hooks_of root) ev = Some (JArr es)" "e \<in> set es"
        using \<open>e \<in> set (event_list _ _)\<close> by (cases "map_of (hooks_of root) ev") (auto simp: event_list_def split: json.splits)
      then have in_hooks: "(ev, JArr es) \<in> set (hooks_of root)" by (simp add: map_of_SomeD)
      then have "fine (n - 1 - 1) (JArr es)" using f by (auto simp: fine_object)
      then have "snd (remove_event cmd (ev, JArr es)) = list_ex (has_command cmd) es"
        using remove_event_result [of "n - 1 - 1" "JArr es" cmd ev] es(2) by (cases es) simp_all
      moreover have "\<not> snd (remove_event cmd (ev, JArr es))" using same(3) in_hooks by (auto simp: list_ex_iff)
      ultimately show ?thesis using es(2) by (auto simp: list_ex_iff)
    qed
    then show ?thesis using same assms(1) foreign_parts_id by auto
  next
    case gone
    then show ?thesis using removed_result [OF f, of cmd ev] fine_drop [OF assms(1)] by (simp add: hooks_of_def event_list_def)
  next
    case put
    then show ?thesis using removed_result [OF f, of cmd ev] fine_put [OF assms(1), of "''hooks''"] by simp
  qed
  then show "fine n (JObj root')" "event_list (hooks_of root') ev = foreign_parts cmd (event_list (hooks_of root) ev)"
    "k \<noteq> ''hooks'' \<Longrightarrow> map_of root' k = map_of root k" "\<not> changed \<Longrightarrow> root' = root" by auto
qed

section \<open>Properties\<close>

lemma merged_root:
  assumes "merge_hooks wild events s bin = Inr (out, changed)" and "events \<in> {hook_events, codex_hook_events, grok_hook_events}"
    and "root_of s = Some root" and "fine max_nesting (JObj root)" and "valid_utf8 bin"
  obtains root' where "merge_root wild (hook_command bin) events root = Inr (root', changed)"
    and "fine max_nesting (JObj root')" and "root_of out = Some root'" and "out \<noteq> []"
    and "\<not> changed \<Longrightarrow> out = (if s = [] then ''{}'' else s)" and "\<And>k. k \<noteq> ''hooks'' \<Longrightarrow> map_of root' k = map_of root k"
proof -
  note ev = known_hooks [OF assms(2)]
  obtain root' where r: "merge_root wild (hook_command bin) events root = Inr (root', changed)"
      "out = (if changed then marshal_settings root' else if s = [] then ''{}'' else s)"
    using assms(1) by (auto simp: merge_hooks_tree [OF assms(3)] split: sum.splits prod.splits)
  have f: "fine max_nesting (JObj root')"
    by (rule merge_root_fine [OF r(1) assms(4) _ hook_command_utf8 [OF assms(5)] ev(2)]) (simp add: max_nesting_def)
  obtain hooks where h: "merge_events wild (hook_command bin) events (hooks_of root) False = Inr (hooks, changed)"
      "root' = (if changed then put_member ''hooks'' (JObj hooks) root else root)"
    by (rule merge_root_Inr [OF r(1)])
  have "root_of out = Some root'"
  proof (cases changed)
    case True
    then show ?thesis using r(2) root_of_marshalled [OF f] by simp
  next
    case False
    then show ?thesis using r(2) h(2) assms(3) by (simp add: root_of_def)
  qed
  moreover have "map_of root' k = map_of root k" if "k \<noteq> ''hooks''" for k using that h(2) by simp
  moreover have "out \<noteq> []" using r(2) by (simp add: marshal_settings_def)
  ultimately show ?thesis using that [OF r(1) f] r(2) by simp
qed

text \<open>
  C28. An installation settles a settings file for good and keeps what others put there. After a
  merge, a second one finds nothing to do; every event runs our command, in entries that are
  ours alone with the matcher and the timeout we ask for; the other keys of the file are as they
  were, and so is, event by event, everything that is not ours. The file is one whose text is UTF-8
  and whose numbers print as they were read.
\<close>

theorem install_settles_settings:
  assumes "merge_hooks wild events s bin = Inr (out, changed)" and "events \<in> {hook_events, codex_hook_events, grok_hook_events}"
    and "root_of s = Some root" and "fine max_nesting (JObj root)" and "valid_utf8 bin"
  shows "\<exists>root'. root_of out = Some root' \<and> merge_hooks wild events out bin = Inr (out, False) \<and>
    (\<forall>k. k \<noteq> ''hooks'' \<longrightarrow> map_of root' k = map_of root k) \<and>
    (\<forall>ev. foreign_parts (hook_command bin) (event_list (hooks_of root') ev)
        = foreign_parts (hook_command bin) (event_list (hooks_of root) ev)) \<and>
    (\<forall>he \<in> set events. settled_list wild (hook_command bin) he (event_list (hooks_of root') (hk_event he)))"
proof -
  note d = known_hooks(1) [OF assms(2)]
  obtain root' where r: "merge_root wild (hook_command bin) events root = Inr (root', changed)"
      "root_of out = Some root'" "out \<noteq> []" "\<And>k. k \<noteq> ''hooks'' \<Longrightarrow> map_of root' k = map_of root k"
    by (rule merged_root [OF assms]) blast
  note m = merged_hooks [OF r(1)]
  have "merge_hooks wild events out bin = Inr (out, False)"
    using merge_root_again [OF r(1) d] r(3) by (simp add: merge_hooks_tree [OF r(2)])
  moreover have "settled_list wild (hook_command bin) he (event_list (hooks_of root') (hk_event he))"
    if "he \<in> set events" for he
    using merge_events_settled [OF m d that] by (auto simp: event_list_def)
  ultimately show ?thesis using r(2,4) merge_events_foreign [OF m] by blast
qed

definition sample_settings :: members where
  "sample_settings = [(''hooks'', JObj [(''Stop'', JArr [JObj [(''hooks'', JArr [JObj [(''command'', JStr ''beep'')]])]])]), (''model'', JStr ''x'')]"

lemma sample_fine: "fine max_nesting (JObj sample_settings)"
proof -
  have "valid_utf8 ''Stop''" "valid_utf8 ''beep''" "valid_utf8 ''model''" "valid_utf8 ''x''" by (intro valid_utf8_ascii; code_simp)+
  moreover have "text_less ''hooks'' ''model''" by code_simp
  ultimately show ?thesis by (simp add: sample_settings_def fine_def max_nesting_def)
qed

lemma sample_root: "root_of (marshal_settings sample_settings) = Some sample_settings"
  by (rule root_of_marshalled [OF sample_fine])

lemma sample_merges:
  obtains out where "merge_hooks wild hook_events (marshal_settings sample_settings) ''ac'' = Inr (out, True)"
proof -
  have "\<nexists>e. merge_events wild (hook_command ''ac'') hook_events (hooks_of sample_settings) False = Inl e"
    using merge_events_error [OF known_hooks(1), of hook_events wild "hook_command ''ac''" "hooks_of sample_settings" False]
    by (simp add: sample_settings_def hooks_of_def)
  then obtain hooks c where m: "merge_events wild (hook_command ''ac'') hook_events (hooks_of sample_settings) False = Inr (hooks, c)"
    by (cases "merge_events wild (hook_command ''ac'') hook_events (hooks_of sample_settings) False") auto
  have c
  proof (rule ccontr)
    assume "\<not> c"
    then have "hooks = hooks_of sample_settings" using merge_events_unchanged [OF m] by simp
    moreover have "start_hook \<in> set hook_events" by (simp add: hook_events_def)
    ultimately show False
      using merge_events_settled [OF m known_hooks(1), of start_hook] by (simp add: sample_settings_def hooks_of_def start_hook_def)
  qed
  then show ?thesis using m that
    by (simp add: merge_hooks_tree [OF sample_root] merge_root_def) (simp add: sample_settings_def hooks_of_def)
qed

theorem install_settles_settings_witness:
  "\<exists>out root'. merge_hooks (\<lambda>f. 0) hook_events (marshal_settings sample_settings) ''ac'' = Inr (out, True) \<and>
     root_of out = Some root' \<and> map_of root' ''model'' = Some (JStr ''x'') \<and> merge_hooks (\<lambda>f. 0) hook_events out ''ac'' = Inr (out, False)"
proof -
  obtain out where m: "merge_hooks (\<lambda>f. 0) hook_events (marshal_settings sample_settings) ''ac'' = Inr (out, True)" by (rule sample_merges)
  have "valid_utf8 ''ac''" by (rule valid_utf8_ascii) code_simp
  from install_settles_settings [OF m _ sample_root sample_fine this] m show ?thesis by (auto simp: sample_settings_def)
qed

text \<open>
  C29. Removal is the inverse of installation for everybody else. What is left of a settings file
  after the two commands is, event by event, what was not ours before, and every other key;
  when nothing was ours the lists of the events are the ones there were.
\<close>

theorem uninstall_leaves_the_rest:
  assumes "merge_hooks wild events s bin = Inr (out, changed)" and "events \<in> {hook_events, codex_hook_events, grok_hook_events}"
    and "root_of s = Some root" and "fine max_nesting (JObj root)" and "valid_utf8 bin" and "bin \<noteq> []"
  shows "\<exists>out' changed' root'. remove_hooks out bin = Inr (out', changed') \<and> root_of out' = Some root' \<and>
    (\<forall>k. k \<noteq> ''hooks'' \<longrightarrow> map_of root' k = map_of root k) \<and>
    (\<forall>ev. event_list (hooks_of root') ev = foreign_parts (hook_command bin) (event_list (hooks_of root) ev)) \<and>
    ((\<forall>ev. \<forall>e \<in> set (event_list (hooks_of root) ev). \<not> has_command (hook_command bin) e) \<longrightarrow>
      event_list (hooks_of root') = event_list (hooks_of root))"
proof -
  obtain r1 where r: "merge_root wild (hook_command bin) events root = Inr (r1, changed)"
      "fine max_nesting (JObj r1)" "root_of out = Some r1" "out \<noteq> []" "\<And>k. k \<noteq> ''hooks'' \<Longrightarrow> map_of r1 k = map_of root k"
    by (rule merged_root [OF assms(1-5)]) blast
  obtain r2 c2 where rm: "remove_root (hook_command bin) r1 = (r2, c2)" by fastforce
  have n: "1 < max_nesting" by (simp add: max_nesting_def)
  note res = remove_root_result [OF r(2) n rm]
  obtain q where q: "read_root out = Some q" "r1 = (case q of None \<Rightarrow> [] | Some m \<Rightarrow> m)" using r(3,4) by (auto simp: root_of_def)
  define out' where "out' = (if c2 then marshal_settings r2 else out)"
  have "remove_hooks out bin = Inr (out', c2)"
  proof (cases q)
    case None
    then have "r1 = []" using q(2) by simp
    then show ?thesis using rm None q(1) assms(6) by (simp add: remove_hooks_def remove_root_def out'_def)
  qed (use rm q assms(6) in \<open>simp add: remove_hooks_def out'_def\<close>)
  moreover have "root_of out' = Some r2"
    using res(1,4) r(3) root_of_marshalled by (simp add: out'_def)
  moreover have ev: "event_list (hooks_of r2) ev = foreign_parts (hook_command bin) (event_list (hooks_of root) ev)" for ev
    using res(2) [of ev] merge_events_foreign [OF merged_hooks [OF r(1)], of ev] by simp
  moreover have "event_list (hooks_of r2) = event_list (hooks_of root)"
    if "\<forall>ev. \<forall>e \<in> set (event_list (hooks_of root) ev). \<not> has_command (hook_command bin) e"
    using that ev foreign_parts_id by auto
  ultimately show ?thesis using res(3) r(5) by (intro exI [of _ out'] exI [of _ c2] exI [of _ r2]) auto
qed

theorem uninstall_leaves_the_rest_witness:
  "\<exists>out out' changed' root'. merge_hooks (\<lambda>f. 0) hook_events (marshal_settings sample_settings) ''ac'' = Inr (out, True) \<and>
     remove_hooks out ''ac'' = Inr (out', changed') \<and> root_of out' = Some root' \<and> map_of root' ''model'' = Some (JStr ''x'')"
proof -
  obtain out where m: "merge_hooks (\<lambda>f. 0) hook_events (marshal_settings sample_settings) ''ac'' = Inr (out, True)" by (rule sample_merges)
  have "valid_utf8 ''ac''" by (rule valid_utf8_ascii) code_simp
  from uninstall_leaves_the_rest [OF m _ sample_root sample_fine this] m show ?thesis by (auto simp: sample_settings_def)
qed

text \<open>
  Two stale entries of ours become two entries that are right, and both run: an upsert counts what it
  needs, not what it has.
\<close>

definition stale_group :: "string \<Rightarrow> json" where
  "stale_group m = JObj [(''hooks'', JArr [JObj [(''command'', JStr ''ac hook'')]]), (''matcher'', JStr m)]"

lemma stale_groups_doubled:
  "upsert_our_hook wild [stale_group ''startup'', stale_group ''resume''] (hook_command ''ac'') start_hook
   = ([canonical_group (hook_command ''ac'') start_hook, canonical_group (hook_command ''ac'') start_hook], True)"
  by (simp add: upsert_our_hook_def upsert_entry_def stale_group_def group_inner_def group_matcher_def command_in_group_def
      is_command_def hook_command_def start_hook_def Let_def)

end
