(* ===== verification/MachineProps.thy ===== *)
theory MachineProps
  imports Machine InstallerProps FailureText
begin

text \<open>
  What the installation commands do to a machine: which files they touch, and that a second
  installation leaves the settings as the first one made them.
\<close>

section \<open>Paths that differ\<close>

lemma split_snoc: "slash \<notin> set a \<Longrightarrow> split_on slash (s @ slash # a) = split_on slash s @ [a]"
proof (induction s)
  case (Cons c s)
  then show ?case by (cases "split_on slash s") (simp_all split: list.splits)
qed (simp add: split_on_whole)

lemma clean_last:
  assumes "plain_part a" and "a \<noteq> ''..''"
  shows "last (split_on slash (clean (s @ slash # a))) = a"
proof -
  have a: "slash \<notin> set a" "a \<noteq> []" "a \<noteq> ''.''" using assms(1) by (simp_all add: plain_part_def)
  let ?p = "s @ slash # a" and ?r = "is_abs (s @ slash # a)"
  define out where "out = clean_parts ?r (split_on slash s)"
  have parts: "clean_parts ?r (split_on slash ?p) = out @ [a]"
    using a assms(2) by (simp add: split_snoc clean_parts_def clean_step_def out_def)
  have "\<forall>x \<in> set (out @ [a]). plain_part x"
    using settled_plain [OF clean_parts_settled [of ?r ?p]] by (simp add: parts)
  then have no: "\<forall>x \<in> set (out @ [a]). slash \<notin> set x" by (simp add: plain_part_def)
  have "split_on slash (join [slash] (out @ [a])) = out @ [a]" by (rule split_on_join [OF _ no]) simp
  then show ?thesis by (simp add: clean_def parts Let_def)
qed

lemma join_paths_last:
  assumes "plain_part a" and "a \<noteq> ''..''" and "x \<noteq> []"
  shows "last (split_on slash (join_paths (es @ [x, a]))) = a"
proof -
  have "\<exists>es'. dropWhile (\<lambda>e. e = []) (es @ [x, a]) = es' @ [x, a]"
    using assms(3) by (induction es) (auto intro: exI [of _ "_ # _"])
  then obtain es' where "dropWhile (\<lambda>e. e = []) (es @ [x, a]) = es' @ [x, a]" by blast
  then have "join_paths (es @ [x, a]) = clean (join [slash] ((es' @ [x]) @ [a]))"
    by (cases es') (simp_all add: join_paths_def)
  also have "\<dots> = clean (join [slash] (es' @ [x]) @ slash # a)" by (subst join_snoc) simp_all
  finally show ?thesis using clean_last [OF assms(1,2)] by simp
qed

lemma plain_names:
  "plain_part ''settings.json''" "plain_part ''hooks.json''" "plain_part ''agent-coordinator.json''" "plain_part ''opencode.json''"
  by (simp_all add: plain_part_def)

lemma clean_not_empty: "clean p \<noteq> []"
proof -
  have "\<forall>x \<in> set (clean_parts (is_abs p) (split_on slash p)). x \<noteq> []"
    using settled_plain [OF clean_parts_settled [of "is_abs p" p]] by (simp add: plain_part_def)
  then show ?thesis
    by (cases "clean_parts (is_abs p) (split_on slash p)") (auto simp: clean_def Let_def join_Cons)
qed

lemma unit_dir_not_empty: "unit_dir home \<noteq> []"
  using clean_not_empty by (simp add: unit_dir_def join_paths_def)

lemma last_parts:
  "last (split_on slash (claude_path home)) = ''settings.json''" "last (split_on slash (codex_path home)) = ''hooks.json''"
  "last (split_on slash (grok_path home)) = ''agent-coordinator.json''" "last (split_on slash (open_code_path home)) = ''opencode.json''"
  "last (split_on slash (sock_path home)) = ''agent-coordinator.socket''" "last (split_on slash (svc_path home)) = ''agent-coordinator.service''"
proof -
  show "last (split_on slash (claude_path home)) = ''settings.json''"
    using join_paths_last [OF plain_names(1), of "''.claude''" "[home]"] by (simp add: claude_path_def)
  show "last (split_on slash (codex_path home)) = ''hooks.json''"
    using join_paths_last [OF plain_names(2), of "''.codex''" "[home]"] by (simp add: codex_path_def)
  show "last (split_on slash (grok_path home)) = ''agent-coordinator.json''"
    using join_paths_last [OF plain_names(3), of "''hooks''" "[home, ''.grok'']"] by (simp add: grok_path_def)
  show "last (split_on slash (open_code_path home)) = ''opencode.json''"
    using join_paths_last [OF plain_names(4), of "''opencode''" "[home, ''.config'']"] by (simp add: open_code_path_def)
  have "plain_part ''agent-coordinator.socket''" "plain_part ''agent-coordinator.service''" by (simp_all add: plain_part_def)
  then show "last (split_on slash (sock_path home)) = ''agent-coordinator.socket''"
      "last (split_on slash (svc_path home)) = ''agent-coordinator.service''"
    using join_paths_last [of _ "unit_dir home" "[]"] unit_dir_not_empty by (simp_all add: sock_path_def svc_path_def)
qed

lemma paths_differ:
  "distinct [claude_path home, codex_path home, grok_path home, open_code_path home, sock_path home, svc_path home]"
proof -
  have "distinct (map (\<lambda>p. last (split_on slash p))
      [claude_path home, codex_path home, grok_path home, open_code_path home, sock_path home, svc_path home])"
    by (simp add: last_parts)
  then show ?thesis using distinct_map by blast
qed

section \<open>What each step leaves alone\<close>

lemma run_command_files [simp]: "mc_files (fst (run_command v n args w)) = mc_files w"
  by (simp add: run_command_def)

lemma print_note_files [simp]: "mc_files (print_note t w) = mc_files w"
  by (simp add: print_note_def)

lemma set_file_files [simp]: "mc_files (set_file p t w) = (mc_files w)(p := t)"
  by (simp add: set_file_def)

lemma remove_file_other: "q \<noteq> p \<Longrightarrow> mc_files (remove_file v p w) q = mc_files w q"
  by (simp add: remove_file_def)

lemma write_atomic_other: "write_file_atomic v p t w = (w', e) \<Longrightarrow> q \<noteq> p \<Longrightarrow> mc_files w' q = mc_files w q"
  by (auto simp: write_file_atomic_def split: option.splits)

lemma write_plain_other: "write_plain v p t w = (w', e) \<Longrightarrow> q \<noteq> p \<Longrightarrow> mc_files w' q = mc_files w q"
  by (auto simp: write_plain_def split: option.splits)

lemma install_hook_config_other:
  "install_hook_config v p bin merge w = (w', e) \<Longrightarrow> q \<noteq> p \<Longrightarrow> mc_files w' q = mc_files w q"
  by (auto simp: install_hook_config_def dest: write_atomic_other split: sum.splits option.splits prod.splits if_splits)

lemma register_clients_files: "mc_files (fst (register_clients v cs w)) = mc_files w"
proof (induction v cs w rule: register_clients.induct)
  case (2 v n remove add cs w)
  obtain w1 r1 where 1: "run_command v n remove w = (w1, r1)" by fastforce
  obtain w2 r2 where 2: "run_command v n add w1 = (w2, r2)" by fastforce
  have "mc_files w1 = mc_files w" "mc_files w2 = mc_files w1"
    using run_command_files [of v n remove w] run_command_files [of v n add w1] 1 2 by simp_all
  then show ?case using "2.IH" 1 2 by (cases r2) auto
qed simp

lemma run_units_other:
  "q \<noteq> sock_path home \<Longrightarrow> q \<noteq> svc_path home \<Longrightarrow> mc_files (run_units v home cs w) q = mc_files w q"
proof (induction v home cs w rule: run_units.induct)
  case (2 v home args rest w)
  obtain w1 r where r: "run_command v ''systemctl'' args w = (w1, r)" by fastforce
  have "mc_files w1 = mc_files w" using run_command_files [of v "''systemctl''" args w] r by simp
  then show ?case using 2 r by (auto simp: remove_file_other Let_def)
qed simp

lemma install_units_other:
  "install_units v bin home w = (w', e) \<Longrightarrow> q \<noteq> sock_path home \<Longrightarrow> q \<noteq> svc_path home \<Longrightarrow> mc_files w' q = mc_files w q"
proof -
  assume units: "install_units v bin home w = (w', e)" and q: "q \<noteq> sock_path home" "q \<noteq> svc_path home"
  obtain w1 e1 where 1: "write_plain v (sock_path home) (fst (unit_files bin)) w = (w1, e1)" by fastforce
  obtain w2 e2 where 2: "write_plain v (svc_path home) (snd (unit_files bin)) w1 = (w2, e2)" by fastforce
  have "mc_files w1 q = mc_files w q" "mc_files w2 q = mc_files w1 q"
    using write_plain_other [OF 1 q(1)] write_plain_other [OF 2 q(2)] by simp_all
  then show ?thesis
    using units 1 2 run_units_other [OF q, of v unit_commands w2]
    by (auto simp: install_units_def split: option.splits)
qed

text \<open>Whether the unit files can be written does not depend on what is on the machine.\<close>

lemma install_units_error: "snd (install_units v bin home w) = snd (install_units v bin home w')"
  by (auto simp: install_units_def write_plain_def split: option.splits)

section \<open>A file that is settled\<close>

definition settles :: "(string \<Rightarrow> string \<Rightarrow> string + string \<times> bool) \<Rightarrow> string \<Rightarrow> string option \<Rightarrow> bool" where
  "settles merge bin cur \<longleftrightarrow> (\<forall>out. merge (case cur of None \<Rightarrow> [] | Some t \<Rightarrow> t) bin = Inr (out, True) \<longrightarrow>
     (\<exists>again. merge out bin = Inr (again, False)))"

text \<open>What a settings file becomes depends on it alone.\<close>

lemma install_hook_config_plan:
  obtains plan where "\<And>u. install_hook_config v p bin merge u = (case plan (mc_files u p) of
      Inl e \<Rightarrow> (u, e) | Inr t \<Rightarrow> (set_file p (Some t) u, None))"
    and "\<And>cur t. plan cur = Inr t \<Longrightarrow> merge (case cur of None \<Rightarrow> [] | Some t \<Rightarrow> t) bin = Inr (t, True)"
    and "\<And>t out. merge t bin = Inr (out, False) \<Longrightarrow> \<exists>e. plan (Some t) = Inl e"
proof -
  define plan where "plan cur = (case me_read v p of Some e \<Rightarrow> Inl (Some e)
    | None \<Rightarrow> (case merge (case cur of None \<Rightarrow> [] | Some t \<Rightarrow> t) bin of
        Inl e \<Rightarrow> Inl (Some e)
      | Inr (t, changed) \<Rightarrow> if \<not> changed then Inl None
          else (case me_mkdir v (dir_name p) of Some e \<Rightarrow> Inl (Some e)
            | None \<Rightarrow> (case me_write v p of Some e \<Rightarrow> Inl (Some e) | None \<Rightarrow> Inr t))))" for cur
  show ?thesis
  proof (rule that [of plan])
    show "install_hook_config v p bin merge u = (case plan (mc_files u p) of
      Inl e \<Rightarrow> (u, e) | Inr t \<Rightarrow> (set_file p (Some t) u, None))" for u
      by (simp add: plan_def install_hook_config_def read_file_def write_file_atomic_def split: option.split sum.split prod.split)
    show "plan cur = Inr t \<Longrightarrow> merge (case cur of None \<Rightarrow> [] | Some t \<Rightarrow> t) bin = Inr (t, True)" for cur t
      by (auto simp: plan_def split: option.splits sum.splits prod.splits if_splits)
    show "merge t bin = Inr (out, False) \<Longrightarrow> \<exists>e. plan (Some t) = Inl e" for t out
      by (simp add: plan_def split: option.split)
  qed
qed

lemma install_hook_config_settles:
  assumes "install_hook_config v p bin merge w = (w', e)" and "settles merge bin (mc_files w p)"
    and "mc_files w2 p = mc_files w' p"
  shows "fst (install_hook_config v p bin merge w2) = w2"
proof -
  obtain plan where plan: "\<And>u. install_hook_config v p bin merge u = (case plan (mc_files u p) of
      Inl e \<Rightarrow> (u, e) | Inr t \<Rightarrow> (set_file p (Some t) u, None))"
    and writes: "\<And>cur t. plan cur = Inr t \<Longrightarrow> merge (case cur of None \<Rightarrow> [] | Some t \<Rightarrow> t) bin = Inr (t, True)"
    and keeps: "\<And>t out. merge t bin = Inr (out, False) \<Longrightarrow> \<exists>e. plan (Some t) = Inl e"
    by (rule install_hook_config_plan [of v p bin merge]) blast
  show ?thesis
  proof (cases "plan (mc_files w p)")
    case (Inl e)
    then have "w' = w" using assms(1) plan [of w] by simp
    then show ?thesis using plan [of w2] assms(3) Inl by simp
  next
    case (Inr t)
    then have "w' = set_file p (Some t) w" using assms(1) plan [of w] by simp
    moreover obtain again where "merge t bin = Inr (again, False)"
      using assms(2) writes [OF Inr] by (auto simp: settles_def)
    ultimately show ?thesis using keeps [of t again] plan [of w2] assms(3) by auto
  qed
qed

section \<open>The settings the merges settle\<close>

text \<open>A settings file that can be printed as it was read, or that cannot be read at all.\<close>

definition printable :: "string option \<Rightarrow> bool" where
  "printable cur \<longleftrightarrow> (\<forall>root. root_of (case cur of None \<Rightarrow> [] | Some t \<Rightarrow> t) = Some root \<longrightarrow> fine max_nesting (JObj root))"

lemma hooks_settle:
  assumes "evs \<in> {hook_events, codex_hook_events, grok_hook_events}" and "valid_utf8 bin" and "printable cur"
  shows "settles (merge_hooks wild evs) bin cur"
  unfolding settles_def
proof (intro allI impI)
  fix out
  assume m: "merge_hooks wild evs (case cur of None \<Rightarrow> [] | Some t \<Rightarrow> t) bin = Inr (out, True)"
  obtain root where r: "root_of (case cur of None \<Rightarrow> [] | Some t \<Rightarrow> t) = Some root" by (rule merge_hooks_Inr [OF m])
  have f: "fine max_nesting (JObj root)" using assms(3) r by (simp add: printable_def)
  obtain root' where "merge_root wild (hook_command bin) evs root = Inr (root', True)" "root_of out = Some root'"
    by (rule merged_root [OF m assms(1) r f assms(2)])
  then show "\<exists>again. merge_hooks wild evs out bin = Inr (again, False)"
    using merge_root_again known_hooks(1) [OF assms(1)] by (simp add: merge_hooks_tree)
qed

lemma our_open_code_matches: "has_our_open_code (put_member our_name (our_open_code bin) mcp) bin"
  by (simp add: has_our_open_code_def our_open_code_def open_code_entry_matches_def json_text_def)

lemma our_open_code_fine: "valid_utf8 bin \<Longrightarrow> 2 \<le> n \<Longrightarrow> fine n (our_open_code bin)"
proof -
  assume a: "valid_utf8 bin" "2 \<le> n"
  have "text_less ''command'' ''enabled''" "text_less ''enabled'' ''type''" "text_less ''command'' ''type''" by code_simp+
  then have "sorted_keys [(''command'', x), (''enabled'', y), (''type'', z)]" for x y z by simp
  moreover have "fine m (JBool b)" for m b by (simp add: fine_def)
  ultimately show ?thesis using a by (simp add: our_open_code_def fine_object [of n] fine_array [of "n - Suc 0"] fine_text)
qed

lemma marshalled_visible: "trim_space (marshal_settings m) \<noteq> []"
proof -
  have "\<exists>rest. marshal_settings m = CHR ''{'' # rest" by (cases m) (simp_all add: marshal_settings_def)
  then obtain rest where "marshal_settings m = CHR ''{'' # rest" by blast
  then have "(123, ''{'') \<in> set (runes (marshal_settings m))" by (simp add: runes_Cons byte_def)
  moreover have "\<not> is_space 123" by (simp add: is_space_def)
  ultimately show ?thesis unfolding trim_space_blank by force
qed

lemma open_code_settles:
  assumes "valid_utf8 bin" and "printable cur"
  shows "settles merge_open_code_config bin cur"
  unfolding settles_def
proof (intro allI impI)
  fix out
  let ?t = "case cur of None \<Rightarrow> [] | Some t \<Rightarrow> t"
  define config where "config = (if trim_space ?t = [] then ''{}'' else ?t)"
  assume m: "merge_open_code_config ?t bin = Inr (out, True)"
  then obtain r where r: "read_root config = Some r"
    by (auto simp: merge_open_code_config_def Let_def config_def [symmetric] split: option.splits)
  define root where "root = (case r of None \<Rightarrow> [] | Some x \<Rightarrow> x)"
  obtain mcp where mcp: "map_of root ''mcp'' = None \<and> mcp = [] \<or> map_of root ''mcp'' = Some (JObj mcp)"
      "out = marshal_settings (put_member ''mcp'' (JObj (put_member our_name (our_open_code bin) mcp)) root)"
    using m r by (auto simp: merge_open_code_config_def Let_def config_def [symmetric] root_def [symmetric]
      split: option.splits json.splits if_splits)
  let ?root = "put_member ''mcp'' (JObj (put_member our_name (our_open_code bin) mcp)) root"
  have n: "4 \<le> max_nesting" by (simp add: max_nesting_def)
  have f: "fine max_nesting (JObj root)"
  proof (cases "trim_space ?t = []")
    case True
    have "read_root ''{}'' = Some (Some [])" by code_simp
    then have "root = []" using True r by (auto simp: config_def root_def)
    then show ?thesis using n by (simp add: fine_object)
  next
    case False
    then have "?t \<noteq> []" by (auto simp: trim_space_def)
    then show ?thesis using assms(2) r False by (simp add: printable_def root_of_def config_def root_def)
  qed
  have "fine (max_nesting - 1) (JObj mcp)"
    using mcp(1) fine_at [OF f, of "''mcp''"] n by (auto simp: fine_object)
  then have "fine max_nesting (JObj ?root)"
    using f n our_open_code_fine [OF assms(1)] by (intro fine_put) simp_all
  then have "read_root out = Some (Some ?root)" using read_marshalled [of ?root] mcp(2) by (simp add: fine_def)
  then have "merge_open_code_config out bin = Inr (out, False)"
    using marshalled_visible mcp(2) our_open_code_matches by (simp add: merge_open_code_config_def)
  then show "\<exists>again. merge_open_code_config out bin = Inr (again, False)" by blast
qed

section \<open>The command twice\<close>

text \<open>Two machines with the same files, but for some paths.\<close>

definition same_files :: "string set \<Rightarrow> machine \<Rightarrow> machine \<Rightarrow> bool" where
  "same_files A w w' \<longleftrightarrow> (\<forall>p. p \<notin> A \<longrightarrow> mc_files w' p = mc_files w p)"

lemma same_filesI: "(\<And>p. p \<notin> A \<Longrightarrow> mc_files w' p = mc_files w p) \<Longrightarrow> same_files A w w'"
  by (simp add: same_files_def)

lemma and_then_same:
  assumes "same_files A w (fst r)" and "\<And>w'. same_files A w w' \<Longrightarrow> same_files A w (fst (f w'))"
  shows "same_files A w (fst (and_then r f))"
  using assms by (cases r; cases "snd r") (auto simp: and_then_def)

lemma and_then_done:
  assumes "and_then r f = (w', None)"
  obtains w1 where "r = (w1, None)" and "f w1 = (w', None)"
  using assms by (cases r; cases "snd r") (auto simp: and_then_def)

lemma note_error_files [simp]: "mc_files (note_error t r) = mc_files (fst r)"
  by (cases r; cases "snd r") (auto simp: note_error_def)

text \<open>A step that settled its file does nothing on a machine that has the file as it left it.\<close>

lemma settled_install:
  assumes "install_hook_config v p bin merge w = (w', e)" and "settles merge bin (mc_files w p)"
    and "mc_files w1 p = mc_files w' p" and "same_files A w1 w2" and "p \<notin> A"
  shows "same_files A w1 (fst (install_hook_config v p bin merge w2))"
  using install_hook_config_settles [OF assms(1,2)] assms(3-5) by (simp add: same_files_def)

lemma install_unfolds:
  assumes "install v wild bin home w = (w1, None)"
  obtains wu wa wb wc wd we e where
    "install_hook_config v (claude_path home) bin (merge_hooks wild hook_events) wu = (wa, None)"
    and "install_hook_config v (codex_path home) bin (merge_hooks wild codex_hook_events) wa = (wb, None)"
    and "install_hook_config v (grok_path home) bin (merge_hooks wild grok_hook_events) wb = (wc, None)"
    and "install_hook_config v (open_code_path home) bin merge_open_code_config wd = (we, e)"
    and "mc_files wd = mc_files wc" and "mc_files w1 = mc_files we"
    and "\<And>p. p \<notin> {sock_path home, svc_path home} \<Longrightarrow> mc_files wu p = mc_files w p"
proof -
  obtain wu wa wb wc wd where s:
      "(if me_linux v then install_units v bin home w else (w, None)) = (wu, None)"
      "install_hook_config v (claude_path home) bin (merge_hooks wild hook_events) wu = (wa, None)"
      "install_hook_config v (codex_path home) bin (merge_hooks wild codex_hook_events) wa = (wb, None)"
      "install_hook_config v (grok_path home) bin (merge_hooks wild grok_hook_events) wb = (wc, None)"
      "register_mcp_clients v bin wc = (wd, None)"
      "w1 = note_error ''note: OpenCode MCP config: '' (install_open_code v bin home wd)"
    using assms unfolding install_def by (elim and_then_done) simp
  obtain we e where o: "install_hook_config v (open_code_path home) bin merge_open_code_config wd = (we, e)" by fastforce
  have "mc_files wd = mc_files wc"
    using register_clients_files [of v "mcp_clients bin" wc] s(5) by (simp add: register_mcp_clients_def)
  moreover have "mc_files w1 = mc_files we" using s(6) o by (simp add: install_open_code_def)
  moreover have "mc_files wu p = mc_files w p" if "p \<notin> {sock_path home, svc_path home}" for p
    using s(1) install_units_other [of v bin home w wu None p] that by (auto split: if_splits)
  ultimately show ?thesis using that s(2-4) o by blast
qed

text \<open>What is in the four files when their turn comes, and at the end.\<close>

lemma install_files:
  assumes "install v wild bin home w = (w1, None)"
  obtains wu wa wb wc wd we e where
    "install_hook_config v (claude_path home) bin (merge_hooks wild hook_events) wu = (wa, None)"
    and "install_hook_config v (codex_path home) bin (merge_hooks wild codex_hook_events) wa = (wb, None)"
    and "install_hook_config v (grok_path home) bin (merge_hooks wild grok_hook_events) wb = (wc, None)"
    and "install_hook_config v (open_code_path home) bin merge_open_code_config wd = (we, e)"
    and "mc_files wu (claude_path home) = mc_files w (claude_path home)"
    and "mc_files wa (codex_path home) = mc_files w (codex_path home)"
    and "mc_files wb (grok_path home) = mc_files w (grok_path home)"
    and "mc_files wd (open_code_path home) = mc_files w (open_code_path home)"
    and "mc_files w1 (claude_path home) = mc_files wa (claude_path home)"
    and "mc_files w1 (codex_path home) = mc_files wb (codex_path home)"
    and "mc_files w1 (grok_path home) = mc_files wc (grok_path home)"
    and "mc_files w1 (open_code_path home) = mc_files we (open_code_path home)"
proof -
  obtain wu wa wb wc wd we e where s:
      "install_hook_config v (claude_path home) bin (merge_hooks wild hook_events) wu = (wa, None)"
      "install_hook_config v (codex_path home) bin (merge_hooks wild codex_hook_events) wa = (wb, None)"
      "install_hook_config v (grok_path home) bin (merge_hooks wild grok_hook_events) wb = (wc, None)"
      "install_hook_config v (open_code_path home) bin merge_open_code_config wd = (we, e)"
      and w: "mc_files wd = mc_files wc" "mc_files w1 = mc_files we"
      and u: "\<And>p. p \<notin> {sock_path home, svc_path home} \<Longrightarrow> mc_files wu p = mc_files w p"
    by (rule install_unfolds [OF assms]) blast
  note other = install_hook_config_other [OF s(1)] install_hook_config_other [OF s(2)]
    install_hook_config_other [OF s(3)] install_hook_config_other [OF s(4)]
  show ?thesis
    using paths_differ [of home] by (intro that [OF s]) (auto simp: w u other)
qed

lemma same_units: "same_files {sock_path home, svc_path home} w (fst (if b then install_units v bin home w else (w, None)))"
  using install_units_other [of v bin home w] by (auto intro!: same_filesI) (metis prod.collapse)

lemma same_clients: "same_files A w w' \<Longrightarrow> same_files A w (fst (register_mcp_clients v bin w'))"
  using register_clients_files by (simp add: same_files_def register_mcp_clients_def)

lemma same_noted: "same_files A w (fst r) \<Longrightarrow> same_files A w (fst (note_error t r, None))"
  by (simp add: same_files_def)

text \<open>Which commands answer matters to no settings file.\<close>

lemma hook_config_answers [simp]: "install_hook_config (v\<lparr>me_run := run\<rparr>) p bin merge w = install_hook_config v p bin merge w"
  by (simp add: install_hook_config_def read_file_def write_file_atomic_def split: option.split sum.split)

text \<open>
  C30. Installing twice is installing once. When \<open>agent-coordinator install\<close> has succeeded, running it
  again changes no file but the two systemd units, whatever the commands it runs answer this time:
  the hook settings of Claude, Codex and Grok and OpenCode's configuration are settled by the first
  run, and no other file is written. The settings are files that print as they were read, files
  that are no JSON or no files.
\<close>

theorem install_twice:
  assumes "install v wild bin home w = (w1, None)" and "valid_utf8 bin"
    and "\<forall>p \<in> {claude_path home, codex_path home, grok_path home, open_code_path home}. printable (mc_files w p)"
  shows "\<forall>p. p \<notin> {sock_path home, svc_path home} \<longrightarrow>
    mc_files (fst (install (v\<lparr>me_run := run\<rparr>) wild bin home w1)) p = mc_files w1 p"
proof -
  let ?A = "{sock_path home, svc_path home}" and ?v = "v\<lparr>me_run := run\<rparr>"
  obtain wu wa wb wc wd we e where s:
      "install_hook_config v (claude_path home) bin (merge_hooks wild hook_events) wu = (wa, None)"
      "install_hook_config v (codex_path home) bin (merge_hooks wild codex_hook_events) wa = (wb, None)"
      "install_hook_config v (grok_path home) bin (merge_hooks wild grok_hook_events) wb = (wc, None)"
      "install_hook_config v (open_code_path home) bin merge_open_code_config wd = (we, e)"
      and before: "mc_files wu (claude_path home) = mc_files w (claude_path home)"
      "mc_files wa (codex_path home) = mc_files w (codex_path home)"
      "mc_files wb (grok_path home) = mc_files w (grok_path home)"
      "mc_files wd (open_code_path home) = mc_files w (open_code_path home)"
      and after: "mc_files w1 (claude_path home) = mc_files wa (claude_path home)"
      "mc_files w1 (codex_path home) = mc_files wb (codex_path home)"
      "mc_files w1 (grok_path home) = mc_files wc (grok_path home)"
      "mc_files w1 (open_code_path home) = mc_files we (open_code_path home)"
    by (rule install_files [OF assms(1)]) blast
  note h = hooks_settle [OF _ assms(2)]
  have settles: "settles (merge_hooks wild hook_events) bin (mc_files wu (claude_path home))"
      "settles (merge_hooks wild codex_hook_events) bin (mc_files wa (codex_path home))"
      "settles (merge_hooks wild grok_hook_events) bin (mc_files wb (grok_path home))"
      "settles merge_open_code_config bin (mc_files wd (open_code_path home))"
    using assms(3) by (simp_all add: before h open_code_settles [OF assms(2)])
  note steps = settled_install [OF s(1) settles(1) after(1)] settled_install [OF s(2) settles(2) after(2)]
    settled_install [OF s(3) settles(3) after(3)] settled_install [OF s(4) settles(4) after(4)]
  have "same_files ?A w1 (fst (install ?v wild bin home w1))"
    unfolding install_def install_open_code_def hook_config_answers using paths_differ [of home]
    by (intro and_then_same same_units same_clients same_noted steps) auto
  then show ?thesis by (simp add: same_files_def)
qed

section \<open>A machine where everything works\<close>

definition willing :: machine_env where
  "willing = \<lparr>me_linux = True, me_read = (\<lambda>p. None), me_mkdir = (\<lambda>p. None), me_write = (\<lambda>p. None),
     me_torn = (\<lambda>p t. t), me_stuck = (\<lambda>p. False), me_run = (\<lambda>n c args. RunOk)\<rparr>"

definition bare :: machine where
  "bare = \<lparr>mc_files = (\<lambda>p. None), mc_ran = [], mc_notes = []\<rparr>"

lemma empty_root: "root_of [] = Some []"
proof -
  have "read_root ''{}'' = Some (Some [])" by code_simp
  then show ?thesis by (simp add: root_of_def)
qed

lemma empty_merges:
  assumes "evs \<in> {hook_events, codex_hook_events, grok_hook_events}"
  obtains r where "merge_hooks wild evs [] bin = Inr r"
proof -
  have "\<nexists>e. merge_events wild (hook_command bin) evs (hooks_of []) False = Inl e"
    using merge_events_error [OF known_hooks(1) [OF assms], of wild "hook_command bin" "hooks_of []" False]
    by (simp add: hooks_of_def)
  then obtain m where "merge_events wild (hook_command bin) evs (hooks_of []) False = Inr m" by (meson sum.exhaust)
  then show ?thesis using that by (cases m) (simp add: merge_hooks_tree [OF empty_root] merge_root_def hooks_of_def)
qed

lemma willing_hook_config:
  assumes "evs \<in> {hook_events, codex_hook_events, grok_hook_events}" and "mc_files w p = None"
  obtains w' where "install_hook_config willing p bin (merge_hooks wild evs) w = (w', None)"
proof -
  obtain t c where "merge_hooks wild evs [] bin = Inr (t, c)" using empty_merges [OF assms(1)] by (metis surj_pair)
  then have "snd (install_hook_config willing p bin (merge_hooks wild evs) w) = None"
    using assms(2) by (simp add: install_hook_config_def read_file_def write_file_atomic_def willing_def)
  then show ?thesis using that by (metis prod.collapse)
qed

lemma willing_clients: "snd (register_clients willing cs w) = None"
  by (induction cs arbitrary: w) (auto simp: run_command_def willing_def)

lemma willing_units: "snd (install_units willing bin home w) = None"
  by (simp add: install_units_def write_plain_def willing_def)

lemma bare_install:
  obtains w where "install willing wild bin home bare = (w, None)"
proof -
  obtain wu where u: "install_units willing bin home bare = (wu, None)"
    using willing_units [of bin home bare] by (cases "install_units willing bin home bare") simp
  note p = paths_differ [of home]
  have none: "mc_files wu p = None" if "p \<notin> {sock_path home, svc_path home}" for p
    using install_units_other [OF u, of p] that by (simp add: bare_def)
  obtain wa where a: "install_hook_config willing (claude_path home) bin (merge_hooks wild hook_events) wu = (wa, None)"
    by (rule willing_hook_config [of hook_events wu "claude_path home"]) (use none p in auto)
  obtain wb where b: "install_hook_config willing (codex_path home) bin (merge_hooks wild codex_hook_events) wa = (wb, None)"
    by (rule willing_hook_config [of codex_hook_events wa "codex_path home"])
      (use none p install_hook_config_other [OF a] in auto)
  obtain wc where c: "install_hook_config willing (grok_path home) bin (merge_hooks wild grok_hook_events) wb = (wc, None)"
    by (rule willing_hook_config [of grok_hook_events wb "grok_path home"])
      (use none p install_hook_config_other [OF a] install_hook_config_other [OF b] in auto)
  obtain wd where d: "register_mcp_clients willing bin wc = (wd, None)"
    using willing_clients [of "mcp_clients bin" wc] by (cases "register_mcp_clients willing bin wc") (simp add: register_mcp_clients_def)
  have "me_linux willing" by (simp add: willing_def)
  then have "\<exists>w. install willing wild bin home bare = (w, None)"
    by (simp add: install_def and_then_def u a b c d)
  then show ?thesis using that by blast
qed

theorem install_twice_witness:
  "\<exists>w. install willing (\<lambda>f. 0) ''ac'' ''/home/ada'' bare = (w, None) \<and>
     (\<forall>p. p \<notin> {sock_path ''/home/ada'', svc_path ''/home/ada''} \<longrightarrow>
       mc_files (fst (install (willing\<lparr>me_run := \<lambda>n c args. RunMissing\<rparr>) (\<lambda>f. 0) ''ac'' ''/home/ada'' w)) p = mc_files w p)"
proof -
  obtain w where w: "install willing (\<lambda>f. 0) ''ac'' ''/home/ada'' bare = (w, None)" by (rule bare_install)
  have "fine max_nesting (JObj [])" by (simp add: fine_object max_nesting_def)
  then have "printable (mc_files bare p)" for p by (simp add: printable_def bare_def empty_root)
  moreover have "valid_utf8 ''ac''" by (rule valid_utf8_ascii) code_simp
  ultimately have "\<forall>p. p \<notin> {sock_path ''/home/ada'', svc_path ''/home/ada''} \<longrightarrow>
       mc_files (fst (install (willing\<lparr>me_run := \<lambda>n c args. RunMissing\<rparr>) (\<lambda>f. 0) ''ac'' ''/home/ada'' w)) p = mc_files w p"
    by (intro install_twice [OF w]) simp_all
  then show ?thesis using w by blast
qed

end
