(* ===== verification/Address.thy ===== *)
theory Address
  imports Values HostState
begin

text \<open>
  The addresses of the relay: what the daemon may listen on (\<open>RelayListen\<close> in \<open>internal/paths/relay.go\<close>)
  and what the broker may dial (\<open>NewClient\<close> in \<open>internal/hostbroker/client.go\<close>), with the functions of
  \<open>net\<close> they rest on. The main result is that a broker accepts every address the daemon listens on.
\<close>

section \<open>Modes\<close>

text \<open>A mode as \<open>%04o\<close> prints it.\<close>

fun octal :: "nat \<Rightarrow> string" where
  "octal n = (if n < 8 then [chr (48 + n)] else octal (n div 8) @ [chr (48 + n mod 8)])"

declare octal.simps [simp del]

definition octal4 :: "nat \<Rightarrow> string" where
  "octal4 n = (let t = octal n in replicate (4 - length t) (CHR ''0'') @ t)"

section \<open>Hosts and ports\<close>

text \<open>The text before and after the last colon.\<close>

definition cut_last :: "char \<Rightarrow> string \<Rightarrow> (string \<times> string) option" where
  "cut_last c s = (if c \<notin> set s then None
     else Some (rev (tl (dropWhile (\<lambda>d. d \<noteq> c) (rev s))), rev (takeWhile (\<lambda>d. d \<noteq> c) (rev s))))"

text \<open>\<open>net.SplitHostPort\<close>; the text of its errors is not kept.\<close>

definition split_host_port :: "string \<Rightarrow> (string \<times> string) option" where
  "split_host_port a = (case cut_last (CHR '':'') a of
     None \<Rightarrow> None
   | Some (before, port) \<Rightarrow>
       if hd a = CHR ''['' then
         (let host = takeWhile (\<lambda>c. c \<noteq> CHR '']'') (tl a) in
          if before = CHR ''['' # host @ '']'' \<and> CHR ''['' \<notin> set (host @ port) \<and> CHR '']'' \<notin> set port
          then Some (host, port) else None)
       else if CHR '':'' \<in> set before \<or> CHR ''['' \<in> set a \<or> CHR '']'' \<in> set a then None
       else Some (before, port))"

definition join_host_port :: "string \<Rightarrow> string \<Rightarrow> string" where
  "join_host_port host port =
     (if CHR '':'' \<in> set host then CHR ''['' # host @ '']:'' @ port else host @ CHR '':'' # port)"

section \<open>IP addresses\<close>

text \<open>An octet of a dotted address: no leading zero, at most 255.\<close>

definition octet_ok :: "string \<Rightarrow> bool" where
  "octet_ok t \<longleftrightarrow> t \<noteq> [] \<and> list_all is_digit t \<and> (hd t = CHR ''0'' \<longrightarrow> t = ''0'') \<and> undec_nat t \<le> 255"

definition parse_ipv4 :: "string \<Rightarrow> nat list option" where
  "parse_ipv4 s = (let ps = split_on (CHR ''.'') s in
     if length ps = 4 \<and> list_all octet_ok ps then Some (map undec_nat ps) else None)"

definition is_hex_digit :: "char \<Rightarrow> bool" where
  "is_hex_digit c \<longleftrightarrow> is_digit c \<or> c \<in> set ''abcdefABCDEF''"

definition hex_number :: "string \<Rightarrow> nat" where
  "hex_number t = foldl (\<lambda>n c. 16 * n + (if is_digit c then byte c - 48 else if byte c < 97 then byte c - 55 else byte c - 87)) 0 t"

text \<open>
  The groups of an IPv6 address from \<open>s\<close> on, as bytes: what was read, where the ellipsis stood, and
  whether the text ended properly. \<open>out\<close> has what was read so far.
\<close>

lemma rest_shorter: "dropWhile P s \<noteq> [] \<Longrightarrow> length (tl (dropWhile P s)) < length s"
  using length_dropWhile_le [of P s] by (cases "dropWhile P s") auto

function ipv6_groups :: "string \<Rightarrow> nat list \<Rightarrow> nat option \<Rightarrow> (nat list \<times> nat option) option" where
  "ipv6_groups s out ellipsis =
     (if 16 \<le> length out then (if s = [] then Some (out, ellipsis) else None)
      else (let h = takeWhile is_hex_digit s; r = dropWhile is_hex_digit s in
        if h = [] \<or> 4 < length h then None
        else if r \<noteq> [] \<and> hd r = CHR ''.'' then
          (if (ellipsis = None \<and> length out \<noteq> 12) \<or> 12 < length out then None
           else map_option (\<lambda>q. (out @ q, ellipsis)) (parse_ipv4 s))
        else (let out' = out @ [hex_number h div 256, hex_number h mod 256] in
          if r = [] then Some (out', ellipsis)
          else if hd r \<noteq> CHR '':'' \<or> tl r = [] then None
          else if hd (tl r) \<noteq> CHR '':'' then ipv6_groups (tl r) out' ellipsis
          else if ellipsis \<noteq> None then None
          else if tl (tl r) = [] then Some (out', Some (length out'))
          else ipv6_groups (tl (tl r)) out' (Some (length out')))))"
  by pat_completeness auto
termination
proof (relation "measure (\<lambda>(s, out, e). length s)", goal_cases)
  case (2 s out e h r)
  then show ?case using rest_shorter [of is_hex_digit s] by simp
next
  case (3 s out e h r)
  then show ?case using rest_shorter [of is_hex_digit s] by simp
qed simp

declare ipv6_groups.simps [simp del]

definition parse_ipv6 :: "string \<Rightarrow> nat list option" where
  "parse_ipv6 s =
     (let lead = has_prefix ''::'' s; t = (if lead then drop 2 s else s) in
      if CHR ''%'' \<in> set s then None
      else if lead \<and> t = [] then Some (replicate 16 0)
      else (case ipv6_groups t [] (if lead then Some 0 else None) of
          None \<Rightarrow> None
        | Some (out, e) \<Rightarrow>
            (case e of
               None \<Rightarrow> if length out = 16 then Some out else None
             | Some k \<Rightarrow> if length out < 16 then Some (take k out @ replicate (16 - length out) 0 @ drop k out) else None)))"

text \<open>\<open>net.ParseIP\<close>: sixteen bytes, an IPv4 address mapped into IPv6; the first of \<open>.\<close>, \<open>:\<close> and \<open>%\<close> decides.\<close>

definition map_ipv4 :: "nat list \<Rightarrow> nat list" where
  "map_ipv4 q = replicate 10 0 @ [255, 255] @ q"

definition parse_ip :: "string \<Rightarrow> nat list option" where
  "parse_ip s = (case dropWhile (\<lambda>c. c \<notin> set ''.:%'') s of
     [] \<Rightarrow> None
   | c # _ \<Rightarrow> if c = CHR ''.'' then map_option map_ipv4 (parse_ipv4 s)
       else if c = CHR '':'' then parse_ipv6 s else None)"

definition is_loopback :: "nat list \<Rightarrow> bool" where
  "is_loopback ip =
     (if take 12 ip = replicate 10 0 @ [255, 255] then ip ! 12 = 127 else ip = replicate 15 0 @ [1])"

section \<open>The two ends\<close>

definition default_relay_addr :: string where
  "default_relay_addr = ''127.0.0.1:7400''"

text \<open>The value of \<open>AC_RELAY_LISTEN\<close> to the address to listen on, the empty text when there is no relay.\<close>

definition relay_listen :: "string \<Rightarrow> string + string" where
  "relay_listen env =
     (let v = trim_space env; name = ''AC_RELAY_LISTEN '' @ go_quote v in
      if to_lower v = [] then Inr []
      else if to_lower v = ''1'' \<or> to_lower v = ''true'' then Inr default_relay_addr
      else (case split_host_port v of
          None \<Rightarrow> Inl (name @ '': want host:port'')
        | Some (host0, port) \<Rightarrow>
            (let host = (if to_lower host0 = ''localhost'' then ''127.0.0.1'' else host0) in
             case parse_ip host of
               None \<Rightarrow> Inl (name @ '': the relay must listen on loopback'')
             | Some ip \<Rightarrow>
                 if \<not> is_loopback ip then Inl (name @ '': the relay must listen on loopback'')
                 else (case parse_int port of
                     None \<Rightarrow> Inl (name @ '': port must be a number in 0-65535'')
                   | Some n \<Rightarrow> if n < 0 \<or> 65535 < n then Inl (name @ '': port must be a number in 0-65535'')
                       else Inr (join_host_port host (dec_int n))))))"

definition trim_chars :: "string \<Rightarrow> string \<Rightarrow> string" where
  "trim_chars cs s = rev (dropWhile (\<lambda>c. c \<in> set cs) (rev (dropWhile (\<lambda>c. c \<in> set cs) s)))"

definition cut_scheme :: "string \<Rightarrow> string" where
  "cut_scheme a = (case cut_prefix ''tcp://'' a of Some r \<Rightarrow> r | None \<Rightarrow> a)"

text \<open>The address of a new client, or why there is none.\<close>

definition new_client :: "string \<Rightarrow> string + string" where
  "new_client addr0 =
     (let a = cut_scheme (trim_space addr0); addr = (if a = [] then default_relay_addr else a) in
      case split_host_port addr of
        None \<Rightarrow> Inl ''invalid relay address''
      | Some (host, port) \<Rightarrow>
          if (case parse_ip (trim_chars ''[]'' host) of None \<Rightarrow> True | Some ip \<Rightarrow> \<not> is_loopback ip) then
            Inl ''relay address must use a numeric loopback IP''
          else if (case parse_int port of None \<Rightarrow> True | Some n \<Rightarrow> n < 1 \<or> 65535 < n) \<or> trim_chars ''0123456789'' port \<noteq> [] then
            Inl ''relay port must be numeric and between 1 and 65535''
          else Inr addr)"

section \<open>Laws\<close>

lemma cut_side: "c \<notin> set p \<Longrightarrow> takeWhile (\<lambda>d. d \<noteq> c) (p @ c # r) = p \<and> dropWhile (\<lambda>d. d \<noteq> c) (p @ c # r) = c # r"
  by (induction p) auto

lemma cut_last_append: "c \<notin> set p \<Longrightarrow> cut_last c (h @ c # p) = Some (h, p)"
  using cut_side [of c "rev p" "rev h"] by (simp add: cut_last_def)

lemma cut_last_parts: "cut_last c s = Some (h, p) \<Longrightarrow> s = h @ c # p \<and> c \<notin> set p"
proof -
  assume cut: "cut_last c s = Some (h, p)"
  then have "c \<in> set s" by (auto simp: cut_last_def split: if_splits)
  then obtain u w where s: "s = u @ c # w" "c \<notin> set w" using split_list_last by fast
  then show ?thesis using cut cut_last_append [OF s(2), of u] by auto
qed

lemma split_join_host_port:
  assumes "set host \<inter> set ''[]'' = {}" and "set port \<inter> set '':[]'' = {}" and "host \<noteq> []"
  shows "split_host_port (join_host_port host port) = Some (host, port)"
proof (cases "CHR '':'' \<in> set host")
  case True
  have "cut_last (CHR '':'') ((CHR ''['' # host @ '']'') @ CHR '':'' # port) = Some (CHR ''['' # host @ '']'', port)"
    using assms(2) by (intro cut_last_append) auto
  moreover have "takeWhile (\<lambda>c. c \<noteq> CHR '']'') (host @ CHR '']'' # r) = host" for r
    using assms(1) cut_side [of _ host r] by auto
  ultimately show ?thesis using True assms(1,2) by (auto simp: split_host_port_def join_host_port_def)
next
  case False
  have "cut_last (CHR '':'') (host @ CHR '':'' # port) = Some (host, port)" using assms(2) by (intro cut_last_append) auto
  moreover have "hd host \<noteq> CHR ''[''" using assms(1,3) by (cases host) auto
  ultimately show ?thesis using False assms by (auto simp: split_host_port_def join_host_port_def)
qed

text \<open>The characters of an address.\<close>

definition ip_char :: "char \<Rightarrow> bool" where
  "ip_char c \<longleftrightarrow> is_hex_digit c \<or> c = CHR ''.'' \<or> c = CHR '':''"

lemma ip_char_ascii: "ip_char c \<Longrightarrow> byte c < 128"
  by (auto simp: ip_char_def is_hex_digit_def is_digit_def byte_def)

lemma dotted_ip_char: "is_digit c \<or> c = CHR ''.'' \<Longrightarrow> ip_char c"
  unfolding ip_char_def is_hex_digit_def by blast

lemma ip_char_colon: "ip_char (CHR '':'')"
  by (simp add: ip_char_def)

lemma parse_ipv4_text:
  assumes "parse_ipv4 s = Some q"
  shows "list_all (\<lambda>c. is_digit c \<or> c = CHR ''.'') s" and "s \<noteq> []" and "is_digit (hd s)"
proof -
  have ps: "length (split_on (CHR ''.'') s) = 4" "list_all octet_ok (split_on (CHR ''.'') s)"
    using assms by (auto simp: parse_ipv4_def Let_def split: if_splits)
  have s: "s = join ''.'' (split_on (CHR ''.'') s)" by (simp add: join_split_on)
  have chars: "c = CHR ''.'' \<or> (\<exists>p \<in> set ps. c \<in> set p)" if "c \<in> set (join ''.'' ps)" for c ps
    using that by (induction "''.''" ps rule: join.induct) auto
  have "is_digit c \<or> c = CHR ''.''" if "c \<in> set s" for c
  proof -
    have "c \<in> set (join ''.'' (split_on (CHR ''.'') s))" using that by (simp add: join_split_on)
    then have "c = CHR ''.'' \<or> (\<exists>p \<in> set (split_on (CHR ''.'') s). c \<in> set p)" by (rule chars)
    moreover have "is_digit c" if "p \<in> set (split_on (CHR ''.'') s)" "c \<in> set p" for p
    proof -
      have "octet_ok p" using ps(2) that(1) by (simp add: list_all_iff)
      then show ?thesis using that(2) by (simp add: octet_ok_def list_all_iff)
    qed
    ultimately show ?thesis by blast
  qed
  then show "list_all (\<lambda>c. is_digit c \<or> c = CHR ''.'') s" by (simp add: list_all_iff)
  obtain p ps' where p: "split_on (CHR ''.'') s = p # ps'" using ps(1) by (cases "split_on (CHR ''.'') s") auto
  then obtain c cs where c: "p = c # cs" "is_digit c" using ps(2) by (cases p) (auto simp: octet_ok_def)
  have "\<exists>r. s = c # r" using s unfolding p c(1) by (cases ps') auto
  then show "s \<noteq> []" "is_digit (hd s)" using c(2) by auto
qed

lemma ipv6_end: "16 \<le> length out \<Longrightarrow> ipv6_groups s out e = (if s = [] then Some (out, e) else None)"
  by (subst ipv6_groups.simps) (simp only: if_True)

lemma ipv6_bad: "\<not> 16 \<le> length out \<Longrightarrow> takeWhile is_hex_digit s = [] \<or> 4 < length (takeWhile is_hex_digit s) \<Longrightarrow>
    ipv6_groups s out e = None"
  by (subst ipv6_groups.simps) (simp only: Let_def if_True if_False)

lemma ipv6_dotted:
  assumes "\<not> 16 \<le> length out" and "\<not> (takeWhile is_hex_digit s = [] \<or> 4 < length (takeWhile is_hex_digit s))"
    and "dropWhile is_hex_digit s \<noteq> [] \<and> hd (dropWhile is_hex_digit s) = CHR ''.''" and "parse_ipv4 s = None"
  shows "ipv6_groups s out e = None"
  by (subst ipv6_groups.simps) (simp only: assms Let_def if_True if_False option.map if_cancel simp_thms)

lemma ipv6_next:
  assumes "\<not> 16 \<le> length out" and "\<not> (takeWhile is_hex_digit s = [] \<or> 4 < length (takeWhile is_hex_digit s))"
    and "\<not> (r \<noteq> [] \<and> hd r = CHR ''.'')" and "r = dropWhile is_hex_digit s"
    and "out' = out @ [hex_number (takeWhile is_hex_digit s) div 256, hex_number (takeWhile is_hex_digit s) mod 256]"
  shows "ipv6_groups s out e = (if r = [] then Some (out', e)
          else if hd r \<noteq> CHR '':'' \<or> tl r = [] then None
          else if hd (tl r) \<noteq> CHR '':'' then ipv6_groups (tl r) out' e
          else if e \<noteq> None then None
          else if tl (tl r) = [] then Some (out', Some (length out'))
          else ipv6_groups (tl (tl r)) out' (Some (length out')))"
  unfolding assms(4,5) by (subst ipv6_groups.simps) (simp only: assms(1,2) assms(3) [unfolded assms(4)] Let_def if_False)

lemma ipv6_groups_text: "ipv6_groups s out e = Some r \<Longrightarrow> list_all ip_char s"
proof (induction s out e arbitrary: r rule: ipv6_groups.induct)
  case (1 s out e)
  let ?h = "takeWhile is_hex_digit s" and ?r = "dropWhile is_hex_digit s"
  have h: "list_all ip_char ?h" by (auto simp: list_all_iff ip_char_def dest: set_takeWhileD)
  have rest: "list_all ip_char s" if "list_all ip_char ?r"
  proof -
    have "list_all ip_char (?h @ ?r)" unfolding list_all_append using h that ..
    then show ?thesis by simp
  qed
  show ?case
  proof (cases "16 \<le> length out")
    case True
    then show ?thesis using "1.prems" by (simp add: ipv6_end split: if_splits)
  next
    case out: False
    have hs: "\<not> (?h = [] \<or> 4 < length ?h)"
    proof
      assume "?h = [] \<or> 4 < length ?h"
      from ipv6_bad [OF out this] show False using "1.prems" by simp
    qed
    show ?thesis
    proof (cases "?r \<noteq> [] \<and> hd ?r = CHR ''.''")
      case True
      obtain q where "parse_ipv4 s = Some q"
      proof (cases "parse_ipv4 s")
        case None
        from ipv6_dotted [OF out hs True None] show ?thesis using "1.prems" by simp
      qed
      then have "list_all (\<lambda>c. is_digit c \<or> c = CHR ''.'') s" by (rule parse_ipv4_text)
      then show ?thesis by (rule list.pred_mono_strong) (rule dotted_ip_char)
    next
      case False
      let ?out = "out @ [hex_number ?h div 256, hex_number ?h mod 256]"
      note step = ipv6_next [OF out hs False refl refl]
      note IH = "1.IH" [OF out refl refl hs False refl]
      consider "?r = []" | a where "?r = CHR '':'' # a" "a \<noteq> []" "hd a \<noteq> CHR '':''" "ipv6_groups a ?out e = Some r"
        | a where "?r = '':'' @ CHR '':'' # a" "a = []" | a where "?r = '':'' @ CHR '':'' # a" "a \<noteq> []" "ipv6_groups a ?out (Some (length ?out)) = Some r" "e = None"
        using "1.prems" unfolding step by (cases ?r; cases "tl ?r") (auto split: if_splits)
      then show ?thesis
      proof cases
        case 1
        then show ?thesis by (intro rest) (simp only: list.pred_inject(1))
      next
        case 2
        then have "list_all ip_char a" using IH(1) by auto
        then show ?thesis using 2 by (intro rest) (simp add: ip_char_colon)
      next
        case 3
        then show ?thesis by (intro rest) (simp add: ip_char_colon)
      next
        case 4
        then have "list_all ip_char a" using IH(2) by auto
        then show ?thesis using 4 by (intro rest) (simp add: ip_char_colon)
      qed
    qed
  qed
qed

lemma parse_ip_text:
  assumes "parse_ip s = Some ip"
  shows "list_all ip_char s" and "CHR '':'' \<notin> set s \<Longrightarrow> s \<noteq> [] \<and> is_digit (hd s)"
proof -
  obtain c r where r: "dropWhile (\<lambda>c. c \<notin> set ''.:%'') s = c # r" "c = CHR ''.'' \<and> (\<exists>q. parse_ipv4 s = Some q) \<or> c = CHR '':'' \<and> parse_ipv6 s = Some ip"
    using assms by (auto simp: parse_ip_def split: list.splits if_splits)
  have c: "c \<in> set s" using r(1) set_dropWhileD [of c "\<lambda>c. c \<notin> set ''.:%''" s] by simp
  show "list_all ip_char s"
  proof (cases "c = CHR ''.''")
    case True
    then obtain q where "parse_ipv4 s = Some q" using r(2) by auto
    then have "list_all (\<lambda>c. is_digit c \<or> c = CHR ''.'') s" by (rule parse_ipv4_text)
    then show ?thesis by (rule list.pred_mono_strong) (rule dotted_ip_char)
  next
    case False
    then have p: "parse_ipv6 s = Some ip" using r(2) by simp
    show ?thesis
    proof (cases "has_prefix ''::'' s")
      case True
      then obtain t where t: "s = ''::'' @ t" by (auto simp: has_prefix_iff)
      then have "t = [] \<or> (\<exists>e x. ipv6_groups t [] e = Some x)"
        using p True by (auto simp: parse_ipv6_def Let_def split: if_splits option.splits)
      then have "list_all ip_char t" using ipv6_groups_text by auto
      then show ?thesis using t by (simp add: ip_char_colon)
    next
      case False
      then obtain e x where "ipv6_groups s [] e = Some x"
        using p by (auto simp: parse_ipv6_def Let_def split: if_splits option.splits)
      then show ?thesis by (rule ipv6_groups_text)
    qed
  qed
  assume "CHR '':'' \<notin> set s"
  then obtain q where "parse_ipv4 s = Some q" using r(2) c by auto
  then show "s \<noteq> [] \<and> is_digit (hd s)" using parse_ipv4_text(2,3) by blast
qed

text \<open>What \<open>SplitHostPort\<close> answers has no brackets.\<close>

lemma split_host_port_host: "split_host_port a = Some (h, p) \<Longrightarrow> set h \<inter> set ''[]'' = {}"
  by (auto simp: split_host_port_def Let_def dest: set_takeWhileD split: option.splits prod.splits if_splits
      dest!: cut_last_parts)

section \<open>Daemon and broker agree\<close>

lemma listen_cases:
  assumes "relay_listen env = Inr a" and "a \<noteq> []"
  obtains host ip n where "a = join_host_port host (dec_int n)" "parse_ip host = Some ip" "is_loopback ip" "0 \<le> n" "n \<le> 65535"
    and "set host \<inter> set ''[]'' = {}"
proof -
  have loop: "parse_ip ''127.0.0.1'' = Some (map_ipv4 [127, 0, 0, 1])" "is_loopback (map_ipv4 [127, 0, 0, 1])" by code_simp+
  have default: "default_relay_addr = join_host_port ''127.0.0.1'' (dec_int 7400)" by code_simp
  have plain: "set ''127.0.0.1'' \<inter> set ''[]'' = {}" by simp
  let ?v = "trim_space env"
  show ?thesis
  proof (cases "to_lower ?v = [] \<or> to_lower ?v = ''1'' \<or> to_lower ?v = ''true''")
    case True
    then have "a = default_relay_addr" using assms by (auto simp: relay_listen_def Let_def split: if_splits)
    then show ?thesis using default loop plain by (intro that [of "''127.0.0.1''" 7400]) simp_all
  next
    case False
    then obtain host0 port where sp: "split_host_port ?v = Some (host0, port)"
      using assms(1) by (auto simp: relay_listen_def Let_def split: option.splits)
    define host where "host = (if to_lower host0 = ''localhost'' then ''127.0.0.1'' else host0)"
    obtain ip n where "parse_ip host = Some ip" "is_loopback ip" "parse_int port = Some n" "\<not> n < 0" "\<not> 65535 < n"
        "a = join_host_port host (dec_int n)"
      using assms(1) False sp by (auto simp: relay_listen_def Let_def host_def [symmetric] split: option.splits if_splits)
    moreover have "set host \<inter> set ''[]'' = {}"
      using split_host_port_host [OF sp] plain by (simp only: host_def split: if_split) blast
    ultimately show ?thesis by (intro that [of host n ip]) simp_all
  qed
qed

lemma dec_port:
  assumes "0 \<le> n" and "n \<le> 65535"
  shows "parse_int (dec_int n) = Some n" and "trim_chars ''0123456789'' (dec_int n) = []"
    and "set (dec_int n) \<inter> set '':[]'' = {}" and "dec_int n \<noteq> []" and "is_digit (last (dec_int n))"
proof -
  have n: "dec_int n = dec_nat (nat n)" using assms(1) by (simp add: dec_int_def)
  have d: "\<forall>c \<in> set (dec_int n). is_digit c" using dec_nat_digits by (simp add: n list_all_iff)
  show e: "dec_int n \<noteq> []" by (simp add: n)
  obtain c cs where c: "dec_int n = c # cs" using e by (cases "dec_int n") auto
  then have "is_digit c" using d by simp
  then have "c \<noteq> CHR ''+''" by (auto simp: is_digit_def byte_def)
  then show "parse_int (dec_int n) = Some n" using parse_int64_dec [of n] assms c by (simp add: parse_int_def)
  have "c \<in> set ''0123456789''" if "is_digit c" for c
  proof -
    have "list_all (\<lambda>n. chr n \<in> set ''0123456789'') [48..<58]" by code_simp
    moreover have "byte c \<in> set [48..<58]" using that unfolding is_digit_def set_upt by simp
    ultimately have "chr (byte c) \<in> set ''0123456789''" unfolding list_all_iff by blast
    then show ?thesis by (simp only: chr_byte)
  qed
  then have "dropWhile (\<lambda>c. c \<in> set ''0123456789'') (dec_int n) = []" using d by (simp only: dropWhile_eq_Nil_conv) blast
  then show "trim_chars ''0123456789'' (dec_int n) = []" unfolding trim_chars_def by (simp only: rev.simps dropWhile.simps)
  show "set (dec_int n) \<inter> set '':[]'' = {}" using d by (auto simp: is_digit_def byte_def)
  show "is_digit (last (dec_int n))" using d e by simp
qed

lemma trim_plain: "is_ascii a \<Longrightarrow> a \<noteq> [] \<Longrightarrow> \<not> is_space (byte (hd a)) \<Longrightarrow> \<not> is_space (byte (last a)) \<Longrightarrow> trim_space a = a"
proof -
  assume a: "is_ascii a" "a \<noteq> []" "\<not> is_space (byte (hd a))" "\<not> is_space (byte (last a))"
  let ?r = "map (\<lambda>c. (byte c, [c])) a"
  have "dropWhile (\<lambda>rb. is_space (fst rb)) ?r = ?r" using a(2,3) by (cases a) auto
  moreover have "dropWhile (\<lambda>rb. is_space (fst rb)) (rev ?r) = rev ?r" using a(2,4) by (cases a rule: rev_cases) auto
  moreover have "concat (map snd ?r) = a" by (induction a) auto
  ultimately show ?thesis using a(1) by (simp add: trim_space_def runes_ascii)
qed

text \<open>
  C32. The two ends of the relay fit together. Whatever \<open>AC_RELAY_LISTEN\<close> says, the daemon listens on a
  numeric loopback address or not at all; and every address it listens on with a fixed port is one
  the broker dials as it stands.
\<close>

theorem relay_listen_meets_client:
  assumes "relay_listen env = Inr a" and "a \<noteq> []"
  shows "\<exists>host ip n. split_host_port a = Some (host, dec_int n) \<and> parse_ip host = Some ip \<and> is_loopback ip \<and> 0 \<le> n \<and> n \<le> 65535 \<and>
    (n \<noteq> 0 \<longrightarrow> new_client a = Inr a)"
proof -
  obtain host ip n where a: "a = join_host_port host (dec_int n)" and ip: "parse_ip host = Some ip" "is_loopback ip"
      and n: "0 \<le> n" "n \<le> 65535" and h: "set host \<inter> set ''[]'' = {}"
    by (rule listen_cases [OF assms])
  note d = dec_port [OF n] and t = parse_ip_text [OF ip(1)]
  have "host \<noteq> []" using t(2) by (cases host) auto
  then have split: "split_host_port a = Some (host, dec_int n)" using split_join_host_port [OF h d(3)] a by simp
  have digit: "\<not> is_space (byte c) \<and> c \<noteq> CHR ''t''" if "is_digit c" for c
    using that by (auto simp: is_digit_def is_space_def byte_def)
  have hd: "\<not> is_space (byte (hd a)) \<and> hd a \<noteq> CHR ''t''"
  proof (cases "CHR '':'' \<in> set host")
    case True
    then have "hd a = CHR ''[''" by (simp add: a join_host_port_def)
    then show ?thesis by (simp add: is_space_def byte_def)
  next
    case False
    then have "is_digit (hd a)" using t(2) a by (simp add: join_host_port_def)
    then show ?thesis using digit by blast
  qed
  have "last a = last (dec_int n)" using d(4) by (simp add: a join_host_port_def)
  then have last: "\<not> is_space (byte (last a))" using digit d(5) by simp
  have "is_ascii a"
  proof -
    have "is_ascii host" using t(1) ip_char_ascii by (auto simp: is_ascii_def list_all_iff)
    moreover have "is_ascii (dec_int n)" using dec_nat_digits [of "nat n"] n(1) by (auto simp: is_ascii_def list_all_iff dec_int_def is_digit_def)
    ultimately show ?thesis by (simp add: a join_host_port_def is_ascii_def byte_def)
  qed
  then have trim: "trim_space a = a" using hd last assms(2) by (intro trim_plain) auto
  have "\<not> has_prefix ''tcp://'' a" using hd assms(2) by (cases a) auto
  then have scheme: "cut_scheme a = a" by (simp add: cut_scheme_def cut_prefix_def)
  have "dropWhile (\<lambda>c. c \<in> set ''[]'') host = host" using h by (cases host) auto
  moreover have "dropWhile (\<lambda>c. c \<in> set ''[]'') (rev host) = rev host" using h by (cases host rule: rev_cases) auto
  ultimately have host: "trim_chars ''[]'' host = host" by (simp only: trim_chars_def rev_rev_ident)
  have "new_client a = Inr a" if "n \<noteq> 0"
    unfolding new_client_def Let_def trim scheme using assms(2) split ip n d(1,2) that by (simp add: host)
  then show ?thesis using split ip n by blast
qed

theorem relay_listen_meets_client_witness:
  "\<exists>host ip n. split_host_port ''127.0.0.1:7400'' = Some (host, dec_int n) \<and> parse_ip host = Some ip \<and> is_loopback ip \<and> 0 \<le> n \<and> n \<le> 65535 \<and>
    (n \<noteq> 0 \<longrightarrow> new_client ''127.0.0.1:7400'' = Inr ''127.0.0.1:7400'')"
proof -
  have "relay_listen ''localhost:+7400'' = Inr ''127.0.0.1:7400''" by code_simp
  from relay_listen_meets_client [OF this] show ?thesis by simp
qed

end
