(* ===== verification/Token.thy ===== *)
theory Token
  imports Address
begin

text \<open>
  The shared token of the relay (\<open>internal/paths/relay.go\<close>): its file is read, or minted and linked into
  place, by daemons that may race and crash. The link either makes the file or fails because it is
  there, and nobody else removes it. The main result is that the winners and the losers of a race
  serve with one token, the one in the file, which is one a broker accepts when it is paired.
\<close>

section \<open>Reading\<close>

text \<open>
  What \<open>Lstat\<close> and \<open>Open\<close> find: is it regular, is it the file that was checked, its permission bits and
  content. A read that fails although the file is there ends the start of the daemon; it has no value here.
\<close>

record token_file =
  tf_regular :: bool
  tf_same :: bool
  tf_mode :: nat
  tf_content :: string

definition minted_token :: "string \<Rightarrow> bool" where
  "minted_token t \<longleftrightarrow> length t = 64 \<and> to_lower t = t \<and> list_all is_hex t"

text \<open>Modes that let the group or others in.\<close>

definition check_token_perm :: "token_file \<Rightarrow> bool" where
  "check_token_perm f \<longleftrightarrow> tf_mode f mod 64 = 0"

definition strip_newline :: "string \<Rightarrow> string" where
  "strip_newline b = (case cut_suffix [chr 10] b of
     None \<Rightarrow> b
   | Some t \<Rightarrow> (case cut_suffix [chr 13] t of Some u \<Rightarrow> u | None \<Rightarrow> t))"

text \<open>The empty token when there is no file.\<close>

definition read_token :: "string \<Rightarrow> token_file option \<Rightarrow> string + string" where
  "read_token path file = (case file of
     None \<Rightarrow> Inr []
   | Some f \<Rightarrow>
       if \<not> tf_regular f then Inl (''relay token file '' @ path @ '' must be a regular, non-symlink file'')
       else if \<not> tf_same f then Inl (''relay token file '' @ path @ '' changed while opening'')
       else if \<not> check_token_perm f then Inl (''relay token file '' @ path @ '' has mode '' @ octal4 (tf_mode f) @
         '': it must not be readable by group or other - chmod 600 it or delete it'')
       else (let t = strip_newline (take 67 (tf_content f)) in
         if \<not> minted_token t then
           Inl (''relay token file '' @ path @ '' must hold exactly 64 lowercase hex characters: delete it to mint a new token'')
         else Inr t))"

definition relay_insecure :: "string \<Rightarrow> bool" where
  "relay_insecure env \<longleftrightarrow> to_lower (trim_space env) \<in> {''1'', ''true''}"

section \<open>Daemons at work\<close>

text \<open>
  One call of \<open>RelayToken\<close> without \<open>AC_TOKEN\<close>: it looks for the file, mints a token, publishes it, and
  reads the file of the winner when another was faster.
\<close>

datatype seeker = Looking | Minting | Publishing string | Rereading | Served "string + string" | Dead

record token_world =
  tw_file :: "token_file option"
  tw_seekers :: "seeker list"

definition fresh_token_file :: "string \<Rightarrow> token_file" where
  "fresh_token_file t = \<lparr>tf_regular = True, tf_same = True, tf_mode = 384, tf_content = t\<rparr>"

definition look :: "string \<Rightarrow> token_file option \<Rightarrow> seeker" where
  "look path file = (case read_token path file of
     Inl e \<Rightarrow> Served (Inl e)
   | Inr t \<Rightarrow> if t \<noteq> [] then Served (Inr t) else Minting)"

text \<open>What the seeker does next; the random token and the failures of the disk are given.\<close>

datatype luck = Fine | Broken string

definition seek :: "string \<Rightarrow> string \<Rightarrow> luck \<Rightarrow> seeker \<Rightarrow> token_file option \<Rightarrow> seeker \<times> token_file option" where
  "seek path random l s file = (case s of
     Looking \<Rightarrow> (look path file, file)
   | Minting \<Rightarrow> (case l of Broken e \<Rightarrow> Served (Inl e) | Fine \<Rightarrow> Publishing random, file)
   | Publishing t \<Rightarrow> (case l of
        Broken e \<Rightarrow> (Served (Inl e), file)
      | Fine \<Rightarrow> (case file of
           None \<Rightarrow> (Served (Inr t), Some (fresh_token_file t))
         | Some f \<Rightarrow> (Rereading, file)))
   | Rereading \<Rightarrow> (Served (read_token path file), file)
   | _ \<Rightarrow> (s, file))"

datatype token_event = Arrive | Seek nat string luck | Crash nat

text \<open>The random bytes come as hex, so they always have the shape of a token.\<close>

inductive token_step :: "string \<Rightarrow> token_world \<Rightarrow> token_event \<Rightarrow> token_world \<Rightarrow> bool" for path where
  arrive: "token_step path w Arrive (w\<lparr>tw_seekers := tw_seekers w @ [Looking]\<rparr>)"
| seek: "i < length (tw_seekers w) \<Longrightarrow> minted_token random \<Longrightarrow>
    seek path random l (tw_seekers w ! i) (tw_file w) = (s, file) \<Longrightarrow>
    token_step path w (Seek i random l) \<lparr>tw_file = file, tw_seekers = (tw_seekers w)[i := s]\<rparr>"
| crash: "i < length (tw_seekers w) \<Longrightarrow> token_step path w (Crash i) (w\<lparr>tw_seekers := (tw_seekers w)[i := Dead]\<rparr>)"

inductive_cases token_stepE: "token_step path w e w'"

text \<open>\<open>RelayToken\<close> with \<open>AC_TOKEN\<close> set; the file is not looked at.\<close>

definition env_token :: "string \<Rightarrow> (string + string) option" where
  "env_token t = (if t = [] then None
     else Some (if minted_token t then Inr t else Inl ''AC_TOKEN must hold 64 lowercase hex characters''))"

section \<open>One token\<close>

text \<open>What the file would serve, if it would.\<close>

definition offered :: "string \<Rightarrow> token_world \<Rightarrow> string option" where
  "offered path w = (case tw_file w of
     None \<Rightarrow> None
   | Some f \<Rightarrow> (case read_token path (Some f) of Inr t \<Rightarrow> Some t | Inl _ \<Rightarrow> None))"

definition token_agreed :: "string \<Rightarrow> token_world \<Rightarrow> bool" where
  "token_agreed path w \<longleftrightarrow>
     (\<forall>t. Served (Inr t) \<in> set (tw_seekers w) \<longrightarrow> offered path w = Some t) \<and>
     (Rereading \<in> set (tw_seekers w) \<longrightarrow> tw_file w \<noteq> None) \<and>
     (\<forall>t. Publishing t \<in> set (tw_seekers w) \<longrightarrow> minted_token t)"

lemma minted_token_pairs: "minted_token t = (validate_token t = None)"
  by (simp add: minted_token_def validate_token_def valid_lower_hex_def)

lemma strip_minted: "minted_token t \<Longrightarrow> strip_newline (take 67 t) = t"
proof -
  assume m: "minted_token t"
  then have len: "length t = 64" by (simp add: minted_token_def)
  have "chr 10 \<notin> set t"
  proof
    assume "chr 10 \<in> set t"
    then have "is_hex (chr 10)" using m by (auto simp: minted_token_def list_all_iff)
    then show False by (simp add: is_hex_def is_lower_hex_def is_digit_def byte_chr)
  qed
  then have "\<not> has_suffix [chr 10] t" by (auto simp: has_suffix_def has_prefix_iff)
  then show ?thesis using len by (simp add: strip_newline_def cut_suffix_def)
qed

lemma read_fresh: "minted_token t \<Longrightarrow> read_token path (Some (fresh_token_file t)) = Inr t"
  by (simp add: read_token_def fresh_token_file_def check_token_perm_def strip_minted)

lemma read_minted: "read_token path file = Inr t \<Longrightarrow> t = [] \<and> file = None \<or> minted_token t \<and> file \<noteq> None"
  by (auto simp: read_token_def Let_def split: option.splits if_splits)

lemma minted_not_empty: "minted_token t \<Longrightarrow> t \<noteq> []"
  by (auto simp: minted_token_def)

lemma offered_file: "tw_file w = Some f \<Longrightarrow> offered path w = Some t \<longleftrightarrow> read_token path (Some f) = Inr t"
  by (auto simp: offered_def split: sum.splits)

lemma set_update_cases: "i < length xs \<Longrightarrow> y \<in> set (xs[i := x]) \<Longrightarrow> y = x \<or> y \<in> set xs"
  using set_update_subset_insert [of xs i x] by auto

text \<open>A step of a seeker keeps a file that is there, and adds one it can serve.\<close>

lemma seek_file:
  assumes "seek path random l s disk = (s', disk')" and "\<And>t. s = Publishing t \<Longrightarrow> minted_token t"
  shows "disk' = disk \<or> disk = None \<and> (\<exists>t. disk' = Some (fresh_token_file t) \<and> minted_token t)"
  using assms by (auto simp: seek_def split: seeker.splits luck.splits option.splits)

lemma seek_served:
  assumes "seek path random l s disk = (s', disk')" and "s \<noteq> s'"
    and "\<And>t. s = Publishing t \<Longrightarrow> minted_token t" and "s = Rereading \<Longrightarrow> disk \<noteq> None" and "s' = Served (Inr t)"
  shows "disk' \<noteq> None \<and> read_token path disk' = Inr t"
  using assms read_fresh read_minted [of path disk t]
  by (auto simp: seek_def look_def split: seeker.splits luck.splits option.splits sum.splits if_splits)

lemma seek_reread: "seek path random l s disk = (Rereading, disk') \<Longrightarrow> s \<noteq> Rereading \<Longrightarrow> disk' \<noteq> None"
  by (auto simp: seek_def look_def split: seeker.splits luck.splits option.splits sum.splits if_splits)

lemma token_agreed_step:
  assumes "token_step path w e w'" and "token_agreed path w"
  shows "token_agreed path w'" and "tw_file w = Some f \<Longrightarrow> tw_file w' = Some f"
proof -
  have "token_agreed path w' \<and> (tw_file w = Some f \<longrightarrow> tw_file w' = Some f)"
    using assms(1)
  proof (cases rule: token_step.cases)
    case arrive
    then show ?thesis using assms(2) by (auto simp: token_agreed_def offered_def)
  next
    case (crash i)
    then show ?thesis using assms(2) by (auto simp: token_agreed_def offered_def dest!: set_update_cases [rotated])
  next
    case (seek i random l s disk)
    note sk = seek(5) and w' = seek(2)
    have here: "tw_seekers w ! i \<in> set (tw_seekers w)" using seek(3) by simp
    have pub: "tw_seekers w ! i = Publishing t \<Longrightarrow> minted_token t" for t
      using assms(2) here by (auto simp: token_agreed_def)
    have re: "tw_seekers w ! i = Rereading \<Longrightarrow> tw_file w \<noteq> None"
      using assms(2) here by (auto simp: token_agreed_def)
    have disk: "disk = tw_file w \<or> tw_file w = None \<and> (\<exists>t. disk = Some (fresh_token_file t) \<and> minted_token t)"
      using seek_file [OF sk] pub by blast
    have offer: "offered path w' = Some t" if "offered path w = Some t" for t
      using that disk by (auto simp: offered_def w' split: option.splits)
    have served: "offered path w' = Some t" if "Served (Inr t) \<in> set (tw_seekers w')" for t
    proof (cases "Served (Inr t) \<in> set (tw_seekers w)")
      case True
      then show ?thesis using assms(2) offer by (auto simp: token_agreed_def)
    next
      case False
      then have "s = Served (Inr t)" using that set_update_cases [OF seek(3)] by (auto simp: w')
      moreover have "tw_seekers w ! i \<noteq> s" using False here calculation by auto
      ultimately have "disk \<noteq> None \<and> read_token path disk = Inr t" using seek_served [OF sk _ pub re] by blast
      then show ?thesis by (auto simp: w' offered_def)
    qed
    have "tw_file w' \<noteq> None" if "Rereading \<in> set (tw_seekers w')"
    proof (cases "Rereading \<in> set (tw_seekers w)")
      case True
      then have "tw_file w \<noteq> None" using assms(2) by (auto simp: token_agreed_def)
      then show ?thesis using disk by (auto simp: w')
    next
      case False
      then have "s = Rereading" using that set_update_cases [OF seek(3)] by (auto simp: w')
      then have "seek path random l (tw_seekers w ! i) (tw_file w) = (Rereading, disk)" using sk by simp
      moreover have "tw_seekers w ! i \<noteq> Rereading" using False here by auto
      ultimately have "disk \<noteq> None" by (rule seek_reread)
      then show ?thesis by (simp add: w')
    qed
    moreover have "minted_token t" if "Publishing t \<in> set (tw_seekers w')" for t
    proof (cases "Publishing t \<in> set (tw_seekers w)")
      case True
      then show ?thesis using assms(2) by (auto simp: token_agreed_def)
    next
      case False
      then have "s = Publishing t" using that set_update_cases [OF seek(3)] by (auto simp: w')
      then show ?thesis using sk seek(4) here False
        by (auto simp: seek_def look_def split: seeker.splits luck.splits option.splits sum.splits if_splits)
    qed
    ultimately show ?thesis using served disk by (auto simp: token_agreed_def w')
  qed
  then show "token_agreed path w'" "tw_file w = Some f \<Longrightarrow> tw_file w' = Some f" by auto
qed

lemma token_runs:
  assumes "runs (token_step path) w es w'" and "token_agreed path w"
  shows "token_agreed path w' \<and> (\<forall>f. tw_file w = Some f \<longrightarrow> tw_file w' = Some f)"
  using assms
proof (induction rule: runs.induct)
  case (runs_step w e u es w')
  then show ?case using token_agreed_step [OF runs_step.hyps(1)] by blast
qed simp

text \<open>
  C24. One relay, one token. However daemons look for the token, mint one and publish it, with failures
  and crashes anywhere between, all that get one get the same: the one that the token file
  holds from then on. It is one that pairing accepts, and a file that was there is never replaced.
\<close>

theorem one_relay_token:
  assumes "runs (token_step path) w es w'" and "tw_seekers w = []"
  shows "(\<exists>t. \<forall>u. Served (Inr u) \<in> set (tw_seekers w') \<longrightarrow> u = t \<and> validate_token u = None \<and> read_token path (tw_file w') = Inr u) \<and>
    (\<forall>f. tw_file w = Some f \<longrightarrow> tw_file w' = Some f)"
proof -
  have "token_agreed path w" using assms(2) by (simp add: token_agreed_def)
  note t = token_runs [OF assms(1) this]
  have "offered path w' = Some u \<and> validate_token u = None \<and> read_token path (tw_file w') = Inr u" if "Served (Inr u) \<in> set (tw_seekers w')" for u
  proof -
    have o: "offered path w' = Some u" using t that by (auto simp: token_agreed_def)
    then obtain f where f: "tw_file w' = Some f" by (auto simp: offered_def split: option.splits)
    then show ?thesis using o read_minted [of path "Some f" u] by (simp add: offered_file minted_token_pairs)
  qed
  then have "\<exists>t. \<forall>u. Served (Inr u) \<in> set (tw_seekers w') \<longrightarrow> u = t \<and> validate_token u = None \<and> read_token path (tw_file w') = Inr u"
    by (metis option.inject)
  then show ?thesis using t by blast
qed

text \<open>Two daemons start at once; the second links first, and the first one serves what it finds.\<close>

definition mine :: string where "mine = replicate 64 (CHR ''a'')"
definition theirs :: string where "theirs = replicate 64 (CHR ''b'')"

definition race :: "token_event list" where
  "race = [Arrive, Arrive, Seek 0 mine Fine, Seek 1 theirs Fine, Seek 0 mine Fine, Seek 1 theirs Fine,
     Seek 1 theirs Fine, Seek 0 mine Fine, Seek 0 mine Fine]"

lemma race_tokens: "minted_token mine" "minted_token theirs"
  by code_simp+

lemma read_theirs: "read_token path (Some (fresh_token_file theirs)) = Inr theirs"
  by (rule read_fresh [OF race_tokens(2)])

lemma race_runs:
  "runs (token_step path) \<lparr>tw_file = None, tw_seekers = []\<rparr> race
     \<lparr>tw_file = Some (fresh_token_file theirs), tw_seekers = [Served (Inr theirs), Served (Inr theirs)]\<rparr>"
proof -
  let ?w = "\<lambda>d a b. \<lparr>tw_file = d, tw_seekers = [a, b]\<rparr>" and ?f = "Some (fresh_token_file theirs)"
  have step: "token_step path (?w d a b) (Seek i r l) (?w d' a' b')"
    if "minted_token r" "i = 0 \<and> seek path r l a d = (a', d') \<and> b' = b \<or> i = 1 \<and> seek path r l b d = (b', d') \<and> a' = a" for d a b i r l d' a' b'
    using that token_step.seek [of i "?w d a b" r path l] by auto
  have "token_step path \<lparr>tw_file = None, tw_seekers = []\<rparr> Arrive \<lparr>tw_file = None, tw_seekers = [Looking]\<rparr>"
      "token_step path \<lparr>tw_file = None, tw_seekers = [Looking]\<rparr> Arrive (?w None Looking Looking)"
    using token_step.arrive [of path "\<lparr>tw_file = None, tw_seekers = []\<rparr>"] token_step.arrive [of path "\<lparr>tw_file = None, tw_seekers = [Looking]\<rparr>"]
    by simp_all
  moreover have "token_step path (?w None Looking Looking) (Seek 0 mine Fine) (?w None Minting Looking)"
      "token_step path (?w None Minting Looking) (Seek 1 theirs Fine) (?w None Minting Minting)"
      "token_step path (?w None Minting Minting) (Seek 0 mine Fine) (?w None (Publishing mine) Minting)"
      "token_step path (?w None (Publishing mine) Minting) (Seek 1 theirs Fine) (?w None (Publishing mine) (Publishing theirs))"
      "token_step path (?w None (Publishing mine) (Publishing theirs)) (Seek 1 theirs Fine) (?w ?f (Publishing mine) (Served (Inr theirs)))"
      "token_step path (?w ?f (Publishing mine) (Served (Inr theirs))) (Seek 0 mine Fine) (?w ?f Rereading (Served (Inr theirs)))"
      "token_step path (?w ?f Rereading (Served (Inr theirs))) (Seek 0 mine Fine) (?w ?f (Served (Inr theirs)) (Served (Inr theirs)))"
    by (rule step; simp add: race_tokens seek_def look_def read_theirs; simp add: read_token_def)+
  ultimately show ?thesis unfolding race_def by (blast intro: runs.intros)
qed

theorem one_relay_token_witness:
  "\<exists>t w. runs (token_step ''/t'') \<lparr>tw_file = None, tw_seekers = []\<rparr> race w \<and> Served (Inr theirs) \<in> set (tw_seekers w) \<and>
     (\<forall>u. Served (Inr u) \<in> set (tw_seekers w) \<longrightarrow> u = t)"
  using one_relay_token [OF race_runs, of "''/t''"] race_runs [of "''/t''"] by fastforce

end
