(* ===== verification/Setup.thy ===== *)
theory Setup
  imports Address Machine Sha256
begin

text \<open>
  \<open>cmd/agent-coordinator/eyes_setup.go\<close>: the command that sets up the bridge between WSL and
  Windows, as thirteen steps over a state that carries the log of everything it did to or
  asked of the machine. What the machine answers may depend on all that happened before. Parsed flags
  are the initial state; \<open>url.Parse\<close> and the text of its errors are not modelled.
\<close>

section \<open>The machine as the command sees it\<close>

datatype deed =
    Ran string "string list"
  | Asked string "string list"
  | Fetched string
  | MadeDir string
  | Wrote string string
  | Renamed string string
  | Removed string
  | Slept

datatype file_kind = Missing | StatFailed string | RegularFile nat | Directory | OtherFile nat

datatype fetched = Body string | NotFound | FetchFailed string

record setup_env =
  sv_os :: string
  sv_home :: string
  sv_distro_var :: string
  sv_proc_version :: "string option"
  sv_token_path :: "string + string"
  sv_executable :: "string option"
  sv_module :: string
  sv_version :: string
  sv_sibling_url :: "string \<Rightarrow> string \<Rightarrow> string"
  sv_look :: "deed list \<Rightarrow> string \<Rightarrow> bool"
  sv_run :: "deed list \<Rightarrow> string \<Rightarrow> string list \<Rightarrow> bool"
  sv_output :: "deed list \<Rightarrow> string \<Rightarrow> string list \<Rightarrow> string \<times> bool"
  sv_fetch :: "deed list \<Rightarrow> string \<Rightarrow> fetched"
  sv_read :: "deed list \<Rightarrow> string \<Rightarrow> string + string option"
  sv_stat :: "deed list \<Rightarrow> string \<Rightarrow> file_kind"
  sv_lstat :: "deed list \<Rightarrow> string \<Rightarrow> file_kind"
  sv_mkdir :: "deed list \<Rightarrow> string \<Rightarrow> string option"
  sv_write :: "deed list \<Rightarrow> string \<Rightarrow> string option"
  sv_rename :: "deed list \<Rightarrow> string \<Rightarrow> string option"

text \<open>The flags, what the steps discover, the log and the text printed.\<close>

record eyes_setup =
  su_dry :: bool
  su_repair :: bool
  su_chrome_ready :: bool
  su_addr :: string
  su_host :: string
  su_port :: string
  su_repo :: string
  su_distro :: string
  su_win_user :: string
  su_windows_binary :: string
  su_claude :: string
  su_work_dir :: string
  su_config_dir :: string
  su_model :: string
  su_app_data :: string
  su_app_wsl :: string
  su_exe :: string
  su_token :: string
  su_unc :: string
  su_task :: string
  su_installed :: bool
  su_fresh :: bool
  su_log :: "deed list"
  su_out :: string

datatype step_state = StOk | StDone | StPlan | StNote | StBlocked | StPending

record step_result =
  sr_state :: step_state
  sr_detail :: string
  sr_next :: string

type_synonym step = "eyes_setup \<Rightarrow> (string + step_result) \<times> eyes_setup"

definition ok :: "string \<Rightarrow> string + step_result" where
  "ok d = Inr \<lparr>sr_state = StOk, sr_detail = d, sr_next = []\<rparr>"

definition done_step :: "string \<Rightarrow> string + step_result" where
  "done_step d = Inr \<lparr>sr_state = StDone, sr_detail = d, sr_next = []\<rparr>"

definition note_step :: "string \<Rightarrow> string \<Rightarrow> string + step_result" where
  "note_step d n = Inr \<lparr>sr_state = StNote, sr_detail = d, sr_next = n\<rparr>"

definition blocked :: "string \<Rightarrow> string \<Rightarrow> string + step_result" where
  "blocked d n = Inr \<lparr>sr_state = StBlocked, sr_detail = d, sr_next = n\<rparr>"

definition planned :: "string \<Rightarrow> string \<Rightarrow> string + step_result" where
  "planned d n = Inr \<lparr>sr_state = StPlan, sr_detail = d, sr_next = n\<rparr>"

section \<open>Doing and asking\<close>

definition logged_effect :: "deed \<Rightarrow> eyes_setup \<Rightarrow> eyes_setup" where
  "logged_effect e s = s\<lparr>su_log := su_log s @ [e]\<rparr>"

definition run_it :: "setup_env \<Rightarrow> string \<Rightarrow> string list \<Rightarrow> eyes_setup \<Rightarrow> bool \<times> eyes_setup" where
  "run_it v n args s = (sv_run v (su_log s) n args, logged_effect (Ran n args) s)"

definition query :: "setup_env \<Rightarrow> string \<Rightarrow> string list \<Rightarrow> eyes_setup \<Rightarrow> (string \<times> bool) \<times> eyes_setup" where
  "query v n args s =
     ((case sv_output v (su_log s) n args of (t, fine) \<Rightarrow> (trim_space t, fine)), logged_effect (Asked n args) s)"

definition fetch :: "setup_env \<Rightarrow> string \<Rightarrow> eyes_setup \<Rightarrow> fetched \<times> eyes_setup" where
  "fetch v u s = (sv_fetch v (su_log s) u, logged_effect (Fetched u) s)"

definition make_dir :: "setup_env \<Rightarrow> string \<Rightarrow> eyes_setup \<Rightarrow> string option \<times> eyes_setup" where
  "make_dir v p s = (sv_mkdir v (su_log s) p, logged_effect (MadeDir p) s)"

definition write_file :: "setup_env \<Rightarrow> string \<Rightarrow> string \<Rightarrow> eyes_setup \<Rightarrow> string option \<times> eyes_setup" where
  "write_file v p t s = (sv_write v (su_log s) p, logged_effect (Wrote p t) s)"

definition rename_file :: "setup_env \<Rightarrow> string \<Rightarrow> string \<Rightarrow> eyes_setup \<Rightarrow> string option \<times> eyes_setup" where
  "rename_file v p q s = (sv_rename v (su_log s) p, logged_effect (Renamed p q) s)"

definition stat :: "setup_env \<Rightarrow> string \<Rightarrow> eyes_setup \<Rightarrow> file_kind" where
  "stat v p s = sv_stat v (su_log s) p"

definition is_regular :: "file_kind \<Rightarrow> bool" where
  "is_regular i = (case i of RegularFile _ \<Rightarrow> True | _ \<Rightarrow> False)"

definition shell_args :: "string \<Rightarrow> string list" where
  "shell_args script = [''-NoProfile'', ''-NonInteractive'', ''-Command'', script]"

definition drop_cr :: "string \<Rightarrow> string" where
  "drop_cr t = filter (\<lambda>c. c \<noteq> chr 13) t"

definition powershell :: "setup_env \<Rightarrow> string \<Rightarrow> eyes_setup \<Rightarrow> (string \<times> bool) \<times> eyes_setup" where
  "powershell v script s = (case query v ''powershell.exe'' (shell_args script) s of
     ((t, fine), s') \<Rightarrow> ((trim_space (drop_cr t), fine), s'))"

definition run_powershell :: "setup_env \<Rightarrow> string \<Rightarrow> eyes_setup \<Rightarrow> bool \<times> eyes_setup" where
  "run_powershell v script s = run_it v ''powershell.exe'' (shell_args script) s"

section \<open>Text\<close>

abbreviation squote :: char where "squote \<equiv> CHR 0x27"
abbreviation bslash :: char where "bslash \<equiv> CHR 0x5C"
abbreviation nl :: string where "nl \<equiv> [chr 10]"

definition ps_quote :: "string \<Rightarrow> string" where
  "ps_quote t = squote # concat (map (\<lambda>c. if c = squote then [squote, squote] else [c]) t) @ [squote]"

text \<open>A Windows path from its parts.\<close>

definition win_join :: "string list \<Rightarrow> string" where
  "win_join ps = join [bslash] ps"

definition trim_right :: "char \<Rightarrow> string \<Rightarrow> string" where
  "trim_right c s = rev (dropWhile (\<lambda>d. d = c) (rev s))"

definition within :: "string \<Rightarrow> string \<Rightarrow> bool" where
  "within child parent =
     (let c = to_lower (trim_right bslash child); p = to_lower (trim_right bslash parent) in
      c = p \<or> has_prefix (p @ [bslash]) c)"

text \<open>\<open>ScheduleTaskName\<close> of \<open>internal/hostbroker/scheduler.go\<close>: six bytes of the digest in hex.\<close>

definition schedule_task_name :: "string \<Rightarrow> string" where
  "schedule_task_name sid = ''Agent Coordinator Host Broker-'' @ take 12 (sha256_hex sid)"

definition release_url :: "string \<Rightarrow> string \<Rightarrow> string" where
  "release_url module v = (case split_on slash module of
     a # b # c # _ \<Rightarrow>
       if a \<noteq> ''github.com'' \<or> b = [] \<or> c = [] \<or> v = [] then []
       else ''https://github.com/'' @ b @ slash # c @ ''/releases/download/v'' @ v @ ''/agent-coordinator_windows_amd64.exe''
   | _ \<Rightarrow> [])"

section \<open>The relay\<close>

definition set_addr :: "string \<Rightarrow> eyes_setup \<Rightarrow> string + eyes_setup" where
  "set_addr addr s = (case split_host_port addr of
     None \<Rightarrow> Inl (''--addr '' @ go_quote addr)
   | Some (host, port) \<Rightarrow> (case new_client addr of
        Inl e \<Rightarrow> Inl (''--addr '' @ go_quote addr @ '': '' @ e)
      | Inr _ \<Rightarrow> Inr (s\<lparr>su_addr := addr, su_host := host, su_port := port\<rparr>)))"

definition step_environment :: "setup_env \<Rightarrow> step" where
  "step_environment v s =
     (if sv_os v \<noteq> ''linux'' then (Inl (''eyes-setup runs in a WSL Linux distro; this is '' @ sv_os v), s)
      else (let s1 = (if su_distro s = [] then s\<lparr>su_distro := sv_distro_var v\<rparr> else s) in
        if su_distro s1 = [] \<and> (case sv_proc_version v of None \<Rightarrow> True | Some b \<Rightarrow> \<not> contains ''microsoft'' (to_lower b)) then
          (Inl ''this does not look like WSL: WSL_DISTRO_NAME is unset and /proc/version has no microsoft marker'', s1)
        else if \<not> sv_look v (su_log s1) ''powershell.exe'' then
          (Inl ''powershell.exe is not on PATH: enable WSL interop (/etc/wsl.conf [interop] enabled=true, appendWindowsPath=true) and restart the distro with `wsl --shutdown`'', s1)
        else (ok (''WSL distro '' @ (if su_distro s1 = [] then ''unknown'' else su_distro s1) @ '', powershell.exe interop available''), s1)))"

definition drop_in_addr :: "string \<Rightarrow> string" where
  "drop_in_addr dropin = (case List.find (\<lambda>l. has_prefix ''Environment=AC_RELAY_LISTEN='' (trim_space l)) (split_on (chr 10) dropin) of
     None \<Rightarrow> []
   | Some l \<Rightarrow> trim_chars [dquote, squote] (drop (length ''Environment=AC_RELAY_LISTEN='') (trim_space l)))"

definition service_active :: "setup_env \<Rightarrow> eyes_setup \<Rightarrow> bool \<times> eyes_setup" where
  "service_active v s = (case query v ''systemctl'' [''--user'', ''is-active'', ''agent-coordinator.service''] s of
     ((t, _), s') \<Rightarrow> (trim_space t = ''active'', s'))"

fun wait_for_token :: "setup_env \<Rightarrow> string \<Rightarrow> nat \<Rightarrow> eyes_setup \<Rightarrow> bool \<times> eyes_setup" where
  "wait_for_token v p 0 s = (False, s)"
| "wait_for_token v p (Suc n) s =
     (if is_regular (sv_lstat v (su_log s) p) then (True, s) else wait_for_token v p n (logged_effect Slept s))"

definition dropin_dir :: "setup_env \<Rightarrow> string" where
  "dropin_dir v = join_paths [sv_home v, ''.config'', ''systemd'', ''user'', ''agent-coordinator.service.d'']"

definition dropin_conf :: "setup_env \<Rightarrow> string" where
  "dropin_conf v = join_paths [dropin_dir v, ''relay.conf'']"

definition manual_text :: "eyes_setup \<Rightarrow> string" where
  "manual_text s = ''without systemd, run the daemon in its own terminal:'' @ nl @ ''  AC_RELAY_LISTEN='' @ su_addr s @ '' agent-coordinator daemon''"

definition status_hint :: "string \<Rightarrow> string" where
  "status_hint head = head @ nl @ ''  systemctl --user --no-pager status agent-coordinator.service''"

text \<open>The part of the step that changes the machine.\<close>

definition restart_listener :: "setup_env \<Rightarrow> step" where
  "restart_listener v s =
     (let conf = dropin_conf v in
      case make_dir v (dropin_dir v) s of
        (Some e, s1) \<Rightarrow> (Inl e, s1)
      | (None, s1) \<Rightarrow> (case write_file v conf (''[Service]'' @ nl @ ''Environment=AC_RELAY_LISTEN='' @ su_addr s @ nl) s1 of
          (Some e, s2) \<Rightarrow> (Inl e, s2)
        | (None, s2) \<Rightarrow> (case run_it v ''systemctl'' [''--user'', ''daemon-reload''] s2 of
            (False, s3) \<Rightarrow> (note_step (''wrote '' @ conf @ '' but systemctl failed'') (manual_text s), s3)
          | (True, s3) \<Rightarrow> (case run_it v ''systemctl'' [''--user'', ''restart'', ''agent-coordinator.service''] s3 of
              (False, s4) \<Rightarrow> (note_step (''wrote '' @ conf @ '' but systemctl failed'') (manual_text s), s4)
            | (True, s4) \<Rightarrow> (case service_active v s4 of
                (False, s5) \<Rightarrow> (note_step (''wrote '' @ conf @ '' but agent-coordinator.service is not active'') (status_hint ''read the failure:''), s5)
              | (True, s5) \<Rightarrow> (case (case sv_token_path v of Inl _ \<Rightarrow> (True, s5) | Inr p \<Rightarrow> wait_for_token v p 20 s5) of
                  (False, s6) \<Rightarrow> (note_step (''restarted agent-coordinator.service but '' @ (case sv_token_path v of Inr p \<Rightarrow> p | Inl _ \<Rightarrow> []) @ '' has not appeared'')
                      (status_hint ''confirm the listener bound:''), s6)
                | (True, s6) \<Rightarrow> (done_step (''wrote '' @ conf @ '' and restarted agent-coordinator.service on '' @ su_addr s), s6)))))))"

definition step_relay_listener :: "setup_env \<Rightarrow> step" where
  "step_relay_listener v s =
     (let conf = dropin_conf v in
      case sv_read v (su_log s) conf of
        Inl e \<Rightarrow> (Inl e, s)
      | Inr b \<Rightarrow>
        if \<not> sv_look v (su_log s) ''systemctl'' then (note_step ''systemctl not found; the drop-in alone has no effect'' (manual_text s), s)
        else (case (if drop_in_addr (case b of None \<Rightarrow> [] | Some t \<Rightarrow> t) = su_addr s \<and> \<not> su_repair s then service_active v s else (False, s)) of
            (True, s1) \<Rightarrow> (ok (''agent-coordinator.service is active with AC_RELAY_LISTEN='' @ su_addr s @ '' ('' @ conf @ '')''), s1)
          | (False, s1) \<Rightarrow>
              if su_dry s then (planned (''write '' @ conf @ '' with AC_RELAY_LISTEN='' @ su_addr s @
                  '', then systemctl --user daemon-reload + restart agent-coordinator.service'') [], s1)
              else restart_listener v s1))"

definition step_relay_token :: "setup_env \<Rightarrow> step" where
  "step_relay_token v s = (case sv_token_path v of
     Inl e \<Rightarrow> (Inl e, s)
   | Inr p \<Rightarrow> (let s1 = s\<lparr>su_token := p\<rparr> in
       case sv_lstat v (su_log s) p of
         Missing \<Rightarrow> (blocked (p @ '' is missing'') (''the daemon mints the token only after the relay listener binds:'' @ nl @
             ''  systemctl --user restart agent-coordinator.service'' @ nl @ ''  (or) AC_RELAY_LISTEN='' @ su_addr s @ '' agent-coordinator daemon''), s1)
       | StatFailed e \<Rightarrow> (Inl e, s1)
       | RegularFile perm \<Rightarrow>
           if perm \<noteq> 384 then (blocked (p @ '' has mode '' @ octal4 perm @ '', want 0600'') (''chmod 600 '' @ p), s1)
           else (ok (p @ '' is a regular 0600 file (contents never read)''), s1)
       | _ \<Rightarrow> (blocked (p @ '' is not a regular file'') (''rm '' @ p @ '' and restart the daemon''), s1)))"

section \<open>The Windows binary\<close>

definition to_wsl_path :: "setup_env \<Rightarrow> string \<Rightarrow> eyes_setup \<Rightarrow> (string + string) \<times> eyes_setup" where
  "to_wsl_path v w s = (case query v ''wslpath'' [''-u'', w] s of
     ((t, fine), s') \<Rightarrow> (if \<not> fine \<or> t = [] then Inl (''wslpath -u '' @ w @ '' failed'') else Inr t, s'))"

definition map_app_data :: "setup_env \<Rightarrow> string \<Rightarrow> eyes_setup \<Rightarrow> string option \<times> eyes_setup" where
  "map_app_data v d s = (case to_wsl_path v d (s\<lparr>su_app_data := d\<rparr>) of
     (Inl e, s') \<Rightarrow> (Some (''wslpath -u '' @ d @ '': '' @ e), s')
   | (Inr w, s') \<Rightarrow> (None, s'\<lparr>su_app_wsl := w\<rparr>))"

definition resolve_app_data :: "setup_env \<Rightarrow> eyes_setup \<Rightarrow> string option \<times> eyes_setup" where
  "resolve_app_data v s =
     (if su_app_data s \<noteq> [] then (None, s)
      else if su_win_user s \<noteq> [] then map_app_data v (win_join [''C:'', ''Users'', su_win_user s, ''AppData'', ''Local'']) s
      else (case powershell v ''$env:LOCALAPPDATA'' s of
          ((t, fine), s1) \<Rightarrow>
            if \<not> fine \<or> t = [] then (Some ''could not read %LOCALAPPDATA% through interop; pass --windows-user <WindowsUser>'', s1)
            else map_app_data v t s1))"

definition exe_version :: "setup_env \<Rightarrow> string \<Rightarrow> eyes_setup \<Rightarrow> string \<times> eyes_setup" where
  "exe_version v p s = (case query v p [''version''] s of
     ((t, fine), s') \<Rightarrow> (if \<not> fine then [] else trim_space (drop_cr t), s'))"

definition version_warning :: "setup_env \<Rightarrow> string \<Rightarrow> eyes_setup \<Rightarrow> string \<times> eyes_setup" where
  "version_warning v p s = (case exe_version v p s of
     (got, s') \<Rightarrow>
       (if got = [] then ''WARNING: could not read the version of '' @ p
        else if got \<noteq> sv_version v then ''WARNING: '' @ p @ '' is version '' @ got @ '' but this build is '' @ sv_version v @
          ''; replace it with'' @ nl @ ''  agent-coordinator eyes-setup --windows-binary <matching agent-coordinator.exe>''
        else [], s'))"

definition copy_windows_binary :: "setup_env \<Rightarrow> string \<Rightarrow> string \<Rightarrow> string \<Rightarrow> step" where
  "copy_windows_binary v src dest source s = (case version_warning v src s of
     (warning, s1) \<Rightarrow>
       if su_dry s1 then (planned (''install '' @ su_exe s1 @ '' from '' @ src @ '' ('' @ source @ '')'') warning, s1\<lparr>su_fresh := True\<rparr>)
       else (case make_dir v (dir_name dest) s1 of
           (Some e, s2) \<Rightarrow> (Inl e, s2)
         | (None, s2) \<Rightarrow> (case run_it v ''cp'' [src, dest] s2 of
             (False, s3) \<Rightarrow> (Inl ''cp failed'', s3)
           | (True, s3) \<Rightarrow> (Inr \<lparr>sr_state = StDone, sr_detail = ''installed '' @ su_exe s3 @ '' (source: '' @ source @ '')'', sr_next = warning\<rparr>,
               s3\<lparr>su_fresh := True\<rparr>))))"

text \<open>The checksum that is published first decides; without one the version the artifact reports.\<close>

fun verify_sums :: "setup_env \<Rightarrow> string list \<Rightarrow> string \<Rightarrow> eyes_setup \<Rightarrow> (string + string) option \<times> eyes_setup" where
  "verify_sums v [] digest s = (None, s)"
| "verify_sums v (u # us) digest s =
     (if u = [] then verify_sums v us digest s
      else (case fetch v u s of
          (Body published, s1) \<Rightarrow>
            (Some (if contains digest (to_lower published) then Inr ''verified by published sha256''
              else Inl (''sha256 '' @ digest @ '' is not listed in '' @ u)), s1)
        | (_, s1) \<Rightarrow> verify_sums v us digest s1))"

definition verify_artifact :: "setup_env \<Rightarrow> string \<Rightarrow> string \<Rightarrow> string \<Rightarrow> eyes_setup \<Rightarrow> (string + string) \<times> eyes_setup" where
  "verify_artifact v artifact body staged s =
     (case verify_sums v [artifact @ ''.sha256'', sv_sibling_url v artifact ''SHA256SUMS''] (sha256_hex body) s of
        (Some r, s1) \<Rightarrow> (r, s1)
      | (None, s1) \<Rightarrow> (case exe_version v staged s1 of
          (got, s2) \<Rightarrow>
            (if got = [] then Inl ''no published checksum and the artifact would not report its version''
             else if got \<noteq> sv_version v then Inl (''artifact reports version '' @ got @ '', want '' @ sv_version v)
             else Inr ''version self-report only, no published checksum'', s2)))"

definition sibling_exe :: "setup_env \<Rightarrow> eyes_setup \<Rightarrow> string" where
  "sibling_exe v s = (case sv_executable v of
     None \<Rightarrow> []
   | Some self \<Rightarrow> (let c = join_paths [dir_name self, ''agent-coordinator.exe''] in
       if is_regular (stat v c s) then c else []))"

definition buildable_source :: "setup_env \<Rightarrow> eyes_setup \<Rightarrow> string" where
  "buildable_source v s =
     (if (case stat v (join_paths [su_repo s, ''Makefile'']) s of Missing \<Rightarrow> True | StatFailed _ \<Rightarrow> True | _ \<Rightarrow> False) then []
      else if \<not> sv_look v (su_log s) ''go'' \<or> \<not> sv_look v (su_log s) ''make'' then []
      else join_paths [su_repo s, ''agent-coordinator.exe''])"

definition with_binary_text :: string where
  "with_binary_text = ''  agent-coordinator eyes-setup --windows-binary /path/to/agent-coordinator.exe''"

text \<open>A body that was fetched is staged, verified and renamed into place.\<close>

definition install_fetched :: "setup_env \<Rightarrow> string \<Rightarrow> string \<Rightarrow> string \<Rightarrow> step" where
  "install_fetched v artifact body dest s =
     (let staged = dest @ ''.download'' in
      case make_dir v (dir_name dest) s of
        (Some e, s1) \<Rightarrow> (Inl e, s1)
      | (None, s1) \<Rightarrow> (case write_file v staged body s1 of
          (Some e, s2) \<Rightarrow> (Inl e, s2)
        | (None, s2) \<Rightarrow> (case verify_artifact v artifact body staged s2 of
            (Inl e, s3) \<Rightarrow> (blocked (''the fetched artifact failed verification: '' @ e)
                (''install a trusted build yourself:'' @ nl @ with_binary_text), logged_effect (Removed staged) s3)
          | (Inr how, s3) \<Rightarrow> (case rename_file v staged dest s3 of
              (Some e, s4) \<Rightarrow> (Inl e, logged_effect (Removed staged) s4)
            | (None, s4) \<Rightarrow> (done_step (''installed '' @ su_exe s4 @ '' (source: release '' @ sv_version v @ '', '' @ how @ '')''),
                s4\<lparr>su_fresh := True\<rparr>)))))"

text \<open>None when the caller shall go on and build from source.\<close>

definition fetch_windows_binary :: "setup_env \<Rightarrow> string \<Rightarrow> eyes_setup \<Rightarrow> (string + step_result) option \<times> eyes_setup" where
  "fetch_windows_binary v dest s =
     (let artifact = release_url (sv_module v) (sv_version v) in
      if artifact = [] then (None, s)
      else if su_dry s then (Some (planned (''fetch '' @ artifact @ '' and install '' @ su_exe s) []), s\<lparr>su_fresh := True\<rparr>)
      else (case fetch v artifact s of
          (Body body, s1) \<Rightarrow> (case install_fetched v artifact body dest s1 of (r, s2) \<Rightarrow> (Some r, s2))
        | (f, s1) \<Rightarrow>
            if buildable_source v s1 \<noteq> [] then (None, s1)
            else (Some (blocked (case f of FetchFailed e \<Rightarrow> ''fetching '' @ artifact @ '' failed: '' @ e
                  | _ \<Rightarrow> ''no release artifact for version '' @ sv_version v)
                (''download or build agent-coordinator.exe yourself, then re-run:'' @ nl @ with_binary_text)), s1)))"

definition build_windows_binary :: "setup_env \<Rightarrow> string \<Rightarrow> step" where
  "build_windows_binary v dest s =
     (let src = buildable_source v s in
      if src = [] then (blocked ''no agent-coordinator.exe could be resolved''
          (''supply one of these, then re-run eyes-setup:'' @ nl @ with_binary_text @ nl @
           ''  (or) from a source checkout with a Go toolchain: make build-windows''), s)
      else if su_dry s then (planned (''make -C '' @ su_repo s @ '' build-windows, then install '' @ su_exe s) [], s\<lparr>su_fresh := True\<rparr>)
      else (case run_it v ''make'' [''-C'', su_repo s, ''build-windows''] s of
          (False, s1) \<Rightarrow> (blocked (''make build-windows failed in '' @ su_repo s)
              (''build it by hand, then re-run:'' @ nl @ ''  agent-coordinator eyes-setup --windows-binary '' @ src), s1)
        | (True, s1) \<Rightarrow> copy_windows_binary v src dest ''make build-windows'' s1))"

definition step_windows_binary :: "setup_env \<Rightarrow> step" where
  "step_windows_binary v s = (case resolve_app_data v s of
     (Some e, s1) \<Rightarrow> (Inl e, s1)
   | (None, s1) \<Rightarrow>
       (let dest = join_paths [join_paths [su_app_wsl s1, ''agent-coordinator''], ''agent-coordinator.exe''];
            s2 = s1\<lparr>su_exe := win_join [su_app_data s1, ''agent-coordinator'', ''agent-coordinator.exe'']\<rparr> in
        if su_windows_binary s2 \<noteq> [] then
          (if \<not> is_regular (stat v (su_windows_binary s2) s2) then
             (blocked (''--windows-binary '' @ su_windows_binary s2 @ '' is not a regular file'')
               ''pass the path of an existing agent-coordinator.exe with --windows-binary'', s2)
           else copy_windows_binary v (su_windows_binary s2) dest ''--windows-binary override'' s2)
        else if is_regular (stat v dest s2) then
          (case version_warning v dest s2 of
             (warning, s3) \<Rightarrow> (Inr \<lparr>sr_state = StOk, sr_detail = su_exe s3 @ '' already present (source: previous install)'', sr_next = warning\<rparr>, s3))
        else if sibling_exe v s2 \<noteq> [] then copy_windows_binary v (sibling_exe v s2) dest ''sibling of the running binary'' s2
        else (case fetch_windows_binary v dest s2 of
            (Some r, s3) \<Rightarrow> (r, s3)
          | (None, s3) \<Rightarrow> build_windows_binary v dest s3)))"

section \<open>The broker\<close>

definition step_token_unc :: "setup_env \<Rightarrow> step" where
  "step_token_unc v s = (case query v ''wslpath'' [''-w'', su_token s] s of
     ((t, fine), s1) \<Rightarrow>
       if fine \<and> has_prefix [bslash, bslash] t then (ok t, s1\<lparr>su_unc := t\<rparr>)
       else if su_distro s1 = [] then (blocked ''wslpath did not return a UNC path and the distro name is unknown''
           ''pass --distro <DistroName> (see `wsl -l -q` in PowerShell)'', s1)
       else (let u = [bslash, bslash] @ ''wsl.localhost'' @ bslash # su_distro s1 @ map (\<lambda>c. if c = slash then bslash else c) (su_token s1) in
         (ok (u @ '' (derived from $WSL_DISTRO_NAME)''), s1\<lparr>su_unc := u\<rparr>)))"

definition task_query :: "string \<Rightarrow> string" where
  "task_query task = ''if (Get-ScheduledTask -TaskPath '' @ [squote, bslash, squote] @ '' -TaskName '' @ ps_quote task @
     '' -ErrorAction SilentlyContinue) { '' @ ps_quote ''yes'' @ '' } else { '' @ ps_quote ''no'' @ '' }''"

definition step_broker_task :: "setup_env \<Rightarrow> step" where
  "step_broker_task v s = (case powershell v ''[System.Security.Principal.WindowsIdentity]::GetCurrent().User.Value'' s of
     ((sid, fine), s1) \<Rightarrow>
       if \<not> fine \<or> \<not> has_prefix ''S-1-'' sid then
         (note_step ''could not read the current Windows SID; assuming the broker is not installed'' [], s1)
       else (let task = schedule_task_name sid; s2 = s1\<lparr>su_task := task\<rparr> in
         case powershell v (task_query task) s2 of
           ((t, fine'), s3) \<Rightarrow>
             if \<not> fine' then (note_step ''could not query Task Scheduler; assuming the broker is not installed'' [], s3)
             else (if t = ''yes'' then ok (''broker task '' @ task @ '' exists for this Windows user'')
                 else ok (''no broker task '' @ task @ '' for this Windows user yet''), s3\<lparr>su_installed := (t = ''yes'')\<rparr>)))"

definition settled_setup :: "eyes_setup \<Rightarrow> bool" where
  "settled_setup s \<longleftrightarrow> su_installed s \<and> \<not> su_fresh s \<and> \<not> su_repair s"

definition pair_script :: "eyes_setup \<Rightarrow> string" where
  "pair_script s = ''& '' @ ps_quote (su_exe s) @ '' host pair --file '' @ ps_quote (su_unc s)"

definition step_pair :: "setup_env \<Rightarrow> step" where
  "step_pair v s =
     (if settled_setup s then (ok (''already paired (broker task '' @ su_task s @ '' exists); re-run with --repair to pair again''), s)
      else if su_dry s then (planned (''powershell.exe -Command '' @ pair_script s) [], s)
      else (case run_powershell v (pair_script s) s of
          (False, s1) \<Rightarrow> (blocked ''host pair failed'' (''run this in a Windows PowerShell window as the Claude user:'' @ nl @ ''  '' @ pair_script s), s1)
        | (True, s1) \<Rightarrow> (done_step ''paired the Windows broker from the protected token file'', s1)))"

definition probe_script :: "eyes_setup \<Rightarrow> string" where
  "probe_script s = ''Test-NetConnection '' @ ps_quote (su_host s) @ '' -Port '' @ ps_quote (su_port s)"

definition probe_query :: "eyes_setup \<Rightarrow> string" where
  "probe_query s = ''if ('' @ probe_script s @ '' -InformationLevel Quiet) { '' @ ps_quote ''up'' @ '' } else { '' @ ps_quote ''down'' @ '' }''"

definition step_connectivity :: "setup_env \<Rightarrow> step" where
  "step_connectivity v s = (case powershell v (probe_query s) s of
     ((t, fine), s1) \<Rightarrow>
       if \<not> fine \<or> t \<noteq> ''up'' then (blocked (probe_script s @ '' did not succeed'')
           (''Windows cannot reach the WSL relay. Fix WSL networking, then re-run:'' @ nl @
            ''  add to '' @ win_join [''C:'', ''Users'', ''<WindowsUser>'', ''.wslconfig:''] @ nl @ ''    [wsl2]'' @ nl @ ''    networkingMode=mirrored'' @ nl @
            ''  then run `wsl --shutdown` in PowerShell and start the distro again.'' @ nl @ ''  verify with: '' @ probe_script s), s1)
       else (ok (''Windows reaches '' @ su_addr s), s1))"

section \<open>Claude\<close>

definition claude_query :: string where
  "claude_query = ''$c = Get-Command claude.exe -ErrorAction SilentlyContinue; if ($c) { $c.Source } else { @('' @ dquote # ''$env:LOCALAPPDATA'' @
     bslash # ''Programs'' @ bslash # ''claude'' @ bslash # ''claude.exe'' @ dquote # '','' @ dquote # ''$env:LOCALAPPDATA'' @ bslash # ''Programs'' @
     bslash # ''Claude'' @ bslash # ''claude.exe'' @ dquote # '') | Where-Object { Test-Path $_ } | Select-Object -First 1 }''"

definition step_claude_exe :: "setup_env \<Rightarrow> step" where
  "step_claude_exe v s =
     (if su_claude s \<noteq> [] then (ok (''using --claude-exe '' @ su_claude s), s)
      else (case powershell v claude_query s of
          ((t, fine), s1) \<Rightarrow>
            if \<not> fine \<or> t = [] then (blocked ''claude.exe not found on the Windows side''
                (''install Claude for Windows, or pass --claude-exe '' @ ps_quote (win_join [''C:'', ''absolute'', ''path'', ''to'', ''claude.exe''])), s1)
            else (ok (''discovered '' @ t), s1\<lparr>su_claude := t\<rparr>)))"

definition login_query :: string where
  "login_query = ''if (Test-Path (Join-Path $env:USERPROFILE '' @ ps_quote (''.claude'' @ bslash # ''.credentials.json'') @
     '')) { '' @ ps_quote ''yes'' @ '' } else { '' @ ps_quote ''no'' @ '' }''"

definition step_claude_login :: "setup_env \<Rightarrow> step" where
  "step_claude_login v s = (case powershell v login_query s of
     ((t, fine), s1) \<Rightarrow>
       if \<not> fine \<or> t \<noteq> ''yes'' then (blocked (win_join [''%USERPROFILE%'', ''.claude'', ''.credentials.json not found''])
           (''sign in once on Windows (interactive, human only):'' @ nl @ ''  & '' @ ps_quote (su_claude s1) @ nl @
            ''  complete the browser login, then re-run eyes-setup''), s1)
       else (ok ''Windows Claude credentials present for the broker to mirror'', s1))"

text \<open>What becomes of one of the two directories: an answer of the step, or whether it had to be made.\<close>

definition work_dir :: "setup_env \<Rightarrow> string \<Rightarrow> eyes_setup \<Rightarrow> ((string + step_result) + bool) \<times> eyes_setup" where
  "work_dir v d s = (case to_wsl_path v d s of
     (Inl _, s1) \<Rightarrow> (Inl (blocked (''cannot map '' @ d @ '' into WSL'')
         (''create it in PowerShell:'' @ nl @ ''  New-Item -ItemType Directory -Force '' @ ps_quote d)), s1)
   | (Inr w, s1) \<Rightarrow>
       if stat v w s1 = Directory then (Inr False, s1)
       else if su_dry s1 then (Inr True, s1)
       else (case make_dir v w s1 of (Some e, s2) \<Rightarrow> (Inl (Inl e), s2) | (None, s2) \<Rightarrow> (Inr True, s2)))"

definition with_dirs :: "eyes_setup \<Rightarrow> eyes_setup" where
  "with_dirs s =
     (let s1 = (if su_work_dir s = [] then s\<lparr>su_work_dir := win_join [su_app_data s, ''agent-coordinator'', ''eyes-workdir'']\<rparr> else s) in
      if su_config_dir s1 = [] then s1\<lparr>su_config_dir := win_join [su_app_data s1, ''agent-coordinator'', ''claude-config'']\<rparr> else s1)"

definition made_text :: "eyes_setup \<Rightarrow> bool \<Rightarrow> bool \<Rightarrow> string" where
  "made_text s a b = join '' and '' ((if a then [su_work_dir s] else []) @ (if b then [su_config_dir s] else []))"

definition step_work_dirs :: "setup_env \<Rightarrow> step" where
  "step_work_dirs v s0 =
     (let s = with_dirs s0 in
      if within (su_config_dir s) (su_work_dir s) then
        (blocked ''the Claude config directory is inside the work directory'' (''pass --claude-config-dir pointing outside '' @ su_work_dir s), s)
      else (case work_dir v (su_work_dir s) s of
          (Inl r, s1) \<Rightarrow> (r, s1)
        | (Inr a, s1) \<Rightarrow> (case work_dir v (su_config_dir s) s1 of
            (Inl r, s2) \<Rightarrow> (r, s2)
          | (Inr b, s2) \<Rightarrow>
              (if \<not> a \<and> \<not> b then ok (su_work_dir s @ '' and '' @ su_config_dir s @ '' exist'')
               else if su_dry s then planned (''create '' @ made_text s a b) []
               else done_step (''created '' @ made_text s a b), s2))))"

definition step_chrome_ready :: "setup_env \<Rightarrow> step" where
  "step_chrome_ready v s =
     (if su_chrome_ready s then (ok ''--claude-chrome-ready asserted by you'', s)
      else (blocked ''the manual Claude Chrome smoke probe has not been asserted''
        (''run this once in a Windows PowerShell window and confirm Claude can inspect the intended Chrome profile:'' @ nl @
         ''  $env:CLAUDE_CONFIG_DIR='' @ ps_quote (su_config_dir s) @ ''; & '' @ ps_quote (su_claude s) @ '' --chrome'' @ nl @
         ''then re-run: agent-coordinator eyes-setup --claude-chrome-ready''), s))"

definition install_script :: "eyes_setup \<Rightarrow> string" where
  "install_script s = ''& '' @ ps_quote (su_exe s) @ '' host install --addr '' @ ps_quote (su_addr s) @ '' --claude-exe '' @ ps_quote (su_claude s) @
     '' --claude-workdir '' @ ps_quote (su_work_dir s) @ '' --claude-config-dir '' @ ps_quote (su_config_dir s) @
     (if su_model s \<noteq> [] then '' --claude-model '' @ ps_quote (su_model s) else []) @ '' --claude-chrome-ready''"

definition step_host_install :: "setup_env \<Rightarrow> step" where
  "step_host_install v s =
     (if settled_setup s then (Inr \<lparr>sr_state = StOk,
          sr_detail = ''broker task '' @ su_task s @ '' already installed; its stored settings are NOT read back'',
          sr_next = ''--addr, --claude-model, --claude-workdir and --claude-config-dir given now are ignored until you re-run with --repair''\<rparr>, s)
      else if su_dry s then (planned (''powershell.exe -Command '' @ install_script s) [], s)
      else (case run_powershell v (install_script s) s of
          (False, s1) \<Rightarrow> (blocked ''host install failed'' (''run it yourself in a Windows PowerShell window and read the error:'' @ nl @ ''  '' @ install_script s), s1)
        | (True, s1) \<Rightarrow> (done_step ''installed and started the Windows broker scheduled task'', s1)))"

section \<open>The command\<close>

definition setup_steps :: "setup_env \<Rightarrow> (string \<times> step) list" where
  "setup_steps v = [(''environment'', step_environment v), (''relay-listener'', step_relay_listener v),
     (''relay-token'', step_relay_token v), (''windows-binary'', step_windows_binary v), (''token-unc-path'', step_token_unc v),
     (''broker-task'', step_broker_task v), (''pair'', step_pair v), (''connectivity'', step_connectivity v),
     (''claude-exe'', step_claude_exe v), (''claude-login'', step_claude_login v), (''work-dirs'', step_work_dirs v),
     (''chrome-ready'', step_chrome_ready v), (''host-install'', step_host_install v)]"

definition say :: "string \<Rightarrow> eyes_setup \<Rightarrow> eyes_setup" where
  "say t s = s\<lparr>su_out := su_out s @ t\<rparr>"

definition state_name :: "step_state \<Rightarrow> string" where
  "state_name st = (case st of StOk \<Rightarrow> ''ok'' | StDone \<Rightarrow> ''done'' | StPlan \<Rightarrow> ''plan'' | StNote \<Rightarrow> ''note''
     | StBlocked \<Rightarrow> ''blocked'' | StPending \<Rightarrow> ''pending'')"

definition report_text :: "string \<Rightarrow> step_result \<Rightarrow> string" where
  "report_text name r =
     ''  ['' @ pad_right 7 (state_name (sr_state r)) @ ''] '' @ pad_right 15 name @ '' '' @ sr_detail r @ nl @
     concat (map (\<lambda>l. if l = [] then [] else replicate 28 (CHR '' '') @ l @ nl) (split_on (chr 10) (trim_right (chr 10) (sr_next r))))"

definition pending :: step_result where
  "pending = \<lparr>sr_state = StPending, sr_detail = ''waiting on the blocked step above'', sr_next = []\<rparr>"

fun run_steps :: "(string \<times> step) list \<Rightarrow> nat \<Rightarrow> eyes_setup \<Rightarrow> (string option \<times> nat) \<times> eyes_setup" where
  "run_steps [] count s = ((None, count), s)"
| "run_steps ((name, f) # rest) count s = (case f s of
     (Inl e, s1) \<Rightarrow> ((Some e, count), s1)
   | (Inr r, s1) \<Rightarrow>
       (let s2 = say (report_text name r) s1 in
        if sr_state r \<noteq> StBlocked then run_steps rest count s2
        else if su_dry s2 then run_steps rest (Suc count) s2
        else ((None, Suc count), say (concat (map (\<lambda>(n, g). report_text n pending) rest)) s2)))"

definition run_setup :: "setup_env \<Rightarrow> eyes_setup \<Rightarrow> (string option \<times> nat) \<times> eyes_setup" where
  "run_setup v s =
     (let s1 = say (''eyes-setup: '' @ (if su_dry s then ''dry run, nothing is changed'' else ''applying changes'') @ nl) s in
      case run_steps (setup_steps v) 0 s1 of
        ((Some e, n), s2) \<Rightarrow> ((Some e, n), s2)
      | ((None, n), s2) \<Rightarrow> ((None, n),
          if 0 < n then say (nl @ dec_nat n @ '' step(s) need you; clear them and re-run eyes-setup.'' @ nl) s2
          else if \<not> su_dry s2 then say (nl @ ''eyes bridge ready.'' @ nl) s2 else s2))"

definition exit_code :: "(string option \<times> nat) \<Rightarrow> nat" where
  "exit_code r = (if fst r \<noteq> None \<or> 0 < snd r then 1 else 0)"

end
