(* ===== verification/SetupProps.thy ===== *)
theory SetupProps
  imports Setup "HOL-Library.Sublist"
begin

text \<open>
  What the set-up command may do. A dry run only asks; a real one installs the broker only behind its gates;
  and a value that is quoted for PowerShell ends where its quotes do.
\<close>

section \<open>Quoting\<close>

text \<open>A quoted value, with the single quote that ends it not doubled, is read back in one way only.\<close>

definition ps_body :: "string \<Rightarrow> string" where
  "ps_body t = concat (map (\<lambda>c. if c = squote then [squote, squote] else [c]) t)"

lemma ps_quote_body: "ps_quote t = squote # ps_body t @ [squote]"
  by (simp add: ps_quote_def ps_body_def)

lemma ps_body_simps [simp]:
  "ps_body [] = []" "ps_body (c # t) = (if c = squote then [squote, squote] else [c]) @ ps_body t"
  by (simp_all add: ps_body_def)

definition unquoted :: "string \<Rightarrow> bool" where
  "unquoted r \<longleftrightarrow> \<not> has_prefix [squote] r"

lemma ps_body_inject:
  "unquoted r \<Longrightarrow> unquoted r' \<Longrightarrow> ps_body t @ squote # r = ps_body t' @ squote # r' \<Longrightarrow> t = t' \<and> r = r'"
proof (induction t arbitrary: t')
  case Nil
  then show ?case by (cases t') (auto simp: unquoted_def split: if_splits)
next
  case (Cons c t)
  then show ?case by (cases t') (auto simp: unquoted_def split: if_splits)
qed

lemma ps_quote_inject:
  assumes "unquoted r" and "unquoted r'" and "ps_quote t @ r = ps_quote t' @ r'"
  shows "t = t' \<and> r = r'"
  using assms ps_body_inject [OF assms(1,2)] by (simp add: ps_quote_body)

lemma pair_is_no_install: "pair_script s \<noteq> install_script x"
proof
  assume eq: "pair_script s = install_script x"
  obtain r where r: "install_script x = ''& '' @ ps_quote (su_exe x) @ '' host install'' @ r"
    by (rule that [of "'' --addr '' @ drop (length (''& '' @ ps_quote (su_exe x) @ '' host install --addr '')) (install_script x)"])
      (simp add: install_script_def)
  let ?a = "'' host pair --file '' @ ps_quote (su_unc s)" and ?b = "'' host install'' @ r"
  have "ps_quote (su_exe s) @ ?a = ps_quote (su_exe x) @ ?b"
    using eq unfolding r pair_script_def by (simp only: append_same_eq same_append_eq)
  moreover have "unquoted ?a" "unquoted ?b" by (simp_all add: unquoted_def)
  ultimately have "?a = ?b" using ps_quote_inject by blast
  then show False by simp
qed

section \<open>Effects\<close>

definition reading_script :: "string \<Rightarrow> bool" where
  "reading_script t \<longleftrightarrow> t = ''$env:LOCALAPPDATA'' \<or> t = ''[System.Security.Principal.WindowsIdentity]::GetCurrent().User.Value'' \<or>
     t = claude_query \<or> t = login_query \<or> (\<exists>n. t = task_query n) \<or> (\<exists>s. t = probe_query s)"

text \<open>A question that changes nothing: the state of the service, a path, the version of a program, a probe.\<close>

definition harmless :: "deed \<Rightarrow> bool" where
  "harmless e \<longleftrightarrow> (\<exists>n args. e = Asked n args \<and>
     (args = [''--user'', ''is-active'', ''agent-coordinator.service''] \<and> n = ''systemctl'' \<or>
      (\<exists>p. args = [''-u'', p] \<or> args = [''-w'', p]) \<and> n = ''wslpath'' \<or>
      args = [''version''] \<or> (\<exists>t. args = shell_args t \<and> reading_script t) \<and> n = ''powershell.exe''))"

definition installs :: "deed \<Rightarrow> bool" where
  "installs e \<longleftrightarrow> (\<exists>x. e = Ran ''powershell.exe'' (shell_args (install_script x)))"

text \<open>From one state to a later one: the flags are kept and the log grows by effects in \<open>P\<close>.\<close>

definition fits :: "(deed \<Rightarrow> bool) \<Rightarrow> eyes_setup \<Rightarrow> bool" where
  "fits P s \<longleftrightarrow> (\<forall>e. harmless e \<longrightarrow> P e) \<and> (su_dry s \<or> (\<forall>e. \<not> installs e \<longrightarrow> P e))"

definition along :: "(deed \<Rightarrow> bool) \<Rightarrow> eyes_setup \<Rightarrow> eyes_setup \<Rightarrow> bool" where
  "along P s0 s \<longleftrightarrow> fits P s0 \<and> su_dry s = su_dry s0 \<and> su_chrome_ready s = su_chrome_ready s0 \<and> su_host s = su_host s0 \<and>
     su_port s = su_port s0 \<and> (\<exists>es. su_log s = su_log s0 @ es \<and> list_all P es)"

lemma along_refl: "fits P s \<Longrightarrow> along P s s"
  by (simp add: along_def)

lemma along_dry: "along P s0 s \<Longrightarrow> su_dry s = su_dry s0"
  by (simp add: along_def)

lemma along_fields [simp]:
  "along P s0 (s\<lparr>su_distro := x\<rparr>) = along P s0 s" "along P s0 (s\<lparr>su_app_data := x\<rparr>) = along P s0 s"
  "along P s0 (s\<lparr>su_app_wsl := x\<rparr>) = along P s0 s" "along P s0 (s\<lparr>su_exe := x\<rparr>) = along P s0 s"
  "along P s0 (s\<lparr>su_token := x\<rparr>) = along P s0 s" "along P s0 (s\<lparr>su_unc := x\<rparr>) = along P s0 s"
  "along P s0 (s\<lparr>su_task := x\<rparr>) = along P s0 s" "along P s0 (s\<lparr>su_installed := b\<rparr>) = along P s0 s"
  "along P s0 (s\<lparr>su_fresh := b\<rparr>) = along P s0 s" "along P s0 (s\<lparr>su_claude := x\<rparr>) = along P s0 s"
  "along P s0 (s\<lparr>su_work_dir := x\<rparr>) = along P s0 s" "along P s0 (s\<lparr>su_config_dir := x\<rparr>) = along P s0 s"
  "along P s0 (say x s) = along P s0 s"
  by (simp_all add: along_def say_def)

lemma along_effect:
  assumes "along P s0 s" and "harmless e \<or> \<not> su_dry s \<and> \<not> installs e"
  shows "along P s0 (logged_effect e s)"
  using assms by (auto simp: along_def fits_def logged_effect_def)

text \<open>
  Rules for a program that threads the state: what is left of a call, of a choice and of a pair. A branch that is
  not dry carries this on, so that what changes the machine may stand in it.
\<close>

lemma along_pair: "along P s0 s \<Longrightarrow> along P s0 (snd (r, s))"
  by simp

lemma along_call:
  "along P s0 (snd x) \<Longrightarrow> (\<And>a s1. x = (a, s1) \<Longrightarrow> along P s0 s1 \<Longrightarrow> along P s0 (snd (g a s1))) \<Longrightarrow>
   along P s0 (snd (case x of (a, s1) \<Rightarrow> g a s1))"
  by (cases x) simp

lemma along_pure: "(\<And>a b. x = (a, b) \<Longrightarrow> along P s0 (snd (g a b))) \<Longrightarrow> along P s0 (snd (case x of (a, b) \<Rightarrow> g a b))"
  by (cases x) simp

lemma along_option:
  "(\<And>x. a = Some x \<Longrightarrow> along P s0 (snd (f x))) \<Longrightarrow> (a = None \<Longrightarrow> along P s0 (snd g)) \<Longrightarrow>
   along P s0 (snd (case a of None \<Rightarrow> g | Some x \<Rightarrow> f x))"
  by (cases a) simp_all

lemma along_sum:
  "(\<And>x. a = Inl x \<Longrightarrow> along P s0 (snd (f x))) \<Longrightarrow> (\<And>x. a = Inr x \<Longrightarrow> along P s0 (snd (g x))) \<Longrightarrow>
   along P s0 (snd (case a of Inl x \<Rightarrow> f x | Inr x \<Rightarrow> g x))"
  by (cases a) simp_all

lemma along_bool:
  "(a \<Longrightarrow> along P s0 (snd f)) \<Longrightarrow> (\<not> a \<Longrightarrow> along P s0 (snd g)) \<Longrightarrow> along P s0 (snd (case a of True \<Rightarrow> f | False \<Rightarrow> g))"
  by (cases a) simp_all

lemma along_if: "(a \<Longrightarrow> along P s0 (snd f)) \<Longrightarrow> (\<not> a \<Longrightarrow> along P s0 (snd g)) \<Longrightarrow> along P s0 (snd (if a then f else g))"
  by simp

lemma along_dry_if:
  "along P s0 s \<Longrightarrow> (su_dry s0 \<Longrightarrow> along P s0 (snd f)) \<Longrightarrow> (\<not> su_dry s0 \<Longrightarrow> along P s0 (snd g)) \<Longrightarrow>
   along P s0 (snd (if su_dry s then f else g))"
  by (simp add: along_dry)

lemma along_info:
  "(\<And>x. along P s0 (snd (f1 x))) \<Longrightarrow> (\<And>x. along P s0 (snd (f2 x))) \<Longrightarrow> along P s0 (snd f3) \<Longrightarrow> along P s0 (snd f4) \<Longrightarrow> (\<And>x. along P s0 (snd (f5 x))) \<Longrightarrow>
   along P s0 (snd (case i of Missing \<Rightarrow> f3 | StatFailed x \<Rightarrow> f1 x | RegularFile x \<Rightarrow> f2 x | Directory \<Rightarrow> f4 | OtherFile x \<Rightarrow> f5 x))"
  by (cases i) simp_all

lemma along_fetched:
  "(\<And>x. along P s0 (snd (f1 x))) \<Longrightarrow> along P s0 (snd f2) \<Longrightarrow> (\<And>x. along P s0 (snd (f3 x))) \<Longrightarrow>
   along P s0 (snd (case i of Body x \<Rightarrow> f1 x | NotFound \<Rightarrow> f2 | FetchFailed x \<Rightarrow> f3 x))"
  by (cases i) simp_all

lemmas along_rules = along_pair along_dry_if along_if along_option along_sum along_bool along_info along_fetched

lemma asks:
  "harmless (Asked ''systemctl'' [''--user'', ''is-active'', ''agent-coordinator.service''])"
  "harmless (Asked ''wslpath'' [''-u'', p])" "harmless (Asked ''wslpath'' [''-w'', p])" "harmless (Asked q [''version''])"
  by (simp_all add: harmless_def shell_args_def)

lemma reads:
  "reading_script ''$env:LOCALAPPDATA''" "reading_script ''[System.Security.Principal.WindowsIdentity]::GetCurrent().User.Value''"
  "reading_script claude_query" "reading_script login_query" "reading_script (task_query n)" "reading_script (probe_query s)"
  by (auto simp: reading_script_def)

lemma shell_asks: "reading_script t \<Longrightarrow> harmless (Asked ''powershell.exe'' (shell_args t))"
  by (auto simp: harmless_def)

lemma asked_along: "harmless (Asked n args) \<Longrightarrow> along P s0 s \<Longrightarrow> along P s0 (snd (query v n args s))"
  using along_effect [of P s0 s "Asked n args"] by (simp add: query_def)

lemma shell_along: "reading_script t \<Longrightarrow> along P s0 s \<Longrightarrow> along P s0 (snd (powershell v t s))"
  unfolding powershell_def
  by (rule along_call) (auto intro: asked_along shell_asks along_pair split: prod.split)

lemma acts_along:
  assumes "\<not> su_dry s0" and "along P s0 s"
  shows "along P s0 (snd (fetch v u s))" "along P s0 (snd (make_dir v p s))"
    "along P s0 (snd (write_file v p t s))" "along P s0 (snd (rename_file v p q s))"
    "along P s0 (logged_effect (Removed p) s)" "along P s0 (logged_effect Slept s)"
    "n \<noteq> ''powershell.exe'' \<Longrightarrow> along P s0 (snd (run_it v n args s))"
    "along P s0 (snd (run_powershell v (pair_script x) s))"
  using assms along_effect [OF assms(2)] pair_is_no_install along_dry [OF assms(2)]
  by (auto simp: fetch_def make_dir_def write_file_def rename_file_def run_it_def run_powershell_def installs_def shell_args_def)

lemma runs_along:
  assumes "\<not> su_dry s0" and "along P s0 s"
  shows "along P s0 (snd (run_it v ''systemctl'' args s))" "along P s0 (snd (run_it v ''cp'' args s))"
    "along P s0 (snd (run_it v ''make'' args s))"
  using acts_along(7) [OF assms] by simp_all

section \<open>The steps\<close>

lemma service_along: "along P s0 s \<Longrightarrow> along P s0 (snd (service_active v s))"
  unfolding service_active_def by (rule along_call) (auto intro: asked_along asks split: prod.split)

lemma wait_along: "\<not> su_dry s0 \<Longrightarrow> along P s0 s \<Longrightarrow> along P s0 (snd (wait_for_token v p n s))"
  by (induction v p n s rule: wait_for_token.induct) (auto intro: acts_along)

lemma environment_along: "along P s0 s \<Longrightarrow> along P s0 (snd (step_environment v s))"
  unfolding step_environment_def Let_def by (intro along_rules) simp_all

lemma restart_along: "\<not> su_dry s0 \<Longrightarrow> along P s0 s \<Longrightarrow> along P s0 (snd (restart_listener v s))"
  unfolding restart_listener_def Let_def
  by (assumption | rule along_rules service_along wait_along acts_along(2,3) runs_along(1) along_call)+

lemma listener_along: "along P s0 s \<Longrightarrow> along P s0 (snd (step_relay_listener v s))"
  unfolding step_relay_listener_def Let_def
  by (assumption | rule along_rules service_along restart_along along_call)+

lemma token_along: "along P s0 s \<Longrightarrow> along P s0 (snd (step_relay_token v s))"
  unfolding step_relay_token_def Let_def by (intro along_rules) simp_all

lemma wsl_along: "along P s0 s \<Longrightarrow> along P s0 (snd (to_wsl_path v w s))"
  unfolding to_wsl_path_def by (rule along_call) (auto intro: asked_along asks split: prod.split)

lemma map_along: "along P s0 s \<Longrightarrow> along P s0 (snd (map_app_data v d s))"
  unfolding map_app_data_def by (rule along_call) (auto intro: wsl_along split: sum.split)

lemma resolve_along: "along P s0 s \<Longrightarrow> along P s0 (snd (resolve_app_data v s))"
  unfolding resolve_app_data_def
  by (assumption | rule along_rules map_along shell_along reads along_call along_pure)+

lemma version_along: "along P s0 s \<Longrightarrow> along P s0 (snd (exe_version v p s))"
  unfolding exe_version_def by (rule along_call) (auto intro: asked_along asks split: prod.split)

lemma warning_along: "along P s0 s \<Longrightarrow> along P s0 (snd (version_warning v p s))"
  unfolding version_warning_def by (rule along_call) (auto intro: version_along)

lemma copy_along: "along P s0 s \<Longrightarrow> along P s0 (snd (copy_windows_binary v src dest source s))"
  unfolding copy_windows_binary_def
  by (assumption | simp only: along_fields | rule along_rules warning_along acts_along(2) runs_along(2) along_call)+

lemma sums_along: "\<not> su_dry s0 \<Longrightarrow> along P s0 s \<Longrightarrow> along P s0 (snd (verify_sums v us d s))"
proof (induction us arbitrary: s)
  case (Cons u us)
  show ?case unfolding verify_sums.simps
    by (assumption | rule along_rules Cons.IH Cons.prems acts_along(1) along_call)+
qed simp

lemma verify_along: "\<not> su_dry s0 \<Longrightarrow> along P s0 s \<Longrightarrow> along P s0 (snd (verify_artifact v a b st s))"
  unfolding verify_artifact_def by (assumption | rule along_rules sums_along version_along along_call)+

lemma fetched_along: "\<not> su_dry s0 \<Longrightarrow> along P s0 s \<Longrightarrow> along P s0 (snd (install_fetched v a b d s))"
  unfolding install_fetched_def Let_def
  by (assumption | simp only: along_fields | rule along_rules verify_along acts_along(2-5) along_call)+

lemma fetch_along: "along P s0 s \<Longrightarrow> along P s0 (snd (fetch_windows_binary v d s))"
  unfolding fetch_windows_binary_def Let_def
  by (assumption | simp only: along_fields | rule along_rules fetched_along acts_along(1) along_call)+

lemma build_along: "along P s0 s \<Longrightarrow> along P s0 (snd (build_windows_binary v d s))"
  unfolding build_windows_binary_def Let_def
  by (assumption | simp only: along_fields | rule along_rules copy_along runs_along(3) along_call)+

lemma binary_along: "along P s0 s \<Longrightarrow> along P s0 (snd (step_windows_binary v s))"
  unfolding step_windows_binary_def Let_def
  by (assumption | simp only: along_fields | rule along_rules resolve_along warning_along copy_along fetch_along build_along along_call)+

lemma unc_along: "along P s0 s \<Longrightarrow> along P s0 (snd (step_token_unc v s))"
  unfolding step_token_unc_def Let_def
  by (assumption | simp only: along_fields | rule along_rules asked_along asks along_call along_pure)+

lemma task_along: "along P s0 s \<Longrightarrow> along P s0 (snd (step_broker_task v s))"
  unfolding step_broker_task_def Let_def
  by (assumption | simp only: along_fields | rule along_rules shell_along reads along_call along_pure)+

lemma pair_along: "along P s0 s \<Longrightarrow> along P s0 (snd (step_pair v s))"
  unfolding step_pair_def by (assumption | rule along_rules acts_along(8) along_call)+

lemma connectivity_along: "along P s0 s \<Longrightarrow> along P s0 (snd (step_connectivity v s))"
  unfolding step_connectivity_def by (assumption | rule along_rules shell_along reads along_call along_pure)+

lemma claude_along: "along P s0 s \<Longrightarrow> along P s0 (snd (step_claude_exe v s))"
  unfolding step_claude_exe_def
  by (assumption | simp only: along_fields | rule along_rules shell_along reads along_call along_pure)+

lemma login_along: "along P s0 s \<Longrightarrow> along P s0 (snd (step_claude_login v s))"
  unfolding step_claude_login_def by (assumption | rule along_rules shell_along reads along_call along_pure)+

lemma dir_along: "along P s0 s \<Longrightarrow> along P s0 (snd (work_dir v d s))"
  unfolding work_dir_def by (assumption | rule along_rules wsl_along acts_along(2) along_call)+

lemma with_dirs_along: "along P s0 s \<Longrightarrow> along P s0 (with_dirs s)"
  by (simp add: with_dirs_def Let_def)

lemma dirs_along: "along P s0 s \<Longrightarrow> along P s0 (snd (step_work_dirs v s))"
  unfolding step_work_dirs_def Let_def
  by (assumption | rule along_rules dir_along with_dirs_along along_call)+

lemma chrome_along: "along P s0 s \<Longrightarrow> along P s0 (snd (step_chrome_ready v s))"
  by (simp add: step_chrome_ready_def)

section \<open>The run\<close>

lemma install_dry: "su_dry s0 \<Longrightarrow> along P s0 s \<Longrightarrow> along P s0 (snd (step_host_install v s))"
  using along_dry [of P s0 s] by (simp add: step_host_install_def)

definition first_steps :: "setup_env \<Rightarrow> (string \<times> step) list" where
  "first_steps v = butlast (setup_steps v)"

lemma setup_steps_split: "setup_steps v = first_steps v @ [(''host-install'', step_host_install v)]"
  by (simp add: setup_steps_def first_steps_def)

lemma first_steps_along: "(n, f) \<in> set (first_steps v) \<Longrightarrow> along P s0 s \<Longrightarrow> along P s0 (snd (f s))"
  unfolding first_steps_def setup_steps_def butlast.simps
  by (auto intro: environment_along listener_along token_along binary_along unc_along task_along pair_along connectivity_along
      claude_along login_along dirs_along chrome_along)

lemma run_steps_along:
  assumes "\<And>n f s. (n, f) \<in> set fs \<Longrightarrow> along P s0 s \<Longrightarrow> along P s0 (snd (f s))" and "along P s0 s"
  shows "along P s0 (snd (run_steps fs c s))"
  using assms
proof (induction fs arbitrary: c s)
  case (Cons nf fs)
  obtain n f where nf: "nf = (n, f)" by (cases nf)
  obtain x s1 where x: "f s = (x, s1)" by fastforce
  have s1: "along P s0 s1" using Cons.prems(1) [of n f s] Cons.prems(2) x nf by simp
  have ih: "along P s0 (snd (run_steps fs d (say u s1)))" for d u
    by (rule Cons.IH) (use Cons.prems(1) s1 in auto)
  show ?case
  proof (cases x)
    case (Inr r)
    then show ?thesis using ih s1 x nf by (simp add: Let_def)
  qed (use s1 x nf in simp)
qed simp

lemma say_log: "su_log (say t s) = su_log s"
  by (simp add: say_def)

lemma run_setup_log:
  "\<exists>t. su_log (snd (run_setup v s)) = su_log (snd (run_steps (setup_steps v) 0 (say t s)))"
proof -
  obtain t where s1: "run_setup v s = (case run_steps (setup_steps v) 0 (say t s) of
      ((Some e, n), s2) \<Rightarrow> ((Some e, n), s2)
    | ((None, n), s2) \<Rightarrow> ((None, n),
        if 0 < n then say (nl @ dec_nat n @ '' step(s) need you; clear them and re-run eyes-setup.'' @ nl) s2
        else if \<not> su_dry s2 then say (nl @ ''eyes bridge ready.'' @ nl) s2 else s2))"
    unfolding run_setup_def Let_def by blast
  obtain a n s2 where "run_steps (setup_steps v) 0 (say t s) = ((a, n), s2)" by (metis surj_pair)
  then have "su_log (snd (run_setup v s)) = su_log (snd (run_steps (setup_steps v) 0 (say t s)))"
    unfolding s1 by (cases a) (simp_all add: say_log)
  then show ?thesis by blast
qed

text \<open>The steps before a point, all of them passed.\<close>

fun passed :: "(string \<times> step) list \<Rightarrow> eyes_setup \<Rightarrow> eyes_setup \<Rightarrow> bool" where
  "passed [] s t = (t = s)"
| "passed ((n, f) # fs) s t = (\<exists>r s1. f s = (Inr r, s1) \<and> sr_state r \<noteq> StBlocked \<and> passed fs (say (report_text n r) s1) t)"

lemma passed_inv:
  assumes "\<And>n f s. (n, f) \<in> set fs \<Longrightarrow> Q s \<Longrightarrow> Q (snd (f s))" and "\<And>r s. Q s \<Longrightarrow> Q (say r s)" and "Q s" and "passed fs s t"
  shows "Q t"
  using assms
proof (induction fs arbitrary: s)
  case (Cons nf fs)
  obtain n f where nf: "nf = (n, f)" by (cases nf)
  obtain r s1 where r: "f s = (Inr r, s1)" "passed fs (say (report_text n r) s1) t" using Cons.prems(4) nf by auto
  have "Q s1" using Cons.prems(1) [of n f s] Cons.prems(3) r(1) nf by simp
  then have "Q (say (report_text n r) s1)" by (rule Cons.prems(2))
  moreover have "\<And>n f s. (n, f) \<in> set fs \<Longrightarrow> Q s \<Longrightarrow> Q (snd (f s))" using Cons.prems(1) by auto
  ultimately show ?case using Cons.prems(2) r(2) by (intro Cons.IH)
qed simp

lemma passed_along:
  assumes "\<And>n f s. (n, f) \<in> set fs \<Longrightarrow> along P s0 s \<Longrightarrow> along P s0 (snd (f s))" and "along P s0 s" and "passed fs s t"
  shows "along P s0 t"
proof (rule passed_inv [where Q = "along P s0"])
  show "passed fs s t" by (rule assms(3))
qed (use assms(1,2) in auto)

lemma run_steps_reach:
  assumes "run_steps (fs @ gs) c s = (q, s')" and "along P s0 s" and "\<not> su_dry s0"
    and "\<And>n f s. (n, f) \<in> set fs \<Longrightarrow> along P s0 s \<Longrightarrow> along P s0 (snd (f s))"
  shows "along P s0 s' \<or> (\<exists>t c. passed fs s t \<and> run_steps gs c t = (q, s'))"
  using assms
proof (induction fs arbitrary: c s)
  case (Cons nf fs)
  obtain n f where nf: "nf = (n, f)" by (cases nf)
  obtain x s1 where x: "f s = (x, s1)" by fastforce
  have s1: "along P s0 s1" using Cons.prems(2) Cons.prems(4) [of n f s] x nf by simp
  show ?case
  proof (cases x)
    case (Inl e)
    then show ?thesis using Cons.prems(1) s1 x nf by auto
  next
    case (Inr r)
    let ?u = "say (report_text n r) s1"
    have u: "along P s0 ?u" using s1 by simp
    have live: "\<not> su_dry ?u" using along_dry [OF u] Cons.prems(3) by simp
    show ?thesis
    proof (cases "sr_state r = StBlocked")
      case True
      then show ?thesis using Cons.prems(1) u live s1 x nf Inr by (auto simp: Let_def)
    next
      case False
      then have "run_steps (fs @ gs) c ?u = (q, s')" using Cons.prems(1) x nf Inr by (simp add: Let_def)
      then have "along P s0 s' \<or> (\<exists>t c. passed fs ?u t \<and> run_steps gs c t = (q, s'))"
        by (rule Cons.IH [OF _ u Cons.prems(3)]) (use Cons.prems(4) in auto)
      then show ?thesis using x nf Inr False by auto
    qed
  qed
qed auto

lemma dry_along:
  assumes "su_dry s" and "fits P s"
  shows "along P s (snd (run_steps (setup_steps v) 0 (say t s)))"
proof (rule run_steps_along)
  show "along P s (say t s)" using assms(2) by (simp add: along_refl)
next
  fix n f u assume "(n, f) \<in> set (setup_steps v)" and u: "along P s u"
  then have "(n, f) \<in> set (first_steps v) \<or> f = step_host_install v" by (auto simp: setup_steps_split)
  then show "along P s (snd (f u))" using first_steps_along [OF _ u] install_dry [OF assms(1) u] by auto
qed

text \<open>
  C31. A dry run only asks. Whatever the machine answers, \<open>eyes-setup --dry-run\<close> runs no command, writes no file
  and fetches nothing: it asks for the state of the service, maps paths, reads the versions of programs and
  sends PowerShell the probes, and that is all.
\<close>

theorem dry_run_only_asks:
  assumes "su_dry s"
  shows "\<exists>es. su_log (snd (run_setup v s)) = su_log s @ es \<and> list_all harmless es"
proof -
  obtain t where t: "su_log (snd (run_setup v s)) = su_log (snd (run_steps (setup_steps v) 0 (say t s)))" using run_setup_log by blast
  have "fits harmless s" using assms by (simp add: fits_def)
  then have "along harmless s (snd (run_steps (setup_steps v) 0 (say t s)))" by (rule dry_along [OF assms])
  then show ?thesis using t by (simp add: along_def)
qed

text \<open>A machine on which every command succeeds, and a run with all the flags given.\<close>

definition tame_env :: setup_env where
  "tame_env = \<lparr>sv_os = ''linux'', sv_home = ''/h'', sv_distro_var = ''D'', sv_proc_version = None, sv_token_path = Inr ''/t'',
     sv_executable = None, sv_module = [], sv_version = ''1'', sv_sibling_url = (\<lambda>_ _. []), sv_look = (\<lambda>_ _. True),
     sv_run = (\<lambda>_ _ _. True), sv_output = (\<lambda>_ _ args. (if args = shell_args login_query then ''yes'' else ''up'', True)),
     sv_fetch = (\<lambda>_ _. NotFound), sv_read = (\<lambda>_ _. Inr None), sv_stat = (\<lambda>_ _. RegularFile 384),
     sv_lstat = (\<lambda>_ _. RegularFile 384), sv_mkdir = (\<lambda>_ _. None), sv_write = (\<lambda>_ _. None), sv_rename = (\<lambda>_ _. None)\<rparr>"

definition tame_setup :: "bool \<Rightarrow> eyes_setup" where
  "tame_setup dry = \<lparr>su_dry = dry, su_repair = False, su_chrome_ready = True, su_addr = ''a'', su_host = ''h'', su_port = ''1'',
     su_repo = [], su_distro = ''D'', su_win_user = [], su_windows_binary = [], su_claude = ''c'', su_work_dir = ''w'', su_config_dir = ''d'',
     su_model = [], su_app_data = ''p'', su_app_wsl = ''/p'', su_exe = [], su_token = [], su_unc = [], su_task = [],
     su_installed = False, su_fresh = False, su_log = [], su_out = []\<rparr>"

lemma dry_run_only_asks_witness:
  "su_dry (tame_setup True) \<and> (\<exists>es. su_log (snd (run_setup tame_env (tame_setup True))) = [] @ es \<and> list_all harmless es)"
  using dry_run_only_asks [of "tame_setup True" tame_env] by (simp add: tame_setup_def)

section \<open>The gates\<close>

abbreviation grows :: "eyes_setup \<Rightarrow> eyes_setup \<Rightarrow> bool" where
  "grows \<equiv> along (\<lambda>_. True)"

lemma grows_refl: "grows s s"
  by (simp add: along_refl fits_def)

lemma grows_prefix: "grows s u \<Longrightarrow> prefix (su_log s) (su_log u)"
  by (auto simp: along_def)

lemma grows_keeps:
  "grows s u \<Longrightarrow> su_dry u = su_dry s \<and> su_chrome_ready u = su_chrome_ready s \<and> su_host u = su_host s \<and> su_port u = su_port s"
  by (simp add: along_def)

lemma passed_split:
  "passed (fs @ (n, f) # gs) s u \<Longrightarrow>
   \<exists>a r b. passed fs s a \<and> f a = (Inr r, b) \<and> sr_state r \<noteq> StBlocked \<and> passed gs (say (report_text n r) b) u"
proof (induction fs arbitrary: s)
  case (Cons nf fs)
  obtain m g where "nf = (m, g)" by (cases nf)
  then show ?case using Cons by simp blast
qed simp

text \<open>Of the steps that passed, each ran in a state between the first and the last.\<close>

lemma passed_at:
  assumes "passed (first_steps v) s u" and "(n, f) \<in> set (first_steps v)"
  obtains a r b where "grows s a" and "f a = (Inr r, b)" and "sr_state r \<noteq> StBlocked" and "grows b u"
proof -
  obtain fs gs where fs: "first_steps v = fs @ (n, f) # gs" using assms(2) split_list by metis
  have each: "(m, g) \<in> set fs \<or> (m, g) \<in> set gs \<Longrightarrow> grows x y \<Longrightarrow> grows x (snd (g y))" for m g x y
    by (rule first_steps_along [of m g v]) (use fs in auto)
  obtain a r b where r: "passed fs s a" "f a = (Inr r, b)" "sr_state r \<noteq> StBlocked" "passed gs (say (report_text n r) b) u"
    using passed_split assms(1) fs by metis
  have "grows s a" by (rule passed_along [OF _ grows_refl r(1)]) (use each in blast)
  moreover have "grows b u" by (rule passed_along [OF _ _ r(4)]) (use each grows_refl in auto)
  ultimately show ?thesis using r that by blast
qed

text \<open>Answers that a log records, and the pairing.\<close>

definition told :: "setup_env \<Rightarrow> string \<Rightarrow> string \<Rightarrow> deed list \<Rightarrow> bool" where
  "told v script t log \<longleftrightarrow> (\<exists>l raw. prefix (l @ [Asked ''powershell.exe'' (shell_args script)]) log \<and>
     sv_output v l ''powershell.exe'' (shell_args script) = (raw, True) \<and> trim_space (drop_cr (trim_space raw)) = t)"

definition paired :: "setup_env \<Rightarrow> deed list \<Rightarrow> bool" where
  "paired v log \<longleftrightarrow> (\<exists>l x. prefix (l @ [Ran ''powershell.exe'' (shell_args (pair_script x))]) log \<and>
     sv_run v l ''powershell.exe'' (shell_args (pair_script x)))"

lemma told_mono: "told v q t l \<Longrightarrow> prefix l m \<Longrightarrow> told v q t m"
  unfolding told_def by (blast intro: prefix_order.trans)

lemma paired_mono: "paired v l \<Longrightarrow> prefix l m \<Longrightarrow> paired v m"
  unfolding paired_def by (blast intro: prefix_order.trans)

lemma shell_told: "powershell v q s = ((t, True), s1) \<Longrightarrow> told v q t (su_log s1)"
  by (auto simp: powershell_def query_def logged_effect_def told_def split: prod.splits)

lemma probe_passes:
  assumes "step_connectivity v s = (Inr r, s1)" and "sr_state r \<noteq> StBlocked"
  shows "told v (probe_query s) ''up'' (su_log s1)"
proof -
  obtain t fine s2 where q: "powershell v (probe_query s) s = ((t, fine), s2)" by (metis surj_pair)
  then have "fine \<and> t = ''up'' \<and> s2 = s1" using assms by (auto simp: step_connectivity_def blocked_def split: if_splits)
  then show ?thesis using shell_told [of v "probe_query s" s "''up''" s1] q by simp
qed

lemma login_passes:
  assumes "step_claude_login v s = (Inr r, s1)" and "sr_state r \<noteq> StBlocked"
  shows "told v login_query ''yes'' (su_log s1)"
proof -
  obtain t fine s2 where q: "powershell v login_query s = ((t, fine), s2)" by (metis surj_pair)
  then have "fine \<and> t = ''yes'' \<and> s2 = s1" using assms by (auto simp: step_claude_login_def blocked_def split: if_splits)
  then show ?thesis using shell_told [of v login_query s "''yes''" s1] q by simp
qed

lemma token_passes:
  assumes "step_relay_token v s = (Inr r, s1)" and "sr_state r \<noteq> StBlocked"
  shows "\<exists>p. sv_token_path v = Inr p \<and> sv_lstat v (su_log s) p = RegularFile 384"
  using assms by (auto simp: step_relay_token_def blocked_def Let_def split: sum.splits file_kind.splits if_splits)

lemma paired_now: "sv_run v l ''powershell.exe'' (shell_args (pair_script x)) \<Longrightarrow>
    paired v (l @ [Ran ''powershell.exe'' (shell_args (pair_script x))])"
  unfolding paired_def by blast

lemma pair_passes:
  assumes "step_pair v s = (Inr r, s1)" and "sr_state r \<noteq> StBlocked" and "\<not> su_dry s"
  shows "settled_setup s1 \<or> paired v (su_log s1)"
  using assms by (auto simp: step_pair_def blocked_def run_powershell_def run_it_def logged_effect_def split: if_splits bool.splits intro: paired_now)

text \<open>What comes after the pairing leaves alone whether it was needed.\<close>

lemma settled_fields [simp]:
  "settled_setup (logged_effect e s) = settled_setup s" "settled_setup (say x s) = settled_setup s"
  "settled_setup (s\<lparr>su_claude := x\<rparr>) = settled_setup s" "settled_setup (s\<lparr>su_work_dir := x\<rparr>) = settled_setup s"
  "settled_setup (s\<lparr>su_config_dir := x\<rparr>) = settled_setup s"
  by (simp_all add: settled_setup_def logged_effect_def say_def)

lemma settled_shell: "powershell v t s = (x, s1) \<Longrightarrow> settled_setup s1 = settled_setup s"
  by (auto simp: powershell_def query_def split: prod.splits)

lemma settled_work_dir: "settled_setup (snd (work_dir v d s)) = settled_setup s"
  by (auto simp: work_dir_def to_wsl_path_def query_def make_dir_def split: prod.split sum.split option.split)

lemma settled_dirs: "settled_setup (snd (step_work_dirs v s)) = settled_setup s"
proof -
  have "settled_setup (with_dirs s) = settled_setup s" by (simp add: with_dirs_def Let_def)
  then show ?thesis
    using settled_work_dir [of v] unfolding step_work_dirs_def Let_def
    by (auto split: prod.split sum.split) (metis snd_conv)+
qed

lemma settled_later:
  "settled_setup (snd (step_connectivity v s)) = settled_setup s" "settled_setup (snd (step_claude_exe v s)) = settled_setup s"
  "settled_setup (snd (step_claude_login v s)) = settled_setup s" "settled_setup (snd (step_chrome_ready v s)) = settled_setup s"
  by (auto simp: step_connectivity_def step_claude_exe_def step_claude_login_def step_chrome_ready_def
      dest!: settled_shell split: prod.split)

lemma first_steps_pair:
  "\<exists>fs gs. first_steps v = fs @ (''pair'', step_pair v) # gs \<and>
     (\<forall>(n, g) \<in> set gs. \<forall>s. settled_setup (snd (g s)) = settled_setup s)"
  by (rule exI [of _ "take 6 (first_steps v)"], rule exI [of _ "drop 7 (first_steps v)"])
    (simp add: first_steps_def setup_steps_def settled_later settled_dirs)

lemma passed_paired:
  assumes "passed (first_steps v) s u" and "\<not> su_dry s"
  shows "settled_setup u \<or> paired v (su_log u)"
proof -
  let ?Q = "\<lambda>x. settled_setup x \<or> paired v (su_log x)"
  obtain fs gs where fs: "first_steps v = fs @ (''pair'', step_pair v) # gs"
    and gs: "(n, g) \<in> set gs \<Longrightarrow> settled_setup (snd (g x)) = settled_setup x" for n g x
    using first_steps_pair by blast
  have each: "(m, g) \<in> set fs \<or> (m, g) \<in> set gs \<Longrightarrow> grows x y \<Longrightarrow> grows x (snd (g y))" for m g x y
    by (rule first_steps_along [of m g v]) (use fs in auto)
  obtain a r b where r: "passed fs s a" "step_pair v a = (Inr r, b)" "sr_state r \<noteq> StBlocked" "passed gs (say (report_text ''pair'' r) b) u"
    using passed_split assms(1) fs by metis
  have "grows s a" by (rule passed_along [OF _ grows_refl r(1)]) (use each in blast)
  then have "\<not> su_dry a" using assms(2) along_dry by blast
  then have "?Q (say (report_text ''pair'' r) b)" using pair_passes r(2,3) by (simp add: say_log)
  then show ?thesis
  proof (rule passed_inv [where Q = ?Q, rotated 2])
    show "passed gs (say (report_text ''pair'' r) b) u" by (rule r(4))
  next
    fix n g x assume g: "(n, g) \<in> set gs" and q: "?Q x"
    have "grows x (snd (g x))" using each g grows_refl by blast
    then show "?Q (snd (g x))" using q gs g grows_prefix paired_mono by metis
  qed (simp add: say_log)
qed

lemma install_grows: "grows s0 s \<Longrightarrow> grows s0 (snd (step_host_install v s))"
  by (auto simp: step_host_install_def run_powershell_def run_it_def logged_effect_def along_def fits_def split: bool.split)

lemma grows_trans: "grows s t \<Longrightarrow> grows t u \<Longrightarrow> grows s u"
  by (auto simp: along_def fits_def)

lemma grows_probe: "grows s a \<Longrightarrow> probe_query a = probe_query s"
  using grows_keeps [of s a] by (simp add: probe_query_def probe_script_def)

lemma token_prefix: "step_relay_token v s = (r, s1) \<Longrightarrow> su_log s1 = su_log s"
  by (auto simp: step_relay_token_def Let_def split: sum.splits file_kind.splits if_splits)

text \<open>
  C25. The broker is installed only behind its gates. If \<open>eyes-setup\<close> ever runs the installation of the Windows
  broker, then it was not a dry run; the user had asserted that Chrome is ready; the relay token was a regular file
  of mode 0600 when it was looked at; PowerShell had answered that Windows reaches the relay at the given host and
  port, and that Claude is logged in there; and a command that paired the broker had succeeded.
\<close>

theorem broker_installed_behind_gates:
  assumes "su_log s = []" and "log = su_log (snd (run_setup v s))" and "Ran ''powershell.exe'' (shell_args (install_script x)) \<in> set log"
  shows "\<not> su_dry s \<and> su_chrome_ready s \<and>
    (\<exists>p l. sv_token_path v = Inr p \<and> prefix l log \<and> sv_lstat v l p = RegularFile 384) \<and>
    told v (probe_query s) ''up'' log \<and> told v login_query ''yes'' log \<and> paired v log"
proof -
  obtain t where t: "log = su_log (snd (run_steps (setup_steps v) 0 (say t s)))" using run_setup_log assms(2) by blast
  let ?P = "\<lambda>e. \<not> installs e"
  obtain q s' where run: "run_steps (setup_steps v) 0 (say t s) = (q, s')" by fastforce
  have inst: "installs (Ran ''powershell.exe'' (shell_args (install_script x)))" by (auto simp: installs_def)
  have P: "fits ?P s" by (auto simp: fits_def harmless_def installs_def)
  have out: "\<not> along ?P s s'" using assms(1,3) t run inst by (auto simp: along_def list_all_iff)
  have live: "\<not> su_dry s" using dry_along [OF _ P, of v t] out run by auto
  obtain u c where u: "passed (first_steps v) (say t s) u" "run_steps [(''host-install'', step_host_install v)] c u = (q, s')"
    using run_steps_reach [OF run [unfolded setup_steps_split] _ live, of ?P] first_steps_along along_refl [OF P] out by auto
  have au: "along ?P s u" by (rule passed_along [OF _ _ u(1)]) (use first_steps_along along_refl [OF P] in auto)
  have "\<not> settled_setup u" using u(2) au out by (auto simp: step_host_install_def)
  then have "paired v (su_log u)" using passed_paired [OF u(1)] live by (simp add: say_def)
  moreover have pre: "prefix (su_log u) log"
  proof -
    have "grows u s'" using run_steps_along [of "[(''host-install'', step_host_install v)]" _ u u c] install_grows grows_refl u(2) by auto
    then show ?thesis using grows_prefix t run by simp
  qed
  ultimately have paired: "paired v log" by (rule paired_mono)
  have s: "grows s (say t s)" by (simp add: grows_refl)
  have gate: "\<exists>a r b. grows s a \<and> f a = (Inr r, b) \<and> sr_state r \<noteq> StBlocked \<and> prefix (su_log b) log"
    if "(n, f) \<in> set (first_steps v)" for n f
    using passed_at [OF u(1) that] grows_trans [OF s] prefix_order.trans [OF grows_prefix pre] by metis
  have steps: "(''relay-token'', step_relay_token v) \<in> set (first_steps v)" "(''connectivity'', step_connectivity v) \<in> set (first_steps v)"
    "(''claude-login'', step_claude_login v) \<in> set (first_steps v)" "(''chrome-ready'', step_chrome_ready v) \<in> set (first_steps v)"
    by (simp_all add: first_steps_def setup_steps_def)
  have "su_chrome_ready s"
    using gate [OF steps(4)] grows_keeps by (force simp: step_chrome_ready_def blocked_def split: if_splits)
  moreover have "told v login_query ''yes'' log" using gate [OF steps(3)] login_passes told_mono by blast
  moreover have "told v (probe_query s) ''up'' log"
    using gate [OF steps(2)] probe_passes told_mono grows_probe by metis
  moreover have "\<exists>p l. sv_token_path v = Inr p \<and> prefix l log \<and> sv_lstat v l p = RegularFile 384"
    using gate [OF steps(1)] token_passes token_prefix prefix_order.trans by metis
  ultimately show ?thesis using live paired by blast
qed

lemma tame_text:
  "trim_space ''up'' = ''up''" "trim_space ''yes'' = ''yes''" "drop_cr ''up'' = ''up''" "drop_cr ''yes'' = ''yes''" "drop_in_addr [] = []"
  "has_prefix ''S-1-'' ''up'' = False" "within ''d'' ''w'' = False" "has_prefix [bslash, bslash] ''up'' = False" "to_lower ''x'' = ''x''"
  by code_simp+

lemma tame_scripts: "probe_query s \<noteq> login_query" "''$env:LOCALAPPDATA'' \<noteq> login_query"
    "''[System.Security.Principal.WindowsIdentity]::GetCurrent().User.Value'' \<noteq> login_query"
  by (simp_all add: probe_query_def probe_script_def login_query_def)

definition tame :: "eyes_setup \<Rightarrow> bool" where
  "tame s \<longleftrightarrow> \<not> su_dry s \<and> su_chrome_ready s \<and> su_claude s \<noteq> [] \<and> su_app_data s \<noteq> [] \<and> \<not> su_installed s \<and>
     su_windows_binary s = [] \<and> su_distro s \<noteq> [] \<and> su_work_dir s = ''w'' \<and> su_config_dir s = ''d''"

lemma tame_say [simp]: "tame (say t s) = tame s"
  by (simp add: tame_def say_def)

lemma tame_env_simps:
  "sv_os tame_env = ''linux''" "sv_distro_var tame_env = ''D''" "sv_token_path tame_env = Inr ''/t''"
  "sv_look tame_env l n = True" "sv_run tame_env l n args = True" "sv_read tame_env l p = Inr None" "sv_stat tame_env l p = RegularFile 384"
  "sv_lstat tame_env l p = RegularFile 384" "sv_mkdir tame_env l p = None" "sv_write tame_env l p = None"
  "sv_output tame_env l n args = (if args = shell_args login_query then ''yes'' else ''up'', True)"
  by (simp_all add: tame_env_def)

lemma tame_query: "query tame_env n args s = ((if args = shell_args login_query then ''yes'' else ''up'', True), logged_effect (Asked n args) s)"
  by (simp add: query_def tame_env_simps tame_text)

lemma tame_shell: "powershell tame_env q s = ((if q = login_query then ''yes'' else ''up'', True), logged_effect (Asked ''powershell.exe'' (shell_args q)) s)"
  by (simp add: powershell_def tame_query tame_text shell_args_def)

lemma tame_asked: "query tame_env ''systemctl'' [a, b, c] s = ((''up'', True), logged_effect (Asked ''systemctl'' [a, b, c]) s)"
    "query tame_env ''wslpath'' [a, c] s = ((''up'', True), logged_effect (Asked ''wslpath'' [a, c]) s)"
    "query tame_env p [''version''] s = ((''up'', True), logged_effect (Asked p [''version'']) s)"
  by (simp_all add: tame_query shell_args_def)

lemma tame_logged [simp]: "tame (logged_effect e s) = tame s"
  by (simp add: tame_def logged_effect_def)

lemmas tame_simps = tame_asked tame_shell tame_text tame_scripts tame_env_simps ok_def done_step_def note_step_def planned_def
  stat_def is_regular_def make_dir_def write_file_def run_it_def run_powershell_def Let_def

definition goes_on :: "step \<Rightarrow> eyes_setup \<Rightarrow> bool" where
  "goes_on f s \<longleftrightarrow> (case f s of (Inl _, _) \<Rightarrow> False | (Inr r, s1) \<Rightarrow> sr_state r \<noteq> StBlocked \<and> tame s1)"

lemma tame_1: "tame s \<Longrightarrow> goes_on (step_environment tame_env) s"
  by (auto simp: goes_on_def step_environment_def tame_simps tame_def)

lemma tame_2: "tame s \<Longrightarrow> goes_on (step_relay_listener tame_env) s"
  by (auto simp: goes_on_def step_relay_listener_def restart_listener_def service_active_def tame_simps)

lemma tame_3: "tame s \<Longrightarrow> goes_on (step_relay_token tame_env) s"
  by (auto simp: goes_on_def step_relay_token_def tame_simps tame_def)

lemma tame_4: "tame s \<Longrightarrow> goes_on (step_windows_binary tame_env) s"
  by (auto simp: goes_on_def step_windows_binary_def resolve_app_data_def version_warning_def exe_version_def tame_simps tame_def logged_effect_def)

lemma tame_5: "tame s \<Longrightarrow> goes_on (step_token_unc tame_env) s"
  by (auto simp: goes_on_def step_token_unc_def tame_simps tame_def logged_effect_def)

lemma tame_6: "tame s \<Longrightarrow> goes_on (step_broker_task tame_env) s"
  by (auto simp: goes_on_def step_broker_task_def tame_simps)

lemma tame_7: "tame s \<Longrightarrow> goes_on (step_pair tame_env) s"
  by (auto simp: goes_on_def step_pair_def tame_simps tame_def logged_effect_def)

lemma tame_8: "tame s \<Longrightarrow> goes_on (step_connectivity tame_env) s"
  by (auto simp: goes_on_def step_connectivity_def tame_simps)

lemma tame_9: "tame s \<Longrightarrow> goes_on (step_claude_exe tame_env) s"
  by (auto simp: goes_on_def step_claude_exe_def tame_simps tame_def)

lemma tame_10: "tame s \<Longrightarrow> goes_on (step_claude_login tame_env) s"
  by (auto simp: goes_on_def step_claude_login_def tame_simps)

lemma tame_11: "tame s \<Longrightarrow> goes_on (step_work_dirs tame_env) s"
  by (auto simp: goes_on_def step_work_dirs_def work_dir_def to_wsl_path_def with_dirs_def tame_simps tame_def logged_effect_def)

lemma tame_12: "tame s \<Longrightarrow> goes_on (step_chrome_ready tame_env) s"
  by (auto simp: goes_on_def step_chrome_ready_def tame_simps tame_def)

lemma tame_goes_on: "(n, f) \<in> set (first_steps tame_env) \<Longrightarrow> tame s \<Longrightarrow> goes_on f s"
  unfolding first_steps_def setup_steps_def butlast.simps
  by (auto intro: tame_1 tame_2 tame_3 tame_4 tame_5 tame_6 tame_7 tame_8 tame_9 tame_10 tame_11 tame_12)

lemma tame_reaches:
  "(\<And>n f s. (n, f) \<in> set fs \<Longrightarrow> tame s \<Longrightarrow> goes_on f s) \<Longrightarrow> tame s \<Longrightarrow> \<exists>u. tame u \<and> run_steps (fs @ gs) c s = run_steps gs c u"
proof (induction fs arbitrary: s)
  case (Cons nf fs)
  obtain n f where nf: "nf = (n, f)" by (cases nf)
  have go: "goes_on f s" using Cons.prems(1) [of n f s] Cons.prems(2) nf by simp
  then obtain r s1 where r: "f s = (Inr r, s1)" "sr_state r \<noteq> StBlocked" "tame s1"
    by (cases "f s"; cases "fst (f s)") (auto simp: goes_on_def)
  have "\<exists>u. tame u \<and> run_steps (fs @ gs) c (say (report_text n r) s1) = run_steps gs c u"
    by (rule Cons.IH) (use Cons.prems(1) r(3) in auto)
  then show ?case using r nf by (simp add: Let_def)
qed auto

lemma tame_installs:
  "\<exists>x. Ran ''powershell.exe'' (shell_args (install_script x)) \<in> set (su_log (snd (run_setup tame_env (tame_setup False))))"
proof -
  obtain t where t: "su_log (snd (run_setup tame_env (tame_setup False))) = su_log (snd (run_steps (setup_steps tame_env) 0 (say t (tame_setup False))))"
    using run_setup_log by blast
  have "tame (tame_setup False)" by (simp add: tame_def tame_setup_def)
  then have "tame (say t (tame_setup False))" by simp
  then obtain u where u: "tame u" "run_steps (setup_steps tame_env) 0 (say t (tame_setup False)) = run_steps [(''host-install'', step_host_install tame_env)] 0 u"
    unfolding setup_steps_split using tame_reaches tame_goes_on by metis
  have "\<not> settled_setup u" "\<not> su_dry u" using u(1) by (simp_all add: tame_def settled_setup_def)
  then have "Ran ''powershell.exe'' (shell_args (install_script u)) \<in> set (su_log (snd (run_steps [(''host-install'', step_host_install tame_env)] 0 u)))"
    by (simp add: step_host_install_def run_powershell_def run_it_def tame_env_simps done_step_def logged_effect_def Let_def say_def)
  then show ?thesis using t u(2) by metis
qed

lemma broker_installed_behind_gates_witness:
  "let log = su_log (snd (run_setup tame_env (tame_setup False))) in
   (\<exists>x. Ran ''powershell.exe'' (shell_args (install_script x)) \<in> set log) \<and> told tame_env login_query ''yes'' log \<and> paired tame_env log"
proof -
  have "su_log (tame_setup False) = []" by (simp add: tame_setup_def)
  then show ?thesis using tame_installs broker_installed_behind_gates [OF _ refl, of "tame_setup False"] unfolding Let_def by blast
qed

end
