(* ===== verification/Paths.thy ===== *)
theory Paths
  imports Machine
begin

text \<open>
  Laws of \<open>path/filepath\<close> on cleaned paths: cleaning never makes a path longer, so the walk to the
  root ends; and joining, \<open>Dir\<close> and \<open>Base\<close> of a path given by its elements.
\<close>

section \<open>Lengths\<close>

lemma clean_step_size:
  "sum_list (map (\<lambda>x. Suc (length x)) (clean_step r c out)) \<le> sum_list (map (\<lambda>x. Suc (length x)) out) + (if c = [] then 0 else Suc (length c))"
  by (cases out) (auto simp: clean_step_def)

lemma clean_fold_size:
  "sum_list (map (\<lambda>x. Suc (length x)) (fold (clean_step r) cs out))
   \<le> sum_list (map (\<lambda>x. Suc (length x)) out) + sum_list (map (\<lambda>c. if c = [] then 0 else Suc (length c)) cs)"
proof (induction cs arbitrary: out)
  case (Cons c cs)
  show ?case using Cons.IH [of "clean_step r c out"] clean_step_size [of r c out] by (cases "c = []") simp_all
qed simp

lemma split_size: "sum_list (map (\<lambda>x. Suc (length x)) (split_on sep s)) = Suc (length s)"
  by (induction s) (auto split: list.splits)

lemma sum_list_rev: "sum_list (map f (rev xs)) = (sum_list (map f xs) :: nat)"
  by (induction xs) simp_all

lemma join_size: "xs \<noteq> [] \<Longrightarrow> Suc (length (join [c] xs)) = sum_list (map (\<lambda>x. Suc (length x)) xs)"
proof (induction xs)
  case (Cons x xs)
  then show ?case by (cases xs) simp_all
qed simp

lemma clean_length:
  assumes "p \<noteq> []"
  shows "length (clean p) \<le> length p"
proof -
  define out where "out = clean_parts (is_abs p) (split_on slash p)"
  have nonempty: "sum_list (map (\<lambda>c. if c = [] then 0 else Suc (length c)) cs) \<le> sum_list (map (\<lambda>x. Suc (length x)) cs)" for cs :: "string list"
    by (induction cs) auto
  have le: "sum_list (map (\<lambda>x. Suc (length x)) out) \<le> sum_list (map (\<lambda>c. if c = [] then 0 else Suc (length c)) (split_on slash p))"
    using clean_fold_size [of "is_abs p" "split_on slash p" "[]"] by (simp add: out_def clean_parts_def sum_list_rev)
  show ?thesis
  proof (cases "is_abs p")
    case True
    then obtain q where q: "p = slash # q" by (cases p) (auto simp: is_abs_def)
    have "sum_list (map (\<lambda>x. Suc (length x)) out) \<le> Suc (length q)"
      using le nonempty [of "split_on slash q"] by (simp add: q split_size)
    then have "length (join [slash] out) \<le> length q" using join_size [of out slash] by (cases "out = []") auto
    then show ?thesis using True q by (simp add: clean_def out_def Let_def)
  next
    case False
    have "sum_list (map (\<lambda>x. Suc (length x)) out) \<le> Suc (length p)"
      using le nonempty [of "split_on slash p"] by (simp add: split_size)
    then have "out \<noteq> [] \<longrightarrow> length (join [slash] out) \<le> length p" using join_size [of out slash] by auto
    moreover have "clean p = (if out = [] then ''.'' else join [slash] out)" using False by (simp add: clean_def out_def Let_def)
    ultimately show ?thesis using assms by (cases p) auto
  qed
qed

text \<open>A cleaned path ends in a slash only if it is the root.\<close>

lemma clean_end: "clean p = [slash] \<or> last (clean p) \<noteq> slash"
proof -
  define out where "out = clean_parts (is_abs p) (split_on slash p)"
  have plain: "\<forall>x \<in> set out. x \<noteq> [] \<and> slash \<notin> set x"
    using settled_plain [OF clean_parts_settled [of "is_abs p" p]] by (simp add: plain_part_def out_def)
  have join_end: "join [slash] xs \<noteq> [] \<and> last (join [slash] xs) \<noteq> slash" if "xs \<noteq> []" "\<forall>x \<in> set xs. x \<noteq> [] \<and> slash \<notin> set x" for xs
    using that
  proof (induction xs)
    case (Cons x xs)
    then show ?case
    proof (cases xs)
      case Nil
      have "x \<noteq> []" "slash \<notin> set x" using Cons.prems(2) by simp_all
      then have "last x \<noteq> slash" by (metis last_in_set)
      then show ?thesis using Nil \<open>x \<noteq> []\<close> by simp
    next
      case (Cons y ys)
      then show ?thesis using Cons.IH Cons.prems(2) \<open>xs = y # ys\<close> by (simp del: join.simps) (simp add: join.simps)
    qed
  qed simp
  show ?thesis using join_end [of out] plain by (cases "out = []") (auto simp: clean_def out_def [symmetric] Let_def)
qed

lemma dir_name_clean: "clean (dir_name d) = dir_name d"
  by (simp add: dir_name_def clean_clean)

lemma dir_name_shorter:
  assumes "clean d = d" and "dir_name d \<noteq> d"
  shows "dir_name d = ''.'' \<or> length (dir_name d) < length d"
proof (cases "slash \<in> set d")
  case True
  define q where "q = rev (dropWhile (\<lambda>c. c \<noteq> slash) (rev d))"
  have q: "q \<noteq> []" "dir_name d = clean q" using True by (auto simp: q_def dir_name_def dropWhile_eq_Nil_conv)
  have "d = q @ rev (takeWhile (\<lambda>c. c \<noteq> slash) (rev d))"
    by (metis q_def rev_append rev_rev_ident takeWhile_dropWhile_id)
  moreover have "takeWhile (\<lambda>c. c \<noteq> slash) (rev d) \<noteq> []"
  proof
    assume none: "takeWhile (\<lambda>c. c \<noteq> slash) (rev d) = []"
    then have "last d = slash" using True by (cases d rule: rev_cases) (auto split: if_splits)
    then have "d = [slash]" using clean_end [of d] assms(1) by simp
    then show False using assms(2) by (simp add: dir_name_def clean_def clean_parts_def clean_step_def is_abs_def)
  qed
  ultimately have "length q < length d" by (metis length_append length_greater_0_conv length_rev less_add_same_cancel1)
  then show ?thesis using clean_length [OF q(1)] q(2) by simp
next
  case False
  have "dir_name d = clean []" unfolding dir_name_def by (rule arg_cong [of _ _ clean]) (use False in auto)
  moreover have "clean [] = ''.''" by code_simp
  ultimately show ?thesis by simp
qed

section \<open>Elements\<close>

text \<open>Absolute paths by their elements.\<close>

definition rooted :: "string list \<Rightarrow> string" where
  "rooted ps = slash # join [slash] ps"

lemma rooted_parts:
  assumes "is_abs d" and "clean d = d"
  obtains ps where "d = rooted ps" and "settled True (rev ps)"
proof -
  have "d = rooted (clean_parts True (split_on slash d))" using assms by (simp add: clean_def rooted_def Let_def)
  then show ?thesis using that clean_parts_settled [of True d] by blast
qed

lemma split_join_append:
  "ps \<noteq> [] \<Longrightarrow> \<forall>x \<in> set ps. slash \<notin> set x \<Longrightarrow> split_on slash (join [slash] ps @ slash # r) = ps @ split_on slash r"
proof (induction ps)
  case (Cons x ps)
  then show ?case by (cases ps) (simp_all add: split_on_cut)
qed simp

lemma clean_below:
  assumes "settled True (rev ps)"
  shows "clean (rooted ps @ slash # r) = rooted (rev (fold (clean_step True) (split_on slash r) (rev ps)))"
proof -
  have none: "clean_step True [] out = out" for out by (simp add: clean_step_def)
  have "fold (clean_step True) (split_on slash (rooted ps @ slash # r)) [] = fold (clean_step True) (split_on slash r) (rev ps)"
  proof (cases "ps = []")
    case True
    then show ?thesis by (simp add: rooted_def none)
  next
    case False
    have "\<forall>x \<in> set ps. slash \<notin> set x" using settled_plain [OF assms] by (simp add: plain_part_def)
    then show ?thesis using split_join_append [OF False] settled_fixed [OF assms] by (simp add: rooted_def none)
  qed
  moreover have "is_abs (rooted ps @ slash # r)" by (simp add: rooted_def is_abs_def)
  ultimately show ?thesis by (simp add: clean_def clean_parts_def rooted_def Let_def)
qed

lemma clean_rooted: "settled True (rev ps) \<Longrightarrow> clean (rooted ps) = rooted ps"
proof (cases "ps = []")
  case True
  have "clean [slash] = [slash]" by code_simp
  then show ?thesis using True by (simp add: rooted_def)
next
  case False
  assume st: "settled True (rev ps)"
  have "\<forall>x \<in> set ps. slash \<notin> set x" using settled_plain [OF st] by (simp add: plain_part_def)
  then have "split_on slash (join [slash] ps) = ps" by (rule split_on_join [OF False])
  then show ?thesis using settled_fixed [OF st]
    by (simp add: clean_def clean_parts_def rooted_def is_abs_def clean_step_def Let_def)
qed

lemma join_below: "settled True (rev ps) \<Longrightarrow> join_paths [rooted ps, r] = rooted (rev (fold (clean_step True) (split_on slash r) (rev ps)))"
  using clean_below [of ps r] by (simp add: join_paths_def rooted_def)

definition name_part :: "string \<Rightarrow> bool" where
  "name_part a \<longleftrightarrow> plain_part a \<and> a \<noteq> ''..''"

lemma settled_name: "name_part a \<Longrightarrow> settled True (rev ps) \<Longrightarrow> settled True (rev (ps @ [a]))"
  by (simp add: name_part_def)

lemma join_name: "name_part a \<Longrightarrow> settled True (rev ps) \<Longrightarrow> join_paths [rooted ps, a] = rooted (ps @ [a])"
  by (simp add: join_below split_on_whole name_part_def plain_part_def clean_step_def)

lemma join_up:
  assumes "name_part a" and "name_part b" and "settled True (rev ps)"
  shows "join_paths [rooted (ps @ [a, b]), ''..'' @ slash # ''..''] = rooted ps"
proof -
  have "settled True (rev (ps @ [a, b]))" using assms by (simp add: name_part_def)
  from join_below [OF this, of "''..'' @ slash # ''..''"] show ?thesis
    using assms by (simp add: clean_step_def name_part_def)
qed

lemma base_rooted: "plain_part a \<Longrightarrow> base_name (rooted (ps @ [a])) = a"
proof -
  assume a: "plain_part a"
  have "\<exists>q. rooted (ps @ [a]) = q @ slash # a"
  proof (cases "ps = []")
    case False
    then show ?thesis by (auto simp: rooted_def join_snoc intro: exI [of _ "slash # _"])
  qed (simp add: rooted_def)
  then obtain q where q: "rooted (ps @ [a]) = q @ slash # a" by blast
  have "a \<noteq> []" "slash \<notin> set a" using a by (simp_all add: plain_part_def)
  then have "dropWhile (\<lambda>c. c = slash) (rev a @ slash # rev q) = rev a @ slash # rev q"
    by (cases a rule: rev_cases) auto
  moreover have "takeWhile (\<lambda>c. c \<noteq> slash) (rev a @ slash # rev q) = rev a" using \<open>slash \<notin> set a\<close> by (subst takeWhile_append2) auto
  ultimately show ?thesis using \<open>a \<noteq> []\<close> by (simp add: base_name_def q Let_def)
qed

lemma dir_rooted: "plain_part a \<Longrightarrow> settled True (rev ps) \<Longrightarrow> dir_name (rooted (ps @ [a])) = rooted ps"
proof -
  assume a: "plain_part a" and ps: "settled True (rev ps)"
  have no: "slash \<notin> set a" using a by (simp add: plain_part_def)
  obtain q where q: "rooted (ps @ [a]) = q @ slash # a" "q @ [slash] = (if ps = [] then [slash] else rooted ps @ slash # [])"
    using join_snoc [of ps slash a] by (cases "ps = []") (auto simp: rooted_def)
  have "dropWhile (\<lambda>c. c \<noteq> slash) (rev a @ slash # rev q) = slash # rev q" using no by (subst dropWhile_append2) auto
  then have "dir_name (rooted (ps @ [a])) = clean (q @ [slash])" by (simp add: dir_name_def q(1))
  also have "\<dots> = rooted ps"
  proof (cases "ps = []")
    case True
    have "clean [slash] = [slash]" by code_simp
    then show ?thesis using True q(2) by (simp add: rooted_def)
  next
    case False
    then show ?thesis using clean_below [OF ps, of "[]"] q(2) by (simp add: clean_step_def)
  qed
  finally show ?thesis .
qed

end
