(* ===== verification/Scope.thy ===== *)
theory Scope
  imports Paths
begin

text \<open>
  Where the program finds things: the workspace scope of a directory (\<open>internal/scope\<close>), the socket and the
  database (\<open>internal/paths\<close>) and the throttle on starting a daemon (\<open>internal/dialer\<close>). What the file
  system and the environment say is an argument. The main result is that every working tree of a
  repository has the scope of its main one.
\<close>

section \<open>Workspace scopes\<close>

record tree_env =
  te_wd :: "string option"
  te_real :: "string \<Rightarrow> string option"
  te_stat :: "string \<Rightarrow> bool option"
  te_read :: "string \<Rightarrow> string option"

text \<open>\<open>filepath.Abs\<close>.\<close>

definition abs_path :: "tree_env \<Rightarrow> string \<Rightarrow> string option" where
  "abs_path v p = (if is_abs p then Some (clean p) else map_option (\<lambda>w. join_paths [w, p]) (te_wd v))"

definition git_path :: "string \<Rightarrow> string" where
  "git_path d = join_paths [d, ''.git'']"

text \<open>The root of the main repository behind the \<open>.git\<close> file of a linked tree, empty when it has none.\<close>

definition main_repo_root :: "tree_env \<Rightarrow> string \<Rightarrow> string" where
  "main_repo_root v gitfile = (case te_read v gitfile of
     None \<Rightarrow> []
   | Some b \<Rightarrow> (case cut_prefix ''gitdir:'' (trim_space b) of
        None \<Rightarrow> []
      | Some r \<Rightarrow>
          (let g0 = trim_space r;
               g1 = (if is_abs g0 then g0 else join_paths [dir_name gitfile, g0]);
               g2 = (case te_read v (join_paths [g1, ''commondir'']) of
                  None \<Rightarrow> g1
                | Some cb \<Rightarrow> (let cd = trim_space cb in clean (if is_abs cd then cd else join_paths [g1, cd]))) in
           if base_name g2 = ''.git'' then
             (let root = dir_name g2 in case te_real v root of Some x \<Rightarrow> x | None \<Rightarrow> root)
           else [])))"

text \<open>The walk from a directory to the root; \<open>dir\<close> is where it started.\<close>

function resolve_walk :: "tree_env \<Rightarrow> string \<Rightarrow> string \<Rightarrow> string" where
  "resolve_walk v dir d = (case te_stat v (git_path d) of
     Some is_dir \<Rightarrow>
       if is_dir then d
       else (let m = main_repo_root v (git_path d) in if m \<noteq> [] then m else d)
   | None \<Rightarrow> if dir_name d = d then dir else resolve_walk v dir (dir_name d))"
  by pat_completeness auto
termination
proof (relation "measures [\<lambda>(v, dir, d). if clean d = d then 0 else 1, \<lambda>(v, dir, d). if d = ''.'' then 0 else Suc (length d)]", goal_cases)
  case (2 v dir d)
  have "d \<noteq> ''.''" using 2(2) by (auto simp: dir_name_def clean_def clean_parts_def clean_step_def is_abs_def)
  then show ?case using 2(2) dir_name_shorter [of d] dir_name_clean [of d] by auto
qed simp

declare resolve_walk.simps [simp del]

definition resolve :: "tree_env \<Rightarrow> string \<Rightarrow> string" where
  "resolve v cwd = (case abs_path v cwd of
     None \<Rightarrow> clean cwd
   | Some d0 \<Rightarrow> (let dir = (case te_real v d0 of Some r \<Rightarrow> r | None \<Rightarrow> d0) in resolve_walk v dir dir))"

section \<open>Linked trees\<close>

text \<open>\<open>d\<close> lies in the tree of \<open>root\<close>: on the way up there is no \<open>.git\<close> before it.\<close>

inductive in_tree :: "tree_env \<Rightarrow> string \<Rightarrow> string \<Rightarrow> bool" for v root where
  tree_root: "in_tree v root root"
| tree_below: "te_stat v (git_path d) = None \<Longrightarrow> dir_name d \<noteq> d \<Longrightarrow> in_tree v root (dir_name d) \<Longrightarrow> in_tree v root d"

lemma walk_in_tree: "in_tree v root d \<Longrightarrow> te_stat v (git_path root) \<noteq> None \<Longrightarrow> resolve_walk v dir d = resolve_walk v dir root"
proof (induction rule: in_tree.induct)
  case (tree_below d)
  then show ?case by (subst resolve_walk.simps) simp
qed simp

text \<open>A directory by its absolute path, with no link in it.\<close>

definition real_dir :: "tree_env \<Rightarrow> string \<Rightarrow> bool" where
  "real_dir v d \<longleftrightarrow> is_abs d \<and> clean d = d \<and> te_real v d = Some d"

lemma resolve_real: "real_dir v d \<Longrightarrow> resolve v d = resolve_walk v d d"
  by (simp add: resolve_def abs_path_def real_dir_def)

section \<open>Properties\<close>

text \<open>The \<open>.git\<close> file of a linked tree names its directory, and that one the repository it belongs to.\<close>

definition points_to :: "tree_env \<Rightarrow> string \<Rightarrow> string \<Rightarrow> bool" where
  "points_to v f g \<longleftrightarrow> (\<exists>b r. te_read v f = Some b \<and> cut_prefix ''gitdir:'' (trim_space b) = Some r \<and> trim_space r = g)"

definition common_dir :: "tree_env \<Rightarrow> string \<Rightarrow> string \<Rightarrow> bool" where
  "common_dir v g c \<longleftrightarrow> (\<exists>b. te_read v (join_paths [g, ''commondir'']) = Some b \<and> trim_space b = c)"

definition worktree_dir :: "string \<Rightarrow> string \<Rightarrow> string" where
  "worktree_dir root name = join_paths [join_paths [git_path root, ''worktrees''], name]"

lemma git_names: "name_part ''.git''" "name_part ''worktrees''"
  by (simp_all add: name_part_def plain_part_def)

lemma linked_root:
  assumes "real_dir v root" and "name_part name" and "points_to v f (worktree_dir root name)"
    and "common_dir v (worktree_dir root name) (''..'' @ slash # ''..'')"
  shows "main_repo_root v f = root"
proof -
  obtain ps where ps: "root = rooted ps" "settled True (rev ps)" using assms(1) by (auto simp: real_dir_def elim: rooted_parts)
  have g: "git_path root = rooted (ps @ [''.git''])" using join_name [OF git_names(1) ps(2)] by (simp add: git_path_def ps(1))
  note st = settled_name [OF git_names(1) ps(2)]
  have w: "worktree_dir root name = rooted ((ps @ [''.git'']) @ [''worktrees'', name])"
    using join_name [OF git_names(2) st] join_name [OF assms(2) settled_name [OF git_names(2) st]] by (simp add: worktree_dir_def g)
  have up: "join_paths [worktree_dir root name, ''..'' @ slash # ''..''] = rooted (ps @ [''.git''])"
    unfolding w by (rule join_up [OF git_names(2) assms(2) st])
  have "is_abs (worktree_dir root name)" by (simp add: w rooted_def is_abs_def)
  moreover have "clean (rooted (ps @ [''.git''])) = rooted (ps @ [''.git''])" by (rule clean_rooted [OF st])
  moreover have "base_name (rooted (ps @ [''.git''])) = ''.git''" "dir_name (rooted (ps @ [''.git''])) = root"
    using base_rooted dir_rooted [OF _ ps(2)] git_names(1) by (simp_all add: name_part_def ps(1))
  moreover have "\<not> is_abs (''..'' @ slash # ''..'')" by (simp add: is_abs_def)
  ultimately show ?thesis
    using assms(1,3,4) up by (auto simp: main_repo_root_def points_to_def common_dir_def real_dir_def Let_def)
qed

text \<open>
  C27. All working trees of a repository are one workspace. A directory of the main tree and a directory of
  any linked tree, whatever their depth and wherever the trees lie, resolve to the same scope,
  the root of the main tree, so the agents in them see each other.
\<close>

theorem worktrees_share_scope:
  assumes "real_dir v root" and "te_stat v (git_path root) = Some True"
    and "te_stat v (git_path tree) = Some False" and "name_part name"
    and "points_to v (git_path tree) (worktree_dir root name)" and "common_dir v (worktree_dir root name) (''..'' @ slash # ''..'')"
    and "real_dir v d" and "in_tree v root d \<or> in_tree v tree d"
  shows "resolve v d = root"
proof -
  have m: "main_repo_root v (git_path tree) = root" by (rule linked_root [OF assms(1,4-6)])
  have "root \<noteq> []" using assms(1) by (auto simp: real_dir_def is_abs_def)
  then have "resolve_walk v d root = root" "resolve_walk v d tree = root"
    using assms(2,3) m by (simp_all add: resolve_walk.simps)
  then show ?thesis using assms(2,3,8) walk_in_tree [of v root d d] walk_in_tree [of v tree d d] by (auto simp: resolve_real [OF assms(7)])
qed

definition sample_tree :: tree_env where
  "sample_tree = \<lparr>te_wd = None, te_real = Some,
     te_stat = (\<lambda>p. if p = rooted [''r'', ''.git''] then Some True else if p = rooted [''w'', ''.git''] then Some False else None),
     te_read = (\<lambda>p. if p = rooted [''w'', ''.git''] then Some (''gitdir: '' @ rooted [''r'', ''.git'', ''worktrees'', ''n''] @ [chr 10])
       else if p = rooted [''r'', ''.git'', ''worktrees'', ''n'', ''commondir''] then Some (''..'' @ slash # ''..'' @ [chr 10]) else None)\<rparr>"

theorem worktrees_share_scope_witness:
  "resolve sample_tree (rooted [''w'', ''a'', ''b'']) = rooted [''r'']"
proof (rule worktrees_share_scope [of sample_tree "rooted [''r'']" "rooted [''w'']" "''n''"])
  show "real_dir sample_tree (rooted [''r''])" "real_dir sample_tree (rooted [''w'', ''a'', ''b''])"
    by (simp_all add: real_dir_def sample_tree_def) (code_simp, code_simp)
  show "te_stat sample_tree (git_path (rooted [''r''])) = Some True" "te_stat sample_tree (git_path (rooted [''w''])) = Some False"
    by code_simp+
  show "name_part ''n''" by (simp add: name_part_def plain_part_def)
  show "points_to sample_tree (git_path (rooted [''w''])) (worktree_dir (rooted [''r'']) ''n'')"
    unfolding points_to_def by (intro exI [of _ "''gitdir: '' @ rooted [''r'', ''.git'', ''worktrees'', ''n''] @ [chr 10]"]
      exI [of _ "'' '' @ rooted [''r'', ''.git'', ''worktrees'', ''n'']"] conjI; code_simp)
  show "common_dir sample_tree (worktree_dir (rooted [''r'']) ''n'') (''..'' @ slash # ''..'')"
    unfolding common_dir_def by (intro exI [of _ "''..'' @ slash # ''..'' @ [chr 10]"] conjI; code_simp)
  have "dir_name (rooted [''w'', ''a'', ''b'']) = rooted [''w'', ''a'']" "dir_name (rooted [''w'', ''a'']) = rooted [''w'']"
      "te_stat sample_tree (git_path (rooted [''w'', ''a'', ''b''])) = None" "te_stat sample_tree (git_path (rooted [''w'', ''a''])) = None"
    by code_simp+
  then have "in_tree sample_tree (rooted [''w'']) (rooted [''w'', ''a'', ''b''])"
    using tree_root [of sample_tree "rooted [''w'']"] tree_below [of sample_tree "rooted [''w'', ''a'']" "rooted [''w'']"]
      tree_below [of sample_tree "rooted [''w'', ''a'', ''b'']" "rooted [''w'']"] by (simp add: rooted_def)
  then show "in_tree sample_tree (rooted [''r'']) (rooted [''w'', ''a'', ''b'']) \<or> in_tree sample_tree (rooted [''w'']) (rooted [''w'', ''a'', ''b''])" ..
qed

section \<open>The socket and the database\<close>

record path_env =
  pe_var :: "string \<Rightarrow> string"
  pe_uid :: nat
  pe_tmp :: string
  pe_home :: "string + string"
  pe_owned :: "string \<Rightarrow> bool"
  pe_mkdir :: "string \<Rightarrow> string option"

definition sock_name :: string where "sock_name = ''agent-coordinator.sock''"

definition run_user_dir :: "path_env \<Rightarrow> string" where
  "run_user_dir v = ''/run/user/'' @ dec_nat (pe_uid v)"

text \<open>The same socket for every process of the user, whatever else its launcher kept of the environment.\<close>

definition default_socket :: "path_env \<Rightarrow> string" where
  "default_socket v =
     (if pe_var v ''XDG_RUNTIME_DIR'' \<noteq> [] then join_paths [pe_var v ''XDG_RUNTIME_DIR'', sock_name]
      else if pe_owned v (run_user_dir v) then join_paths [run_user_dir v, sock_name]
      else join_paths [join_paths [pe_tmp v, ''agent-coordinator-'' @ dec_nat (pe_uid v)], sock_name])"

definition socket_path :: "path_env \<Rightarrow> string" where
  "socket_path v = (if pe_var v ''AC_SOCKET'' \<noteq> [] then pe_var v ''AC_SOCKET'' else default_socket v)"

definition client_addr :: "path_env \<Rightarrow> string" where
  "client_addr v = (let a = trim_space (pe_var v ''AC_ADDR'') in if a \<noteq> [] then a else ''unix://'' @ socket_path v)"

definition made :: "path_env \<Rightarrow> string \<Rightarrow> 'a \<Rightarrow> string + 'a" where
  "made v dir r = (case pe_mkdir v dir of Some e \<Rightarrow> Inl e | None \<Rightarrow> Inr r)"

definition default_db :: "path_env \<Rightarrow> string + string" where
  "default_db v = bind_sum (if pe_var v ''XDG_STATE_HOME'' \<noteq> [] then Inr (pe_var v ''XDG_STATE_HOME'')
       else map_sum id (\<lambda>h. join_paths [h, ''.local'', ''state'']) (pe_home v))
     (\<lambda>base. let dir = join_paths [base, ''agent-coordinator''] in made v dir (join_paths [dir, ''coordinator.db'']))"

definition db_path :: "path_env \<Rightarrow> string + string" where
  "db_path v = (if pe_var v ''AC_DB'' \<noteq> [] then made v (dir_name (pe_var v ''AC_DB'')) (pe_var v ''AC_DB'') else default_db v)"

definition bind_dir :: "path_env \<Rightarrow> string + string" where
  "bind_dir v = bind_sum (db_path v) (\<lambda>db. let dir = join_paths [dir_name db, ''bind''] in made v dir dir)"

definition relay_token_path :: "path_env \<Rightarrow> string + string" where
  "relay_token_path v = map_sum id (\<lambda>db. join_paths [dir_name db, ''relay.token'']) (db_path v)"

section \<open>Starting a daemon\<close>

definition spawn_cooldown :: int where "spawn_cooldown = 5 * ns_second"

text \<open>
  \<open>maybeSpawn\<close>: whether to dial again, whether a daemon was started, and the stamp after it. The stamp is
  the time the file beside the socket was touched, if there is one.
\<close>

record spawn_try =
  sp_now :: int
  sp_forbidden :: bool
  sp_exe :: bool
  sp_starts :: bool
  sp_touches :: bool

definition maybe_spawn :: "spawn_try \<Rightarrow> int option \<Rightarrow> (bool \<times> bool) \<times> int option" where
  "maybe_spawn t stamp =
     (if sp_forbidden t then ((False, False), stamp)
      else if (case stamp of Some at \<Rightarrow> sp_now t - at < spawn_cooldown | None \<Rightarrow> False) then ((True, False), stamp)
      else if \<not> sp_exe t \<or> \<not> sp_starts t then ((False, False), stamp)
      else ((True, True), if sp_touches t then Some (sp_now t) else stamp))"

text \<open>
  \<open>Dial\<close>: the first dial, and what happens while it waits. A tick dials again; when the daemon it started
  is gone it dials once more; the end of the list is the end of the window. \<open>Died\<close> happens only to a
  caller that started the daemon.
\<close>

datatype redial = Tick bool | Died bool

fun redialled :: "bool \<Rightarrow> redial list \<Rightarrow> bool" where
  "redialled own [] = False"
| "redialled own (Tick up # rs) = (up \<or> redialled own rs)"
| "redialled own (Died up # rs) = (if own then up else redialled own rs)"

definition dial :: "bool \<Rightarrow> spawn_try \<Rightarrow> int option \<Rightarrow> redial list \<Rightarrow> bool \<times> int option" where
  "dial up t stamp rs = (if up then (True, stamp)
     else (case maybe_spawn t stamp of ((again, own), stamp') \<Rightarrow> (again \<and> redialled own rs, stamp')))"

text \<open>The times at which a row of callers starts daemons.\<close>

fun spawn_times :: "spawn_try list \<Rightarrow> int option \<Rightarrow> int list" where
  "spawn_times [] stamp = []"
| "spawn_times (t # ts) stamp = (case maybe_spawn t stamp of
     ((again, own), stamp') \<Rightarrow> (if own then [sp_now t] else []) @ spawn_times ts stamp')"

lemma spawns_after_stamp:
  assumes "\<forall>t \<in> set ts. sp_touches t" and "x \<in> set (spawn_times ts (Some at))"
  shows "at + spawn_cooldown \<le> x"
  using assms
proof (induction ts arbitrary: at)
  case (Cons t ts)
  have "0 < spawn_cooldown" by (simp add: spawn_cooldown_def ns_second_def)
  then show ?case using Cons by (auto simp: maybe_spawn_def split: if_splits) fastforce
qed simp

text \<open>Callers that take turns start daemons a cooldown apart, so a daemon that crashes is not forked on every call.\<close>

lemma spawns_are_throttled:
  assumes "\<forall>t \<in> set ts. sp_touches t"
  shows "sorted_wrt (\<lambda>a b. a + spawn_cooldown \<le> b) (spawn_times ts stamp)"
  using assms
proof (induction ts arbitrary: stamp)
  case (Cons t ts)
  then show ?case using spawns_after_stamp [of ts _ "sp_now t"]
    by (auto simp: maybe_spawn_def split: if_splits option.splits)
qed simp

end
