(* ===== verification/Client.thy ===== *)
theory Client
  imports Scope Frames
begin

text \<open>
  The part every command of \<open>cmd/agent-coordinator\<close> shares (\<open>client.go\<close>): whom to dial, what
  authority a request carries over TCP, and the file that keeps a session's secret; and the command
  \<open>join\<close> (\<open>join.go\<close>). The main result is that an agent that joined over TCP stays itself: every later
  join with its file speaks as the same session, with the same secret. Flags are parsed already.
\<close>

section \<open>The environment of a command\<close>

record shell =
  sh_paths :: path_env
  sh_tree :: tree_env
  sh_pid :: nat
  sh_now :: int
  sh_random :: "string + string"
  sh_found :: bool
  sh_exe :: "string option"

definition env_var :: "shell \<Rightarrow> string \<Rightarrow> string" where
  "env_var v n = trim_space (pe_var (sh_paths v) n)"

definition session_from_env :: "shell \<Rightarrow> string" where
  "session_from_env v = (case filter (\<lambda>t. t \<noteq> []) (map (env_var v)
       [''CLAUDE_CODE_SESSION_ID'', ''GROK_SESSION_ID'', ''CODEX_SESSION_ID'', ''AC_SESSION_ID'']) of
     [] \<Rightarrow> [] | t # _ \<Rightarrow> t)"

definition caller_session :: "shell \<Rightarrow> string + string" where
  "caller_session v = (let id = session_from_env v in
     if id = [] then Inl ''no session id: run agent-coordinator join or set CLAUDE_CODE_SESSION_ID, GROK_SESSION_ID, CODEX_SESSION_ID, or AC_SESSION_ID''
     else Inr id)"

definition cwd_scope :: "shell \<Rightarrow> string" where
  "cwd_scope v = (let s = env_var v ''AC_SCOPE'' in
     if s \<noteq> [] then s
     else resolve (sh_tree v) (case te_wd (sh_tree v) of None \<Rightarrow> ''.'' | Some d \<Rightarrow> d))"

text \<open>\<open>WaitProgram\<close> of \<open>hookcli.go\<close>: how a hint names this program.\<close>

definition wait_program :: "shell \<Rightarrow> string" where
  "wait_program v = (if sh_found v then ''agent-coordinator''
     else (case sh_exe v of
        None \<Rightarrow> ''agent-coordinator''
      | Some e \<Rightarrow> if contains '' '' e then dquote # e @ [dquote] else e))"

section \<open>Dialling\<close>

definition unix_sock_addr :: "shell \<Rightarrow> string" where
  "unix_sock_addr v = ''unix://'' @ socket_path (sh_paths v)"

definition coordinator_addr :: "shell \<Rightarrow> string" where
  "coordinator_addr v = (let a = env_var v ''AC_ADDR'' in if a \<noteq> [] then a else unix_sock_addr v)"

definition is_tcp_addr :: "string \<Rightarrow> bool" where
  "is_tcp_addr addr \<longleftrightarrow> has_prefix ''tcp://'' addr"

datatype dial_target = TcpTarget string | UnixTarget string

definition dial_coordinator :: "shell \<Rightarrow> string \<Rightarrow> dial_target" where
  "dial_coordinator v given =
     (let addr = (if given = [] then coordinator_addr v else given) in
      case cut_prefix ''tcp://'' addr of
        Some a \<Rightarrow> TcpTarget a
      | None \<Rightarrow> (case cut_prefix ''unix://'' addr of Some a \<Rightarrow> UnixTarget a | None \<Rightarrow> UnixTarget addr))"

text \<open>The connection, with the daemon behind it: the response, or why there is none.\<close>

type_synonym wire = "dial_target \<Rightarrow> request \<Rightarrow> string + response"

definition call_once :: "wire \<Rightarrow> shell \<Rightarrow> string \<Rightarrow> request \<Rightarrow> response \<times> string option" where
  "call_once call v addr q = (case call (dial_coordinator v addr) q of
     Inl e \<Rightarrow> (no_response, Some e)
   | Inr r \<Rightarrow> if rs_ok r then (r, None)
       else (r, Some (if rs_error r = [] then ''request failed'' else rs_error r)))"

section \<open>The credential file\<close>

record session_cred =
  sn_id :: string
  sn_secret :: string

definition no_cred :: session_cred where
  "no_cred = \<lparr>sn_id = [], sn_secret = []\<rparr>"

definition cred_json :: "session_cred \<Rightarrow> json" where
  "cred_json c = JObj [(''session_id'', JStr (sn_id c)), (''session_secret'', JStr (sn_secret c))]"

definition cred_fields :: "(string \<times> session_cred decoder) list" where
  "cred_fields = [(''session_id'', put_text (\<lambda>t. sn_id_update (\<lambda>_. t))),
     (''session_secret'', put_text (\<lambda>t. sn_secret_update (\<lambda>_. t)))]"

text \<open>What \<open>Lstat\<close> says of the path, and what reading it gives; a link is \<open>Odd\<close> and may be read all the same.\<close>

datatype file_sort = Absent | StatError string | Plain | Odd

record cred_file =
  cf_sort :: file_sort
  cf_read :: "string + string"

text \<open>A file that is not such a document holds the secret alone, as older versions wrote it.\<close>

definition load_cred :: "cred_file \<Rightarrow> string + session_cred" where
  "load_cred f = (case cf_read f of
     Inl e \<Rightarrow> Inl e
   | Inr b \<Rightarrow>
       (let raw = trim_space b; (c, fits) = unmarshal_into (dec_struct False cred_fields) no_cred raw in
        if fits \<and> (sn_secret c \<noteq> [] \<or> sn_id c \<noteq> []) then Inr c else Inr \<lparr>sn_id = [], sn_secret = raw\<rparr>))"

text \<open>Written beside the path and renamed onto it; \<open>broken\<close> is the failure of any step of that.\<close>

definition save_cred :: "string option \<Rightarrow> session_cred \<Rightarrow> cred_file \<Rightarrow> string + cred_file" where
  "save_cred broken c f = (case cf_sort f of
     Odd \<Rightarrow> Inl ''cred file must be a regular file''
   | StatError e \<Rightarrow> Inl e
   | _ \<Rightarrow> (case broken of
        Some e \<Rightarrow> Inl e
      | None \<Rightarrow> Inr \<lparr>cf_sort = Plain, cf_read = Inr (json_print (cred_json c) @ [chr 10])\<rparr>))"

section \<open>Authority over TCP\<close>

definition relay_token_shape :: "string \<Rightarrow> bool" where
  "relay_token_shape t \<longleftrightarrow> length t = 64 \<and> to_lower t = t \<and> list_all is_hex t"

definition apply_relay_auth :: "shell \<Rightarrow> string \<Rightarrow> cred_file option \<Rightarrow> request \<Rightarrow> string + request" where
  "apply_relay_auth v addr file q =
     (if \<not> is_tcp_addr addr then Inr q
      else (let token = env_var v ''AC_TOKEN''; secret = env_var v ''AC_SESSION_SECRET'' in
        if token \<noteq> [] \<and> \<not> relay_token_shape token then Inl ''AC_TOKEN must hold 64 lowercase hex characters''
        else (case (if secret = [] then file else None) of
            None \<Rightarrow> Inr (q\<lparr>q_token := token, q_secret := secret\<rparr>)
          | Some f \<Rightarrow>
              if cf_sort f \<noteq> Plain then Inr (q\<lparr>q_token := token, q_secret := secret\<rparr>)
              else (case load_cred f of
                  Inl e \<Rightarrow> Inl e
                | Inr c \<Rightarrow> Inr (q\<lparr>q_session := (if q_session q = [] then sn_id c else q_session q),
                    q_token := token, q_secret := sn_secret c\<rparr>)))))"

section \<open>Joining\<close>

record join_flags =
  jf_session :: string
  jf_source :: string
  jf_kind :: string
  jf_scope :: string
  jf_addr :: string
  jf_cred :: string
  jf_platform :: string
  jf_caps :: string

definition split_caps :: "string \<Rightarrow> string list option" where
  "split_caps s = (case filter (\<lambda>p. p \<noteq> []) (map trim_space (split_on (CHR '','') s)) of [] \<Rightarrow> None | ps \<Rightarrow> Some ps)"

definition or_else :: "string \<Rightarrow> string \<Rightarrow> string" where
  "or_else a b = (if a \<noteq> [] then a else b)"

text \<open>The session a join speaks as: the flag, the environment, the file, or one made up.\<close>

definition join_session :: "shell \<Rightarrow> join_flags \<Rightarrow> session_cred \<Rightarrow> string + string" where
  "join_session v fl loaded =
     (let id = or_else (trim_space (jf_session fl)) (session_from_env v) in
      if id \<noteq> [] \<and> sn_id loaded \<noteq> [] \<and> id \<noteq> sn_id loaded then
        Inl (''session id '' @ go_quote id @ '' does not match cred-file id '' @ go_quote (sn_id loaded))
      else Inr (or_else id (or_else (sn_id loaded) (''join-'' @ dec_nat (sh_pid v) @ ''-'' @ dec_int (sh_now v)))))"

text \<open>Over TCP the secret, a new one if there is none, is on disk before it is used.\<close>

definition keep_secret :: "shell \<Rightarrow> string option \<Rightarrow> string \<Rightarrow> string \<Rightarrow> cred_file \<Rightarrow> string + string \<times> cred_file" where
  "keep_secret v broken session secret disk =
     (case (if secret = [] then sh_random v else Inr secret) of
        Inl e \<Rightarrow> Inl e
      | Inr k \<Rightarrow> (case save_cred broken \<lparr>sn_id = session, sn_secret = k\<rparr> disk of
           Inl e \<Rightarrow> Inl (''write cred file: '' @ e)
         | Inr d \<Rightarrow> Inr (k, d)))"

definition join_request :: "shell \<Rightarrow> join_flags \<Rightarrow> string \<Rightarrow> request" where
  "join_request v fl session = zero_request\<lparr>q_op := ''register'', q_scope := or_else (trim_space (jf_scope fl)) (cwd_scope v),
     q_session := session, q_source := jf_source fl, q_kind := or_else (trim_space (jf_kind fl)) (env_var v ''AC_KIND''),
     q_platform := trim_space (jf_platform fl),
     q_caps := (let caps = trim_space (jf_caps fl) in if caps \<noteq> [] then split_caps caps else None)\<rparr>"

text \<open>
  All of \<open>doJoin\<close> before the daemon is asked: the address and the request, or an error; and the file at the
  path of \<open>-cred-file\<close>, which \<open>disk\<close> was before.
\<close>

definition join_plan :: "shell \<Rightarrow> join_flags \<Rightarrow> string option \<Rightarrow> cred_file \<Rightarrow> (string + string \<times> request) \<times> cred_file" where
  "join_plan v fl broken disk =
     (let addr = or_else (trim_space (jf_addr fl)) (coordinator_addr v); named = trim_space (jf_cred fl) \<noteq> [] in
      if is_tcp_addr addr \<and> \<not> named then
        (Inl ''tcp join requires -cred-file PATH (session secret is written there, never printed)'', disk)
      else
       (let loaded = (if named then (case load_cred disk of Inr c \<Rightarrow> c | Inl _ \<Rightarrow> no_cred) else no_cred) in
        case join_session v fl loaded of
          Inl e \<Rightarrow> (Inl e, disk)
        | Inr session \<Rightarrow>
            (let found = or_else (env_var v ''AC_SESSION_SECRET'') (sn_secret loaded) in
             case (if is_tcp_addr addr then keep_secret v broken session found disk else Inr (found, disk)) of
               Inl e \<Rightarrow> (Inl e, disk)
             | Inr (secret, disk') \<Rightarrow>
                 (case apply_relay_auth v addr (if named then Some disk' else None) (join_request v fl session) of
                    Inl e \<Rightarrow> (Inl e, disk')
                  | Inr q \<Rightarrow> (Inr (addr, if secret \<noteq> [] then q\<lparr>q_secret := secret\<rparr> else q), disk')))))"

definition join_text :: "shell \<Rightarrow> string \<Rightarrow> string" where
  "join_text v name = ''[coordinator] you are '' @ CHR 0x27 # name @ CHR 0x27 # '' in this workspace. Peer tools (MCP agent-coordinator): status_board, list_agents, send_message, read_messages, broadcast. To stay reachable while waiting or delegating, run: '' @
     wait_program v @ '' wait '' @ CHR 0x27 # name @ CHR 0x27 # '' -timeout 570 - it exits the moment new mail arrives. Background it only if your harness re-invokes you when a background task exits (Claude Code does; Codex does not); otherwise block on it in the foreground before yielding.'' @ [chr 10]"

definition join_answer :: "shell \<Rightarrow> response \<times> string option \<Rightarrow> string + string" where
  "join_answer v a = (case a of (r, err) \<Rightarrow>
     if err = None \<and> rs_name r \<noteq> [] then Inr (join_text v (rs_name r))
     else Inl (or_else (case err of Some e \<Rightarrow> e | None \<Rightarrow> rs_error r) ''register failed''))"

definition do_join :: "wire \<Rightarrow> shell \<Rightarrow> join_flags \<Rightarrow> string option \<Rightarrow> cred_file \<Rightarrow> (string + string) \<times> cred_file" where
  "do_join call v fl broken disk = (case join_plan v fl broken disk of
     (Inl e, d) \<Rightarrow> (Inl e, d)
   | (Inr (addr, q), d) \<Rightarrow> (join_answer v (call_once call v addr q), d))"

section \<open>The file, read back\<close>

lemma escape_rune_utf8: "rb \<in> set (runes s) \<Longrightarrow> valid_utf8 (escape_rune rb)"
proof -
  assume rb: "rb \<in> set (runes s)"
  obtain r bs where e: "rb = (r, bs)" by fastforce
  show ?thesis
  proof (cases "is_bad_rune rb")
    case True
    then have "escape_rune rb = backslash # ''ufffd''" by (auto simp: escape_rune_def is_bad_rune_def rune_error_def e)
    then show ?thesis by (simp add: valid_utf8_ascii is_ascii_def byte_def)
  next
    case False
    then have g: "good_rune (r, bs)" using good_runes [OF rb] e by simp
    have hex: "is_ascii (hex4_text r)" using hex4_text_hex(1) [of r] by (auto simp: is_ascii_def list_all_iff byte_class_defs)
    from g have "valid_utf8 (escape_rune (r, bs))"
    proof (cases rule: escape_rune_cases)
      case multi
      have "runes bs = [(r, bs)]" using runes_append [of "[(r, bs)]" "[]"] g by simp
      then show ?thesis using multi False e by (simp add: valid_utf8_def)
    qed (auto intro!: valid_utf8_ascii simp: is_ascii_def byte_def hex [unfolded is_ascii_def byte_def])
    then show ?thesis by (simp add: e)
  qed
qed

lemma valid_utf8_concat: "\<forall>t \<in> set ts. valid_utf8 t \<Longrightarrow> valid_utf8 (concat ts)"
  by (induction ts) (simp_all add: valid_utf8_append valid_utf8_ascii is_ascii_def)

lemma json_string_utf8: "valid_utf8 (json_string s)"
proof -
  have "valid_utf8 (escape_text s)" unfolding escape_text_def by (rule valid_utf8_concat) (auto intro: escape_rune_utf8)
  then have "valid_utf8 ([dquote] @ escape_text s @ [dquote])"
    by (intro valid_utf8_append) (auto intro: valid_utf8_ascii simp: is_ascii_def byte_def)
  then show ?thesis by (simp add: json_string_def)
qed

text \<open>A text in braces has no space around it but the line end.\<close>

lemma trim_braced:
  assumes "valid_utf8 m"
  shows "trim_space (CHR ''{'' # m @ CHR ''}'' # [chr 10]) = CHR ''{'' # m @ ''}''"
proof -
  have r: "runes (CHR ''{'' # t) = (123, ''{'') # runes t" for t by (simp add: byte_def)
  have "runes (CHR ''}'' # [chr 10]) = [(125, ''}''), (10, [chr 10])]" by code_simp
  then have "runes (m @ CHR ''}'' # [chr 10]) = runes m @ [(125, ''}''), (10, [chr 10])]"
    using runes_append [of "runes m" "CHR ''}'' # [chr 10]"] valid_utf8_good [OF assms] by (simp add: concat_runes del: runes.simps)
  then show ?thesis using r by (simp add: trim_space_def is_space_def concat_runes)
qed

lemma cred_text: "json_print (cred_json c) =
    CHR ''{'' # (json_string ''session_id'' @ CHR '':'' # json_string (sn_id c) @ CHR '','' # json_string ''session_secret'' @ CHR '':'' # json_string (sn_secret c)) @ ''}''"
  by (simp add: cred_json_def)

lemma dec_cred_json: "dec_struct False cred_fields (cred_json c) no_cred = (c, True)"
  by (cases c) (auto simp: dec_struct_def cred_json_def cred_fields_def find_field_def no_cred_def Let_def both_def)

definition cred_ok :: "session_cred \<Rightarrow> bool" where
  "cred_ok c \<longleftrightarrow> valid_utf8 (sn_id c) \<and> valid_utf8 (sn_secret c) \<and> sn_id c \<noteq> []"

lemma load_saved:
  assumes "save_cred broken c f = Inr d" and "cred_ok c"
  shows "cf_sort d = Plain" and "load_cred d = Inr c"
proof -
  have d: "d = \<lparr>cf_sort = Plain, cf_read = Inr (json_print (cred_json c) @ [chr 10])\<rparr>"
    using assms(1) by (auto simp: save_cred_def split: file_sort.splits option.splits)
  then show "cf_sort d = Plain" by simp
  let ?m = "json_string ''session_id'' @ [CHR '':''] @ json_string (sn_id c) @ [CHR '',''] @ json_string ''session_secret'' @ [CHR '':''] @ json_string (sn_secret c)"
  have "valid_utf8 ?m" by (intro valid_utf8_append json_string_utf8) (auto intro: valid_utf8_ascii simp: is_ascii_def byte_def)
  from trim_braced [OF this] have t: "trim_space (json_print (cred_json c) @ [chr 10]) = json_print (cred_json c)"
    by (simp add: cred_text)
  have "wf_json (cred_json c)" "json_depth (cred_json c) \<le> max_nesting"
    using assms(2) by (simp_all add: cred_json_def cred_ok_def max_nesting_def valid_utf8_ascii is_ascii_def byte_def)
  then have "json_unmarshal (json_print (cred_json c)) = Some (cred_json c)" by (rule unmarshal_printed)
  then show "load_cred d = Inr c"
    using assms(2) by (simp add: load_cred_def d t unmarshal_into_def dec_cred_json cred_ok_def del: json_print.simps)
qed

section \<open>Staying oneself\<close>

text \<open>Joins one after the other with the file at one path: the requests that go out.\<close>

fun joins :: "(shell \<times> join_flags \<times> string option) list \<Rightarrow> cred_file \<Rightarrow> request list" where
  "joins [] d = []"
| "joins ((v, fl, broken) # js) d = (case join_plan v fl broken d of
     (Inl e, d') \<Rightarrow> joins js d'
   | (Inr (a, q), d') \<Rightarrow> q # joins js d')"

definition holds :: "cred_file \<Rightarrow> session_cred \<Rightarrow> bool" where
  "holds d c \<longleftrightarrow> cf_sort d = Plain \<and> load_cred d = Inr c \<and> cred_ok c \<and> sn_secret c \<noteq> []"

lemma or_else_simps [simp]: "or_else [] b = b" "a \<noteq> [] \<Longrightarrow> or_else a b = a" "or_else a b = [] \<longleftrightarrow> a = [] \<and> b = []"
  by (auto simp: or_else_def)

lemma join_session_some: "join_session v fl c = Inr s \<Longrightarrow> s \<noteq> [] \<and> (sn_id c \<noteq> [] \<longrightarrow> s = sn_id c)"
  by (auto simp: join_session_def or_else_def Let_def split: if_splits)

lemma auth_secret:
  assumes "apply_relay_auth v addr (Some d) q = Inr q'" and "q_session q \<noteq> []"
  shows "q_session q' = q_session q"
  using assms by (auto simp: apply_relay_auth_def Let_def split: if_splits option.splits sum.splits)

lemma keep_secret_holds:
  assumes "keep_secret v broken session secret d = Inr (k, d')" and "valid_utf8 session" and "valid_utf8 k" and "session \<noteq> []" and "k \<noteq> []"
  shows "holds d' \<lparr>sn_id = session, sn_secret = k\<rparr>" and "secret \<noteq> [] \<Longrightarrow> k = secret"
proof -
  have s: "save_cred broken \<lparr>sn_id = session, sn_secret = k\<rparr> d = Inr d'" and k: "secret \<noteq> [] \<longrightarrow> k = secret"
    using assms(1) by (auto simp: keep_secret_def split: sum.splits if_splits)
  have c: "cred_ok \<lparr>sn_id = session, sn_secret = k\<rparr>" using assms(2-4) by (simp add: cred_ok_def)
  from load_saved [OF s c] show "holds d' \<lparr>sn_id = session, sn_secret = k\<rparr>" using c assms(5) by (simp add: holds_def)
  show "secret \<noteq> [] \<Longrightarrow> k = secret" using k by simp
qed

lemma join_keeps:
  assumes "holds d c" and "trim_space (jf_cred fl) \<noteq> []" and "env_var v ''AC_SESSION_SECRET'' = []" and "join_plan v fl broken d = (r, d')"
  shows "holds d' c \<and> (\<forall>a q. r = Inr (a, q) \<longrightarrow> q_session q = sn_id c \<and> q_secret q = sn_secret c)"
proof -
  have c: "load_cred d = Inr c" "sn_id c \<noteq> []" "sn_secret c \<noteq> []" "valid_utf8 (sn_id c)" "valid_utf8 (sn_secret c)" "\<lparr>sn_id = sn_id c, sn_secret = sn_secret c\<rparr> = c"
    using assms(1) by (auto simp: holds_def cred_ok_def)
  let ?addr = "or_else (trim_space (jf_addr fl)) (coordinator_addr v)"
  show ?thesis
  proof (cases "join_session v fl c")
    case (Inl e)
    then show ?thesis using assms c by (auto simp: join_plan_def Let_def)
  next
    case (Inr s)
    then have s: "s = sn_id c" using join_session_some c(2) by blast
    have q: "q_session (join_request v fl s) = s" by (simp add: join_request_def)
    show ?thesis
    proof (cases "is_tcp_addr ?addr")
      case False
      then show ?thesis using assms c Inr s q by (auto simp: join_plan_def apply_relay_auth_def Let_def)
    next
      case True
      show ?thesis
      proof (cases "keep_secret v broken s (sn_secret c) d")
        case (Inl e)
        then show ?thesis using assms c Inr True by (auto simp: join_plan_def Let_def)
      next
        case (Inr kd)
        obtain k d1 where kd: "kd = (k, d1)" by fastforce
        have k: "k = sn_secret c" using Inr kd c(3) by (auto simp: keep_secret_def split: sum.splits)
        have h: "holds d1 c" using keep_secret_holds(1) [OF Inr [unfolded kd]] c s k by simp
        show ?thesis
          using assms(2-4) c Inr kd k h s q \<open>join_session v fl c = Inr s\<close> True auth_secret [of v ?addr d1 "join_request v fl s"]
          by (cases "apply_relay_auth v ?addr (Some d1) (join_request v fl s)") (auto simp: join_plan_def Let_def)
      qed
    qed
  qed
qed

lemma join_starts:
  assumes "join_plan v fl broken d0 = (Inr (a, q), d)" and "is_tcp_addr a" and "valid_utf8 (q_session q)" and "valid_utf8 (q_secret q)" and "q_secret q \<noteq> []"
  shows "holds d \<lparr>sn_id = q_session q, sn_secret = q_secret q\<rparr>"
proof -
  obtain s secret k q1 where s: "s \<noteq> []" and k: "keep_secret v broken s secret d0 = Inr (k, d)"
    and env: "secret = [] \<longrightarrow> env_var v ''AC_SESSION_SECRET'' = []"
    and q1: "apply_relay_auth v a (Some d) (join_request v fl s) = Inr q1" and q: "q = (if k \<noteq> [] then q1\<lparr>q_secret := k\<rparr> else q1)"
    using assms(1,2) join_session_some
    by (auto simp: join_plan_def Let_def split: if_splits sum.splits prod.splits) (metis or_else_simps(3))+
  have sess: "q_session q = s" using auth_secret [OF q1] s q by (simp add: join_request_def)
  have "k \<noteq> []"
  proof
    assume none: "k = []"
    then have sv: "save_cred broken \<lparr>sn_id = s, sn_secret = []\<rparr> d0 = Inr d" and "secret = []"
      using k by (auto simp: keep_secret_def split: sum.splits if_splits)
    moreover have "cred_ok \<lparr>sn_id = s, sn_secret = []\<rparr>" using assms(3) sess s by (simp add: cred_ok_def valid_utf8_def)
    ultimately have "q_secret q1 = []" using load_saved q1 env assms(2) by (auto simp: apply_relay_auth_def Let_def split: if_splits)
    then show False using none q assms(5) by simp
  qed
  then show ?thesis using keep_secret_holds(1) [OF k] assms(3-5) sess s q by simp
qed

lemma joins_hold:
  assumes "holds d c" and "\<forall>(w, gl, broken) \<in> set js. trim_space (jf_cred gl) \<noteq> [] \<and> env_var w ''AC_SESSION_SECRET'' = []" and "q \<in> set (joins js d)"
  shows "q_session q = sn_id c \<and> q_secret q = sn_secret c"
  using assms
proof (induction js arbitrary: d)
  case (Cons j js)
  obtain w gl broken where j: "j = (w, gl, broken)" by (metis surj_pair)
  obtain r d' where p: "join_plan w gl broken d = (r, d')" by fastforce
  have k: "holds d' c" "\<forall>a q. r = Inr (a, q) \<longrightarrow> q_session q = sn_id c \<and> q_secret q = sn_secret c"
    using join_keeps [OF Cons.prems(1) _ _ p] Cons.prems(2) j by auto
  then show ?case using Cons p j by (cases r) auto
qed simp

text \<open>
  C26. An agent that joined over TCP stays itself. Once a join has sent a request with a session and a secret over
  TCP, every later join with its credential file, whatever its flags, its address, the clock and the
  random bytes, and however often the disk fails it, sends that same session and secret or nothing at all; a
  session id that the flags or the environment give and the file does not is refused, never adopted.
\<close>

theorem join_keeps_identity:
  assumes "join_plan v fl broken d0 = (Inr (a, q), d)" and "is_tcp_addr a"
    and "valid_utf8 (q_session q)" and "valid_utf8 (q_secret q)" and "q_secret q \<noteq> []"
    and "\<forall>(w, gl, b) \<in> set js. trim_space (jf_cred gl) \<noteq> [] \<and> env_var w ''AC_SESSION_SECRET'' = []"
    and "q' \<in> set (joins js d)"
  shows "q_session q' = q_session q \<and> q_secret q' = q_secret q"
  using joins_hold [OF join_starts [OF assms(1-5)] assms(6,7)] by simp

definition bare_shell :: "nat \<Rightarrow> string \<Rightarrow> shell" where
  "bare_shell pid random = \<lparr>sh_paths = \<lparr>pe_var = (\<lambda>n. if n = ''AC_ADDR'' then ''tcp://h:1'' else if n = ''AC_SCOPE'' then ''w'' else []),
     pe_uid = 0, pe_tmp = [], pe_home = Inl [], pe_owned = (\<lambda>_. False), pe_mkdir = (\<lambda>_. None)\<rparr>,
     sh_tree = \<lparr>te_wd = None, te_real = (\<lambda>_. None), te_stat = (\<lambda>_. None), te_read = (\<lambda>_. None)\<rparr>,
     sh_pid = pid, sh_now = 7, sh_random = Inr random, sh_found = True, sh_exe = None\<rparr>"

definition bare_flags :: join_flags where
  "bare_flags = \<lparr>jf_session = [], jf_source = ''join'', jf_kind = [], jf_scope = [], jf_addr = [], jf_cred = ''f'', jf_platform = [], jf_caps = []\<rparr>"

lemma bare_joins:
  "(let r = join_plan (bare_shell 1 ''aa'') bare_flags None \<lparr>cf_sort = Absent, cf_read = Inl []\<rparr> in
   case fst r of Inl e \<Rightarrow> False | Inr (a, q) \<Rightarrow> is_tcp_addr a \<and> q_session q = ''join-1-7'' \<and> q_secret q = ''aa'' \<and>
     joins [(bare_shell 2 ''bb'', bare_flags, None)] (snd r) \<noteq> [])"
  by code_simp

theorem join_keeps_identity_witness:
  "\<exists>q'. q' \<in> set (joins [(bare_shell 2 ''bb'', bare_flags, None)]
      (snd (join_plan (bare_shell 1 ''aa'') bare_flags None \<lparr>cf_sort = Absent, cf_read = Inl []\<rparr>))) \<and>
    q_session q' = ''join-1-7'' \<and> q_secret q' = ''aa''"
proof -
  let ?js = "[(bare_shell 2 ''bb'', bare_flags, None)]"
  define r where "r = join_plan (bare_shell 1 ''aa'') bare_flags None \<lparr>cf_sort = Absent, cf_read = Inl []\<rparr>"
  have b: "case fst r of Inl e \<Rightarrow> False | Inr (a, q) \<Rightarrow> is_tcp_addr a \<and> q_session q = ''join-1-7'' \<and> q_secret q = ''aa'' \<and> joins ?js (snd r) \<noteq> []"
    using bare_joins unfolding Let_def r_def .
  obtain x d where r: "r = (x, d)" by (cases r)
  then obtain a q where x: "x = Inr (a, q)" using b by (cases x) auto
  have p: "join_plan (bare_shell 1 ''aa'') bare_flags None \<lparr>cf_sort = Absent, cf_read = Inl []\<rparr> = (Inr (a, q), d)" using r x by (simp only: r_def)
  have a: "is_tcp_addr a" and q: "q_session q = ''join-1-7''" "q_secret q = ''aa''" and js: "joins ?js d \<noteq> []"
    using b unfolding r x by simp_all
  have u: "valid_utf8 (q_session q)" "valid_utf8 (q_secret q)" unfolding q by (intro valid_utf8_ascii; code_simp)+
  have "trim_space (jf_cred bare_flags) \<noteq> [] \<and> env_var (bare_shell 2 ''bb'') ''AC_SESSION_SECRET'' = []" by code_simp
  then have gl: "\<forall>(w, gl, b) \<in> set ?js. trim_space (jf_cred gl) \<noteq> [] \<and> env_var w ''AC_SESSION_SECRET'' = []" by simp
  obtain q' where q': "q' \<in> set (joins ?js d)" using js list.set_sel(1) by blast
  have "q_secret q \<noteq> []" by (simp add: q)
  from join_keeps_identity [OF p a u this gl q'] show ?thesis using q q' unfolding p by auto
qed

end
