(* ===== verification/Cli.thy ===== *)
theory Cli
  imports Client RequestRound
begin

text \<open>
  The commands of \<open>cmd/agent-coordinator\<close> that ask the daemon one thing and print the answer: \<open>relay.go\<close>
  and \<open>board.go\<close>. A command is given its flags, parsed, and whether arguments were left over; it ends with
  what it printed and its exit code.
\<close>

section \<open>Printing\<close>

text \<open>An \<open>Encoder\<close> with two spaces of indent.\<close>

fun pretty_print :: "nat \<Rightarrow> json \<Rightarrow> string" where
  "pretty_print l (JArr js) =
     (if js = [] then ''[]''
      else ''['' @ join '','' (map (\<lambda>j. new_line (Suc l) @ pretty_print (Suc l) j) js) @ new_line l @ '']'')"
| "pretty_print l (JObj kvs) =
     (if kvs = [] then ''{}''
      else ''{'' @ join '','' (map (\<lambda>(k, v). new_line (Suc l) @ json_string k @ '': '' @ pretty_print (Suc l) v) kvs)
        @ new_line l @ ''}'')"
| "pretty_print l j = json_print j"

definition emit_json :: "('a \<Rightarrow> json) \<Rightarrow> 'a list \<Rightarrow> string" where
  "emit_json f xs = pretty_print 0 (JArr (map f xs)) @ [newline]"

record cli_exit =
  oc_out :: string
  oc_err :: string
  oc_code :: nat

definition shown :: "string \<Rightarrow> cli_exit" where
  "shown t = \<lparr>oc_out = t, oc_err = [], oc_code = 0\<rparr>"

definition shown_lines :: "string list \<Rightarrow> cli_exit" where
  "shown_lines ls = shown (concat (map (\<lambda>l. l @ [newline]) ls))"

definition misused :: "string \<Rightarrow> cli_exit" where
  "misused u = \<lparr>oc_out = [], oc_err = u @ [newline], oc_code = 2\<rparr>"

definition failed_with :: "string \<Rightarrow> string \<Rightarrow> cli_exit" where
  "failed_with cmd e = \<lparr>oc_out = [], oc_err = cmd @ '': '' @ e @ [newline], oc_code = 1\<rparr>"

definition two_digits :: "int \<Rightarrow> string" where
  "two_digits n = (if n < 10 then ''0'' else []) @ dec_int n"

definition human_dur :: "int \<Rightarrow> string" where
  "human_dur n = (let s = \<bar>n\<bar> in
     if s < 60 then dec_int s @ ''s''
     else if s < 3600 then dec_int (s div 60) @ ''m'' @ two_digits (s mod 60) @ ''s''
     else dec_int (s div 3600) @ ''h'' @ two_digits (s mod 3600 div 60) @ ''m'')"

definition eyes_remaining :: "eyes_task_info \<Rightarrow> string" where
  "eyes_remaining t = (if ti_overdue t then ''OVERDUE by '' @ human_dur (ti_remaining t)
     else if ti_state t \<notin> {''queued'', ''accepted''} then ''remaining=-''
     else ''remaining='' @ human_dur (ti_remaining t))"

definition eyes_progress_cell :: "eyes_task_info \<Rightarrow> string" where
  "eyes_progress_cell t = join '' '' ((if 0 < ti_turns t then [''turns='' @ dec_int (ti_turns t)] else [])
     @ (if ti_tool t \<noteq> [] then [''tool='' @ ti_tool t] else [])
     @ [if ti_heartbeat t = 0 \<and> ti_stale t then ''hb=STALE:never''
        else if ti_heartbeat t = 0 then ''hb=-''
        else if ti_stale t then ''hb=STALE:'' @ human_dur (ti_heartbeat_age t)
        else ''hb='' @ human_dur (ti_heartbeat_age t)])"

definition eyes_task_line :: "eyes_task_info \<Rightarrow> string" where
  "eyes_task_line t = pad_right 20 (ti_task t) @ '' '' @ pad_right 7 (ti_runtime t) @ '' '' @ pad_right 9 (ti_state t) @
     '' elapsed='' @ pad_right 8 (human_dur (ti_elapsed t)) @ '' '' @ pad_right 20 (eyes_remaining t) @ '' '' @
     pad_right 28 (eyes_progress_cell t) @ '' '' @ ti_agent t @ ''@'' @ ti_scope t"

section \<open>Asking\<close>

definition must_once :: "wire \<Rightarrow> shell \<Rightarrow> string \<Rightarrow> request \<Rightarrow> cli_exit + response" where
  "must_once call v cmd q = (case call_once call v (unix_sock_addr v) q of
     (r, Some e) \<Rightarrow> Inl (failed_with cmd e) | (r, None) \<Rightarrow> Inr r)"

definition after :: "cli_exit + 'a \<Rightarrow> ('a \<Rightarrow> cli_exit) \<Rightarrow> cli_exit" where
  "after x f = (case x of Inl o' \<Rightarrow> o' | Inr a \<Rightarrow> f a)"

text \<open>The files a command may read, and its standard input.\<close>

record inputs =
  in_file :: "string \<Rightarrow> string + string"
  in_stdin :: "string + string"

definition read_body :: "inputs \<Rightarrow> string \<Rightarrow> string \<Rightarrow> string + string" where
  "read_body x literal file =
     (if file \<noteq> [] \<and> literal \<noteq> [] then Inl ''use only one of -body and -body-file''
      else if file \<noteq> [] then in_file x file
      else if literal = ''-'' then in_stdin x
      else Inr literal)"

definition cli_target :: "string \<Rightarrow> string \<Rightarrow> string \<Rightarrow> agent_ref option" where
  "cli_target workspace to_name aid =
     (if workspace = [] \<and> to_name = [] \<and> aid = [] then None
      else (let r = \<lparr>ref_name = [], ref_id = aid, ref_scope = workspace\<rparr> in
        Some (if to_name \<noteq> [] \<and> aid = [] then
            (if length to_name = 12 \<and> list_all is_lower_hex to_name then r\<lparr>ref_id := to_name\<rparr> else r\<lparr>ref_name := to_name\<rparr>)
          else if to_name \<noteq> [] then r\<lparr>ref_name := to_name\<rparr> else r)))"

section \<open>Listings\<close>

definition workspace_line :: "workspace_info \<Rightarrow> string" where
  "workspace_line w = wi_scope w @ '' live='' @ dec_nat (wi_live w) @ '' eyes='' @ dec_nat (wi_eyes w) @ '' launchers='' @ dec_nat (wi_launchers w)"

definition eyes_agent_line :: "agent_info \<Rightarrow> string" where
  "eyes_agent_line a = pad_right 16 (ai_name a) @ '' '' @ pad_right 8 (status_text (ai_status a)) @ '' id='' @ ai_id a @
     '' kind='' @ ai_kind a @ '' scope='' @ ai_scope a"

definition cli_listing :: "bool \<Rightarrow> ('a \<Rightarrow> json) \<Rightarrow> string \<Rightarrow> ('a \<Rightarrow> string) \<Rightarrow> 'a list \<Rightarrow> cli_exit" where
  "cli_listing as_json f none line xs = (if as_json then shown (emit_json f xs)
     else if xs = [] then shown_lines [none] else shown_lines (map line xs))"

definition run_workspaces :: "wire \<Rightarrow> shell \<Rightarrow> bool \<Rightarrow> bool \<Rightarrow> cli_exit" where
  "run_workspaces call v extra as_json =
     (if extra then misused ''usage: agent-coordinator workspaces [--json]''
      else after (must_once call v ''workspaces'' (zero_request\<lparr>q_op := ''list_workspaces'', q_scope := cwd_scope v\<rparr>))
        (\<lambda>r. cli_listing as_json workspace_json ''no workspaces'' workspace_line (rs_workspaces r)))"

definition tasks_request :: "shell \<Rightarrow> bool \<Rightarrow> request" where
  "tasks_request v mine = zero_request\<lparr>q_op := ''list_eyes_tasks'', q_scope := cwd_scope v, q_mine := mine\<rparr>"

definition run_eyes_tasks :: "wire \<Rightarrow> shell \<Rightarrow> bool \<Rightarrow> bool \<Rightarrow> cli_exit" where
  "run_eyes_tasks call v as_json mine = after (must_once call v ''eyes'' (tasks_request v mine))
     (\<lambda>r. cli_listing as_json task_info_json ''no eyes tasks'' eyes_task_line (rs_tasks r))"

definition run_eyes :: "wire \<Rightarrow> shell \<Rightarrow> bool \<Rightarrow> bool \<Rightarrow> bool \<Rightarrow> bool \<Rightarrow> cli_exit" where
  "run_eyes call v extra as_json tasks mine =
     (if extra then misused ''usage: agent-coordinator eyes [--tasks] [--mine] [--json]''
      else if tasks then run_eyes_tasks call v as_json mine
      else after (must_once call v ''eyes'' (zero_request\<lparr>q_op := ''list_eyes'', q_scope := cwd_scope v\<rparr>))
        (\<lambda>r. cli_listing as_json agent_json ''no eyes agents'' eyes_agent_line (rs_agents r)))"

section \<open>The board\<close>

definition board_line :: "agent_info \<Rightarrow> string" where
  "board_line a = pad_right 16 (ai_name a) @ '' '' @ pad_right 8 (status_text (ai_status a)) @ '' id='' @ ai_id a @
     (if ai_task a \<noteq> [] then '' task='' @ ai_task a else if ai_activity a \<noteq> [] then '' '' @ ai_activity a else []) @
     (if 0 < ai_pending a \<or> 0 < ai_done a then '' pending='' @ dec_nat (ai_pending a) @ '' done='' @ dec_nat (ai_done a) else []) @
     (if items (ai_files a) \<noteq> [] then '' files='' @ join '','' (items (ai_files a)) else [])"

definition fetch_board :: "wire \<Rightarrow> string \<Rightarrow> string \<Rightarrow> bool \<Rightarrow> bool \<Rightarrow> string + agent_info list" where
  "fetch_board call socket sc now_only gone =
     (case call (UnixTarget socket) (zero_request\<lparr>q_op := (if now_only then ''agents'' else ''board''), q_scope := sc, q_gone := gone\<rparr>) of
        Inl e \<Rightarrow> Inl e
      | Inr r \<Rightarrow> if rs_ok r then Inr (rs_agents r) else Inl (rs_error r))"

text \<open>A slice that stayed nil is printed as \<open>null\<close>.\<close>

definition run_board :: "wire \<Rightarrow> shell \<Rightarrow> bool \<Rightarrow> bool \<Rightarrow> bool \<Rightarrow> bool \<Rightarrow> cli_exit" where
  "run_board call v extra now_only everyone as_json =
     (if extra \<or> now_only \<and> everyone then misused ''usage: agent-coordinator board [--live|--all] [--json]''
      else (case fetch_board call (socket_path (sh_paths v))
          (resolve (sh_tree v) (case te_wd (sh_tree v) of None \<Rightarrow> ''.'' | Some d \<Rightarrow> d)) now_only everyone of
          Inl e \<Rightarrow> failed_with ''board'' e
        | Inr found \<Rightarrow>
            (let agents = (if \<not> now_only \<and> \<not> everyone then filter (\<lambda>a. ai_status a = Active \<or> ai_status a = Idle) found else found) in
             if as_json \<and> found = [] then shown_lines [''null'']
             else cli_listing as_json agent_json ''no agents in this workspace'' board_line agents)))"

section \<open>Mail and tasks\<close>

definition caller :: "string \<Rightarrow> shell \<Rightarrow> cli_exit + string" where
  "caller cmd v = map_sum (failed_with cmd) id (caller_session v)"

definition run_relay :: "wire \<Rightarrow> shell \<Rightarrow> inputs \<Rightarrow> bool \<Rightarrow> string \<Rightarrow> string \<Rightarrow> string \<Rightarrow> string \<Rightarrow> string \<Rightarrow> cli_exit" where
  "run_relay call v x extra workspace to_name aid body file =
     (if extra \<or> body = [] \<and> file = [] then
        misused ''usage: agent-coordinator relay [-workspace SCOPE] [-to NAME] [-agent-id ID] (-body TEXT|- | -body-file FILE)''
      else after (caller ''relay'' v) (\<lambda>sid.
        after (map_sum (failed_with ''relay'') (\<lambda>b. b) (read_body x body file)) (\<lambda>b.
        after (must_once call v ''relay'' (zero_request\<lparr>q_op := ''send_workspace'', q_scope := cwd_scope v, q_session := sid,
          q_body := b, q_target := cli_target workspace to_name aid\<rparr>)) (\<lambda>r. shown_lines [''ok'']))))"

definition summon_request :: "shell \<Rightarrow> string \<Rightarrow> string \<Rightarrow> string \<Rightarrow> int \<Rightarrow> request" where
  "summon_request v sid runtime brief timeout = zero_request\<lparr>q_op := ''request_eyes'', q_scope := cwd_scope v, q_session := sid,
     q_runtime := runtime, q_brief := brief, q_deadline := timeout\<rparr>"

text \<open>The hint to wait names the caller, if the daemon knows it.\<close>

definition arm_hint :: "wire \<Rightarrow> shell \<Rightarrow> string \<Rightarrow> string" where
  "arm_hint call v sid =
     (case call_once call v (unix_sock_addr v) (zero_request\<lparr>q_op := ''whoami'', q_scope := cwd_scope v, q_session := sid\<rparr>) of
        (w, None) \<Rightarrow> (if rs_name w \<noteq> [] then newline # ''arm: '' @ wait_program v @ '' wait '' @ CHR 0x27 # rs_name w @ [CHR 0x27] else [])
      | (w, Some e) \<Rightarrow> [])"

definition summon_text :: "response \<Rightarrow> string" where
  "summon_text r = ''task_id='' @ rs_task r @ (case rs_launcher r of
     Some l \<Rightarrow> if ref_name l \<noteq> [] then '' launcher='' @ ref_name l else [] | None \<Rightarrow> [])"

definition run_summon :: "wire \<Rightarrow> shell \<Rightarrow> inputs \<Rightarrow> bool \<Rightarrow> string \<Rightarrow> string \<Rightarrow> string \<Rightarrow> int \<Rightarrow> cli_exit" where
  "run_summon call v x extra runtime brief file timeout =
     (if extra \<or> brief = [] \<and> file = [] then
        misused ''usage: agent-coordinator request-eyes|summon [-runtime claude|codex|grok] [-timeout N] (-brief TEXT|- | -brief-file FILE)''
      else if timeout \<noteq> 0 \<and> (timeout < 300 \<or> 1800 < timeout) then misused ''request-eyes: -timeout must be between 300 and 1800''
      else after (caller ''request-eyes'' v) (\<lambda>sid.
        after (map_sum (failed_with ''request-eyes'') (\<lambda>b. b) (read_body x brief file)) (\<lambda>b.
        after (must_once call v ''request-eyes'' (summon_request v sid runtime b timeout)) (\<lambda>r.
          if rs_task r = [] then failed_with ''request-eyes'' ''daemon returned no task_id''
          else shown_lines [summon_text r @ arm_hint call v sid]))))"

definition run_cancel_eyes :: "wire \<Rightarrow> shell \<Rightarrow> string list \<Rightarrow> cli_exit" where
  "run_cancel_eyes call v args = (case args of
     [task] \<Rightarrow> after (caller ''cancel-eyes'' v) (\<lambda>sid.
       after (must_once call v ''cancel-eyes'' (zero_request\<lparr>q_op := ''cancel_eyes'', q_scope := cwd_scope v, q_session := sid, q_task := task\<rparr>))
         (\<lambda>r. shown_lines [''cancelled '' @ task]))
   | _ \<Rightarrow> misused ''usage: agent-coordinator cancel-eyes <task_id>'')"

section \<open>With the daemon\<close>

text \<open>
  A command and a daemon whose store is \<open>s\<close>: the answer to each request by itself, over the unix socket, which
  brings a request as it was sent (\<open>requests_arrive_whole\<close>). A command that sends one request meets no other state.
\<close>

definition daemon_wire :: "string \<Rightarrow> time \<Rightarrow> store \<Rightarrow> wire" where
  "daemon_wire suffix now s = (\<lambda>target q. Inr (snd (dispatch suffix now q s)))"

text \<open>
  \<open>eyes --tasks --mine\<close> sends no session, so the daemon cannot know whose tasks are meant: it looks for the row of the
  empty session. The command never lists the tasks of the session that runs it.
\<close>

lemma mine_names_nobody: "q_session (tasks_request v mine) = [] \<and> q_from (tasks_request v mine) = []"
  by (simp add: tasks_request_def zero_request_def)

lemma mine_is_refused:
  assumes "row_at (cwd_scope v) [] s = None"
  shows "oc_code (run_eyes (daemon_wire suffix now s) v False as_json True True) = 1"
proof -
  have "\<not> rs_ok (snd (dispatch suffix now (tasks_request v True) s))"
    using assms
    by (simp add: dispatch_def tasks_request_def zero_request_def relay_row_caller_def retarget_def bind_actor_def from_ops_def
        heartbeat_def task_report_def send_ops_def serve_def on_list_tasks_def eyes_owner_def resolve_actor_def identity_of_def fail_def
        empty_ref_def error_response_def no_response_def)
  then show ?thesis by (simp add: run_eyes_def run_eyes_tasks_def must_once_def call_once_def daemon_wire_def after_def failed_with_def)
qed

end
