(* ===== verification/Spec2Isabelle.thy ===== *)
theory Spec2Isabelle
  imports DaemonProps HostProps RetryProps WaitProps HookProps McpProps MachineProps Token SetupProps Cli
begin

text \<open>
  A model of the agent coordinator: how coding agents of one machine, and brokers of other
  machines, find each other, exchange mail and hand out tasks.

  \<^bold>\<open>The program.\<close> One daemon per user (\<open>internal/daemon\<close>) holds a database
  (\<open>internal/store\<close>) and answers one JSON frame per connection (\<open>internal/protocol\<close>) from a unix
  socket and, for brokers, from a TCP listener behind the relay gate. Its clients are: the hook
  command a host agent runs on every event (\<open>internal/hookcli\<close>, with \<open>internal/activity\<close>), the MCP
  server it starts beside itself (\<open>internal/mcpserv\<close>), the \<open>wait\<close> command that blocks until mail is
  there (\<open>cmd/agent-coordinator/wait.go\<close>), and the host broker (\<open>internal/hostbroker\<close>), which polls
  its mail for tasks and runs a provider for each (\<open>internal/hostrunner\<close>). A task (``host eyes'')
  goes from a requester through the daemon's ledger as mail to a broker, from there to a provider
  process, and back as lifecycle reports, which the daemon alone may turn into state and mail.

  \<^bold>\<open>Conventions.\<close> A Go string is the list of its bytes. A slice that may be nil is an optional list.
  An error is a left value, with the text the code gives it. Instants and durations are integers
  in nanoseconds; where the code overflows (durations, hashes, identifiers) the arithmetic is on
  words or wraps explicitly. A table is the list of its rows in rowid order and a primary key is
  an invariant (\<open>schema_ok\<close>). Operations take the store and return it changed. What the code reads
  from outside is an argument: the clock, random identifiers and secrets, the answers of the disk,
  of the process table and of other processes, the platform's sealing of files, and the value of a
  conversion of a float that is out of range.

  \<^bold>\<open>Foundations.\<close> \<open>Prelude\<close> has time, the row idioms, runs of a step relation, and two locales for
  ledgers: \<open>once_drain\<close> (each entry is handed out at most once) and \<open>reservation\<close> (a load that never
  passes its limit). \<open>GoText\<close> has the functions of \<open>strings\<close>, \<open>bytes\<close>, \<open>unicode/utf8\<close> and \<open>strconv\<close>
  the code uses, \<open>Values\<close> has \<open>float64\<close> and \<open>path/filepath\<close>, \<open>Sha256\<close> the hashes. \<open>Json\<close> and \<open>Wire\<close> are
  \<open>encoding/json\<close>: the printer, the reader and the decoding into a struct, strict or not.
  \<open>JsonRound\<close> shows that what was printed is read back.

  \<^bold>\<open>The wire.\<close> \<open>Protocol\<close>: ops, reports and their documents (\<open>protocol.go\<close>, \<open>taskid.go\<close>). \<open>Request\<close> and
  \<open>Frames\<close>: the two frames; \<open>RequestRound\<close> shows that the daemon decodes the request a client
  printed. \<open>ReportRound\<close>: a lifecycle report is recognised and decoded as what was printed.

  \<^bold>\<open>The store.\<close> \<open>Schema\<close>: the tables of \<open>store.go\<close> with the locale \<open>table\<close>, interpreted on each.
  \<open>Identity\<close>: registration with its retries and handle choice, \<open>whoami\<close>, actors (\<open>names.go\<close>).
  \<open>Messaging\<close>: sending, reading, peeking, notices and history (\<open>history.go\<close>); mail is handed out
  once, by interpretations of \<open>once_drain\<close>. \<open>Claims\<close>: \<open>claims.go\<close>, whose statements are not one
  transaction; other agents act between them through a parameter. \<open>Relay\<close>: launcher and child
  sessions and their secrets (\<open>relay.go\<close>). \<open>Eyes\<close>: the task ledger (\<open>eyes.go\<close>); \<open>EyesLaws\<close> and
  \<open>EyesProps\<close> show its lifecycle and that no broker holds two tasks (an interpretation of
  \<open>reservation\<close>), \<open>EyesMoves\<close> who may move a task and which mail goes out in the same step. \<open>Board\<close>:
  hook events, the board, decay and purges.

  \<^bold>\<open>The daemon.\<close> \<open>Gate\<close>: \<open>relaygate.go\<close>. \<open>Report\<close>: reserved bodies in outgoing mail (\<open>eyes.go\<close>).
  \<open>Daemon\<close>: \<open>daemon.go\<close>, one line in and one frame out for every op, the sweep and housekeeping.
  \<open>DaemonRows\<close> bounds what each operation may do to the rows, \<open>DaemonLaws\<close> composes this over the
  dispatcher, \<open>DaemonProps\<close> states what callers may rely on, \<open>MailMoves\<close> what happens to mail.

  \<^bold>\<open>The host side.\<close> \<open>Stream\<close> and \<open>Runner\<close>: \<open>stream.go\<close>, \<open>types.go\<close>, \<open>provider.go\<close>, \<open>runner.go\<close>, with
  \<open>RunnerProps\<close>. \<open>HostJournal\<close>: \<open>journal.go\<close>, with the locale \<open>task_journal\<close> for what the broker needs
  of a journal, interpreted on the sealed file; \<open>JournalProps\<close>. \<open>HostState\<close>: \<open>state.go\<close> and the
  refusals of \<open>client.go\<close>. \<open>Retry\<close> and \<open>RetryProps\<close>: the reconnect loop. \<open>HostBroker\<close>: \<open>broker.go\<close> as
  the steps of a main loop and its workers, crashes included; \<open>BrokerProps\<close> has its invariant,
  \<open>FailureText\<close> the bodies it sends, and \<open>HostProps\<close> the properties, which join broker, runner,
  journal and daemon.

  \<^bold>\<open>The clients.\<close> \<open>Activity\<close>: \<open>activity.go\<close>. \<open>Binds\<close>: the bind files of \<open>bind.go\<close>, by which an MCP server
  finds the session its host's hook registered; \<open>BindProps\<close>. \<open>Hook\<close>: \<open>hookcli.go\<close>; \<open>HookProps\<close>. \<open>Mcp\<close>:
  \<open>mcpserv.go\<close>; \<open>McpProps\<close>. \<open>Wait\<close>: \<open>wait.go\<close>; \<open>WaitProps\<close> puts waiters beside the daemon.

  \<^bold>\<open>Installation.\<close> \<open>Settings\<close>: a settings file decoded into maps and written back, with the shortest
  decimals of its numbers; what was written is read back as the same tree. \<open>Installer\<close> and
  \<open>Machine\<close>: \<open>installer.go\<close>, the merges and removals on such trees, and the two commands over the
  files of a machine. \<open>InstallerProps\<close> and \<open>MachineProps\<close>: a merge settles a file and keeps what is not
  ours, removal undoes it, and a second installation changes nothing.

  \<^bold>\<open>Where things are.\<close> \<open>Address\<close>: the address check of \<open>paths/relay.go\<close> and \<open>hostbroker/client.go\<close>, with
  the functions of \<open>net\<close> both rest on; a broker accepts what a daemon listens on. \<open>Token\<close>: the shared token
  of \<open>paths/relay.go\<close>, minted by daemons that race and crash. \<open>Paths\<close>: laws of clean paths. \<open>Scope\<close>:
  \<open>scope.go\<close>, by which the trees of a repository are one workspace, the paths of \<open>internal/paths\<close>, and
  \<open>dialer.go\<close>, which starts a daemon at most once in a cooldown.

  \<^bold>\<open>The command line.\<close> \<open>Client\<close>: \<open>client.go\<close> and \<open>join.go\<close>; an agent that joined over TCP stays itself.
  \<open>Cli\<close>: \<open>relay.go\<close> and \<open>board.go\<close>, the commands that send one request and print the answer.

  \<^bold>\<open>The eyes set-up.\<close> \<open>Setup\<close>: \<open>eyes_setup.go\<close>, thirteen steps between WSL and Windows that thread a
  state with a log of every command, question, file and download. \<open>SetupProps\<close>: one set of rules shows
  of every step what its log may grow by; so a dry run only asks, and the broker is installed only
  behind all the gates before it.

  \<^bold>\<open>Fuel and loops.\<close> The JSON reader takes fuel \<open>2 * length s + 2\<close> and a nesting bound of 10000, the
  one of the library; \<open>parse_fuel\<close> shows that more fuel changes nothing. Registration and claiming
  loop for the number of attempts the code has. The retry loop of the broker and the polling loop
  of \<open>wait\<close> may run for ever and are partial functions; \<open>retry_ends\<close> and \<open>wait_ends\<close> say exactly or
  sufficiently when they return. Everything else is total.

  \<^bold>\<open>Concurrency.\<close> The daemon serialises its transactions, so a frame is one step, but for the
  operations that are several statements (registration, claims), where a parameter acts between
  them. The broker's goroutines interleave freely in \<open>broker_step\<close>; a crash keeps the journal and
  nothing else. The pump of progress is a relation of its two goroutines. Waiters, their
  cursor file and the daemon interleave in \<open>wait_step\<close>.

  \<^bold>\<open>Not modelled.\<close> Accept loops, deadlines of connections, idle shutdown and locks of processes;
  the process guards of the runner and what the operating system does with a child beyond its
  output and exit; the broker's configuration file, scheduled task, instance lock and progress
  ticker; the paths of Windows and the attributes of a spawned process; flag parsing, the HTTP client and \<open>url.Parse\<close>
  of the set-up command, the other set-up commands and the entry points of the program. All of these are calls of the
  operating system or of packages this development does not describe, or calls of what is modelled. Letters outside ASCII keep their case in
  \<open>ToLower\<close>, \<open>ToUpper\<close> and \<open>EqualFold\<close>, paths are those of Unix, and an MCP answer is a document, so the spelling
  of a request id is not kept. Where the code takes one row of a query without an \<open>ORDER BY\<close>, which can matter only
  when one agent's name is another's id, \<open>row_named\<close> takes the first in the order of insertion. \<open>read_token\<close> leaves out
  reads of the token's file that fail although it is there, and between two lines an MCP server finds the directory of
  binds as it left it.
\<close>

end
